(* ===== verification/Prelude.thy ===== *)
theory Prelude
  imports
    Main
    "HOL-Library.Word"
    "HOL-Library.AList"
    "HOL-Library.Multiset"
    "HOL-Library.Char_ord"
    "HOL-Library.List_Lexorder"
begin

text \<open>
  What every component of the development shares: the machine types of the Go sources, bounds-checked
  indexing and slicing of byte slices (an out-of-range access is a Go panic, here \<^const>\<open>None\<close>),
  the big-endian integer encodings of \<^verbatim>\<open>encoding/binary\<close>, the string functions of
  \<^verbatim>\<open>strings\<close> that the program calls, the insertion sort of \<^verbatim>\<open>sort.Slice\<close>, and finite
  Go maps as association lists with distinct keys.
\<close>

unbundle bit_operations_syntax

section \<open>Types and collections of facts\<close>

type_synonym byte = "8 word"
type_synonym u16 = "16 word"
type_synonym u32 = "32 word"
type_synonym u64 = "64 word"

named_theorems go_defs \<open>definitions of the Go library functions, for evaluation\<close>
named_theorems bounds_simps \<open>when an index or a slice is in range\<close>
named_theorems bytes_simps \<open>facts about byte strings and their integer encodings\<close>

section \<open>Indexing and slicing\<close>

text \<open>\<open>xs[i]\<close> and \<open>xs[i:j]\<close>: \<^const>\<open>None\<close> stands for the run-time panic.\<close>

definition index_at :: "'a list \<Rightarrow> nat \<Rightarrow> 'a option" where
  "index_at xs i = (if i < length xs then Some (xs ! i) else None)"

definition subslice :: "'a list \<Rightarrow> nat \<Rightarrow> nat \<Rightarrow> 'a list option" where
  "subslice xs i j = (if i \<le> j \<and> j \<le> length xs then Some (take (j - i) (drop i xs)) else None)"

lemma index_at_eq_Some [bounds_simps]: "index_at xs i = Some x \<longleftrightarrow> i < length xs \<and> x = xs ! i"
  by (auto simp: index_at_def)

lemma index_at_eq_None [bounds_simps]: "index_at xs i = None \<longleftrightarrow> length xs \<le> i"
  by (auto simp: index_at_def)

lemma index_at_in_range: "i < length xs \<Longrightarrow> index_at xs i = Some (xs ! i)"
  by (simp add: index_at_def)

lemma subslice_eq_Some [bounds_simps]:
  "subslice xs i j = Some ys \<longleftrightarrow> i \<le> j \<and> j \<le> length xs \<and> ys = take (j - i) (drop i xs)"
  by (auto simp: subslice_def)

lemma subslice_eq_None [bounds_simps]: "subslice xs i j = None \<longleftrightarrow> j < i \<or> length xs < j"
  by (auto simp: subslice_def)

lemma subslice_append_mid:
  "i = length a \<Longrightarrow> j = i + length b \<Longrightarrow> subslice (a @ b @ c) i j = Some b"
  by (simp add: subslice_def)

lemma index_at_append_mid: "i = length a \<Longrightarrow> index_at (a @ x # c) i = Some x"
  by (simp add: index_at_def nth_append)

section \<open>Big-endian integers\<close>

text \<open>\<open>be_encode k n\<close> are the \<open>k\<close> bytes \<^verbatim>\<open>binary.BigEndian.PutUint\<close> writes for \<open>n\<close>
  converted to an unsigned integer of \<open>8 * k\<close> bits; \<open>be_decode\<close> reads them back.\<close>

fun be_encode :: "nat \<Rightarrow> nat \<Rightarrow> byte list" where
  "be_encode 0 n = []"
| "be_encode (Suc k) n = be_encode k (n div 256) @ [word_of_nat (n mod 256)]"

fun be_decode_acc :: "nat \<Rightarrow> byte list \<Rightarrow> nat" where
  "be_decode_acc a [] = a"
| "be_decode_acc a (b # bs) = be_decode_acc (a * 256 + unat b) bs"

definition be_decode :: "byte list \<Rightarrow> nat" where
  "be_decode bs = be_decode_acc 0 bs"

definition le_decode :: "byte list \<Rightarrow> nat" where
  "le_decode bs = be_decode (rev bs)"

lemma length_be_encode [simp, bytes_simps]: "length (be_encode k n) = k"
  by (induction k arbitrary: n) auto

lemma be_decode_acc_append:
  "be_decode_acc a (xs @ ys) = be_decode_acc (be_decode_acc a xs) ys"
  by (induction xs arbitrary: a) auto

lemma be_decode_Nil [simp]: "be_decode [] = 0"
  by (simp add: be_decode_def)

lemma be_decode_snoc [bytes_simps]: "be_decode (bs @ [b]) = be_decode bs * 256 + unat b"
  by (simp add: be_decode_def be_decode_acc_append)

lemma unat_byte_mod [simp]: "unat (word_of_nat (n mod 256) :: byte) = n mod 256"
  by (simp add: unat_of_nat)

lemma unat_byte_less [simp]: "unat (b :: byte) < 256"
  using unsigned_less [of b] by simp

lemma be_decode_encode [bytes_simps]: "be_decode (be_encode k n) = n mod 256 ^ k"
proof (induction k arbitrary: n)
  case 0
  then show ?case by simp
next
  case (Suc k)
  have "be_decode (be_encode (Suc k) n) = (n div 256 mod 256 ^ k) * 256 + n mod 256"
    by (simp add: be_decode_snoc Suc.IH)
  also have "\<dots> = n mod (256 * 256 ^ k)"
    by (simp add: mod_mult2_eq mult.commute)
  finally show ?case by simp
qed

lemma be_decode_less: "be_decode bs < 256 ^ length bs"
proof (induction bs rule: rev_induct)
  case Nil
  then show ?case by simp
next
  case (snoc b bs)
  have "be_decode (bs @ [b]) \<le> be_decode bs * 256 + 255"
    unfolding be_decode_snoc using unat_byte_less [of b] by linarith
  also have "\<dots> < (be_decode bs + 1) * 256" by simp
  also have "\<dots> \<le> 256 ^ length bs * 256"
    using snoc by (intro mult_le_mono) auto
  finally show ?case by (simp add: mult.commute)
qed

lemma be_encode_decode [bytes_simps]: "length bs = k \<Longrightarrow> be_encode k (be_decode bs) = bs"
proof (induction bs arbitrary: k rule: rev_induct)
  case Nil
  then show ?case by simp
next
  case (snoc b bs)
  then obtain j where "k = Suc j" and "length bs = j" by (cases k) auto
  moreover have "(be_decode bs * 256 + unat b) div 256 = be_decode bs"
    using unat_byte_less [of b] by simp
  moreover have "(be_decode bs * 256 + unat b) mod 256 = unat b"
    using unat_byte_less [of b] by simp
  ultimately show ?case
    using snoc.IH by (simp add: be_decode_snoc)
qed

section \<open>Go strings and byte slices\<close>

text \<open>A Go string is a sequence of bytes, which is what the eight-bit characters of HOL are. The
  conversions \<^verbatim>\<open>[]byte(s)\<close> and \<^verbatim>\<open>string(b)\<close> are the bijections below.\<close>

definition bytes_of :: "string \<Rightarrow> byte list" where
  "bytes_of s = map of_char s"

definition string_of :: "byte list \<Rightarrow> string" where
  "string_of bs = map (\<lambda>b. char_of (unat b)) bs"

lemma length_bytes_of [simp, bytes_simps]: "length (bytes_of s) = length s"
  by (simp add: bytes_of_def)

lemma length_string_of [simp, bytes_simps]: "length (string_of bs) = length bs"
  by (simp add: string_of_def)

lemma of_char_char_of_byte [simp]: "of_char (char_of (unat (b :: byte))) = b"
proof -
  have "of_char (char_of (unat b)) = (word_of_nat (of_char (char_of (unat b))) :: byte)"
    by (simp only: of_nat_of_char)
  also have "\<dots> = b" by (simp only: of_char_of) (simp add: mod_less)
  finally show ?thesis .
qed

lemma char_of_unat_of_char [simp]: "char_of (unat (of_char c :: byte)) = c"
proof -
  have "unat (of_char c :: byte) = (of_char c :: nat)"
    by (metis nat_of_char_less_256 of_nat_of_char unat_byte_mod mod_less)
  then show ?thesis by simp
qed

lemma string_of_bytes_of [simp, bytes_simps]: "string_of (bytes_of s) = s"
  by (simp add: string_of_def bytes_of_def comp_def map_idI)

lemma bytes_of_string_of [simp, bytes_simps]: "bytes_of (string_of bs) = bs"
  by (simp add: string_of_def bytes_of_def comp_def map_idI)

text \<open>The characters \<^verbatim>\<open>unicode.IsSpace\<close> accepts, as the UTF-8 sequences they have in a string.\<close>

definition space_seqs :: "string list" where
  "space_seqs =
     [[CHR 0x09], [CHR 0x0A], [CHR 0x0B], [CHR 0x0C], [CHR 0x0D], [CHR 0x20],
      [CHR 0xC2, CHR 0x85], [CHR 0xC2, CHR 0xA0], [CHR 0xE1, CHR 0x9A, CHR 0x80],
      [CHR 0xE2, CHR 0x80, CHR 0x80], [CHR 0xE2, CHR 0x80, CHR 0x81],
      [CHR 0xE2, CHR 0x80, CHR 0x82], [CHR 0xE2, CHR 0x80, CHR 0x83],
      [CHR 0xE2, CHR 0x80, CHR 0x84], [CHR 0xE2, CHR 0x80, CHR 0x85],
      [CHR 0xE2, CHR 0x80, CHR 0x86], [CHR 0xE2, CHR 0x80, CHR 0x87],
      [CHR 0xE2, CHR 0x80, CHR 0x88], [CHR 0xE2, CHR 0x80, CHR 0x89],
      [CHR 0xE2, CHR 0x80, CHR 0x8A], [CHR 0xE2, CHR 0x80, CHR 0xA8],
      [CHR 0xE2, CHR 0x80, CHR 0xA9], [CHR 0xE2, CHR 0x80, CHR 0xAF],
      [CHR 0xE2, CHR 0x81, CHR 0x9F], [CHR 0xE3, CHR 0x80, CHR 0x80]]"

fun strip_one :: "string list \<Rightarrow> string \<Rightarrow> string option" where
  "strip_one [] s = None"
| "strip_one (w # ws) s =
     (if w \<noteq> [] \<and> take (length w) s = w then Some (drop (length w) s) else strip_one ws s)"

lemma strip_one_shorter: "strip_one ws s = Some r \<Longrightarrow> length r < length s"
proof (induction ws)
  case (Cons w ws)
  show ?case
  proof (cases "w \<noteq> [] \<and> take (length w) s = w")
    case True
    then have "0 < length w" and "length w \<le> length s"
      by (auto, metis length_take min.cobounded1)
    moreover have "r = drop (length w) s" using True Cons.prems by simp
    ultimately show ?thesis unfolding \<open>r = drop (length w) s\<close> by (simp only: length_drop)
  next
    case False
    then have "strip_one ws s = Some r" using Cons.prems by (simp split: if_splits)
    then show ?thesis by (rule Cons.IH)
  qed
qed simp

function trim_front :: "string list \<Rightarrow> string \<Rightarrow> string" where
  "trim_front ws s = (case strip_one ws s of None \<Rightarrow> s | Some r \<Rightarrow> trim_front ws r)"
  by pat_completeness auto
termination
  by (relation "measure (length \<circ> snd)") (auto simp: strip_one_shorter)

declare trim_front.simps [simp del]

definition trim_space :: "string \<Rightarrow> string" where
  "trim_space s = rev (trim_front (map rev space_seqs) (rev (trim_front space_seqs s)))"

definition has_prefix :: "string \<Rightarrow> string \<Rightarrow> bool" where
  "has_prefix s p \<longleftrightarrow> take (length p) s = p"

lemma trim_front_Nil [simp]: "trim_front ws [] = []"
proof -
  have "strip_one ws [] = None" by (induction ws) auto
  then show ?thesis by (simp add: trim_front.simps [of ws "[]"])
qed

lemma trim_space_Nil [simp]: "trim_space [] = []"
  by (simp add: trim_space_def)

text \<open>Trimming leaves a string alone that starts and ends with no byte of a space.\<close>

definition space_bytes :: "string" where
  "space_bytes = concat space_seqs"

lemma strip_one_None: "(\<forall>w\<in>set ws. w \<noteq> [] \<longrightarrow> hd w \<noteq> hd s) \<Longrightarrow> strip_one ws s = None"
proof (induction ws)
  case (Cons w ws)
  have "take (length w) s \<noteq> w" if "w \<noteq> []"
  proof
    assume "take (length w) s = w"
    then have "hd w = hd s" using that by (metis hd_take length_greater_0_conv)
    then show False using Cons.prems that by simp
  qed
  with Cons show ?case by auto
qed simp

lemma space_seqs_bytes: "w \<in> set space_seqs \<Longrightarrow> set w \<subseteq> set space_bytes \<and> w \<noteq> []"
  by (auto simp: space_bytes_def) (auto simp: space_seqs_def)

lemma trim_space_plain:
  assumes "s \<noteq> []" and "hd s \<notin> set space_bytes" and "last s \<notin> set space_bytes"
  shows "trim_space s = s"
proof -
  have front: "strip_one space_seqs s = None"
    using assms(2) space_seqs_bytes by (intro strip_one_None) (metis hd_in_set subsetD)
  have rear: "strip_one (map rev space_seqs) (rev s) = None"
    using assms(1,3) space_seqs_bytes
    by (intro strip_one_None) (auto simp: hd_rev, metis last_in_set subsetD)
  show ?thesis
    by (simp add: trim_space_def trim_front.simps [of _ s] trim_front.simps [of _ "rev s"] front rear)
qed

lemma strip_one_split: "strip_one ws s = Some r \<Longrightarrow> \<exists>w\<in>set ws. s = w @ r"
  by (induction ws) (auto split: if_splits, metis append_take_drop_id)

lemma trim_front_blank: "\<exists>w. s = w @ trim_front ws s \<and> set w \<subseteq> set (concat ws)"
proof (induction ws s rule: trim_front.induct)
  case (1 ws s)
  show ?case
  proof (cases "strip_one ws s")
    case None
    then show ?thesis by (subst trim_front.simps) simp
  next
    case (Some r)
    obtain w where w: "w \<in> set ws" "s = w @ r" using strip_one_split [OF Some] by blast
    obtain v where v: "r = v @ trim_front ws r" "set v \<subseteq> set (concat ws)" using 1 [OF Some] by blast
    have "trim_front ws s = trim_front ws r" by (subst trim_front.simps) (simp add: Some)
    then show ?thesis using w v by (intro exI [of _ "w @ v"]) auto
  qed
qed

lemma trim_space_blank:
  assumes "trim_space s = []"
  shows "set s \<subseteq> set space_bytes"
proof -
  let ?t = "trim_front space_seqs s"
  have e: "trim_front (map rev space_seqs) (rev ?t) = []" using assms by (simp add: trim_space_def)
  obtain w where w: "s = w @ ?t" "set w \<subseteq> set space_bytes"
    using trim_front_blank [of s space_seqs] unfolding space_bytes_def by blast
  obtain v where "rev ?t = v @ []" "set v \<subseteq> set (concat (map rev space_seqs))"
    using trim_front_blank [of "rev ?t" "map rev space_seqs"] unfolding e by blast
  then have "set ?t \<subseteq> set space_bytes" by (auto simp: space_bytes_def)
  with w show ?thesis by (metis Un_least set_append)
qed

lemma has_prefix_append [simp]: "has_prefix (p @ s) p"
  by (simp add: has_prefix_def)

lemma has_prefixE: "has_prefix s p \<Longrightarrow> (\<And>r. s = p @ r \<Longrightarrow> P) \<Longrightarrow> P"
  unfolding has_prefix_def by (metis append_take_drop_id)

section \<open>Validation loops\<close>

text \<open>A Go \<^verbatim>\<open>error\<close> result is an option: \<^const>\<open>None\<close> is \<^verbatim>\<open>nil\<close>. A loop that returns the
  first error of a check over a slice:\<close>

fun first_error :: "('a \<Rightarrow> 'e option) \<Rightarrow> 'a list \<Rightarrow> 'e option" where
  "first_error f [] = None"
| "first_error f (x # xs) = (case f x of Some e \<Rightarrow> Some e | None \<Rightarrow> first_error f xs)"

lemma first_error_None [simp]: "first_error f xs = None \<longleftrightarrow> (\<forall>x\<in>set xs. f x = None)"
  by (induction xs) (auto split: option.splits)

lemma first_error_Some: "first_error f xs = Some e \<Longrightarrow> \<exists>x\<in>set xs. f x = Some e"
  by (induction xs) (auto split: option.splits)

text \<open>The duplicate check over a map of seen keys: the error of the first repeated key.\<close>

fun first_dup :: "'k list \<Rightarrow> 'k list \<Rightarrow> 'k option" where
  "first_dup seen [] = None"
| "first_dup seen (x # xs) = (if x \<in> set seen then Some x else first_dup (x # seen) xs)"

lemma first_dup_None: "first_dup seen xs = None \<longleftrightarrow> distinct xs \<and> set xs \<inter> set seen = {}"
  by (induction xs arbitrary: seen) auto

section \<open>Sorting slices\<close>

text \<open>\<^verbatim>\<open>sort.Slice\<close> with the comparison \<open>lt\<close>: the insertion sort Go runs on slices of up to twelve
  elements. Each element moves towards the front while it is less than its left neighbour;
  \<open>sort_insert\<close> works on the sorted part read from its end. On longer slices Go only promises an order
  in which no element is less than one before it, which \<open>sort_slice_sorted\<close> states; where the order is
  total on distinct elements the two agree.\<close>

fun sort_insert :: "('a \<Rightarrow> 'a \<Rightarrow> bool) \<Rightarrow> 'a \<Rightarrow> 'a list \<Rightarrow> 'a list" where
  "sort_insert lt x [] = [x]"
| "sort_insert lt x (y # ys) = (if lt x y then y # sort_insert lt x ys else x # y # ys)"

definition sort_slice :: "('a \<Rightarrow> 'a \<Rightarrow> bool) \<Rightarrow> 'a list \<Rightarrow> 'a list" where
  "sort_slice lt xs = rev (foldl (\<lambda>acc x. sort_insert lt x acc) [] xs)"

lemma mset_sort_insert: "mset (sort_insert lt x ys) = add_mset x (mset ys)"
  by (induction ys) auto

lemma mset_foldl_insert:
  "mset (foldl (\<lambda>acc x. sort_insert lt x acc) acc xs) = mset acc + mset xs"
  by (induction xs arbitrary: acc) (auto simp: mset_sort_insert)

lemma mset_sort_slice [simp]: "mset (sort_slice lt xs) = mset xs"
  by (simp add: sort_slice_def mset_foldl_insert)

lemma set_sort_slice [simp]: "set (sort_slice lt xs) = set xs"
  by (metis mset_sort_slice set_mset_mset)

lemma length_sort_slice [simp]: "length (sort_slice lt xs) = length xs"
  by (metis mset_sort_slice size_mset)

lemma sort_slice_Nil_iff [simp]: "sort_slice lt xs = [] \<longleftrightarrow> xs = []"
  by (metis length_0_conv length_sort_slice)

lemma sort_slice_Nil [simp]: "sort_slice lt [] = []"
  by (simp add: sort_slice_def)

text \<open>The contract of a comparison function: a strict weak order.\<close>

locale comparison =
  fixes lt :: "'a \<Rightarrow> 'a \<Rightarrow> bool"
  assumes lt_asym: "lt x y \<Longrightarrow> \<not> lt y x"
    and lt_cotrans: "lt x z \<Longrightarrow> lt x y \<or> lt y z"
begin

lemma not_lt_trans: "\<not> lt y x \<Longrightarrow> \<not> lt z y \<Longrightarrow> \<not> lt z x"
  using lt_cotrans by blast

lemma sorted_sort_insert:
  "sorted_wrt (\<lambda>a b. \<not> lt a b) ys \<Longrightarrow> sorted_wrt (\<lambda>a b. \<not> lt a b) (sort_insert lt x ys)"
proof (induction ys)
  case (Cons y ys)
  have "set (sort_insert lt x ys) = insert x (set ys)"
    by (metis mset_sort_insert set_mset_add_mset_insert set_mset_mset)
  with Cons show ?case
    by (auto dest: lt_asym) (meson lt_cotrans)
qed simp

lemma sort_slice_sorted: "sorted_wrt (\<lambda>a b. \<not> lt b a) (sort_slice lt xs)"
proof -
  have "sorted_wrt (\<lambda>a b. \<not> lt a b) acc \<Longrightarrow>
    sorted_wrt (\<lambda>a b. \<not> lt a b) (foldl (\<lambda>acc x. sort_insert lt x acc) acc xs)" for acc
    by (induction xs arbitrary: acc) (auto intro: sorted_sort_insert)
  from this [of "[]"] show ?thesis
    by (simp add: sort_slice_def sorted_wrt_rev)
qed

lemma sort_slice_hd_least:
  assumes "sort_slice lt xs = y # ys" and "x \<in> set xs"
  shows "\<not> lt x y"
proof -
  have "sorted_wrt (\<lambda>a b. \<not> lt b a) (y # ys)"
    using sort_slice_sorted [of xs] assms(1) by simp
  moreover have "x \<in> set (y # ys)"
    using assms by (metis set_sort_slice)
  ultimately show ?thesis
    using lt_asym by (auto)
qed

lemma sort_slice_hd_mem: "sort_slice lt xs = y # ys \<Longrightarrow> y \<in> set xs"
  by (metis list.set_intros(1) set_sort_slice)

end

text \<open>Comparing by a key in a linear order, and by a first key with a second one to break ties.\<close>

definition less_by :: "('a \<Rightarrow> 'k::linorder) \<Rightarrow> 'a \<Rightarrow> 'a \<Rightarrow> bool" where
  "less_by key x y \<longleftrightarrow> key x < key y"

definition less_by2 :: "('a \<Rightarrow> 'k::linorder) \<Rightarrow> ('a \<Rightarrow> 'l::linorder) \<Rightarrow> 'a \<Rightarrow> 'a \<Rightarrow> bool" where
  "less_by2 key tie x y \<longleftrightarrow> (if key x = key y then tie x < tie y else key x < key y)"

interpretation by_key: comparison "less_by key" for key :: "'a \<Rightarrow> 'k::linorder"
  by unfold_locales (auto simp: less_by_def)

interpretation by_key2: comparison "less_by2 key tie"
  for key :: "'a \<Rightarrow> 'k::linorder" and tie :: "'a \<Rightarrow> 'l::linorder"
  by unfold_locales (auto simp: less_by2_def split: if_splits)

section \<open>Finite maps\<close>

text \<open>A Go map is an association list with distinct keys: \<^const>\<open>map_of\<close> reads it,
  \<^const>\<open>AList.update\<close> and \<^const>\<open>AList.delete\<close> write it, \<open>length\<close> is \<^verbatim>\<open>len\<close> and a
  \<^verbatim>\<open>range\<close> loop runs over the list. Go leaves the order of such a loop open.\<close>

definition keys_distinct :: "('k \<times> 'v) list \<Rightarrow> bool" where
  "keys_distinct m \<longleftrightarrow> distinct (map fst m)"

lemma keys_distinct_Nil [simp]: "keys_distinct []"
  by (simp add: keys_distinct_def)

lemma keys_distinct_update [simp]: "keys_distinct m \<Longrightarrow> keys_distinct (AList.update k v m)"
  by (simp add: keys_distinct_def distinct_update)

lemma keys_distinct_delete [simp]: "keys_distinct m \<Longrightarrow> keys_distinct (AList.delete k m)"
  by (simp add: keys_distinct_def distinct_delete)

lemma keys_distinct_filter [simp]: "keys_distinct m \<Longrightarrow> keys_distinct (filter P m)"
  by (simp add: keys_distinct_def distinct_map_filter)

lemma map_of_update [simp]: "map_of (AList.update k v m) = (map_of m)(k \<mapsto> v)"
  by (simp add: update_conv')

lemma map_of_delete [simp]: "map_of (AList.delete k m) = (map_of m)(k := None)"
  by (simp add: delete_conv')

lemma length_update_le: "length (AList.update k v m) \<le> Suc (length m)"
  by (induction m) (auto)

lemma update_keys: "fst ` set (AList.update n d m) = insert n (fst ` set m)"
  by (induction m) auto

lemma set_update_subset: "set (AList.update k v m) \<subseteq> insert (k, v) (set m)"
  by (induction m) auto

end
