(* ===== verification/NetIP.thy ===== *)
theory NetIP
  imports Prelude
begin

text \<open>
  The part of \<^verbatim>\<open>net/netip\<close> the program uses: IPv4 addresses, prefixes, their textual form and the
  containment and overlap tests. \<open>ParsePrefix\<close> is the parser restricted to IPv4: an IPv6 prefix and a
  syntax error are both \<^const>\<open>None\<close>, which is how every caller in this development treats them (the
  callers test \<^verbatim>\<open>err != nil || !prefix.Addr().Is4()\<close>, or ask whether the prefix contains an IPv4
  address, which an IPv6 prefix never does).
\<close>

type_synonym addr = "32 word"

record prefix =
  p_addr :: addr
  p_bits :: nat

definition prefix_ok :: "prefix \<Rightarrow> bool" where
  "prefix_ok p \<longleftrightarrow> p_bits p \<le> 32"

section \<open>Addresses\<close>

definition AddrFrom4 :: "byte list \<Rightarrow> addr" where
  "AddrFrom4 raw = word_of_nat (be_decode raw)"

definition IsPrivate :: "addr \<Rightarrow> bool" where
  "IsPrivate a \<longleftrightarrow>
     drop_bit 24 a = 10 \<or> drop_bit 20 a = 0xAC1 \<or> drop_bit 16 a = 0xC0A8"

section \<open>Parsing\<close>

definition is_digit :: "char \<Rightarrow> bool" where
  "is_digit c \<longleftrightarrow> CHR ''0'' \<le> c \<and> c \<le> CHR ''9''"

definition digit_val :: "char \<Rightarrow> nat" where
  "digit_val c = of_char c - 48"

text \<open>\<open>parseIPv4Fields\<close>: the previous character, the value and the number of digits of the current
  field, and the fields finished so far.\<close>

fun parse_ipv4_fields ::
  "char option \<Rightarrow> nat \<Rightarrow> nat \<Rightarrow> nat list \<Rightarrow> string \<Rightarrow> nat list option" where
  "parse_ipv4_fields prev val digLen parts [] =
     (if length parts < 3 then None else Some (parts @ [val]))"
| "parse_ipv4_fields prev val digLen parts (c # cs) =
     (if is_digit c then
        (if digLen = 1 \<and> val = 0 then None
         else if 255 < val * 10 + digit_val c then None
         else parse_ipv4_fields (Some c) (val * 10 + digit_val c) (digLen + 1) parts cs)
      else if c = CHR ''.'' then
        (if prev = None \<or> cs = [] \<or> prev = Some CHR ''.'' then None
         else if length parts = 3 then None
         else parse_ipv4_fields (Some c) 0 0 (parts @ [val]) cs)
      else None)"

fun addr_kind :: "string \<Rightarrow> char option" where
  "addr_kind [] = None"
| "addr_kind (c # cs) =
     (if c \<in> {CHR ''.'', CHR '':'', CHR ''%''} then Some c else addr_kind cs)"

definition ParseAddr4 :: "string \<Rightarrow> addr option" where
  "ParseAddr4 s =
     (if addr_kind s = Some CHR ''.''
      then map_option (\<lambda>fs. AddrFrom4 (map word_of_nat fs)) (parse_ipv4_fields None 0 0 [] s)
      else None)"

fun parse_nat_acc :: "nat \<Rightarrow> string \<Rightarrow> nat option" where
  "parse_nat_acc n [] = Some n"
| "parse_nat_acc n (c # cs) =
     (if is_digit c then parse_nat_acc (n * 10 + digit_val c) cs else None)"

definition ParsePrefix :: "string \<Rightarrow> prefix option" where
  "ParsePrefix s =
     (if CHR ''/'' \<notin> set s then None
      else let r = rev s;
               ipStr = rev (tl (dropWhile (\<lambda>c. c \<noteq> CHR ''/'') r));
               bitsStr = rev (takeWhile (\<lambda>c. c \<noteq> CHR ''/'') r)
           in case ParseAddr4 ipStr of
                None \<Rightarrow> None
              | Some ip \<Rightarrow>
                  (if 1 < length bitsStr \<and> (hd bitsStr < CHR ''1'' \<or> CHR ''9'' < hd bitsStr) then None
                   else if bitsStr = [] then None
                   else case parse_nat_acc 0 bitsStr of
                          None \<Rightarrow> None
                        | Some bits \<Rightarrow>
                            if 32 < bits then None else Some \<lparr>p_addr = ip, p_bits = bits\<rparr>))"

lemma ParsePrefix_ok: "ParsePrefix s = Some p \<Longrightarrow> prefix_ok p"
  by (auto simp: ParsePrefix_def Let_def prefix_ok_def split: option.splits if_splits)

lemma slash_not_space: "CHR ''/'' \<notin> set space_bytes"
  by (simp add: space_bytes_def space_seqs_def)

lemma ParsePrefix_not_blank: "ParsePrefix s = Some q \<Longrightarrow> trim_space s \<noteq> []"
  using trim_space_blank [of s] slash_not_space by (auto simp: ParsePrefix_def split: if_splits)

section \<open>Containment, masking and overlap\<close>

text \<open>\<open>network n a\<close> are the leading \<open>n\<close> bits of \<open>a\<close>.\<close>

definition network :: "nat \<Rightarrow> addr \<Rightarrow> addr" where
  "network n a = drop_bit (32 - n) a"

definition Contains :: "prefix \<Rightarrow> addr \<Rightarrow> bool" where
  "Contains p a \<longleftrightarrow> drop_bit (32 - p_bits p) (a XOR p_addr p) = 0"

definition mask_addr :: "nat \<Rightarrow> addr \<Rightarrow> addr" where
  "mask_addr n a = push_bit (32 - n) (drop_bit (32 - n) a)"

definition Masked :: "prefix \<Rightarrow> prefix" where
  "Masked p = p\<lparr>p_addr := mask_addr (p_bits p) (p_addr p)\<rparr>"

definition Overlaps :: "prefix \<Rightarrow> prefix \<Rightarrow> bool" where
  "Overlaps p q \<longleftrightarrow>
     (if p = q then True
      else let minBits = (if p_bits p < p_bits q then p_bits p else p_bits q)
           in if minBits = 0 then True
              else mask_addr minBits (p_addr p) = mask_addr minBits (p_addr q))"

lemma word_xor_eq_0: "a XOR b = 0 \<longleftrightarrow> a = (b :: 'a::len word)"
  by (metis xor_self_eq xor.assoc xor.right_neutral xor.left_neutral)

lemma Contains_network: "Contains p a \<longleftrightarrow> network (p_bits p) a = network (p_bits p) (p_addr p)"
  by (simp add: Contains_def network_def drop_bit_xor word_xor_eq_0)

lemma drop_bit_push_drop [simp]: "drop_bit n (push_bit n (drop_bit n (a :: addr))) = drop_bit n a"
  by (rule bit_eqI) (auto simp: bit_simps dest: bit_imp_le_length)

lemma network_mask_addr [simp]: "network n (mask_addr n a) = network n a"
  by (simp add: network_def mask_addr_def)

lemma mask_addr_eq_iff: "mask_addr n a = mask_addr n b \<longleftrightarrow> network n a = network n b"
  by (metis mask_addr_def network_def network_mask_addr)

lemma network_mono: "m \<le> n \<Longrightarrow> n \<le> 32 \<Longrightarrow> network n a = network n b \<Longrightarrow> network m a = network m b"
proof -
  assume le: "m \<le> n" "n \<le> 32" and eq: "network n a = network n b"
  have "network m c = drop_bit (n - m) (network n c)" for c
    using le by (simp add: network_def)
  with eq show ?thesis by simp
qed

lemma network_0: "network 0 a = 0"
  by (simp add: network_def)

lemma p_bits_Masked [simp]: "p_bits (Masked p) = p_bits p"
  by (simp add: Masked_def)

lemma prefix_ok_Masked [simp]: "prefix_ok (Masked p) = prefix_ok p"
  by (simp add: prefix_ok_def)

lemma Contains_Masked [simp]: "Contains (Masked p) a = Contains p a"
  by (simp add: Contains_network Masked_def)

lemma Contains_self [simp]: "Contains p (p_addr p)"
  by (simp add: Contains_def)

text \<open>Two prefixes overlap exactly when some address lies in both.\<close>

lemma Overlaps_iff:
  assumes "prefix_ok p" and "prefix_ok q"
  shows "Overlaps p q \<longleftrightarrow> (\<exists>a. Contains p a \<and> Contains q a)"
proof
  assume ov: "Overlaps p q"
  show "\<exists>a. Contains p a \<and> Contains q a"
  proof (cases "p_bits p < p_bits q")
    case True
    then have "network (p_bits p) (p_addr q) = network (p_bits p) (p_addr p)"
      using ov by (auto simp: Overlaps_def Let_def mask_addr_eq_iff network_0 split: if_splits)
    then show ?thesis by (auto simp: Contains_network intro!: exI [of _ "p_addr q"])
  next
    case False
    then have "network (p_bits q) (p_addr p) = network (p_bits q) (p_addr q)"
      using ov by (auto simp: Overlaps_def Let_def mask_addr_eq_iff network_0 split: if_splits)
    then show ?thesis by (auto simp: Contains_network intro!: exI [of _ "p_addr p"])
  qed
next
  assume "\<exists>a. Contains p a \<and> Contains q a"
  then obtain a where a: "network (p_bits p) a = network (p_bits p) (p_addr p)"
      "network (p_bits q) a = network (p_bits q) (p_addr q)"
    by (auto simp: Contains_network)
  have "network n a = network n (p_addr p) \<and> network n a = network n (p_addr q)"
    if "n \<le> p_bits p" "n \<le> p_bits q" for n
    using that a assms network_mono unfolding prefix_ok_def by blast
  then show "Overlaps p q"
    by (auto simp: Overlaps_def Let_def mask_addr_eq_iff) (metis nat_le_linear not_less order_refl)+
qed

text \<open>A prefix whose address lies in a shorter prefix is contained in it.\<close>

lemma Contains_subprefix:
  assumes "Contains g (p_addr p)" and "p_bits g \<le> p_bits p" and "prefix_ok p" and "Contains p a"
  shows "Contains g a"
  using assms network_mono [of "p_bits g" "p_bits p" a "p_addr p"]
  by (simp add: Contains_network prefix_ok_def)

section \<open>Blocks of addresses\<close>

text \<open>What the clients of prefixes rely on: a decidable overlap test that means a shared address. With
  it, pairwise disjointness of the blocks of different owners makes the owner of an address unique.\<close>

locale address_blocks =
  fixes covers :: "'p \<Rightarrow> 'a \<Rightarrow> bool"
    and overlap :: "'p \<Rightarrow> 'p \<Rightarrow> bool"
    and block_ok :: "'p \<Rightarrow> bool"
  assumes overlap_iff: "block_ok p \<Longrightarrow> block_ok q \<Longrightarrow> overlap p q \<longleftrightarrow> (\<exists>a. covers p a \<and> covers q a)"
begin

lemma unique_owner:
  assumes disj: "\<And>x y. x \<in> S \<Longrightarrow> y \<in> S \<Longrightarrow> owner x \<noteq> owner y \<Longrightarrow> \<not> overlap (block x) (block y)"
    and ok: "\<And>x. x \<in> S \<Longrightarrow> block_ok (block x)"
    and "x \<in> S" and "y \<in> S" and "covers (block x) a" and "covers (block y) a"
  shows "owner x = owner y"
  using assms overlap_iff by blast

end

interpretation netip: address_blocks Contains Overlaps prefix_ok
  by unfold_locales (rule Overlaps_iff)

end
