(* ===== verification/Encoding.thy ===== *)
theory Encoding
  imports Prelude
begin

text \<open>
  The textual encodings of \<^verbatim>\<open>encoding/base64\<close> (\<^verbatim>\<open>StdEncoding\<close>) and \<^verbatim>\<open>encoding/hex\<close>. The base64
  decoder skips carriage returns and line feeds, requires the padding and accepts any trailing bits,
  as the non-strict Go decoder does; callers that need a canonical text re-encode and compare.
\<close>

section \<open>Base64\<close>

definition b64_val :: "char \<Rightarrow> nat option" where
  "b64_val c =
     (let n = of_char c in
      if 65 \<le> n \<and> n \<le> 90 then Some (n - 65)
      else if 97 \<le> n \<and> n \<le> 122 then Some (n - 71)
      else if 48 \<le> n \<and> n \<le> 57 then Some (n + 4)
      else if c = CHR ''+'' then Some 62
      else if c = CHR ''/'' then Some 63
      else None)"

fun b64_groups :: "string \<Rightarrow> byte list option" where
  "b64_groups [] = Some []"
| "b64_groups (a # b # c # d # rest) =
     (case (b64_val a, b64_val b) of
        (Some x, Some y) \<Rightarrow>
          (if c = CHR ''='' then
             (if d = CHR ''='' \<and> rest = []
              then Some (take 1 (be_encode 3 (x * 2 ^ 18 + y * 2 ^ 12))) else None)
           else case b64_val c of
             None \<Rightarrow> None
           | Some z \<Rightarrow>
               if d = CHR ''='' then
                 (if rest = []
                  then Some (take 2 (be_encode 3 (x * 2 ^ 18 + y * 2 ^ 12 + z * 2 ^ 6))) else None)
               else case b64_val d of
                 None \<Rightarrow> None
               | Some w \<Rightarrow>
                   map_option (\<lambda>bs. be_encode 3 (x * 2 ^ 18 + y * 2 ^ 12 + z * 2 ^ 6 + w) @ bs)
                     (b64_groups rest))
      | _ \<Rightarrow> None)"
| "b64_groups _ = None"

definition base64_decode :: "string \<Rightarrow> byte list option" where
  "base64_decode s = b64_groups (filter (\<lambda>c. c \<noteq> CHR 0x0A \<and> c \<noteq> CHR 0x0D) s)"

text \<open>The character of a sextet: the letters, the digits, \<open>+\<close> and \<open>/\<close>.\<close>

definition b64_char :: "nat \<Rightarrow> char" where
  "b64_char k =
     (let n = k mod 64 in
      if n < 26 then char_of (n + 65)
      else if n < 52 then char_of (n + 71)
      else if n < 62 then char_of (n - 4)
      else if n = 62 then CHR ''+''
      else CHR ''/'')"

fun base64_encode :: "byte list \<Rightarrow> string" where
  "base64_encode [] = []"
| "base64_encode [a] =
     (let n = unat a * 2 ^ 16 in [b64_char (n div 2 ^ 18), b64_char (n div 2 ^ 12), CHR ''='', CHR ''=''])"
| "base64_encode [a, b] =
     (let n = unat a * 2 ^ 16 + unat b * 2 ^ 8
      in [b64_char (n div 2 ^ 18), b64_char (n div 2 ^ 12), b64_char (n div 2 ^ 6), CHR ''=''])"
| "base64_encode (a # b # c # rest) =
     (let n = unat a * 2 ^ 16 + unat b * 2 ^ 8 + unat c
      in [b64_char (n div 2 ^ 18), b64_char (n div 2 ^ 12), b64_char (n div 2 ^ 6), b64_char n]
         @ base64_encode rest)"

section \<open>Hexadecimal\<close>

definition hex_val :: "char \<Rightarrow> nat option" where
  "hex_val c =
     (let n = of_char c in
      if 48 \<le> n \<and> n \<le> 57 then Some (n - 48)
      else if 97 \<le> n \<and> n \<le> 102 then Some (n - 87)
      else if 65 \<le> n \<and> n \<le> 70 then Some (n - 55)
      else None)"

definition hex_char :: "nat \<Rightarrow> char" where
  "hex_char n = ''0123456789abcdef'' ! (n mod 16)"

fun hex_decode :: "string \<Rightarrow> byte list option" where
  "hex_decode [] = Some []"
| "hex_decode [c] = None"
| "hex_decode (a # b # rest) =
     (case (hex_val a, hex_val b) of
        (Some x, Some y) \<Rightarrow> map_option (\<lambda>bs. word_of_nat (x * 16 + y) # bs) (hex_decode rest)
      | _ \<Rightarrow> None)"

definition hex_encode :: "byte list \<Rightarrow> string" where
  "hex_encode bs = concat (map (\<lambda>b. [hex_char (unat b div 16), hex_char (unat b)]) bs)"

lemma hex_char_cases:
  "hex_val (hex_char n) = Some (n mod 16)"
proof -
  have "\<forall>m\<in>set [0..<16]. hex_val (''0123456789abcdef'' ! m) = Some m"
    by code_simp
  moreover have "n mod 16 \<in> set [0..<16]" by simp
  ultimately show ?thesis unfolding hex_char_def by blast
qed

lemma hex_decode_encode [simp]: "hex_decode (hex_encode bs) = Some bs"
proof (induction bs)
  case Nil
  then show ?case by (simp add: hex_encode_def)
next
  case (Cons b bs)
  have "unat b div 16 mod 16 = unat b div 16"
    using unat_byte_less [of b] by (simp add: div_less_iff_less_mult)
  moreover have "unat b div 16 * 16 + unat b mod 16 = unat b" by simp
  ultimately show ?case
    using Cons by (simp add: hex_encode_def hex_char_cases del: upt_rec)
qed

lemma length_hex_encode [simp]: "length (hex_encode bs) = 2 * length bs"
  by (induction bs) (auto simp: hex_encode_def)

lemma hex_encode_inject [simp]: "hex_encode xs = hex_encode ys \<longleftrightarrow> xs = ys"
  by (metis hex_decode_encode option.inject)

lemma b64_char_val: "b64_val (b64_char k) = Some (k mod 64)"
proof -
  have "k mod 64 < 64" by simp
  then consider "k mod 64 < 26" | "26 \<le> k mod 64" "k mod 64 < 52" | "52 \<le> k mod 64" "k mod 64 < 62"
    | "k mod 64 = 62" | "k mod 64 = 63" by linarith
  then show ?thesis
    by cases (auto simp: b64_char_def b64_val_def Let_def)
qed

lemma b64_char_plain: "b64_char n \<noteq> CHR ''='' \<and> b64_char n \<noteq> CHR 0x0A \<and> b64_char n \<noteq> CHR 0x0D"
proof -
  have "b64_val (CHR ''='') = None \<and> b64_val (CHR 0x0A) = None \<and> b64_val (CHR 0x0D) = None"
    by (simp add: b64_val_def)
  then show ?thesis by (metis b64_char_val option.distinct(1))
qed

lemma base64_encode_no_newline:
  "filter (\<lambda>c. c \<noteq> CHR 0x0A \<and> c \<noteq> CHR 0x0D) (base64_encode bs) = base64_encode bs"
  by (induction bs rule: base64_encode.induct) (simp_all add: Let_def b64_char_plain)

lemma space_not_b64: "c \<in> set space_bytes \<Longrightarrow> b64_val c = None \<and> c \<noteq> CHR ''=''"
proof -
  have "list_all (\<lambda>c. b64_val c = None \<and> c \<noteq> CHR ''='') space_bytes"
    by (simp add: space_bytes_def space_seqs_def b64_val_def)
  then show "c \<in> set space_bytes \<Longrightarrow> b64_val c = None \<and> c \<noteq> CHR ''=''"
    by (simp add: list_all_iff)
qed

lemma base64_encode_chars:
  "c \<in> set (base64_encode bs) \<Longrightarrow> c = CHR ''='' \<or> b64_val c \<noteq> None"
  by (induction bs rule: base64_encode.induct) (auto simp: Let_def b64_char_val)

lemma trim_base64_encode [simp]: "trim_space (base64_encode bs) = base64_encode bs"
proof (cases "base64_encode bs = []")
  case False
  have "c \<notin> set space_bytes" if "c \<in> set (base64_encode bs)" for c
    using base64_encode_chars [OF that] space_not_b64 [of c] by auto
  with False show ?thesis by (simp add: trim_space_plain)
qed simp

text \<open>The four sextets of a 24-bit group put back together.\<close>

lemma sextets:
  assumes "(n::nat) < 2 ^ 24"
  shows "n div 2 ^ 18 mod 64 * 2 ^ 18 + n div 2 ^ 12 mod 64 * 2 ^ 12 + n div 2 ^ 6 mod 64 * 2 ^ 6 + n mod 64 = n"
proof -
  define x y where "x = n div 2 ^ 6" and "y = n div 2 ^ 12"
  have d: "y = x div 64" "n div 2 ^ 18 = y div 64" "x = n div 64"
    by (simp_all add: x_def y_def flip: div_mult2_eq)
  have "y div 64 < 64"
    using assms unfolding d(2) [symmetric] by (simp add: div_less_iff_less_mult)
  then have "y div 64 mod 64 * 64 + y mod 64 = y" by simp
  moreover have "y * 64 + x mod 64 = x" unfolding d(1) by simp
  moreover have "x * 64 + n mod 64 = n" unfolding d(3) by simp
  ultimately have "((y div 64 mod 64 * 64 + y mod 64) * 64 + x mod 64) * 64 + n mod 64 = n" by simp
  then show ?thesis unfolding d(2) x_def [symmetric] y_def [symmetric] by (simp add: algebra_simps)
qed

abbreviation group_of :: "byte \<Rightarrow> byte \<Rightarrow> byte \<Rightarrow> nat" where
  "group_of a b c \<equiv> unat a * 2 ^ 16 + unat b * 2 ^ 8 + unat c"

lemma be_decode_3: "be_decode [a, b, c] = group_of a b c"
  by (simp add: be_decode_def)

lemma be_encode_3: "be_encode 3 (group_of a b c) = [a, b, c]"
  using be_encode_decode [of "[a, b, c]" 3] unfolding be_decode_3 by simp

lemma group_less: "group_of a b c < 2 ^ 24"
  using be_decode_less [of "[a, b, c]"] unfolding be_decode_3 by simp

lemma b64_groups_full:
  assumes "n < 2 ^ 24"
  shows "b64_groups ([b64_char (n div 2 ^ 18), b64_char (n div 2 ^ 12), b64_char (n div 2 ^ 6), b64_char n] @ rest)
     = map_option (\<lambda>bs. be_encode 3 n @ bs) (b64_groups rest)"
  by (simp only: append_Cons append_Nil b64_groups.simps b64_char_val b64_char_plain if_False
      option.case prod.case sextets [OF assms] not_False_eq_True)

lemma b64_groups_pad1:
  assumes "n < 2 ^ 24" and "n mod 64 = 0"
  shows "b64_groups [b64_char (n div 2 ^ 18), b64_char (n div 2 ^ 12), b64_char (n div 2 ^ 6), CHR ''='']
     = Some (take 2 (be_encode 3 n))"
proof -
  have "n div 2 ^ 18 mod 64 * 2 ^ 18 + n div 2 ^ 12 mod 64 * 2 ^ 12 + n div 2 ^ 6 mod 64 * 2 ^ 6 = n"
    using sextets [OF assms(1)] by (simp only: assms(2) add_0_right)
  then show ?thesis
    by (simp only: b64_groups.simps b64_char_val b64_char_plain if_False if_True option.case prod.case simp_thms)
qed

lemma b64_groups_pad2:
  assumes "n < 2 ^ 24" and "n mod 64 = 0" and "n div 2 ^ 6 mod 64 = 0"
  shows "b64_groups [b64_char (n div 2 ^ 18), b64_char (n div 2 ^ 12), CHR ''='', CHR ''='']
     = Some (take 1 (be_encode 3 n))"
proof -
  have "n div 2 ^ 18 mod 64 * 2 ^ 18 + n div 2 ^ 12 mod 64 * 2 ^ 12 = n"
    using sextets [OF assms(1)] by (simp only: assms(2,3) mult_zero_left add_0_right)
  then show ?thesis
    by (simp only: b64_groups.simps b64_char_val if_True option.case prod.case simp_thms)
qed

lemma group_zero_low: "group_of a b 0 mod 64 = 0" "group_of a 0 0 div 2 ^ 6 mod 64 = 0"
proof -
  have "group_of a b 0 = 64 * (unat a * 1024 + unat b * 4)" by simp
  then show "group_of a b 0 mod 64 = 0" by (simp only: mod_mult_self1_is_0)
  have "group_of a 0 0 div 2 ^ 6 = unat a * 1024" by simp
  moreover have "unat a * 1024 = 64 * (unat a * 16)" by simp
  ultimately show "group_of a 0 0 div 2 ^ 6 mod 64 = 0" by (simp only: mod_mult_self1_is_0)
qed

lemma base64_decode_encode [simp]: "base64_decode (base64_encode bs) = Some bs"
proof -
  have "b64_groups (base64_encode bs) = Some bs"
  proof (induction bs rule: base64_encode.induct)
    case (2 a)
    show ?case
      using b64_groups_pad2 [OF group_less group_zero_low(1) [of a 0] group_zero_low(2) [of a]]
      unfolding be_encode_3 by (simp add: Let_def)
  next
    case (3 a b)
    show ?case
      using b64_groups_pad1 [OF group_less group_zero_low(1) [of a b]]
      unfolding be_encode_3 by (simp add: Let_def)
  next
    case (4 a b c rest)
    show ?case
      unfolding base64_encode.simps Let_def b64_groups_full [OF group_less] be_encode_3
      using 4 by simp
  qed simp
  then show ?thesis by (simp add: base64_decode_def base64_encode_no_newline)
qed

lemma base64_encode_eq_Nil [simp]: "base64_encode bs = [] \<longleftrightarrow> bs = []"
  by (cases bs rule: base64_encode.cases) (auto simp: Let_def)

end
