(* ===== verification/GoTime.thy ===== *)
theory GoTime
  imports Prelude
begin

text \<open>
  \<^verbatim>\<open>time.Time\<close> and \<^verbatim>\<open>time.Duration\<close>. A time has a wall clock reading (nanoseconds since the Unix
  epoch) and, when it comes from \<^verbatim>\<open>time.Now\<close>, a monotonic one. Differences and comparisons use the
  monotonic readings when both times have one, \<^verbatim>\<open>Unix()\<close> always uses the wall clock: setting the
  wall clock back changes the second and not the first. A duration is an integer number of
  nanoseconds, saturated to 64 bits by \<^verbatim>\<open>Sub\<close>.
\<close>

record gotime =
  wall :: int
  mono :: "int option"

type_synonym duration = int

abbreviation second :: duration where "second \<equiv> 1000000000"
abbreviation millisecond :: duration where "millisecond \<equiv> 1000000"

definition zero_time :: gotime where
  "zero_time = \<lparr>wall = - 62135596800 * second, mono = None\<rparr>"

definition is_zero :: "gotime \<Rightarrow> bool" where
  "is_zero t \<longleftrightarrow> wall t = - 62135596800 * second"

definition sat_duration :: "int \<Rightarrow> duration" where
  "sat_duration d = max (- (2 ^ 63)) (min (2 ^ 63 - 1) d)"

text \<open>The raw difference of two times, on the clock Go compares them by.\<close>

definition time_diff :: "gotime \<Rightarrow> gotime \<Rightarrow> int" where
  "time_diff t u =
     (case (mono t, mono u) of (Some a, Some b) \<Rightarrow> a - b | _ \<Rightarrow> wall t - wall u)"

definition time_sub :: "gotime \<Rightarrow> gotime \<Rightarrow> duration" where
  "time_sub t u = sat_duration (time_diff t u)"

definition time_before :: "gotime \<Rightarrow> gotime \<Rightarrow> bool" where
  "time_before t u \<longleftrightarrow> time_diff t u < 0"

definition time_add :: "gotime \<Rightarrow> duration \<Rightarrow> gotime" where
  "time_add t d = \<lparr>wall = wall t + d, mono = map_option (\<lambda>m. m + d) (mono t)\<rparr>"

definition unix_of :: "gotime \<Rightarrow> int" where
  "unix_of t = wall t div second"

definition of_unix :: "int \<Rightarrow> gotime" where
  "of_unix s = \<lparr>wall = s * second, mono = None\<rparr>"

lemmas time_defs [go_defs] =
  zero_time_def is_zero_def sat_duration_def time_diff_def time_sub_def time_before_def time_add_def
  unix_of_def of_unix_def

lemma is_zero_zero_time [simp]: "is_zero zero_time"
  by (simp add: is_zero_def zero_time_def)

lemma time_diff_self [simp]: "time_diff t t = 0"
  by (simp add: time_diff_def split: option.splits)

lemma time_diff_add [simp]: "time_diff (time_add t d) t = d"
  by (simp add: time_diff_def time_add_def split: option.splits)

lemma sat_duration_less_iff:
  "- (2 ^ 63) < c \<Longrightarrow> c \<le> 2 ^ 63 - 1 \<Longrightarrow> sat_duration d < c \<longleftrightarrow> d < c"
  by (auto simp: sat_duration_def)

lemma sat_duration_le_iff:
  "- (2 ^ 63) \<le> c \<Longrightarrow> c < 2 ^ 63 - 1 \<Longrightarrow> sat_duration d \<le> c \<longleftrightarrow> d \<le> c"
  by (auto simp: sat_duration_def)

text \<open>A deadline set as \<^verbatim>\<open>now.Add(time.Unix(e, 0).Sub(now))\<close> has the wall reading \<open>e\<close> and moves on the
  monotonic clock of \<open>now\<close>.\<close>

definition deadline_at :: "gotime \<Rightarrow> int \<Rightarrow> gotime" where
  "deadline_at now e = time_add now (time_sub (of_unix e) now)"

lemma mono_deadline_at:
  "mono (deadline_at now e) = map_option (\<lambda>m. m + sat_duration (e * second - wall now)) (mono now)"
  by (simp add: deadline_at_def time_add_def time_sub_def time_diff_def of_unix_def)

end
