(* ===== verification/Float64.thy ===== *)
theory Float64
  imports Complex_Main Prelude "HOL-Library.Log_Nat"
begin

text \<open>
  \<^verbatim>\<open>float64\<close> as the rationals with a 53-bit significand: every operation computes the exact rational
  result and rounds it to nearest, ties to even. Infinities, NaNs and the reduced precision below
  \<open>2 ^ -1022\<close> are left out: the values come from JSON numbers, probe counters and durations.
\<close>

type_synonym f64 = rat

definition pow2 :: "int \<Rightarrow> rat" where
  "pow2 e = (if 0 \<le> e then 2 ^ nat e else 1 / 2 ^ nat (- e))"

text \<open>The binary exponent: \<open>pow2 e \<le> \<bar>x\<bar> < pow2 (e + 1)\<close>.\<close>

definition f64_exp :: "rat \<Rightarrow> int" where
  "f64_exp x =
     (let (p, q) = quotient_of \<bar>x\<bar>;
          e = int (floorlog 2 (nat p)) - int (floorlog 2 (nat q))
      in if pow2 e \<le> \<bar>x\<bar> then e else e - 1)"

definition round_even :: "rat \<Rightarrow> int" where
  "round_even y =
     (let f = \<lfloor>y\<rfloor>; d = y - of_int f
      in if d < 1 / 2 then f else if d > 1 / 2 then f + 1 else if even f then f else f + 1)"

definition f64_round :: "rat \<Rightarrow> f64" where
  "f64_round x =
     (if x = 0 then 0
      else let u = pow2 (f64_exp x - 52) in of_int (round_even (x / u)) * u)"

definition f64_add :: "f64 \<Rightarrow> f64 \<Rightarrow> f64" where "f64_add a b = f64_round (a + b)"
definition f64_sub :: "f64 \<Rightarrow> f64 \<Rightarrow> f64" where "f64_sub a b = f64_round (a - b)"
definition f64_mul :: "f64 \<Rightarrow> f64 \<Rightarrow> f64" where "f64_mul a b = f64_round (a * b)"
definition f64_div :: "f64 \<Rightarrow> f64 \<Rightarrow> f64" where "f64_div a b = f64_round (a / b)"
definition f64_of_int :: "int \<Rightarrow> f64" where "f64_of_int n = f64_round (of_int n)"

lemma pow2_pos [simp]: "0 < pow2 e"
  by (simp add: pow2_def)

lemma round_even_of_int [simp]: "round_even (of_int n) = n"
  by (simp add: round_even_def Let_def)

lemma round_even_bounds: "\<lfloor>y\<rfloor> \<le> round_even y \<and> round_even y \<le> \<lfloor>y\<rfloor> + 1"
  by (simp add: round_even_def Let_def)

lemma round_even_nonpos:
  assumes "y \<le> 0"
  shows "round_even y \<le> 0"
proof (cases "y = 0")
  case True
  then show ?thesis using round_even_of_int [of 0] by simp
next
  case False
  with assms have "\<lfloor>y\<rfloor> + 1 \<le> 0" by linarith
  then show ?thesis using round_even_bounds [of y] by linarith
qed

lemma f64_round_0 [simp]: "f64_round 0 = 0"
  by (simp add: f64_round_def)

lemma f64_round_nonpos: "x \<le> 0 \<Longrightarrow> f64_round x \<le> 0"
proof -
  assume "x \<le> 0"
  then have "x / pow2 (f64_exp x - 52) \<le> 0"
    by (simp add: divide_le_0_iff less_imp_le)
  then have "round_even (x / pow2 (f64_exp x - 52)) \<le> 0"
    by (rule round_even_nonpos)
  then show ?thesis
    by (simp add: f64_round_def Let_def mult_le_0_iff less_imp_le)
qed

text \<open>A subtraction that comes out positive has its first operand greater.\<close>

lemma f64_sub_pos: "0 < f64_sub a b \<Longrightarrow> b < a"
  using f64_round_nonpos [of "a - b"] by (force simp: f64_sub_def)

text \<open>Integers of up to 53 bits are exact.\<close>

lemma pow2_diff: "pow2 (int a - int b) = 2 ^ a / 2 ^ b"
  by (auto simp: pow2_def nat_diff_distrib' power_diff frac_eq_eq simp flip: power_add)

lemma pow2_f64_exp_le:
  assumes "x \<noteq> 0"
  shows "pow2 (f64_exp x) \<le> \<bar>x\<bar>"
proof -
  obtain p q where pq: "quotient_of \<bar>x\<bar> = (p, q)" by fastforce
  define a b where "a = floorlog 2 (nat p)" and "b = floorlog 2 (nat q)"
  have q: "0 < q" using pq by (rule quotient_of_denom_pos)
  have x: "\<bar>x\<bar> = of_int p / of_int q" using pq by (rule quotient_of_div)
  with assms q have p: "0 < p" by (auto simp: zero_less_divide_iff dest!: sym [of "\<bar>x\<bar>"] )
     (metis abs_of_pos abs_zero divide_eq_0_iff of_int_0_less_iff of_int_eq_0_iff zero_less_abs_iff zero_less_divide_iff order_less_asym)
  have "2 ^ (a - 1) \<le> nat p" and "nat q < 2 ^ b"
    using floorlog_bounds [of "nat p" 2] floorlog_bounds [of "nat q" 2] p q
    by (auto simp: a_def b_def)
  then have lo: "(2::rat) ^ (a - 1) \<le> of_int p" and hi: "of_int q \<le> (2::rat) ^ b"
    using p q by (auto simp: le_nat_iff nat_less_iff)
  have "0 < a" using p by (simp add: a_def floorlog_def)
  then have "pow2 (int a - int b - 1) = 2 ^ (a - 1) / 2 ^ b"
    using pow2_diff [of "a - 1" b] by (simp add: of_nat_diff algebra_simps)
  also have "\<dots> \<le> of_int p / of_int q"
    using lo hi q p by (intro frac_le) auto
  finally have "pow2 (int a - int b - 1) \<le> \<bar>x\<bar>" by (simp add: x)
  then show ?thesis
    by (simp add: f64_exp_def pq Let_def flip: a_def b_def)
qed

lemma f64_round_of_int:
  assumes "\<bar>n\<bar> < 2 ^ 53"
  shows "f64_round (of_int n) = of_int n"
proof (cases "n = 0")
  case False
  define k where "k = nat (52 - f64_exp (of_int n))"
  have "pow2 (f64_exp (of_int n)) < 2 ^ 53"
    using pow2_f64_exp_le [of "of_int n"] False assms
    by (metis (mono_tags, opaque_lifting) of_int_0_eq_iff of_int_abs of_int_less_iff of_int_numeral
        of_int_power order_le_less_trans)
  then have "f64_exp (of_int n) < 53"
  proof (rule contrapos_pp)
    assume "\<not> f64_exp (of_int n) < 53"
    then have "(2::rat) ^ 53 \<le> 2 ^ nat (f64_exp (of_int n))"
      by (intro power_increasing) auto
    then show "\<not> pow2 (f64_exp (of_int n)) < 2 ^ 53"
      using \<open>\<not> f64_exp (of_int n) < 53\<close> by (simp add: pow2_def)
  qed
  then have u: "pow2 (f64_exp (of_int n) - 52) = 1 / 2 ^ k"
    using pow2_diff [of 0 k] by (simp add: k_def)
  have "round_even (of_int n * 2 ^ k) = n * 2 ^ k"
    using round_even_of_int [of "n * 2 ^ k"] by simp
  then show ?thesis
    using False by (simp add: f64_round_def u Let_def)
qed simp

lemma f64_round_numeral: "numeral k < (2 :: int) ^ 53 \<Longrightarrow> f64_round (numeral k) = numeral k"
  using f64_round_of_int [of "numeral k"] by simp

end
