(* ===== verification/RoutedConfig.thy ===== *)
theory RoutedConfig
  imports NetIP Encoding GoTime Float64
begin

text \<open>
  \<^verbatim>\<open>internal/routed/config.go\<close>: the routing configuration a Controller issues to a Node, its
  validation, and the three lookups the router makes in it (the route of an address, the paths a
  source Node may use for a route, the approved transit path of an identifier).
\<close>

section \<open>Configuration data\<close>

record path =
  path_ID :: string
  path_OwnerNodeID :: string
  path_CIDR :: string
  path_Hops :: "string list"
  path_Health :: string
  path_RTTMS :: f64
  path_LossPercent :: f64
  path_Cost :: f64
  path_Score :: f64
  path_LastSeen :: int

record route =
  route_CIDR :: string
  route_OwnerNodeID :: string

record link_config =
  link_ID :: string
  link_PeerNodeID :: string
  link_PeerName :: string
  link_PSK :: string
  link_PeerEndpoint :: string
  link_PeerPublic :: bool
  link_PeerSiteRouter :: bool
  link_Port :: int
  link_Cost :: f64

record routing_config =
  PolicyExpiresAt :: int
  Version :: int
  ListenPort :: int
  OverlaySubnet :: string
  LocalPublic :: bool
  LocalSiteRouter :: bool
  NodeNames :: "(string \<times> string) list"
  Links :: "link_config list"
  Paths :: "path list"
  TransitPaths :: "path list"
  Routes :: "route list"

record enrollment =
  enr_NodeID :: string
  enr_Name :: string
  enr_Roles :: "(string \<times> bool) list"
  enr_Routing :: routing_config

definition MaxPathHops :: nat where "MaxPathHops = 3"
definition DefaultMeshPort :: int where "DefaultMeshPort = 24446"

datatype config_error =
    NoNodeID
  | LeaseMissing
  | MeshNotConfigured
  | BadListenPort int
  | BadOverlaySubnet string
  | LinkNoID
  | BadLinkPeer string
  | BadLinkPSK string
  | BadLinkPort string int
  | DuplicateLinkPeer string
  | BadOwnedRoute string
  | RouteNoOwner string
  | PathNoID
  | PathNoOwner string
  | PathBadHopCount string nat
  | PathEmptyHop string
  | PathLoop string
  | PathNotAtOwner string
  | PathBadCIDR string string

section \<open>Validation\<close>

definition link_Validate :: "link_config \<Rightarrow> string \<Rightarrow> config_error option" where
  "link_Validate l localNodeID =
     (if trim_space (link_ID l) = [] then Some LinkNoID
      else if trim_space (link_PeerNodeID l) = [] \<or> link_PeerNodeID l = localNodeID
        then Some (BadLinkPeer (link_PeerNodeID l))
      else if (case base64_decode (trim_space (link_PSK l)) of
                 None \<Rightarrow> True | Some raw \<Rightarrow> length raw \<noteq> 32)
        then Some (BadLinkPSK (link_ID l))
      else let port = (if link_Port l = 0 then DefaultMeshPort else link_Port l)
           in if port < 1024 \<or> 65535 < port then Some (BadLinkPort (link_ID l) port) else None)"

datatype psk_error = PSKNotBase64 | PSKBadLength

definition PSKBytes :: "link_config \<Rightarrow> psk_error + byte list" where
  "PSKBytes l =
     (case base64_decode (trim_space (link_PSK l)) of
        None \<Rightarrow> Inl PSKNotBase64
      | Some raw \<Rightarrow> if length raw \<noteq> 32 then Inl PSKBadLength else Inr raw)"

fun check_hops :: "string \<Rightarrow> string list \<Rightarrow> string list \<Rightarrow> config_error option" where
  "check_hops pid seen [] = None"
| "check_hops pid seen (h # hs) =
     (let hop = trim_space h
      in if hop = [] then Some (PathEmptyHop pid)
         else if hop \<in> set seen then Some (PathLoop pid)
         else check_hops pid (hop # seen) hs)"

definition path_Validate :: "path \<Rightarrow> config_error option" where
  "path_Validate p =
     (if trim_space (path_ID p) = [] then Some PathNoID
      else if trim_space (path_OwnerNodeID p) = [] then Some (PathNoOwner (path_ID p))
      else if length (path_Hops p) < 2 \<or> MaxPathHops < length (path_Hops p)
        then Some (PathBadHopCount (path_ID p) (length (path_Hops p)))
      else case check_hops (path_ID p) [] (path_Hops p) of
             Some e \<Rightarrow> Some e
           | None \<Rightarrow>
               if last (path_Hops p) \<noteq> path_OwnerNodeID p then Some (PathNotAtOwner (path_ID p))
               else if (case ParsePrefix (path_CIDR p) of None \<Rightarrow> True | Some q \<Rightarrow> p_bits q = 0)
                 then Some (PathBadCIDR (path_ID p) (path_CIDR p))
               else None)"

definition route_Prefix :: "route \<Rightarrow> config_error + prefix" where
  "route_Prefix r =
     (case ParsePrefix (route_CIDR r) of
        None \<Rightarrow> Inl (BadOwnedRoute (route_CIDR r))
      | Some q \<Rightarrow> if p_bits q = 0 then Inl (BadOwnedRoute (route_CIDR r)) else Inr (Masked q))"

fun validate_links :: "string \<Rightarrow> string list \<Rightarrow> link_config list \<Rightarrow> config_error option" where
  "validate_links localNodeID seenPeers [] = None"
| "validate_links localNodeID seenPeers (l # ls) =
     (case link_Validate l localNodeID of
        Some e \<Rightarrow> Some e
      | None \<Rightarrow>
          if link_PeerNodeID l \<in> set seenPeers then Some (DuplicateLinkPeer (link_PeerNodeID l))
          else validate_links localNodeID (link_PeerNodeID l # seenPeers) ls)"

definition validate_route :: "route \<Rightarrow> config_error option" where
  "validate_route r =
     (case route_Prefix r of
        Inl e \<Rightarrow> Some e
      | Inr _ \<Rightarrow>
          if trim_space (route_OwnerNodeID r) = [] then Some (RouteNoOwner (route_CIDR r)) else None)"

definition config_Validate :: "routing_config \<Rightarrow> string \<Rightarrow> config_error option" where
  "config_Validate c localNodeID =
     (if Version c = 0 then Some MeshNotConfigured
      else let port = (if ListenPort c = 0 then DefaultMeshPort else ListenPort c)
      in if port < 1024 \<or> 65535 < port then Some (BadListenPort port)
      else if OverlaySubnet c \<noteq> [] \<and> ParsePrefix (OverlaySubnet c) = None
        then Some (BadOverlaySubnet (OverlaySubnet c))
      else case validate_links localNodeID [] (Links c) of
             Some e \<Rightarrow> Some e
           | None \<Rightarrow>
               (case first_error validate_route (Routes c) of
                  Some e \<Rightarrow> Some e
                | None \<Rightarrow> first_error path_Validate (Paths c @ TransitPaths c)))"

definition enrollment_Validate :: "enrollment \<Rightarrow> config_error option" where
  "enrollment_Validate e =
     (if trim_space (enr_NodeID e) = [] then Some NoNodeID
      else if PolicyExpiresAt (enr_Routing e) \<le> 0 then Some LeaseMissing
      else config_Validate (enr_Routing e) (enr_NodeID e))"

datatype enrollment_error = EnrollmentUnreadable | EnrollmentNotJSON | EnrollmentInvalid config_error

text \<open>\<open>decode\<close> is the JSON decoder, \<open>file\<close> what reading the file gives.\<close>

definition LoadEnrollment ::
  "(string \<Rightarrow> enrollment option) \<Rightarrow> string option \<Rightarrow> enrollment_error + enrollment" where
  "LoadEnrollment decode file =
     (case file of
        None \<Rightarrow> Inl EnrollmentUnreadable
      | Some raw \<Rightarrow>
          case decode raw of
            None \<Rightarrow> Inl EnrollmentNotJSON
          | Some e \<Rightarrow> (case enrollment_Validate e of Some x \<Rightarrow> Inl (EnrollmentInvalid x) | None \<Rightarrow> Inr e))"

definition PolicyValid :: "routing_config \<Rightarrow> gotime \<Rightarrow> bool" where
  "PolicyValid c now \<longleftrightarrow> PolicyExpiresAt c = 0 \<or> unix_of now < PolicyExpiresAt c"

definition IsPublicNode :: "routing_config \<Rightarrow> string \<Rightarrow> bool" where
  "IsPublicNode c localNodeID = LocalPublic c"

definition IsSiteRouter :: "routing_config \<Rightarrow> string \<Rightarrow> bool" where
  "IsSiteRouter c localNodeID = LocalSiteRouter c"

section \<open>Lookups\<close>

definition more_specific :: "route \<times> prefix \<Rightarrow> route \<times> prefix \<Rightarrow> bool" where
  "more_specific x y \<longleftrightarrow> p_bits (snd x) > p_bits (snd y)"

fun route_matches :: "addr \<Rightarrow> route list \<Rightarrow> (route \<times> prefix) list" where
  "route_matches a [] = []"
| "route_matches a (r # rs) =
     (case route_Prefix r of
        Inl _ \<Rightarrow> route_matches a rs
      | Inr p \<Rightarrow> if Contains p a then (r, p) # route_matches a rs else route_matches a rs)"

definition RouteFor :: "routing_config \<Rightarrow> addr \<Rightarrow> route option" where
  "RouteFor c a =
     (case sort_slice more_specific (route_matches a (Routes c)) of
        [] \<Rightarrow> None
      | m # _ \<Rightarrow> Some (fst m))"

definition SourcePaths :: "routing_config \<Rightarrow> string \<Rightarrow> route \<Rightarrow> path list" where
  "SourcePaths c localNodeID r =
     sort_slice (less_by2 path_Score path_ID)
       (filter (\<lambda>p. \<not> (length (path_Hops p) < 2 \<or> hd (path_Hops p) \<noteq> localNodeID) \<and>
                    path_OwnerNodeID p = route_OwnerNodeID r \<and> path_CIDR p = route_CIDR r)
         (Paths c))"

definition TransitPath :: "routing_config \<Rightarrow> string \<Rightarrow> path option" where
  "TransitPath c pathID = find (\<lambda>p. path_ID p = pathID) (TransitPaths c)"

section \<open>What validation establishes\<close>

lemma check_hops_None:
  "check_hops pid seen hs = None \<longleftrightarrow>
     (\<forall>h\<in>set hs. trim_space h \<noteq> []) \<and> distinct (map trim_space hs) \<and>
     set (map trim_space hs) \<inter> set seen = {}"
  by (induction hs arbitrary: seen) (auto simp: Let_def)

lemma distinct_map_distinct: "distinct (map f xs) \<Longrightarrow> distinct xs"
  by (simp add: distinct_map)

definition path_ok :: "path \<Rightarrow> bool" where
  "path_ok p \<longleftrightarrow>
     path_ID p \<noteq> [] \<and> path_OwnerNodeID p \<noteq> [] \<and> 2 \<le> length (path_Hops p) \<and>
     length (path_Hops p) \<le> MaxPathHops \<and> distinct (path_Hops p) \<and> [] \<notin> set (path_Hops p) \<and>
     last (path_Hops p) = path_OwnerNodeID p \<and>
     (\<exists>q. ParsePrefix (path_CIDR p) = Some q \<and> 0 < p_bits q)"

lemma path_Validate_ok: "path_Validate p = None \<Longrightarrow> path_ok p"
  by (auto simp: path_Validate_def path_ok_def check_hops_None intro: distinct_map_distinct
      split: if_splits option.splits)

lemma validate_links_None:
  "validate_links me seen ls = None \<longleftrightarrow>
     (\<forall>l\<in>set ls. link_Validate l me = None) \<and> distinct (map link_PeerNodeID ls) \<and>
     set (map link_PeerNodeID ls) \<inter> set seen = {}"
  by (induction ls arbitrary: seen) (auto split: option.splits)

lemma config_Validate_None:
  "config_Validate c me = None \<Longrightarrow>
     Version c \<noteq> 0 \<and> validate_links me [] (Links c) = None \<and>
     (\<forall>r\<in>set (Routes c). validate_route r = None) \<and>
     (\<forall>p\<in>set (Paths c) \<union> set (TransitPaths c). path_Validate p = None)"
  by (auto simp: config_Validate_def Let_def split: if_splits option.splits)

lemma config_Validate_paths:
  "config_Validate c me = None \<Longrightarrow> p \<in> set (Paths c) \<union> set (TransitPaths c) \<Longrightarrow> path_ok p"
  using config_Validate_None path_Validate_ok by blast

lemma link_Validate_None:
  "link_Validate l me = None \<Longrightarrow> link_PeerNodeID l \<noteq> me \<and> (\<exists>raw. PSKBytes l = Inr raw \<and> length raw = 32)"
  by (auto simp: link_Validate_def PSKBytes_def Let_def split: if_splits option.splits)

lemma config_Validate_links:
  "config_Validate c me = None \<Longrightarrow>
     distinct (map link_PeerNodeID (Links c)) \<and>
     (\<forall>l\<in>set (Links c). link_PeerNodeID l \<noteq> me \<and> (\<exists>raw. PSKBytes l = Inr raw \<and> length raw = 32))"
  using config_Validate_None [of c me] by (auto simp: validate_links_None dest: link_Validate_None)

lemma validate_route_None: "validate_route r = None \<Longrightarrow> \<exists>p. route_Prefix r = Inr p"
  by (cases "route_Prefix r") (auto simp: validate_route_def)

lemma config_Validate_routes:
  "config_Validate c me = None \<Longrightarrow> r \<in> set (Routes c) \<Longrightarrow> \<exists>p. route_Prefix r = Inr p"
  using config_Validate_None validate_route_None by blast

section \<open>Longest prefix match\<close>

lemma route_Prefix_ok: "route_Prefix r = Inr p \<Longrightarrow> prefix_ok p \<and> 0 < p_bits p"
  by (auto simp: route_Prefix_def dest: ParsePrefix_ok split: option.splits if_splits)

lemma set_route_matches:
  "set (route_matches a rs) = {(r, p). r \<in> set rs \<and> route_Prefix r = Inr p \<and> Contains p a}"
  by (induction rs) (auto split: sum.splits)

interpretation specific: comparison more_specific
  by unfold_locales (auto simp: more_specific_def)

lemma RouteFor_None:
  "RouteFor c a = None \<longleftrightarrow> (\<forall>r\<in>set (Routes c). \<forall>p. route_Prefix r = Inr p \<longrightarrow> \<not> Contains p a)"
proof -
  have "RouteFor c a = None \<longleftrightarrow> set (route_matches a (Routes c)) = {}"
    by (auto simp: RouteFor_def split: list.splits)
  then show ?thesis unfolding set_route_matches by auto
qed

lemma RouteFor_Some:
  assumes "RouteFor c a = Some r"
  shows "r \<in> set (Routes c) \<and>
    (\<exists>p. route_Prefix r = Inr p \<and> Contains p a \<and>
      (\<forall>r'\<in>set (Routes c). \<forall>p'. route_Prefix r' = Inr p' \<and> Contains p' a \<longrightarrow> p_bits p' \<le> p_bits p))"
proof -
  from assms obtain p ms where
    srt: "sort_slice more_specific (route_matches a (Routes c)) = (r, p) # ms"
    by (auto simp: RouteFor_def split: list.splits)
  then have "(r, p) \<in> set (route_matches a (Routes c))"
    by (rule specific.sort_slice_hd_mem)
  moreover have "\<not> more_specific (r', p') (r, p)"
    if "r' \<in> set (Routes c)" "route_Prefix r' = Inr p'" "Contains p' a" for r' p'
    using specific.sort_slice_hd_least [OF srt] that by (auto simp: set_route_matches)
  ultimately show ?thesis
    by (auto simp: set_route_matches more_specific_def not_less)
qed

lemma set_SourcePaths:
  "p \<in> set (SourcePaths c me r) \<longleftrightarrow>
     p \<in> set (Paths c) \<and> 2 \<le> length (path_Hops p) \<and> hd (path_Hops p) = me \<and>
     path_OwnerNodeID p = route_OwnerNodeID r \<and> path_CIDR p = route_CIDR r"
  by (auto simp: SourcePaths_def)

lemma TransitPath_Some: "TransitPath c i = Some p \<Longrightarrow> p \<in> set (TransitPaths c) \<and> path_ID p = i"
  by (auto simp: TransitPath_def find_Some_iff)

end
