(* ===== verification/NetUDP.thy ===== *)
theory NetUDP
  imports Prelude
begin

text \<open>
  \<^verbatim>\<open>net.IP\<close> and \<^verbatim>\<open>net.UDPAddr\<close>: the addresses UDP sockets report. The program compares them with
  \<^verbatim>\<open>IP.Equal\<close> and by their printed form, which also keys the pending probes and the relay sessions.
\<close>

record udp_addr =
  IP :: "byte list"
  Port :: int
  Zone :: string

definition v4_in_v6 :: "byte list" where
  "v4_in_v6 = [0, 0, 0, 0, 0, 0, 0, 0, 0, 0, 255, 255]"

definition To4 :: "byte list \<Rightarrow> byte list option" where
  "To4 ip = (if length ip = 4 then Some ip
             else if length ip = 16 \<and> take 12 ip = v4_in_v6 then Some (drop 12 ip)
             else None)"

definition IP_Equal :: "byte list \<Rightarrow> byte list \<Rightarrow> bool" where
  "IP_Equal ip x \<longleftrightarrow>
     (if length ip = length x then ip = x
      else if length ip = 4 \<and> length x = 16 then take 12 x = v4_in_v6 \<and> drop 12 x = ip
      else if length ip = 16 \<and> length x = 4 then take 12 ip = v4_in_v6 \<and> drop 12 ip = x
      else False)"

section \<open>Printing\<close>

definition digit_char :: "nat \<Rightarrow> char" where
  "digit_char n = (if n < 10 then char_of (48 + n) else char_of (87 + n))"

fun radix :: "nat \<Rightarrow> nat \<Rightarrow> string" where
  "radix b n = (if b < 2 \<or> n < b then [digit_char n] else radix b (n div b) @ [digit_char (n mod b)])"

declare radix.simps [simp del]

definition Itoa :: "int \<Rightarrow> string" where
  "Itoa n = (if n < 0 then CHR ''-'' # radix 10 (nat (- n)) else radix 10 (nat n))"

fun join_with :: "string \<Rightarrow> string list \<Rightarrow> string" where
  "join_with sep [] = []"
| "join_with sep [x] = x"
| "join_with sep (x # xs) = x @ sep @ join_with sep xs"

definition ipv4_String :: "byte list \<Rightarrow> string" where
  "ipv4_String ip = join_with ''.'' (map (\<lambda>b. radix 10 (unat b)) ip)"

fun words16 :: "byte list \<Rightarrow> nat list" where
  "words16 (a # b # bs) = (unat a * 256 + unat b) # words16 bs"
| "words16 _ = []"

fun zero_run :: "nat list \<Rightarrow> nat" where
  "zero_run [] = 0"
| "zero_run (x # xs) = (if x = 0 then Suc (zero_run xs) else 0)"

text \<open>The first longest run of at least two zero groups prints as a double colon.\<close>

definition best_run :: "nat list \<Rightarrow> (nat \<times> nat) option" where
  "best_run gs =
     foldl (\<lambda>best i. let l = zero_run (drop i gs)
                     in if 2 \<le> l \<and> (case best of None \<Rightarrow> True | Some (_, k) \<Rightarrow> k < l)
                        then Some (i, l) else best)
       None [0..<length gs]"

definition ipv6_String :: "byte list \<Rightarrow> string" where
  "ipv6_String ip =
     (let gs = words16 ip; hexs = map (radix 16)
      in case best_run gs of
           None \<Rightarrow> join_with '':'' (hexs gs)
         | Some (i, l) \<Rightarrow>
             join_with '':'' (hexs (take i gs)) @ ''::'' @ join_with '':'' (hexs (drop (i + l) gs)))"

definition hex_byte :: "byte \<Rightarrow> string" where
  "hex_byte b = [digit_char (unat b div 16), digit_char (unat b mod 16)]"

definition ip_String :: "byte list \<Rightarrow> string" where
  "ip_String ip =
     (if ip = [] then []
      else case To4 ip of
             Some v4 \<Rightarrow> ipv4_String v4
           | None \<Rightarrow> if length ip = 16 then ipv6_String ip else CHR ''?'' # concat (map hex_byte ip))"

definition join_host_port :: "string \<Rightarrow> string \<Rightarrow> string" where
  "join_host_port host port =
     (if CHR '':'' \<in> set host then ''['' @ host @ '']:'' @ port
      else host @ '':'' @ port)"

definition udp_String :: "udp_addr \<Rightarrow> string" where
  "udp_String a =
     (if Zone a \<noteq> [] then join_host_port (ip_String (IP a) @ ''%'' @ Zone a) (Itoa (Port a))
      else join_host_port (ip_String (IP a)) (Itoa (Port a)))"

lemma IP_Equal_refl [simp]: "IP_Equal ip ip"
  by (simp add: IP_Equal_def)

end
