(* ===== verification/WgCodec.thy ===== *)
theory WgCodec
  imports Encoding
begin

text \<open>
  \<^verbatim>\<open>internal/wgshim/codec.go\<close>: the authenticated packet codec. HMAC-SHA256 and AES-GCM are functions of
  the \<open>crypto\<close> parameter; the law the decoder relies on, that opening what was sealed under the same
  key, nonce and additional data gives the plaintext back, is \<open>crypto_ok\<close>. The random source is the list
  of the bytes it will deliver; a read it cannot fill is the error of \<^verbatim>\<open>io.ReadFull\<close>.
\<close>

section \<open>The cryptographic primitives\<close>

record crypto =
  sha256_sum :: "byte list \<Rightarrow> byte list"
  hmac_sha256 :: "byte list \<Rightarrow> byte list \<Rightarrow> byte list"
  gcm_seal :: "byte list \<Rightarrow> byte list \<Rightarrow> byte list \<Rightarrow> byte list \<Rightarrow> byte list"
  gcm_open :: "byte list \<Rightarrow> byte list \<Rightarrow> byte list \<Rightarrow> byte list \<Rightarrow> byte list option"

text \<open>What the documentation of \<^verbatim>\<open>cipher.AEAD\<close> promises of GCM with the standard sizes.\<close>

definition gcmNonceSize :: nat where "gcmNonceSize = 12"
definition gcmOverhead :: nat where "gcmOverhead = 16"

definition crypto_ok :: "crypto \<Rightarrow> bool" where
  "crypto_ok cr \<longleftrightarrow>
     (\<forall>key nonce plain ad.
        length (gcm_seal cr key nonce plain ad) = length plain + gcmOverhead \<and>
        gcm_open cr key nonce (gcm_seal cr key nonce plain ad) ad = Some plain) \<and>
     (\<forall>key msg. length (hmac_sha256 cr key msg) = 32) \<and>
     (\<forall>msg. length (sha256_sum cr msg) = 32)"

section \<open>Data\<close>

definition protocolVersion :: byte where "protocolVersion = 1"
definition packetData :: byte where "packetData = 0"
definition packetProbe :: byte where "packetProbe = 1"
definition packetProbeReply :: byte where "packetProbeReply = 2"
definition nonceSize :: nat where "nonceSize = 12"
definition headerSize :: nat where "headerSize = 4"
definition maxInnerPacket :: nat where "maxInnerPacket = 65507 - nonceSize - 16 - headerSize"
definition aad :: "byte list" where "aad = bytes_of ''BPC-WGSHIM-v1''"

lemmas codec_consts [go_defs] =
  protocolVersion_def packetData_def packetProbe_def packetProbeReply_def nonceSize_def headerSize_def
  maxInnerPacket_def gcmNonceSize_def gcmOverhead_def

datatype direction = ClientToServer | ServerToClient

record codec =
  codec_key :: "byte list"
  paddingMin :: int
  paddingMax :: int

datatype codec_error =
    CodecPanic
  | KeyFileUnreadable
  | KeyNotBase64
  | KeyBadLength nat
  | BadPSKLength nat
  | BadPaddingRange
  | BadCipherKey nat
  | UnsupportedPacketType byte
  | InnerPayloadTooLarge nat
  | RandomFailed
  | OuterTooShort
  | AuthenticationFailed
  | InvalidPacketHeader
  | UnsupportedType
  | InvalidPayloadLen
  | PacketIsNotData

section \<open>Keys\<close>

text \<open>\<open>file\<close> is what reading the key file gives, \<^const>\<open>None\<close> on an I/O error.\<close>

definition LoadPSK :: "string option \<Rightarrow> codec_error + byte list" where
  "LoadPSK file =
     (case file of
        None \<Rightarrow> Inl KeyFileUnreadable
      | Some raw \<Rightarrow>
          case base64_decode (trim_space raw) of
            None \<Rightarrow> Inl KeyNotBase64
          | Some key \<Rightarrow> if length key \<noteq> 32 then Inl (KeyBadLength (length key)) else Inr key)"

definition DeriveKey :: "crypto \<Rightarrow> byte list \<Rightarrow> direction \<Rightarrow> codec_error + byte list" where
  "DeriveKey cr psk dir =
     (if length psk \<noteq> 32 then Inl (BadPSKLength (length psk))
      else let label = (if dir = ServerToClient then ''bpc-wgshim-v1-s2c'' else ''bpc-wgshim-v1-c2s'')
           in Inr (hmac_sha256 cr psk (bytes_of label)))"

definition NewCodec :: "byte list \<Rightarrow> int \<Rightarrow> int \<Rightarrow> codec_error + codec" where
  "NewCodec key pmin pmax =
     (if pmin < 0 \<or> pmax < pmin \<or> 255 < pmax then Inl BadPaddingRange
      else if length key \<notin> {16, 24, 32} then Inl (BadCipherKey (length key))
      else Inr \<lparr>codec_key = key, paddingMin = pmin, paddingMax = pmax\<rparr>)"

section \<open>Sealing\<close>

type_synonym random = "byte list"

definition ReadFull :: "random \<Rightarrow> nat \<Rightarrow> (byte list \<times> random) option" where
  "ReadFull rnd n = (if n \<le> length rnd then Some (take n rnd, drop n rnd) else None)"

text \<open>The rejection loop draws one byte at a time and keeps the first below the limit.\<close>

fun draw_below :: "nat \<Rightarrow> random \<Rightarrow> (nat \<times> random) option" where
  "draw_below limit [] = None"
| "draw_below limit (b # rnd) = (if unat b < limit then Some (unat b, rnd) else draw_below limit rnd)"

definition randomPaddingLength :: "codec \<Rightarrow> random \<Rightarrow> (nat \<times> random) option" where
  "randomPaddingLength c rnd =
     (if paddingMin c = paddingMax c then Some (nat (paddingMin c), rnd)
      else let span = nat (paddingMax c - paddingMin c + 1); limit = 256 - 256 mod span
           in case draw_below limit rnd of
                None \<Rightarrow> None
              | Some (b, rnd) \<Rightarrow> Some (nat (paddingMin c) + b mod span, rnd))"

definition known_type :: "byte \<Rightarrow> bool" where
  "known_type t \<longleftrightarrow> t = packetData \<or> t = packetProbe \<or> t = packetProbeReply"

text \<open>The result is the packet and what is left of the random source.\<close>

definition sealType :: "crypto \<Rightarrow> codec \<Rightarrow> random \<Rightarrow> byte \<Rightarrow> byte list \<Rightarrow> (codec_error + byte list) \<times> random" where
  "sealType cr c rnd packetType payload =
     (if \<not> known_type packetType then (Inl (UnsupportedPacketType packetType), rnd)
      else if maxInnerPacket < length payload \<or> 65535 < length payload
        then (Inl (InnerPayloadTooLarge (length payload)), rnd)
      else case randomPaddingLength c rnd of
             None \<Rightarrow> (Inl RandomFailed, [])
           | Some (padLen, rnd) \<Rightarrow>
               case ReadFull rnd padLen of
                 None \<Rightarrow> (Inl RandomFailed, [])
               | Some (padding, rnd) \<Rightarrow>
                   let plaintext = [protocolVersion, packetType] @ be_encode 2 (length payload)
                                   @ payload @ padding
                   in case ReadFull rnd gcmNonceSize of
                        None \<Rightarrow> (Inl RandomFailed, [])
                      | Some (nonce, rnd) \<Rightarrow>
                          (Inr (nonce @ gcm_seal cr (codec_key c) nonce plaintext aad), rnd))"

definition Seal :: "crypto \<Rightarrow> codec \<Rightarrow> random \<Rightarrow> byte list \<Rightarrow> (codec_error + byte list) \<times> random" where
  "Seal cr c rnd payload = sealType cr c rnd packetData payload"

definition SealProbe :: "crypto \<Rightarrow> codec \<Rightarrow> random \<Rightarrow> byte list \<Rightarrow> (codec_error + byte list) \<times> random" where
  "SealProbe cr c rnd payload = sealType cr c rnd packetProbe payload"

definition SealProbeReply :: "crypto \<Rightarrow> codec \<Rightarrow> random \<Rightarrow> byte list \<Rightarrow> (codec_error + byte list) \<times> random" where
  "SealProbeReply cr c rnd payload = sealType cr c rnd packetProbeReply payload"

section \<open>Opening\<close>

definition OpenTyped :: "crypto \<Rightarrow> codec \<Rightarrow> byte list \<Rightarrow> codec_error + byte \<times> byte list" where
  "OpenTyped cr c packet =
     (if length packet < gcmNonceSize + gcmOverhead + headerSize then Inl OuterTooShort
      else case subslice packet 0 gcmNonceSize of
             None \<Rightarrow> Inl CodecPanic
           | Some nonce \<Rightarrow>
      case gcm_open cr (codec_key c) nonce (drop gcmNonceSize packet) aad of
        None \<Rightarrow> Inl AuthenticationFailed
      | Some plaintext \<Rightarrow>
          if length plaintext < headerSize \<or> plaintext ! 0 \<noteq> protocolVersion then Inl InvalidPacketHeader
          else case (index_at plaintext 1, subslice plaintext 2 4) of
                 (Some packetType, Some len) \<Rightarrow>
                   if \<not> known_type packetType then Inl UnsupportedType
                   else let payloadLen = be_decode len
                        in if length plaintext - headerSize < payloadLen then Inl InvalidPayloadLen
                           else (case subslice plaintext headerSize (headerSize + payloadLen) of
                                   None \<Rightarrow> Inl CodecPanic
                                 | Some payload \<Rightarrow> Inr (packetType, payload))
               | _ \<Rightarrow> Inl CodecPanic)"

definition codec_Open :: "crypto \<Rightarrow> codec \<Rightarrow> byte list \<Rightarrow> codec_error + byte list" where
  "codec_Open cr c packet =
     (case OpenTyped cr c packet of
        Inl e \<Rightarrow> Inl e
      | Inr (packetType, payload) \<Rightarrow> if packetType \<noteq> packetData then Inl PacketIsNotData else Inr payload)"

definition IsProbe :: "byte \<Rightarrow> bool" where "IsProbe t \<longleftrightarrow> t = packetProbe"
definition IsProbeReply :: "byte \<Rightarrow> bool" where "IsProbeReply t \<longleftrightarrow> t = packetProbeReply"
definition IsData :: "byte \<Rightarrow> bool" where "IsData t \<longleftrightarrow> t = packetData"

lemmas packet_kinds [go_defs] = IsProbe_def IsProbeReply_def IsData_def known_type_def

section \<open>Padding\<close>

text \<open>The padding range \<open>NewCodec\<close> admits.\<close>

definition codec_ok :: "codec \<Rightarrow> bool" where
  "codec_ok c \<longleftrightarrow> 0 \<le> paddingMin c \<and> paddingMin c \<le> paddingMax c \<and> paddingMax c \<le> 255"

lemma NewCodec_ok: "NewCodec key lo hi = Inr c \<Longrightarrow> codec_ok c \<and> codec_key c = key"
  by (auto simp: NewCodec_def codec_ok_def split: if_splits)

lemma draw_below_less: "draw_below limit rnd = Some (b, rest) \<Longrightarrow> b < limit"
  by (induction rnd) (auto split: if_splits)

lemma randomPaddingLength_range:
  assumes "codec_ok c" and "randomPaddingLength c rnd = Some (n, rest)"
  shows "paddingMin c \<le> int n \<and> int n \<le> paddingMax c"
proof (cases "paddingMin c = paddingMax c")
  case True
  then show ?thesis using assms by (auto simp: randomPaddingLength_def codec_ok_def)
next
  case False
  define span where "span = nat (paddingMax c - paddingMin c + 1)"
  have "0 < span" using assms(1) by (simp add: span_def codec_ok_def)
  moreover obtain b where "n = nat (paddingMin c) + b mod span"
    using assms(2) False by (auto simp: randomPaddingLength_def Let_def span_def split: option.splits)
  ultimately have "n < nat (paddingMin c) + span"
    using mod_less_divisor by simp
  moreover have "nat (paddingMin c) \<le> n" using \<open>n = _\<close> by simp
  ultimately show ?thesis
    using assms(1) unfolding span_def codec_ok_def by arith
qed

text \<open>The limit is the greatest multiple of the span that fits a byte, so every remainder is drawn by
  the same number of byte values.\<close>

lemma card_residue:
  assumes "r < s"
  shows "card {b. b < q * s \<and> b mod s = r} = (q :: nat)"
proof -
  have "{b. b < q * s \<and> b mod s = r} = (\<lambda>k. k * s + r) ` {..<q}" (is "?A = ?B")
  proof
    show "?A \<subseteq> ?B"
    proof
      fix b assume "b \<in> ?A"
      then have "b = b div s * s + r" and "b div s < q"
        using assms by (auto simp: less_mult_imp_div_less)
      then show "b \<in> ?B" by blast
    qed
    show "?B \<subseteq> ?A"
    proof (clarsimp simp: assms)
      fix k assume "k < q"
      then have "(k + 1) * s \<le> q * s" by (intro mult_right_mono) auto
      then show "k * s + r < q * s" using assms by simp
    qed
  qed
  moreover have "inj_on (\<lambda>k. k * s + r) {..<q}"
    using assms by (auto simp: inj_on_def)
  ultimately show ?thesis by (simp add: card_image)
qed

section \<open>The round trip\<close>

lemma sealType_cases:
  assumes "sealType cr c rnd ty payload = (Inr packet, rest)"
  obtains padding nonce where "known_type ty" "length payload \<le> maxInnerPacket" "length payload \<le> 65535"
    "randomPaddingLength c rnd \<noteq> None"
    "length padding = fst (the (randomPaddingLength c rnd))" "length nonce = gcmNonceSize"
    "packet = nonce @ gcm_seal cr (codec_key c) nonce
       ([protocolVersion, ty] @ be_encode 2 (length payload) @ payload @ padding) aad"
proof -
  from assms obtain n r where pad: "randomPaddingLength c rnd = Some (n, r)" and "n \<le> length r"
    and "gcmNonceSize \<le> length (drop n r)"
    and "packet = take gcmNonceSize (drop n r) @ gcm_seal cr (codec_key c) (take gcmNonceSize (drop n r))
       ([protocolVersion, ty] @ be_encode 2 (length payload) @ payload @ take n r) aad"
    and "known_type ty" "length payload \<le> maxInnerPacket" "length payload \<le> 65535"
    by (auto simp: sealType_def ReadFull_def Let_def simp del: length_drop split: if_splits option.splits)
  then show ?thesis
    by (intro that [of "take n r" "take gcmNonceSize (drop n r)"]) simp_all
qed

lemma OpenTyped_sealed:
  assumes cr: "crypto_ok cr" and ty: "known_type ty" and len: "length payload \<le> 65535"
    and n: "length nonce = gcmNonceSize"
  shows "OpenTyped cr c (nonce @ gcm_seal cr (codec_key c) nonce
      ([protocolVersion, ty] @ be_encode 2 (length payload) @ payload @ padding) aad) = Inr (ty, payload)"
proof -
  define plain where "plain = [protocolVersion, ty] @ be_encode 2 (length payload) @ payload @ padding"
  have sub: "subslice plain 2 4 = Some (be_encode 2 (length payload))"
    "subslice plain 4 (4 + length payload) = Some payload"
    using subslice_append_mid [of 2 "[protocolVersion, ty]" 4 "be_encode 2 (length payload)"]
      subslice_append_mid [of 4 "[protocolVersion, ty] @ be_encode 2 (length payload)" _ payload padding]
    by (simp_all add: plain_def)
  have hdr: "plain ! 0 = protocolVersion" "index_at plain (Suc 0) = Some ty"
    "length plain = 4 + length payload + length padding"
    by (simp_all add: plain_def index_at_def)
  have dec: "be_decode (be_encode 2 (length payload)) = length payload"
    using len by (simp add: be_decode_encode)
  have "length (gcm_seal cr (codec_key c) nonce plain aad) = length plain + 16"
    and op: "gcm_open cr (codec_key c) nonce (gcm_seal cr (codec_key c) nonce plain aad) aad = Some plain"
    using cr by (simp_all add: crypto_ok_def gcmOverhead_def)
  then show ?thesis
    unfolding plain_def [symmetric]
    using n ty by (simp add: OpenTyped_def subslice_def [of "nonce @ _"] hdr sub dec
        codec_consts Let_def del: be_encode.simps)
qed

lemma sealType_OpenTyped:
  assumes "crypto_ok cr" and "sealType cr c rnd ty payload = (Inr packet, rest)"
  shows "OpenTyped cr c packet = Inr (ty, payload)"
  using sealType_cases [OF assms(2)] OpenTyped_sealed [OF assms(1)] by metis

lemma OpenTyped_no_panic: "OpenTyped cr c packet \<noteq> Inl CodecPanic"
  by (auto simp: OpenTyped_def Let_def bounds_simps codec_consts split: option.splits)

lemma OpenTyped_known: "OpenTyped cr c packet = Inr (ty, payload) \<Longrightarrow> known_type ty"
  by (auto simp: OpenTyped_def Let_def split: option.splits if_splits)

lemma sealType_length:
  assumes "crypto_ok cr" and "codec_ok c" and "sealType cr c rnd ty payload = (Inr packet, rest)"
  shows "int (length packet) \<le> 65507 + paddingMax c"
proof -
  obtain padding nonce where *: "length payload \<le> maxInnerPacket" "length nonce = gcmNonceSize"
    "length padding = fst (the (randomPaddingLength c rnd))" "randomPaddingLength c rnd \<noteq> None"
    "packet = nonce @ gcm_seal cr (codec_key c) nonce
       ([protocolVersion, ty] @ be_encode 2 (length payload) @ payload @ padding) aad"
    using sealType_cases [OF assms(3)] by metis
  then have "int (length padding) \<le> paddingMax c"
    using randomPaddingLength_range [OF assms(2), of rnd] by auto
  moreover have "length packet = 32 + length payload + length padding"
    using * assms(1) by (simp add: crypto_ok_def codec_consts)
  ultimately show ?thesis using *(1) by (simp add: codec_consts)
qed

end
