(* ===== verification/RoutedSession.thy ===== *)
theory RoutedSession
  imports RoutedConfig NetUDP WgCodec
begin

text \<open>
  One peer of the routed mesh: \<^verbatim>\<open>meshPeer\<close> of \<^verbatim>\<open>internal/routed/mesh.go\<close> (learned address, probe
  statistics, health, the 64-packet replay window) and \<^verbatim>\<open>internal/routed/session.go\<close> (the epochs that
  bind data to both process incarnations). The mutexes of the struct make each method one atomic
  operation on the record below; a clock reading is an argument.
\<close>

section \<open>State\<close>

record mesh_peer =
  peer_config :: link_config
  peer_fingerprint :: "byte list"
  peer_tx :: codec
  peer_rx :: codec
  peer_addr :: "udp_addr option"
  addressSince :: gotime
  lastAuth :: gotime
  lastReply :: gotime
  lastRTT :: duration
  peer_samples :: "bool list"
  sendSeq :: u64
  recvHigh :: u64
  recvMask :: u64
  localEpoch :: "byte list"
  remoteEpoch :: "byte list"

record link_status =
  ls_ID :: string
  ls_From :: string
  ls_To :: string
  ls_PeerName :: string
  ls_Health :: string
  ls_RTTMS :: f64
  ls_LossPercent :: f64
  ls_Cost :: f64
  ls_LastSeen :: int
  ls_Endpoint :: string

definition probeInterval :: duration where "probeInterval = 250 * millisecond"
definition probeTimeout :: duration where "probeTimeout = 400 * millisecond"
definition linkFailAfter :: duration where "linkFailAfter = second"

definition zero_epoch :: "byte list" where "zero_epoch = replicate 16 0"

section \<open>Address and probe statistics\<close>

definition setAddress :: "udp_addr option \<Rightarrow> gotime \<Rightarrow> mesh_peer \<Rightarrow> mesh_peer" where
  "setAddress addr now p =
     (case addr of
        None \<Rightarrow> p
      | Some a \<Rightarrow>
          let changed = (case peer_addr p of
                           None \<Rightarrow> True
                         | Some old \<Rightarrow> \<not> IP_Equal (IP old) (IP a) \<or> Port old \<noteq> Port a);
              p = p\<lparr>peer_addr := Some a\<rparr>
          in if changed then p\<lparr>addressSince := now, lastReply := zero_time, peer_samples := []\<rparr> else p)"

definition markAuth :: "gotime \<Rightarrow> mesh_peer \<Rightarrow> mesh_peer" where
  "markAuth now p = p\<lparr>lastAuth := now\<rparr>"

definition recordProbe :: "bool \<Rightarrow> duration \<Rightarrow> gotime \<Rightarrow> mesh_peer \<Rightarrow> mesh_peer" where
  "recordProbe ok rtt now p =
     (let p = (if ok then p\<lparr>lastAuth := now, lastReply := now, lastRTT := rtt\<rparr> else p);
          s = peer_samples p @ [ok]
      in p\<lparr>peer_samples := (if 20 < length s then drop (length s - 20) s else s)\<rparr>)"

definition link_health :: "mesh_peer \<Rightarrow> gotime \<Rightarrow> string" where
  "link_health p now =
     (if peer_addr p = None then ''unknown''
      else if \<not> is_zero (lastReply p) \<and> time_sub now (lastReply p) \<le> linkFailAfter then ''healthy''
      else if \<not> is_zero (addressSince p) \<and> time_sub now (addressSince p) \<le> linkFailAfter then ''degraded''
      else ''failed'')"

definition loss_percent :: "bool list \<Rightarrow> f64" where
  "loss_percent ss =
     (if ss = [] then 0
      else f64_div (f64_mul (f64_of_int (int (length (filter Not ss)))) 100) (f64_of_int (int (length ss))))"

text \<open>\<open>Microseconds\<close> divides the duration rounding towards zero.\<close>

definition Microseconds :: "duration \<Rightarrow> int" where
  "Microseconds d = (if d < 0 then - (- d div 1000) else d div 1000)"

definition peer_status :: "string \<Rightarrow> gotime \<Rightarrow> mesh_peer \<Rightarrow> link_status" where
  "peer_status localNodeID now p =
     \<lparr>ls_ID = link_ID (peer_config p), ls_From = localNodeID, ls_To = link_PeerNodeID (peer_config p),
      ls_PeerName = link_PeerName (peer_config p), ls_Health = link_health p now,
      ls_RTTMS = f64_div (f64_of_int (Microseconds (lastRTT p))) 1000,
      ls_LossPercent = loss_percent (peer_samples p), ls_Cost = link_Cost (peer_config p),
      ls_LastSeen = (if \<not> is_zero (lastReply p) then unix_of (lastReply p)
                     else if \<not> is_zero (lastAuth p) then unix_of (lastAuth p) else 0),
      ls_Endpoint = (case peer_addr p of None \<Rightarrow> [] | Some a \<Rightarrow> udp_String a)\<rparr>"

section \<open>The replay window\<close>

definition nextSequence :: "mesh_peer \<Rightarrow> u64 \<times> mesh_peer" where
  "nextSequence p = (let s = sendSeq p + 1 in (s, p\<lparr>sendSeq := s\<rparr>))"

definition acceptSequenceLocked :: "u64 \<Rightarrow> mesh_peer \<Rightarrow> bool \<times> mesh_peer" where
  "acceptSequenceLocked sequence p =
     (if sequence = 0 then (False, p)
      else if recvHigh p = 0 then (True, p\<lparr>recvHigh := sequence, recvMask := 1\<rparr>)
      else if recvHigh p < sequence then
        (let shift = sequence - recvHigh p
         in (True, p\<lparr>recvMask := (if 64 \<le> shift then 1 else push_bit (unat shift) (recvMask p) OR 1),
                    recvHigh := sequence\<rparr>))
      else
        let delta = recvHigh p - sequence
        in if 64 \<le> delta then (False, p)
           else let bt = push_bit (unat delta) 1
                in if recvMask p AND bt \<noteq> 0 then (False, p)
                   else (True, p\<lparr>recvMask := recvMask p OR bt\<rparr>))"

definition acceptSequence :: "u64 \<Rightarrow> mesh_peer \<Rightarrow> bool \<times> mesh_peer" where
  "acceptSequence sequence p = (if sequence = 0 then (False, p) else acceptSequenceLocked sequence p)"

section \<open>Session epochs\<close>

definition sessionReady :: "mesh_peer \<Rightarrow> bool" where
  "sessionReady p \<longleftrightarrow> remoteEpoch p \<noteq> zero_epoch"

definition matchesRemoteEpoch :: "byte list \<Rightarrow> mesh_peer \<Rightarrow> bool" where
  "matchesRemoteEpoch epoch p \<longleftrightarrow> remoteEpoch p = epoch"

definition confirmRemoteEpoch :: "byte list \<Rightarrow> mesh_peer \<Rightarrow> mesh_peer" where
  "confirmRemoteEpoch epoch p =
     (if length epoch \<noteq> 16 then p
      else if remoteEpoch p \<noteq> epoch then p\<lparr>remoteEpoch := epoch, recvHigh := 0, recvMask := 0\<rparr>
      else p)"

datatype session_error = NotAuthenticated | SequenceExhausted

definition dataEnvelope :: "byte list \<Rightarrow> mesh_peer \<Rightarrow> (session_error + byte list) \<times> mesh_peer" where
  "dataEnvelope payload p =
     (if remoteEpoch p = zero_epoch then (Inl NotAuthenticated, p)
      else let (sequence, p) = nextSequence p
           in if sequence = 0 then (Inl SequenceExhausted, p)
              else (Inr (localEpoch p @ remoteEpoch p @ be_encode 8 (unat sequence) @ payload), p))"

text \<open>\<open>raw\<close> is longer than the 40-byte header when its slices are read.\<close>

definition acceptDataEnvelope :: "byte list \<Rightarrow> mesh_peer \<Rightarrow> byte list option \<times> mesh_peer" where
  "acceptDataEnvelope raw p =
     (if length raw \<le> 40 then (None, p)
      else if remoteEpoch p = zero_epoch \<or> take 16 raw \<noteq> remoteEpoch p
              \<or> take 16 (drop 16 raw) \<noteq> localEpoch p then (None, p)
      else let (ok, p) = acceptSequenceLocked (word_of_nat (be_decode (take 8 (drop 32 raw)))) p
           in if ok then (Some (drop 40 raw), p) else (None, p))"

lemmas peer_ops =
  setAddress_def markAuth_def recordProbe_def nextSequence_def acceptSequenceLocked_def
  confirmRemoteEpoch_def dataEnvelope_def acceptDataEnvelope_def

section \<open>The contract of a replay filter\<close>

text \<open>A filter refines the set of accepted numbers: accepting adds a number that was not there, and a
  refused number changes nothing. Its client, a run over any sequence of arriving numbers, then accepts
  no number twice.\<close>

locale replay_filter =
  fixes accept :: "'q \<Rightarrow> 's \<Rightarrow> bool \<times> 's"
    and tracks :: "'s \<Rightarrow> 'q set \<Rightarrow> bool"
  assumes accept_fresh: "tracks s S \<Longrightarrow> accept q s = (True, s') \<Longrightarrow> q \<notin> S \<and> tracks s' (insert q S)"
    and refuse_keeps: "tracks s S \<Longrightarrow> accept q s = (False, s') \<Longrightarrow> tracks s' S"
begin

fun run :: "'q list \<Rightarrow> 's \<Rightarrow> 'q list \<times> 's" where
  "run [] s = ([], s)"
| "run (q # qs) s =
     (let (ok, s') = accept q s; (rest, s'') = run qs s' in (if ok then q # rest else rest, s''))"

lemma run_distinct:
  "tracks s S \<Longrightarrow> run qs s = (acc, s') \<Longrightarrow>
   distinct acc \<and> set acc \<inter> S = {} \<and> tracks s' (S \<union> set acc)"
proof (induction qs arbitrary: s S acc s')
  case (Cons q qs)
  obtain ok s1 where a: "accept q s = (ok, s1)" by fastforce
  obtain rest s2 where r: "run qs s1 = (rest, s2)" by fastforce
  have eq: "acc = (if ok then q # rest else rest)" "s' = s2"
    using Cons.prems(2) by (auto simp: a r)
  show ?case
  proof (cases ok)
    case True
    then have "q \<notin> S" "tracks s1 (insert q S)"
      using accept_fresh [OF Cons.prems(1)] a by auto
    with Cons.IH [OF this(2) r] True eq show ?thesis by auto
  next
    case False
    then have "tracks s1 S" using refuse_keeps [OF Cons.prems(1)] a by auto
    with Cons.IH [OF _ r] False eq show ?thesis by auto
  qed
qed auto

end

section \<open>The window implements the filter\<close>

text \<open>Bit \<open>d\<close> of the mask says whether the number \<open>d\<close> below the highest was accepted.\<close>

definition window_tracks :: "mesh_peer \<Rightarrow> u64 set \<Rightarrow> bool" where
  "window_tracks p S \<longleftrightarrow>
     0 \<notin> S \<and> (\<forall>q\<in>S. q \<le> recvHigh p) \<and> (recvHigh p = 0 \<longleftrightarrow> S = {}) \<and>
     (recvHigh p \<noteq> 0 \<longrightarrow> recvHigh p \<in> S \<and>
        (\<forall>d<64. bit (recvMask p) d \<longleftrightarrow> (\<exists>q\<in>S. unat q + d = unat (recvHigh p))))"

definition window_spec :: "u64 set \<Rightarrow> u64 \<Rightarrow> u64 \<Rightarrow> bool" where
  "window_spec S high q \<longleftrightarrow> q \<noteq> 0 \<and> q \<notin> S \<and> unat high < unat q + 64"

lemma and_exp_nonzero: "(m :: u64) AND 2 ^ n \<noteq> 0 \<longleftrightarrow> bit m n"
  using bit_iff_and_push_bit_not_eq_0 [of m n] by simp

lemma unat_diff: "(b :: u64) \<le> a \<Longrightarrow> unat (a - b) = unat a - unat b"
  by (simp add: unat_sub)

lemma window_bit_seen:
  assumes "window_tracks p S" and "recvHigh p \<noteq> 0" and "q \<le> recvHigh p"
    and "unat (recvHigh p) - unat q < 64"
  shows "bit (recvMask p) (unat (recvHigh p) - unat q) \<longleftrightarrow> q \<in> S"
proof -
  have "unat q \<le> unat (recvHigh p)" using assms(3) by (simp add: word_le_nat_alt)
  then have eq: "unat q' + (unat (recvHigh p) - unat q) = unat (recvHigh p) \<longleftrightarrow> q' = q" for q'
    by (auto simp: word_unat_eq_iff)
  have "bit (recvMask p) (unat (recvHigh p) - unat q) \<longleftrightarrow>
      (\<exists>q'\<in>S. unat q' + (unat (recvHigh p) - unat q) = unat (recvHigh p))"
    using assms unfolding window_tracks_def by blast
  then show ?thesis by (simp only: eq) blast
qed

lemma accept_iff:
  assumes tr: "window_tracks p S"
  shows "fst (acceptSequenceLocked q p) \<longleftrightarrow> window_spec S (recvHigh p) q"
proof (cases "q = 0 \<or> recvHigh p = 0")
  case True
  then show ?thesis using tr
    by (auto simp: acceptSequenceLocked_def window_spec_def window_tracks_def)
next
  case False
  then have nz: "q \<noteq> 0" "recvHigh p \<noteq> 0" by auto
  show ?thesis
  proof (cases "recvHigh p < q")
    case True
    moreover have "q \<notin> S" using tr True by (auto simp: window_tracks_def)
    moreover have "unat (recvHigh p) < unat q" using True by (simp add: word_less_nat_alt)
    ultimately show ?thesis using nz by (simp add: acceptSequenceLocked_def window_spec_def Let_def)
  next
    case False
    then have le: "q \<le> recvHigh p" by simp
    have d: "unat (recvHigh p - q) = unat (recvHigh p) - unat q" by (rule unat_diff [OF le])
    have lt: "64 \<le> recvHigh p - q \<longleftrightarrow> \<not> unat (recvHigh p) < unat q + 64"
      using le d by (simp add: word_le_nat_alt) linarith
    show ?thesis
      using nz False window_bit_seen [OF tr nz(2) le]
      by (auto simp: acceptSequenceLocked_def window_spec_def Let_def lt d and_exp_nonzero)
  qed
qed

lemma accept_high_tracks:
  assumes tr: "window_tracks p S" and nz: "recvHigh p \<noteq> 0" and lt: "recvHigh p < q"
  shows "window_tracks (snd (acceptSequenceLocked q p)) (insert q S)"
proof -
  define sh where "sh = unat q - unat (recvHigh p)"
  have ul: "unat (recvHigh p) < unat q" using lt by (simp add: word_less_nat_alt)
  have sh: "unat (q - recvHigh p) = sh" using lt by (simp add: sh_def unat_diff)
  have ge: "64 \<le> q - recvHigh p \<longleftrightarrow> 64 \<le> sh" using sh by (simp add: word_le_nat_alt)
  have below: "unat r \<le> unat (recvHigh p)" if "r \<in> S" for r
    using tr that by (auto simp: window_tracks_def word_le_nat_alt)
  have old: "bit (recvMask p) d \<longleftrightarrow> (\<exists>r\<in>S. unat r + d = unat (recvHigh p))" if "d < 64" for d
    using tr nz that by (auto simp: window_tracks_def)
  define m where "m = (if 64 \<le> q - recvHigh p then 1 else push_bit (unat (q - recvHigh p)) (recvMask p) OR 1)"
  have bits: "bit m d \<longleftrightarrow> (\<exists>r\<in>insert q S. unat r + d = unat q)" if d: "d < 64" for d
  proof (cases "d < sh")
    case True
    then have "\<not> (\<exists>r\<in>S. unat r + d = unat q)"
      using below ul by (fastforce simp: sh_def)
    moreover have "bit m d \<longleftrightarrow> d = 0"
      using True d by (auto simp: m_def ge sh bit_or_iff bit_push_bit_iff bit_1_iff)
    ultimately show ?thesis by auto
  next
    case False
    have "0 < sh" using ul by (simp add: sh_def)
    then have "bit m d \<longleftrightarrow> bit (recvMask p) (d - sh)"
      using False d by (auto simp: m_def ge sh bit_or_iff bit_push_bit_iff bit_1_iff)
    also have "\<dots> \<longleftrightarrow> (\<exists>r\<in>S. unat r + (d - sh) = unat (recvHigh p))"
      by (rule old) (use d in simp)
    also have "\<dots> \<longleftrightarrow> (\<exists>r\<in>S. unat r + d = unat q)"
    proof -
      have "unat r + (d - sh) = unat (recvHigh p) \<longleftrightarrow> unat r + d = unat q" for r :: u64
        using False ul by (simp add: sh_def) linarith
      then show ?thesis by simp
    qed
    also have "\<dots> \<longleftrightarrow> (\<exists>r\<in>insert q S. unat r + d = unat q)"
      using False \<open>0 < sh\<close> by auto
    finally show ?thesis .
  qed
  have "snd (acceptSequenceLocked q p) = p\<lparr>recvMask := m, recvHigh := q\<rparr>"
    using nz lt by (auto simp: acceptSequenceLocked_def Let_def m_def)
  moreover have "\<forall>r\<in>insert q S. r \<le> q" "q \<noteq> 0" "0 \<notin> S"
    using tr lt by (auto simp: window_tracks_def)
  ultimately show ?thesis using bits by (auto simp: window_tracks_def)
qed

lemma accept_low_tracks:
  assumes tr: "window_tracks p S" and nz: "recvHigh p \<noteq> 0" "q \<noteq> 0" and le: "q \<le> recvHigh p"
    and ok: "acceptSequenceLocked q p = (True, p')"
  shows "window_tracks p' (insert q S)"
proof -
  define n where "n = unat (recvHigh p - q)"
  have n: "n = unat (recvHigh p) - unat q" "unat q \<le> unat (recvHigh p)"
    using le by (simp_all add: n_def unat_diff word_le_nat_alt)
  have p': "p' = p\<lparr>recvMask := recvMask p OR 2 ^ n\<rparr>" and "n < 64"
    using ok nz linorder_not_less [THEN iffD2, OF le]
    by (auto simp: acceptSequenceLocked_def Let_def n_def word_le_nat_alt [of 64] split: if_splits)
  have bits: "bit (recvMask p OR 2 ^ n) d \<longleftrightarrow> (\<exists>r\<in>insert q S. unat r + d = unat (recvHigh p))"
    if "d < 64" for d
    using tr nz that n by (auto simp: window_tracks_def bit_or_iff bit_exp_iff)
  show ?thesis
    using tr nz le bits by (auto simp: window_tracks_def p')
qed

lemma accept_tracks:
  assumes tr: "window_tracks p S" and ok: "acceptSequenceLocked q p = (True, p')"
  shows "q \<notin> S \<and> window_tracks p' (insert q S)"
proof
  have spec: "window_spec S (recvHigh p) q" using accept_iff [OF tr, of q] ok by simp
  then show "q \<notin> S" by (simp add: window_spec_def)
  from spec have nz: "q \<noteq> 0" by (simp add: window_spec_def)
  consider "recvHigh p = 0" | "recvHigh p \<noteq> 0" "recvHigh p < q" | "recvHigh p \<noteq> 0" "q \<le> recvHigh p"
    by fastforce
  then show "window_tracks p' (insert q S)"
  proof cases
    case 1
    then have "S = {}" using tr by (simp add: window_tracks_def)
    then show ?thesis using ok nz 1
      by (auto simp: acceptSequenceLocked_def window_tracks_def bit_1_iff)
  next
    case 2
    then show ?thesis using accept_high_tracks [OF tr] ok by (metis snd_conv)
  next
    case 3
    then show ?thesis using accept_low_tracks [OF tr _ nz _ ok] by simp
  qed
qed

lemma refuse_state: "acceptSequenceLocked q p = (False, p') \<Longrightarrow> p' = p"
  by (auto simp: acceptSequenceLocked_def Let_def split: if_splits)

interpretation replay: replay_filter acceptSequenceLocked window_tracks
  by unfold_locales (use accept_tracks refuse_state in blast)+

text \<open>The sequence of arriving numbers a peer accepts.\<close>

fun accepted :: "u64 list \<Rightarrow> mesh_peer \<Rightarrow> u64 list \<times> mesh_peer" where
  "accepted [] p = ([], p)"
| "accepted (q # qs) p =
     (let (ok, p') = acceptSequenceLocked q p; (rest, p'') = accepted qs p'
      in (if ok then q # rest else rest, p''))"

lemma accepted_run: "accepted qs p = replay.run qs p"
  by (induction qs arbitrary: p) (auto simp: Let_def split: prod.splits)

lemma fresh_window: "recvHigh p = 0 \<Longrightarrow> window_tracks p {}"
  by (simp add: window_tracks_def)

section \<open>Peer invariant\<close>

definition peer_ok :: "mesh_peer \<Rightarrow> bool" where
  "peer_ok p \<longleftrightarrow>
     length (peer_samples p) \<le> 20 \<and> length (localEpoch p) = 16 \<and> length (remoteEpoch p) = 16 \<and>
     codec_ok (peer_tx p) \<and> codec_ok (peer_rx p) \<and> (\<exists>S. window_tracks p S)"

lemma window_tracks_cong:
  "recvHigh p = recvHigh p' \<Longrightarrow> recvMask p = recvMask p' \<Longrightarrow> window_tracks p S = window_tracks p' S"
  by (simp add: window_tracks_def)

lemma acceptSequenceLocked_frame:
  "acceptSequenceLocked q p = (ok, p') \<Longrightarrow>
     p' = p\<lparr>recvHigh := recvHigh p', recvMask := recvMask p'\<rparr>"
  by (auto simp: acceptSequenceLocked_def Let_def split: if_splits)

lemma acceptSequenceLocked_same:
  assumes "acceptSequenceLocked q p = (ok, p')"
  shows "peer_config p' = peer_config p" "peer_addr p' = peer_addr p" "peer_samples p' = peer_samples p"
    "localEpoch p' = localEpoch p" "remoteEpoch p' = remoteEpoch p" "peer_tx p' = peer_tx p"
    "peer_rx p' = peer_rx p"
  by (subst acceptSequenceLocked_frame [OF assms], simp)+

lemma peer_ok_accept:
  assumes "peer_ok p" and "acceptSequenceLocked q p = (ok, p')"
  shows "peer_ok p'"
proof -
  obtain S where "window_tracks p S" using assms(1) by (auto simp: peer_ok_def)
  then have "\<exists>S. window_tracks p' S"
    using accept_tracks refuse_state assms(2) by (cases ok) (simp, blast)+
  then show ?thesis
    using assms(1) acceptSequenceLocked_same [OF assms(2)] by (simp add: peer_ok_def)
qed

lemma peer_ok_updates:
  "peer_ok p \<Longrightarrow> peer_ok (setAddress a now p)"
  "peer_ok p \<Longrightarrow> peer_ok (markAuth now p)"
  "peer_ok p \<Longrightarrow> peer_ok (recordProbe ok rtt now p)"
  "peer_ok p \<Longrightarrow> peer_ok (p\<lparr>peer_config := c\<rparr>)"
  "peer_ok p \<Longrightarrow> peer_ok (confirmRemoteEpoch e p)"
  "peer_ok p \<Longrightarrow> peer_ok (snd (nextSequence p))"
  by (auto simp: peer_ok_def peer_ops Let_def window_tracks_def split: option.splits)

lemma peer_ok_dataEnvelope: "peer_ok p \<Longrightarrow> peer_ok (snd (dataEnvelope payload p))"
  by (auto simp: peer_ok_def dataEnvelope_def nextSequence_def Let_def window_tracks_def)

lemma peer_ok_acceptDataEnvelope:
  assumes "peer_ok p"
  shows "peer_ok (snd (acceptDataEnvelope raw p))"
proof -
  obtain ok p' where a: "acceptSequenceLocked (word_of_nat (be_decode (take 8 (drop 32 raw)))) p = (ok, p')"
    by fastforce
  then show ?thesis
    using assms peer_ok_accept [OF assms a] by (auto simp: acceptDataEnvelope_def Let_def)
qed

section \<open>Sessions\<close>

text \<open>The envelope one side builds is what the other side unpacks, when each knows the other's epoch.\<close>

lemma envelope_fields:
  assumes "length le = 16" and "length re = 16"
  shows "take 16 (le @ re @ be_encode 8 n @ payload) = le"
    "take 16 (drop 16 (le @ re @ be_encode 8 n @ payload)) = re"
    "take 8 (drop 32 (le @ re @ be_encode 8 n @ payload)) = be_encode 8 n"
    "drop 40 (le @ re @ be_encode 8 n @ payload) = payload"
  using assms by simp_all

lemma word_of_be_decode: "word_of_nat (be_decode (be_encode 8 (unat q))) = (q :: u64)"
proof -
  have "unat q < 256 ^ 8" using unsigned_less [of q] by simp
  then show ?thesis by (simp add: be_decode_encode)
qed

lemma acceptDataEnvelope_dataEnvelope:
  assumes "dataEnvelope payload a = (Inr raw, a')" and "payload \<noteq> []"
    and "length (localEpoch a) = 16" and "length (remoteEpoch a) = 16"
    and "remoteEpoch b = localEpoch a" and "localEpoch b = remoteEpoch a" and "sessionReady b"
  shows "acceptDataEnvelope raw b =
    (let (ok, b') = acceptSequenceLocked (sendSeq a + 1) b in (if ok then Some payload else None, b'))"
proof -
  have raw: "raw = localEpoch a @ remoteEpoch a @ be_encode 8 (unat (sendSeq a + 1)) @ payload"
    using assms(1) by (auto simp: dataEnvelope_def nextSequence_def Let_def split: if_splits)
  have len: "40 < length raw" using assms(2-4) by (simp add: raw)
  show ?thesis
    using assms(5-7) len unfolding acceptDataEnvelope_def raw
      envelope_fields [OF assms(3,4)] word_of_be_decode
    by (auto simp: Let_def sessionReady_def split: prod.splits)
qed

lemma acceptDataEnvelope_bound:
  assumes "acceptDataEnvelope raw p = (Some payload, p')"
  shows "sessionReady p \<and> take 16 raw = remoteEpoch p \<and> take 16 (drop 16 raw) = localEpoch p \<and>
    payload = drop 40 raw \<and>
    acceptSequenceLocked (word_of_nat (be_decode (take 8 (drop 32 raw)))) p = (True, p')"
  using assms by (auto simp: acceptDataEnvelope_def sessionReady_def Let_def split: if_splits prod.splits)

lemma confirmRemoteEpoch_same: "confirmRemoteEpoch (remoteEpoch p) p = p"
  by (simp add: confirmRemoteEpoch_def)

end
