(* ===== verification/RoutedMesh.thy ===== *)
theory RoutedMesh
  imports RoutedSession
begin

text \<open>
  The routed mesh of \<^verbatim>\<open>internal/routed/mesh.go\<close>: the peers of a Node, the outstanding probes, sealing and
  sending, the receive loop (one call of \<open>receive\<close> per datagram) and the probe ticker (one call of
  \<open>probe_tick\<close> per tick). Name resolution, the cryptographic primitives and the outcome of a socket write are
  functions of the environment; what goes out and what is handed to the data handler are events.
  Pointers to peers are keys of the peer map: \<^verbatim>\<open>Reconcile\<close> changes a retained peer in place, which
  is visible even when it returns an error.
\<close>

section \<open>State and environment\<close>

record pending_probe =
  pend_peerID :: string
  pend_sent :: gotime
  pend_endpoint :: string

record mesh =
  mesh_localNodeID :: string
  mesh_peers :: "(string \<times> mesh_peer) list"
  mesh_pending :: "(string \<times> pending_probe) list"

record mesh_env =
  env_crypto :: crypto
  env_resolve :: "string \<Rightarrow> udp_addr option"
  env_write_ok :: "byte list \<Rightarrow> udp_addr \<Rightarrow> bool"

datatype mesh_event = Sent "byte list" udp_addr | Delivered string "byte list"

datatype mesh_error =
    MeshNoLocalID
  | MeshListenFailed
  | LinkInvalid config_error
  | PSKInvalid psk_error
  | CodecInvalid codec_error
  | EpochFailed
  | PeerNotConfigured string
  | NoLearnedEndpoint string
  | SessionFailed session_error
  | SealFailed codec_error
  | SendFailed string

text \<open>\<open>listen port\<close> says whether the socket could be opened on the port.\<close>

definition NewMesh :: "(int \<Rightarrow> bool) \<Rightarrow> string \<Rightarrow> int \<Rightarrow> mesh_error + mesh" where
  "NewMesh listen localNodeID listenPort =
     (if localNodeID = [] then Inl MeshNoLocalID
      else let listenPort = (if listenPort = 0 then DefaultMeshPort else listenPort)
           in if listen listenPort
              then Inr \<lparr>mesh_localNodeID = localNodeID, mesh_peers = [], mesh_pending = []\<rparr>
              else Inl MeshListenFailed)"

section \<open>Peers\<close>

definition fresh_peer :: "link_config \<Rightarrow> byte list \<Rightarrow> codec \<Rightarrow> codec \<Rightarrow> byte list \<Rightarrow> mesh_peer" where
  "fresh_peer config fp tx rx epoch =
     \<lparr>peer_config = config, peer_fingerprint = fp, peer_tx = tx, peer_rx = rx, peer_addr = None,
      addressSince = zero_time, lastAuth = zero_time, lastReply = zero_time, lastRTT = 0, peer_samples = [],
      sendSeq = 0, recvHigh = 0, recvMask = 0, localEpoch = epoch, remoteEpoch = zero_epoch\<rparr>"

definition makePeer ::
  "mesh_env \<Rightarrow> string \<Rightarrow> link_config \<Rightarrow> gotime \<Rightarrow> random \<Rightarrow> (mesh_error + mesh_peer) \<times> random" where
  "makePeer env localNodeID config now rnd =
     (case PSKBytes config of
        Inl e \<Rightarrow> (Inl (PSKInvalid e), rnd)
      | Inr psk \<Rightarrow>
          let greater = link_PeerNodeID config < localNodeID;
              txDirection = (if greater then ServerToClient else ClientToServer);
              rxDirection = (if greater then ClientToServer else ServerToClient)
          in case DeriveKey (env_crypto env) psk txDirection of
               Inl e \<Rightarrow> (Inl (CodecInvalid e), rnd)
             | Inr txKey \<Rightarrow>
          case DeriveKey (env_crypto env) psk rxDirection of
               Inl e \<Rightarrow> (Inl (CodecInvalid e), rnd)
             | Inr rxKey \<Rightarrow>
          case NewCodec txKey 0 31 of
               Inl e \<Rightarrow> (Inl (CodecInvalid e), rnd)
             | Inr tx \<Rightarrow>
          case NewCodec rxKey 0 31 of
               Inl e \<Rightarrow> (Inl (CodecInvalid e), rnd)
             | Inr rx \<Rightarrow>
          case ReadFull rnd 16 of
               None \<Rightarrow> (Inl EpochFailed, [])
             | Some (epoch, rnd) \<Rightarrow>
                 let peer = fresh_peer config (sha256_sum (env_crypto env) psk) tx rx epoch
                 in (Inr (if link_PeerEndpoint config \<noteq> []
                          then setAddress (env_resolve env (link_PeerEndpoint config)) now peer
                          else peer), rnd))"

text \<open>The loop of \<^verbatim>\<open>Reconcile\<close>. An entry of \<open>new_peers\<close> is \<^const>\<open>None\<close> for the pointer to the peer that
  is already there and a fresh peer otherwise.\<close>

fun reconcile_links ::
  "mesh_env \<Rightarrow> gotime \<Rightarrow> link_config list \<Rightarrow> random \<Rightarrow> mesh \<Rightarrow> (string \<times> mesh_peer option) list \<Rightarrow>
   mesh_error option \<times> random \<times> mesh \<times> (string \<times> mesh_peer option) list" where
  "reconcile_links env now [] rnd m new_peers = (None, rnd, m, new_peers)"
| "reconcile_links env now (config # links) rnd m new_peers =
     (case link_Validate config (mesh_localNodeID m) of
        Some e \<Rightarrow> (Some (LinkInvalid e), rnd, m, new_peers)
      | None \<Rightarrow>
          case makePeer env (mesh_localNodeID m) config now rnd of
            (Inl e, rnd) \<Rightarrow> (Some e, rnd, m, new_peers)
          | (Inr candidate, rnd) \<Rightarrow>
              let peerID = link_PeerNodeID config;
                  fresh = reconcile_links env now links rnd m (AList.update peerID (Some candidate) new_peers)
              in case map_of (mesh_peers m) peerID of
                   None \<Rightarrow> fresh
                 | Some previous \<Rightarrow>
                     if link_ID (peer_config previous) = link_ID config \<and>
                        peer_fingerprint previous = peer_fingerprint candidate
                     then let previous = setAddress (peer_addr candidate) now (previous\<lparr>peer_config := config\<rparr>)
                          in reconcile_links env now links rnd
                               (m\<lparr>mesh_peers := AList.update peerID previous (mesh_peers m)\<rparr>)
                               (AList.update peerID None new_peers)
                     else fresh)"

definition Reconcile ::
  "mesh_env \<Rightarrow> link_config list \<Rightarrow> gotime \<Rightarrow> random \<Rightarrow> mesh \<Rightarrow> mesh_error option \<times> random \<times> mesh" where
  "Reconcile env links now rnd m =
     (case reconcile_links env now links rnd m [] of
        (Some e, rnd, m, _) \<Rightarrow> (Some e, rnd, m)
      | (None, rnd, m, new_peers) \<Rightarrow>
          (None, rnd,
           m\<lparr>mesh_peers := map (\<lambda>(k, c). (k, case c of Some p \<Rightarrow> p | None \<Rightarrow> the (map_of (mesh_peers m) k)))
                           new_peers\<rparr>))"

definition peerSnapshot :: "mesh \<Rightarrow> (string \<times> mesh_peer) list" where
  "peerSnapshot m = sort_slice (less_by (\<lambda>kp. link_PeerNodeID (peer_config (snd kp)))) (mesh_peers m)"

definition update_peer :: "string \<Rightarrow> (mesh_peer \<Rightarrow> mesh_peer) \<Rightarrow> mesh \<Rightarrow> mesh" where
  "update_peer k f m =
     (case map_of (mesh_peers m) k of
        None \<Rightarrow> m
      | Some p \<Rightarrow> m\<lparr>mesh_peers := AList.update k (f p) (mesh_peers m)\<rparr>)"

section \<open>Sending\<close>

definition mesh_Send ::
  "mesh_env \<Rightarrow> string \<Rightarrow> byte list \<Rightarrow> random \<Rightarrow> mesh \<Rightarrow>
   mesh_error option \<times> random \<times> mesh \<times> mesh_event list" where
  "mesh_Send env peerID payload rnd m =
     (case map_of (mesh_peers m) peerID of
        None \<Rightarrow> (Some (PeerNotConfigured peerID), rnd, m, [])
      | Some peer \<Rightarrow>
      case peer_addr peer of
        None \<Rightarrow> (Some (NoLearnedEndpoint peerID), rnd, m, [])
      | Some addr \<Rightarrow>
      case dataEnvelope payload peer of
        (Inl e, peer) \<Rightarrow> (Some (SessionFailed e), rnd, update_peer peerID (\<lambda>_. peer) m, [])
      | (Inr plaintext, peer) \<Rightarrow>
      case Seal (env_crypto env) (peer_tx peer) rnd plaintext of
        (Inl e, rnd) \<Rightarrow> (Some (SealFailed e), rnd, update_peer peerID (\<lambda>_. peer) m, [])
      | (Inr packet, rnd) \<Rightarrow>
          if env_write_ok env packet addr
          then (None, rnd, update_peer peerID (\<lambda>_. peer) m, [Sent packet addr])
          else (Some (SendFailed peerID), rnd, update_peer peerID (\<lambda>_. peer) m, []))"

definition CanSend :: "mesh \<Rightarrow> string \<Rightarrow> gotime \<Rightarrow> bool" where
  "CanSend m peerID now \<longleftrightarrow>
     (case map_of (mesh_peers m) peerID of
        None \<Rightarrow> False
      | Some peer \<Rightarrow>
          peer_addr peer \<noteq> None \<and> sessionReady peer \<and>
          ls_Health (peer_status (mesh_localNodeID m) now peer) \<noteq> ''failed'')"

definition mesh_Status :: "mesh \<Rightarrow> gotime \<Rightarrow> link_status list" where
  "mesh_Status m now = map (\<lambda>(_, p). peer_status (mesh_localNodeID m) now p) (peerSnapshot m)"

definition mesh_LinkStatus :: "mesh \<Rightarrow> string \<Rightarrow> gotime \<Rightarrow> link_status option" where
  "mesh_LinkStatus m peerID now =
     map_option (peer_status (mesh_localNodeID m) now) (map_of (mesh_peers m) peerID)"

section \<open>Probes\<close>

definition sameUDPAddress :: "udp_addr option \<Rightarrow> udp_addr option \<Rightarrow> bool" where
  "sameUDPAddress a b =
     (case (a, b) of (Some a, Some b) \<Rightarrow> udp_String a = udp_String b | _ \<Rightarrow> False)"

definition sendProbeTo ::
  "mesh_env \<Rightarrow> string \<Rightarrow> udp_addr option \<Rightarrow> gotime \<Rightarrow> random \<Rightarrow> mesh \<Rightarrow> random \<times> mesh \<times> mesh_event list" where
  "sendProbeTo env k addr now rnd m =
     (case (addr, map_of (mesh_peers m) k) of
        (Some addr, Some peer) \<Rightarrow>
          let peerID = link_PeerNodeID (peer_config peer)
          in (case ReadFull rnd 16 of
                None \<Rightarrow> ([], m, [])
              | Some (r, rnd) \<Rightarrow>
                  let tokenRaw = localEpoch peer @ r
                  in case SealProbe (env_crypto env) (peer_tx peer) rnd tokenRaw of
                       (Inl _, rnd) \<Rightarrow> (rnd, m, [])
                     | (Inr packet, rnd) \<Rightarrow>
                         let token = hex_encode tokenRaw
                         in if list_ex (\<lambda>(_, q). pend_peerID q = peerID) (mesh_pending m) then (rnd, m, [])
                            else let m = m\<lparr>mesh_pending := AList.update token
                                         \<lparr>pend_peerID = peerID, pend_sent = now, pend_endpoint = udp_String addr\<rparr>
                                         (mesh_pending m)\<rparr>
                                 in if env_write_ok env packet addr then (rnd, m, [Sent packet addr])
                                    else (rnd, update_peer k (recordProbe False 0 now)
                                           (m\<lparr>mesh_pending := AList.delete token (mesh_pending m)\<rparr>), []))
      | _ \<Rightarrow> (rnd, m, []))"

definition expireProbes :: "gotime \<Rightarrow> mesh \<Rightarrow> mesh" where
  "expireProbes now m =
     (let due = (\<lambda>(_, q). probeTimeout \<le> time_sub now (pend_sent q));
          expired = map snd (filter due (mesh_pending m));
          m = m\<lparr>mesh_pending := filter (Not \<circ> due) (mesh_pending m)\<rparr>
      in fold (\<lambda>q. update_peer (pend_peerID q) (recordProbe False 0 now)) expired m)"

fun send_probes ::
  "mesh_env \<Rightarrow> gotime \<Rightarrow> string list \<Rightarrow> random \<Rightarrow> mesh \<Rightarrow> random \<times> mesh \<times> mesh_event list" where
  "send_probes env now [] rnd m = (rnd, m, [])"
| "send_probes env now (k # ks) rnd m =
     (let addr = Option.bind (map_of (mesh_peers m) k) peer_addr;
          (rnd, m, evs) = sendProbeTo env k addr now rnd m;
          (rnd, m, evs') = send_probes env now ks rnd m
      in (rnd, m, evs @ evs'))"

definition probe_tick :: "mesh_env \<Rightarrow> gotime \<Rightarrow> random \<Rightarrow> mesh \<Rightarrow> random \<times> mesh \<times> mesh_event list" where
  "probe_tick env now rnd m =
     (let m = expireProbes now m in send_probes env now (map fst (peerSnapshot m)) rnd m)"

section \<open>Receiving\<close>

fun match_peer :: "crypto \<Rightarrow> byte list \<Rightarrow> (string \<times> mesh_peer) list \<Rightarrow> (string \<times> mesh_peer \<times> byte \<times> byte list) option" where
  "match_peer cr packet [] = None"
| "match_peer cr packet ((k, p) # ps) =
     (case OpenTyped cr (peer_rx p) packet of
        Inl _ \<Rightarrow> match_peer cr packet ps
      | Inr (kind, plaintext) \<Rightarrow> Some (k, p, kind, plaintext))"

definition on_probe ::
  "mesh_env \<Rightarrow> string \<Rightarrow> mesh_peer \<Rightarrow> byte list \<Rightarrow> udp_addr \<Rightarrow> gotime \<Rightarrow> random \<Rightarrow> mesh \<Rightarrow>
   random \<times> mesh \<times> mesh_event list" where
  "on_probe env k matched plaintext addr now rnd m =
     (if length plaintext \<noteq> 32 then (rnd, m, [])
      else case SealProbeReply (env_crypto env) (peer_tx matched) rnd (plaintext @ localEpoch matched) of
             (Inl _, rnd) \<Rightarrow> (rnd, m, [])
           | (Inr reply, rnd) \<Rightarrow>
               let sent = (if env_write_ok env reply addr then [Sent reply addr] else [])
               in if \<not> matchesRemoteEpoch (take 16 plaintext) matched \<or>
                     \<not> sameUDPAddress (peer_addr matched) (Some addr)
                  then let (rnd, m, evs) = sendProbeTo env k (Some addr) now rnd m in (rnd, m, sent @ evs)
                  else (rnd, m, sent))"

definition on_probe_reply :: "string \<Rightarrow> mesh_peer \<Rightarrow> byte list \<Rightarrow> udp_addr \<Rightarrow> gotime \<Rightarrow> mesh \<Rightarrow> mesh" where
  "on_probe_reply k matched plaintext addr now m =
     (if length plaintext \<noteq> 48 then m
      else let token = hex_encode (take 32 plaintext)
           in case map_of (mesh_pending m) token of
                None \<Rightarrow> m
              | Some pending \<Rightarrow>
                  if pend_peerID pending = link_PeerNodeID (peer_config matched) \<and>
                     pend_endpoint pending = udp_String addr
                  then update_peer k
                         (recordProbe True (time_sub now (pend_sent pending)) now
                          \<circ> setAddress (Some addr) now \<circ> confirmRemoteEpoch (drop 32 plaintext))
                         (m\<lparr>mesh_pending := AList.delete token (mesh_pending m)\<rparr>)
                  else m)"

definition on_data ::
  "string \<Rightarrow> mesh_peer \<Rightarrow> byte list \<Rightarrow> udp_addr \<Rightarrow> gotime \<Rightarrow> mesh \<Rightarrow> mesh \<times> mesh_event list" where
  "on_data k matched plaintext addr now m =
     (case acceptDataEnvelope plaintext matched of
        (None, p) \<Rightarrow> (update_peer k (\<lambda>_. p) m, [])
      | (Some payload, p) \<Rightarrow>
          (update_peer k (\<lambda>_. markAuth now (setAddress (Some addr) now p)) m,
           [Delivered (link_PeerNodeID (peer_config matched)) payload]))"

definition receive ::
  "mesh_env \<Rightarrow> byte list \<Rightarrow> udp_addr \<Rightarrow> gotime \<Rightarrow> random \<Rightarrow> mesh \<Rightarrow> random \<times> mesh \<times> mesh_event list" where
  "receive env packet addr now rnd m =
     (case match_peer (env_crypto env) packet (peerSnapshot m) of
        None \<Rightarrow> (rnd, m, [])
      | Some (k, matched, packetType, plaintext) \<Rightarrow>
          if IsProbe packetType then on_probe env k matched plaintext addr now rnd m
          else if IsProbeReply packetType then (rnd, on_probe_reply k matched plaintext addr now m, [])
          else if IsData packetType then
            (let (m, evs) = on_data k matched plaintext addr now m in (rnd, m, evs))
          else (rnd, m, []))"

section \<open>The mesh as a transition system\<close>

inductive mesh_step :: "mesh_env \<Rightarrow> mesh \<Rightarrow> mesh \<Rightarrow> bool" for env where
  step_reconcile: "Reconcile env links now rnd m = (e, rnd', m') \<Longrightarrow> mesh_step env m m'"
| step_send: "mesh_Send env peerID payload rnd m = (e, rnd', m', evs) \<Longrightarrow> mesh_step env m m'"
| step_receive: "receive env packet addr now rnd m = (rnd', m', evs) \<Longrightarrow> mesh_step env m m'"
| step_tick: "probe_tick env now rnd m = (rnd', m', evs) \<Longrightarrow> mesh_step env m m'"

inductive mesh_reachable :: "mesh_env \<Rightarrow> mesh \<Rightarrow> bool" for env where
  reach_new: "NewMesh listen nodeID port = Inr m \<Longrightarrow> mesh_reachable env m"
| reach_step: "mesh_reachable env m \<Longrightarrow> mesh_step env m m' \<Longrightarrow> mesh_reachable env m'"

section \<open>Invariant\<close>

text \<open>Peers are stored under the identifier of their configuration and are well formed; a peer has at
  most one outstanding challenge.\<close>

definition peer_at :: "string \<Rightarrow> mesh_peer \<Rightarrow> bool" where
  "peer_at k p \<longleftrightarrow> link_PeerNodeID (peer_config p) = k \<and> peer_ok p"

definition pending_ok :: "(string \<times> pending_probe) list \<Rightarrow> bool" where
  "pending_ok q \<longleftrightarrow> keys_distinct q \<and> distinct (map (pend_peerID \<circ> snd) q)"

definition mesh_ok :: "mesh \<Rightarrow> bool" where
  "mesh_ok m \<longleftrightarrow>
     keys_distinct (mesh_peers m) \<and> (\<forall>k p. map_of (mesh_peers m) k = Some p \<longrightarrow> peer_at k p) \<and>
     pending_ok (mesh_pending m)"

lemma map_of_update_peer:
  "map_of (mesh_peers (update_peer k f m)) j =
     (if j = k then map_option f (map_of (mesh_peers m) k) else map_of (mesh_peers m) j)"
  by (auto simp: update_peer_def split: option.splits)

lemma update_peer_simps [simp]:
  "mesh_pending (update_peer k f m) = mesh_pending m"
  "mesh_localNodeID (update_peer k f m) = mesh_localNodeID m"
  by (simp_all add: update_peer_def split: option.splits)

lemma mesh_ok_update_peer:
  assumes "mesh_ok m" and "\<And>p. map_of (mesh_peers m) k = Some p \<Longrightarrow> peer_at k p \<Longrightarrow> peer_at k (f p)"
  shows "mesh_ok (update_peer k f m)"
  using assms unfolding mesh_ok_def map_of_update_peer
  by (auto simp: update_peer_def split: option.splits)

lemma peer_config_updates [simp]:
  "peer_config (setAddress a now p) = peer_config p"
  "peer_config (markAuth now p) = peer_config p"
  "peer_config (recordProbe ok rtt now p) = peer_config p"
  "peer_config (confirmRemoteEpoch e p) = peer_config p"
  by (auto simp: peer_ops Let_def split: option.splits)

lemma peer_at_updates:
  "peer_at k p \<Longrightarrow> peer_at k (setAddress a now p)"
  "peer_at k p \<Longrightarrow> peer_at k (markAuth now p)"
  "peer_at k p \<Longrightarrow> peer_at k (recordProbe ok rtt now p)"
  "peer_at k p \<Longrightarrow> peer_at k (confirmRemoteEpoch e p)"
  by (simp_all add: peer_at_def peer_ok_updates)

lemma pending_ok_updates:
  "pending_ok q \<Longrightarrow> pending_ok (AList.delete t q)"
  "pending_ok q \<Longrightarrow> pending_ok (filter P q)"
  by (auto simp: pending_ok_def AList.delete_eq distinct_map_filter)

lemma pending_ok_insert:
  assumes "pending_ok q" and "\<forall>x\<in>set q. pend_peerID (snd x) \<noteq> pend_peerID v"
  shows "pending_ok (AList.update t v q)"
proof -
  have "distinct (map (pend_peerID \<circ> snd) (AList.update t v q))"
    using assms unfolding pending_ok_def
  proof (induction q)
    case (Cons x q)
    obtain k w where x: "x = (k, w)" by fastforce
    have "pend_peerID w \<notin> (pend_peerID \<circ> snd) ` set (AList.update t v q)"
    proof
      assume "pend_peerID w \<in> (pend_peerID \<circ> snd) ` set (AList.update t v q)"
      then obtain y where "y \<in> set (AList.update t v q)" "pend_peerID w = pend_peerID (snd y)"
        by auto
      moreover from this(1) have "y \<in> insert (t, v) (set q)"
        using set_update_subset by (rule set_mp [rotated])
      ultimately have "\<exists>y\<in>insert (t, v) (set q). pend_peerID w = pend_peerID (snd y)" by blast
      with Cons.prems x show False by force
    qed
    with Cons x show ?case by (auto simp: keys_distinct_def)
  qed simp
  with assms show ?thesis by (simp add: pending_ok_def)
qed

section \<open>How an operation changes a peer\<close>

text \<open>\<open>keeps\<close>: the keys, both epochs and the replay window stay. \<open>evolves\<close>: the keys and the local epoch
  stay and, when the remote epoch does too, nothing accepted is forgotten.\<close>

definition keeps :: "mesh_peer \<Rightarrow> mesh_peer \<Rightarrow> bool" where
  "keeps p p' \<longleftrightarrow>
     peer_rx p' = peer_rx p \<and> peer_tx p' = peer_tx p \<and> localEpoch p' = localEpoch p \<and>
     remoteEpoch p' = remoteEpoch p \<and> recvHigh p' = recvHigh p \<and> recvMask p' = recvMask p"

definition evolves :: "mesh_peer \<Rightarrow> mesh_peer \<Rightarrow> bool" where
  "evolves p p' \<longleftrightarrow>
     peer_rx p' = peer_rx p \<and> localEpoch p' = localEpoch p \<and>
     (remoteEpoch p' = remoteEpoch p \<longrightarrow>
       (\<forall>S. window_tracks p S \<longrightarrow> (\<exists>S'. S \<subseteq> S' \<and> window_tracks p' S')))"

lemma keeps_refl [simp]: "keeps p p"
  by (simp add: keeps_def)

lemma keeps_trans: "keeps p q \<Longrightarrow> keeps q r \<Longrightarrow> keeps p r"
  by (simp add: keeps_def)

lemma keeps_evolves: "keeps p q \<Longrightarrow> evolves p q"
  by (auto simp: keeps_def evolves_def window_tracks_cong [of q p])

lemma evolves_keeps: "evolves p q \<Longrightarrow> keeps q r \<Longrightarrow> evolves p r"
  by (auto simp: keeps_def evolves_def window_tracks_cong [of r q])

lemma keeps_updates [simp]:
  "keeps p (setAddress a now p)" "keeps p (markAuth now p)" "keeps p (recordProbe ok rtt now p)"
  "keeps p (p\<lparr>peer_config := c\<rparr>)"
  by (auto simp: keeps_def peer_ops Let_def split: option.splits)

lemma keeps_dataEnvelope: "dataEnvelope payload p = (r, p') \<Longrightarrow> keeps p p' \<and> peer_config p' = peer_config p"
  by (auto simp: keeps_def dataEnvelope_def nextSequence_def Let_def split: if_splits)

lemma evolves_confirm: "evolves p (confirmRemoteEpoch e p)"
  by (auto simp: evolves_def confirmRemoteEpoch_def)

lemma acceptDataEnvelope_window:
  assumes "acceptDataEnvelope raw p = (r, p')"
  shows "p' = p \<or> (\<exists>q ok. acceptSequenceLocked q p = (ok, p'))"
proof -
  obtain ok p1 where "acceptSequenceLocked (word_of_nat (be_decode (take 8 (drop 32 raw)))) p = (ok, p1)"
    by fastforce
  with assms show ?thesis by (cases ok) (auto simp: acceptDataEnvelope_def Let_def split: if_splits)
qed

lemma acceptDataEnvelope_config: "acceptDataEnvelope raw p = (r, p') \<Longrightarrow> peer_config p' = peer_config p"
  by (drule acceptDataEnvelope_window) (auto dest: acceptSequenceLocked_same)

lemma evolves_accept:
  assumes "acceptSequenceLocked q p = (ok, p')"
  shows "evolves p p'"
proof -
  have "\<exists>S'. S \<subseteq> S' \<and> window_tracks p' S'" if "window_tracks p S" for S
  proof (cases ok)
    case True
    then have "window_tracks p' (insert q S)" using accept_tracks [OF that, of q p'] assms by simp
    then show ?thesis by blast
  next
    case False
    then have "p' = p" using refuse_state [of q p p'] assms by simp
    with that show ?thesis by auto
  qed
  then show ?thesis using acceptSequenceLocked_same [OF assms] by (auto simp: evolves_def)
qed

lemma evolves_acceptDataEnvelope: "acceptDataEnvelope raw p = (r, p') \<Longrightarrow> evolves p p'"
  by (drule acceptDataEnvelope_window) (auto intro: keeps_evolves evolves_accept)

definition peers_keep :: "mesh \<Rightarrow> mesh \<Rightarrow> bool" where
  "peers_keep m m' \<longleftrightarrow>
     (\<forall>k. rel_option keeps (map_of (mesh_peers m) k) (map_of (mesh_peers m') k))"

definition peers_evolve :: "mesh \<Rightarrow> mesh \<Rightarrow> bool" where
  "peers_evolve m m' \<longleftrightarrow>
     (\<forall>k p'. map_of (mesh_peers m') k = Some p' \<longrightarrow>
        remoteEpoch p' = zero_epoch \<or> (\<exists>p. map_of (mesh_peers m) k = Some p \<and> evolves p p'))"

lemma peers_keep_refl [simp]: "peers_keep m m"
  by (simp add: peers_keep_def option.rel_refl)

lemma peers_keep_eq: "mesh_peers m' = mesh_peers m \<Longrightarrow> peers_keep m m'"
  by (simp add: peers_keep_def option.rel_refl)

lemma peers_keep_trans: "peers_keep m m' \<Longrightarrow> peers_keep m' m'' \<Longrightarrow> peers_keep m m''"
proof -
  have "rel_option keeps x y \<Longrightarrow> rel_option keeps y z \<Longrightarrow> rel_option keeps x z" for x y z
    by (cases x; cases y; cases z) (auto intro: keeps_trans)
  then show "peers_keep m m' \<Longrightarrow> peers_keep m' m'' \<Longrightarrow> peers_keep m m''"
    unfolding peers_keep_def by blast
qed

lemma peers_keep_evolve: "peers_keep m m' \<Longrightarrow> peers_evolve m m'"
  unfolding peers_keep_def peers_evolve_def
  by (metis keeps_evolves option.rel_cases option.discI option.inject)

lemma peers_keep_update:
  assumes "\<And>p. map_of (mesh_peers m) k = Some p \<Longrightarrow> keeps p (f p)"
  shows "peers_keep m (update_peer k f m)"
  using assms by (auto simp: peers_keep_def map_of_update_peer option.rel_map intro!: rel_option_reflI)

lemma peers_evolve_update:
  assumes "\<And>p. map_of (mesh_peers m) k = Some p \<Longrightarrow> evolves p (f p)"
  shows "peers_evolve m (update_peer k f m)"
  using assms unfolding peers_evolve_def map_of_update_peer
  by (auto intro: keeps_evolves)

section \<open>Probes keep the session state\<close>

text \<open>A probe request or the ticker can change the pending challenges and the loss statistics only.\<close>

definition only_samples :: "mesh_peer \<Rightarrow> mesh_peer \<Rightarrow> bool" where
  "only_samples p p' \<longleftrightarrow> (\<exists>ss. p' = p\<lparr>peer_samples := ss\<rparr>)"

definition peers_sampled :: "mesh \<Rightarrow> mesh \<Rightarrow> bool" where
  "peers_sampled m m' \<longleftrightarrow>
     (\<forall>k. rel_option only_samples (map_of (mesh_peers m) k) (map_of (mesh_peers m') k))"

lemma only_samples_refl [simp]: "only_samples p p"
  unfolding only_samples_def by (rule exI [of _ "peer_samples p"]) simp

lemma only_samples_trans: "only_samples p q \<Longrightarrow> only_samples q r \<Longrightarrow> only_samples p r"
  by (auto simp: only_samples_def)

lemma only_samples_recordProbe [simp]: "only_samples p (recordProbe False rtt now p)"
  by (auto simp: only_samples_def recordProbe_def Let_def)

lemma peers_sampled_refl [simp]: "peers_sampled m m"
  by (simp add: peers_sampled_def option.rel_refl)

lemma peers_sampled_trans: "peers_sampled m m' \<Longrightarrow> peers_sampled m' m'' \<Longrightarrow> peers_sampled m m''"
proof -
  have "rel_option only_samples x y \<Longrightarrow> rel_option only_samples y z \<Longrightarrow> rel_option only_samples x z" for x y z
    by (cases x; cases y; cases z) (auto intro: only_samples_trans)
  then show "peers_sampled m m' \<Longrightarrow> peers_sampled m' m'' \<Longrightarrow> peers_sampled m m''"
    unfolding peers_sampled_def by blast
qed

lemma peers_sampled_eq: "mesh_peers m' = mesh_peers m \<Longrightarrow> peers_sampled m m'"
  by (simp add: peers_sampled_def option.rel_refl)

lemma peers_sampled_update: "peers_sampled m (update_peer k (recordProbe False rtt now) m)"
  by (auto simp: peers_sampled_def map_of_update_peer option.rel_map intro!: rel_option_reflI)

lemma peers_sampled_keep: "peers_sampled m m' \<Longrightarrow> peers_keep m m'"
proof -
  have "only_samples p p' \<Longrightarrow> keeps p p'" for p p'
    by (auto simp: only_samples_def keeps_def)
  then show "peers_sampled m m' \<Longrightarrow> peers_keep m m'"
    unfolding peers_sampled_def peers_keep_def by (meson option.rel_mono_strong)
qed

lemma sendProbeTo_cases:
  assumes "sendProbeTo env k addr now rnd m = (rnd', m', evs)"
  shows "m' = m \<or>
    (\<exists>peer a token q. addr = Some a \<and> map_of (mesh_peers m) k = Some peer \<and>
       pend_peerID q = link_PeerNodeID (peer_config peer) \<and> pend_endpoint q = udp_String a \<and>
       (\<forall>x\<in>set (mesh_pending m). pend_peerID (snd x) \<noteq> pend_peerID q) \<and>
       (m' = m\<lparr>mesh_pending := AList.update token q (mesh_pending m)\<rparr> \<or>
        m' = update_peer k (recordProbe False 0 now)
          (m\<lparr>mesh_pending := AList.delete token (AList.update token q (mesh_pending m))\<rparr>)))"
proof (cases "m' = m")
  case False
  then obtain a peer r rnd1 packet rnd2 where addr: "addr = Some a" and peer: "map_of (mesh_peers m) k = Some peer"
    and r: "ReadFull rnd 16 = Some (r, rnd1)"
    and pk: "SealProbe (env_crypto env) (peer_tx peer) rnd1 (localEpoch peer @ r) = (Inr packet, rnd2)"
    using assms by (auto simp: sendProbeTo_def Let_def split: option.splits prod.splits sum.splits)
  define token where "token = hex_encode (localEpoch peer @ r)"
  define q where "q = \<lparr>pend_peerID = link_PeerNodeID (peer_config peer), pend_sent = now,
    pend_endpoint = udp_String a\<rparr>"
  have none: "\<forall>x\<in>set (mesh_pending m). pend_peerID (snd x) \<noteq> pend_peerID q"
    using False assms
    by (auto simp: sendProbeTo_def addr peer r pk Let_def list_ex_iff q_def split: if_splits)
  then have "\<not> list_ex (\<lambda>(_, q). pend_peerID q = link_PeerNodeID (peer_config peer)) (mesh_pending m)"
    by (auto simp: list_ex_iff q_def)
  then have "m' = m\<lparr>mesh_pending := AList.update token q (mesh_pending m)\<rparr> \<or>
        m' = update_peer k (recordProbe False 0 now)
          (m\<lparr>mesh_pending := AList.delete token (AList.update token q (mesh_pending m))\<rparr>)"
    using assms by (auto simp: sendProbeTo_def addr peer r pk Let_def token_def q_def split: if_splits)
  moreover have "pend_peerID q = link_PeerNodeID (peer_config peer)" "pend_endpoint q = udp_String a"
    by (simp_all add: q_def)
  ultimately show ?thesis using addr peer none by blast
qed simp

lemma peer_at_recordProbe: "peer_at k p \<Longrightarrow> peer_at k (recordProbe ok rtt now p)"
  by (rule peer_at_updates)

lemma mesh_ok_pending: "mesh_ok m \<Longrightarrow> pending_ok q \<Longrightarrow> mesh_ok (m\<lparr>mesh_pending := q\<rparr>)"
  by (simp add: mesh_ok_def)

lemma sendProbeTo_ok:
  assumes "mesh_ok m" and "sendProbeTo env k addr now rnd m = (rnd', m', evs)"
  shows "mesh_ok m' \<and> peers_sampled m m'"
  using sendProbeTo_cases [OF assms(2)]
proof (elim disjE exE conjE, goal_cases)
  case 1
  then show ?case using assms(1) by simp
next
  case (2 peer a token q)
  have "pending_ok (AList.update token q (mesh_pending m))"
    using assms(1) 2 by (intro pending_ok_insert) (auto simp: mesh_ok_def)
  then show ?case using 2 assms(1) by (simp add: mesh_ok_pending peers_sampled_eq)
next
  case (3 peer a token q)
  define m1 where "m1 = m\<lparr>mesh_pending := AList.delete token (AList.update token q (mesh_pending m))\<rparr>"
  have "pending_ok (AList.update token q (mesh_pending m))"
    using assms(1) 3 by (intro pending_ok_insert) (auto simp: mesh_ok_def)
  then have "mesh_ok m1" using assms(1) by (simp add: m1_def mesh_ok_pending pending_ok_updates)
  then have "mesh_ok m'" using 3 by (auto simp: m1_def intro: mesh_ok_update_peer peer_at_recordProbe)
  moreover have "peers_sampled m m1" by (simp add: m1_def peers_sampled_eq)
  ultimately show ?case using 3 peers_sampled_update peers_sampled_trans unfolding m1_def by blast
qed

lemma send_probes_ok:
  "mesh_ok m \<Longrightarrow> send_probes env now ks rnd m = (rnd', m', evs) \<Longrightarrow> mesh_ok m' \<and> peers_sampled m m'"
proof (induction ks arbitrary: rnd m evs)
  case (Cons k ks)
  obtain rnd1 m1 e1 where s: "sendProbeTo env k (Option.bind (map_of (mesh_peers m) k) peer_addr) now rnd m
      = (rnd1, m1, e1)" by (metis prod_cases3)
  obtain e2 where r: "send_probes env now ks rnd1 m1 = (rnd', m', e2)"
    using Cons.prems(2) by (auto simp: s Let_def split: prod.splits)
  show ?case
    using sendProbeTo_ok [OF Cons.prems(1) s] Cons.IH [OF _ r] peers_sampled_trans by blast
qed simp

lemma expireProbes_ok:
  assumes "mesh_ok m"
  shows "mesh_ok (expireProbes now m) \<and> peers_sampled m (expireProbes now m)"
proof -
  have *: "mesh_ok n \<Longrightarrow>
      mesh_ok (fold (\<lambda>q. update_peer (pend_peerID q) (recordProbe False 0 now)) qs n) \<and>
      peers_sampled n (fold (\<lambda>q. update_peer (pend_peerID q) (recordProbe False 0 now)) qs n)" for qs n
  proof (induction qs arbitrary: n)
    case (Cons q qs)
    let ?n = "update_peer (pend_peerID q) (recordProbe False 0 now) n"
    have "mesh_ok ?n" using Cons.prems by (auto intro: mesh_ok_update_peer peer_at_recordProbe)
    then show ?case
      using Cons.IH [of ?n] peers_sampled_trans [OF peers_sampled_update] unfolding fold.simps comp_apply by blast
  qed simp
  define due where "due = (\<lambda>(_ :: string, q :: pending_probe). probeTimeout \<le> time_sub now (pend_sent q))"
  define n where "n = m\<lparr>mesh_pending := filter (Not \<circ> due) (mesh_pending m)\<rparr>"
  have "mesh_ok n" "peers_sampled m n"
    using assms by (auto simp: n_def mesh_ok_def pending_ok_updates peers_sampled_eq)
  with * [of n] show ?thesis
    unfolding expireProbes_def Let_def due_def [symmetric] n_def [symmetric]
    using peers_sampled_trans by blast
qed

lemma probe_tick_ok:
  "mesh_ok m \<Longrightarrow> probe_tick env now rnd m = (rnd', m', evs) \<Longrightarrow> mesh_ok m' \<and> peers_sampled m m'"
  using send_probes_ok [of "expireProbes now m"] expireProbes_ok [of m now] peers_sampled_trans
  unfolding probe_tick_def Let_def by blast

lemma on_probe_ok:
  assumes "mesh_ok m" and "on_probe env k matched plaintext addr now rnd m = (rnd', m', evs)"
  shows "mesh_ok m' \<and> peers_sampled m m'"
proof -
  consider "m' = m" | rnd1 evs1 where "sendProbeTo env k (Some addr) now rnd1 m = (rnd', m', evs1)"
    using assms(2) by (auto simp: on_probe_def Let_def split: if_splits prod.splits sum.splits)
  then show ?thesis using assms(1) sendProbeTo_ok by cases auto
qed

section \<open>Receiving, sending and reconciling\<close>

lemma match_peer_Some:
  "match_peer cr packet ps = Some (k, p, kind, plain) \<Longrightarrow>
     (k, p) \<in> set ps \<and> OpenTyped cr (peer_rx p) packet = Inr (kind, plain)"
  by (induction cr packet ps rule: match_peer.induct) (auto split: sum.splits)

lemma matched_peer:
  assumes "mesh_ok m" and "match_peer cr packet (peerSnapshot m) = Some (k, p, kind, plain)"
  shows "map_of (mesh_peers m) k = Some p \<and> peer_at k p \<and> OpenTyped cr (peer_rx p) packet = Inr (kind, plain)"
proof -
  have "(k, p) \<in> set (mesh_peers m)"
    using match_peer_Some [OF assms(2)] by (simp add: peerSnapshot_def)
  then have "map_of (mesh_peers m) k = Some p"
    using assms(1) by (simp add: mesh_ok_def keys_distinct_def)
  with assms match_peer_Some [OF assms(2)] show ?thesis by (auto simp: mesh_ok_def)
qed

lemma on_probe_reply_ok:
  assumes "mesh_ok m" and "map_of (mesh_peers m) k = Some p"
  shows "mesh_ok (on_probe_reply k p plaintext addr now m) \<and>
    peers_evolve m (on_probe_reply k p plaintext addr now m)"
proof -
  define f where "f q = recordProbe True (time_sub now (pend_sent q)) now \<circ> setAddress (Some addr) now
    \<circ> confirmRemoteEpoch (drop 32 plaintext)" for q :: pending_probe
  have at: "peer_at k p \<Longrightarrow> peer_at k (f q p)" for q p
    by (simp add: f_def peer_at_updates)
  have ev: "evolves p (f q p)" for q p
    unfolding f_def comp_def by (meson evolves_confirm evolves_keeps keeps_updates)
  have "on_probe_reply k p plaintext addr now m = m \<or> (\<exists>token q. on_probe_reply k p plaintext addr now m =
        update_peer k (f q) (m\<lparr>mesh_pending := AList.delete token (mesh_pending m)\<rparr>))"
    unfolding on_probe_reply_def f_def Let_def by (auto split: option.split)
  then consider "on_probe_reply k p plaintext addr now m = m"
    | token q where "on_probe_reply k p plaintext addr now m =
        update_peer k (f q) (m\<lparr>mesh_pending := AList.delete token (mesh_pending m)\<rparr>)" by blast
  then show ?thesis
  proof cases
    case 1
    then show ?thesis using assms(1) by (simp add: peers_keep_evolve)
  next
    case (2 token q)
    define n where "n = m\<lparr>mesh_pending := AList.delete token (mesh_pending m)\<rparr>"
    have "mesh_ok n" using assms(1) by (simp add: n_def mesh_ok_def pending_ok_updates)
    then have "mesh_ok (update_peer k (f q) n)" by (rule mesh_ok_update_peer) (rule at)
    moreover have "peers_evolve n (update_peer k (f q) n)" by (rule peers_evolve_update) (rule ev)
    ultimately show ?thesis using 2 by (simp add: n_def peers_evolve_def)
  qed
qed

lemma on_data_ok:
  assumes "mesh_ok m" and p: "map_of (mesh_peers m) k = Some p"
    and "on_data k p plaintext addr now m = (m', evs)"
  shows "mesh_ok m' \<and> peers_evolve m m'"
proof -
  obtain r p1 where a: "acceptDataEnvelope plaintext p = (r, p1)" by fastforce
  define p2 where "p2 = (case r of None \<Rightarrow> p1 | Some _ \<Rightarrow> markAuth now (setAddress (Some addr) now p1))"
  have m': "m' = update_peer k (\<lambda>_. p2) m"
    using assms(3) by (auto simp: on_data_def a p2_def split: option.splits)
  have "peer_at k p" using assms(1) p by (simp add: mesh_ok_def)
  then have "peer_at k p1"
    using acceptDataEnvelope_config [OF a] peer_ok_acceptDataEnvelope [of p plaintext] a by (simp add: peer_at_def)
  then have "peer_at k p2" by (simp add: p2_def peer_at_updates split: option.splits)
  then have "mesh_ok m'" using assms(1) unfolding m' by (intro mesh_ok_update_peer)
  moreover have "evolves p p2"
    using evolves_acceptDataEnvelope [OF a]
      evolves_keeps [OF evolves_keeps [OF _ keeps_updates(1)] keeps_updates(2)]
    by (auto simp: p2_def split: option.splits)
  ultimately show ?thesis using p unfolding m' by (auto intro: peers_evolve_update)
qed

lemma receive_ok:
  assumes ok: "mesh_ok m" and rc: "receive env packet addr now rnd m = (rnd', m', evs)"
  shows "mesh_ok m' \<and> peers_evolve m m'"
proof (cases "match_peer (env_crypto env) packet (peerSnapshot m)")
  case None
  then show ?thesis using rc ok by (simp add: receive_def peers_keep_evolve)
next
  case (Some x)
  obtain k p kind plain where x: "x = (k, p, kind, plain)" by (metis prod_cases4)
  have p: "map_of (mesh_peers m) k = Some p" using matched_peer [OF ok] Some x by blast
  consider "m' = m" | rnd1 evs1 where "on_probe env k p plain addr now rnd m = (rnd1, m', evs1)"
    | "m' = on_probe_reply k p plain addr now m" | evs1 where "on_data k p plain addr now m = (m', evs1)"
    using rc Some x by (auto simp: receive_def Let_def split: if_splits prod.splits)
  then show ?thesis
  proof cases
    case 1
    then show ?thesis using ok by (simp add: peers_keep_evolve)
  next
    case 2
    then show ?thesis using on_probe_ok [OF ok] peers_sampled_keep peers_keep_evolve by blast
  next
    case 3
    then show ?thesis using on_probe_reply_ok [OF ok p] by simp
  next
    case 4
    then show ?thesis using on_data_ok [OF ok p] by blast
  qed
qed

lemma mesh_Send_ok:
  assumes ok: "mesh_ok m" and sd: "mesh_Send env peerID payload rnd m = (e, rnd', m', evs)"
  shows "mesh_ok m' \<and> peers_keep m m'"
proof (cases "m' = m")
  case True
  then show ?thesis using ok by simp
next
  case False
  then obtain p r p1 where p: "map_of (mesh_peers m) peerID = Some p"
    and d: "dataEnvelope payload p = (r, p1)" and m': "m' = update_peer peerID (\<lambda>_. p1) m"
    using sd by (auto simp: mesh_Send_def split: option.splits prod.splits sum.splits if_splits)
  have "peer_at peerID p" using ok p by (simp add: mesh_ok_def)
  then have "peer_at peerID p1"
    using keeps_dataEnvelope [OF d] peer_ok_dataEnvelope [of p payload] d by (simp add: peer_at_def)
  then have "mesh_ok m'" using ok unfolding m' by (intro mesh_ok_update_peer)
  moreover have "peers_keep m m'"
    unfolding m' by (rule peers_keep_update) (use keeps_dataEnvelope [OF d] p in simp)
  ultimately show ?thesis by blast
qed

lemma makePeer_fresh:
  assumes "makePeer env localNodeID config now rnd = (Inr p, rnd')"
  obtains fp tx rx epoch a where "codec_ok tx" "codec_ok rx" "length epoch = 16"
    "p = setAddress a now (fresh_peer config fp tx rx epoch)"
proof -
  obtain psk tk rk tx rx epoch where
    "NewCodec tk 0 31 = Inr tx" "NewCodec rk 0 31 = Inr rx" "ReadFull rnd 16 = Some (epoch, rnd')"
    "p = (let peer = fresh_peer config (sha256_sum (env_crypto env) psk) tx rx epoch
          in if link_PeerEndpoint config \<noteq> []
             then setAddress (env_resolve env (link_PeerEndpoint config)) now peer else peer)"
    using assms unfolding makePeer_def Let_def
    by (simp split: sum.splits option.splits prod.splits) blast
  moreover have "setAddress None now q = q" for q by (simp add: setAddress_def)
  ultimately show ?thesis
    using NewCodec_ok by (intro that [of tx rx epoch "if link_PeerEndpoint config \<noteq> []
        then env_resolve env (link_PeerEndpoint config) else None"])
      (auto simp: ReadFull_def Let_def split: if_splits)
qed

lemma makePeer_Inr:
  assumes "makePeer env localNodeID config now rnd = (Inr p, rnd')"
  shows "peer_at (link_PeerNodeID config) p \<and> remoteEpoch p = zero_epoch"
proof -
  obtain fp tx rx epoch a where ok: "codec_ok tx" "codec_ok rx" "length epoch = 16"
    and p: "p = setAddress a now (fresh_peer config fp tx rx epoch)"
    using makePeer_fresh [OF assms] .
  let ?q = "fresh_peer config fp tx rx epoch"
  have "window_tracks ?q {}" by (rule fresh_window) (simp add: fresh_peer_def)
  then have "peer_at (link_PeerNodeID config) ?q"
    using ok by (auto simp: peer_at_def peer_ok_def fresh_peer_def zero_epoch_def)
  moreover have "remoteEpoch p = remoteEpoch ?q"
    using keeps_updates(1) [of ?q a now] by (simp add: keeps_def p)
  ultimately show ?thesis using p by (simp add: peer_at_updates fresh_peer_def [of _ _ _ _ epoch])
qed

text \<open>The loop of \<^verbatim>\<open>Reconcile\<close> keeps the session of every peer of the map; the entries of the new
  map are those peers and fresh ones.\<close>

definition new_ok :: "mesh \<Rightarrow> (string \<times> mesh_peer option) list \<Rightarrow> bool" where
  "new_ok m new_peers \<longleftrightarrow> keys_distinct new_peers \<and>
     (\<forall>k c. map_of new_peers k = Some c \<longrightarrow>
        (case c of None \<Rightarrow> map_of (mesh_peers m) k \<noteq> None
         | Some p \<Rightarrow> peer_at k p \<and> remoteEpoch p = zero_epoch))"

lemma new_ok_update:
  "new_ok m np \<Longrightarrow> peer_at k p \<Longrightarrow> remoteEpoch p = zero_epoch \<Longrightarrow> new_ok m (AList.update k (Some p) np)"
  "new_ok m np \<Longrightarrow> map_of (mesh_peers m) k \<noteq> None \<Longrightarrow> new_ok m (AList.update k None np)"
  by (auto simp: new_ok_def split: option.splits)

lemma new_ok_mono: "new_ok m np \<Longrightarrow> dom (map_of (mesh_peers m)) \<subseteq> dom (map_of (mesh_peers m')) \<Longrightarrow> new_ok m' np"
  by (fastforce simp: new_ok_def split: option.splits)

lemma reconcile_links_ok:
  "reconcile_links env now links rnd m np = (e, rnd', m', np') \<Longrightarrow> mesh_ok m \<Longrightarrow> new_ok m np \<Longrightarrow>
     mesh_ok m' \<and> new_ok m' np' \<and> peers_keep m m'"
proof (induction links arbitrary: rnd m np)
  case (Cons config links)
  define k where "k = link_PeerNodeID config"
  have step: "(m' = m \<and> np' = np) \<or>
    (\<exists>cand rnd1. makePeer env (mesh_localNodeID m) config now rnd = (Inr cand, rnd1) \<and>
      (reconcile_links env now links rnd1 m (AList.update k (Some cand) np) = (e, rnd', m', np') \<or>
       (\<exists>prev. map_of (mesh_peers m) k = Some prev \<and>
         reconcile_links env now links rnd1
           (m\<lparr>mesh_peers := AList.update k (setAddress (peer_addr cand) now (prev\<lparr>peer_config := config\<rparr>))
             (mesh_peers m)\<rparr>) (AList.update k None np) = (e, rnd', m', np'))))"
    using Cons.prems(1)
    by (auto simp: k_def Let_def split: option.splits prod.splits sum.splits if_splits)
  then consider "m' = m" "np' = np" | cand rnd1 where
    "makePeer env (mesh_localNodeID m) config now rnd = (Inr cand, rnd1)"
    "reconcile_links env now links rnd1 m (AList.update k (Some cand) np) = (e, rnd', m', np')"
  | prev rnd1 and cand :: mesh_peer where "map_of (mesh_peers m) k = Some prev"
    "reconcile_links env now links rnd1
       (m\<lparr>mesh_peers := AList.update k (setAddress (peer_addr cand) now (prev\<lparr>peer_config := config\<rparr>)) (mesh_peers m)\<rparr>)
       (AList.update k None np) = (e, rnd', m', np')"
    by blast
  then show ?case
  proof cases
    case 1
    then show ?thesis using Cons.prems by simp
  next
    case 2
    then show ?thesis
      using Cons.IH [OF 2(2) Cons.prems(2)] new_ok_update(1) [OF Cons.prems(3)] makePeer_Inr [OF 2(1)]
      by (simp add: k_def)
  next
    case (3 prev rnd1 cand)
    define f where "f p = setAddress (peer_addr cand) now (p\<lparr>peer_config := config\<rparr>)" for p
    define n where "n = update_peer k f m"
    have run: "reconcile_links env now links rnd1 n (AList.update k None np) = (e, rnd', m', np')"
      using 3 by (simp add: n_def update_peer_def f_def)
    have keep: "keeps p (f p)" for p
      unfolding f_def by (rule keeps_trans [OF keeps_updates(4) keeps_updates(1)])
    have "peer_at k (f p)" if "peer_at k p" for p
      using that peer_ok_updates(1) [OF peer_ok_updates(4)] by (simp add: f_def k_def peer_at_def)
    then have "mesh_ok n" using Cons.prems(2) by (auto simp: n_def intro: mesh_ok_update_peer)
    moreover have "peers_keep m n" unfolding n_def by (rule peers_keep_update) (rule keep)
    moreover have "new_ok n (AList.update k None np)"
    proof (rule new_ok_update(2))
      show "new_ok n np"
        using Cons.prems(3) by (rule new_ok_mono) (auto simp: n_def map_of_update_peer dom_def)
      show "map_of (mesh_peers n) k \<noteq> None" using 3(1) by (simp add: n_def map_of_update_peer)
    qed
    ultimately show ?thesis using Cons.IH [OF run] peers_keep_trans by blast
  qed
qed simp

lemma Reconcile_ok:
  assumes ok: "mesh_ok m" and rc: "Reconcile env links now rnd m = (e, rnd', m')"
  shows "mesh_ok m' \<and> peers_evolve m m'"
proof -
  obtain e1 rnd1 m1 np where l: "reconcile_links env now links rnd m [] = (e1, rnd1, m1, np)"
    by (metis prod_cases4)
  have r: "mesh_ok m1" "new_ok m1 np" "peers_keep m m1"
    using reconcile_links_ok [OF l ok] by (simp_all add: new_ok_def)
  show ?thesis
  proof (cases e1)
    case (Some x)
    then have "m' = m1" using rc l by (simp add: Reconcile_def)
    then show ?thesis using r peers_keep_evolve by simp
  next
    case None
    define g where "g = (\<lambda>k c. case c of Some p \<Rightarrow> p | None \<Rightarrow> the (map_of (mesh_peers m1) k))"
    have m': "m' = m1\<lparr>mesh_peers := map (\<lambda>(k, c). (k, g k c)) np\<rparr>"
      using rc l None by (simp add: Reconcile_def g_def)
    have look: "map_of (mesh_peers m') k = map_option (g k) (map_of np k)" for k
      unfolding m' by (induction np) auto
    have entry: "peer_at k p \<and> (map_of (mesh_peers m1) k = Some p \<or> remoteEpoch p = zero_epoch)"
      if p: "map_of (mesh_peers m') k = Some p" for k p
    proof -
      obtain c where c: "map_of np k = Some c" "p = g k c" using p by (auto simp: look)
      have "case c of None \<Rightarrow> map_of (mesh_peers m1) k \<noteq> None
          | Some p \<Rightarrow> peer_at k p \<and> remoteEpoch p = zero_epoch"
        using r(2) c(1) unfolding new_ok_def by blast
      with c(2) r(1) show ?thesis by (cases c) (auto simp: g_def mesh_ok_def)
    qed
    have "keys_distinct (mesh_peers m')"
      using r(2) by (simp add: m' new_ok_def keys_distinct_def comp_def case_prod_beta)
    then have "mesh_ok m'" using r(1) entry by (auto simp: mesh_ok_def m')
    moreover have "peers_evolve m m'"
      using entry peers_keep_evolve [OF r(3)] unfolding peers_evolve_def by blast
    ultimately show ?thesis by blast
  qed
qed

lemma mesh_step_ok: "mesh_step env m m' \<Longrightarrow> mesh_ok m \<Longrightarrow> mesh_ok m' \<and> peers_evolve m m'"
  by (induction rule: mesh_step.induct)
    (blast dest: Reconcile_ok mesh_Send_ok receive_ok probe_tick_ok peers_sampled_keep intro: peers_keep_evolve)+

lemma mesh_reachable_ok: "mesh_reachable env m \<Longrightarrow> mesh_ok m"
proof (induction rule: mesh_reachable.induct)
  case (reach_new listen nodeID port m)
  then show ?case by (auto simp: NewMesh_def mesh_ok_def pending_ok_def Let_def split: if_splits)
next
  case (reach_step m m')
  then show ?case using mesh_step_ok by blast
qed

section \<open>What the session protocol guarantees\<close>

definition remote_epoch :: "mesh \<Rightarrow> string \<Rightarrow> byte list option" where
  "remote_epoch m k = map_option remoteEpoch (map_of (mesh_peers m) k)"

text \<open>A step of the mesh in which the session with peer \<open>k\<close> stays what it is.\<close>

definition same_session_step :: "mesh_env \<Rightarrow> string \<Rightarrow> mesh \<Rightarrow> mesh \<Rightarrow> bool" where
  "same_session_step env k m m' \<longleftrightarrow> mesh_step env m m' \<and> remote_epoch m' k = remote_epoch m k"

text \<open>\<open>packet\<close> opens under the keys of \<open>k\<close> to data whose sequence number the window has accepted.\<close>

definition consumed :: "crypto \<Rightarrow> byte list \<Rightarrow> string \<Rightarrow> mesh \<Rightarrow> bool" where
  "consumed cr packet k m \<longleftrightarrow>
     (\<exists>p plain S. map_of (mesh_peers m) k = Some p \<and> sessionReady p \<and>
        OpenTyped cr (peer_rx p) packet = Inr (packetData, plain) \<and>
        window_tracks p S \<and> word_of_nat (be_decode (take 8 (drop 32 plain))) \<in> S)"

lemma consumed_step:
  assumes ok: "mesh_ok m" and st: "same_session_step env k m m'" and c: "consumed cr packet k m"
  shows "consumed cr packet k m'"
proof -
  obtain p plain S where p: "map_of (mesh_peers m) k = Some p" and rdy: "sessionReady p"
    and op: "OpenTyped cr (peer_rx p) packet = Inr (packetData, plain)"
    and tr: "window_tracks p S" and q: "word_of_nat (be_decode (take 8 (drop 32 plain))) \<in> S"
    using c unfolding consumed_def by blast
  have ev: "peers_evolve m m'" and eq: "remote_epoch m' k = remote_epoch m k"
    using st ok mesh_step_ok unfolding same_session_step_def by blast+
  obtain p' where p': "map_of (mesh_peers m') k = Some p'" and re: "remoteEpoch p' = remoteEpoch p"
    using eq p unfolding remote_epoch_def by (cases "map_of (mesh_peers m') k") auto
  then have "evolves p p'"
    using ev p rdy unfolding peers_evolve_def sessionReady_def by (metis option.inject)
  then obtain S' where "S \<subseteq> S'" "window_tracks p' S'" "peer_rx p' = peer_rx p"
    using tr re unfolding evolves_def by blast
  then show ?thesis
    using p' rdy re op q unfolding consumed_def sessionReady_def by (metis subsetD)
qed

lemma receive_Delivered:
  assumes ok: "mesh_ok m" and rc: "receive env packet addr now rnd m = (rnd', m', evs)"
    and d: "Delivered k payload \<in> set evs"
  obtains p plain p' where "map_of (mesh_peers m) k = Some p"
    "OpenTyped (env_crypto env) (peer_rx p) packet = Inr (packetData, plain)"
    "acceptDataEnvelope plain p = (Some payload, p')"
    "map_of (mesh_peers m') k = Some (markAuth now (setAddress (Some addr) now p'))"
proof (cases "match_peer (env_crypto env) packet (peerSnapshot m)")
  case None
  then show ?thesis using rc d by (simp add: receive_def)
next
  case (Some x)
  obtain j p kind plain where x: "x = (j, p, kind, plain)" by (metis prod_cases4)
  have m: "map_of (mesh_peers m) j = Some p" "peer_at j p"
    "OpenTyped (env_crypto env) (peer_rx p) packet = Inr (kind, plain)"
    using matched_peer [OF ok] Some x by blast+
  have np: "Delivered k payload \<notin> set es"
    if "sendProbeTo env j a now r n = (r', n', es)" for a r n r' n' es
    using that by (auto simp: sendProbeTo_def Let_def split: option.splits prod.splits sum.splits if_splits)
  have "kind = packetData \<and> on_data j p plain addr now m = (m', evs)"
    using rc d Some x np
    by (auto simp: receive_def on_probe_def IsData_def Let_def split: if_splits prod.splits sum.splits)
  moreover from this obtain p' where "acceptDataEnvelope plain p = (Some payload, p')"
    "k = link_PeerNodeID (peer_config p)" "m' = update_peer j (\<lambda>_. markAuth now (setAddress (Some addr) now p')) m"
    using d by (auto simp: on_data_def split: prod.splits option.splits)
  ultimately show ?thesis
    using m by (intro that [of p plain p']) (auto simp: peer_at_def map_of_update_peer)
qed

lemma delivered_consumed:
  assumes ok: "mesh_ok m" and rc: "receive env packet addr now rnd m = (rnd', m', evs)"
    and d: "Delivered k payload \<in> set evs"
  shows "consumed (env_crypto env) packet k m' \<and> remote_epoch m' k = remote_epoch m k"
proof -
  obtain p plain p1 where p: "map_of (mesh_peers m) k = Some p"
    and op: "OpenTyped (env_crypto env) (peer_rx p) packet = Inr (packetData, plain)"
    and a: "acceptDataEnvelope plain p = (Some payload, p1)"
    and m': "map_of (mesh_peers m') k = Some (markAuth now (setAddress (Some addr) now p1))"
    using receive_Delivered [OF assms] .
  define p2 where "p2 = markAuth now (setAddress (Some addr) now p1)"
  have k2: "keeps p1 p2" unfolding p2_def by (rule keeps_trans [OF keeps_updates(1) keeps_updates(2)])
  let ?q = "word_of_nat (be_decode (take 8 (drop 32 plain))) :: u64"
  have acc: "acceptSequenceLocked ?q p = (True, p1)" and rdy: "sessionReady p"
    using acceptDataEnvelope_bound [OF a] by auto
  obtain S where "window_tracks p S" using ok p by (auto simp: mesh_ok_def peer_at_def peer_ok_def)
  then have "window_tracks p1 (insert ?q S)" using accept_tracks acc by blast
  then have "window_tracks p2 (insert ?q S)" using k2 by (simp add: keeps_def window_tracks_cong [of p2 p1])
  moreover have same: "remoteEpoch p2 = remoteEpoch p" "peer_rx p2 = peer_rx p"
    using k2 acceptSequenceLocked_same [OF acc] by (simp_all add: keeps_def)
  ultimately show ?thesis
    using m' p op rdy unfolding consumed_def remote_epoch_def p2_def [symmetric] sessionReady_def
    by (auto intro!: exI [of _ "insert ?q S"])
qed

lemma consumed_not_delivered:
  assumes ok: "mesh_ok m" and c: "consumed (env_crypto env) packet k m"
    and rc: "receive env packet addr now rnd m = (rnd', m', evs)"
  shows "Delivered k payload \<notin> set evs"
proof
  assume "Delivered k payload \<in> set evs"
  then obtain p plain p1 where p: "map_of (mesh_peers m) k = Some p"
    and op: "OpenTyped (env_crypto env) (peer_rx p) packet = Inr (packetData, plain)"
    and a: "acceptDataEnvelope plain p = (Some payload, p1)"
    using receive_Delivered [OF ok rc] by blast
  obtain S where S: "window_tracks p S" "word_of_nat (be_decode (take 8 (drop 32 plain))) \<in> S"
    using c p op unfolding consumed_def by auto
  have "acceptSequenceLocked (word_of_nat (be_decode (take 8 (drop 32 plain)))) p = (True, p1)"
    using acceptDataEnvelope_bound [OF a] by blast
  then show False using accept_tracks [OF S(1)] S(2) by blast
qed

lemma session_run_consumed:
  assumes "(same_session_step env k)\<^sup>*\<^sup>* m m'" and "mesh_ok m" and "consumed cr packet k m"
  shows "mesh_ok m' \<and> consumed cr packet k m'"
  using assms
proof (induction rule: rtranclp_induct)
  case (step m1 m2)
  then show ?case using consumed_step mesh_step_ok unfolding same_session_step_def by meson
qed simp

lemma remote_epoch_keep: "peers_keep m m' \<Longrightarrow> remote_epoch m' k = remote_epoch m k"
proof -
  have "rel_option keeps x y \<Longrightarrow> map_option remoteEpoch y = map_option remoteEpoch x" for x y
    by (cases x; cases y) (auto simp: keeps_def)
  then show "peers_keep m m' \<Longrightarrow> remote_epoch m' k = remote_epoch m k"
    by (simp add: peers_keep_def remote_epoch_def)
qed

text \<open>A remote epoch is learned only from the answer to an outstanding challenge.\<close>

definition answers_challenge :: "crypto \<Rightarrow> mesh \<Rightarrow> string \<Rightarrow> byte list \<Rightarrow> udp_addr \<Rightarrow> byte list \<Rightarrow> bool" where
  "answers_challenge cr m k packet addr epoch \<longleftrightarrow>
     (\<exists>p plain q. map_of (mesh_peers m) k = Some p \<and>
        OpenTyped cr (peer_rx p) packet = Inr (packetProbeReply, plain) \<and> length plain = 48 \<and>
        map_of (mesh_pending m) (hex_encode (take 32 plain)) = Some q \<and>
        pend_peerID q = k \<and> pend_endpoint q = udp_String addr \<and> epoch = drop 32 plain)"

lemma receive_epoch:
  assumes ok: "mesh_ok m" and rc: "receive env packet addr now rnd m = (rnd', m', evs)"
    and ch: "remote_epoch m' k \<noteq> remote_epoch m k"
  shows "\<exists>e. remote_epoch m' k = Some e \<and> answers_challenge (env_crypto env) m k packet addr e"
proof (cases "match_peer (env_crypto env) packet (peerSnapshot m)")
  case None
  then show ?thesis using rc ch by (simp add: receive_def)
next
  case (Some x)
  obtain j p kind plain where x: "x = (j, p, kind, plain)" by (metis prod_cases4)
  have m: "map_of (mesh_peers m) j = Some p" "link_PeerNodeID (peer_config p) = j"
    "OpenTyped (env_crypto env) (peer_rx p) packet = Inr (kind, plain)"
    using matched_peer [OF ok] Some x by (auto simp: peer_at_def)
  consider "m' = m" | rnd1 evs1 where "on_probe env j p plain addr now rnd m = (rnd1, m', evs1)"
    | "kind = packetProbeReply" "m' = on_probe_reply j p plain addr now m"
    | evs1 where "on_data j p plain addr now m = (m', evs1)"
    using rc Some x by (auto simp: receive_def IsProbeReply_def Let_def split: if_splits prod.splits)
  then show ?thesis
  proof cases
    case 1
    then show ?thesis using ch by simp
  next
    case 2
    then have "remote_epoch m' k = remote_epoch m k"
      using peers_sampled_keep on_probe_ok [OF ok] remote_epoch_keep by blast
    then show ?thesis using ch by simp
  next
    case 3
    then obtain q where q: "length plain = 48" "map_of (mesh_pending m) (hex_encode (take 32 plain)) = Some q"
      "pend_peerID q = j" "pend_endpoint q = udp_String addr"
      using ch m by (auto simp: on_probe_reply_def Let_def split: option.splits if_splits)
    define f where "f = recordProbe True (time_sub now (pend_sent q)) now \<circ> setAddress (Some addr) now
      \<circ> confirmRemoteEpoch (drop 32 plain)"
    have "remote_epoch m' k = remote_epoch (update_peer j f m) k"
      using 3 q m by (simp add: on_probe_reply_def f_def remote_epoch_def map_of_update_peer)
    moreover have "remoteEpoch (f p) = drop 32 plain"
    proof -
      have "keeps (confirmRemoteEpoch (drop 32 plain) p) (f p)"
        unfolding f_def comp_def by (rule keeps_trans [OF keeps_updates(1) keeps_updates(3)])
      then show ?thesis using q(1) by (simp add: keeps_def confirmRemoteEpoch_def)
    qed
    ultimately have "k = j" "remote_epoch m' k = Some (drop 32 plain)"
      using ch m by (auto simp: remote_epoch_def map_of_update_peer split: if_splits)
    then show ?thesis using m q 3 unfolding answers_challenge_def by blast
  next
    case (4 evs1)
    obtain r p1 where a: "acceptDataEnvelope plain p = (r, p1)" by fastforce
    have "remoteEpoch p1 = remoteEpoch p"
      using acceptDataEnvelope_window [OF a] acceptSequenceLocked_same(5) by auto
    moreover have "remoteEpoch (markAuth now (setAddress (Some addr) now p1)) = remoteEpoch p1"
      using keeps_trans [OF keeps_updates(1) keeps_updates(2)] by (simp add: keeps_def)
    ultimately have "remote_epoch m' k = remote_epoch m k"
      using 4 m a by (auto simp: on_data_def remote_epoch_def map_of_update_peer split: option.splits)
    then show ?thesis using ch by simp
  qed
qed

section \<open>What reconciliation retains\<close>

lemma reconcile_links_frame:
  "reconcile_links env now links rnd m np = (e, rnd', m', np') \<Longrightarrow> k \<notin> link_PeerNodeID ` set links \<Longrightarrow>
     map_of (mesh_peers m') k = map_of (mesh_peers m) k \<and> map_of np' k = map_of np k"
proof (induction links arbitrary: rnd m np)
  case (Cons config links)
  from Cons.prems Cons.IH show ?case
    by (simp add: Let_def split: option.splits prod.splits sum.splits if_splits)
qed simp

lemma makePeer_fingerprint:
  "makePeer env nodeID config now rnd = (Inr p, rnd') \<Longrightarrow>
     \<exists>psk. PSKBytes config = Inr psk \<and> peer_fingerprint p = sha256_sum (env_crypto env) psk"
  by (auto simp: makePeer_def Let_def fresh_peer_def setAddress_def
      split: sum.splits option.splits prod.splits if_splits)

lemma reconcile_links_dom:
  "reconcile_links env now links rnd m np = (None, rnd', m', np') \<Longrightarrow>
     dom (map_of np') = dom (map_of np) \<union> link_PeerNodeID ` set links"
proof (induction links arbitrary: rnd m np)
  case (Cons config links)
  have d: "dom (map_of (AList.update k v np)) = insert k (dom (map_of np))" for k v by simp
  from Cons.prems Cons.IH show ?case
    by (simp add: Let_def d del: map_of_update split: option.splits prod.splits sum.splits if_splits)
qed simp

lemma reconcile_links_retains:
  assumes "reconcile_links env now links rnd m np = (None, rnd', m', np')"
    and "distinct (map link_PeerNodeID links)" and "l \<in> set links"
    and "map_of (mesh_peers m) (link_PeerNodeID l) = Some p"
    and "link_ID (peer_config p) = link_ID l"
    and "PSKBytes l = Inr psk" and "peer_fingerprint p = sha256_sum (env_crypto env) psk"
  shows "\<exists>p'. map_of np' (link_PeerNodeID l) = Some None \<and>
    map_of (mesh_peers m') (link_PeerNodeID l) = Some p' \<and> keeps p p' \<and> peer_config p' = l"
  using assms
proof (induction links arbitrary: rnd m np)
  case (Cons config links)
  define k where "k = link_PeerNodeID l"
  obtain cand rnd1 where mk: "makePeer env (mesh_localNodeID m) config now rnd = (Inr cand, rnd1)"
    and lv: "link_Validate config (mesh_localNodeID m) = None"
    using Cons.prems(1) by (auto split: option.splits prod.splits sum.splits)
  show ?case
  proof (cases "config = l")
    case True
    define q where "q = setAddress (peer_addr cand) now (p\<lparr>peer_config := l\<rparr>)"
    have "peer_fingerprint cand = peer_fingerprint p"
      using makePeer_fingerprint [OF mk] True Cons.prems(6,7) by auto
    then have r: "reconcile_links env now links rnd1 (m\<lparr>mesh_peers := AList.update k q (mesh_peers m)\<rparr>)
        (AList.update k None np) = (None, rnd', m', np')"
      using Cons.prems(1,4,5) True mk lv by (simp add: Let_def k_def q_def)
    have "k \<notin> link_PeerNodeID ` set links" using Cons.prems(2) True by (simp add: k_def)
    then have "map_of (mesh_peers m') k = Some q" "map_of np' k = Some None"
      using reconcile_links_frame [OF r] by simp_all
    moreover have "keeps p q" "peer_config q = l"
      unfolding q_def by (rule keeps_trans [OF keeps_updates(4) keeps_updates(1)]) simp
    ultimately show ?thesis by (auto simp: k_def)
  next
    case False
    then have l: "l \<in> set links" "link_PeerNodeID config \<noteq> k" "distinct (map link_PeerNodeID links)"
      using Cons.prems(2,3) by (auto simp: k_def)
    obtain m1 np1 where r: "reconcile_links env now links rnd1 m1 np1 = (None, rnd', m', np')"
      and m1: "map_of (mesh_peers m1) k = map_of (mesh_peers m) k"
    proof -
      have "reconcile_links env now links rnd1 m (AList.update (link_PeerNodeID config) (Some cand) np)
          = (None, rnd', m', np') \<or>
        (\<exists>q. reconcile_links env now links rnd1
           (m\<lparr>mesh_peers := AList.update (link_PeerNodeID config) q (mesh_peers m)\<rparr>)
           (AList.update (link_PeerNodeID config) None np) = (None, rnd', m', np'))"
        using Cons.prems(1) mk lv by (auto simp: Let_def split: option.splits if_splits)
      then show ?thesis using that l(2) by auto
    qed
    show ?thesis
      using Cons.IH [OF r l(3,1)] Cons.prems(4-7) m1 by (simp add: k_def)
  qed
qed simp

end
