(* ===== verification/MeshScenario.thy ===== *)
theory MeshScenario
  imports RoutedMesh
begin

text \<open>
  A concrete run of two mesh Nodes with a toy cipher that satisfies the laws of an authenticated one: the
  inputs the witnesses of the mesh properties evaluate.
\<close>

definition toy_tag :: "byte list \<Rightarrow> byte list" where
  "toy_tag key = take 16 (key @ replicate 16 0)"

definition toy_crypto :: crypto where
  "toy_crypto =
     \<lparr>sha256_sum = (\<lambda>m. take 32 (m @ replicate 32 0)),
      hmac_sha256 = (\<lambda>k m. take 32 (rev m @ replicate 32 0)),
      gcm_seal = (\<lambda>k n p a. toy_tag k @ p),
      gcm_open = (\<lambda>k n c a. if take 16 c = toy_tag k then Some (drop 16 c) else None)\<rparr>"

lemma toy_crypto_ok: "crypto_ok toy_crypto"
  by (simp add: crypto_ok_def toy_crypto_def toy_tag_def gcmOverhead_def) (simp add: min_def)

definition toy_addr :: udp_addr where
  "toy_addr = \<lparr>IP = [10, 0, 0, 2], Port = 24446, Zone = []\<rparr>"

definition toy_env :: mesh_env where
  "toy_env = \<lparr>env_crypto = toy_crypto, env_resolve = (\<lambda>_. Some toy_addr), env_write_ok = (\<lambda>_ _. True)\<rparr>"

definition toy_time :: gotime where
  "toy_time = \<lparr>wall = 1700000000 * second, mono = Some 0\<rparr>"

definition toy_link :: "string \<Rightarrow> link_config" where
  "toy_link peer =
     \<lparr>link_ID = ''l1'', link_PeerNodeID = peer, link_PeerName = peer, link_PSK = base64_encode (replicate 32 7),
      link_PeerEndpoint = ''h:1'', link_PeerPublic = True, link_PeerSiteRouter = False, link_Port = 0,
      link_Cost = 1\<rparr>"

definition toy_tx :: codec where
  "toy_tx = \<lparr>codec_key = take 32 (rev (bytes_of ''bpc-wgshim-v1-c2s'') @ replicate 32 0), paddingMin = 0, paddingMax = 31\<rparr>"

definition toy_rx :: codec where
  "toy_rx = \<lparr>codec_key = take 32 (rev (bytes_of ''bpc-wgshim-v1-s2c'') @ replicate 32 0), paddingMin = 0, paddingMax = 31\<rparr>"

text \<open>Node \<open>a\<close> with its peer \<open>b\<close>, the session established.\<close>

definition toy_peer :: mesh_peer where
  "toy_peer = (fresh_peer (toy_link ''b'') (replicate 32 7) toy_tx toy_rx (replicate 16 1))
     \<lparr>peer_addr := Some toy_addr, remoteEpoch := replicate 16 2, lastReply := toy_time\<rparr>"

definition toy_mesh :: mesh where
  "toy_mesh = \<lparr>mesh_localNodeID = ''a'', mesh_peers = [(''b'', toy_peer)], mesh_pending = []\<rparr>"

text \<open>A data packet of \<open>b\<close> with sequence number five and a one-byte payload.\<close>

definition toy_header :: "byte list" where
  "toy_header = replicate 16 2 @ replicate 16 1 @ [0, 0, 0, 0, 0, 0, 0, 5]"

definition toy_envelope :: "byte list" where
  "toy_envelope = toy_header @ [42]"

definition toy_sealed :: "byte \<Rightarrow> byte list \<Rightarrow> byte list" where
  "toy_sealed ty plain = replicate 12 0 @ gcm_seal toy_crypto (codec_key toy_rx) (replicate 12 0)
     ([protocolVersion, ty] @ be_encode 2 (length plain) @ plain @ []) aad"

definition toy_challenged :: "byte list \<Rightarrow> mesh" where
  "toy_challenged token = toy_mesh\<lparr>mesh_pending := [(hex_encode token,
     \<lparr>pend_peerID = ''b'', pend_sent = toy_time, pend_endpoint = udp_String toy_addr\<rparr>)]\<rparr>"

lemma toy_peer_ok: "peer_ok toy_peer"
proof -
  have "window_tracks toy_peer {}"
    by (rule fresh_window) (simp add: toy_peer_def fresh_peer_def)
  then show ?thesis
    by (auto simp: peer_ok_def toy_peer_def fresh_peer_def toy_tx_def toy_rx_def codec_ok_def)
qed

lemma toy_mesh_ok: "mesh_ok toy_mesh"
proof -
  have "peer_at ''b'' toy_peer"
    using toy_peer_ok by (simp add: peer_at_def toy_peer_def fresh_peer_def toy_link_def)
  then show ?thesis
    by (simp add: mesh_ok_def toy_mesh_def keys_distinct_def pending_ok_def)
qed

lemma toy_challenged_ok: "mesh_ok (toy_challenged token)"
  using toy_mesh_ok by (simp add: mesh_ok_def toy_challenged_def pending_ok_def keys_distinct_def)

lemma toy_open:
  "known_type ty \<Longrightarrow> length plain \<le> 65535 \<Longrightarrow> OpenTyped toy_crypto toy_rx (toy_sealed ty plain) = Inr (ty, plain)"
  unfolding toy_sealed_def by (rule OpenTyped_sealed [OF toy_crypto_ok]) (simp_all add: gcmNonceSize_def)

lemma toy_match:
  assumes "known_type ty" "length plain \<le> 65535" "peer_rx p = toy_rx" "mesh_peers m = [(''b'', p)]"
  shows "match_peer (env_crypto toy_env) (toy_sealed ty plain) (peerSnapshot m) = Some (''b'', p, ty, plain)"
  using assms by (simp add: peerSnapshot_def sort_slice_def toy_env_def toy_open)

lemma toy_receive_data:
  assumes "data \<noteq> []" "length data \<le> 65000"
  shows "receive toy_env (toy_sealed packetData (toy_header @ data)) toy_addr toy_time rnd toy_mesh =
     (rnd, toy_mesh\<lparr>mesh_peers := [(''b'', toy_peer\<lparr>recvHigh := 5, recvMask := 1, lastAuth := toy_time\<rparr>)]\<rparr>,
      [Delivered ''b'' data])"
proof -
  have m: "match_peer (env_crypto toy_env) (toy_sealed packetData (toy_header @ data)) (peerSnapshot toy_mesh)
      = Some (''b'', toy_peer, packetData, toy_header @ data)"
    using assms by (intro toy_match) (simp_all add: known_type_def toy_header_def toy_mesh_def toy_peer_def fresh_peer_def)
  have a: "acceptDataEnvelope (toy_header @ data) toy_peer = (Some data, toy_peer\<lparr>recvHigh := 5, recvMask := 1\<rparr>)"
  proof -
    have parts: "take 16 (toy_header @ data) = replicate 16 2" "take 16 (drop 16 (toy_header @ data)) = replicate 16 1"
      "take 8 (drop 32 (toy_header @ data)) = [0, 0, 0, 0, 0, 0, 0, 5]" "drop 40 (toy_header @ data) = data"
      "\<not> length (toy_header @ data) \<le> 40"
      using assms by (simp_all add: toy_header_def)
    have five: "be_decode [0, 0, 0, 0, 0, 0, 0, 5] = 5" by (simp add: be_decode_def)
    have epochs: "remoteEpoch toy_peer = replicate 16 2" "localEpoch toy_peer = replicate 16 1"
      "recvHigh toy_peer = 0" "replicate 16 2 \<noteq> zero_epoch"
      by (simp_all add: toy_peer_def fresh_peer_def zero_epoch_def)
    show ?thesis
      unfolding acceptDataEnvelope_def parts five epochs using epochs parts(5)
      by (simp add: acceptSequenceLocked_def)
  qed
  have kinds: "\<not> IsProbe packetData" "\<not> IsProbeReply packetData" "IsData packetData"
    by (simp_all add: packet_kinds codec_consts)
  have addr: "peer_addr toy_peer = Some toy_addr" "link_PeerNodeID (peer_config toy_peer) = ''b''"
    by (simp_all add: toy_peer_def fresh_peer_def toy_link_def)
  show ?thesis
    unfolding receive_def m
    by (simp add: kinds on_data_def a addr update_peer_def setAddress_def markAuth_def)
      (simp add: toy_mesh_def toy_peer_def fresh_peer_def)
qed

lemma toy_receive:
  "receive toy_env (toy_sealed packetData toy_envelope) toy_addr toy_time rnd toy_mesh =
     (rnd, toy_mesh\<lparr>mesh_peers := [(''b'', toy_peer\<lparr>recvHigh := 5, recvMask := 1, lastAuth := toy_time\<rparr>)]\<rparr>,
      [Delivered ''b'' [42]])"
  unfolding toy_envelope_def by (rule toy_receive_data) simp_all

lemma toy_psk: "base64_decode (trim_space (link_PSK (toy_link k))) = Some (replicate 32 7)"
  by (simp add: toy_link_def)

lemma toy_link_Validate: "link_Validate (toy_link ''b'') ''a'' = None"
proof -
  have "trim_space ''l1'' = ''l1''" "trim_space ''b'' = ''b''"
    by (rule trim_space_plain; simp add: space_bytes_def space_seqs_def)+
  then have "trim_space (link_ID (toy_link ''b'')) \<noteq> []" "trim_space (link_PeerNodeID (toy_link ''b'')) \<noteq> []"
    by (simp_all add: toy_link_def)
  then show ?thesis
    by (simp add: link_Validate_def toy_psk) (simp add: toy_link_def DefaultMeshPort_def)
qed

lemma toy_makePeer: "\<exists>p r. makePeer toy_env ''a'' (toy_link ''b'') toy_time (replicate 16 6) = (Inr p, r)"
proof -
  have "PSKBytes (toy_link ''b'') = Inr (replicate 32 7)" by (simp add: PSKBytes_def toy_psk)
  moreover have "length (hmac_sha256 toy_crypto k x) = 32" for k x
    using toy_crypto_ok by (simp add: crypto_ok_def)
  ultimately show ?thesis
    by (simp add: makePeer_def Let_def DeriveKey_def NewCodec_def ReadFull_def toy_env_def)
qed

end
