(* ===== verification/RoutedMeshProps.thy ===== *)
theory RoutedMeshProps
  imports MeshScenario
begin

text \<open>
  The properties of the routed mesh, from the lemmas of \<open>WgCodec\<close>, \<open>RoutedSession\<close> and \<open>RoutedMesh\<close>, with a
  witness on the run of \<open>MeshScenario\<close> where a property has hypotheses.
\<close>

section \<open>The packet codec\<close>

text \<open>Sealing is inverted by opening: whatever bytes the random source delivers for padding and nonce,
  a packet that \<^verbatim>\<open>sealType\<close> returns opens under the same key to its type and payload, for every
  authenticated cipher that opens what it sealed; and no packet makes the opener read out of range.\<close>

theorem codec_roundtrip:
  assumes "crypto_ok cr" and "sealType cr c rnd ty payload = (Inr packet, rest)"
  shows "OpenTyped cr c packet = Inr (ty, payload) \<and> known_type ty \<and> OpenTyped cr c raw \<noteq> Inl CodecPanic"
  using sealType_OpenTyped [OF assms] OpenTyped_known OpenTyped_no_panic by blast

theorem codec_roundtrip_witness:
  "OpenTyped toy_crypto toy_rx (replicate 12 0 @ gcm_seal toy_crypto (codec_key toy_rx) (replicate 12 0)
     ([protocolVersion, packetData] @ be_encode 2 1 @ [42]) aad) = Inr (packetData, [42])"
proof -
  have "sealType toy_crypto toy_rx (replicate 13 0) packetData [42] = (Inr (replicate 12 0 @
     gcm_seal toy_crypto (codec_key toy_rx) (replicate 12 0) ([protocolVersion, packetData] @ be_encode 2 1 @ [42]) aad), [])"
  proof -
    have "replicate 13 (0 :: byte) = 0 # replicate 12 0" by (simp add: numeral_eq_Suc)
    then have "randomPaddingLength toy_rx (replicate 13 0) = Some (0, replicate 12 0)"
      by (simp add: randomPaddingLength_def toy_rx_def)
    then show ?thesis
      by (simp add: sealType_def known_type_def maxInnerPacket_def nonceSize_def headerSize_def gcmNonceSize_def
          ReadFull_def)
  qed
  from codec_roundtrip [OF toy_crypto_ok this] show ?thesis by blast
qed

text \<open>The padding length is drawn without bias: it stays in the configured range, and each length of
  the range is produced by the same number of values of the random byte, the others being redrawn.\<close>

theorem padding_unbiased:
  assumes "codec_ok c" and "paddingMin c < paddingMax c" and "paddingMin c \<le> int n" and "int n \<le> paddingMax c"
  shows "card {b :: byte. randomPaddingLength c [b] = Some (n, [])}
    = 256 div nat (paddingMax c - paddingMin c + 1)"
proof -
  define s q r where "s = nat (paddingMax c - paddingMin c + 1)" and "q = 256 div s"
    and "r = n - nat (paddingMin c)"
  have rs: "r < s" "n = nat (paddingMin c) + r"
    using assms by (auto simp: r_def s_def codec_ok_def)
  have lim: "256 - 256 mod s = q * s"
    using minus_mod_eq_div_mult [of 256 s] by (simp add: q_def)
  have qs: "q * s \<le> 256" by (simp add: q_def)
  have step: "randomPaddingLength c [b] = Some (n, []) \<longleftrightarrow> unat b < q * s \<and> unat b mod s = r" for b :: byte
    using assms(2) rs by (auto simp: randomPaddingLength_def Let_def lim simp flip: s_def)
  have "{b :: byte. randomPaddingLength c [b] = Some (n, [])} = word_of_nat ` {k. k < q * s \<and> k mod s = r}"
  proof (intro set_eqI iffI)
    fix b :: byte
    assume "b \<in> {b. randomPaddingLength c [b] = Some (n, [])}"
    then have "b = word_of_nat (unat b)" "unat b \<in> {k. k < q * s \<and> k mod s = r}"
      by (simp_all add: step)
    then show "b \<in> word_of_nat ` {k. k < q * s \<and> k mod s = r}" by blast
  next
    fix b :: byte
    assume "b \<in> word_of_nat ` {k. k < q * s \<and> k mod s = r}"
    then obtain k where k: "b = word_of_nat k" "k < q * s" "k mod s = r" by blast
    then have "unat b = k" using qs by (simp add: unat_of_nat)
    with k show "b \<in> {b. randomPaddingLength c [b] = Some (n, [])}" by (simp add: step)
  qed
  moreover have "inj_on (word_of_nat :: nat \<Rightarrow> byte) {k. k < q * s \<and> k mod s = r}"
  proof (rule inj_onI)
    fix x y assume "x \<in> {k. k < q * s \<and> k mod s = r}" "y \<in> {k. k < q * s \<and> k mod s = r}"
      and e: "(word_of_nat x :: byte) = word_of_nat y"
    then have "x < 256" "y < 256" using qs by auto
    then show "x = y" using arg_cong [OF e, of unat] by (simp add: unat_of_nat)
  qed
  ultimately show ?thesis
    using card_residue [OF rs(1), of q] by (simp add: card_image q_def s_def)
qed

theorem padding_unbiased_witness:
  "card {b :: byte. randomPaddingLength toy_rx [b] = Some (7, [])} = 8"
  using padding_unbiased [of toy_rx 7] by (simp add: toy_rx_def codec_ok_def)

lemma mod_below_half: "0 < s \<Longrightarrow> s \<le> 256 \<Longrightarrow> 256 mod s < (128 :: nat)"
proof -
  assume s: "0 < s" "s \<le> 256"
  have "256 mod s < s" using s by simp
  moreover have "256 mod s + s \<le> 256"
  proof -
    have "256 mod s + 1 * s \<le> 256 mod s + 256 div s * s" using s by (intro add_left_mono mult_le_mono1) (simp add: Suc_le_eq div_greater_zero_iff)
    then show ?thesis by (simp add: mod_mult_div_eq)
  qed
  ultimately show ?thesis by linarith
qed

lemma draw_below_ends: "unat b < limit \<Longrightarrow> \<exists>v left. draw_below limit (pre @ b # rest) = Some (v, left) \<and> length rest \<le> length left"
  by (induction pre) auto

lemma randomPaddingLength_ends:
  assumes "codec_ok c" "unat b \<le> 128"
  shows "\<exists>n left. randomPaddingLength c (pre @ b # rest) = Some (n, left) \<and> int n \<le> paddingMax c \<and> length rest \<le> length left"
proof (cases "paddingMin c = paddingMax c")
  case True
  then show ?thesis using assms(1) by (simp add: randomPaddingLength_def codec_ok_def)
next
  case False
  define span where "span = nat (paddingMax c - paddingMin c + 1)"
  have "0 < span" "span \<le> 256" using assms(1) by (auto simp: span_def codec_ok_def)
  then have "unat b < 256 - 256 mod span" using mod_below_half [of span] assms(2) by linarith
  then obtain v left where d: "draw_below (256 - 256 mod span) (pre @ b # rest) = Some (v, left)" "length rest \<le> length left"
    using draw_below_ends by blast
  then have r: "randomPaddingLength c (pre @ b # rest) = Some (nat (paddingMin c) + v mod span, left)"
    using False by (simp add: randomPaddingLength_def Let_def span_def)
  then show ?thesis using randomPaddingLength_range [OF assms(1) r] d(2) by auto
qed

text \<open>C40. Sealing a packet ends. The loop that draws the length of the padding has no bound of its own and redraws a byte that would bias the length,
  but for every configuration fewer than half of the byte values are redrawn: it ends at the latest with the first byte of the random source that is
  at most 128, whatever came before it; and when the source then still gives the longest padding and a nonce, the packet is sealed.\<close>

theorem sealing_terminates:
  assumes "codec_ok c" "known_type ty" "length payload \<le> maxInnerPacket" "length payload \<le> 65535"
    and "unat (b :: byte) \<le> 128" "nat (paddingMax c) + gcmNonceSize \<le> length rest"
  shows "(\<exists>n left. randomPaddingLength c (pre @ b # rest) = Some (n, left) \<and> int n \<le> paddingMax c)
    \<and> (\<exists>packet left. sealType cr c (pre @ b # rest) ty payload = (Inr packet, left))"
proof -
  obtain n left where n: "randomPaddingLength c (pre @ b # rest) = Some (n, left)" "int n \<le> paddingMax c" "length rest \<le> length left"
    using randomPaddingLength_ends [OF assms(1,5)] by blast
  then have "n + gcmNonceSize \<le> length left" using assms(6) by linarith
  then show ?thesis using n assms(2-4) by (simp add: sealType_def ReadFull_def Let_def)
qed

theorem sealing_terminates_witness:
  "\<exists>packet left. sealType toy_crypto toy_rx ([255, 250, 254] @ 128 # replicate 43 0) packetData [42] = (Inr packet, left)"
  using sealing_terminates [of toy_rx packetData "[42]" 128 "replicate 43 0" "[255, 250, 254]" toy_crypto]
  by (simp add: toy_rx_def codec_ok_def known_type_def codec_consts)

section \<open>Replay protection\<close>

text \<open>C17. The 64-packet replay window refines the set of accepted sequence numbers: whatever numbers arrive
  in whatever order on a fresh window, no number is accepted twice, and afterwards a number is accepted
  exactly when it is not zero, was not accepted before and is less than 64 below the highest one.\<close>

theorem replay_window_refines:
  assumes "recvHigh p = 0" and "accepted qs p = (acc, p')"
  shows "distinct acc \<and>
    (\<forall>q. fst (acceptSequenceLocked q p') \<longleftrightarrow> q \<noteq> 0 \<and> q \<notin> set acc \<and> unat (recvHigh p') < unat q + 64)"
proof -
  have "replay.run qs p = (acc, p')" using assms(2) by (simp add: accepted_run)
  then have "distinct acc" "window_tracks p' (set acc)"
    using replay.run_distinct [OF fresh_window [OF assms(1)]] by auto
  then show ?thesis using accept_iff [of p' "set acc"] by (simp add: window_spec_def)
qed

theorem replay_window_refines_witness:
  "distinct (fst (accepted [5, 7, 5, 100, 6, 40] toy_peer)) \<and> recvHigh toy_peer = 0"
proof -
  have h: "recvHigh toy_peer = 0" by (simp add: toy_peer_def fresh_peer_def)
  obtain acc p' where "accepted [5, 7, 5, 100, 6, 40] toy_peer = (acc, p')" by fastforce
  with replay_window_refines [OF h this] h show ?thesis by simp
qed

text \<open>C1. No data packet is delivered twice in a session: once \<^verbatim>\<open>runReceive\<close> has handed the payload of a
  packet to the data handler, the same packet is never handed over for that peer again, from any address,
  as long as the peer's remote epoch stays the same, whatever other datagrams, ticks, sends and
  reconciliations happen in between.\<close>

theorem no_replay:
  assumes "mesh_ok m0" and "receive env packet addr now rnd m0 = (r1, m1, evs1)"
    and "Delivered k payload \<in> set evs1" and "(same_session_step env k)\<^sup>*\<^sup>* m1 m2"
    and "receive env packet addr2 now2 rnd2 m2 = (r3, m3, evs3)"
  shows "Delivered k payload2 \<notin> set evs3"
proof -
  have "mesh_ok m1" using receive_ok [OF assms(1,2)] by blast
  moreover have "consumed (env_crypto env) packet k m1" using delivered_consumed [OF assms(1-3)] by blast
  ultimately have "mesh_ok m2 \<and> consumed (env_crypto env) packet k m2"
    using session_run_consumed [OF assms(4)] by blast
  then show ?thesis using consumed_not_delivered assms(5) by blast
qed

theorem no_replay_witness:
  "snd (snd (receive toy_env (toy_sealed packetData toy_envelope) toy_addr toy_time [] toy_mesh))
     = [Delivered ''b'' [42]] \<and>
   Delivered ''b'' [42] \<notin> set (snd (snd (receive toy_env (toy_sealed packetData toy_envelope) toy_addr toy_time []
     (fst (snd (receive toy_env (toy_sealed packetData toy_envelope) toy_addr toy_time [] toy_mesh))))))"
proof -
  let ?m = "fst (snd (receive toy_env (toy_sealed packetData toy_envelope) toy_addr toy_time [] toy_mesh))"
  obtain r m e where r: "receive toy_env (toy_sealed packetData toy_envelope) toy_addr toy_time [] ?m = (r, m, e)"
    by (metis prod_cases3)
  have first: "receive toy_env (toy_sealed packetData toy_envelope) toy_addr toy_time [] toy_mesh
      = ([], ?m, [Delivered ''b'' [42]])" by (simp add: toy_receive)
  have "Delivered ''b'' [42] \<notin> set e"
    by (rule no_replay [OF toy_mesh_ok first _ rtranclp.rtrancl_refl r]) simp
  moreover have "snd (snd (receive toy_env (toy_sealed packetData toy_envelope) toy_addr toy_time [] toy_mesh))
      = [Delivered ''b'' [42]]" by (subst first) simp
  ultimately show ?thesis using r by simp
qed

text \<open>C25. A remote session epoch is learned only by challenge and response: if handling a datagram changes
  the epoch stored for a peer, the datagram is a probe reply under that peer's key which echoes a token
  this Node has outstanding for that very peer and source address, and the new epoch is the one it names.
  In particular data packets and probe requests, fresh or replayed, never do.\<close>

theorem epoch_only_by_challenge:
  assumes "mesh_ok m" and "receive env packet addr now rnd m = (rnd', m', evs)"
    and "remote_epoch m' k \<noteq> remote_epoch m k"
  shows "\<exists>e. remote_epoch m' k = Some e \<and> answers_challenge (env_crypto env) m k packet addr e"
  using receive_epoch [OF assms] .

theorem epoch_only_by_challenge_witness:
  "\<exists>m' e. mesh_ok (toy_challenged (replicate 32 3)) \<and>
     remote_epoch m' ''b'' = Some e \<and> remote_epoch m' ''b'' \<noteq> remote_epoch (toy_challenged (replicate 32 3)) ''b'' \<and>
     answers_challenge (env_crypto toy_env) (toy_challenged (replicate 32 3)) ''b''
       (toy_sealed packetProbeReply (replicate 32 3 @ replicate 16 8)) toy_addr e"
proof -
  let ?m = "toy_challenged (replicate 32 3)"
  let ?packet = "toy_sealed packetProbeReply (replicate 32 3 @ replicate 16 8)"
  obtain r m' evs where rc: "receive toy_env ?packet toy_addr toy_time [] ?m = (r, m', evs)"
    by (metis prod_cases3)
  have "match_peer (env_crypto toy_env) ?packet (peerSnapshot ?m)
      = Some (''b'', toy_peer, packetProbeReply, replicate 32 3 @ replicate 16 8)"
    by (rule toy_match) (simp_all add: known_type_def toy_challenged_def toy_mesh_def toy_peer_def fresh_peer_def)
  then have "m' = on_probe_reply ''b'' toy_peer (replicate 32 3 @ replicate 16 8) toy_addr toy_time ?m"
    using rc by (simp add: receive_def packet_kinds packetProbe_def packetProbeReply_def)
  then have "remote_epoch m' ''b'' \<noteq> remote_epoch ?m ''b''"
    by (simp add: on_probe_reply_def toy_challenged_def remote_epoch_def toy_mesh_def map_of_update_peer
        confirmRemoteEpoch_def setAddress_def recordProbe_def toy_peer_def fresh_peer_def toy_link_def)
  with epoch_only_by_challenge [OF toy_challenged_ok rc this] toy_challenged_ok show ?thesis by metis
qed

text \<open>An authenticated but replayable probe request cannot move the endpoint or touch the session: it
  changes, of all peers, at most the loss samples (and those only when sending the challenge fails).\<close>

theorem probe_request_inert:
  assumes "mesh_ok m" and "match_peer (env_crypto env) packet (peerSnapshot m) = Some (k, p, packetProbe, plain)"
    and "receive env packet addr now rnd m = (rnd', m', evs)"
  shows "\<forall>j. rel_option only_samples (map_of (mesh_peers m) j) (map_of (mesh_peers m') j)"
proof -
  have "on_probe env k p plain addr now rnd m = (rnd', m', evs)"
    using assms(2,3) by (simp add: receive_def IsProbe_def)
  then show ?thesis using on_probe_ok [OF assms(1)] unfolding peers_sampled_def by blast
qed

theorem probe_request_inert_witness:
  "\<exists>m'. fst (snd (receive toy_env (toy_sealed packetProbe (replicate 32 9)) toy_addr toy_time (replicate 64 0) toy_mesh)) = m' \<and>
    (\<forall>j. rel_option only_samples (map_of (mesh_peers toy_mesh) j) (map_of (mesh_peers m') j))"
proof -
  have m: "match_peer (env_crypto toy_env) (toy_sealed packetProbe (replicate 32 9)) (peerSnapshot toy_mesh)
      = Some (''b'', toy_peer, packetProbe, replicate 32 9)"
    by (rule toy_match) (simp_all add: known_type_def toy_mesh_def toy_peer_def fresh_peer_def)
  obtain r m' e where
    "receive toy_env (toy_sealed packetProbe (replicate 32 9)) toy_addr toy_time (replicate 64 0) toy_mesh = (r, m', e)"
    by (metis prod_cases3)
  with probe_request_inert [OF toy_mesh_ok m this] show ?thesis by simp
qed

section \<open>Invariant and session exchange\<close>

text \<open>In every state the mesh can reach from its creation by reconciling, sending, receiving and
  probing, each peer is stored under its own identifier with well-formed epochs, codecs, at most twenty
  samples and a consistent replay window, and no peer has two outstanding challenges.\<close>

theorem mesh_invariant:
  assumes "mesh_reachable env m"
  shows "mesh_ok m"
  using mesh_reachable_ok [OF assms] .

theorem mesh_invariant_witness:
  "mesh_ok \<lparr>mesh_localNodeID = ''a'', mesh_peers = [], mesh_pending = []\<rparr>"
  by (rule mesh_invariant [of toy_env], rule mesh_reachable.reach_new [of "\<lambda>_. True" "''a''" 0])
    (simp add: NewMesh_def)

text \<open>Two peers that have learned each other's epochs exchange data: what one wraps with
  \<^verbatim>\<open>dataEnvelope\<close> the other unwraps to the same payload, exactly when its window accepts the sequence number.\<close>

theorem session_roundtrip:
  assumes "dataEnvelope payload a = (Inr raw, a')" and "payload \<noteq> []" and "peer_ok a"
    and "remoteEpoch b = localEpoch a" and "localEpoch b = remoteEpoch a" and "sessionReady b"
  shows "fst (acceptDataEnvelope raw b) =
    (if fst (acceptSequenceLocked (sendSeq a + 1) b) then Some payload else None)"
  using acceptDataEnvelope_dataEnvelope [OF assms(1,2) _ _ assms(4-6)] assms(3)
  by (simp add: peer_ok_def Let_def split: prod.splits)

theorem session_roundtrip_witness:
  "fst (acceptDataEnvelope (replicate 16 1 @ replicate 16 2 @ be_encode 8 1 @ [42])
     (toy_peer\<lparr>localEpoch := replicate 16 2, remoteEpoch := replicate 16 1\<rparr>)) = Some [42]"
proof -
  let ?b = "toy_peer\<lparr>localEpoch := replicate 16 2, remoteEpoch := replicate 16 1\<rparr>"
  have ep: "localEpoch toy_peer = replicate 16 1" "remoteEpoch toy_peer = replicate 16 2" "sendSeq toy_peer = 0"
    "recvHigh toy_peer = 0"
    by (simp_all add: toy_peer_def fresh_peer_def)
  have nz: "replicate 16 (2 :: byte) \<noteq> zero_epoch" "replicate 16 (1 :: byte) \<noteq> zero_epoch"
    by (simp_all add: zero_epoch_def)
  have "dataEnvelope [42] toy_peer =
      (Inr (replicate 16 1 @ replicate 16 2 @ be_encode 8 1 @ [42]), toy_peer\<lparr>sendSeq := 1\<rparr>)"
    using nz by (simp add: dataEnvelope_def nextSequence_def ep)
  from session_roundtrip [OF this _ toy_peer_ok, of ?b] show ?thesis
    using nz by (simp add: ep sessionReady_def acceptSequenceLocked_def)
qed

text \<open>When \<^verbatim>\<open>CanSend\<close> says a peer is usable, \<^verbatim>\<open>Send\<close> cannot fail for want of a peer, an endpoint or an
  authenticated session; what is left are the exhausted sequence counter, the codec and the socket.\<close>

theorem CanSend_sound:
  assumes "CanSend m k now" and "mesh_Send env k payload rnd m = (Some e, rnd', m', evs)"
  shows "e = SessionFailed SequenceExhausted \<or> (\<exists>c. e = SealFailed c) \<or> e = SendFailed k"
  using assms
  by (auto simp: CanSend_def mesh_Send_def sessionReady_def dataEnvelope_def nextSequence_def Let_def
      split: option.splits prod.splits sum.splits if_splits)

theorem CanSend_sound_witness:
  "CanSend toy_mesh ''b'' toy_time \<and>
   (\<exists>e. fst (mesh_Send toy_env ''b'' [42] [] toy_mesh) = Some e \<and>
     (e = SessionFailed SequenceExhausted \<or> (\<exists>c. e = SealFailed c) \<or> e = SendFailed ''b''))"
proof -
  have ep: "remoteEpoch toy_peer \<noteq> zero_epoch" "peer_addr toy_peer = Some toy_addr" "sendSeq toy_peer = 0"
    by (simp_all add: toy_peer_def fresh_peer_def zero_epoch_def)
  have can: "CanSend toy_mesh ''b'' toy_time"
    using ep by (simp add: CanSend_def toy_mesh_def sessionReady_def peer_status_def link_health_def toy_peer_def
        fresh_peer_def toy_time_def is_zero_def time_sub_def linkFailAfter_def sat_duration_def)
  have "Seal toy_crypto toy_tx [] x = (Inl RandomFailed, [])" if "length x = 41" for x
    using that by (simp add: Seal_def sealType_def known_type_def codec_consts randomPaddingLength_def toy_tx_def)
  then have "fst (mesh_Send toy_env ''b'' [42] [] toy_mesh) = Some (SealFailed RandomFailed)"
    using ep by (simp add: mesh_Send_def toy_mesh_def dataEnvelope_def nextSequence_def toy_env_def)
      (simp add: toy_peer_def fresh_peer_def)
  moreover obtain r m' evs where "mesh_Send toy_env ''b'' [42] [] toy_mesh
      = (fst (mesh_Send toy_env ''b'' [42] [] toy_mesh), r, m', evs)"
    by (metis prod.collapse)
  ultimately show ?thesis using can CanSend_sound [OF can] by metis
qed

text \<open>Reconciling a configuration keeps the sessions it can keep: a link whose identifier and key are
  unchanged keeps its keys, both epochs and its replay window under the new configuration, a link that is
  gone has no peer, every other peer starts without a session; and when reconciliation fails, all peers
  stay with their keys, epochs and windows.\<close>

theorem Reconcile_keeps_sessions:
  assumes "mesh_ok m" and "distinct (map link_PeerNodeID links)"
    and "Reconcile env links now rnd m = (e, rnd', m')"
  shows "case e of
      Some _ \<Rightarrow> peers_keep m m'
    | None \<Rightarrow>
        dom (map_of (mesh_peers m')) = link_PeerNodeID ` set links \<and>
        (\<forall>l p psk. l \<in> set links \<and> map_of (mesh_peers m) (link_PeerNodeID l) = Some p \<and>
           link_ID (peer_config p) = link_ID l \<and> PSKBytes l = Inr psk \<and>
           peer_fingerprint p = sha256_sum (env_crypto env) psk \<longrightarrow>
           (\<exists>p'. map_of (mesh_peers m') (link_PeerNodeID l) = Some p' \<and> keeps p p' \<and> peer_config p' = l))"
proof -
  obtain e1 rnd1 m1 np where l: "reconcile_links env now links rnd m [] = (e1, rnd1, m1, np)"
    by (metis prod_cases4)
  have keep: "peers_keep m m1"
    using reconcile_links_ok [OF l assms(1)] by (simp add: new_ok_def)
  show ?thesis
  proof (cases e1)
    case (Some x)
    then show ?thesis using assms(3) l keep by (auto simp: Reconcile_def)
  next
    case None
    define g where "g = (\<lambda>k c. case c of Some p \<Rightarrow> p | None \<Rightarrow> the (map_of (mesh_peers m1) k))"
    have e: "e = None" and m': "mesh_peers m' = map (\<lambda>(k, c). (k, g k c)) np"
      using assms(3) l None by (auto simp: Reconcile_def g_def)
    have look: "map_of (mesh_peers m') k = map_option (g k) (map_of np k)" for k
      unfolding m' by (induction np) auto
    have "dom (map_of (mesh_peers m')) = link_PeerNodeID ` set links"
      using reconcile_links_dom [OF l [unfolded None]] by (auto simp: look dom_def)
    moreover have "\<exists>p'. map_of (mesh_peers m') (link_PeerNodeID l) = Some p' \<and> keeps p p' \<and> peer_config p' = l"
      if "l \<in> set links" "map_of (mesh_peers m) (link_PeerNodeID l) = Some p"
        "link_ID (peer_config p) = link_ID l" "PSKBytes l = Inr psk"
        "peer_fingerprint p = sha256_sum (env_crypto env) psk" for l p psk
      using reconcile_links_retains [OF \<open>reconcile_links env now links rnd m [] = _\<close> [unfolded None] assms(2) that]
      by (auto simp: look g_def)
    ultimately show ?thesis by (simp add: e)
  qed
qed

theorem Reconcile_keeps_sessions_witness:
  "dom (map_of (mesh_peers (snd (snd (Reconcile toy_env [toy_link ''b''] toy_time (replicate 16 6) toy_mesh))))) = {''b''}"
proof -
  obtain e r m' where rc: "Reconcile toy_env [toy_link ''b''] toy_time (replicate 16 6) toy_mesh = (e, r, m')"
    by (metis prod_cases3)
  have "e = None"
    using rc toy_link_Validate toy_makePeer
    by (auto simp: Reconcile_def toy_mesh_def Let_def split: if_splits)
  then show ?thesis
    using Reconcile_keeps_sessions [OF toy_mesh_ok _ rc] unfolding rc by (simp add: toy_link_def)
qed

end
