(* ===== verification/RoutedFrame.thy ===== *)
theory RoutedFrame
  imports RoutedConfig
begin

text \<open>
  \<^verbatim>\<open>internal/routed/frame.go\<close>: the frame that carries an IPv4 packet from hop to hop, its wire format,
  and the check a Node makes on every frame it receives. The decoder reads an untrusted byte slice with
  explicit offsets; every index and slice expression is bounds-checked here, a violation is \<open>Panic\<close>.
\<close>

section \<open>Frames\<close>

record frame =
  PathID :: string
  OwnerNodeID :: string
  Hops :: "string list"
  HopIndex :: int
  Return :: bool
  Payload :: "byte list"

datatype frame_error =
    Panic
  | InvalidPathIDLength
  | InvalidOwnerID
  | InvalidHopCount nat
  | InvalidHopIndex int
  | InvalidHopID
  | LoopInHops
  | ReturnNotFromOwner
  | ForwardNotToOwner
  | InvalidInnerLength nat
  | InvalidHeader
  | InvalidFramePathID
  | InvalidFrameOwner
  | InvalidFrameHopCount
  | TruncatedHop
  | InvalidFrameHop
  | TruncatedPayloadLength
  | InvalidPayloadLength
  | UnsupportedFlags
  | NotIPv4
  | InvalidHeaderLength
  | InvalidTotalLength
  | NotLocalHop
  | WrongPreviousHop
  | PathNotApproved string
  | PathOwnerMismatch
  | HopListMismatch
  | OverlayUnavailable
  | ReturnOutsideOverlay
  | ReturnOutsideRoute
  | ForwardOutsideOverlay
  | ForwardOutsideRoute
  | RouteOwnerFailed

fun check_hop_ids :: "string list \<Rightarrow> string list \<Rightarrow> frame_error option" where
  "check_hop_ids seen [] = None"
| "check_hop_ids seen (hop # hs) =
     (if length hop = 0 \<or> 128 < length hop then Some InvalidHopID
      else if hop \<in> set seen then Some LoopInHops
      else check_hop_ids (hop # seen) hs)"

definition ValidateBasic :: "frame \<Rightarrow> frame_error option" where
  "ValidateBasic f =
     (if length (PathID f) = 0 \<or> 64 < length (PathID f) then Some InvalidPathIDLength
      else if length (OwnerNodeID f) = 0 \<or> 128 < length (OwnerNodeID f) then Some InvalidOwnerID
      else if length (Hops f) < 2 \<or> MaxPathHops < length (Hops f)
        then Some (InvalidHopCount (length (Hops f)))
      else if HopIndex f \<le> 0 \<or> int (length (Hops f)) \<le> HopIndex f
        then Some (InvalidHopIndex (HopIndex f))
      else case check_hop_ids [] (Hops f) of
             Some e \<Rightarrow> Some e
           | None \<Rightarrow>
               if Return f \<and> hd (Hops f) \<noteq> OwnerNodeID f then Some ReturnNotFromOwner
               else if \<not> Return f \<and> last (Hops f) \<noteq> OwnerNodeID f then Some ForwardNotToOwner
               else if length (Payload f) = 0 \<or> 65535 < length (Payload f)
                 then Some (InvalidInnerLength (length (Payload f)))
               else None)"

section \<open>Wire format\<close>

definition frameMagic :: "byte list" where
  "frameMagic = [66, 80, 82, 49]"

definition lv :: "string \<Rightarrow> byte list" where
  "lv s = word_of_nat (length s) # bytes_of s"

definition MarshalFrame :: "frame \<Rightarrow> frame_error + byte list" where
  "MarshalFrame f =
     (case ValidateBasic f of
        Some e \<Rightarrow> Inl e
      | None \<Rightarrow>
          let flags = (if Return f then 1 else 0)
          in Inr (frameMagic
                  @ [flags, word_of_int (HopIndex f), word_of_nat (length (Hops f)),
                     word_of_nat (length (PathID f))]
                  @ bytes_of (PathID f)
                  @ [word_of_nat (length (OwnerNodeID f))]
                  @ bytes_of (OwnerNodeID f)
                  @ concat (map lv (Hops f))
                  @ be_encode 2 (length (Payload f))
                  @ Payload f))"

text \<open>The loop over the hop list: \<open>n\<close> hops are left, \<open>hops\<close> are the ones read.\<close>

fun read_hops ::
  "byte list \<Rightarrow> nat \<Rightarrow> nat \<Rightarrow> string list \<Rightarrow> frame_error + (string list \<times> nat)" where
  "read_hops raw 0 offset hops = Inr (hops, offset)"
| "read_hops raw (Suc n) offset hops =
     (if length raw \<le> offset then Inl TruncatedHop
      else case index_at raw offset of
             None \<Rightarrow> Inl Panic
           | Some l \<Rightarrow>
               (let len = unat l; offset = offset + 1
                in if len = 0 \<or> 128 < len \<or> length raw < offset + len then Inl InvalidFrameHop
                   else case subslice raw offset (offset + len) of
                          None \<Rightarrow> Inl Panic
                        | Some h \<Rightarrow> read_hops raw n (offset + len) (hops @ [string_of h])))"

text \<open>The part after the owner: the hops, the payload length and the payload.\<close>

definition read_tail ::
  "byte list \<Rightarrow> byte \<Rightarrow> nat \<Rightarrow> nat \<Rightarrow> string \<Rightarrow> string \<Rightarrow> nat \<Rightarrow> frame_error + frame" where
  "read_tail raw flags hopIndex hopCount pathID owner offset =
     (if hopCount < 2 \<or> MaxPathHops < hopCount then Inl InvalidFrameHopCount
      else case read_hops raw hopCount offset [] of
             Inl e \<Rightarrow> Inl e
           | Inr (hops, offset) \<Rightarrow>
               if length raw < offset + 2 then Inl TruncatedPayloadLength
               else case subslice raw offset (offset + 2) of
                      None \<Rightarrow> Inl Panic
                    | Some pl \<Rightarrow>
                        (let payloadLen = be_decode pl; offset = offset + 2
                         in if payloadLen = 0 \<or> offset + payloadLen \<noteq> length raw
                              then Inl InvalidPayloadLength
                            else let f = \<lparr>PathID = pathID, OwnerNodeID = owner, Hops = hops,
                                          HopIndex = int hopIndex, Return = (flags AND 1 \<noteq> 0),
                                          Payload = drop offset raw\<rparr>
                                 in if flags AND NOT 1 \<noteq> 0 then Inl UnsupportedFlags
                                    else case ValidateBasic f of Some e \<Rightarrow> Inl e | None \<Rightarrow> Inr f))"

definition UnmarshalFrame :: "byte list \<Rightarrow> frame_error + frame" where
  "UnmarshalFrame raw =
     (if length raw < 12 \<or> take 4 raw \<noteq> frameMagic then Inl InvalidHeader
      else case (index_at raw 4, index_at raw 5, index_at raw 6, index_at raw 7) of
             (Some flags, Some hopIndex, Some hopCount, Some pl) \<Rightarrow>
               (let pathLen = unat pl
                in if pathLen = 0 \<or> 64 < pathLen \<or> length raw < 8 + pathLen + 1
                     then Inl InvalidFramePathID
                   else case (subslice raw 8 (8 + pathLen), index_at raw (8 + pathLen)) of
                          (Some pathID, Some ol) \<Rightarrow>
                            (let ownerLen = unat ol; offset = 8 + pathLen + 1
                             in if ownerLen = 0 \<or> 128 < ownerLen \<or> length raw < offset + ownerLen
                                  then Inl InvalidFrameOwner
                                else case subslice raw offset (offset + ownerLen) of
                                       None \<Rightarrow> Inl Panic
                                     | Some owner \<Rightarrow>
                                         read_tail raw flags (unat hopIndex) (unat hopCount)
                                           (string_of pathID) (string_of owner) (offset + ownerLen))
                        | _ \<Rightarrow> Inl Panic)
           | _ \<Rightarrow> Inl Panic)"

section \<open>Helpers of the receive check\<close>

definition reverseStrings :: "string list \<Rightarrow> string list" where
  "reverseStrings values = map (\<lambda>i. values ! (length values - 1 - i)) [0..<length values]"

definition equalStrings :: "string list \<Rightarrow> string list \<Rightarrow> bool" where
  "equalStrings left right \<longleftrightarrow>
     length left = length right \<and> list_all (\<lambda>i. left ! i = right ! i) [0..<length left]"

definition ParseIPv4Endpoints :: "byte list \<Rightarrow> frame_error + (addr \<times> addr)" where
  "ParseIPv4Endpoints packet =
     (if length packet < 20 then Inl NotIPv4
      else case index_at packet 0 of
             None \<Rightarrow> Inl Panic
           | Some b0 \<Rightarrow>
               if drop_bit 4 b0 \<noteq> 4 then Inl NotIPv4
               else let headerLen = unat (b0 AND 15) * 4
                    in if headerLen < 20 \<or> length packet < headerLen then Inl InvalidHeaderLength
                       else case subslice packet 2 4 of
                              None \<Rightarrow> Inl Panic
                            | Some tot \<Rightarrow>
                                (let totalLen = be_decode tot
                                 in if totalLen < headerLen \<or> length packet < totalLen
                                      then Inl InvalidTotalLength
                                    else case (subslice packet 12 16, subslice packet 16 20) of
                                           (Some s, Some d) \<Rightarrow> Inr (AddrFrom4 s, AddrFrom4 d)
                                         | _ \<Rightarrow> Inl Panic))"

definition ValidateFrameForNode ::
  "frame \<Rightarrow> string \<Rightarrow> string \<Rightarrow> routing_config \<Rightarrow> frame_error + path" where
  "ValidateFrameForNode f localNodeID senderPeerID config =
     (case ValidateBasic f of
        Some e \<Rightarrow> Inl e
      | None \<Rightarrow>
          if Hops f ! nat (HopIndex f) \<noteq> localNodeID then Inl NotLocalHop
          else if Hops f ! nat (HopIndex f - 1) \<noteq> senderPeerID then Inl WrongPreviousHop
          else case TransitPath config (PathID f) of
                 None \<Rightarrow> Inl (PathNotApproved (PathID f))
               | Some p \<Rightarrow>
                   if path_OwnerNodeID p \<noteq> OwnerNodeID f then Inl PathOwnerMismatch
                   else let expectedHops =
                              (if Return f then reverseStrings (path_Hops p) else path_Hops p)
                   in if \<not> equalStrings (Hops f) expectedHops then Inl HopListMismatch
                   else case ParseIPv4Endpoints (Payload f) of
                          Inl e \<Rightarrow> Inl e
                        | Inr (src, dst) \<Rightarrow>
                            if Return f then
                              (if trim_space (OverlaySubnet config) = [] then Inl OverlayUnavailable
                               else if (case ParsePrefix (OverlaySubnet config) of
                                          None \<Rightarrow> True | Some overlay \<Rightarrow> \<not> Contains overlay dst)
                                 then Inl ReturnOutsideOverlay
                               else if (case RouteFor config src of
                                          None \<Rightarrow> True
                                        | Some owned \<Rightarrow>
                                            route_OwnerNodeID owned \<noteq> OwnerNodeID f \<or>
                                            route_CIDR owned \<noteq> path_CIDR p)
                                 then Inl ReturnOutsideRoute
                               else Inr p)
                            else if (case ParsePrefix (OverlaySubnet config) of
                                       None \<Rightarrow> True | Some overlay \<Rightarrow> \<not> Contains overlay src)
                              then Inl ForwardOutsideOverlay
                            else if (case ParsePrefix (path_CIDR p) of
                                       None \<Rightarrow> True | Some pr \<Rightarrow> \<not> Contains pr dst)
                              then Inl ForwardOutsideRoute
                            else if (case RouteFor config dst of
                                       None \<Rightarrow> True
                                     | Some r \<Rightarrow>
                                         route_OwnerNodeID r \<noteq> OwnerNodeID f \<or>
                                         route_CIDR r \<noteq> path_CIDR p)
                              then Inl RouteOwnerFailed
                            else Inr p)"

section \<open>Well-formed frames\<close>

lemma check_hop_ids_None:
  "check_hop_ids seen hs = None \<longleftrightarrow>
     (\<forall>h\<in>set hs. 0 < length h \<and> length h \<le> 128) \<and> distinct hs \<and> set hs \<inter> set seen = {}"
  by (induction hs arbitrary: seen) auto

definition frame_ok :: "frame \<Rightarrow> bool" where
  "frame_ok f \<longleftrightarrow>
     0 < length (PathID f) \<and> length (PathID f) \<le> 64 \<and>
     0 < length (OwnerNodeID f) \<and> length (OwnerNodeID f) \<le> 128 \<and>
     2 \<le> length (Hops f) \<and> length (Hops f) \<le> MaxPathHops \<and>
     0 < HopIndex f \<and> HopIndex f < int (length (Hops f)) \<and>
     (\<forall>h\<in>set (Hops f). 0 < length h \<and> length h \<le> 128) \<and> distinct (Hops f) \<and>
     (if Return f then hd (Hops f) = OwnerNodeID f else last (Hops f) = OwnerNodeID f) \<and>
     0 < length (Payload f) \<and> length (Payload f) \<le> 65535"

lemma ValidateBasic_None: "ValidateBasic f = None \<longleftrightarrow> frame_ok f"
proof
  assume "ValidateBasic f = None"
  then show "frame_ok f"
    by (auto simp: ValidateBasic_def frame_ok_def check_hop_ids_None not_le not_less
        split: if_splits option.splits)
next
  assume ok: "frame_ok f"
  then have "check_hop_ids [] (Hops f) = None"
    by (simp add: frame_ok_def check_hop_ids_None)
  with ok show "ValidateBasic f = None"
    by (auto simp: ValidateBasic_def frame_ok_def split: if_splits)
qed

section \<open>No out-of-range access on untrusted input\<close>

lemma ValidateBasic_no_panic: "ValidateBasic f \<noteq> Some Panic"
proof -
  have "check_hop_ids seen hs \<noteq> Some Panic" for seen hs
    by (induction hs arbitrary: seen) auto
  then show ?thesis
    by (auto simp: ValidateBasic_def split: option.splits if_splits)
qed

lemma read_hops_no_panic: "read_hops raw n offset hops \<noteq> Inl Panic"
  by (induction raw n offset hops rule: read_hops.induct) (auto simp: Let_def bounds_simps split: option.splits)

lemma read_tail_no_panic: "read_tail raw fl hi hc pid own offset \<noteq> Inl Panic"
  using read_hops_no_panic [of raw hc offset "[]"] ValidateBasic_no_panic
  by (auto simp: read_tail_def Let_def bounds_simps split: option.splits sum.splits)

lemma UnmarshalFrame_no_panic: "UnmarshalFrame raw \<noteq> Inl Panic"
  using read_tail_no_panic by (auto simp: UnmarshalFrame_def Let_def bounds_simps split: option.splits)

lemma ParseIPv4Endpoints_no_panic: "ParseIPv4Endpoints packet \<noteq> Inl Panic"
  by (auto simp: ParseIPv4Endpoints_def Let_def bounds_simps split: option.splits)

section \<open>Decoding what was encoded\<close>

lemma lv_byte: "length s \<le> 128 \<Longrightarrow> unat (word_of_nat (length s) :: byte) = length s"
  by (simp add: unat_of_nat)

lemma length_lv [simp]: "length (lv s) = Suc (length s)"
  by (simp add: lv_def)

lemma read_hops_encoded:
  assumes "\<forall>h\<in>set hs. 0 < length h \<and> length h \<le> 128"
    and "raw = pre @ concat (map lv hs) @ post" and "offset = length pre"
  shows "read_hops raw (length hs) offset acc =
    Inr (acc @ hs, offset + length (concat (map lv hs)))"
  using assms
proof (induction hs arbitrary: pre offset acc)
  case Nil
  then show ?case by simp
next
  case (Cons h hs)
  have raw: "raw = (pre @ lv h) @ concat (map lv hs) @ post"
    using Cons.prems(2) by simp
  have len: "unat (word_of_nat (length h) :: byte) = length h"
    using Cons.prems(1) by (simp add: lv_byte)
  have "index_at raw offset = Some (word_of_nat (length h))"
    using index_at_append_mid [of offset pre] Cons.prems(2,3) by (simp add: lv_def)
  moreover have "subslice raw (offset + 1) (offset + 1 + length h) = Some (bytes_of h)"
    using subslice_append_mid [of "offset + 1" "pre @ [word_of_nat (length h)]" _ "bytes_of h"]
      Cons.prems(2,3) by (simp add: lv_def)
  moreover have "read_hops raw (length hs) (offset + 1 + length h) (acc @ [h]) =
      Inr ((acc @ [h]) @ hs, offset + 1 + length h + length (concat (map lv hs)))"
    using Cons.prems by (intro Cons.IH [of "pre @ lv h"]) (auto simp: lv_def)
  moreover have "offset + 1 + length h \<le> length raw"
    using Cons.prems(2,3) by simp
  moreover have "0 < length h" and "length h \<le> 128" using Cons.prems(1) by auto
  ultimately show ?case by (simp add: len Let_def)
qed

lemma read_tail_encoded:
  assumes ok: "frame_ok f"
    and raw: "raw = pre @ concat (map lv (Hops f)) @ be_encode 2 (length (Payload f)) @ Payload f"
    and off: "offset = length pre"
    and hi: "int hi = HopIndex f"
  shows "read_tail raw (if Return f then 1 else 0) hi (length (Hops f)) (PathID f) (OwnerNodeID f) offset
    = Inr f"
proof -
  define off' where "off' = offset + length (concat (map lv (Hops f)))"
  have hops: "read_hops raw (length (Hops f)) offset [] = Inr (Hops f, off')"
    using read_hops_encoded [OF _ raw off, of "[]"] ok by (simp add: frame_ok_def off'_def)
  have sl: "subslice raw off' (off' + 2) = Some (be_encode 2 (length (Payload f)))"
    using subslice_append_mid [of off' "pre @ concat (map lv (Hops f))" "off' + 2"
        "be_encode 2 (length (Payload f))" "Payload f"] raw off by (simp add: off'_def)
  have len: "length raw = off' + 2 + length (Payload f)"
    and tail: "drop (off' + 2) raw = Payload f"
    using raw off by (auto simp: off'_def)
  have dec: "be_decode (be_encode 2 (length (Payload f))) = length (Payload f)"
    using ok by (simp add: be_decode_encode frame_ok_def)
  have eq: "\<lparr>PathID = PathID f, OwnerNodeID = OwnerNodeID f, Hops = Hops f, HopIndex = HopIndex f,
      Return = Return f, Payload = Payload f\<rparr> = f" by simp
  define fl :: byte where "fl = (if Return f then 1 else 0)"
  have fl: "(fl AND 1 \<noteq> 0) = Return f" "fl AND - 2 = 0" by (auto simp: fl_def)
  have cnt: "\<not> (length (Hops f) < 2 \<or> MaxPathHops < length (Hops f))"
    and pay: "0 < length (Payload f)" and vb: "ValidateBasic f = None"
    using ok by (auto simp: frame_ok_def ValidateBasic_None)
  show ?thesis
    unfolding fl_def [symmetric] using cnt pay vb
    by (simp add: fl read_tail_def hops sl len tail dec hi Let_def eq del: add_2_eq_Suc add_2_eq_Suc')
qed

lemma UnmarshalFrame_MarshalFrame:
  assumes "MarshalFrame f = Inr raw"
  shows "UnmarshalFrame raw = Inr f"
proof -
  have ok: "frame_ok f"
    using assms by (auto simp: MarshalFrame_def ValidateBasic_None split: option.splits)
  define fl :: byte where "fl = (if Return f then 1 else 0)"
  define pl ol :: byte where "pl = word_of_nat (length (PathID f))" and "ol = word_of_nat (length (OwnerNodeID f))"
  define body where "body = concat (map lv (Hops f)) @ be_encode 2 (length (Payload f)) @ Payload f"
  define hdr where "hdr = frameMagic @ [fl, word_of_int (HopIndex f), word_of_nat (length (Hops f)), pl]"
  have raw: "raw = hdr @ bytes_of (PathID f) @ [ol] @ bytes_of (OwnerNodeID f) @ body"
    using assms by (auto simp: MarshalFrame_def Let_def body_def hdr_def fl_def pl_def ol_def
        split: option.splits)
  have h8: "length hdr = 8" by (simp add: hdr_def frameMagic_def)
  have magic: "take 4 raw = frameMagic" by (simp add: raw hdr_def frameMagic_def)
  have bytes: "index_at raw 4 = Some fl" "index_at raw 5 = Some (word_of_int (HopIndex f))"
    "index_at raw 6 = Some (word_of_nat (length (Hops f)))" "index_at raw 7 = Some pl"
    by (simp_all add: raw hdr_def frameMagic_def index_at_def)
  have u: "unat pl = length (PathID f)" "unat ol = length (OwnerNodeID f)"
    using ok by (simp_all add: pl_def ol_def frame_ok_def unat_of_nat)
  have uh: "unat (word_of_nat (length (Hops f)) :: byte) = length (Hops f)"
    using ok by (simp add: frame_ok_def MaxPathHops_def unat_of_nat)
  have ui: "int (unat (word_of_int (HopIndex f) :: byte)) = HopIndex f"
  proof -
    have "0 \<le> HopIndex f" "HopIndex f < 2 ^ 8"
      using ok by (simp_all add: frame_ok_def MaxPathHops_def)
    then have "HopIndex f mod 2 ^ LENGTH(8) = HopIndex f"
      by (simp add: mod_pos_pos_trivial)
    then have "uint (word_of_int (HopIndex f) :: byte) = HopIndex f"
      by (simp only: uint_word_of_int)
    then show ?thesis by (simp only: uint_nat [symmetric])
  qed
  have pid: "subslice raw 8 (8 + length (PathID f)) = Some (bytes_of (PathID f))"
    using subslice_append_mid [of 8 hdr _ "bytes_of (PathID f)"] h8 by (simp add: raw)
  have ownl: "index_at raw (8 + length (PathID f)) = Some ol"
    using index_at_append_mid [of _ "hdr @ bytes_of (PathID f)"] h8 by (simp add: raw)
  have own: "subslice raw (8 + length (PathID f) + 1) (8 + length (PathID f) + 1 + length (OwnerNodeID f))
      = Some (bytes_of (OwnerNodeID f))"
    using subslice_append_mid [of _ "hdr @ bytes_of (PathID f) @ [ol]" _ "bytes_of (OwnerNodeID f)" body] h8
    by (simp add: raw)
  have len: "12 \<le> length raw" "8 + length (PathID f) + 1 + length (OwnerNodeID f) \<le> length raw"
  proof -
    have "Suc 0 \<le> length (Payload f)" "Suc 0 \<le> length (PathID f)"
      using ok by (simp_all add: frame_ok_def Suc_leI)
    then show "12 \<le> length raw" "8 + length (PathID f) + 1 + length (OwnerNodeID f) \<le> length raw"
      by (simp_all add: raw body_def h8)
  qed
  have tail: "read_tail raw fl (unat (word_of_int (HopIndex f) :: byte)) (length (Hops f)) (PathID f)
      (OwnerNodeID f) (8 + length (PathID f) + 1 + length (OwnerNodeID f)) = Inr f"
    unfolding fl_def
    by (rule read_tail_encoded [OF ok, where pre = "hdr @ bytes_of (PathID f) @ [ol] @ bytes_of (OwnerNodeID f)"])
      (simp_all add: raw body_def h8 ui [unfolded uint_nat [symmetric]])
  have b: "0 < length (PathID f)" "length (PathID f) \<le> 64" "0 < length (OwnerNodeID f)"
    "length (OwnerNodeID f) \<le> 128"
    using ok by (auto simp: frame_ok_def)
  show ?thesis
    using len b own tail by (simp add: UnmarshalFrame_def Let_def magic bytes pid ownl u uh)
qed

section \<open>Encoding what was decoded\<close>

text \<open>The decoder accepts only canonical encodings: re-encoding an accepted frame gives the same bytes.\<close>

lemma drop_split: "i \<le> j \<Longrightarrow> drop i xs = take (j - i) (drop i xs) @ drop j xs"
  by (metis append_take_drop_id drop_drop le_add_diff_inverse2)

lemma read_hops_decoded:
  assumes "read_hops raw n off acc = Inr (hs, off')" and "off \<le> length raw"
  shows "\<exists>hs'. hs = acc @ hs' \<and> length hs' = n \<and> off' \<le> length raw \<and>
    drop off raw = concat (map lv hs') @ drop off' raw \<and> off' = off + length (concat (map lv hs'))"
  using assms
proof (induction n arbitrary: off acc)
  case 0
  then show ?case by auto
next
  case (Suc n)
  define h where "h = take (unat (raw ! off)) (drop (off + 1) raw)"
  from Suc.prems have off: "off < length raw" and bnd: "off + 1 + unat (raw ! off) \<le> length raw"
    and rec: "read_hops raw n (off + 1 + unat (raw ! off)) (acc @ [string_of h]) = Inr (hs, off')"
    by (auto simp: Let_def bounds_simps h_def split: if_splits option.splits)
  obtain hs' where hs': "hs = (acc @ [string_of h]) @ hs'" "length hs' = n" "off' \<le> length raw"
    "drop (off + 1 + unat (raw ! off)) raw = concat (map lv hs') @ drop off' raw"
    "off' = off + 1 + unat (raw ! off) + length (concat (map lv hs'))"
    using Suc.IH [OF rec bnd] by blast
  have lh: "length h = unat (raw ! off)" using bnd by (simp add: h_def)
  have "drop off raw = raw ! off # drop (off + 1) raw"
    using off by (simp add: Cons_nth_drop_Suc)
  also have "drop (off + 1) raw = h @ drop (off + 1 + unat (raw ! off)) raw"
    using drop_split [of "off + 1" "off + 1 + unat (raw ! off)" raw] by (simp add: h_def)
  also have "raw ! off # h @ drop (off + 1 + unat (raw ! off)) raw
      = lv (string_of h) @ concat (map lv hs') @ drop off' raw"
    using hs'(4) by (simp add: lv_def lh)
  finally show ?case
    using hs' by (intro exI [of _ "string_of h # hs'"]) (simp add: lh)
qed

lemma flag_bits: "(x :: byte) AND NOT 1 = 0 \<Longrightarrow> x = (if x AND 1 \<noteq> 0 then 1 else 0)"
proof -
  assume "x AND NOT 1 = 0"
  then have "x = x AND 1"
    by (metis and.right_neutral bit.conj_disj_distrib bit.disj_cancel_right or.right_neutral or.commute)
  then show ?thesis
    by (metis and_one_eq odd_iff_mod_2_eq_one not_mod_2_eq_1_eq_0)
qed

lemma read_tail_decoded:
  assumes dec: "read_tail raw fl hi hc pid own off = Inr f" and le: "off \<le> length raw"
  shows "frame_ok f \<and> PathID f = pid \<and> OwnerNodeID f = own \<and> HopIndex f = int hi \<and>
    length (Hops f) = hc \<and> fl = (if Return f then 1 else 0) \<and>
    drop off raw = concat (map lv (Hops f)) @ be_encode 2 (length (Payload f)) @ Payload f"
proof -
  from dec obtain hs off' where hops: "read_hops raw hc off [] = Inr (hs, off')"
    by (auto simp: read_tail_def split: if_splits sum.splits)
  from read_hops_decoded [OF hops le] have hs: "length hs = hc" "off' \<le> length raw"
      "drop off raw = concat (map lv hs) @ drop off' raw"
    by auto
  define pl where "pl = take 2 (drop off' raw)"
  from dec have bnd: "off' + 2 \<le> length raw" and len: "off' + 2 + be_decode pl = length raw"
    and fl: "fl AND NOT 1 = 0" and vb: "ValidateBasic f = None"
    and f: "f = \<lparr>PathID = pid, OwnerNodeID = own, Hops = hs, HopIndex = int hi,
      Return = (fl AND 1 \<noteq> 0), Payload = drop (off' + 2) raw\<rparr>"
    by (auto simp: read_tail_def hops Let_def pl_def bounds_simps split: if_splits option.splits)
  have "drop off' raw = pl @ drop (off' + 2) raw"
    using drop_split [of off' "off' + 2" raw] by (simp add: pl_def)
  moreover have "pl = be_encode 2 (length (Payload f))"
  proof -
    have "length (Payload f) = be_decode pl" using len by (simp add: f)
    moreover have "length pl = 2" using bnd by (simp add: pl_def)
    ultimately show ?thesis by (simp only: be_encode_decode)
  qed
  ultimately show ?thesis
    using vb hs flag_bits [OF fl] by (simp add: f ValidateBasic_None)
qed

lemma MarshalFrame_UnmarshalFrame:
  assumes dec: "UnmarshalFrame raw = Inr f"
  shows "MarshalFrame f = Inr raw"
proof -
  define pl ol where "pl = unat (raw ! 7)" and "ol = unat (raw ! (8 + pl))"
  define pid own where "pid = take pl (drop 8 raw)" and "own = take ol (drop (8 + pl + 1) raw)"
  from dec have len: "12 \<le> length raw" and magic: "take 4 raw = frameMagic"
    and pl: "8 + pl + 1 + ol \<le> length raw"
    and tail: "read_tail raw (raw ! 4) (unat (raw ! 5)) (unat (raw ! 6)) (string_of pid) (string_of own)
      (8 + pl + 1 + ol) = Inr f"
    by (auto simp: UnmarshalFrame_def Let_def bounds_simps pl_def ol_def pid_def own_def
        split: if_splits option.splits)
  from read_tail_decoded [OF tail pl] have f: "frame_ok f" "string_of pid = PathID f"
      "string_of own = OwnerNodeID f" "raw ! 4 = (if Return f then 1 else 0)"
    and tl: "drop (8 + pl + 1 + ol) raw =
      concat (map lv (Hops f)) @ be_encode 2 (length (Payload f)) @ Payload f"
    and cnt: "HopIndex f = int (unat (raw ! 5))" "length (Hops f) = unat (raw ! 6)"
    by auto
  have lens: "length pid = pl" "length own = ol" using pl by (auto simp: pid_def own_def)
  have "drop 4 raw = [raw ! 4, raw ! 5, raw ! 6, raw ! 7] @ drop 8 raw"
    using len by (simp add: Cons_nth_drop_Suc [symmetric])
  moreover have "drop 8 raw = pid @ drop (8 + pl) raw"
    using drop_split [of 8 "8 + pl" raw] by (simp add: pid_def)
  moreover have "drop (8 + pl) raw = [raw ! (8 + pl)] @ drop (8 + pl + 1) raw"
    using Cons_nth_drop_Suc [of "8 + pl" raw] pl by simp
  moreover have "drop (8 + pl + 1) raw = own @ drop (8 + pl + 1 + ol) raw"
    using drop_split [of "8 + pl + 1" "8 + pl + 1 + ol" raw] by (simp add: own_def)
  ultimately have "raw = frameMagic @ [raw ! 4, raw ! 5, raw ! 6, raw ! 7] @ pid @ [raw ! (8 + pl)] @ own
      @ drop (8 + pl + 1 + ol) raw"
    by (metis append_assoc append_take_drop_id magic)
  moreover have "pid = bytes_of (PathID f)" "own = bytes_of (OwnerNodeID f)"
    by (simp_all flip: f(2,3))
  moreover have "raw ! 7 = word_of_nat (length (PathID f))" "raw ! (8 + pl) = word_of_nat (length (OwnerNodeID f))"
    "raw ! 6 = word_of_nat (length (Hops f))" "raw ! 5 = word_of_int (HopIndex f)"
    by (simp_all add: cnt lens pl_def ol_def flip: f(2,3))
  ultimately have "frameMagic @ [if Return f then 1 else 0, word_of_int (HopIndex f),
      word_of_nat (length (Hops f)), word_of_nat (length (PathID f))] @ bytes_of (PathID f)
      @ [word_of_nat (length (OwnerNodeID f))] @ bytes_of (OwnerNodeID f)
      @ concat (map lv (Hops f)) @ be_encode 2 (length (Payload f)) @ Payload f = raw"
    by (simp only: f(4) tl)
  then show ?thesis
    using f(1) by (simp add: MarshalFrame_def Let_def ValidateBasic_None [THEN iffD2])
qed

section \<open>The receive check\<close>

lemma reverseStrings_rev [simp]: "reverseStrings xs = rev xs"
  by (rule nth_equalityI) (simp_all add: reverseStrings_def rev_nth)

lemma equalStrings_iff [simp]: "equalStrings xs ys \<longleftrightarrow> xs = ys"
  by (auto simp: equalStrings_def list_all_iff intro: nth_equalityI)

text \<open>What an accepted frame satisfies: it is well formed, this Node is the hop it names and the
  authenticated sender the hop before it, its hop list is the approved path (reversed on the way back),
  and the addresses of the carried packet stay inside the overlay and the owner's route.\<close>

definition frame_on_path :: "frame \<Rightarrow> path \<Rightarrow> bool" where
  "frame_on_path f p \<longleftrightarrow>
     PathID f = path_ID p \<and> OwnerNodeID f = path_OwnerNodeID p \<and>
     Hops f = (if Return f then rev (path_Hops p) else path_Hops p)"

definition owner_side :: "frame \<Rightarrow> addr \<times> addr \<Rightarrow> addr" where
  "owner_side f sd = (if Return f then fst sd else snd sd)"

definition overlay_side :: "frame \<Rightarrow> addr \<times> addr \<Rightarrow> addr" where
  "overlay_side f sd = (if Return f then snd sd else fst sd)"

definition frame_authorized :: "routing_config \<Rightarrow> frame \<Rightarrow> path \<Rightarrow> bool" where
  "frame_authorized config f p \<longleftrightarrow>
     (\<exists>sd overlay r. ParseIPv4Endpoints (Payload f) = Inr sd \<and>
        ParsePrefix (OverlaySubnet config) = Some overlay \<and> Contains overlay (overlay_side f sd) \<and>
        RouteFor config (owner_side f sd) = Some r \<and>
        route_OwnerNodeID r = OwnerNodeID f \<and> route_CIDR r = path_CIDR p)"

lemma ValidateFrameForNode_sound:
  assumes "ValidateFrameForNode f localNodeID senderPeerID config = Inr p"
  shows "frame_ok f \<and> Hops f ! nat (HopIndex f) = localNodeID \<and>
    Hops f ! nat (HopIndex f - 1) = senderPeerID \<and>
    p \<in> set (TransitPaths config) \<and> frame_on_path f p \<and> frame_authorized config f p"
proof -
  from assms have ok: "ValidateBasic f = None"
    by (auto simp: ValidateFrameForNode_def split: option.splits)
  from assms have hop: "Hops f ! nat (HopIndex f) = localNodeID" "Hops f ! nat (HopIndex f - 1) = senderPeerID"
    and tp: "TransitPath config (PathID f) = Some p"
    and own: "path_OwnerNodeID p = OwnerNodeID f"
    and hops: "Hops f = (if Return f then rev (path_Hops p) else path_Hops p)"
    by (auto simp: ValidateFrameForNode_def Let_def ok split: option.splits if_splits sum.splits)
  from assms obtain src dst where sd: "ParseIPv4Endpoints (Payload f) = Inr (src, dst)"
    by (auto simp: ValidateFrameForNode_def Let_def ok hop tp own split: if_splits sum.splits)
  have "frame_authorized config f p"
    using assms
    by (auto simp: ValidateFrameForNode_def frame_authorized_def owner_side_def overlay_side_def
        Let_def ok hop tp own sd split: if_splits option.splits)
  with ok hop tp own hops TransitPath_Some [OF tp] show ?thesis
    by (auto simp: ValidateBasic_None frame_on_path_def)
qed

text \<open>These conditions are also enough. The prefix test on a forward frame follows from the route lookup,
  the test for a missing overlay from the overlay having parsed.\<close>

lemma RouteFor_cidr:
  assumes "RouteFor config a = Some r"
  shows "\<exists>q. ParsePrefix (route_CIDR r) = Some q \<and> Contains q a"
proof -
  obtain p where "route_Prefix r = Inr p" "Contains p a" using RouteFor_Some [OF assms] by blast
  then show ?thesis by (auto simp: route_Prefix_def split: option.splits if_splits)
qed

lemma ValidateFrameForNode_complete:
  assumes "frame_ok f" and "Hops f ! nat (HopIndex f) = localNodeID"
    and "Hops f ! nat (HopIndex f - 1) = senderPeerID"
    and "TransitPath config (PathID f) = Some p" and "frame_on_path f p" and "frame_authorized config f p"
  shows "ValidateFrameForNode f localNodeID senderPeerID config = Inr p"
proof -
  obtain src dst overlay r where sd: "ParseIPv4Endpoints (Payload f) = Inr (src, dst)"
    and ov: "ParsePrefix (OverlaySubnet config) = Some overlay" "Contains overlay (overlay_side f (src, dst))"
    and rt: "RouteFor config (owner_side f (src, dst)) = Some r" "route_OwnerNodeID r = OwnerNodeID f"
      "route_CIDR r = path_CIDR p"
    using assms(6) unfolding frame_authorized_def by (metis surj_pair)
  obtain q where q: "ParsePrefix (path_CIDR p) = Some q" "Contains q (owner_side f (src, dst))"
    using RouteFor_cidr [OF rt(1)] rt(3) by auto
  have hops: "equalStrings (Hops f) (if Return f then reverseStrings (path_Hops p) else path_Hops p)"
    "path_OwnerNodeID p = OwnerNodeID f"
    using assms(5) by (auto simp: frame_on_path_def)
  show ?thesis
    using assms(1-4) hops sd ov rt q ParsePrefix_not_blank [OF ov(1)]
    by (cases "Return f")
      (simp_all add: ValidateFrameForNode_def ValidateBasic_None [symmetric] Let_def owner_side_def overlay_side_def)
qed

end
