(* ===== verification/RoutedRouter.thy ===== *)
theory RoutedRouter
  imports RoutedFrame RoutedSession
begin

text \<open>
  \<^verbatim>\<open>internal/routed/router.go\<close>: choosing a path for a route with hysteresis, the reverse paths a site router
  learns, and the two packet handlers. The interfaces \<^verbatim>\<open>MeshTransport\<close> and \<^verbatim>\<open>PacketWriter\<close> are the record
  \<open>transport\<close>: what their queries answer and whether a send or a write succeeds. Frames handed to the
  transport and packets handed to the writer are events. Addresses key the reverse table directly: the
  printed form the code uses as the key is different for different IPv4 addresses.
\<close>

section \<open>State\<close>

record transport =
  tr_CanSend :: "string \<Rightarrow> bool"
  tr_LinkStatus :: "string \<Rightarrow> link_status option"
  tr_Send_ok :: "string \<Rightarrow> byte list \<Rightarrow> bool"
  tr_Write_ok :: "byte list \<Rightarrow> bool"

record path_availability =
  Viable :: bool
  RecoveredAt :: gotime

record route_selection =
  Availability :: "(string \<times> path_availability) list"
  CurrentID :: string
  LastSwitch :: gotime
  CandidateID :: string
  CandidateSince :: gotime

record reverse_path =
  rev_Path :: path
  rev_LastSeen :: gotime

record selected_path =
  sel_CIDR :: string
  sel_OwnerNodeID :: string
  sel_PathID :: string
  sel_Hops :: "string list"
  sel_HopNames :: "string list"
  sel_Health :: string
  sel_RTTMS :: f64
  sel_LossPercent :: f64
  sel_Cost :: f64
  sel_StandbyPathIDs :: "string list"

record router =
  rt_localNodeID :: string
  rt_config :: routing_config
  rt_selections :: "(string \<times> route_selection) list"
  rt_reverse :: "(addr \<times> reverse_path) list"

datatype router_event = SendTo string "byte list" | WriteTun "byte list"

datatype router_error =
    RouterNotReady
  | ConfigInvalid config_error
  | NoHealthyPath string
  | BadNextHopIndex
  | NextHopUnhealthy string
  | FrameInvalid frame_error
  | MeshSendFailed
  | WriteFailed
  | PolicyExpired
  | NoReversePath addr
  | BadReversePath
  | NotOwnedRoute addr

definition pathMinimumImprovement :: f64 where "pathMinimumImprovement = 15"
definition pathStableInterval :: duration where "pathStableInterval = 5 * second"
definition pathRecoveryCooldown :: duration where "pathRecoveryCooldown = 10 * second"
definition reversePathTTL :: duration where "reversePathTTL = 600 * second"

lemmas router_consts [go_defs] =
  pathMinimumImprovement_def pathStableInterval_def pathRecoveryCooldown_def reversePathTTL_def

definition NewRouter :: "string \<Rightarrow> routing_config \<Rightarrow> bool \<Rightarrow> bool \<Rightarrow> router_error + router" where
  "NewRouter localNodeID config has_mesh has_writer =
     (if localNodeID = [] \<or> \<not> has_mesh \<or> \<not> has_writer then Inl RouterNotReady
      else case config_Validate config localNodeID of
             Some e \<Rightarrow> Inl (ConfigInvalid e)
           | None \<Rightarrow> Inr \<lparr>rt_localNodeID = localNodeID, rt_config = config, rt_selections = [], rt_reverse = []\<rparr>)"

definition prune_selection :: "string list \<Rightarrow> route_selection \<Rightarrow> route_selection option" where
  "prune_selection valid st =
     (let st = st\<lparr>Availability := filter (\<lambda>(i, _). i \<in> set valid) (Availability st)\<rparr>
      in if CurrentID st = [] then Some st else if CurrentID st \<notin> set valid then None else Some st)"

definition UpdateConfig :: "routing_config \<Rightarrow> router \<Rightarrow> router_error option \<times> router" where
  "UpdateConfig config r =
     (case config_Validate config (rt_localNodeID r) of
        Some e \<Rightarrow> (Some (ConfigInvalid e), r)
      | None \<Rightarrow>
          let valid = map path_ID (Paths config @ TransitPaths config)
          in (None, r\<lparr>rt_config := config,
                      rt_selections := List.map_filter
                        (\<lambda>(key, st). map_option (Pair key) (prune_selection valid st)) (rt_selections r)\<rparr>))"

section \<open>Choosing a path\<close>

definition routeKey :: "route \<Rightarrow> string" where
  "routeKey r = route_OwnerNodeID r @ ''|'' @ route_CIDR r"

definition poor_health :: "string \<Rightarrow> bool" where
  "poor_health h \<longleftrightarrow> h = ''degraded'' \<or> h = ''unknown''"

definition pathScore :: "path \<Rightarrow> link_status option \<Rightarrow> f64" where
  "pathScore p status =
     (let score = path_Score p;
          score = (if score = 0
                   then let score = f64_add (f64_add (path_Cost p) (path_RTTMS p)) (f64_mul (path_LossPercent p) 10)
                        in if poor_health (path_Health p) then f64_add score 1000 else score
                   else score)
      in case status of
           None \<Rightarrow> score
         | Some st \<Rightarrow>
             let score = f64_add score (f64_add (ls_RTTMS st) (f64_mul (ls_LossPercent st) 10))
             in if poor_health (ls_Health st) then f64_add score 100 else score)"

definition viablePath :: "transport \<Rightarrow> string \<Rightarrow> path \<Rightarrow> f64 option" where
  "viablePath tr localNodeID p =
     (if length (path_Hops p) < 2 \<or> path_Hops p ! 0 \<noteq> localNodeID \<or> path_Health p = ''failed'' then None
      else let first = path_Hops p ! 1
           in if \<not> tr_CanSend tr first then None
              else let status = tr_LinkStatus tr first
                   in if (case status of None \<Rightarrow> False | Some st \<Rightarrow> ls_Health st = ''failed'') then None
                      else Some (pathScore p status))"

definition no_availability :: path_availability where
  "no_availability = \<lparr>Viable = False, RecoveredAt = zero_time\<rparr>"

text \<open>The loop over the paths of the route: the availability map is updated and the viable paths are
  collected with their scores.\<close>

fun observe_paths ::
  "transport \<Rightarrow> string \<Rightarrow> gotime \<Rightarrow> path list \<Rightarrow> (string \<times> path_availability) list \<Rightarrow>
   (string \<times> path_availability) list \<times> (path \<times> f64) list" where
  "observe_paths tr me now [] av = (av, [])"
| "observe_paths tr me now (p # ps) av =
     (let v = viablePath tr me p;
          known = map_of av (path_ID p);
          prior = (case known of None \<Rightarrow> no_availability | Some a \<Rightarrow> a);
          prior = (if v \<noteq> None \<and> known \<noteq> None \<and> \<not> Viable prior then prior\<lparr>RecoveredAt := now\<rparr> else prior);
          av = AList.update (path_ID p) (prior\<lparr>Viable := v \<noteq> None\<rparr>) av;
          (av, cs) = observe_paths tr me now ps av
      in (av, (case v of None \<Rightarrow> cs | Some score \<Rightarrow> (p, score) # cs)))"

definition empty_selection :: route_selection where
  "empty_selection = \<lparr>Availability = [], CurrentID = [], LastSwitch = zero_time, CandidateID = [],
     CandidateSince = zero_time\<rparr>"

definition clear_candidate :: "route_selection \<Rightarrow> route_selection" where
  "clear_candidate st = st\<lparr>CandidateID := [], CandidateSince := zero_time\<rparr>"

definition switch_to :: "path \<Rightarrow> gotime \<Rightarrow> route_selection \<Rightarrow> route_selection" where
  "switch_to p now st = clear_candidate (st\<lparr>CurrentID := path_ID p, LastSwitch := now\<rparr>)"

text \<open>The decision between the sorted candidates (the first is the best).\<close>

definition decide :: "gotime \<Rightarrow> (path \<times> f64) list \<Rightarrow> route_selection \<Rightarrow> path \<times> route_selection" where
  "decide now candidates st =
     (let best = hd candidates
      in case find (\<lambda>c. path_ID (fst c) = CurrentID st) candidates of
           None \<Rightarrow> (fst best, switch_to (fst best) now st)
         | Some current \<Rightarrow>
             if path_ID (fst best) = path_ID (fst current) then (fst current, clear_candidate st)
             else if time_sub now (LastSwitch st) < pathRecoveryCooldown then (fst current, st)
             else if f64_sub (snd current) (snd best) < pathMinimumImprovement
               then (fst current, clear_candidate st)
             else if CandidateID st \<noteq> path_ID (fst best)
               then (fst current, st\<lparr>CandidateID := path_ID (fst best), CandidateSince := now\<rparr>)
             else let recoveredAt = (case map_of (Availability st) (path_ID (fst best)) of
                                       None \<Rightarrow> zero_time | Some a \<Rightarrow> RecoveredAt a)
                  in if (\<not> is_zero recoveredAt \<and> time_sub now recoveredAt < pathRecoveryCooldown) \<or>
                        time_sub now (CandidateSince st) < pathStableInterval
                     then (fst current, st)
                     else (fst best, switch_to (fst best) now st))"

definition choosePath ::
  "transport \<Rightarrow> route \<Rightarrow> path list \<Rightarrow> gotime \<Rightarrow> router \<Rightarrow> (router_error + path) \<times> router" where
  "choosePath tr route paths now r =
     (let key = routeKey route;
          st = (case map_of (rt_selections r) key of None \<Rightarrow> empty_selection | Some st \<Rightarrow> st);
          (av, candidates) = observe_paths tr (rt_localNodeID r) now paths (Availability st);
          observed = map path_ID paths;
          st = st\<lparr>Availability :=
                 map (\<lambda>(i, a). (i, if i \<in> set observed then a else a\<lparr>Viable := False\<rparr>)) av\<rparr>
      in if candidates = []
         then (Inl (NoHealthyPath (route_OwnerNodeID route)),
               r\<lparr>rt_selections := AList.update key (clear_candidate st) (rt_selections r)\<rparr>)
         else let (p, st) = decide now (sort_slice (less_by2 snd (path_ID \<circ> fst)) candidates) st
              in (Inr p, r\<lparr>rt_selections := AList.update key st (rt_selections r)\<rparr>))"

section \<open>Reverse paths\<close>

definition rememberReverse :: "addr \<Rightarrow> path \<Rightarrow> gotime \<Rightarrow> router \<Rightarrow> router" where
  "rememberReverse device p now r =
     r\<lparr>rt_reverse := AList.update device \<lparr>rev_Path = p, rev_LastSeen = now\<rparr>
         (filter (\<lambda>(_, e). \<not> reversePathTTL < time_sub now (rev_LastSeen e)) (rt_reverse r))\<rparr>"

definition reverseFor :: "addr \<Rightarrow> gotime \<Rightarrow> router \<Rightarrow> path option \<times> router" where
  "reverseFor device now r =
     (case map_of (rt_reverse r) device of
        None \<Rightarrow> (None, r\<lparr>rt_reverse := AList.delete device (rt_reverse r)\<rparr>)
      | Some e \<Rightarrow>
          if reversePathTTL < time_sub now (rev_LastSeen e)
          then (None, r\<lparr>rt_reverse := AList.delete device (rt_reverse r)\<rparr>)
          else (Some (rev_Path e),
                r\<lparr>rt_reverse := AList.update device (e\<lparr>rev_LastSeen := now\<rparr>) (rt_reverse r)\<rparr>))"

section \<open>Packet handlers\<close>

definition sendFrame :: "transport \<Rightarrow> frame \<Rightarrow> router_error option \<times> router_event list" where
  "sendFrame tr f =
     (if HopIndex f \<le> 0 \<or> int (length (Hops f)) \<le> HopIndex f then (Some BadNextHopIndex, [])
      else let nxt = Hops f ! nat (HopIndex f)
           in if \<not> tr_CanSend tr nxt then (Some (NextHopUnhealthy nxt), [])
              else case MarshalFrame f of
                     Inl e \<Rightarrow> (Some (FrameInvalid e), [])
                   | Inr raw \<Rightarrow>
                       if tr_Send_ok tr nxt raw then (None, [SendTo nxt raw]) else (Some MeshSendFailed, []))"

definition write_packet :: "transport \<Rightarrow> byte list \<Rightarrow> router_error option \<times> router_event list" where
  "write_packet tr packet = (if tr_Write_ok tr packet then (None, [WriteTun packet]) else (Some WriteFailed, []))"

definition return_frame :: "router \<Rightarrow> path \<Rightarrow> string list \<Rightarrow> byte list \<Rightarrow> frame" where
  "return_frame r p hops packet =
     \<lparr>PathID = path_ID p, OwnerNodeID = rt_localNodeID r, Hops = hops, HopIndex = 1, Return = True,
      Payload = packet\<rparr>"

definition forward_frame :: "route \<Rightarrow> path \<Rightarrow> byte list \<Rightarrow> frame" where
  "forward_frame route p packet =
     \<lparr>PathID = path_ID p, OwnerNodeID = route_OwnerNodeID route, Hops = path_Hops p, HopIndex = 1,
      Return = False, Payload = packet\<rparr>"

definition HandleTunPacket ::
  "transport \<Rightarrow> gotime \<Rightarrow> byte list \<Rightarrow> router \<Rightarrow> router_error option \<times> router \<times> router_event list" where
  "HandleTunPacket tr now packet r =
     (case ParseIPv4Endpoints packet of
        Inl e \<Rightarrow> (Some (FrameInvalid e), r, [])
      | Inr (_, destination) \<Rightarrow>
          let config = rt_config r
          in if \<not> PolicyValid config now then (Some PolicyExpired, r, [])
             else if IsSiteRouter config (rt_localNodeID r) \<and>
                     (case ParsePrefix (OverlaySubnet config) of
                        None \<Rightarrow> False | Some overlay \<Rightarrow> Contains overlay destination)
             then (case reverseFor destination now r of
                     (None, r) \<Rightarrow> (Some (NoReversePath destination), r, [])
                   | (Some forward, r) \<Rightarrow>
                       let hops = reverseStrings (path_Hops forward)
                       in if length hops < 2 \<or> hops ! 0 \<noteq> rt_localNodeID r then (Some BadReversePath, r, [])
                          else let (e, evs) = sendFrame tr (return_frame r forward hops packet) in (e, r, evs))
             else case RouteFor config destination of
                    None \<Rightarrow> (Some (NotOwnedRoute destination), r, [])
                  | Some route \<Rightarrow>
                      (case choosePath tr route (SourcePaths config (rt_localNodeID r) route) now r of
                         (Inl e, r) \<Rightarrow> (Some e, r, [])
                       | (Inr p, r) \<Rightarrow>
                           let (e, evs) = sendFrame tr (forward_frame route p packet) in (e, r, evs)))"

text \<open>The clock is read twice: for the policy lease and when a reverse path is remembered.\<close>

definition HandleMeshData ::
  "transport \<Rightarrow> gotime \<Rightarrow> gotime \<Rightarrow> string \<Rightarrow> byte list \<Rightarrow> router \<Rightarrow>
   router_error option \<times> router \<times> router_event list" where
  "HandleMeshData tr now now2 peerID raw r =
     (case UnmarshalFrame raw of
        Inl e \<Rightarrow> (Some (FrameInvalid e), r, [])
      | Inr f \<Rightarrow>
          let config = rt_config r
          in if \<not> PolicyValid config now then (Some PolicyExpired, r, [])
             else case ValidateFrameForNode f (rt_localNodeID r) peerID config of
                    Inl e \<Rightarrow> (Some (FrameInvalid e), r, [])
                  | Inr p \<Rightarrow>
                      if HopIndex f = int (length (Hops f)) - 1 then
                        (if Return f then (let (e, evs) = write_packet tr (Payload f) in (e, r, evs))
                         else case ParseIPv4Endpoints (Payload f) of
                                Inl e \<Rightarrow> (Some (FrameInvalid e), r, [])
                              | Inr (source, _) \<Rightarrow>
                                  let r = rememberReverse source p now2 r;
                                      (e, evs) = write_packet tr (Payload f) in (e, r, evs))
                      else let (e, evs) = sendFrame tr (f\<lparr>HopIndex := HopIndex f + 1\<rparr>) in (e, r, evs))"

section \<open>Status\<close>

definition displayHopNames :: "string list \<Rightarrow> (string \<times> string) list \<Rightarrow> string list" where
  "displayHopNames hops names =
     map (\<lambda>hop. case map_of names hop of None \<Rightarrow> hop | Some name \<Rightarrow> if name \<noteq> [] then name else hop) hops"

definition selected_status :: "transport \<Rightarrow> router \<Rightarrow> route \<Rightarrow> path list \<Rightarrow> path \<Rightarrow> selected_path" where
  "selected_status tr r route paths p =
     \<lparr>sel_CIDR = route_CIDR route, sel_OwnerNodeID = route_OwnerNodeID route, sel_PathID = path_ID p,
      sel_Hops = path_Hops p, sel_HopNames = displayHopNames (path_Hops p) (NodeNames (rt_config r)),
      sel_Health = path_Health p, sel_RTTMS = path_RTTMS p, sel_LossPercent = path_LossPercent p,
      sel_Cost = path_Cost p,
      sel_StandbyPathIDs = map path_ID (filter (\<lambda>c. path_ID c \<noteq> path_ID p \<and>
        viablePath tr (rt_localNodeID r) c \<noteq> None) paths)\<rparr>"

fun selected_routes :: "transport \<Rightarrow> gotime \<Rightarrow> route list \<Rightarrow> router \<Rightarrow> selected_path list \<times> router" where
  "selected_routes tr now [] r = ([], r)"
| "selected_routes tr now (route # rs) r =
     (let paths = SourcePaths (rt_config r) (rt_localNodeID r) route
      in if paths = [] then selected_routes tr now rs r
         else case choosePath tr route paths now r of
                (Inl _, r) \<Rightarrow> selected_routes tr now rs r
              | (Inr p, r) \<Rightarrow>
                  let (rest, r') = selected_routes tr now rs r
                  in (selected_status tr r route paths p # rest, r'))"

definition SelectedPaths :: "transport \<Rightarrow> gotime \<Rightarrow> gotime \<Rightarrow> router \<Rightarrow> selected_path list \<times> router" where
  "SelectedPaths tr now now2 r =
     (if \<not> IsPublicNode (rt_config r) (rt_localNodeID r) \<or> \<not> PolicyValid (rt_config r) now then ([], r)
      else selected_routes tr now2 (Routes (rt_config r)) r)"

section \<open>Path choice\<close>

lemma observe_paths_candidates:
  "snd (observe_paths tr me now ps av) =
     List.map_filter (\<lambda>p. map_option (Pair p) (viablePath tr me p)) ps"
  by (induction ps arbitrary: av)
    (simp_all add: Let_def List.map_filter_simps case_prod_beta split: option.split)

lemma candidates_iff:
  "(p, s) \<in> set (snd (observe_paths tr me now ps av)) \<longleftrightarrow> p \<in> set ps \<and> viablePath tr me p = Some s"
  by (force simp: observe_paths_candidates List.map_filter_def)

text \<open>The contract of one decision: the chosen path is a candidate and becomes the current one; leaving a
  current path that is still a candidate needs an improvement, a cooldown and a stable winner.\<close>

definition may_leave :: "gotime \<Rightarrow> route_selection \<Rightarrow> path \<times> f64 \<Rightarrow> path \<times> f64 \<Rightarrow> bool" where
  "may_leave now st current best \<longleftrightarrow>
     pathRecoveryCooldown \<le> time_sub now (LastSwitch st) \<and>
     pathMinimumImprovement \<le> f64_sub (snd current) (snd best) \<and>
     CandidateID st = path_ID (fst best) \<and> pathStableInterval \<le> time_sub now (CandidateSince st)"

lemma decide_member:
  assumes "decide now cs st = (p, st')" and "cs \<noteq> []"
  shows "p \<in> fst ` set cs \<and> CurrentID st' = path_ID p"
proof -
  have "hd cs \<in> set cs" using assms(2) by simp
  moreover have "c \<in> set cs \<and> path_ID (fst c) = CurrentID st"
    if "find (\<lambda>c. path_ID (fst c) = CurrentID st) cs = Some c" for c
    using that by (auto simp: find_Some_iff)
  ultimately show ?thesis
    using assms(1)
    by (auto simp: decide_def Let_def switch_to_def clear_candidate_def split: option.splits if_splits)
qed

lemma decide_hysteresis:
  assumes "decide now cs st = (p, st')"
    and "find (\<lambda>c. path_ID (fst c) = CurrentID st) cs = Some current"
  shows "p = fst current \<and> LastSwitch st' = LastSwitch st \<or> p = fst (hd cs) \<and> may_leave now st current (hd cs)"
  using assms
  by (auto simp: decide_def Let_def may_leave_def clear_candidate_def switch_to_def split: if_splits option.splits)

lemma decide_failover:
  "find (\<lambda>c. path_ID (fst c) = CurrentID st) cs = None \<Longrightarrow> fst (decide now cs st) = fst (hd cs)"
  by (simp add: decide_def Let_def)

text \<open>What \<open>choosePath\<close> does, through the decision on the sorted candidates.\<close>

definition selection_of :: "router \<Rightarrow> route \<Rightarrow> route_selection" where
  "selection_of r route =
     (case map_of (rt_selections r) (routeKey route) of None \<Rightarrow> empty_selection | Some st \<Rightarrow> st)"

lemma choosePath_Inr:
  assumes "choosePath tr route paths now r = (Inr p, r')"
  obtains cs st where "cs \<noteq> []" "decide now cs st = (p, selection_of r' route)"
    "\<And>q s. (q, s) \<in> set cs \<longleftrightarrow> q \<in> set paths \<and> viablePath tr (rt_localNodeID r) q = Some s"
    "sorted_wrt (\<lambda>a b. \<not> less_by2 snd (path_ID \<circ> fst) b a) cs"
    "CurrentID st = CurrentID (selection_of r route)" "LastSwitch st = LastSwitch (selection_of r route)"
    "CandidateID st = CandidateID (selection_of r route)" "CandidateSince st = CandidateSince (selection_of r route)"
    "r' = r\<lparr>rt_selections := AList.update (routeKey route) (selection_of r' route) (rt_selections r)\<rparr>"
proof -
  define st0 where "st0 = selection_of r route"
  obtain av c0 where o: "observe_paths tr (rt_localNodeID r) now paths (Availability st0) = (av, c0)" by fastforce
  define st1 where "st1 = st0\<lparr>Availability :=
    map (\<lambda>(i, a). (i, if i \<in> set (map path_ID paths) then a else a\<lparr>Viable := False\<rparr>)) av\<rparr>"
  define cs where "cs = sort_slice (less_by2 snd (path_ID \<circ> fst)) c0"
  have c0: "(q, s) \<in> set c0 \<longleftrightarrow> q \<in> set paths \<and> viablePath tr (rt_localNodeID r) q = Some s" for q s
    using candidates_iff [of q s tr "rt_localNodeID r" now paths "Availability st0"] by (simp add: o)
  obtain st2 where ne: "c0 \<noteq> []" and d: "decide now cs st1 = (p, st2)"
    and r': "r' = r\<lparr>rt_selections := AList.update (routeKey route) st2 (rt_selections r)\<rparr>"
    using assms
    by (auto simp: choosePath_def Let_def o st0_def [unfolded selection_of_def, symmetric] cs_def st1_def
        split: if_splits prod.splits)
  have s2: "selection_of r' route = st2" by (simp add: r' selection_of_def)
  show ?thesis
  proof (rule that [of cs st1])
    show "cs \<noteq> []" using ne by (simp add: cs_def)
    show "sorted_wrt (\<lambda>a b. \<not> less_by2 snd (path_ID \<circ> fst) b a) cs"
      unfolding cs_def by (rule by_key2.sort_slice_sorted)
  qed (use d s2 c0 r' in \<open>simp_all add: cs_def st1_def st0_def\<close>)
qed

lemma choosePath_Inl:
  "choosePath tr route paths now r = (Inl e, r') \<Longrightarrow>
     \<forall>p\<in>set paths. viablePath tr (rt_localNodeID r) p = None"
proof
  fix p assume c: "choosePath tr route paths now r = (Inl e, r')" and p: "p \<in> set paths"
  define st0 where "st0 = selection_of r route"
  have "snd (observe_paths tr (rt_localNodeID r) now paths (Availability st0)) = []"
    using c by (auto simp: choosePath_def Let_def st0_def selection_of_def split: if_splits prod.splits)
  then show "viablePath tr (rt_localNodeID r) p = None"
    using candidates_iff [of p _ tr "rt_localNodeID r" now paths "Availability st0"] p
    by (cases "viablePath tr (rt_localNodeID r) p") auto
qed

lemma choosePath_frame:
  "rt_localNodeID (snd (choosePath tr route paths now r)) = rt_localNodeID r"
  "rt_config (snd (choosePath tr route paths now r)) = rt_config r"
  "rt_reverse (snd (choosePath tr route paths now r)) = rt_reverse r"
  by (auto simp: choosePath_def Let_def split: prod.splits)

lemma viablePath_Some:
  "viablePath tr me p = Some s \<Longrightarrow>
     2 \<le> length (path_Hops p) \<and> path_Hops p ! 0 = me \<and> path_Health p \<noteq> ''failed'' \<and> tr_CanSend tr (path_Hops p ! 1)"
  by (auto simp: viablePath_def Let_def split: if_splits)

section \<open>Frames\<close>

lemma sendFrame_events:
  "sendFrame tr f = (e, evs) \<Longrightarrow> ev \<in> set evs \<Longrightarrow>
     \<exists>raw. MarshalFrame f = Inr raw \<and> ev = SendTo (Hops f ! nat (HopIndex f)) raw \<and>
       tr_CanSend tr (Hops f ! nat (HopIndex f)) \<and> frame_ok f"
  by (auto simp: sendFrame_def MarshalFrame_def Let_def ValidateBasic_None split: if_splits sum.splits option.splits)

lemma write_packet_events: "write_packet tr x = (e, evs) \<Longrightarrow> ev \<in> set evs \<Longrightarrow> ev = WriteTun x"
  by (auto simp: write_packet_def split: if_splits)

lemma MarshalFrame_ok: "frame_ok f \<Longrightarrow> \<exists>raw. MarshalFrame f = Inr raw"
  by (simp add: MarshalFrame_def ValidateBasic_None [symmetric] Let_def)

lemma frame_ok_next:
  "frame_ok f \<Longrightarrow> HopIndex f + 1 < int (length (Hops f)) \<Longrightarrow> frame_ok (f\<lparr>HopIndex := HopIndex f + 1\<rparr>)"
  by (simp add: frame_ok_def)

section \<open>A frame on its way\<close>

text \<open>\<open>carry\<close> follows a frame from hop to hop: each Node handles what the one before it sent. The result is
  the Node that writes the packet to its tunnel and the packet. A frame has at most \<open>MaxPathHops\<close> hops, so
  as many steps are enough.\<close>

fun carry ::
  "nat \<Rightarrow> (string \<Rightarrow> transport) \<Rightarrow> gotime \<Rightarrow> (string \<Rightarrow> router) \<Rightarrow> string \<Rightarrow> string \<Rightarrow> byte list \<Rightarrow>
   (string \<times> byte list) option" where
  "carry 0 trs now net sender node raw = None"
| "carry (Suc n) trs now net sender node raw =
     (case HandleMeshData (trs node) now now sender raw (net node) of
        (None, _, [SendTo nxt raw']) \<Rightarrow> carry n trs now net node nxt raw'
      | (None, _, [WriteTun packet]) \<Rightarrow> Some (node, packet)
      | _ \<Rightarrow> None)"

definition healthy :: "transport \<Rightarrow> bool" where
  "healthy tr \<longleftrightarrow> (\<forall>k. tr_CanSend tr k) \<and> (\<forall>k x. tr_Send_ok tr k x) \<and> (\<forall>x. tr_Write_ok tr x)"

definition approves :: "router \<Rightarrow> gotime \<Rightarrow> string \<Rightarrow> frame \<Rightarrow> bool" where
  "approves r now node f \<longleftrightarrow>
     rt_localNodeID r = node \<and> PolicyValid (rt_config r) now \<and>
     (\<exists>p. TransitPath (rt_config r) (PathID f) = Some p \<and> frame_on_path f p \<and>
          frame_authorized (rt_config r) f p)"

lemma frame_authorized_HopIndex [simp]:
  "frame_authorized c (f\<lparr>HopIndex := i\<rparr>) p = frame_authorized c f p"
  "frame_on_path (f\<lparr>HopIndex := i\<rparr>) p = frame_on_path f p"
  by (simp_all add: frame_authorized_def owner_side_def overlay_side_def frame_on_path_def)

lemma approves_HopIndex [simp]: "approves r now node (f\<lparr>HopIndex := i\<rparr>) = approves r now node f"
  by (simp add: approves_def)

lemma approved_frame:
  assumes ok: "frame_ok f" and ap: "approves r now (Hops f ! nat (HopIndex f)) f" and sender: "sender = Hops f ! nat (HopIndex f - 1)"
  obtains p sd where "PolicyValid (rt_config r) now" "ValidateFrameForNode f (rt_localNodeID r) sender (rt_config r) = Inr p"
    "ParseIPv4Endpoints (Payload f) = Inr sd"
proof -
  obtain p where pv: "PolicyValid (rt_config r) now" and id: "rt_localNodeID r = Hops f ! nat (HopIndex f)"
    and tp: "TransitPath (rt_config r) (PathID f) = Some p" "frame_on_path f p" "frame_authorized (rt_config r) f p"
    using ap unfolding approves_def by blast
  have "ValidateFrameForNode f (rt_localNodeID r) sender (rt_config r) = Inr p"
    by (rule ValidateFrameForNode_complete [OF ok _ _ tp]) (simp_all add: id sender)
  then show ?thesis using that pv tp(3) unfolding frame_authorized_def by blast
qed

lemma HandleMeshData_last:
  assumes ok: "frame_ok f" and raw: "MarshalFrame f = Inr raw" and w: "tr_Write_ok tr (Payload f)"
    and ap: "approves r now (Hops f ! nat (HopIndex f)) f" and sender: "sender = Hops f ! nat (HopIndex f - 1)"
    and last: "HopIndex f = int (length (Hops f)) - 1"
  shows "\<exists>r'. HandleMeshData tr now now sender raw r = (None, r', [WriteTun (Payload f)])"
proof -
  obtain p sd where "PolicyValid (rt_config r) now" "ValidateFrameForNode f (rt_localNodeID r) sender (rt_config r) = Inr p"
    "ParseIPv4Endpoints (Payload f) = Inr sd" by (rule approved_frame [OF ok ap sender])
  with UnmarshalFrame_MarshalFrame [OF raw] w last show ?thesis
    by (simp add: HandleMeshData_def write_packet_def Let_def split: prod.splits)
qed

lemma HandleMeshData_approved:
  assumes ok: "frame_ok f" and raw: "MarshalFrame f = Inr raw" and h: "healthy tr"
    and ap: "approves r now (Hops f ! nat (HopIndex f)) f" and sender: "sender = Hops f ! nat (HopIndex f - 1)"
  shows "\<exists>r'. HandleMeshData tr now now sender raw r =
    (None, r', if HopIndex f = int (length (Hops f)) - 1 then [WriteTun (Payload f)]
       else [SendTo (Hops f ! nat (HopIndex f + 1)) (projr (MarshalFrame (f\<lparr>HopIndex := HopIndex f + 1\<rparr>)))])"
proof -
  obtain p sd where pv: "PolicyValid (rt_config r) now" and sd: "ParseIPv4Endpoints (Payload f) = Inr sd"
    and v: "ValidateFrameForNode f (rt_localNodeID r) sender (rt_config r) = Inr p" by (rule approved_frame [OF ok ap sender])
  have u: "UnmarshalFrame raw = Inr f" by (rule UnmarshalFrame_MarshalFrame [OF raw])
  show ?thesis
  proof (cases "HopIndex f = int (length (Hops f)) - 1")
    case True
    with HandleMeshData_last [OF ok raw _ ap sender True] h show ?thesis by (simp add: healthy_def)
  next
    case False
    have lt: "HopIndex f + 1 < int (length (Hops f))" "0 < HopIndex f" using ok False by (auto simp: frame_ok_def)
    then obtain raw' where "MarshalFrame (f\<lparr>HopIndex := HopIndex f + 1\<rparr>) = Inr raw'"
      using MarshalFrame_ok frame_ok_next [OF ok] by blast
    then show ?thesis
      using False h lt by (simp add: HandleMeshData_def u pv v sendFrame_def healthy_def Let_def)
  qed
qed

lemma carry_delivers:
  assumes "frame_ok f" and "MarshalFrame f = Inr raw" and "\<And>k. healthy (trs k)"
    and "\<forall>k\<in>set (Hops f). approves (net k) now k f" and "length (Hops f) - nat (HopIndex f) \<le> n"
  shows "carry n trs now net (Hops f ! nat (HopIndex f - 1)) (Hops f ! nat (HopIndex f)) raw
    = Some (last (Hops f), Payload f)"
  using assms
proof (induction n arbitrary: f raw)
  case 0
  then show ?case by (auto simp: frame_ok_def)
next
  case (Suc n)
  have ix: "0 < HopIndex f" "HopIndex f < int (length (Hops f))" using Suc.prems(1) by (auto simp: frame_ok_def)
  then have mem: "Hops f ! nat (HopIndex f) \<in> set (Hops f)" by simp
  then have ap: "approves (net (Hops f ! nat (HopIndex f))) now (Hops f ! nat (HopIndex f)) f"
    using Suc.prems(4) by blast
  obtain r' where h: "HandleMeshData (trs (Hops f ! nat (HopIndex f))) now now (Hops f ! nat (HopIndex f - 1)) raw
      (net (Hops f ! nat (HopIndex f))) =
    (None, r', if HopIndex f = int (length (Hops f)) - 1 then [WriteTun (Payload f)]
       else [SendTo (Hops f ! nat (HopIndex f + 1)) (projr (MarshalFrame (f\<lparr>HopIndex := HopIndex f + 1\<rparr>)))])"
    using HandleMeshData_approved [OF Suc.prems(1,2) Suc.prems(3) ap refl] by blast
  show ?case
  proof (cases "HopIndex f = int (length (Hops f)) - 1")
    case True
    then have "nat (HopIndex f) = length (Hops f) - 1" by linarith
    moreover have "Hops f \<noteq> []" using ix by auto
    ultimately show ?thesis using h True by (simp add: last_conv_nth)
  next
    case False
    let ?g = "f\<lparr>HopIndex := HopIndex f + 1\<rparr>"
    have g: "frame_ok ?g" using frame_ok_next [OF Suc.prems(1)] False ix by simp
    obtain raw' where raw': "MarshalFrame ?g = Inr raw'" using MarshalFrame_ok [OF g] by blast
    have "length (Hops ?g) - nat (HopIndex ?g) \<le> n" using Suc.prems(5) ix by simp
    from Suc.IH [OF g raw' Suc.prems(3) _ this] Suc.prems(4)
    have "carry n trs now net (Hops f ! nat (HopIndex f)) (Hops f ! nat (HopIndex f + 1)) raw'
        = Some (last (Hops f), Payload f)" by simp
    then show ?thesis using h False raw' by simp
  qed
qed

section \<open>Reverse paths\<close>

lemma reverseFor_remembered:
  assumes "\<not> reversePathTTL < time_sub later now"
  shows "fst (reverseFor a later (rememberReverse a p now r)) = Some p"
  using assms by (simp add: reverseFor_def rememberReverse_def)

lemma reverseFor_frame:
  "rt_localNodeID (snd (reverseFor a now r)) = rt_localNodeID r" "rt_config (snd (reverseFor a now r)) = rt_config r"
  by (auto simp: reverseFor_def split: option.splits)

end
