(* ===== verification/RoutedRouterProps.thy ===== *)
theory RoutedRouterProps
  imports RoutedRouter RoutedMesh
begin

text \<open>
  The properties of frames, routes and the router, the contract between the router and the mesh as a
  locale interpreted on the mesh, and a concrete configuration of three Nodes on which the witnesses are
  evaluated.
\<close>

section \<open>The transport contract\<close>

text \<open>What the router relies on when it scores a path: a peer that can be sent to has a link status that
  is not failed. Under it every viable path is scored with the metrics of its first link.\<close>

locale mesh_transport =
  fixes can_send :: "string \<Rightarrow> bool"
    and status :: "string \<Rightarrow> link_status option"
  assumes can_send_status: "can_send k \<Longrightarrow> \<exists>s. status k = Some s \<and> ls_Health s \<noteq> ''failed''"
begin

lemma viable_scored:
  assumes "tr_CanSend tr = can_send" and "tr_LinkStatus tr = status"
  shows "viablePath tr me p \<noteq> None \<longleftrightarrow>
    2 \<le> length (path_Hops p) \<and> path_Hops p ! 0 = me \<and> path_Health p \<noteq> ''failed'' \<and> can_send (path_Hops p ! 1)"
  using can_send_status [of "path_Hops p ! 1"] assms
  by (auto simp: viablePath_def Let_def split: option.splits)

end

interpretation mesh_transport_of: mesh_transport "\<lambda>k. CanSend m k now" "\<lambda>k. mesh_LinkStatus m k now"
  for m :: mesh and now :: gotime
  by unfold_locales (auto simp: CanSend_def mesh_LinkStatus_def split: option.splits)

definition mesh_view :: "mesh \<Rightarrow> gotime \<Rightarrow> (string \<Rightarrow> byte list \<Rightarrow> bool) \<Rightarrow> (byte list \<Rightarrow> bool) \<Rightarrow> transport" where
  "mesh_view m now send_ok write_ok =
     \<lparr>tr_CanSend = (\<lambda>k. CanSend m k now), tr_LinkStatus = (\<lambda>k. mesh_LinkStatus m k now),
      tr_Send_ok = send_ok, tr_Write_ok = write_ok\<rparr>"

section \<open>A network of three Nodes\<close>

definition ex_path :: path where
  "ex_path = \<lparr>path_ID = ''p1'', path_OwnerNodeID = ''o'', path_CIDR = ''10.1.0.0/16'',
     path_Hops = [''a'', ''t'', ''o''], path_Health = ''healthy'', path_RTTMS = 5, path_LossPercent = 0,
     path_Cost = 1, path_Score = 0, path_LastSeen = 0\<rparr>"

definition ex_route :: route where
  "ex_route = \<lparr>route_CIDR = ''10.1.0.0/16'', route_OwnerNodeID = ''o''\<rparr>"

definition ex_config :: routing_config where
  "ex_config = \<lparr>PolicyExpiresAt = 1700000060, Version = 1, ListenPort = 0, OverlaySubnet = ''10.9.0.0/16'',
     LocalPublic = True, LocalSiteRouter = False, NodeNames = [(''o'', ''office'')], Links = [],
     Paths = [ex_path], TransitPaths = [ex_path], Routes = [ex_route]\<rparr>"

definition ex_now :: gotime where
  "ex_now = \<lparr>wall = 1700000000 * second, mono = Some 0\<rparr>"

definition ex_packet :: "byte list" where
  "ex_packet = [0x45, 0, 0, 20, 0, 0, 0, 0, 64, 17, 0, 0, 10, 9, 0, 1, 10, 1, 0, 5]"

definition ex_router :: "string \<Rightarrow> router" where
  "ex_router k = \<lparr>rt_localNodeID = k, rt_config = ex_config, rt_selections = [], rt_reverse = []\<rparr>"

definition ex_transport :: transport where
  "ex_transport = \<lparr>tr_CanSend = (\<lambda>_. True), tr_LinkStatus = (\<lambda>_. None), tr_Send_ok = (\<lambda>_ _. True),
     tr_Write_ok = (\<lambda>_. True)\<rparr>"

definition ex_frame :: frame where
  "ex_frame = forward_frame ex_route ex_path ex_packet"

lemma ex_prefixes:
  "ParsePrefix ''10.9.0.0/16'' = Some \<lparr>p_addr = 0x0A090000, p_bits = 16\<rparr>"
  "ParsePrefix ''10.1.0.0/16'' = Some \<lparr>p_addr = 0x0A010000, p_bits = 16\<rparr>"
  by (simp_all add: ParsePrefix_def ParseAddr4_def AddrFrom4_def is_digit_def digit_val_def be_decode_def)

lemma ex_endpoints: "ParseIPv4Endpoints ex_packet = Inr (0x0A090001, 0x0A010005)"
  by (simp add: ex_packet_def ParseIPv4Endpoints_def index_at_def subslice_def AddrFrom4_def be_decode_def)

lemma ex_RouteFor: "RouteFor ex_config 0x0A010005 = Some ex_route"
  by (simp add: RouteFor_def ex_config_def ex_route_def route_Prefix_def ex_prefixes Masked_def mask_addr_def
      Contains_def sort_slice_def)

lemma ex_policy: "PolicyValid ex_config ex_now"
  by (simp add: PolicyValid_def ex_config_def ex_now_def unix_of_def)

lemma ex_frame_ok: "frame_ok ex_frame"
  by (simp add: frame_ok_def ex_frame_def forward_frame_def ex_path_def ex_route_def ex_packet_def MaxPathHops_def)

lemma ex_choose: "fst (choosePath ex_transport ex_route [ex_path] now (ex_router ''a'')) = Inr ex_path"
proof -
  have "viablePath ex_transport ''a'' ex_path = Some (pathScore ex_path None)"
    by (simp add: viablePath_def ex_transport_def ex_path_def)
  then show ?thesis
    by (simp add: choosePath_def Let_def ex_router_def decide_def sort_slice_def split: option.split prod.split)
qed

lemma ex_HandleTunPacket:
  "\<exists>r'. HandleTunPacket ex_transport ex_now ex_packet (ex_router ''a'')
     = (None, r', [SendTo ''t'' (projr (MarshalFrame ex_frame))])"
proof -
  obtain r' where c: "choosePath ex_transport ex_route [ex_path] ex_now (ex_router ''a'') = (Inr ex_path, r')"
    using ex_choose [of ex_now] by (metis prod.collapse)
  have src: "SourcePaths ex_config ''a'' ex_route = [ex_path]"
    by (simp add: SourcePaths_def ex_config_def ex_path_def ex_route_def sort_slice_def)
  obtain raw where raw: "MarshalFrame ex_frame = Inr raw" using MarshalFrame_ok [OF ex_frame_ok] by blast
  then have "sendFrame ex_transport ex_frame = (None, [SendTo ''t'' raw])"
    unfolding sendFrame_def by (simp add: ex_transport_def) (simp add: ex_frame_def forward_frame_def ex_path_def)
  moreover have cfg: "rt_config (ex_router k) = ex_config" "rt_localNodeID (ex_router k) = k" "\<not> IsSiteRouter ex_config k" for k
    by (simp_all add: ex_router_def ex_config_def IsSiteRouter_def)
  ultimately show ?thesis
    using raw by (simp add: HandleTunPacket_def ex_endpoints ex_policy ex_RouteFor cfg src c ex_frame_def)
qed

lemma ex_approves: "approves (ex_router k) ex_now k ex_frame"
proof -
  have "TransitPath ex_config ''p1'' = Some ex_path"
    by (simp add: TransitPath_def ex_config_def ex_path_def)
  moreover have "frame_on_path ex_frame ex_path"
    by (simp add: frame_on_path_def ex_frame_def forward_frame_def ex_path_def ex_route_def)
  moreover have "frame_authorized ex_config ex_frame ex_path"
    unfolding frame_authorized_def ex_frame_def forward_frame_def
    by (simp add: owner_side_def overlay_side_def ex_endpoints ex_RouteFor)
      (simp add: ex_config_def ex_prefixes ex_route_def ex_path_def Contains_def)
  ultimately show ?thesis
    by (simp add: approves_def ex_router_def ex_policy ex_frame_def forward_frame_def ex_path_def)
qed

section \<open>Frames\<close>

text \<open>The wire format of a routed frame round-trips and is canonical: decoding what \<^verbatim>\<open>MarshalFrame\<close>
  produced gives the frame back, and a byte string that decodes is the encoding of what it decodes to.\<close>

theorem frame_wire_roundtrip:
  "(MarshalFrame f = Inr raw) = (UnmarshalFrame raw = Inr f)"
  using UnmarshalFrame_MarshalFrame [of f raw] MarshalFrame_UnmarshalFrame [of raw f] by blast

text \<open>Decoding untrusted bytes never reads out of range: on every byte string the frame decoder and the
  IPv4 header parser return a value or one of their errors, and never index or slice beyond the end.\<close>

theorem decoders_never_panic:
  "UnmarshalFrame raw \<noteq> Inl Panic \<and> ParseIPv4Endpoints packet \<noteq> Inl Panic"
  using UnmarshalFrame_no_panic ParseIPv4Endpoints_no_panic by blast

text \<open>\<^verbatim>\<open>ValidateFrameForNode\<close> accepts a frame exactly when it is well formed, this Node is the hop it names
  and the authenticated sender the hop before it, an approved transit path has its identifier, owner and
  hop list (reversed on the way back), the overlay address lies in the overlay subnet and the longest
  matching route of the other address has this owner and this CIDR.\<close>

theorem ValidateFrameForNode_iff:
  "ValidateFrameForNode f me sender config = Inr p \<longleftrightarrow>
     frame_ok f \<and> Hops f ! nat (HopIndex f) = me \<and> Hops f ! nat (HopIndex f - 1) = sender \<and>
     TransitPath config (PathID f) = Some p \<and> frame_on_path f p \<and> frame_authorized config f p"
proof
  assume v: "ValidateFrameForNode f me sender config = Inr p"
  then have "TransitPath config (PathID f) = Some p"
    by (auto simp: ValidateFrameForNode_def Let_def split: option.splits if_splits sum.splits)
  with ValidateFrameForNode_sound [OF v] show "frame_ok f \<and> Hops f ! nat (HopIndex f) = me \<and>
     Hops f ! nat (HopIndex f - 1) = sender \<and>
     TransitPath config (PathID f) = Some p \<and> frame_on_path f p \<and> frame_authorized config f p" by blast
qed (use ValidateFrameForNode_complete in blast)

text \<open>\<^verbatim>\<open>RouteFor\<close> is longest-prefix match: it returns a route of the configuration whose prefix contains
  the address and is at least as long as that of every other route that contains it, and it finds none
  only if no route contains the address.\<close>

theorem RouteFor_longest_prefix:
  "case RouteFor c a of
     None \<Rightarrow> (\<forall>r p. r \<in> set (Routes c) \<and> route_Prefix r = Inr p \<longrightarrow> \<not> Contains p a)
   | Some r \<Rightarrow> r \<in> set (Routes c) \<and>
       (\<exists>p. route_Prefix r = Inr p \<and> Contains p a \<and>
         (\<forall>r' p'. r' \<in> set (Routes c) \<and> route_Prefix r' = Inr p' \<and> Contains p' a \<longrightarrow> p_bits p' \<le> p_bits p))"
proof (cases "RouteFor c a")
  case None
  then show ?thesis using RouteFor_None [of c a] by auto
next
  case (Some r)
  then show ?thesis using RouteFor_Some [OF Some] by auto
qed

theorem RouteFor_longest_prefix_witness:
  "RouteFor ex_config 0x0A010005 = Some ex_route \<and> ex_route \<in> set (Routes ex_config)"
  using RouteFor_longest_prefix [of ex_config "0x0A010005"] by (simp add: ex_RouteFor)

section \<open>The router\<close>

text \<open>Expired policy denies traffic: when the Controller's lease has run out, neither a packet from the
  tunnel nor one from the mesh is sent or written anywhere, the handlers return an error and the
  router's state does not change.\<close>

theorem expired_policy_denies:
  assumes "\<not> PolicyValid (rt_config r) now"
  shows "(\<exists>e. HandleTunPacket tr now packet r = (Some e, r, [])) \<and>
    (\<exists>e. HandleMeshData tr now now2 peer raw r = (Some e, r, [])) \<and> SelectedPaths tr now now2 r = ([], r)"
  using assms
  by (auto simp: HandleTunPacket_def HandleMeshData_def SelectedPaths_def Let_def split: sum.splits prod.splits)

theorem expired_policy_denies_witness:
  "\<exists>e. HandleTunPacket ex_transport (time_add ex_now (60 * second)) ex_packet (ex_router ''a'') = (Some e, ex_router ''a'', [])"
proof -
  have "\<not> PolicyValid (rt_config (ex_router ''a'')) (time_add ex_now (60 * second))"
    by (simp add: PolicyValid_def ex_router_def ex_config_def ex_now_def time_add_def unix_of_def)
  from expired_policy_denies [OF this] show ?thesis by blast
qed

text \<open>\<^verbatim>\<open>choosePath\<close> returns a path exactly when one is viable, and then a viable one of the paths it was
  given, which it records as the current path of the route.\<close>

theorem choosePath_viable:
  "case choosePath tr route paths now r of
     (Inl e, r') \<Rightarrow> e = NoHealthyPath (route_OwnerNodeID route) \<and>
       (\<forall>p. p \<in> set paths \<longrightarrow> viablePath tr (rt_localNodeID r) p = None)
   | (Inr p, r') \<Rightarrow> p \<in> set paths \<and> viablePath tr (rt_localNodeID r) p \<noteq> None \<and>
       CurrentID (selection_of r' route) = path_ID p"
proof -
  obtain x r' where c: "choosePath tr route paths now r = (x, r')" by fastforce
  show ?thesis
  proof (cases x)
    case (Inl e)
    then show ?thesis
      using choosePath_Inl c by (auto simp: choosePath_def Let_def split: if_splits prod.splits)
  next
    case (Inr p)
    obtain cs st where ne: "cs \<noteq> []" and d: "decide now cs st = (p, selection_of r' route)"
      and cs: "\<And>q s. (q, s) \<in> set cs \<longleftrightarrow> q \<in> set paths \<and> viablePath tr (rt_localNodeID r) q = Some s"
      using choosePath_Inr c Inr by metis
    have "p \<in> fst ` set cs" "CurrentID (selection_of r' route) = path_ID p"
      using decide_member [OF d ne] by auto
    then show ?thesis using cs by (auto simp: c Inr)
  qed
qed

theorem choosePath_viable_witness:
  "fst (choosePath ex_transport ex_route [ex_path] ex_now (ex_router ''a'')) = Inr ex_path"
proof -
  have "viablePath ex_transport ''a'' ex_path \<noteq> None"
    by (simp add: viablePath_def ex_transport_def ex_path_def)
  with choosePath_viable [where tr = ex_transport and route = ex_route and paths = "[ex_path]" and now = ex_now
      and r = "ex_router ''a''"] show ?thesis
    by (cases "choosePath ex_transport ex_route [ex_path] ex_now (ex_router ''a'')")
      (auto simp: ex_router_def split: sum.splits)
qed

text \<open>Path selection is sticky and fails over at once. If the current path of a route is still viable, the
  router leaves it only for the best-scored candidate, when that improves the score by at least 15, the
  last switch is at least ten seconds ago and the same winner has been stable for five. If no viable path
  has the current identifier, it takes a path of least score immediately.\<close>

theorem choosePath_hysteresis:
  assumes "choosePath tr route paths now r = (Inr p, r')"
  shows "(if \<exists>c\<in>set paths. viablePath tr (rt_localNodeID r) c \<noteq> None \<and> path_ID c = CurrentID (selection_of r route)
      then path_ID p = CurrentID (selection_of r route) \<or>
        (\<exists>c sc sp. c \<in> set paths \<and> path_ID c = CurrentID (selection_of r route) \<and>
          viablePath tr (rt_localNodeID r) c = Some sc \<and> viablePath tr (rt_localNodeID r) p = Some sp \<and>
          15 \<le> f64_sub sc sp \<and>
          10 * second \<le> time_sub now (LastSwitch (selection_of r route)) \<and>
          CandidateID (selection_of r route) = path_ID p \<and>
          5 * second \<le> time_sub now (CandidateSince (selection_of r route)))
      else (\<forall>c\<in>set paths. \<forall>sc. viablePath tr (rt_localNodeID r) c = Some sc \<longrightarrow>
          (\<exists>sp. viablePath tr (rt_localNodeID r) p = Some sp \<and> sp \<le> sc)))"
proof -
  obtain cs st where ne: "cs \<noteq> []" and d: "decide now cs st = (p, selection_of r' route)"
    and cs: "\<And>q s. (q, s) \<in> set cs \<longleftrightarrow> q \<in> set paths \<and> viablePath tr (rt_localNodeID r) q = Some s"
    and srt: "sorted_wrt (\<lambda>a b. \<not> less_by2 snd (path_ID \<circ> fst) b a) cs"
    and st: "CurrentID st = CurrentID (selection_of r route)" "LastSwitch st = LastSwitch (selection_of r route)"
      "CandidateID st = CandidateID (selection_of r route)"
      "CandidateSince st = CandidateSince (selection_of r route)"
    using choosePath_Inr [OF assms] by metis
  have best: "hd cs \<in> set cs" using ne by simp
  show ?thesis
  proof (cases "find (\<lambda>c. path_ID (fst c) = CurrentID st) cs")
    case (Some current)
    then have cur: "current \<in> set cs" "path_ID (fst current) = CurrentID st" by (auto simp: find_Some_iff)
    then have ex: "\<exists>c\<in>set paths. viablePath tr (rt_localNodeID r) c \<noteq> None \<and> path_ID c = CurrentID st"
      using cs [of "fst current" "snd current"] by auto
    have "path_ID p = CurrentID st \<or> p = fst (hd cs) \<and> may_leave now st current (hd cs)"
      using decide_hysteresis [OF d Some] cur by auto
    then show ?thesis
      using ex cur best cs [of "fst current" "snd current"] cs [of "fst (hd cs)" "snd (hd cs)"]
      by (auto simp: st may_leave_def router_consts)
  next
    case None
    have p: "p = fst (hd cs)" using decide_failover [OF None, of now] d by simp
    have no: "\<not> (\<exists>c\<in>set paths. viablePath tr (rt_localNodeID r) c \<noteq> None \<and> path_ID c = CurrentID st)"
      using None cs by (force simp: find_None_iff)
    have "snd (hd cs) \<le> sc" if "(c, sc) \<in> set cs" for c sc
    proof (cases cs)
      case (Cons x xs)
      then show ?thesis using srt that by (auto simp: less_by2_def split: if_splits)
    qed (use that in simp)
    then show ?thesis
      using no p best cs [of "fst (hd cs)" "snd (hd cs)"] cs by (auto simp: st)
  qed
qed

text \<open>A better path does not win right after a switch.\<close>

definition ex_path2 :: path where
  "ex_path2 = ex_path\<lparr>path_ID := ''p2'', path_Hops := [''a'', ''o''], path_RTTMS := 1, path_Score := 1\<rparr>"

definition ex_switched :: router where
  "ex_switched = (ex_router ''a'')\<lparr>rt_selections :=
     [(routeKey ex_route, empty_selection\<lparr>CurrentID := ''p1'', LastSwitch := ex_now\<rparr>)]\<rparr>"

theorem choosePath_hysteresis_witness:
  "\<exists>p r'. choosePath ex_transport ex_route [ex_path, ex_path2] ex_now ex_switched = (Inr p, r') \<and> path_ID p = ''p1''"
proof -
  have v: "viablePath ex_transport ''a'' ex_path \<noteq> None"
    by (simp add: viablePath_def ex_transport_def ex_path_def)
  have me: "rt_localNodeID ex_switched = ''a''" by (simp add: ex_switched_def ex_router_def)
  have sel: "CurrentID (selection_of ex_switched ex_route) = ''p1''" "LastSwitch (selection_of ex_switched ex_route) = ex_now"
    by (simp_all add: selection_of_def ex_switched_def)
  obtain x r' where c: "choosePath ex_transport ex_route [ex_path, ex_path2] ex_now ex_switched = (x, r')" by fastforce
  have "\<not> isl x"
    using choosePath_Inl [of ex_transport ex_route "[ex_path, ex_path2]" ex_now ex_switched "projl x" r'] v c me
    by (cases x) auto
  then obtain p where x: "x = Inr p" by (cases x) auto
  have "\<exists>c\<in>set [ex_path, ex_path2]. viablePath ex_transport ''a'' c \<noteq> None \<and> path_ID c = ''p1''"
    using v by (auto simp: ex_path_def)
  then have "path_ID p = ''p1''"
    using choosePath_hysteresis [OF c [unfolded x]] unfolding me sel
    by (simp add: time_sub_def sat_duration_def)
  then show ?thesis using c x by blast
qed

text \<open>A frame that leaves through \<^verbatim>\<open>sendFrame\<close> at hop one goes to its second hop, and reads back as itself.\<close>

lemma sendFrame_first_hop:
  assumes "sendFrame tr f = (e, evs)" and "ev \<in> set evs" and "HopIndex f = 1"
  obtains raw where "ev = SendTo (Hops f ! 1) raw" and "UnmarshalFrame raw = Inr f" and "tr_CanSend tr (Hops f ! 1)"
  using sendFrame_events [OF assms(1,2)] UnmarshalFrame_MarshalFrame assms(3) that by auto

lemma choosePath_source:
  assumes "choosePath tr route paths now r = (Inr p, r1)"
  shows "p \<in> set paths"
proof -
  obtain cs st where "cs \<noteq> []" "decide now cs st = (p, selection_of r1 route)"
    "\<And>q s. (q, s) \<in> set cs \<longleftrightarrow> q \<in> set paths \<and> viablePath tr (rt_localNodeID r) q = Some s"
    using choosePath_Inr [OF assms] by metis
  then show ?thesis using decide_member [of now cs st p] by auto
qed

text \<open>A site router answers an overlay destination, \<^verbatim>\<open>returning\<close>; every other packet is a forward one.  The two lemmas
  read off the frame that each branch hands to \<^verbatim>\<open>sendFrame\<close>.\<close>

definition returning :: "router \<Rightarrow> addr \<Rightarrow> bool" where
  "returning r dst \<longleftrightarrow> IsSiteRouter (rt_config r) (rt_localNodeID r) \<and>
     (case ParsePrefix (OverlaySubnet (rt_config r)) of None \<Rightarrow> False | Some overlay \<Rightarrow> Contains overlay dst)"

lemma HandleTunPacket_return:
  assumes h: "HandleTunPacket tr now packet r = (e, r', evs)" "evs \<noteq> []" "ParseIPv4Endpoints packet = Inr (src, dst)"
    "PolicyValid (rt_config r) now" and ret: "returning r dst"
  obtains f en where "sendFrame tr f = (e, evs)" and "HopIndex f = 1" and "Return f" and "Payload f = packet"
    and "map_of (rt_reverse r) dst = Some en" and "\<not> reversePathTTL < time_sub now (rev_LastSeen en)"
    and "PathID f = path_ID (rev_Path en)" and "Hops f = rev (path_Hops (rev_Path en))" and "hd (Hops f) = rt_localNodeID r"
proof -
  obtain fw r1 where rv: "reverseFor dst now r = (Some fw, r1)"
    using h ret by (auto simp: HandleTunPacket_def Let_def returning_def [symmetric] split: prod.splits option.splits)
  obtain en where en: "map_of (rt_reverse r) dst = Some en" "\<not> reversePathTTL < time_sub now (rev_LastSeen en)"
    "fw = rev_Path en" "rt_localNodeID r1 = rt_localNodeID r"
    using rv by (auto simp: reverseFor_def split: option.splits if_splits)
  define f where "f = return_frame r1 fw (rev (path_Hops fw)) packet"
  have hops: "2 \<le> length (path_Hops fw)" "rev (path_Hops fw) ! 0 = rt_localNodeID r" and sf: "sendFrame tr f = (e, evs)"
    using h ret rv en
    by (auto simp: HandleTunPacket_def Let_def returning_def [symmetric] f_def split: if_splits prod.splits)
  have "hd (rev (path_Hops fw)) = rt_localNodeID r"
    using hops by (metis hd_conv_nth length_0_conv length_rev not_numeral_le_zero)
  then show ?thesis using en by (intro that [OF sf]) (simp_all add: f_def return_frame_def)
qed

lemma HandleTunPacket_forward:
  assumes "HandleTunPacket tr now packet r = (e, r', evs)" "evs \<noteq> []" "ParseIPv4Endpoints packet = Inr (src, dst)"
    "PolicyValid (rt_config r) now" "\<not> returning r dst"
  obtains route p where "sendFrame tr (forward_frame route p packet) = (e, evs)" and "RouteFor (rt_config r) dst = Some route"
    and "p \<in> set (SourcePaths (rt_config r) (rt_localNodeID r) route)"
proof -
  obtain route p r1 where "RouteFor (rt_config r) dst = Some route"
    and cp: "choosePath tr route (SourcePaths (rt_config r) (rt_localNodeID r) route) now r = (Inr p, r1)"
    and "sendFrame tr (forward_frame route p packet) = (e, evs)"
    using assms
    by (auto simp: HandleTunPacket_def Let_def returning_def [symmetric] split: prod.splits option.splits sum.splits)
  then show ?thesis using that choosePath_source [OF cp] by blast
qed

text \<open>C16. What leaves a Node for a packet read from its tunnel is one frame with that packet, at hop one, to a
  first hop the mesh can reach: on a path the Controller issued to this Node for the longest-prefix route
  of the destination, or back along the reversed path that a packet from that very Device arrived on within
  the last ten minutes.\<close>

theorem tun_packet_authorized:
  assumes "HandleTunPacket tr now packet r = (e, r', evs)" and "ev \<in> set evs"
  shows "\<exists>f raw src dst. ev = SendTo (Hops f ! 1) raw \<and> UnmarshalFrame raw = Inr f \<and> HopIndex f = 1 \<and>
    Payload f = packet \<and> ParseIPv4Endpoints packet = Inr (src, dst) \<and> PolicyValid (rt_config r) now \<and>
    tr_CanSend tr (Hops f ! 1) \<and>
    (if Return f
     then IsSiteRouter (rt_config r) (rt_localNodeID r) \<and>
       (\<exists>en. map_of (rt_reverse r) dst = Some en \<and> \<not> reversePathTTL < time_sub now (rev_LastSeen en) \<and>
          PathID f = path_ID (rev_Path en) \<and> Hops f = rev (path_Hops (rev_Path en)) \<and> hd (Hops f) = rt_localNodeID r)
     else (\<exists>route p. RouteFor (rt_config r) dst = Some route \<and> p \<in> set (Paths (rt_config r)) \<and>
          path_OwnerNodeID p = route_OwnerNodeID route \<and> path_CIDR p = route_CIDR route \<and>
          PathID f = path_ID p \<and> OwnerNodeID f = route_OwnerNodeID route \<and> Hops f = path_Hops p \<and>
          hd (Hops f) = rt_localNodeID r))"
proof -
  obtain src dst where sd: "ParseIPv4Endpoints packet = Inr (src, dst)" and pv: "PolicyValid (rt_config r) now"
    using assms by (auto simp: HandleTunPacket_def Let_def split: sum.splits if_splits)
  have ne: "evs \<noteq> []" using assms(2) by auto
  show ?thesis
  proof (cases "returning r dst")
    case True
    obtain f en where f: "sendFrame tr f = (e, evs)" "HopIndex f = 1" "Return f" "Payload f = packet"
      "map_of (rt_reverse r) dst = Some en" "\<not> reversePathTTL < time_sub now (rev_LastSeen en)"
      "PathID f = path_ID (rev_Path en)" "Hops f = rev (path_Hops (rev_Path en))" "hd (Hops f) = rt_localNodeID r"
      using HandleTunPacket_return [OF assms(1) ne sd pv True] by blast
    obtain raw where "ev = SendTo (Hops f ! 1) raw" "UnmarshalFrame raw = Inr f" "tr_CanSend tr (Hops f ! 1)"
      using sendFrame_first_hop [OF f(1) assms(2) f(2)] by blast
    then show ?thesis
      using f sd pv True by (intro exI [of _ f] exI [of _ raw] exI [of _ src] exI [of _ dst]) (simp add: returning_def)
  next
    case False
    obtain route p where sf: "sendFrame tr (forward_frame route p packet) = (e, evs)"
      and rp: "RouteFor (rt_config r) dst = Some route" "p \<in> set (SourcePaths (rt_config r) (rt_localNodeID r) route)"
      using HandleTunPacket_forward [OF assms(1) ne sd pv False] by blast
    define f where "f = forward_frame route p packet"
    have f: "\<not> Return f" "Payload f = packet" "HopIndex f = 1" "PathID f = path_ID p"
      "OwnerNodeID f = route_OwnerNodeID route" "Hops f = path_Hops p"
      by (simp_all add: f_def forward_frame_def)
    obtain raw where "ev = SendTo (Hops f ! 1) raw" "UnmarshalFrame raw = Inr f" "tr_CanSend tr (Hops f ! 1)"
      using sendFrame_first_hop [OF sf [folded f_def] assms(2) f(3)] by blast
    then show ?thesis
      using f sd pv rp [unfolded set_SourcePaths]
      by (intro exI [of _ f] exI [of _ raw] exI [of _ src] exI [of _ dst]) auto
  qed
qed

theorem tun_packet_authorized_witness:
  "\<exists>f raw r'. HandleTunPacket ex_transport ex_now ex_packet (ex_router ''a'') = (None, r', [SendTo ''t'' raw]) \<and>
     UnmarshalFrame raw = Inr f \<and> Payload f = ex_packet \<and> HopIndex f = 1"
proof -
  obtain r' where h: "HandleTunPacket ex_transport ex_now ex_packet (ex_router ''a'')
      = (None, r', [SendTo ''t'' (projr (MarshalFrame ex_frame))])"
    using ex_HandleTunPacket by blast
  then show ?thesis using tun_packet_authorized [OF h] by fastforce
qed

lemma HandleMeshData_events:
  assumes "HandleMeshData tr now now2 peer raw r = (e, r', evs)" and "ev \<in> set evs"
  shows "\<exists>f p. frame_ok f \<and> UnmarshalFrame raw = Inr f \<and> PolicyValid (rt_config r) now \<and>
    p \<in> set (TransitPaths (rt_config r)) \<and> frame_on_path f p \<and> frame_authorized (rt_config r) f p \<and>
    Hops f ! nat (HopIndex f) = rt_localNodeID r \<and> Hops f ! nat (HopIndex f - 1) = peer \<and>
    (if HopIndex f + 1 < int (length (Hops f))
     then \<exists>raw'. ev = SendTo (Hops f ! nat (HopIndex f + 1)) raw' \<and>
            UnmarshalFrame raw' = Inr (f\<lparr>HopIndex := HopIndex f + 1\<rparr>) \<and> r' = r
     else ev = WriteTun (Payload f))"
proof -
  obtain f where u: "UnmarshalFrame raw = Inr f" and pv: "PolicyValid (rt_config r) now"
    using assms by (auto simp: HandleMeshData_def Let_def split: sum.splits if_splits)
  obtain p where v: "ValidateFrameForNode f (rt_localNodeID r) peer (rt_config r) = Inr p"
    using assms by (auto simp: HandleMeshData_def Let_def u pv split: sum.splits)
  note s = ValidateFrameForNode_sound [OF v]
  have "HopIndex f < int (length (Hops f))" using s by (simp add: frame_ok_def)
  then have last: "HopIndex f + 1 < int (length (Hops f)) \<longleftrightarrow> HopIndex f \<noteq> int (length (Hops f)) - 1" by auto
  show ?thesis
  proof (cases "HopIndex f = int (length (Hops f)) - 1")
    case True
    have "ev = WriteTun (Payload f)"
      using assms write_packet_events True
      by (auto simp: HandleMeshData_def Let_def u pv v split: if_splits sum.splits prod.splits)
    then show ?thesis using s u pv last True by (intro exI [of _ f] exI [of _ p]) simp
  next
    case False
    then have sf: "sendFrame tr (f\<lparr>HopIndex := HopIndex f + 1\<rparr>) = (e, evs)" and r': "r' = r"
      using assms by (auto simp: HandleMeshData_def Let_def u pv v split: prod.splits)
    obtain raw' where "MarshalFrame (f\<lparr>HopIndex := HopIndex f + 1\<rparr>) = Inr raw'"
      "ev = SendTo (Hops f ! nat (HopIndex f + 1)) raw'"
      using sendFrame_events [OF sf assms(2)] by auto
    then show ?thesis
      using s u pv last False r' UnmarshalFrame_MarshalFrame
      by (intro exI [of _ f] exI [of _ p]) auto
  qed
qed

text \<open>C6. What a Node does with a frame from the mesh is authorized and makes progress: the sender is the hop
  before this Node on an approved path, and either the frame goes on unchanged but for the hop index, which
  grows by one, to the next hop of the path, or this Node is its last hop and the carried packet is written
  to the tunnel.\<close>

theorem mesh_data_authorized:
  assumes "HandleMeshData tr now now2 peer raw r = (e, r', evs)" and "ev \<in> set evs"
  shows "\<exists>f p. UnmarshalFrame raw = Inr f \<and> PolicyValid (rt_config r) now \<and>
    p \<in> set (TransitPaths (rt_config r)) \<and> frame_on_path f p \<and> frame_authorized (rt_config r) f p \<and>
    Hops f ! nat (HopIndex f) = rt_localNodeID r \<and> Hops f ! nat (HopIndex f - 1) = peer \<and>
    (if HopIndex f + 1 < int (length (Hops f))
     then \<exists>raw'. ev = SendTo (Hops f ! nat (HopIndex f + 1)) raw' \<and>
            UnmarshalFrame raw' = Inr (f\<lparr>HopIndex := HopIndex f + 1\<rparr>) \<and> r' = r
     else ev = WriteTun (Payload f))"
  using HandleMeshData_events [OF assms] by blast

theorem mesh_data_authorized_witness:
  "\<exists>raw raw' r' f. MarshalFrame ex_frame = Inr raw \<and>
     HandleMeshData ex_transport ex_now ex_now ''a'' raw (ex_router ''t'') = (None, r', [SendTo ''o'' raw']) \<and>
     UnmarshalFrame raw = Inr f \<and> Hops f ! nat (HopIndex f) = ''t''"
proof -
  obtain raw where raw: "MarshalFrame ex_frame = Inr raw" using MarshalFrame_ok [OF ex_frame_ok] by blast
  have hop: "Hops ex_frame ! nat (HopIndex ex_frame) = ''t''" "Hops ex_frame ! nat (HopIndex ex_frame - 1) = ''a''"
    "Hops ex_frame ! nat (HopIndex ex_frame + 1) = ''o''" "HopIndex ex_frame \<noteq> int (length (Hops ex_frame)) - 1"
    by (simp_all add: ex_frame_def forward_frame_def ex_path_def)
  have "healthy ex_transport" by (simp add: healthy_def ex_transport_def)
  then obtain r' raw' where h: "HandleMeshData ex_transport ex_now ex_now ''a'' raw (ex_router ''t'') = (None, r', [SendTo ''o'' raw'])"
    using HandleMeshData_approved [OF ex_frame_ok raw, of ex_transport "ex_router ''t''" ex_now "''a''"]
    by (auto simp: hop ex_approves)
  from mesh_data_authorized [OF h, of "SendTo ''o'' raw'"] obtain f where
    "UnmarshalFrame raw = Inr f" "Hops f ! nat (HopIndex f) = rt_localNodeID (ex_router ''t'')" by auto
  then show ?thesis using raw h by (auto simp: ex_router_def)
qed

text \<open>C2. A frame reaches the end of its path: when every Node on the hop list has a valid lease and approves
  the path, and the links are up, a frame sent to its first hop is handed from hop to hop and its packet
  written, unchanged, by the last Node of the list and by no other, in as many steps as the list has hops.\<close>

theorem frame_delivered_end_to_end:
  assumes "frame_ok f" and "HopIndex f = 1" and "MarshalFrame f = Inr raw" and "\<forall>k. healthy (trs k)"
    and "\<forall>k\<in>set (Hops f). approves (net k) now k f"
  shows "carry MaxPathHops trs now net (Hops f ! 0) (Hops f ! 1) raw = Some (last (Hops f), Payload f)"
proof -
  have "length (Hops f) \<le> MaxPathHops" using assms(1) by (simp add: frame_ok_def)
  then have "length (Hops f) - nat (HopIndex f) \<le> MaxPathHops" by simp
  from carry_delivers [OF assms(1,3) _ assms(5) this, of trs] assms(2,4) show ?thesis by simp
qed

theorem frame_delivered_end_to_end_witness:
  "carry MaxPathHops (\<lambda>_. ex_transport) ex_now ex_router ''a'' ''t'' (projr (MarshalFrame ex_frame)) = Some (''o'', ex_packet)"
proof -
  obtain raw where raw: "MarshalFrame ex_frame = Inr raw" using MarshalFrame_ok [OF ex_frame_ok] by blast
  have "healthy ex_transport" by (simp add: healthy_def ex_transport_def)
  then have "carry MaxPathHops (\<lambda>_. ex_transport) ex_now ex_router (Hops ex_frame ! 0) (Hops ex_frame ! 1) raw
      = Some (last (Hops ex_frame), Payload ex_frame)"
    by (intro frame_delivered_end_to_end [OF ex_frame_ok _ raw]) (simp_all add: ex_approves, simp add: ex_frame_def forward_frame_def)
  then show ?thesis using raw by (simp add: ex_frame_def forward_frame_def ex_path_def)
qed

end
