(* ===== verification/CtlStore.thy ===== *)
theory CtlStore
  imports GoTime
begin

text \<open>
  \<^verbatim>\<open>internal/controlplane/store.go\<close>: the Raft log store, the stable store and the canonical state of a
  Controller in four buckets of a bbolt database. The bucket operations are the parameter \<open>bolt\<close> over an
  abstract bucket type; what the documentation of bbolt promises of them is \<open>bolt_ok\<close> (a cursor runs over
  the keys in byte order, reads see the last write). An \<^verbatim>\<open>Update\<close> that returns an error, or whose commit
  fails, leaves the database as it was.
\<close>

section \<open>Buckets\<close>

record 'b bolt =
  b_empty :: 'b
  b_get :: "'b \<Rightarrow> string \<Rightarrow> byte list option"
  b_put :: "'b \<Rightarrow> string \<Rightarrow> byte list \<Rightarrow> 'b option"
  b_del :: "'b \<Rightarrow> string \<Rightarrow> 'b option"
  b_scan :: "'b \<Rightarrow> (string \<times> byte list) list"

definition bolt_ok :: "'b bolt \<Rightarrow> bool" where
  "bolt_ok bo \<longleftrightarrow>
     (\<forall>k. b_get bo (b_empty bo) k = None) \<and>
     (\<forall>b k v b'. b_put bo b k v = Some b' \<longrightarrow> b_get bo b' = (b_get bo b)(k \<mapsto> v)) \<and>
     (\<forall>b k b'. b_del bo b k = Some b' \<longrightarrow> b_get bo b' = (b_get bo b)(k := None)) \<and>
     (\<forall>b. b_get bo b = map_of (b_scan bo b)) \<and>
     (\<forall>b. sorted_wrt (<) (map fst (b_scan bo b)))"

record 'b store =
  st_logs :: 'b
  st_stable :: 'b
  st_canonical :: 'b
  st_meta :: 'b

definition keyRevision :: string where "keyRevision = ''revision''"
definition keySchema :: string where "keySchema = ''schema_version''"
definition keyAppliedIndex :: string where "keyAppliedIndex = ''applied_index''"
definition keyRevisionFloor :: string where "keyRevisionFloor = ''revision_floor''"

lemmas meta_keys = keyRevision_def keySchema_def keyAppliedIndex_def keyRevisionFloor_def

datatype store_error =
    InvalidMetadata string
  | ErrLegacyReplayUnsafe
  | PutFailed
  | DeleteFailed
  | CommitFailed
  | OpenFailed
  | MissingBucket string
  | ErrLogNotFound
  | InvalidRaftLog
  | InvalidLogData
  | InvalidLogExtension
  | InvalidStableUint nat
  | StorePanic

text \<open>The state an \<^verbatim>\<open>Update\<close> leaves: the transaction's on success, the old one otherwise.\<close>

definition db_update :: "bool \<Rightarrow> store_error + 'b store \<Rightarrow> 'b store \<Rightarrow> store_error option \<times> 'b store" where
  "db_update commit_ok tx s =
     (case tx of
        Inl e \<Rightarrow> (Some e, s)
      | Inr s' \<Rightarrow> if commit_ok then (None, s') else (Some CommitFailed, s))"

section \<open>Integers as keys\<close>

definition u64key :: "u64 \<Rightarrow> byte list" where
  "u64key v = be_encode 8 (unat v)"

definition decodeU64 :: "byte list option \<Rightarrow> u64" where
  "decodeU64 b =
     (case b of None \<Rightarrow> 0 | Some b \<Rightarrow> if length b \<noteq> 8 then 0 else word_of_nat (be_decode b))"

definition logkey :: "u64 \<Rightarrow> string" where
  "logkey v = string_of (u64key v)"

definition decode_key :: "string \<Rightarrow> u64" where
  "decode_key k = decodeU64 (Some (bytes_of k))"

section \<open>Replay preparation\<close>

definition prepareReplay :: "'b bolt \<Rightarrow> bool \<Rightarrow> bool \<Rightarrow> 'b store \<Rightarrow> (store_error + u64) \<times> 'b store" where
  "prepareReplay bo commit_ok hasSnapshots s =
     (let meta = st_meta s;
          bad = find (\<lambda>k. case b_get bo meta k of None \<Rightarrow> False | Some raw \<Rightarrow> length raw \<noteq> 8)
                  [keyRevision, keyAppliedIndex, keyRevisionFloor]
      in case bad of
           Some k \<Rightarrow> (Inl (InvalidMetadata k), s)
         | None \<Rightarrow>
             let revision = decodeU64 (b_get bo meta keyRevision);
                 nonempty = b_scan bo (st_canonical s) \<noteq> []
             in if decodeU64 (b_get bo meta keyAppliedIndex) = 0 \<and> (revision \<noteq> 0 \<or> nonempty) \<and> \<not> hasSnapshots
                then (Inl ErrLegacyReplayUnsafe, s)
                else let floor = decodeU64 (b_get bo meta keyRevisionFloor);
                         floor = (if floor < revision then revision else floor)
                     in case db_update commit_ok
                               (case b_put bo meta keyRevisionFloor (u64key floor) of
                                  None \<Rightarrow> Inl PutFailed | Some meta' \<Rightarrow> Inr (s\<lparr>st_meta := meta'\<rparr>)) s of
                          (Some e, s) \<Rightarrow> (Inl e, s)
                        | (None, s) \<Rightarrow> (Inr floor, s))"

text \<open>Opening: \<open>file\<close> holds the buckets that exist; \<^const>\<open>None\<close> is a file that cannot be opened.\<close>

definition bucket_names :: "string list" where
  "bucket_names = [''raft_logs'', ''raft_stable'', ''canonical'', ''canonical_meta'']"

definition openStore :: "'b bolt \<Rightarrow> bool \<Rightarrow> bool \<Rightarrow> (string \<rightharpoonup> 'b) option \<Rightarrow> store_error + 'b store" where
  "openStore bo commit_ok initialize file =
     (case file of
        None \<Rightarrow> Inl OpenFailed
      | Some bs \<Rightarrow>
          let missing = filter (\<lambda>n. bs n = None) bucket_names;
              bucket = (\<lambda>n. case bs n of Some b \<Rightarrow> b | None \<Rightarrow> b_empty bo)
          in if missing \<noteq> [] \<and> \<not> initialize then Inl (MissingBucket (hd missing))
             else if missing \<noteq> [] \<and> \<not> commit_ok then Inl CommitFailed
             else Inr \<lparr>st_logs = bucket ''raft_logs'', st_stable = bucket ''raft_stable'',
                       st_canonical = bucket ''canonical'', st_meta = bucket ''canonical_meta''\<rparr>)"

definition OpenStore :: "'b bolt \<Rightarrow> bool \<Rightarrow> (string \<rightharpoonup> 'b) option \<Rightarrow> store_error + 'b store" where
  "OpenStore bo commit_ok file = openStore bo commit_ok True file"

section \<open>Raft logs\<close>

record raft_log =
  log_Index :: u64
  log_Term :: u64
  log_Type :: byte
  log_AppendedAt :: int
  log_Data :: "byte list"
  log_Extensions :: "byte list"

text \<open>\<open>log_AppendedAt\<close> is the time as \<^verbatim>\<open>UnixNano\<close> reports it, a signed 64-bit count; it is written as the
  unsigned integer of the same bits.\<close>

definition encodeRaftLog :: "raft_log \<Rightarrow> byte list" where
  "encodeRaftLog l =
     [1] @ u64key (log_Index l) @ u64key (log_Term l) @ [log_Type l]
     @ u64key (word_of_int (log_AppendedAt l))
     @ be_encode 8 (length (log_Data l)) @ be_encode 8 (length (log_Extensions l))
     @ log_Data l @ log_Extensions l"

text \<open>The decoder writes into \<open>out\<close>; a zero time leaves its field alone.\<close>

definition decodeRaftLog :: "byte list \<Rightarrow> raft_log \<Rightarrow> store_error + raft_log" where
  "decodeRaftLog raw out =
     (if length raw < 42 \<or> raw ! 0 \<noteq> 1 then Inl InvalidRaftLog
      else case (subslice raw 1 9, subslice raw 9 17, index_at raw 17, subslice raw 18 26,
                 subslice raw 26 34, subslice raw 34 42) of
             (Some ix, Some tm, Some ty, Some ns, Some dl, Some el) \<Rightarrow>
               let out = out\<lparr>log_Index := word_of_nat (be_decode ix), log_Term := word_of_nat (be_decode tm),
                             log_Type := ty\<rparr>;
                   n = sint (word_of_nat (be_decode ns) :: u64);
                   out = (if n \<noteq> 0 then out\<lparr>log_AppendedAt := n\<rparr> else out);
                   dataLen = be_decode dl; extLen = be_decode el
               in if length raw - 42 < dataLen then Inl InvalidLogData
                  else (case subslice raw 42 (42 + dataLen) of
                          None \<Rightarrow> Inl StorePanic
                        | Some d \<Rightarrow>
                            let off = 42 + dataLen; out = out\<lparr>log_Data := d\<rparr>
                            in if length raw - off < extLen then Inl InvalidLogExtension
                               else (case subslice raw off (off + extLen) of
                                       None \<Rightarrow> Inl StorePanic
                                     | Some x \<Rightarrow> Inr (out\<lparr>log_Extensions := x\<rparr>)))
           | _ \<Rightarrow> Inl StorePanic)"

definition FirstIndex :: "'b bolt \<Rightarrow> 'b store \<Rightarrow> u64" where
  "FirstIndex bo s = (case b_scan bo (st_logs s) of [] \<Rightarrow> 0 | (k, _) # _ \<Rightarrow> decode_key k)"

definition LastIndex :: "'b bolt \<Rightarrow> 'b store \<Rightarrow> u64" where
  "LastIndex bo s = (case rev (b_scan bo (st_logs s)) of [] \<Rightarrow> 0 | (k, _) # _ \<Rightarrow> decode_key k)"

definition GetLog :: "'b bolt \<Rightarrow> 'b store \<Rightarrow> u64 \<Rightarrow> raft_log \<Rightarrow> store_error + raft_log" where
  "GetLog bo s index out =
     (case b_get bo (st_logs s) (logkey index) of
        None \<Rightarrow> Inl ErrLogNotFound
      | Some raw \<Rightarrow> decodeRaftLog raw out)"

fun put_logs :: "'b bolt \<Rightarrow> raft_log list \<Rightarrow> 'b \<Rightarrow> 'b option" where
  "put_logs bo [] b = Some b"
| "put_logs bo (l # ls) b =
     (case b_put bo b (logkey (log_Index l)) (encodeRaftLog l) of None \<Rightarrow> None | Some b' \<Rightarrow> put_logs bo ls b')"

definition StoreLogs :: "'b bolt \<Rightarrow> bool \<Rightarrow> raft_log list \<Rightarrow> 'b store \<Rightarrow> store_error option \<times> 'b store" where
  "StoreLogs bo commit_ok logs s =
     db_update commit_ok
       (case put_logs bo logs (st_logs s) of None \<Rightarrow> Inl PutFailed | Some b \<Rightarrow> Inr (s\<lparr>st_logs := b\<rparr>)) s"

definition StoreLog :: "'b bolt \<Rightarrow> bool \<Rightarrow> raft_log \<Rightarrow> 'b store \<Rightarrow> store_error option \<times> 'b store" where
  "StoreLog bo commit_ok l s = StoreLogs bo commit_ok [l] s"

text \<open>The cursor loop of \<^verbatim>\<open>DeleteRange\<close> over the keys from \<open>min\<close> on.\<close>

fun delete_keys :: "'b bolt \<Rightarrow> u64 \<Rightarrow> string list \<Rightarrow> 'b \<Rightarrow> 'b option" where
  "delete_keys bo hi [] b = Some b"
| "delete_keys bo hi (k # ks) b =
     (if hi < decode_key k then Some b
      else case b_del bo b k of None \<Rightarrow> None | Some b' \<Rightarrow> delete_keys bo hi ks b')"

definition DeleteRange :: "'b bolt \<Rightarrow> bool \<Rightarrow> u64 \<Rightarrow> u64 \<Rightarrow> 'b store \<Rightarrow> store_error option \<times> 'b store" where
  "DeleteRange bo commit_ok lo hi s =
     (if hi < lo then (None, s)
      else let ks = dropWhile (\<lambda>k. k < logkey lo) (map fst (b_scan bo (st_logs s)))
           in db_update commit_ok
                (case delete_keys bo hi ks (st_logs s) of None \<Rightarrow> Inl DeleteFailed | Some b \<Rightarrow> Inr (s\<lparr>st_logs := b\<rparr>)) s)"

section \<open>The stable store\<close>

definition store_Set :: "'b bolt \<Rightarrow> bool \<Rightarrow> string \<Rightarrow> byte list \<Rightarrow> 'b store \<Rightarrow> store_error option \<times> 'b store" where
  "store_Set bo commit_ok key v s =
     db_update commit_ok
       (case b_put bo (st_stable s) key v of None \<Rightarrow> Inl PutFailed | Some b \<Rightarrow> Inr (s\<lparr>st_stable := b\<rparr>)) s"

definition store_Get :: "'b bolt \<Rightarrow> 'b store \<Rightarrow> string \<Rightarrow> byte list" where
  "store_Get bo s key = (case b_get bo (st_stable s) key of None \<Rightarrow> [] | Some v \<Rightarrow> v)"

definition SetUint64 :: "'b bolt \<Rightarrow> bool \<Rightarrow> string \<Rightarrow> u64 \<Rightarrow> 'b store \<Rightarrow> store_error option \<times> 'b store" where
  "SetUint64 bo commit_ok key v s = store_Set bo commit_ok key (u64key v) s"

definition GetUint64 :: "'b bolt \<Rightarrow> 'b store \<Rightarrow> string \<Rightarrow> store_error + u64" where
  "GetUint64 bo s key =
     (let v = store_Get bo s key
      in if length v = 0 then Inr 0
         else if length v \<noteq> 8 then Inl (InvalidStableUint (length v))
         else Inr (decodeU64 (Some v)))"

section \<open>Canonical state\<close>

definition canonicalGet :: "'b bolt \<Rightarrow> 'b store \<Rightarrow> string \<Rightarrow> byte list option" where
  "canonicalGet bo s p = b_get bo (st_canonical s) p"

definition canonicalEntries :: "'b bolt \<Rightarrow> 'b store \<Rightarrow> (string \<times> byte list) list" where
  "canonicalEntries bo s = b_scan bo (st_canonical s)"

definition store_revision :: "'b bolt \<Rightarrow> 'b store \<Rightarrow> u64" where
  "store_revision bo s = decodeU64 (b_get bo (st_meta s) keyRevision)"

definition revisionFloor :: "'b bolt \<Rightarrow> 'b store \<Rightarrow> u64" where
  "revisionFloor bo s = decodeU64 (b_get bo (st_meta s) keyRevisionFloor)"

definition schemaVersion :: "'b bolt \<Rightarrow> 'b store \<Rightarrow> u64" where
  "schemaVersion bo s = decodeU64 (b_get bo (st_meta s) keySchema)"

definition appliedIndex :: "'b bolt \<Rightarrow> 'b store \<Rightarrow> u64" where
  "appliedIndex bo s = decodeU64 (b_get bo (st_meta s) keyAppliedIndex)"

section \<open>Facts\<close>

lemma word_be_decode [simp]: "word_of_nat (be_decode (u64key v)) = v"
proof -
  have "unat v < 256 ^ 8" using unsigned_less [of v] by simp
  then show ?thesis by (simp add: u64key_def be_decode_encode)
qed

lemma length_u64key [simp]: "length (u64key v) = 8"
  by (simp add: u64key_def)

lemma decodeU64_u64key [simp]: "decodeU64 (Some (u64key v)) = v"
  by (simp add: decodeU64_def)

lemma decode_logkey [simp]: "decode_key (logkey v) = v"
  by (simp add: decode_key_def logkey_def)

text \<open>Keys sort as the numbers they encode.\<close>

lemma lexord_bytes_of_nat:
  "length xs = length ys \<Longrightarrow> be_decode_acc a xs < be_decode_acc a ys \<longleftrightarrow> string_of xs < string_of ys"
proof (induction xs ys arbitrary: a rule: list_induct2)
  case Nil
  then show ?case by (simp add: string_of_def)
next
  case (Cons x xs y ys)
  have bound: "be_decode_acc b zs = b * 256 ^ length zs + be_decode zs" for b zs
  proof (induction zs arbitrary: b)
    case (Cons z zs)
    have "be_decode (z # zs) = be_decode_acc (unat z) zs" by (simp add: be_decode_def)
    then show ?case using Cons [of "b * 256 + unat z"] Cons [of "unat z"] by (simp add: algebra_simps)
  qed simp
  show ?case
  proof (cases "x = y")
    case True
    then show ?thesis using Cons.IH [of "a * 256 + unat y"] by (simp add: string_of_def)
  next
    case False
    have lt: "be_decode_acc (a * 256 + unat u) us < be_decode_acc (a * 256 + unat v) vs"
      if "unat u < unat v" "length us = length vs" for u v :: byte and us vs
    proof -
      have "be_decode us < 256 ^ length us" by (rule be_decode_less)
      moreover have "(a * 256 + unat u + 1) * 256 ^ length us \<le> (a * 256 + unat v) * 256 ^ length us"
        using that(1) by (intro mult_right_mono) auto
      ultimately show ?thesis using that(2) by (simp add: bound algebra_simps)
    qed
    have "char_of (unat x) < char_of (unat y) \<longleftrightarrow> unat x < unat y"
      by (simp add: less_char_def)
    moreover have "unat x \<noteq> unat y" using False by (simp add: word_unat_eq_iff)
    moreover have "char_of (unat x) \<noteq> char_of (unat y)"
      using False by (metis of_char_char_of_byte)
    ultimately show ?thesis
      using lt [of x y xs ys] lt [of y x ys xs] Cons.hyps
      by (cases "unat x < unat y") (auto simp: string_of_def)
  qed
qed

lemma logkey_less: "logkey u < logkey v \<longleftrightarrow> u < v"
proof -
  have "be_decode (u64key w) = unat w" for w :: u64
  proof -
    have "unat w < 256 ^ 8" using unsigned_less [of w] by simp
    then show ?thesis by (simp add: u64key_def be_decode_encode)
  qed
  then show ?thesis
    using lexord_bytes_of_nat [of "u64key u" "u64key v" 0]
    by (simp add: logkey_def be_decode_def word_less_nat_alt)
qed

text \<open>Decoding an encoded entry gives it back, whatever was in the output before; a zero time is the one
  value that is not written over the output's.\<close>

lemma sint_word_of_int: "- (2 ^ 63) \<le> n \<Longrightarrow> n < 2 ^ 63 \<Longrightarrow> sint (word_of_int n :: u64) = n"
  by (simp add: signed_take_bit_int_eq_self sint_sbintrunc')

lemma decodeRaftLog_encodeRaftLog:
  assumes "- (2 ^ 63) \<le> log_AppendedAt l" and "log_AppendedAt l < 2 ^ 63" and "log_AppendedAt l \<noteq> 0"
    and "length (log_Data l) < 2 ^ 64" and "length (log_Extensions l) < 2 ^ 64"
  shows "decodeRaftLog (encodeRaftLog l) out = Inr l"
proof -
  define dl xl ap where "dl = be_encode 8 (length (log_Data l))" and "xl = be_encode 8 (length (log_Extensions l))"
    and "ap = u64key (word_of_int (log_AppendedAt l))"
  have raw: "encodeRaftLog l = [1] @ u64key (log_Index l) @ u64key (log_Term l) @ [log_Type l] @ ap @ dl @ xl
      @ log_Data l @ log_Extensions l"
    by (simp add: encodeRaftLog_def dl_def xl_def ap_def)
  have lens: "length dl = 8" "length xl = 8" "length ap = 8" by (simp_all add: dl_def xl_def ap_def)
  have decs: "be_decode dl = length (log_Data l)" "be_decode xl = length (log_Extensions l)"
    using assms(4,5) by (simp_all add: dl_def xl_def be_decode_encode)
  have time: "sint (word_of_nat (be_decode ap) :: u64) = log_AppendedAt l"
    unfolding ap_def word_be_decode by (rule sint_word_of_int [OF assms(1,2)])
  note mid = subslice_append_mid
  have parts: "subslice (encodeRaftLog l) (Suc 0) 9 = Some (u64key (log_Index l))"
    "subslice (encodeRaftLog l) 9 17 = Some (u64key (log_Term l))"
    "index_at (encodeRaftLog l) 17 = Some (log_Type l)"
    "subslice (encodeRaftLog l) 18 26 = Some ap" "subslice (encodeRaftLog l) 26 34 = Some dl"
    "subslice (encodeRaftLog l) 34 42 = Some xl"
    "subslice (encodeRaftLog l) 42 (42 + length (log_Data l)) = Some (log_Data l)"
    using mid [of 1 "[1]" 9 "u64key (log_Index l)"] mid [of 9 "[1] @ u64key (log_Index l)" 17 "u64key (log_Term l)"]
      index_at_append_mid [of 17 "[1] @ u64key (log_Index l) @ u64key (log_Term l)" "log_Type l"]
      mid [of 18 "[1] @ u64key (log_Index l) @ u64key (log_Term l) @ [log_Type l]" 26 ap]
      mid [of 26 "[1] @ u64key (log_Index l) @ u64key (log_Term l) @ [log_Type l] @ ap" 34 dl]
      mid [of 34 "[1] @ u64key (log_Index l) @ u64key (log_Term l) @ [log_Type l] @ ap @ dl" 42 xl]
      mid [of 42 "[1] @ u64key (log_Index l) @ u64key (log_Term l) @ [log_Type l] @ ap @ dl @ xl" _ "log_Data l"]
    by (simp_all add: raw lens)
  have ext: "subslice (encodeRaftLog l) (42 + length (log_Data l)) (42 + length (log_Data l) + length (log_Extensions l))
      = Some (log_Extensions l)"
    using mid [of "42 + length (log_Data l)"
        "[1] @ u64key (log_Index l) @ u64key (log_Term l) @ [log_Type l] @ ap @ dl @ xl @ log_Data l" _ "log_Extensions l" "[]"]
    by (simp add: raw lens)
  have hdr: "length (encodeRaftLog l) = 42 + length (log_Data l) + length (log_Extensions l)" "encodeRaftLog l ! 0 = 1"
    by (simp_all add: raw lens)
  show ?thesis
    using assms(3) by (simp add: decodeRaftLog_def hdr parts decs time ext Let_def)
qed

lemma decodeRaftLog_no_panic: "decodeRaftLog raw out \<noteq> Inl StorePanic"
  by (auto simp: decodeRaftLog_def Let_def bounds_simps split: option.splits)

section \<open>The log store as a finite map from indexes\<close>

text \<open>The view of the log bucket Raft relies on: which raw entry an index has.\<close>

definition log_at :: "'b bolt \<Rightarrow> 'b store \<Rightarrow> u64 \<Rightarrow> byte list option" where
  "log_at bo s i = b_get bo (st_logs s) (logkey i)"

definition logs_ok :: "'b bolt \<Rightarrow> 'b store \<Rightarrow> bool" where
  "logs_ok bo s \<longleftrightarrow> (\<forall>k. b_get bo (st_logs s) k \<noteq> None \<longrightarrow> k = logkey (decode_key k))"

lemma logkey_inject [simp]: "logkey u = logkey v \<longleftrightarrow> u = v"
  by (metis decode_logkey)

lemma bolt_laws:
  assumes "bolt_ok bo"
  shows "b_get bo (b_empty bo) k = None"
    "b_put bo b k v = Some b' \<Longrightarrow> b_get bo b' = (b_get bo b)(k \<mapsto> v)"
    "b_del bo b k = Some b' \<Longrightarrow> b_get bo b' = (b_get bo b)(k := None)"
    "b_get bo b = map_of (b_scan bo b)"
    "sorted_wrt (<) (map fst (b_scan bo b))"
  using assms unfolding bolt_ok_def by blast+

lemma scan_keys: "bolt_ok bo \<Longrightarrow> k \<in> fst ` set (b_scan bo b) \<longleftrightarrow> b_get bo b k \<noteq> None"
  by (simp add: bolt_laws(4) map_of_eq_None_iff)

lemma put_logs_get:
  "bolt_ok bo \<Longrightarrow> put_logs bo ls b = Some b' \<Longrightarrow>
     b_get bo b' = (b_get bo b) ++ map_of (rev (map (\<lambda>l. (logkey (log_Index l), encodeRaftLog l)) ls))"
proof (induction ls arbitrary: b)
  case (Cons l ls)
  then obtain b1 where "b_put bo b (logkey (log_Index l)) (encodeRaftLog l) = Some b1" "put_logs bo ls b1 = Some b'"
    by (auto split: option.splits)
  with Cons show ?case by (auto simp: bolt_laws(2) [OF Cons.prems(1)] map_add_def split: option.splits)
qed simp

lemma delete_keys_get:
  "bolt_ok bo \<Longrightarrow> delete_keys bo hi ks b = Some b' \<Longrightarrow>
     b_get bo b' = (\<lambda>k. if k \<in> set (takeWhile (\<lambda>k. \<not> hi < decode_key k) ks) then None else b_get bo b k)"
proof (induction ks arbitrary: b)
  case (Cons k ks)
  show ?case
  proof (cases "hi < decode_key k")
    case False
    then obtain b1 where "b_del bo b k = Some b1" "delete_keys bo hi ks b1 = Some b'"
      using Cons.prems(2) by (auto split: option.splits)
    with Cons False show ?thesis by (auto simp: bolt_laws(3) [OF Cons.prems(1)] fun_eq_iff)
  qed (use Cons in simp)
qed simp

lemma takeWhile_dropWhile_sorted:
  assumes "sorted_wrt (<) ks" and "\<forall>k\<in>set ks. k = logkey (decode_key k)"
  shows "set (takeWhile (\<lambda>k. \<not> hi < decode_key k) (dropWhile (\<lambda>k. k < logkey lo) ks))
    = {k \<in> set ks. lo \<le> decode_key k \<and> decode_key k \<le> hi}"
  using assms
proof (induction ks)
  case (Cons k ks)
  then have k: "k = logkey (decode_key k)" by simp
  have less: "k < logkey lo \<longleftrightarrow> decode_key k < lo"
    using logkey_less [of "decode_key k" lo] k by simp
  have above: "decode_key k < decode_key j" if "j \<in> set ks" for j
    using Cons.prems that k logkey_less [of "decode_key k" "decode_key j"] by auto
  show ?case
  proof (cases "decode_key k < lo")
    case True
    then show ?thesis using Cons less by auto
  next
    case False
    then have drop: "dropWhile (\<lambda>k. k < logkey lo) (k # ks) = k # ks" by (simp add: less)
    have "dropWhile (\<lambda>k. k < logkey lo) ks = ks"
    proof (cases ks)
      case (Cons j js)
      then have "\<not> j < logkey lo"
        using above [of j] False Cons.prems Cons logkey_less [of "decode_key j" lo] by auto
      then show ?thesis using Cons by simp
    qed simp
    then have "set (takeWhile (\<lambda>k. \<not> hi < decode_key k) ks) = {k \<in> set ks. lo \<le> decode_key k \<and> decode_key k \<le> hi}"
      using Cons by simp
    then show ?thesis
      unfolding drop using False above by (fastforce simp: not_less)
  qed
qed simp

lemma DeleteRange_ok:
  assumes bo: "bolt_ok bo" and ok: "logs_ok bo s" and d: "DeleteRange bo c lo hi s = (None, s')"
  shows "log_at bo s' i = (if lo \<le> i \<and> i \<le> hi then None else log_at bo s i)"
proof (cases "hi < lo")
  case True
  then show ?thesis using d by (auto simp: DeleteRange_def)
next
  case False
  let ?ks = "map fst (b_scan bo (st_logs s))"
  obtain b where b: "delete_keys bo hi (dropWhile (\<lambda>k. k < logkey lo) ?ks) (st_logs s) = Some b"
    and s': "s' = s\<lparr>st_logs := b\<rparr>"
    using d False by (auto simp: DeleteRange_def Let_def db_update_def split: option.splits if_splits)
  have keys: "\<forall>k\<in>set ?ks. k = logkey (decode_key k)"
    using ok scan_keys [OF bo] by (auto simp: logs_ok_def)
  have "logkey i \<in> set (takeWhile (\<lambda>k. \<not> hi < decode_key k) (dropWhile (\<lambda>k. k < logkey lo) ?ks)) \<longleftrightarrow>
      b_get bo (st_logs s) (logkey i) \<noteq> None \<and> lo \<le> i \<and> i \<le> hi"
    unfolding takeWhile_dropWhile_sorted [OF bolt_laws(5) [OF bo] keys]
    using scan_keys [OF bo, of "logkey i" "st_logs s"] by simp
  then show ?thesis
    by (auto simp: log_at_def s' delete_keys_get [OF bo b])
qed

lemma index_extremes:
  assumes bo: "bolt_ok bo" and ok: "logs_ok bo s"
  shows "log_at bo s i \<noteq> None \<Longrightarrow> log_at bo s (FirstIndex bo s) \<noteq> None \<and> FirstIndex bo s \<le> i \<and>
      log_at bo s (LastIndex bo s) \<noteq> None \<and> i \<le> LastIndex bo s"
proof -
  assume "log_at bo s i \<noteq> None"
  define ks where "ks = map fst (b_scan bo (st_logs s))"
  have mem: "k \<in> set ks \<longleftrightarrow> b_get bo (st_logs s) k \<noteq> None" for k
    using scan_keys [OF bo] by (simp add: ks_def)
  have i: "logkey i \<in> set ks" using \<open>log_at bo s i \<noteq> None\<close> by (simp add: mem log_at_def)
  have srt: "sorted_wrt (<) ks" using bolt_laws(5) [OF bo] by (simp add: ks_def)
  have key: "k \<in> set ks \<Longrightarrow> k = logkey (decode_key k)" for k using ok mem by (simp add: logs_ok_def)
  have ne: "ks \<noteq> []" using i by auto
  have first: "FirstIndex bo s = decode_key (hd ks)"
    using ne by (cases "b_scan bo (st_logs s)") (auto simp: FirstIndex_def ks_def split: prod.splits)
  have last: "LastIndex bo s = decode_key (last ks)"
    using ne by (cases "b_scan bo (st_logs s)" rule: rev_cases) (auto simp: LastIndex_def ks_def split: prod.splits)
  have hd_le: "hd ks \<le> logkey i" using srt i ne by (cases ks) auto
  have le_last: "logkey i \<le> last ks"
    using srt i ne by (induction ks) (auto intro: order_less_imp_le)
  have "hd ks \<in> set ks" "last ks \<in> set ks" using ne by simp_all
  then show ?thesis
    unfolding first last log_at_def
    using key [of "hd ks"] key [of "last ks"] mem [of "hd ks"] mem [of "last ks"] hd_le le_last
      logkey_less [of i "decode_key (hd ks)"] logkey_less [of "decode_key (last ks)" i]
    by (simp add: not_less [symmetric])
qed

end
