(* ===== verification/GoPath.thy ===== *)
theory GoPath
  imports Prelude
begin

text \<open>
  The part of \<^verbatim>\<open>path/filepath\<close> (on Unix) the program uses: \<^verbatim>\<open>Clean\<close> as the processing of the path's
  components with a stack, \<^verbatim>\<open>Join\<close>, \<^verbatim>\<open>IsAbs\<close>; and \<^verbatim>\<open>strings.ToLower\<close> on ASCII.
\<close>

fun split_on :: "char \<Rightarrow> string \<Rightarrow> string list" where
  "split_on c [] = [[]]"
| "split_on c (x # xs) =
     (if x = c then [] # split_on c xs
      else case split_on c xs of [] \<Rightarrow> [[x]] | w # ws \<Rightarrow> (x # w) # ws)"

fun join_slash :: "string list \<Rightarrow> string" where
  "join_slash [] = []"
| "join_slash [x] = x"
| "join_slash (x # xs) = x @ ''/'' @ join_slash xs"

text \<open>\<open>out\<close> is the cleaned prefix, last component first. A leading slash swallows what would climb above it.\<close>

fun clean_parts :: "bool \<Rightarrow> string list \<Rightarrow> string list \<Rightarrow> string list" where
  "clean_parts rooted out [] = rev out"
| "clean_parts rooted out (w # ws) =
     (if w = [] \<or> w = ''.'' then clean_parts rooted out ws
      else if w = ''..'' then
        (case out of
           [] \<Rightarrow> if rooted then clean_parts rooted [] ws else clean_parts rooted [''..''] ws
         | o1 # os \<Rightarrow> if o1 = ''..'' then clean_parts rooted (''..'' # out) ws else clean_parts rooted os ws)
      else clean_parts rooted (w # out) ws)"

definition IsAbs :: "string \<Rightarrow> bool" where
  "IsAbs p \<longleftrightarrow> has_prefix p ''/''"

definition path_Clean :: "string \<Rightarrow> string" where
  "path_Clean p =
     (if p = [] then ''.''
      else let rooted = IsAbs p;
               parts = clean_parts rooted [] (split_on (CHR ''/'') p)
           in if rooted then ''/'' @ join_slash parts
              else if parts = [] then ''.'' else join_slash parts)"

definition path_Join :: "string \<Rightarrow> string \<Rightarrow> string" where
  "path_Join a b =
     (if a = [] \<and> b = [] then []
      else if a = [] then path_Clean b
      else path_Clean (a @ ''/'' @ b))"

definition trim_prefix :: "string \<Rightarrow> string \<Rightarrow> string" where
  "trim_prefix s p = (if has_prefix s p then drop (length p) s else s)"

definition to_lower :: "string \<Rightarrow> string" where
  "to_lower s = map (\<lambda>c. if CHR ''A'' \<le> c \<and> c \<le> CHR ''Z'' then char_of ((of_char c :: nat) + 32) else c) s"

section \<open>Splitting and joining\<close>

lemma split_on_not_Nil [simp]: "split_on c s \<noteq> []"
  by (induction s) (auto split: list.splits)

lemma split_on_single: "c \<notin> set w \<Longrightarrow> split_on c w = [w]"
  by (induction w) auto

lemma split_on_append: "c \<notin> set w \<Longrightarrow> split_on c (w @ c # s) = w # split_on c s"
  by (induction w) auto

lemma split_join:
  "ws \<noteq> [] \<Longrightarrow> \<forall>w\<in>set ws. CHR ''/'' \<notin> set w \<Longrightarrow> split_on (CHR ''/'') (join_slash ws) = ws"
  by (induction ws rule: join_slash.induct) (auto simp: split_on_single split_on_append)

lemma split_on_chars: "w \<in> set (split_on c s) \<Longrightarrow> c \<notin> set w"
proof (induction s arbitrary: w)
  case (Cons x s)
  then show ?case by (cases "split_on c s") (auto split: if_splits)
qed simp

text \<open>A component that stays: not empty, no dot, no double dot, no slash in it.\<close>

definition plain_part :: "string \<Rightarrow> bool" where
  "plain_part w \<longleftrightarrow> w \<noteq> [] \<and> w \<noteq> ''.'' \<and> w \<noteq> ''..'' \<and> CHR ''/'' \<notin> set w"

lemma clean_parts_plain:
  "\<forall>w\<in>set ws. plain_part w \<Longrightarrow> clean_parts rooted out ws = rev out @ ws"
  by (induction ws arbitrary: out) (auto simp: plain_part_def)

text \<open>What \<open>clean_parts\<close> leaves on a relative path: double dots in front, then plain components.\<close>

definition climbed :: "string list \<Rightarrow> bool" where
  "climbed ws \<longleftrightarrow> (\<exists>n ps. ws = replicate n ''..'' @ ps \<and> (\<forall>w\<in>set ps. plain_part w))"

lemma climbed_push: "climbed (rev out) \<Longrightarrow> plain_part w \<Longrightarrow> climbed (rev (w # out))"
proof -
  assume "climbed (rev out)" and w: "plain_part w"
  then obtain n ps where "rev out = replicate n ''..'' @ ps" "\<forall>w\<in>set ps. plain_part w"
    unfolding climbed_def by blast
  then show ?thesis
    unfolding climbed_def using w by (intro exI [of _ n] exI [of _ "ps @ [w]"]) auto
qed

lemma climbed_snoc_cases:
  assumes "climbed (ws @ [w])"
  shows "climbed ws \<and> (plain_part w \<or> w = ''..'' \<and> (\<exists>n. ws = replicate n ''..''))"
proof -
  obtain n ps where e: "ws @ [w] = replicate n ''..'' @ ps" and p: "\<forall>w\<in>set ps. plain_part w"
    using assms unfolding climbed_def by blast
  show ?thesis
  proof (cases ps rule: rev_cases)
    case Nil
    then obtain m where "n = Suc m" using e by (cases n) auto
    then have "replicate n ''..'' = replicate m ''..'' @ [''..'']" by (simp add: replicate_append_same)
    with e Nil have "ws = replicate m ''..''" "w = ''..''" by auto
    then show ?thesis unfolding climbed_def by (intro conjI disjI2 exI [of _ m] exI [of _ "[]"]) auto
  next
    case (snoc qs q)
    then have "ws = replicate n ''..'' @ qs" "w = q" using e by auto
    then show ?thesis using p snoc unfolding climbed_def by auto
  qed
qed

lemma climbed_dots: "climbed (replicate n ''..'')"
  unfolding climbed_def by (intro exI [of _ n] exI [of _ "[]"]) simp

lemma clean_parts_climbed:
  "climbed (rev out) \<Longrightarrow> \<forall>w\<in>set ws. CHR ''/'' \<notin> set w \<Longrightarrow> climbed (clean_parts False out ws)"
proof (induction ws arbitrary: out)
  case (Cons w ws)
  note IH = Cons.IH and prems = Cons.prems
  have ws: "\<forall>w\<in>set ws. CHR ''/'' \<notin> set w" using prems(2) by simp
  consider "w = [] \<or> w = ''.''" | "w = ''..''" | "plain_part w"
    using prems(2) by (auto simp: plain_part_def)
  then show ?case
  proof cases
    case 1
    then show ?thesis using IH [OF prems(1) ws] by auto
  next
    case 2
    show ?thesis
    proof (cases out)
      case Nil
      then show ?thesis using 2 IH [of "[''..'']"] ws climbed_dots [of 1] by simp
    next
      case (Cons o1 os)
      note c = climbed_snoc_cases [of "rev os" o1]
      show ?thesis
      proof (cases "o1 = ''..''")
        case True
        then obtain n where n: "rev os = replicate n ''..''"
          using c Cons prems(1) by (auto simp: plain_part_def)
        have "rev (''..'' # out) = replicate (Suc (Suc n)) ''..''"
          using Cons True n by (simp add: replicate_append_same)
        then have "climbed (rev (''..'' # out))" using climbed_dots [of "Suc (Suc n)"] by (simp only:)
        then have "climbed (clean_parts False (''..'' # out) ws)" by (rule IH [OF _ ws])
        then show ?thesis using 2 True Cons by simp
      next
        case False
        then show ?thesis using 2 c Cons prems(1) IH [of os] ws by simp
      qed
    qed
  next
    case 3
    then have "climbed (rev (w # out))" using climbed_push prems(1) by blast
    then show ?thesis using 3 IH [of "w # out"] ws by (simp add: plain_part_def)
  qed
qed simp

lemma clean_parts_dots:
  "\<forall>w\<in>set ws. plain_part w \<Longrightarrow>
     clean_parts False (replicate m ''..'') (replicate n ''..'' @ ws) = replicate (m + n) ''..'' @ ws"
proof (induction n arbitrary: m)
  case 0
  then show ?case by (simp add: clean_parts_plain)
next
  case (Suc n)
  have "clean_parts False (replicate m ''..'') (replicate (Suc n) ''..'' @ ws)
      = clean_parts False (replicate (Suc m) ''..'') (replicate n ''..'' @ ws)"
    by (cases m) simp_all
  then show ?case using Suc.IH [of "Suc m"] Suc.prems by simp
qed

lemma clean_parts_rooted:
  "\<forall>w\<in>set out. plain_part w \<Longrightarrow> \<forall>w\<in>set ws. CHR ''/'' \<notin> set w \<Longrightarrow>
     \<forall>w\<in>set (clean_parts True out ws). plain_part w"
proof (induction ws arbitrary: out)
  case (Cons w ws)
  consider "w = [] \<or> w = ''.''" | "w = ''..''" | "plain_part w"
    using Cons.prems(2) by (auto simp: plain_part_def)
  then show ?case
  proof cases
    case 1
    then have "clean_parts True out (w # ws) = clean_parts True out ws" by auto
    then show ?thesis using Cons.IH [OF Cons.prems(1)] Cons.prems(2) by simp
  next
    case 2
    then obtain out' where "clean_parts True out (w # ws) = clean_parts True out' ws" "set out' \<subseteq> set out"
    proof (cases out)
      case (Cons o1 os)
      then have "o1 \<noteq> ''..''" using Cons.prems \<open>\<forall>w\<in>set out. plain_part w\<close> by (simp add: plain_part_def)
      then show ?thesis using that [of os] 2 Cons by auto
    qed (use that [of "[]"] 2 in simp)
    then show ?thesis using Cons.IH [of out'] Cons.prems by auto
  next
    case 3
    then have "clean_parts True out (w # ws) = clean_parts True (w # out) ws" by (simp add: plain_part_def)
    then show ?thesis using Cons.IH [of "w # out"] Cons.prems 3 by simp
  qed
qed simp

text \<open>A cleaned path is a root of plain components, or dots and plain components, or just a dot.\<close>

lemma path_Clean_form:
  obtains (abs) ws where "path_Clean p = ''/'' @ join_slash ws" "\<forall>w\<in>set ws. plain_part w"
  | (rel) ws where "path_Clean p = join_slash ws" "ws \<noteq> []" "climbed ws"
  | (dot) "path_Clean p = ''.''"
proof -
  have parts: "\<forall>w\<in>set (split_on (CHR ''/'') p). CHR ''/'' \<notin> set w" using split_on_chars by blast
  have c: "climbed (clean_parts False [] (split_on (CHR ''/'') p))"
    using clean_parts_climbed [of "[]"] parts climbed_dots [of 0] by simp
  have r: "\<forall>w\<in>set (clean_parts True [] (split_on (CHR ''/'') p)). plain_part w"
    using clean_parts_rooted [of "[]"] parts by simp
  consider "p = []" | "p \<noteq> []" "IsAbs p" | "p \<noteq> []" "\<not> IsAbs p" by blast
  then show ?thesis
  proof cases
    case 1
    then show ?thesis using dot by (simp add: path_Clean_def)
  next
    case 2
    then show ?thesis using abs r by (simp add: path_Clean_def Let_def)
  next
    case 3
    then show ?thesis using rel c dot
      by (cases "clean_parts False [] (split_on (CHR ''/'') p) = []") (simp_all add: path_Clean_def Let_def)
  qed
qed

lemma climbed_no_slash: "climbed ws \<Longrightarrow> \<forall>w\<in>set ws. CHR ''/'' \<notin> set w \<and> w \<noteq> []"
proof -
  assume "climbed ws"
  then obtain n ps where "ws = replicate n ''..'' @ ps" "\<forall>w\<in>set ps. plain_part w"
    unfolding climbed_def by blast
  then have "w = ''..'' \<or> plain_part w" if "w \<in> set ws" for w
    using that by auto
  moreover have "CHR ''/'' \<notin> set ''..''" by simp
  ultimately show ?thesis unfolding plain_part_def by blast
qed

lemma join_slash_append:
  "xs \<noteq> [] \<Longrightarrow> ys \<noteq> [] \<Longrightarrow> join_slash (xs @ ys) = join_slash xs @ ''/'' @ join_slash ys"
proof (induction xs rule: join_slash.induct)
  case (2 x)
  then show ?case by (cases ys) simp_all
qed simp_all

lemma join_slash_head: "w \<noteq> [] \<Longrightarrow> hd (join_slash (w # ws)) = hd w \<and> join_slash (w # ws) \<noteq> []"
  by (cases ws) simp_all

lemma not_abs_join: "ws \<noteq> [] \<Longrightarrow> \<forall>w\<in>set ws. CHR ''/'' \<notin> set w \<and> w \<noteq> [] \<Longrightarrow> \<not> IsAbs (join_slash ws)"
proof (cases ws)
  case (Cons w us)
  assume a: "\<forall>w\<in>set ws. CHR ''/'' \<notin> set w \<and> w \<noteq> []"
  then have "hd w \<noteq> CHR ''/''" using Cons by (cases w) auto
  moreover have "hd (join_slash ws) = hd w" "join_slash ws \<noteq> []" using join_slash_head [of w us] a Cons by auto
  ultimately show ?thesis by (cases "join_slash ws") (auto simp: IsAbs_def has_prefix_def)
qed simp

text \<open>Joining plain components below a cleaned root appends them.\<close>

lemma path_Join_below:
  assumes root: "root = path_Clean s" "root \<noteq> ''.''" "root \<noteq> ''/''"
    and ws: "ws \<noteq> []" "\<forall>w\<in>set ws. plain_part w"
  shows "path_Join root (join_slash ws) = root @ ''/'' @ join_slash ws"
proof -
  have wsl: "\<forall>w\<in>set ws. CHR ''/'' \<notin> set w" using ws(2) by (simp add: plain_part_def)
  show ?thesis
  proof (cases rule: path_Clean_form [of s])
    case (abs us)
    have us: "us \<noteq> []" using abs root by (cases us) auto
    then have j: "root @ ''/'' @ join_slash ws = CHR ''/'' # join_slash (us @ ws)"
      using abs root ws by (simp add: join_slash_append)
    have "split_on (CHR ''/'') (CHR ''/'' # join_slash (us @ ws)) = [] # us @ ws"
      using split_join [of "us @ ws"] us abs(2) wsl by (auto simp: plain_part_def)
    then have "path_Clean (CHR ''/'' # join_slash (us @ ws)) = CHR ''/'' # join_slash (us @ ws)"
      using clean_parts_plain [of "us @ ws" True "[]"] ball_Un abs(2) ws(2)
      by (simp add: path_Clean_def IsAbs_def has_prefix_def Let_def ball_Un)
    then show ?thesis using j root abs by (simp add: path_Join_def)
  next
    case (rel us)
    have all: "\<forall>w\<in>set (us @ ws). CHR ''/'' \<notin> set w \<and> w \<noteq> []"
      using climbed_no_slash [OF rel(3)] ws(2) by (auto simp: plain_part_def)
    have j: "root @ ''/'' @ join_slash ws = join_slash (us @ ws)"
      using rel root ws by (simp add: join_slash_append)
    obtain n ps where u: "us = replicate n ''..'' @ ps" "\<forall>w\<in>set ps. plain_part w"
      using rel(3) unfolding climbed_def by blast
    have "clean_parts False [] (us @ ws) = us @ ws"
      using clean_parts_dots [of "ps @ ws" 0 n] u ws(2) by auto
    moreover have "split_on (CHR ''/'') (join_slash (us @ ws)) = us @ ws"
      using split_join [of "us @ ws"] all rel(2) by auto
    moreover have "\<not> IsAbs (join_slash (us @ ws))" using not_abs_join [OF _ all] rel(2) by simp
    moreover obtain u vs where uv: "us = u # vs" using rel(2) by (cases us) auto
    moreover have "u \<noteq> []" using all uv by simp
    then have "join_slash (us @ ws) \<noteq> []" "root \<noteq> []"
      using join_slash_head [of u "vs @ ws"] join_slash_head [of u vs] uv rel(1) root(1) by simp_all
    ultimately have "path_Clean (join_slash (us @ ws)) = join_slash (us @ ws)"
      using rel(2) by (simp add: path_Clean_def Let_def)
    then show ?thesis using j \<open>root \<noteq> []\<close> by (simp add: path_Join_def)
  next
    case dot
    then show ?thesis using root by simp
  qed
qed

text \<open>A trailing slash is cleaned away.\<close>

lemma split_on_snoc: "split_on c (s @ [c]) = split_on c s @ [[]]"
  by (induction s) (auto split: list.splits)

lemma clean_parts_snoc_nil: "clean_parts r out (ws @ [[]]) = clean_parts r out ws"
  by (induction r out ws rule: clean_parts.induct) (auto split: list.splits)

lemma path_Clean_trailing: "s \<noteq> [] \<Longrightarrow> path_Clean (s @ ''/'') = path_Clean s"
  using split_on_snoc [of "CHR ''/''" s]
  by (cases s) (simp_all add: path_Clean_def IsAbs_def has_prefix_def clean_parts_snoc_nil)

lemma path_Join_trailing: "a \<noteq> [] \<Longrightarrow> path_Join a (b @ ''/'') = path_Join a b"
  using path_Clean_trailing [of "a @ ''/'' @ b"] by (simp add: path_Join_def)

lemma path_Clean_not_Nil [simp]: "path_Clean s \<noteq> []"
proof (cases rule: path_Clean_form [of s])
  case (rel us)
  then show ?thesis using climbed_no_slash [OF rel(3)] join_slash_head [of "hd us" "tl us"] by (cases us) auto
qed simp_all

end
