(* ===== verification/CtlFSM.thy ===== *)
theory CtlFSM
  imports CtlStore GoPath NetIP NetUDP Encoding
begin

text \<open>
  \<^verbatim>\<open>internal/controlplane/fsm.go\<close>: the replicated state machine of the Controllers. A committed Raft entry is a
  mutation: it is checked against the canonical state, the route ownership invariant is checked on the
  state it would produce, and the changes, the revision and the applied index are stored in one
  transaction; then the changed files of the projection on disk follow. JSON decoding, SHA-256, the
  outcome of a commit and the failure of each file operation are parameters.
\<close>

section \<open>Data\<close>

record operation =
  op_Op :: string
  op_Path :: string
  op_Data :: "byte list"
  op_IfAbsent :: bool
  op_RequirePresent :: bool
  op_ExpectedSHA256 :: string

record mutation =
  mut_Version :: int
  mut_ID :: string
  mut_Kind :: string
  mut_IssuedAt :: int
  mut_Operations :: "operation list"
  mut_RevisionMinimum :: u64

record route_record =
  rr_CIDR :: string
  rr_NodeID :: string
  rr_OwnerNodeID :: string

record node_record =
  nr_AuthorizedRoutes :: "string list option"
  nr_AdvertisedRoutes :: "string list"
  nr_NodeID :: string
  nr_Revoked :: bool
  nr_Roles :: "(string \<times> bool) list"

record validated_route =
  vr_path :: string
  vr_owner :: string
  vr_prefix :: prefix

record snapshot_envelope =
  env_Version :: int
  env_SchemaVersion :: u64
  env_Revision :: u64
  env_Entries :: "(string \<times> byte list) list"
  env_Checksum :: string

record disk_file =
  file_data :: "byte list"
  file_perm :: nat
  file_regular :: bool

datatype io_op =
    MkdirAll | StatDir | ChmodDir | LstatFile | ReadExisting | CreateTemp | ChmodTemp | WriteTemp | SyncTemp
  | CloseTemp | RenameTemp | RemoveFile | WalkDir

datatype path_error = InvalidCanonicalPath | NotReplicated string

datatype route_conflict =
    BadRouteRecord string
  | OwnerMismatch string
  | BadRouteCIDR string
  | OwnerMissing string
  | BadOwnerRecord string
  | OwnerInactive string
  | OutsidePolicy string
  | OwnershipConflict prefix string prefix string

datatype conflict =
    PathExists string
  | PathMissing string
  | PreconditionFailed string
  | RouteConflict route_conflict

datatype fsm_error =
    BadMutationEncoding
  | IncompleteMutation
  | BadReconciliation
  | MinimumNeedsReconciliation
  | PathRejected path_error
  | UnsupportedOperation string
  | StoreFailed store_error
  | RevisionExhausted
  | Conflicting conflict
  | ProjectionEscaped
  | ProjectionIO io_op
  | BelowFloor u64 u64
  | BadSnapshotEncoding
  | IncompatibleSnapshot
  | ChecksumMismatch

record mutation_result =
  res_OK :: bool
  res_Revision :: u64
  res_Error :: "fsm_error option"
  res_Conflict :: bool

record 'b fsm =
  fsm_store :: "'b store"
  fsm_root :: string
  fsm_files :: "(string \<times> disk_file) list"

text \<open>The environment of an operation.\<close>

record 'b ctl_env =
  ce_bolt :: "'b bolt"
  ce_commit_ok :: bool
  ce_sha256 :: "byte list \<Rightarrow> byte list"
  ce_mutation :: "byte list \<Rightarrow> mutation option"
  ce_route :: "byte list \<Rightarrow> route_record option"
  ce_node :: "byte list \<Rightarrow> node_record option"
  ce_decode :: "byte list \<Rightarrow> snapshot_envelope option"
  ce_encode :: "snapshot_envelope \<Rightarrow> byte list"
  ce_io_fail :: "io_op \<Rightarrow> string \<Rightarrow> bool"

definition CommandVersion :: int where "CommandVersion = 1"
definition ControlSchemaVersion :: u64 where "ControlSchemaVersion = 1"

definition replicatedPrefixes :: "string list" where
  "replicatedPrefixes =
     [''control/identity/users/'', ''control/identity/usernames/'', ''control/identity/access/'',
      ''control/identity/refresh/'', ''control/devices/'', ''control/device-addresses/'',
      ''control/device-public-keys/'', ''control/access/'', ''control/p2p-delivery/'', ''control/node-join/'',
      ''control/node-join-used/'', ''control/nodes/'', ''control/node-public-keys/'',
      ''control/node-credentials/'', ''control/routes/'', ''control/topology/links/'',
      ''control/revocations/'', ''cluster/controllers/'']"

definition replicatedExact :: "string list" where
  "replicatedExact = [''cluster/cluster.json'', ''control/config.json'']"

definition NewStateMachine :: "'b store \<Rightarrow> string \<Rightarrow> (string \<times> disk_file) list \<Rightarrow> 'b fsm" where
  "NewStateMachine s stateRoot files =
     \<lparr>fsm_store = s, fsm_root = path_Clean stateRoot, fsm_files = files\<rparr>"

section \<open>Canonical paths\<close>

definition NormalizeReplicatedPath :: "string \<Rightarrow> path_error + string" where
  "NormalizeReplicatedPath p =
     (let clean = trim_prefix (path_Clean (trim_space p)) ''./''
      in if clean = ''.'' \<or> clean = [] \<or> has_prefix clean ''../'' \<or> IsAbs p then Inl InvalidCanonicalPath
         else if clean \<in> set replicatedExact then Inr clean
         else if list_ex (\<lambda>pre. has_prefix clean pre \<and> length pre < length clean) replicatedPrefixes then Inr clean
         else Inl (NotReplicated clean))"

definition sha256Hex :: "'b ctl_env \<Rightarrow> byte list \<Rightarrow> string" where
  "sha256Hex env v = hex_encode (ce_sha256 env v)"

section \<open>Route ownership\<close>

fun overlay_ops :: "string \<Rightarrow> operation list \<Rightarrow> (string \<times> byte list) list \<Rightarrow> (string \<times> byte list) list" where
  "overlay_ops pre [] m = m"
| "overlay_ops pre (x # ops) m =
     (if \<not> has_prefix (op_Path x) pre then overlay_ops pre ops m
      else if op_Op x = ''put'' then overlay_ops pre ops (AList.update (op_Path x) (op_Data x) m)
      else if op_Op x = ''delete'' then overlay_ops pre ops (AList.delete (op_Path x) m)
      else overlay_ops pre ops m)"

definition resultingPrefixRecords :: "'b bolt \<Rightarrow> 'b \<Rightarrow> string \<Rightarrow> operation list \<Rightarrow> (string \<times> byte list) list" where
  "resultingPrefixRecords bo canonical pre ops =
     overlay_ops pre ops
       (takeWhile (\<lambda>kv. has_prefix (fst kv) pre) (dropWhile (\<lambda>kv. fst kv < pre) (b_scan bo canonical)))"

definition grant_covers :: "prefix \<Rightarrow> string \<Rightarrow> bool" where
  "grant_covers p rawGrant =
     (case ParsePrefix rawGrant of
        None \<Rightarrow> False
      | Some grant \<Rightarrow> 0 < p_bits grant \<and> p_bits grant \<le> p_bits p \<and> Contains (Masked grant) (p_addr p))"

definition node_grants :: "node_record \<Rightarrow> string list" where
  "node_grants node = (case nr_AuthorizedRoutes node of None \<Rightarrow> nr_AdvertisedRoutes node | Some g \<Rightarrow> g)"

definition record_owner :: "route_record \<Rightarrow> string" where
  "record_owner r =
     (if trim_space (rr_OwnerNodeID r) = [] then trim_space (rr_NodeID r) else trim_space (rr_OwnerNodeID r))"

definition node_path :: "string \<Rightarrow> string" where
  "node_path owner = ''control/nodes/'' @ owner @ ''.json''"

definition check_route ::
  "'b ctl_env \<Rightarrow> (string \<times> byte list) list \<Rightarrow> string \<times> byte list \<Rightarrow> route_conflict + validated_route" where
  "check_route env nodes entry =
     (let (path, raw) = entry
      in case ce_route env raw of
           None \<Rightarrow> Inl (BadRouteRecord path)
         | Some r \<Rightarrow>
             let owner = record_owner r
             in if owner = [] \<or> (rr_NodeID r \<noteq> [] \<and> trim_space (rr_NodeID r) \<noteq> owner) then Inl (OwnerMismatch path)
                else case ParsePrefix (trim_space (rr_CIDR r)) of
                       None \<Rightarrow> Inl (BadRouteCIDR path)
                     | Some p0 \<Rightarrow>
                         if p_bits p0 = 0 then Inl (BadRouteCIDR path)
                         else let p = Masked p0
                              in case map_of nodes (node_path owner) of
                                   None \<Rightarrow> Inl (OwnerMissing owner)
                                 | Some nodeRaw \<Rightarrow>
                                     (case ce_node env nodeRaw of
                                        None \<Rightarrow> Inl (BadOwnerRecord owner)
                                      | Some node \<Rightarrow>
                                          if trim_space (nr_NodeID node) \<noteq> owner \<or> nr_Revoked node \<or>
                                             map_of (nr_Roles node) ''site_router'' \<noteq> Some True
                                          then Inl (OwnerInactive owner)
                                          else if list_ex (grant_covers p) (node_grants node)
                                            then Inr \<lparr>vr_path = path, vr_owner = owner, vr_prefix = p\<rparr>
                                          else Inl (OutsidePolicy path)))"

fun check_routes ::
  "'b ctl_env \<Rightarrow> (string \<times> byte list) list \<Rightarrow> (string \<times> byte list) list \<Rightarrow> route_conflict + validated_route list" where
  "check_routes env nodes [] = Inr []"
| "check_routes env nodes (x # xs) =
     (case check_route env nodes x of
        Inl e \<Rightarrow> Inl e
      | Inr v \<Rightarrow> (case check_routes env nodes xs of Inl e \<Rightarrow> Inl e | Inr vs \<Rightarrow> Inr (v # vs)))"

definition owners_clash :: "validated_route \<Rightarrow> validated_route \<Rightarrow> bool" where
  "owners_clash a b \<longleftrightarrow> vr_owner a \<noteq> vr_owner b \<and> Overlaps (vr_prefix a) (vr_prefix b)"

fun first_overlap :: "validated_route list \<Rightarrow> route_conflict option" where
  "first_overlap [] = None"
| "first_overlap (v # vs) =
     (case find (owners_clash v) vs of
        Some w \<Rightarrow> Some (OwnershipConflict (vr_prefix v) (vr_owner v) (vr_prefix w) (vr_owner w))
      | None \<Rightarrow> first_overlap vs)"

definition validateRouteOwnershipInvariant :: "'b ctl_env \<Rightarrow> 'b \<Rightarrow> operation list \<Rightarrow> route_conflict option" where
  "validateRouteOwnershipInvariant env canonical ops =
     (let routes = resultingPrefixRecords (ce_bolt env) canonical ''control/routes/'' ops;
          nodes = resultingPrefixRecords (ce_bolt env) canonical ''control/nodes/'' ops
      in case check_routes env nodes routes of
           Inl e \<Rightarrow> Some e
         | Inr validated \<Rightarrow> first_overlap (sort_slice (less_by vr_path) validated))"

section \<open>Applying a mutation\<close>

fun normalize_ops :: "operation list \<Rightarrow> fsm_error + operation list" where
  "normalize_ops [] = Inr []"
| "normalize_ops (x # ops) =
     (case NormalizeReplicatedPath (op_Path x) of
        Inl e \<Rightarrow> Inl (PathRejected e)
      | Inr p \<Rightarrow>
          if op_Op x \<noteq> ''put'' \<and> op_Op x \<noteq> ''delete'' then Inl (UnsupportedOperation (op_Op x))
          else case normalize_ops ops of Inl e \<Rightarrow> Inl e | Inr rest \<Rightarrow> Inr (x\<lparr>op_Path := p\<rparr> # rest))"

fun check_preconditions :: "'b ctl_env \<Rightarrow> 'b \<Rightarrow> operation list \<Rightarrow> conflict option" where
  "check_preconditions env canonical [] = None"
| "check_preconditions env canonical (x # ops) =
     (let existing = b_get (ce_bolt env) canonical (op_Path x)
      in if op_IfAbsent x \<and> existing \<noteq> None then Some (PathExists (op_Path x))
         else if op_RequirePresent x \<and> existing = None then Some (PathMissing (op_Path x))
         else if op_ExpectedSHA256 x \<noteq> [] \<and>
                 (case existing of None \<Rightarrow> True | Some v \<Rightarrow> sha256Hex env v \<noteq> to_lower (op_ExpectedSHA256 x))
           then Some (PreconditionFailed (op_Path x))
         else check_preconditions env canonical ops)"

fun apply_ops :: "'b bolt \<Rightarrow> operation list \<Rightarrow> 'b \<Rightarrow> store_error + 'b" where
  "apply_ops bo [] b = Inr b"
| "apply_ops bo (x # ops) b =
     (if op_Op x = ''put'' then
        (case b_put bo b (op_Path x) (op_Data x) of None \<Rightarrow> Inl PutFailed | Some b' \<Rightarrow> apply_ops bo ops b')
      else if op_Op x = ''delete'' then
        (case b_del bo b (op_Path x) of None \<Rightarrow> Inl DeleteFailed | Some b' \<Rightarrow> apply_ops bo ops b')
      else apply_ops bo ops b)"

fun put_meta :: "'b bolt \<Rightarrow> (string \<times> u64) list \<Rightarrow> 'b \<Rightarrow> 'b option" where
  "put_meta bo [] b = Some b"
| "put_meta bo ((k, v) # kvs) b = (case b_put bo b k (u64key v) of None \<Rightarrow> None | Some b' \<Rightarrow> put_meta bo kvs b')"

text \<open>What the transaction of \<^verbatim>\<open>Apply\<close> decides: an already applied entry, a conflict, or the new revision.\<close>

datatype tx_outcome = Replayed u64 | Conflicted u64 conflict | Applied u64

definition apply_tx ::
  "'b ctl_env \<Rightarrow> mutation \<Rightarrow> operation list \<Rightarrow> u64 \<Rightarrow> 'b store \<Rightarrow> fsm_error + tx_outcome \<times> 'b store" where
  "apply_tx env command ops index s =
     (let bo = ce_bolt env; revision = store_revision bo s
      in if index \<noteq> 0 \<and> index \<le> appliedIndex bo s then Inr (Replayed revision, s)
         else case (if index \<noteq> 0 then put_meta bo [(keyAppliedIndex, index)] (st_meta s) else Some (st_meta s)) of
                None \<Rightarrow> Inl (StoreFailed PutFailed)
              | Some meta1 \<Rightarrow>
                  let canonical = st_canonical s;
                      s1 = s\<lparr>st_meta := meta1\<rparr>;
                      conflict = (case check_preconditions env canonical ops of
                                    Some c \<Rightarrow> Some c
                                  | None \<Rightarrow> map_option RouteConflict (validateRouteOwnershipInvariant env canonical ops))
                  in case conflict of
                       Some c \<Rightarrow> Inr (Conflicted revision c, s1)
                     | None \<Rightarrow>
                         if mut_Kind command \<noteq> ''ReconcileRevision'' \<and> revision = - 1 then Inl RevisionExhausted
                         else let revision = (if mut_Kind command = ''ReconcileRevision''
                                              then (if revision < mut_RevisionMinimum command
                                                    then mut_RevisionMinimum command else revision)
                                              else revision + 1)
                              in case apply_ops bo ops canonical of
                                   Inl e \<Rightarrow> Inl (StoreFailed e)
                                 | Inr canonical' \<Rightarrow>
                                     (case put_meta bo [(keyRevision, revision), (keySchema, ControlSchemaVersion)] meta1 of
                                        None \<Rightarrow> Inl (StoreFailed PutFailed)
                                      | Some meta2 \<Rightarrow>
                                          Inr (Applied revision, s1\<lparr>st_canonical := canonical', st_meta := meta2\<rparr>)))"

section \<open>The projection on disk\<close>

definition atomicProjectionWrite ::
  "'b ctl_env \<Rightarrow> string \<Rightarrow> byte list \<Rightarrow> (string \<times> disk_file) list \<Rightarrow> fsm_error option \<times> (string \<times> disk_file) list" where
  "atomicProjectionWrite env path d files =
     (let bad = (\<lambda>x. ce_io_fail env x path)
      in if bad MkdirAll then (Some (ProjectionIO MkdirAll), files)
         else if bad StatDir then (Some (ProjectionIO StatDir), files)
         else if bad ChmodDir then (Some (ProjectionIO ChmodDir), files)
         else if bad LstatFile then (Some (ProjectionIO LstatFile), files)
         else let same = (case map_of files path of
                            None \<Rightarrow> False
                          | Some x \<Rightarrow> file_regular x \<and> file_perm x = 384 \<and> length (file_data x) = length d)
              in if same \<and> bad ReadExisting then (Some (ProjectionIO ReadExisting), files)
                 else if same \<and> map_option file_data (map_of files path) = Some d then (None, files)
                 else case find bad [CreateTemp, ChmodTemp, WriteTemp, SyncTemp, CloseTemp, RenameTemp] of
                        Some x \<Rightarrow> (Some (ProjectionIO x), files)
                      | None \<Rightarrow>
                          (None, AList.update path \<lparr>file_data = d, file_perm = 384, file_regular = True\<rparr> files))"

definition remove_file :: "'b ctl_env \<Rightarrow> string \<Rightarrow> (string \<times> disk_file) list \<Rightarrow> fsm_error option \<times> (string \<times> disk_file) list" where
  "remove_file env path files =
     (if map_of files path = None then (None, files)
      else if ce_io_fail env RemoveFile path then (Some (ProjectionIO RemoveFile), files)
      else (None, AList.delete path files))"

definition inside_root :: "string \<Rightarrow> string \<Rightarrow> bool" where
  "inside_root root target \<longleftrightarrow> has_prefix (path_Clean target @ ''/'') (root @ ''/'')"

fun projectOperations ::
  "'b ctl_env \<Rightarrow> string \<Rightarrow> operation list \<Rightarrow> (string \<times> disk_file) list \<Rightarrow> fsm_error option \<times> (string \<times> disk_file) list" where
  "projectOperations env root [] files = (None, files)"
| "projectOperations env root (x # ops) files =
     (let target = path_Join root (op_Path x)
      in if \<not> inside_root root target then (Some ProjectionEscaped, files)
         else case (if op_Op x = ''put'' then atomicProjectionWrite env target (op_Data x) files
                    else if op_Op x = ''delete'' then remove_file env target files
                    else (None, files)) of
                (Some e, files) \<Rightarrow> (Some e, files)
              | (None, files) \<Rightarrow> projectOperations env root ops files)"

definition error_result :: "u64 \<Rightarrow> fsm_error \<Rightarrow> mutation_result" where
  "error_result n e = \<lparr>res_OK = False, res_Revision = n, res_Error = Some e, res_Conflict = False\<rparr>"

definition ok_result :: "u64 \<Rightarrow> mutation_result" where
  "ok_result n = \<lparr>res_OK = True, res_Revision = n, res_Error = None, res_Conflict = False\<rparr>"

definition check_command :: "mutation \<Rightarrow> fsm_error option" where
  "check_command m =
     (if mut_Version m \<noteq> CommandVersion \<or> mut_ID m = [] \<or> mut_Kind m = [] then Some IncompleteMutation
      else if mut_Kind m = ''ReconcileRevision''
        then (if mut_RevisionMinimum m = 0 \<or> mut_Operations m \<noteq> [] then Some BadReconciliation else None)
      else if mut_RevisionMinimum m \<noteq> 0 then Some MinimumNeedsReconciliation
      else None)"

text \<open>After the commit: the conflict is reported, a replayed entry is not projected, an applied one is.\<close>

definition finish_apply :: "'b ctl_env \<Rightarrow> operation list \<Rightarrow> tx_outcome \<Rightarrow> 'b fsm \<Rightarrow> mutation_result \<times> 'b fsm" where
  "finish_apply env ops outcome f =
     (case outcome of
        Conflicted n c \<Rightarrow>
          (\<lparr>res_OK = False, res_Revision = n, res_Error = Some (Conflicting c), res_Conflict = True\<rparr>, f)
      | Replayed n \<Rightarrow> (ok_result n, f)
      | Applied n \<Rightarrow>
          (case projectOperations env (fsm_root f) ops (fsm_files f) of
             (Some e, files) \<Rightarrow> (error_result n e, f\<lparr>fsm_files := files\<rparr>)
           | (None, files) \<Rightarrow> (ok_result n, f\<lparr>fsm_files := files\<rparr>)))"

definition fsm_Apply :: "'b ctl_env \<Rightarrow> u64 \<Rightarrow> byte list \<Rightarrow> 'b fsm \<Rightarrow> mutation_result \<times> 'b fsm" where
  "fsm_Apply env index d f =
     (case ce_mutation env d of
        None \<Rightarrow> (error_result 0 BadMutationEncoding, f)
      | Some command \<Rightarrow>
      case check_command command of
        Some e \<Rightarrow> (error_result 0 e, f)
      | None \<Rightarrow>
      case normalize_ops (mut_Operations command) of
        Inl e \<Rightarrow> (error_result 0 e, f)
      | Inr ops \<Rightarrow>
      case apply_tx env command ops index (fsm_store f) of
        Inl e \<Rightarrow> (error_result 0 e, f)
      | Inr (outcome, s) \<Rightarrow>
          if \<not> ce_commit_ok env then (error_result 0 (StoreFailed CommitFailed), f)
          else finish_apply env ops outcome (f\<lparr>fsm_store := s\<rparr>))"

section \<open>Reconciling the projection\<close>

fun write_entries ::
  "'b ctl_env \<Rightarrow> string \<Rightarrow> (string \<times> byte list) list \<Rightarrow> (string \<times> disk_file) list \<Rightarrow>
   fsm_error option \<times> (string \<times> disk_file) list" where
  "write_entries env root [] files = (None, files)"
| "write_entries env root ((p, d) # es) files =
     (case atomicProjectionWrite env (path_Join root p) d files of
        (Some e, files) \<Rightarrow> (Some e, files)
      | (None, files) \<Rightarrow> write_entries env root es files)"

text \<open>The walk over the candidates: an exact path, a plain file in the place of a candidate directory (found
  under the candidate's name, trailing slash included), or a file below a candidate directory whose
  relative path is replicated state, under its normalized name. Entries of a directory come in name order,
  and a later file replaces an earlier one of the same normalized name.\<close>

definition relative_path :: "string \<Rightarrow> string \<Rightarrow> string option" where
  "relative_path root p =
     (if root = ''.'' then Some p
      else if root = ''/'' then Some (drop 1 p)
      else if has_prefix p (root @ ''/'') then Some (drop (length root + 1) p)
      else None)"

definition scan_file :: "string \<Rightarrow> string \<times> disk_file \<Rightarrow> (string \<times> byte list) option" where
  "scan_file root pf =
     (case relative_path root (fst pf) of
        None \<Rightarrow> None
      | Some r \<Rightarrow>
          if r \<in> set replicatedExact then Some (r, file_data (snd pf))
          else if r @ ''/'' \<in> set replicatedPrefixes then Some (r @ ''/'', file_data (snd pf))
          else if list_ex (has_prefix r) replicatedPrefixes then
            (case NormalizeReplicatedPath r of Inl _ \<Rightarrow> None | Inr n \<Rightarrow> Some (n, file_data (snd pf)))
          else None)"

definition ScanReplicatedProjection ::
  "'b ctl_env \<Rightarrow> string \<Rightarrow> (string \<times> disk_file) list \<Rightarrow> fsm_error + (string \<times> byte list) list" where
  "ScanReplicatedProjection env root files =
     (if ce_io_fail env WalkDir root then Inl (ProjectionIO WalkDir)
      else Inr (fold (\<lambda>(n, d) m. AList.update n d m)
             (List.map_filter (scan_file root) (sort_slice (less_by fst) files)) []))"

fun remove_stale ::
  "'b ctl_env \<Rightarrow> string \<Rightarrow> string list \<Rightarrow> string list \<Rightarrow> (string \<times> disk_file) list \<Rightarrow>
   fsm_error option \<times> (string \<times> disk_file) list" where
  "remove_stale env root present [] files = (None, files)"
| "remove_stale env root present (p # ps) files =
     (if p \<in> set present then remove_stale env root present ps files
      else case remove_file env (path_Join root p) files of
             (Some e, files) \<Rightarrow> (Some e, files)
           | (None, files) \<Rightarrow> remove_stale env root present ps files)"

definition ReconcileProjection :: "'b ctl_env \<Rightarrow> 'b fsm \<Rightarrow> fsm_error option \<times> 'b fsm" where
  "ReconcileProjection env f =
     (let entries = canonicalEntries (ce_bolt env) (fsm_store f)
      in case write_entries env (fsm_root f) entries (fsm_files f) of
           (Some e, files) \<Rightarrow> (Some e, f\<lparr>fsm_files := files\<rparr>)
         | (None, files) \<Rightarrow>
             (case ScanReplicatedProjection env (fsm_root f) files of
                Inl e \<Rightarrow> (Some e, f\<lparr>fsm_files := files\<rparr>)
              | Inr existing \<Rightarrow>
                  let (e, files) = remove_stale env (fsm_root f) (map fst entries) (map fst existing) files
                  in (e, f\<lparr>fsm_files := files\<rparr>)))"

definition BootstrapMutation ::
  "'b ctl_env \<Rightarrow> string \<Rightarrow> (string \<times> disk_file) list \<Rightarrow> string \<Rightarrow> int \<Rightarrow> fsm_error + mutation" where
  "BootstrapMutation env root files mid issuedAt =
     (case ScanReplicatedProjection env root files of
        Inl e \<Rightarrow> Inl e
      | Inr entries \<Rightarrow>
          Inr \<lparr>mut_Version = CommandVersion, mut_ID = mid, mut_Kind = ''BootstrapCanonicalState'',
               mut_IssuedAt = issuedAt,
               mut_Operations = map (\<lambda>p. \<lparr>op_Op = ''put'', op_Path = p,
                   op_Data = (case map_of entries p of None \<Rightarrow> [] | Some d \<Rightarrow> d), op_IfAbsent = True,
                   op_RequirePresent = False, op_ExpectedSHA256 = []\<rparr>)
                 (sort_slice (<) (remdups (map fst entries))),
               mut_RevisionMinimum = 0\<rparr>)"

section \<open>Snapshots\<close>

definition snapshotChecksum :: "'b ctl_env \<Rightarrow> u64 \<Rightarrow> u64 \<Rightarrow> (string \<times> byte list) list \<Rightarrow> string" where
  "snapshotChecksum env schema revision entries =
     (let header = ''schema='' @ radix 10 (unat schema) @ [CHR 0x0A] @ ''revision='' @ radix 10 (unat revision) @ [CHR 0x0A];
          line = (\<lambda>p. p @ [CHR 0x00] @ sha256Hex env (case map_of entries p of None \<Rightarrow> [] | Some d \<Rightarrow> d) @ [CHR 0x0A])
      in hex_encode (ce_sha256 env (bytes_of (header @ concat (map line (sort_slice (<) (map fst entries)))))))"

definition checkSnapshotRevisionFloor :: "'b ctl_env \<Rightarrow> 'b fsm \<Rightarrow> u64 \<Rightarrow> fsm_error option" where
  "checkSnapshotRevisionFloor env f revision =
     (let floor = revisionFloor (ce_bolt env) (fsm_store f)
      in if revision < floor then Some (BelowFloor revision floor) else None)"

definition ExportSnapshot :: "'b ctl_env \<Rightarrow> 'b fsm \<Rightarrow> fsm_error + byte list" where
  "ExportSnapshot env f =
     (let bo = ce_bolt env; s = fsm_store f;
          entries = canonicalEntries bo s; revision = store_revision bo s
      in case checkSnapshotRevisionFloor env f revision of
           Some e \<Rightarrow> Inl e
         | None \<Rightarrow>
             let schema = schemaVersion bo s
             in Inr (ce_encode env
                  \<lparr>env_Version = 1, env_SchemaVersion = schema, env_Revision = revision, env_Entries = entries,
                   env_Checksum = snapshotChecksum env schema revision entries\<rparr>))"

definition fsm_Snapshot :: "'b ctl_env \<Rightarrow> 'b fsm \<Rightarrow> fsm_error + byte list" where
  "fsm_Snapshot env f = ExportSnapshot env f"

fun put_entries :: "'b bolt \<Rightarrow> (string \<times> byte list) list \<Rightarrow> string list \<Rightarrow> 'b \<Rightarrow> 'b option" where
  "put_entries bo entries [] b = Some b"
| "put_entries bo entries (p # ps) b =
     (case b_put bo b p (case map_of entries p of None \<Rightarrow> [] | Some d \<Rightarrow> d) of
        None \<Rightarrow> None
      | Some b' \<Rightarrow> put_entries bo entries ps b')"

definition restore_tx :: "'b ctl_env \<Rightarrow> snapshot_envelope \<Rightarrow> 'b store \<Rightarrow> fsm_error + 'b store" where
  "restore_tx env e s =
     (let bo = ce_bolt env; paths = map fst (env_Entries e)
      in case first_error (\<lambda>p. case NormalizeReplicatedPath p of Inl x \<Rightarrow> Some (PathRejected x) | Inr _ \<Rightarrow> None) paths of
           Some x \<Rightarrow> Inl x
         | None \<Rightarrow>
             case put_entries bo (env_Entries e) (sort_slice (<) paths) (b_empty bo) of
               None \<Rightarrow> Inl (StoreFailed PutFailed)
             | Some canonical \<Rightarrow>
             case b_del bo (st_meta s) keyAppliedIndex of
               None \<Rightarrow> Inl (StoreFailed DeleteFailed)
             | Some meta \<Rightarrow>
             case put_meta bo [(keyRevision, env_Revision e), (keySchema, env_SchemaVersion e)] meta of
               None \<Rightarrow> Inl (StoreFailed PutFailed)
             | Some meta \<Rightarrow> Inr (s\<lparr>st_canonical := canonical, st_meta := meta\<rparr>))"

definition snapshotLimit :: nat where "snapshotLimit = 128 * 1024 * 1024"

definition fsm_Restore :: "'b ctl_env \<Rightarrow> byte list \<Rightarrow> 'b fsm \<Rightarrow> fsm_error option \<times> 'b fsm" where
  "fsm_Restore env raw f =
     (case ce_decode env (take snapshotLimit raw) of
        None \<Rightarrow> (Some BadSnapshotEncoding, f)
      | Some e \<Rightarrow>
          if env_Version e \<noteq> 1 \<or> ControlSchemaVersion < env_SchemaVersion e then (Some IncompatibleSnapshot, f)
          else if snapshotChecksum env (env_SchemaVersion e) (env_Revision e) (env_Entries e) \<noteq> env_Checksum e
            then (Some ChecksumMismatch, f)
          else case restore_tx env e (fsm_store f) of
                 Inl x \<Rightarrow> (Some x, f)
               | Inr s \<Rightarrow>
                   if \<not> ce_commit_ok env then (Some (StoreFailed CommitFailed), f)
                   else ReconcileProjection env (f\<lparr>fsm_store := s\<rparr>))"

definition fsm_Revision :: "'b ctl_env \<Rightarrow> 'b fsm \<Rightarrow> u64" where
  "fsm_Revision env f = store_revision (ce_bolt env) (fsm_store f)"

definition fsm_SchemaVersion :: "'b ctl_env \<Rightarrow> 'b fsm \<Rightarrow> u64" where
  "fsm_SchemaVersion env f = schemaVersion (ce_bolt env) (fsm_store f)"

end
