(* ===== verification/CtlFSMLemmas.thy ===== *)
theory CtlFSMLemmas
  imports CtlFSM
begin

text \<open>
  Lemmas on the replicated state machine: the cursor loop over a key prefix selects exactly the keys with
  that prefix, the route check on the stored state and the operations is a check of the state they produce,
  and the effect of a transaction on the canonical map, the revision and the applied index.
\<close>

section \<open>Key prefixes\<close>

lemma has_prefix_Cons [simp]: "has_prefix (d # ds) (c # cs) \<longleftrightarrow> d = c \<and> has_prefix ds cs"
  by (simp add: has_prefix_def)

lemma has_prefix_Nil [simp]: "has_prefix k []" "has_prefix [] (c # cs) \<longleftrightarrow> False"
  by (simp_all add: has_prefix_def)

lemma append_not_less: "\<not> pre @ r < (pre :: string)"
  by (induction pre) auto

lemma prefix_above:
  "has_prefix k pre \<Longrightarrow> \<not> k < (pre :: string)"
  using append_not_less by (auto elim!: has_prefixE)

lemma prefix_block:
  "\<not> k < pre \<Longrightarrow> \<not> has_prefix k pre \<Longrightarrow> has_prefix j pre \<Longrightarrow> j < (k :: string)"
proof (induction pre arbitrary: k j)
  case (Cons c cs)
  then obtain js where j: "j = c # js" "has_prefix js cs" by (cases j) auto
  show ?case
  proof (cases k)
    case Nil
    then show ?thesis using Cons.prems(1) by simp
  next
    case (Cons d ds)
    then show ?thesis using \<open>\<not> k < c # cs\<close> \<open>\<not> has_prefix k (c # cs)\<close> j Cons.IH [of ds js]
      by (cases "c = d") auto
  qed
qed simp

lemma scan_prefix:
  assumes "sorted_wrt (<) (map fst kvs)"
  shows "takeWhile (\<lambda>kv. has_prefix (fst kv) pre) (dropWhile (\<lambda>kv. fst kv < pre) kvs)
    = filter (\<lambda>kv. has_prefix (fst kv) pre) (kvs :: (string \<times> 'v) list)"
  using assms
proof (induction kvs)
  case (Cons x kvs)
  have np: "\<not> has_prefix k pre" if "k < pre" for k using prefix_above that by blast
  show ?case
  proof (cases "fst x < pre")
    case True
    then show ?thesis using Cons np by auto
  next
    case False
    have ge: "\<not> fst y < pre" if "y \<in> set kvs" for y
      using Cons.prems that False by (auto simp: not_less)
    have dw: "dropWhile (\<lambda>kv. fst kv < pre) kvs = kvs" using ge by (cases kvs) auto
    show ?thesis
    proof (cases "has_prefix (fst x) pre")
      case True
      then show ?thesis using Cons False dw by simp
    next
      case no: False
      have "\<not> has_prefix (fst y) pre" if "y \<in> set kvs" for y
        using prefix_block [OF False no, of "fst y"] Cons.prems that by (auto dest: order_less_asym)
      then show ?thesis using False no by (simp add: filter_empty_conv)
    qed
  qed
qed simp

lemma map_of_filter_prefix:
  "map_of (filter (\<lambda>kv. P (fst kv)) kvs) k = (if P k then map_of kvs k else None)"
  by (induction kvs) auto

section \<open>Operations on the canonical map\<close>

fun op_effect :: "operation \<Rightarrow> (string \<rightharpoonup> byte list) \<Rightarrow> string \<rightharpoonup> byte list" where
  "op_effect x m =
     (if op_Op x = ''put'' then m(op_Path x \<mapsto> op_Data x)
      else if op_Op x = ''delete'' then m(op_Path x := None) else m)"

definition ops_effect :: "operation list \<Rightarrow> (string \<rightharpoonup> byte list) \<Rightarrow> string \<rightharpoonup> byte list" where
  "ops_effect ops m = fold op_effect ops m"

lemma apply_ops_effect:
  "bolt_ok bo \<Longrightarrow> apply_ops bo ops b = Inr b' \<Longrightarrow> b_get bo b' = ops_effect ops (b_get bo b)"
proof (induction ops arbitrary: b)
  case (Cons x ops)
  then show ?case
    by (auto simp: ops_effect_def bolt_laws(2,3) split: if_splits option.splits)
qed (simp add: ops_effect_def)

lemma overlay_ops_effect:
  "map_of m = (\<lambda>k. if has_prefix k pre then c k else None) \<Longrightarrow>
   map_of (overlay_ops pre ops m) = (\<lambda>k. if has_prefix k pre then ops_effect ops c k else None)"
proof (induction ops arbitrary: m c)
  case (Cons x ops)
  have eff: "ops_effect (x # ops) c = ops_effect ops (op_effect x c)" by (simp add: ops_effect_def)
  define m' where "m' = (if \<not> has_prefix (op_Path x) pre then m
    else if op_Op x = ''put'' then AList.update (op_Path x) (op_Data x) m
    else if op_Op x = ''delete'' then AList.delete (op_Path x) m else m)"
  have "overlay_ops pre (x # ops) m = overlay_ops pre ops m'" by (simp add: m'_def)
  moreover have "map_of m' = (\<lambda>k. if has_prefix k pre then op_effect x c k else None)"
    using Cons.prems by (auto simp: m'_def fun_eq_iff)
  ultimately show ?case unfolding eff using Cons.IH by simp
next
  case Nil
  have "ops_effect [] c = c" by (simp add: ops_effect_def)
  then show ?case unfolding \<open>ops_effect [] c = c\<close> using Nil by simp
qed

lemma overlay_ops_distinct: "keys_distinct m \<Longrightarrow> keys_distinct (overlay_ops pre ops m)"
  by (induction pre ops m rule: overlay_ops.induct) auto

lemma resultingPrefixRecords_get:
  assumes "bolt_ok bo"
  shows "map_of (resultingPrefixRecords bo c pre ops)
    = (\<lambda>k. if has_prefix k pre then ops_effect ops (b_get bo c) k else None)"
  unfolding resultingPrefixRecords_def scan_prefix [OF bolt_laws(5) [OF assms]]
  by (rule overlay_ops_effect)
    (simp add: fun_eq_iff map_of_filter_prefix [of "\<lambda>k. has_prefix k pre"] bolt_laws(4) [OF assms])

lemma resultingPrefixRecords_distinct:
  assumes "bolt_ok bo"
  shows "keys_distinct (resultingPrefixRecords bo c pre ops)"
proof -
  have "distinct (map fst (b_scan bo c))"
    using bolt_laws(5) [OF assms, of c] by (simp add: strict_sorted_iff)
  then have "keys_distinct (b_scan bo c)" by (simp add: keys_distinct_def)
  then show ?thesis
    unfolding resultingPrefixRecords_def scan_prefix [OF bolt_laws(5) [OF assms]]
    by (intro overlay_ops_distinct keys_distinct_filter)
qed

section \<open>Route ownership\<close>

text \<open>The specification: the record at \<open>k\<close> of the state \<open>m\<close> gives the prefix \<open>p\<close> to \<open>owner\<close>, an active site
  router whose grants cover it.\<close>

definition owned_route ::
  "'b ctl_env \<Rightarrow> (string \<rightharpoonup> byte list) \<Rightarrow> string \<Rightarrow> string \<Rightarrow> prefix \<Rightarrow> bool" where
  "owned_route env m k owner p \<longleftrightarrow>
     has_prefix k ''control/routes/'' \<and>
     (\<exists>raw r p0 nodeRaw node. m k = Some raw \<and> ce_route env raw = Some r \<and> owner = record_owner r \<and> owner \<noteq> [] \<and>
        (rr_NodeID r = [] \<or> trim_space (rr_NodeID r) = owner) \<and>
        ParsePrefix (trim_space (rr_CIDR r)) = Some p0 \<and> 0 < p_bits p0 \<and> p = Masked p0 \<and>
        m (node_path owner) = Some nodeRaw \<and> ce_node env nodeRaw = Some node \<and>
        trim_space (nr_NodeID node) = owner \<and> \<not> nr_Revoked node \<and>
        map_of (nr_Roles node) ''site_router'' = Some True \<and>
        (\<exists>g\<in>set (node_grants node). grant_covers p g))"

definition ownership_ok :: "'b ctl_env \<Rightarrow> (string \<rightharpoonup> byte list) \<Rightarrow> bool" where
  "ownership_ok env m \<longleftrightarrow>
     (\<forall>k. has_prefix k ''control/routes/'' \<and> m k \<noteq> None \<longrightarrow> (\<exists>owner p. owned_route env m k owner p)) \<and>
     (\<forall>k1 o1 p1 k2 o2 p2. owned_route env m k1 o1 p1 \<and> owned_route env m k2 o2 p2 \<and> Overlaps p1 p2 \<longrightarrow> o1 = o2)"

lemma node_path_prefix [simp]: "has_prefix (node_path owner) ''control/nodes/''"
  unfolding node_path_def by (rule has_prefix_append)

lemma check_route_owned:
  assumes "m k = Some raw" and "has_prefix k ''control/routes/''"
    and "map_of nodes = (\<lambda>j. if has_prefix j ''control/nodes/'' then m j else None)"
  shows "check_route env nodes (k, raw) = Inr v \<longleftrightarrow>
    vr_path v = k \<and> owned_route env m k (vr_owner v) (vr_prefix v)"
proof -
  have nodes: "map_of nodes (node_path w) = m (node_path w)" for w by (simp add: assms(3))
  have eq: "v = \<lparr>vr_path = a, vr_owner = b, vr_prefix = c\<rparr> \<longleftrightarrow> vr_path v = a \<and> vr_owner v = b \<and> vr_prefix v = c"
    for a b c by (cases v) auto
  show ?thesis
    using assms(1,2) unfolding owned_route_def check_route_def
    by (auto simp: Let_def nodes list_ex_iff eq split: option.splits if_splits)
qed

lemma owned_route_unique: "owned_route env m k o1 p1 \<Longrightarrow> owned_route env m k o2 p2 \<Longrightarrow> o1 = o2 \<and> p1 = p2"
  by (auto simp: owned_route_def)

lemma check_routes_Inr:
  "check_routes env nodes xs = Inr vs \<longleftrightarrow> list_all2 (\<lambda>x v. check_route env nodes x = Inr v) xs vs"
proof (induction xs arbitrary: vs)
  case (Cons x xs)
  have "check_routes env nodes (x # xs) = Inr vs \<longleftrightarrow>
      (\<exists>v ws. vs = v # ws \<and> check_route env nodes x = Inr v \<and> check_routes env nodes xs = Inr ws)"
    by (auto split: sum.splits)
  then show ?case using Cons.IH by (simp add: list_all2_Cons1)
qed auto

lemma list_all2_set1: "list_all2 P xs ys \<Longrightarrow> x \<in> set xs \<Longrightarrow> \<exists>y \<in> set ys. P x y"
  by (induction rule: list_all2_induct) auto

lemma list_all2_set2: "list_all2 P xs ys \<Longrightarrow> y \<in> set ys \<Longrightarrow> \<exists>x \<in> set xs. P x y"
  by (induction rule: list_all2_induct) auto

lemma Overlaps_sym: "Overlaps a b = Overlaps b a"
  by (auto simp: Overlaps_def Let_def)

lemma first_overlap_None:
  "first_overlap vs = None \<longleftrightarrow> (\<forall>a\<in>set vs. \<forall>b\<in>set vs. \<not> owners_clash a b)"
proof (induction vs)
  case (Cons v vs)
  have "\<not> owners_clash v v" by (simp add: owners_clash_def)
  moreover have "owners_clash a b = owners_clash b a" for a b
    using Overlaps_sym by (auto simp: owners_clash_def)
  moreover have "first_overlap (v # vs) = None \<longleftrightarrow> (\<forall>w\<in>set vs. \<not> owners_clash v w) \<and> first_overlap vs = None"
  proof (cases "find (owners_clash v) vs")
    case None
    then show ?thesis by (auto dest: find_None_iff [THEN iffD1])
  next
    case (Some w)
    then have "w \<in> set vs" "owners_clash v w" by (auto simp: find_Some_iff)
    with Some show ?thesis by auto
  qed
  ultimately show ?case using Cons by simp blast
qed simp

text \<open>Over the resulting records, the checks of the single routes succeed exactly when every route is owned, and
  the routes they collect are then the owned ones.\<close>

lemma check_entry_owned:
  assumes "\<And>k raw. (k, raw) \<in> set routes \<longleftrightarrow> has_prefix k ''control/routes/'' \<and> m k = Some raw"
    and "map_of nodes = (\<lambda>k. if has_prefix k ''control/nodes/'' then m k else None)" and "x \<in> set routes"
  shows "check_route env nodes x = Inr v \<longleftrightarrow> vr_path v = fst x \<and> owned_route env m (fst x) (vr_owner v) (vr_prefix v)"
  using assms(1) [of "fst x" "snd x"] assms(3) check_route_owned [OF _ _ assms(2), of "fst x" "snd x"] by simp

lemma check_routes_total:
  assumes entry: "\<And>k raw. (k, raw) \<in> set routes \<longleftrightarrow> has_prefix k ''control/routes/'' \<and> m k = Some raw"
    and nodes: "map_of nodes = (\<lambda>k. if has_prefix k ''control/nodes/'' then m k else None)"
  shows "(\<exists>vs. check_routes env nodes routes = Inr vs) \<longleftrightarrow>
    (\<forall>k. has_prefix k ''control/routes/'' \<and> m k \<noteq> None \<longrightarrow> (\<exists>owner p. owned_route env m k owner p))"
proof -
  have one: "(\<exists>v. check_route env nodes x = Inr v) \<longleftrightarrow> (\<exists>w p. owned_route env m (fst x) w p)" if "x \<in> set routes" for x
  proof
    assume "\<exists>w p. owned_route env m (fst x) w p"
    then obtain w p where "owned_route env m (fst x) w p" by blast
    then have "check_route env nodes x = Inr \<lparr>vr_path = fst x, vr_owner = w, vr_prefix = p\<rparr>"
      by (intro check_entry_owned [OF entry nodes that, THEN iffD2]) simp
    then show "\<exists>v. check_route env nodes x = Inr v" ..
  qed (use check_entry_owned [OF entry nodes that] in blast)
  have "(\<exists>vs. check_routes env nodes routes = Inr vs) \<longleftrightarrow> (\<forall>x \<in> set routes. \<exists>v. check_route env nodes x = Inr v)"
    unfolding check_routes_Inr by (induction routes) (auto simp: list_all2_Cons1)
  also have "\<dots> \<longleftrightarrow> (\<forall>x \<in> set routes. \<exists>w p. owned_route env m (fst x) w p)" using one by blast
  finally show ?thesis using entry by fastforce
qed

lemma check_routes_exact:
  assumes entry: "\<And>k raw. (k, raw) \<in> set routes \<longleftrightarrow> has_prefix k ''control/routes/'' \<and> m k = Some raw"
    and nodes: "map_of nodes = (\<lambda>k. if has_prefix k ''control/nodes/'' then m k else None)"
    and vs: "check_routes env nodes routes = Inr vs"
  shows "(\<exists>v \<in> set vs. vr_owner v = w \<and> vr_prefix v = p) \<longleftrightarrow> (\<exists>k. owned_route env m k w p)"
proof -
  have rel: "list_all2 (\<lambda>x v. check_route env nodes x = Inr v) routes vs" using vs check_routes_Inr by blast
  show ?thesis
  proof
    assume "\<exists>v \<in> set vs. vr_owner v = w \<and> vr_prefix v = p"
    then obtain v x where "x \<in> set routes" "check_route env nodes x = Inr v" "vr_owner v = w" "vr_prefix v = p"
      using list_all2_set2 [OF rel] by blast
    then show "\<exists>k. owned_route env m k w p" using check_entry_owned [OF entry nodes] by blast
  next
    assume "\<exists>k. owned_route env m k w p"
    then obtain k raw where k: "owned_route env m k w p" "(k, raw) \<in> set routes"
      using entry unfolding owned_route_def by blast
    then obtain v where "v \<in> set vs" "check_route env nodes (k, raw) = Inr v" using list_all2_set1 [OF rel] by blast
    then show "\<exists>v \<in> set vs. vr_owner v = w \<and> vr_prefix v = p"
      using check_entry_owned [OF entry nodes k(2), of env v] owned_route_unique [OF k(1)] by (metis fst_conv)
  qed
qed

text \<open>The check on the stored state and the operations is the specification of the state they produce.\<close>

lemma validate_iff_ownership_ok:
  assumes bo: "bolt_ok (ce_bolt env)"
  shows "validateRouteOwnershipInvariant env c ops = None \<longleftrightarrow>
    ownership_ok env (ops_effect ops (b_get (ce_bolt env) c))"
proof -
  define m where "m = ops_effect ops (b_get (ce_bolt env) c)"
  define routes where "routes = resultingPrefixRecords (ce_bolt env) c ''control/routes/'' ops"
  define nodes where "nodes = resultingPrefixRecords (ce_bolt env) c ''control/nodes/'' ops"
  have nodes: "map_of nodes = (\<lambda>k. if has_prefix k ''control/nodes/'' then m k else None)"
    and routes: "map_of routes = (\<lambda>k. if has_prefix k ''control/routes/'' then m k else None)"
    unfolding nodes_def routes_def m_def by (rule resultingPrefixRecords_get [OF bo])+
  have "keys_distinct routes" unfolding routes_def by (rule resultingPrefixRecords_distinct [OF bo])
  then have entry: "(k, raw) \<in> set routes \<longleftrightarrow> has_prefix k ''control/routes/'' \<and> m k = Some raw" for k raw
    using routes map_of_eq_Some_iff [of routes k raw] by (auto simp: keys_distinct_def split: if_splits)
  have "validateRouteOwnershipInvariant env c ops = None \<longleftrightarrow>
      (\<exists>vs. check_routes env nodes routes = Inr vs \<and> (\<forall>a \<in> set vs. \<forall>b \<in> set vs. \<not> owners_clash a b))"
    by (auto simp: validateRouteOwnershipInvariant_def Let_def first_overlap_None split: sum.splits
        simp flip: routes_def nodes_def)
  also have "\<dots> \<longleftrightarrow> ownership_ok env m"
  proof (cases "check_routes env nodes routes")
    case (Inl e)
    then show ?thesis using check_routes_total [OF entry nodes, of env] by (simp add: ownership_ok_def)
  next
    case (Inr vs)
    have "(\<forall>a \<in> set vs. \<forall>b \<in> set vs. \<not> owners_clash a b) \<longleftrightarrow>
        (\<forall>k1 o1 p1 k2 o2 p2. owned_route env m k1 o1 p1 \<and> owned_route env m k2 o2 p2 \<and> Overlaps p1 p2 \<longrightarrow> o1 = o2)"
      using check_routes_exact [OF entry nodes Inr] unfolding owners_clash_def by metis
    then show ?thesis using check_routes_total [OF entry nodes, of env] Inr by (simp add: ownership_ok_def)
  qed
  finally show ?thesis by (simp add: m_def)
qed

lemma owned_route_covered:
  assumes "owned_route env m k w p"
  shows "prefix_ok p \<and> 0 < p_bits p"
  using assms ParsePrefix_ok unfolding owned_route_def by force

section \<open>The transaction\<close>

lemma put_meta_get:
  "bolt_ok bo \<Longrightarrow> put_meta bo kvs b = Some b' \<Longrightarrow>
     b_get bo b' = (b_get bo b) ++ map_of (rev (map (\<lambda>(k, v). (k, u64key v)) kvs))"
proof (induction kvs arbitrary: b)
  case (Cons kv kvs)
  obtain k v where kv: "kv = (k, v)" by fastforce
  with Cons.prems obtain b1 where "b_put bo b k (u64key v) = Some b1" "put_meta bo kvs b1 = Some b'"
    by (auto split: option.splits)
  with Cons kv show ?case by (auto simp: bolt_laws(2) [OF Cons.prems(1)] map_add_def split: option.splits)
qed simp

text \<open>What each outcome of the transaction does to the store.\<close>

lemma apply_tx_cases:
  assumes bo: "bolt_ok (ce_bolt env)" and tx: "apply_tx env command ops index s = Inr (outcome, s')"
  shows "case outcome of
      Replayed n \<Rightarrow> s' = s \<and> n = store_revision (ce_bolt env) s \<and> index \<noteq> 0 \<and> index \<le> appliedIndex (ce_bolt env) s
    | Conflicted n c \<Rightarrow> st_canonical s' = st_canonical s \<and> n = store_revision (ce_bolt env) s \<and>
        store_revision (ce_bolt env) s' = n \<and> (index = 0 \<or> appliedIndex (ce_bolt env) s < index) \<and>
        appliedIndex (ce_bolt env) s' = (if index = 0 then appliedIndex (ce_bolt env) s else index)
    | Applied n \<Rightarrow> b_get (ce_bolt env) (st_canonical s') = ops_effect ops (b_get (ce_bolt env) (st_canonical s)) \<and>
        store_revision (ce_bolt env) s' = n \<and>
        n = (if mut_Kind command = ''ReconcileRevision''
             then max (store_revision (ce_bolt env) s) (mut_RevisionMinimum command)
             else store_revision (ce_bolt env) s + 1) \<and>
        (mut_Kind command = ''ReconcileRevision'' \<or> store_revision (ce_bolt env) s \<noteq> - 1) \<and>
        schemaVersion (ce_bolt env) s' = ControlSchemaVersion \<and>
        (index = 0 \<or> appliedIndex (ce_bolt env) s < index) \<and>
        appliedIndex (ce_bolt env) s' = (if index = 0 then appliedIndex (ce_bolt env) s else index) \<and>
        check_preconditions env (st_canonical s) ops = None \<and>
        validateRouteOwnershipInvariant env (st_canonical s) ops = None"
proof -
  let ?bo = "ce_bolt env"
  show ?thesis
  proof (cases "index \<noteq> 0 \<and> index \<le> appliedIndex ?bo s")
    case True
    then show ?thesis using tx by (auto simp: apply_tx_def Let_def)
  next
    case False
    obtain meta1 where m1: "(if index \<noteq> 0 then put_meta ?bo [(keyAppliedIndex, index)] (st_meta s) else Some (st_meta s)) = Some meta1"
      using tx False by (auto simp: apply_tx_def Let_def split: option.splits)
    have g1: "b_get ?bo meta1 = (if index \<noteq> 0 then (b_get ?bo (st_meta s))(keyAppliedIndex \<mapsto> u64key index) else b_get ?bo (st_meta s))"
      using m1 put_meta_get [OF bo, of "[(keyAppliedIndex, index)]" "st_meta s" meta1] by (auto split: if_splits)
    have r1: "decodeU64 (b_get ?bo meta1 keyRevision) = store_revision ?bo s"
      "decodeU64 (b_get ?bo meta1 keyAppliedIndex) = (if index = 0 then appliedIndex ?bo s else index)"
      by (simp_all add: g1 store_revision_def appliedIndex_def meta_keys)
    define conf where "conf = (case check_preconditions env (st_canonical s) ops of Some c \<Rightarrow> Some c
      | None \<Rightarrow> map_option RouteConflict (validateRouteOwnershipInvariant env (st_canonical s) ops))"
    show ?thesis
    proof (cases conf)
      case (Some c)
      then have "outcome = Conflicted (store_revision ?bo s) c" "s' = s\<lparr>st_meta := meta1\<rparr>"
        using tx False m1 by (auto simp: apply_tx_def Let_def conf_def [symmetric])
      then show ?thesis using r1 False by (auto simp: store_revision_def appliedIndex_def not_le)
    next
      case None
      define n where "n = (if mut_Kind command = ''ReconcileRevision''
        then (if store_revision ?bo s < mut_RevisionMinimum command then mut_RevisionMinimum command else store_revision ?bo s)
        else store_revision ?bo s + 1)"
      have nx: "mut_Kind command = ''ReconcileRevision'' \<or> store_revision ?bo s \<noteq> - 1"
        using tx False m1 None by (auto simp: apply_tx_def Let_def conf_def [symmetric] split: if_splits)
      obtain can where can: "apply_ops ?bo ops (st_canonical s) = Inr can"
        using tx False m1 None nx by (auto simp: apply_tx_def Let_def conf_def [symmetric] split: if_splits sum.splits)
      obtain meta2 where m2: "put_meta ?bo [(keyRevision, n), (keySchema, ControlSchemaVersion)] meta1 = Some meta2"
        and out: "outcome = Applied n" "s' = s\<lparr>st_canonical := can, st_meta := meta2\<rparr>"
        using tx False m1 None nx can unfolding n_def
        by (auto simp: apply_tx_def Let_def conf_def [symmetric] split: if_splits option.splits)
      have g2: "b_get ?bo meta2 = (b_get ?bo meta1)(keyRevision \<mapsto> u64key n, keySchema \<mapsto> u64key ControlSchemaVersion)"
        using put_meta_get [OF bo m2] by (auto simp: map_add_def fun_eq_iff meta_keys)
      have pre: "check_preconditions env (st_canonical s) ops = None"
        "validateRouteOwnershipInvariant env (st_canonical s) ops = None"
        using None by (auto simp: conf_def split: option.splits)
      have mx: "n = (if mut_Kind command = ''ReconcileRevision''
             then max (store_revision ?bo s) (mut_RevisionMinimum command) else store_revision ?bo s + 1)"
        by (auto simp: n_def max_def not_less)
      show ?thesis
        using apply_ops_effect [OF bo can] pre nx mx False r1
        by (auto simp: out store_revision_def [of _ "s\<lparr>st_canonical := can, st_meta := meta2\<rparr>"] schemaVersion_def
            appliedIndex_def [of _ "s\<lparr>st_canonical := can, st_meta := meta2\<rparr>"] g2 meta_keys not_le)
    qed
  qed
qed

end
