(* ===== verification/CtlFSMProps.thy ===== *)
theory CtlFSMProps
  imports CtlFSMLemmas
begin

text \<open>
  The properties of the Controllers' store and replicated state machine, with witnesses on a database of
  association lists.
\<close>

section \<open>Runs of the state machine\<close>

definition canonical_map :: "'b ctl_env \<Rightarrow> 'b fsm \<Rightarrow> string \<rightharpoonup> byte list" where
  "canonical_map env f = b_get (ce_bolt env) (st_canonical (fsm_store f))"

text \<open>A sequence of committed entries, each with the outcome of its commit and of its file operations.\<close>

record entry =
  en_commit_ok :: bool
  en_io_fail :: "io_op \<Rightarrow> string \<Rightarrow> bool"
  en_index :: u64
  en_data :: "byte list"

definition step_env :: "'b ctl_env \<Rightarrow> entry \<Rightarrow> 'b ctl_env" where
  "step_env env x = env\<lparr>ce_commit_ok := en_commit_ok x, ce_io_fail := en_io_fail x\<rparr>"

fun fsm_run :: "'b ctl_env \<Rightarrow> entry list \<Rightarrow> 'b fsm \<Rightarrow> 'b fsm" where
  "fsm_run env [] f = f"
| "fsm_run env (x # xs) f = fsm_run env xs (snd (fsm_Apply (step_env env x) (en_index x) (en_data x) f))"

lemma step_env_simps [simp]: "ce_bolt (step_env env x) = ce_bolt env"
  by (simp add: step_env_def)

lemma ownership_ok_step_env [simp]: "ownership_ok (step_env env x) m = ownership_ok env m"
  by (simp add: ownership_ok_def owned_route_def step_env_def)

lemma canonical_map_step_env [simp]: "canonical_map (step_env env x) f = canonical_map env f"
  by (simp add: canonical_map_def)

text \<open>How \<^verbatim>\<open>Apply\<close> goes through: refused before the transaction, or an outcome of it that was committed.\<close>

lemma fsm_Apply_cases:
  assumes "fsm_Apply env index d f = (r, f')"
  shows "f' = f \<and> \<not> res_OK r \<and> \<not> res_Conflict r \<or>
    (\<exists>command ops outcome. check_command command = None \<and> normalize_ops (mut_Operations command) = Inr ops \<and>
       apply_tx env command ops index (fsm_store f) = Inr (outcome, fsm_store f') \<and>
       res_Conflict r = (\<exists>n c. outcome = Conflicted n c) \<and>
       (res_OK r \<longrightarrow> \<not> (\<exists>n c. outcome = Conflicted n c)) \<and> fsm_root f' = fsm_root f)"
proof (cases "f' = f \<and> \<not> res_OK r \<and> \<not> res_Conflict r")
  case False
  then obtain command ops outcome s where c: "check_command command = None"
    "normalize_ops (mut_Operations command) = Inr ops"
    "apply_tx env command ops index (fsm_store f) = Inr (outcome, s)"
    "finish_apply env ops outcome (f\<lparr>fsm_store := s\<rparr>) = (r, f')"
    using assms by (auto simp: fsm_Apply_def error_result_def split: option.splits sum.splits if_splits)
  have "fsm_store f' = s \<and> fsm_root f' = fsm_root f \<and> res_Conflict r = (\<exists>n c. outcome = Conflicted n c) \<and>
      (res_OK r \<longrightarrow> \<not> (\<exists>n c. outcome = Conflicted n c))"
    using c(4)
    by (auto simp: finish_apply_def ok_result_def error_result_def split: tx_outcome.splits option.splits prod.splits)
  with c show ?thesis by blast
qed blast

lemma fsm_Apply_ownership:
  assumes bo: "bolt_ok (ce_bolt env)" and ok: "ownership_ok env (canonical_map env f)"
    and ap: "fsm_Apply env index d f = (r, f')"
  shows "ownership_ok env (canonical_map env f')"
  using fsm_Apply_cases [OF ap]
proof (elim disjE exE conjE)
  assume "f' = f"
  then show ?thesis using ok by simp
next
  fix command ops outcome
  assume tx: "apply_tx env command ops index (fsm_store f) = Inr (outcome, fsm_store f')"
  show ?thesis
    using apply_tx_cases [OF bo tx] ok validate_iff_ownership_ok [OF bo]
    by (cases outcome) (auto simp: canonical_map_def)
qed

lemma fsm_run_ownership:
  "bolt_ok (ce_bolt env) \<Longrightarrow> ownership_ok env (canonical_map env f) \<Longrightarrow>
     ownership_ok env (canonical_map env (fsm_run env xs f))"
proof (induction xs arbitrary: f)
  case (Cons x xs)
  obtain r f1 where ap: "fsm_Apply (step_env env x) (en_index x) (en_data x) f = (r, f1)" by fastforce
  have "ownership_ok env (canonical_map env f1)"
    using fsm_Apply_ownership [OF _ _ ap] Cons.prems by simp
  then show ?case using Cons.IH Cons.prems(1) ap by simp
qed simp

section \<open>A database of association lists\<close>

definition alist_bolt :: "(string \<times> byte list) list bolt" where
  "alist_bolt =
     \<lparr>b_empty = [], b_get = map_of, b_put = (\<lambda>b k v. Some (AList.update k v b)),
      b_del = (\<lambda>b k. Some (AList.delete k b)),
      b_scan = (\<lambda>b. map (\<lambda>k. (k, the (map_of b k))) (sort (remdups (map fst b))))\<rparr>"

lemma alist_bolt_ok: "bolt_ok alist_bolt"
proof -
  have "map_of (map (\<lambda>k. (k, the (map_of b k))) (sort (remdups (map fst b)))) = map_of b"
    for b :: "(string \<times> byte list) list"
  proof
    fix k
    have "map_of (map (\<lambda>k. (k, the (map_of b k))) ks) k = (if k \<in> set ks then Some (the (map_of b k)) else None)" for ks
      by (induction ks) auto
    moreover have "k \<in> fst ` set b \<longleftrightarrow> map_of b k \<noteq> None" by (simp add: map_of_eq_None_iff)
    ultimately show "map_of (map (\<lambda>k. (k, the (map_of b k))) (sort (remdups (map fst b)))) k = map_of b k"
      by (auto)
  qed
  moreover have "sorted_wrt (<) (sort (remdups ks))" for ks :: "string list"
    by (simp add: strict_sorted_iff)
  ultimately show ?thesis
    by (simp add: bolt_ok_def alist_bolt_def comp_def)
qed

definition ex_op :: "string \<Rightarrow> string \<Rightarrow> operation" where
  "ex_op p d = \<lparr>op_Op = ''put'', op_Path = p, op_Data = bytes_of d, op_IfAbsent = True, op_RequirePresent = False,
     op_ExpectedSHA256 = []\<rparr>"

definition ex_mutation :: mutation where
  "ex_mutation = \<lparr>mut_Version = 1, mut_ID = ''m1'', mut_Kind = ''PutRoute'', mut_IssuedAt = 0,
     mut_Operations = [ex_op ''control/nodes/n1.json'' ''10.0.0.0/8'', ex_op ''control/routes/r1.json'' ''10.1.0.0/16''],
     mut_RevisionMinimum = 0\<rparr>"

definition ex_env :: "(string \<times> byte list) list ctl_env" where
  "ex_env = \<lparr>ce_bolt = alist_bolt, ce_commit_ok = True, ce_sha256 = (\<lambda>x. take 32 (x @ replicate 32 0)),
     ce_mutation = (\<lambda>_. Some ex_mutation),
     ce_route = (\<lambda>raw. Some \<lparr>rr_CIDR = string_of raw, rr_NodeID = [], rr_OwnerNodeID = ''n1''\<rparr>),
     ce_node = (\<lambda>raw. Some \<lparr>nr_AuthorizedRoutes = None, nr_AdvertisedRoutes = [string_of raw], nr_NodeID = ''n1'',
        nr_Revoked = False, nr_Roles = [(''site_router'', True)]\<rparr>),
     ce_decode = (\<lambda>_. None), ce_encode = (\<lambda>_. []), ce_io_fail = (\<lambda>_ _. False)\<rparr>"

definition ex_fsm :: "(string \<times> byte list) list fsm" where
  "ex_fsm = NewStateMachine \<lparr>st_logs = [], st_stable = [], st_canonical = [], st_meta = []\<rparr> ''/var/lib/bpc'' []"

definition ex_entry :: "u64 \<Rightarrow> entry" where
  "ex_entry i = \<lparr>en_commit_ok = True, en_io_fail = (\<lambda>_ _. False), en_index = i, en_data = []\<rparr>"

lemma ex_ownership: "ownership_ok ex_env (canonical_map ex_env ex_fsm)"
  by (simp add: ownership_ok_def owned_route_def canonical_map_def ex_env_def ex_fsm_def NewStateMachine_def
      alist_bolt_def)

section \<open>Route ownership\<close>

text \<open>C7. Route ownership stays unique under replication. From a state where it holds (the empty one does), after
  any sequence of committed entries, with any failing commits and file operations in between, every route
  record names an active site router whose grants cover the route, and no address has two owners.\<close>

theorem route_ownership_invariant:
  assumes "bolt_ok (ce_bolt env)" and "ownership_ok env (canonical_map env f)"
  shows "(let m = canonical_map env (fsm_run env xs f)
     in (\<forall>k. has_prefix k ''control/routes/'' \<and> m k \<noteq> None \<longrightarrow> (\<exists>owner p. owned_route env m k owner p)) \<and>
        (\<forall>k1 o1 p1 k2 o2 p2 a. owned_route env m k1 o1 p1 \<and> owned_route env m k2 o2 p2 \<and>
           Contains p1 a \<and> Contains p2 a \<longrightarrow> o1 = o2))"
proof -
  define m where "m = canonical_map env (fsm_run env xs f)"
  have ok: "ownership_ok env m" unfolding m_def by (rule fsm_run_ownership [OF assms])
  have "o1 = o2" if "owned_route env m k1 o1 p1" "owned_route env m k2 o2 p2" "Contains p1 a" "Contains p2 a"
    for k1 o1 p1 k2 o2 p2 a
    using that ok netip.overlap_iff [of p1 p2] owned_route_covered unfolding ownership_ok_def by metis
  then show ?thesis using ok unfolding m_def [symmetric] ownership_ok_def Let_def by blast
qed

theorem route_ownership_invariant_witness:
  "\<not> (\<exists>k1 o1 p1 k2 o2 p2 a.
     owned_route ex_env (canonical_map ex_env (fsm_run ex_env [ex_entry 1, ex_entry 2] ex_fsm)) k1 o1 p1 \<and>
     owned_route ex_env (canonical_map ex_env (fsm_run ex_env [ex_entry 1, ex_entry 2] ex_fsm)) k2 o2 p2 \<and>
     Contains p1 a \<and> Contains p2 a \<and> o1 \<noteq> o2)"
proof -
  have "bolt_ok (ce_bolt ex_env)" using alist_bolt_ok by (simp add: ex_env_def)
  from route_ownership_invariant [OF this ex_ownership, of "[ex_entry 1, ex_entry 2]"] show ?thesis
    unfolding Let_def by blast
qed

text \<open>C24. The route check that \<^verbatim>\<open>Apply\<close> makes on the stored records and the pending operations is exact: it reports
  no conflict if and only if the state those operations produce satisfies route ownership.\<close>

theorem route_check_exact:
  assumes "bolt_ok (ce_bolt env)" and "apply_ops (ce_bolt env) ops c = Inr c'"
  shows "validateRouteOwnershipInvariant env c ops = None \<longleftrightarrow> ownership_ok env (b_get (ce_bolt env) c')"
  using validate_iff_ownership_ok [OF assms(1)] apply_ops_effect [OF assms] by simp

theorem route_check_exact_witness:
  "validateRouteOwnershipInvariant ex_env [] [] = None \<longleftrightarrow> ownership_ok ex_env (b_get alist_bolt [])"
proof -
  have e: "ce_bolt ex_env = alist_bolt" by (simp add: ex_env_def)
  have "apply_ops alist_bolt [] [] = Inr []" by simp
  from route_check_exact [of ex_env "[]" "[]" "[]"] show ?thesis by (simp add: e alist_bolt_ok)
qed

section \<open>Revisions and replay\<close>

lemma fsm_Apply_advances:
  assumes "bolt_ok (ce_bolt env)" and "fsm_Apply env index d f = (r, f')"
  shows "store_revision (ce_bolt env) (fsm_store f) \<le> store_revision (ce_bolt env) (fsm_store f') \<and>
    appliedIndex (ce_bolt env) (fsm_store f) \<le> appliedIndex (ce_bolt env) (fsm_store f') \<and>
    (res_Conflict r \<longrightarrow> canonical_map env f' = canonical_map env f \<and>
       store_revision (ce_bolt env) (fsm_store f') = store_revision (ce_bolt env) (fsm_store f))"
  using fsm_Apply_cases [OF assms(2)]
proof (elim disjE exE conjE)
  assume "f' = f" "\<not> res_Conflict r"
  then show ?thesis by simp
next
  fix command ops outcome
  assume tx: "apply_tx env command ops index (fsm_store f) = Inr (outcome, fsm_store f')"
    and rc: "res_Conflict r = (\<exists>n c. outcome = Conflicted n c)"
  have wrap: "n \<noteq> - 1 \<Longrightarrow> n \<le> n + 1" for n :: u64
  proof -
    assume "n \<noteq> - 1"
    then have "unat n \<noteq> unat (- 1 :: u64)" by (simp add: word_unat_eq_iff)
    moreover have "unat (- 1 :: u64) = 2 ^ 64 - 1" by (simp add: unsigned_minus_1_eq_mask mask_eq_exp_minus_1)
    moreover have "unat n < 2 ^ 64" using unsigned_less [of n] by simp
    ultimately have "unat n + 1 < 2 ^ 64" by linarith
    then show "n \<le> n + 1" by (simp add: word_le_nat_alt unat_word_ariths)
  qed
  show ?thesis
    using apply_tx_cases [OF assms(1) tx] rc wrap
    by (cases outcome) (auto simp: canonical_map_def split: if_splits)
qed

text \<open>Applying a committed entry never moves the revision or the applied index back; an entry that ends in a
  conflict or an error before the commit leaves the canonical state as it was; an entry that is applied
  raises the revision by exactly one (or to the requested minimum in a revision reconciliation), and the
  64-bit counter does not wrap.\<close>

theorem apply_advances:
  assumes "bolt_ok (ce_bolt env)" and "fsm_Apply env index d f = (r, f')"
  shows "store_revision (ce_bolt env) (fsm_store f) \<le> store_revision (ce_bolt env) (fsm_store f') \<and>
    appliedIndex (ce_bolt env) (fsm_store f) \<le> appliedIndex (ce_bolt env) (fsm_store f') \<and>
    (res_Conflict r \<longrightarrow> canonical_map env f' = canonical_map env f \<and>
       store_revision (ce_bolt env) (fsm_store f') = store_revision (ce_bolt env) (fsm_store f))"
  by (rule fsm_Apply_advances [OF assms])

theorem apply_advances_witness:
  "store_revision alist_bolt (fsm_store ex_fsm)
     \<le> store_revision alist_bolt (fsm_store (snd (fsm_Apply ex_env 1 [] ex_fsm)))"
proof -
  have bo: "bolt_ok (ce_bolt ex_env)" using alist_bolt_ok by (simp add: ex_env_def)
  obtain r f' where "fsm_Apply ex_env 1 [] ex_fsm = (r, f')" by fastforce
  from apply_advances [OF bo this] this show ?thesis by (simp add: ex_env_def)
qed

text \<open>Replaying is harmless: entries whose index was already applied, as Raft delivers them again after a
  restart, change neither the store nor the projection.\<close>

theorem replay_idempotent:
  assumes "\<forall>x\<in>set xs. en_index x \<noteq> 0 \<and> en_index x \<le> appliedIndex (ce_bolt env) (fsm_store f)"
  shows "fsm_run env xs f = f"
  using assms
proof (induction xs)
  case (Cons x xs)
  have "snd (fsm_Apply (step_env env x) (en_index x) (en_data x) f) = f"
    using Cons.prems
    by (auto simp: fsm_Apply_def apply_tx_def Let_def finish_apply_def split: option.splits sum.splits)
  then show ?case using Cons by simp
qed simp

theorem replay_idempotent_witness:
  "fsm_run ex_env [ex_entry 1, ex_entry 2] (ex_fsm\<lparr>fsm_store := (fsm_store ex_fsm)\<lparr>st_meta := [(keyAppliedIndex, u64key 7)]\<rparr>\<rparr>)
     = ex_fsm\<lparr>fsm_store := (fsm_store ex_fsm)\<lparr>st_meta := [(keyAppliedIndex, u64key 7)]\<rparr>\<rparr>"
  by (rule replay_idempotent) (simp add: ex_entry_def appliedIndex_def ex_env_def alist_bolt_def)

section \<open>Canonical paths and the projection\<close>

lemma path_Clean_no_dot_slash: "\<not> has_prefix (path_Clean p) ''./''"
proof (cases rule: path_Clean_form [of p])
  case (rel ws)
  obtain w us where ws: "ws = w # us" using rel(2) by (cases ws) auto
  have w: "w = ''..'' \<or> plain_part w"
  proof -
    obtain n ps where c: "ws = replicate n ''..'' @ ps" "\<forall>w\<in>set ps. plain_part w"
      using rel(3) unfolding climbed_def by blast
    have "w \<in> set (replicate n ''..'') \<or> w \<in> set ps" using c ws by (metis Un_iff list.set_intros(1) set_append)
    then show ?thesis using c(2) by auto
  qed
  have "path_Clean p = w @ (if us = [] then [] else ''/'' @ join_slash us)"
    using rel(1) ws by (cases us) auto
  moreover obtain c cs where "w = c # cs" using w by (cases w) (auto simp: plain_part_def)
  ultimately show ?thesis
    using w by (cases cs) (auto simp: plain_part_def)
qed simp_all

lemma replicated_start:
  "NormalizeReplicatedPath p = Inr n \<Longrightarrow> n = path_Clean (trim_space p) \<and> hd n = CHR ''c'' \<and> n \<noteq> []"
proof -
  assume a: "NormalizeReplicatedPath p = Inr n"
  have t: "trim_prefix (path_Clean (trim_space p)) ''./'' = path_Clean (trim_space p)"
    using path_Clean_no_dot_slash by (simp add: trim_prefix_def)
  have n: "n = path_Clean (trim_space p)" and "n \<noteq> []"
    and mem: "n \<in> set replicatedExact \<or> list_ex (\<lambda>pre. has_prefix n pre \<and> length pre < length n) replicatedPrefixes"
    using a by (auto simp: NormalizeReplicatedPath_def Let_def t split: if_splits)
  have "hd n = CHR ''c''"
    using mem \<open>n \<noteq> []\<close> by (cases n) (auto simp: replicatedExact_def replicatedPrefixes_def)
  with n \<open>n \<noteq> []\<close> show ?thesis by blast
qed

lemma replicated_parts:
  assumes "NormalizeReplicatedPath p = Inr n"
  obtains ws where "n = join_slash ws" "ws \<noteq> []" "\<forall>w\<in>set ws. plain_part w"
proof -
  have n: "n = path_Clean (trim_space p)" "hd n = CHR ''c''" "n \<noteq> []" using replicated_start [OF assms] by auto
  show ?thesis
  proof (cases rule: path_Clean_form [of "trim_space p"])
    case (abs ws)
    then show ?thesis using n by simp
  next
    case (rel ws)
    obtain k ps where c: "ws = replicate k ''..'' @ ps" "\<forall>w\<in>set ps. plain_part w"
      using rel(3) unfolding climbed_def by blast
    have "k = 0"
    proof (rule ccontr)
      assume "k \<noteq> 0"
      then obtain j where "k = Suc j" by (cases k) auto
      then have "hd n = CHR ''.''"
        using join_slash_head [of "''..''" "replicate j ''..'' @ ps"] n(1) rel(1) c(1) by simp
      then show False using n(2) by simp
    qed
    then show ?thesis using that [of ws] c rel n by simp
  next
    case dot
    then show ?thesis using n by simp
  qed
qed

text \<open>A path that \<^verbatim>\<open>NormalizeReplicatedPath\<close> accepts cannot leave the state directory: its components are
  ordinary names without dots or slashes, and below any cleaned root other than the filesystem root and the
  bare dot its target is the root followed by the path, so the escape check of the projection passes.\<close>

theorem normalized_path_confined:
  assumes "NormalizeReplicatedPath p = Inr n" and "root = path_Clean s" and "root \<noteq> ''.''" and "root \<noteq> ''/''"
  shows "path_Join root n = root @ ''/'' @ n \<and> inside_root root (path_Join root n) \<and>
    (\<exists>ws. n = join_slash ws \<and> (\<forall>w. w \<in> set ws \<longrightarrow> plain_part w))"
proof -
  obtain ws where ws: "n = join_slash ws" "ws \<noteq> []" "\<forall>w\<in>set ws. plain_part w" using replicated_parts [OF assms(1)] .
  have j: "path_Join root n = root @ ''/'' @ n" using path_Join_below [OF assms(2-4) ws(2,3)] ws(1) by simp
  moreover have "root \<noteq> []" using assms(2) by simp
  then have "path_Clean (root @ ''/'' @ n) = root @ ''/'' @ n"
    using j by (simp add: path_Join_def)
  then have "inside_root root (path_Join root n)"
    using has_prefix_append [of "root @ ''/''" "n @ ''/''"] by (simp add: inside_root_def j)
  ultimately show ?thesis using ws by blast
qed

lemma ex_normalize: "NormalizeReplicatedPath ''control/routes/r1.json'' = Inr ''control/routes/r1.json''"
proof -
  have "trim_space ''control/routes/r1.json'' = ''control/routes/r1.json''"
    by (rule trim_space_plain) (simp_all add: space_bytes_def space_seqs_def)
  then show ?thesis
    by (simp add: NormalizeReplicatedPath_def path_Clean_def IsAbs_def has_prefix_def trim_prefix_def replicatedExact_def
        replicatedPrefixes_def)
qed

theorem normalized_path_confined_witness:
  "inside_root (path_Clean ''/var/lib/bpc'') (path_Join (path_Clean ''/var/lib/bpc'') ''control/routes/r1.json'')"
proof -
  have "path_Clean ''/var/lib/bpc'' = ''/var/lib/bpc''"
    by (simp add: path_Clean_def IsAbs_def has_prefix_def)
  then have "path_Clean ''/var/lib/bpc'' \<noteq> ''.''" "path_Clean ''/var/lib/bpc'' \<noteq> ''/''" by simp_all
  from normalized_path_confined [OF ex_normalize refl this] show ?thesis by (elim conjE)
qed

text \<open>Two corners of the path handling. With the state directory given as a bare dot every projection is
  refused as an escape; and a path that ends in a blank component before a dot is accepted by
  \<^verbatim>\<open>Apply\<close> under a name that \<^verbatim>\<open>Restore\<close> refuses.\<close>

lemma dot_root_always_escapes: "\<not> inside_root (path_Clean ''.'') (path_Join (path_Clean ''.'') ''control/config.json'')"
  by (simp add: inside_root_def path_Clean_def path_Join_def IsAbs_def has_prefix_def)

lemma accepted_path_not_restorable:
  "NormalizeReplicatedPath ''control/routes/ /.'' = Inr ''control/routes/ '' \<and>
   NormalizeReplicatedPath ''control/routes/ '' = Inl (NotReplicated ''control/routes'')"
proof -
  have t1: "trim_space ''control/routes/ /.'' = ''control/routes/ /.''"
    by (rule trim_space_plain) (simp_all add: space_bytes_def space_seqs_def)
  have t2: "trim_space ''control/routes/ '' = ''control/routes/''"
    by (simp add: trim_space_def trim_front.simps space_seqs_def)
  show ?thesis
    by (simp add: NormalizeReplicatedPath_def t1 t2)
      (simp add: path_Clean_def IsAbs_def has_prefix_def trim_prefix_def replicatedExact_def replicatedPrefixes_def)
qed

end
