(* ===== verification/CtlSnapshotProps.thy ===== *)
theory CtlSnapshotProps
  imports CtlFSMProps
begin

text \<open>
  The projection of the canonical state on disk mirrors the store after a reconciliation, and a snapshot of
  one Controller restored on another gives it the same canonical state.
\<close>

section \<open>The projection\<close>

lemma atomicProjectionWrite_ok:
  assumes "atomicProjectionWrite env q d files = (None, files')"
  shows "map_option file_data (map_of files' q) = Some d \<and> (\<forall>r. r \<noteq> q \<longrightarrow> map_of files' r = map_of files r)"
  using assms by (auto simp: atomicProjectionWrite_def Let_def update_conv split: if_splits option.splits)

lemma write_entries_ok:
  "write_entries env root es files = (None, files') \<Longrightarrow> keys_distinct es \<Longrightarrow>
   inj_on (path_Join root) (fst ` set es) \<Longrightarrow>
     (\<forall>(p, d) \<in> set es. map_option file_data (map_of files' (path_Join root p)) = Some d) \<and>
     (\<forall>q. q \<notin> path_Join root ` fst ` set es \<longrightarrow> map_of files' q = map_of files q)"
proof (induction es arbitrary: files)
  case (Cons e es)
  obtain p d where e: "e = (p, d)" by fastforce
  with Cons.prems obtain files1 where w: "atomicProjectionWrite env (path_Join root p) d files = (None, files1)"
    and rest: "write_entries env root es files1 = (None, files')"
    by (auto split: prod.splits option.splits)
  have ih: "(\<forall>(p, d) \<in> set es. map_option file_data (map_of files' (path_Join root p)) = Some d) \<and>
     (\<forall>q. q \<notin> path_Join root ` fst ` set es \<longrightarrow> map_of files' q = map_of files1 q)"
    using Cons.IH [OF rest] Cons.prems(2,3) e by (simp add: keys_distinct_def inj_on_def)
  have "path_Join root p \<notin> path_Join root ` fst ` set es"
    using Cons.prems(2,3) e by (force simp: keys_distinct_def inj_on_def)
  then show ?case using ih atomicProjectionWrite_ok [OF w] e by auto
qed simp

lemma remove_stale_ok:
  "remove_stale env root present ps files = (None, files') \<Longrightarrow>
     map_of files' q = (if \<exists>p \<in> set ps. p \<notin> set present \<and> path_Join root p = q then None else map_of files q)"
proof (induction ps arbitrary: files)
  case (Cons p ps)
  show ?case
  proof (cases "p \<in> set present")
    case False
    then obtain files1 where r: "remove_file env (path_Join root p) files = (None, files1)"
      and rest: "remove_stale env root present ps files1 = (None, files')"
      using Cons.prems by (auto split: prod.splits option.splits)
    have "map_of files1 q = (if q = path_Join root p then None else map_of files q)"
      using r by (auto simp: remove_file_def delete_conv split: if_splits)
    then show ?thesis using Cons.IH [OF rest] False by auto
  qed (use Cons in simp)
qed simp


lemma AList_fold_keys:
  "fst ` set (fold (\<lambda>(n, d) m. AList.update n d m) xs m) = fst ` set xs \<union> fst ` set m"
proof (induction xs arbitrary: m)
  case (Cons x xs)
  then show ?case by (cases x) (simp add: update_keys)
qed simp

lemma scan_keys_set:
  assumes "ScanReplicatedProjection env root files = Inr found"
  shows "n \<in> fst ` set found \<longleftrightarrow> (\<exists>q x d. (q, x) \<in> set files \<and> scan_file root (q, x) = Some (n, d))"
proof -
  have "fst ` set found = fst ` set (List.map_filter (scan_file root) (sort_slice (less_by fst) files))"
    using assms AList_fold_keys [of "List.map_filter (scan_file root) (sort_slice (less_by fst) files)" "[]"]
    by (auto simp: ScanReplicatedProjection_def simp del: split_paired_Ex split: if_splits)
  moreover have "set (List.map_filter (scan_file root) (sort_slice (less_by fst) files))
      = {nd. \<exists>f \<in> set files. scan_file root f = Some nd}"
    by (force simp: map_filter_def)
  ultimately have "n \<in> fst ` set found \<longleftrightarrow> (\<exists>nd. fst nd = n \<and> (\<exists>f \<in> set files. scan_file root f = Some nd))"
    by (simp only: image_iff mem_Collect_eq Bex_def) (metis (no_types))
  then show ?thesis by auto
qed

text \<open>A path in normal form: replicated, and normalized to itself.\<close>

definition canonical_path :: "string \<Rightarrow> bool" where
  "canonical_path k \<longleftrightarrow> NormalizeReplicatedPath k = Inr k"

lemma canonical_path_replicated:
  assumes "canonical_path k"
  shows "k \<in> set replicatedExact \<or> list_ex (has_prefix k) replicatedPrefixes" and "k @ ''/'' \<notin> set replicatedPrefixes"
proof -
  have r: "k \<in> set replicatedExact \<or> list_ex (\<lambda>pre. has_prefix k pre \<and> length pre < length k) replicatedPrefixes"
    using assms by (auto simp: canonical_path_def NormalizeReplicatedPath_def Let_def split: if_splits)
  then show "k \<in> set replicatedExact \<or> list_ex (has_prefix k) replicatedPrefixes" by (auto simp: list_ex_iff)
  show "k @ ''/'' \<notin> set replicatedPrefixes"
  proof
    assume "k @ ''/'' \<in> set replicatedPrefixes"
    then have "k \<in> set (map butlast replicatedPrefixes)" by (metis butlast_snoc image_eqI list.set_map)
    then show False using r by (auto simp: replicatedPrefixes_def replicatedExact_def has_prefix_def)
  qed
qed


lemma join_split: "join_slash (split_on (CHR ''/'') s) = s"
  by (induction s) (auto split: list.splits simp: neq_Nil_conv elim: join_slash.elims)

lemma candidate_parts:
  assumes "r @ ''/'' \<in> set replicatedPrefixes"
  shows "\<exists>ws. r = join_slash ws \<and> ws \<noteq> [] \<and> (\<forall>w\<in>set ws. plain_part w)"
proof -
  have "r \<in> set (map butlast replicatedPrefixes)" using assms by (metis butlast_snoc image_eqI list.set_map)
  then have "\<forall>w\<in>set (split_on (CHR ''/'') r). plain_part w"
    by (auto simp: replicatedPrefixes_def plain_part_def)
  then show ?thesis using join_split [of r] split_on_not_Nil by metis
qed

lemma exact_canonical: "r \<in> set replicatedExact \<Longrightarrow> NormalizeReplicatedPath r = Inr r"
  using trim_space_plain [of "''cluster/cluster.json''"] trim_space_plain [of "''control/config.json''"]
  by (auto simp: replicatedExact_def NormalizeReplicatedPath_def path_Clean_def IsAbs_def has_prefix_def trim_prefix_def
      space_bytes_def space_seqs_def)

lemma found_names:
  assumes "ScanReplicatedProjection env root files = Inr found" and "p \<in> fst ` set found"
  obtains q where "NormalizeReplicatedPath q = Inr p" | r where "p = r @ ''/''" "p \<in> set replicatedPrefixes"
proof -
  obtain q x d where "scan_file root (q, x) = Some (p, d)" using scan_keys_set [OF assms(1)] assms(2) by blast
  then show ?thesis
    using that exact_canonical by (auto simp: scan_file_def split: option.splits if_splits sum.splits)
qed

lemma path_Join_normal:
  assumes "root = path_Clean s" "root \<noteq> ''.''" "root \<noteq> ''/''" and "NormalizeReplicatedPath q = Inr p"
  shows "path_Join root p = root @ ''/'' @ p"
  using replicated_parts [OF assms(4)] path_Join_below [OF assms(1-3)] by metis

lemma entries_written:
  assumes root: "root = path_Clean s" "root \<noteq> ''.''" "root \<noteq> ''/''"
    and keys: "\<forall>p \<in> fst ` set entries. canonical_path p" and "keys_distinct entries"
    and w: "write_entries env root entries files = (None, files1)" and kd: "(k, d) \<in> set entries"
  shows "map_option file_data (map_of files1 (path_Join root k)) = Some d"
proof -
  have "inj_on (path_Join root) (fst ` set entries)"
    unfolding inj_on_def
  proof (intro ballI impI)
    fix p q
    assume "p \<in> fst ` set entries" "q \<in> fst ` set entries" "path_Join root p = path_Join root q"
    moreover from this(1,2) have "path_Join root p = root @ ''/'' @ p" "path_Join root q = root @ ''/'' @ q"
      using keys path_Join_normal [OF root] unfolding canonical_path_def by blast+
    ultimately show "p = q" by simp
  qed
  then have "\<forall>(p, d) \<in> set entries. map_option file_data (map_of files1 (path_Join root p)) = Some d"
    using write_entries_ok [OF w] assms(5) by simp
  from bspec [OF this kd] show ?thesis by simp
qed

lemma found_name_unique:
  assumes root: "root = path_Clean s" "root \<noteq> ''.''" "root \<noteq> ''/''"
    and sc: "ScanReplicatedProjection env root files = Inr found" and k: "canonical_path k"
    and p: "p \<in> fst ` set found" "path_Join root p = path_Join root k"
  shows "p = k"
proof (rule found_names [OF sc p(1)])
  have kj: "path_Join root k = root @ ''/'' @ k" using path_Join_normal [OF root] k by (simp add: canonical_path_def)
  show ?thesis if "NormalizeReplicatedPath q = Inr p" for q
    using path_Join_normal [OF root that] p(2) kj by simp
  show ?thesis if r: "p = r @ ''/''" "p \<in> set replicatedPrefixes" for r
  proof -
    have "root \<noteq> []" using root(1) by simp
    then have "path_Join root p = root @ ''/'' @ r"
      using r path_Join_trailing candidate_parts [of r] path_Join_below [OF root] by metis
    then show ?thesis using p(2) kj canonical_path_replicated(2) [OF k] r by simp
  qed
qed

lemma scan_finds:
  assumes "root \<noteq> ''.''" "root \<noteq> ''/''" and sc: "ScanReplicatedProjection env root files = Inr found"
    and k: "canonical_path k" and x: "map_of files (root @ ''/'' @ k) = Some x"
  shows "k \<in> fst ` set found"
proof -
  have "relative_path root (root @ ''/'' @ k) = Some k"
    using assms(1,2) by (simp add: relative_path_def has_prefix_def)
  then have "scan_file root (root @ ''/'' @ k, x) = Some (k, file_data x)"
    using canonical_path_replicated [OF k] k by (auto simp: scan_file_def canonical_path_def)
  then show ?thesis using scan_keys_set [OF sc] map_of_SomeD [OF x] by blast
qed


lemma ex_reconcile: "ReconcileProjection ex_env ex_fsm = (None, ex_fsm)"
  by (simp add: ReconcileProjection_def canonicalEntries_def ex_env_def ex_fsm_def NewStateMachine_def alist_bolt_def
      ScanReplicatedProjection_def map_filter_def sort_slice_def)


section \<open>Snapshots\<close>

lemma put_entries_get:
  "bolt_ok bo \<Longrightarrow> put_entries bo es ps b = Some b' \<Longrightarrow>
     b_get bo b' k = (if k \<in> set ps then Some (case map_of es k of None \<Rightarrow> [] | Some d \<Rightarrow> d) else b_get bo b k)"
proof (induction ps arbitrary: b)
  case (Cons p ps)
  then obtain b1 where "b_put bo b p (case map_of es p of None \<Rightarrow> [] | Some d \<Rightarrow> d) = Some b1" "put_entries bo es ps b1 = Some b'"
    by (auto split: option.splits)
  with Cons show ?case by (simp add: bolt_laws(2) [OF Cons.prems(1)])
qed simp

lemma put_entries_map:
  assumes "bolt_ok bo" and "put_entries bo es (sort_slice lt (map fst es)) (b_empty bo) = Some b'"
  shows "b_get bo b' = map_of es"
proof
  fix k
  show "b_get bo b' k = map_of es k"
    using put_entries_get [OF assms, of k] bolt_laws(1) [OF assms(1), of k] map_of_eq_None_iff [of es k]
    by (auto split: option.splits)
qed

text \<open>What a restore transaction leaves.\<close>

lemma restore_tx_ok:
  assumes bo: "bolt_ok (ce_bolt env)" and tx: "restore_tx env e s = Inr s'"
  shows "b_get (ce_bolt env) (st_canonical s') = map_of (env_Entries e) \<and>
    store_revision (ce_bolt env) s' = env_Revision e \<and> schemaVersion (ce_bolt env) s' = env_SchemaVersion e \<and>
    appliedIndex (ce_bolt env) s' = 0 \<and> revisionFloor (ce_bolt env) s' = revisionFloor (ce_bolt env) s \<and>
    st_logs s' = st_logs s \<and> st_stable s' = st_stable s \<and>
    (\<forall>p \<in> fst ` set (env_Entries e). \<exists>n. NormalizeReplicatedPath p = Inr n)"
proof -
  let ?bo = "ce_bolt env"
  have paths: "first_error (\<lambda>p. case NormalizeReplicatedPath p of Inl x \<Rightarrow> Some (PathRejected x) | Inr _ \<Rightarrow> None) (map fst (env_Entries e)) = None"
    using tx by (auto simp: restore_tx_def Let_def split: option.splits)
  obtain can meta1 meta2 where can: "put_entries ?bo (env_Entries e) (sort_slice (<) (map fst (env_Entries e))) (b_empty ?bo) = Some can"
    and m1: "b_del ?bo (st_meta s) keyAppliedIndex = Some meta1"
    and m2: "put_meta ?bo [(keyRevision, env_Revision e), (keySchema, env_SchemaVersion e)] meta1 = Some meta2"
    and s': "s' = s\<lparr>st_canonical := can, st_meta := meta2\<rparr>"
    using tx paths by (auto simp: restore_tx_def Let_def split: option.splits)
  have g: "b_get ?bo meta2 = (b_get ?bo (st_meta s))(keyAppliedIndex := None, keyRevision \<mapsto> u64key (env_Revision e),
      keySchema \<mapsto> u64key (env_SchemaVersion e))"
    using put_meta_get [OF bo m2] bolt_laws(3) [OF bo m1] by (auto simp: map_add_def fun_eq_iff meta_keys)
  have "\<forall>p \<in> fst ` set (env_Entries e). \<exists>n. NormalizeReplicatedPath p = Inr n"
  proof
    fix p assume "p \<in> fst ` set (env_Entries e)"
    then have "(case NormalizeReplicatedPath p of Inl x \<Rightarrow> Some (PathRejected x) | Inr _ \<Rightarrow> None) = None"
      using paths by (auto simp only: first_error_None set_map)
    then show "\<exists>n. NormalizeReplicatedPath p = Inr n" by (cases "NormalizeReplicatedPath p") simp_all
  qed
  then show ?thesis
    using put_entries_map [OF bo can]
    by (simp add: s' store_revision_def schemaVersion_def appliedIndex_def revisionFloor_def g meta_keys decodeU64_def [of None])
qed


lemma put_entries_total: "\<forall>b k v. b_put bo b k v \<noteq> None \<and> b_del bo b k \<noteq> None \<Longrightarrow> \<exists>b'. put_entries bo es ps b = Some b'"
proof (induction ps arbitrary: b)
  case (Cons p ps)
  then obtain b1 where "b_put bo b p (case map_of es p of None \<Rightarrow> [] | Some d \<Rightarrow> d) = Some b1" by blast
  then show ?case using Cons by simp
qed simp

lemma put_meta_total: "\<forall>b k v. b_put bo b k v \<noteq> None \<and> b_del bo b k \<noteq> None \<Longrightarrow> \<exists>b'. put_meta bo kvs b = Some b'"
proof (induction kvs arbitrary: b)
  case (Cons kv kvs)
  obtain k v where kv: "kv = (k, v)" by fastforce
  obtain b1 where "b_put bo b k (u64key v) = Some b1" using Cons.prems by blast
  then show ?case using Cons kv by simp
qed simp

lemma atomicProjectionWrite_error:
  "atomicProjectionWrite env q d files = (Some e, files') \<Longrightarrow> \<exists>x. e = ProjectionIO x"
  by (auto simp: atomicProjectionWrite_def Let_def split: if_splits option.splits)

lemma write_entries_error: "write_entries env root es files = (Some e, files') \<Longrightarrow> \<exists>x. e = ProjectionIO x"
  by (induction es arbitrary: files) (auto split: prod.splits option.splits dest: atomicProjectionWrite_error)

lemma remove_stale_error: "remove_stale env root present ps files = (Some e, files') \<Longrightarrow> \<exists>x. e = ProjectionIO x"
  by (induction ps arbitrary: files) (auto simp: remove_file_def split: prod.splits option.splits if_splits)

lemma reconcile_errors:
  assumes "ReconcileProjection env f = (err, f')"
  shows "fsm_store f' = fsm_store f \<and> (err = None \<or> (\<exists>x. err = Some (ProjectionIO x)))"
  using assms unfolding ReconcileProjection_def Let_def
  by (cases err) (auto simp: ScanReplicatedProjection_def split: prod.splits option.splits sum.splits if_splits
      dest: write_entries_error remove_stale_error)

text \<open>Restoring is all or nothing. Either the store is exactly as before and an error is reported, or the bytes
  decode to a snapshot of a known version and schema whose checksum is right and whose paths are all
  replicated state, and then the canonical state, the revision and the schema are the snapshot's, the
  applied index is reset so that the log is applied anew, and the Raft log, the stable store and the
  revision floor are untouched.\<close>

theorem restore_all_or_nothing:
  assumes "bolt_ok (ce_bolt env)" and "fsm_Restore env raw f = (err, f')"
  shows "(err \<noteq> None \<and> f' = f) \<or>
    (\<exists>e. ce_decode env (take snapshotLimit raw) = Some e \<and> env_Version e = 1 \<and> env_SchemaVersion e \<le> ControlSchemaVersion \<and>
       env_Checksum e = snapshotChecksum env (env_SchemaVersion e) (env_Revision e) (env_Entries e) \<and>
       (\<forall>p \<in> fst ` set (env_Entries e). \<exists>n. NormalizeReplicatedPath p = Inr n) \<and>
       canonical_map env f' = map_of (env_Entries e) \<and>
       store_revision (ce_bolt env) (fsm_store f') = env_Revision e \<and>
       schemaVersion (ce_bolt env) (fsm_store f') = env_SchemaVersion e \<and>
       appliedIndex (ce_bolt env) (fsm_store f') = 0 \<and>
       revisionFloor (ce_bolt env) (fsm_store f') = revisionFloor (ce_bolt env) (fsm_store f) \<and>
       st_logs (fsm_store f') = st_logs (fsm_store f) \<and> st_stable (fsm_store f') = st_stable (fsm_store f))"
proof (cases "err \<noteq> None \<and> f' = f")
  case False
  then obtain e s where e: "ce_decode env (take snapshotLimit raw) = Some e"
    "env_Version e = 1" "\<not> ControlSchemaVersion < env_SchemaVersion e"
    "snapshotChecksum env (env_SchemaVersion e) (env_Revision e) (env_Entries e) = env_Checksum e"
    "restore_tx env e (fsm_store f) = Inr s" and rec: "ReconcileProjection env (f\<lparr>fsm_store := s\<rparr>) = (err, f')"
    using assms(2) by (auto simp: fsm_Restore_def split: option.splits sum.splits if_splits)
  have "fsm_store f' = s" using reconcile_errors [OF rec] by simp
  then show ?thesis
    using e restore_tx_ok [OF assms(1) e(5)] by (auto simp: canonical_map_def not_less)
qed blast


text \<open>An encoding that writes the numbers and the checksum, for a store that holds one route.\<close>

definition ex_record :: "(string \<times> byte list) list" where
  "ex_record = [(''control/routes/r1.json'', [1])]"

definition ex_codec :: "(string \<times> byte list) list ctl_env" where
  "ex_codec = ex_env\<lparr>
     ce_encode := (\<lambda>e. u64key (env_SchemaVersion e) @ u64key (env_Revision e) @ bytes_of (env_Checksum e)),
     ce_decode := (\<lambda>raw. Some \<lparr>env_Version = 1, env_SchemaVersion = word_of_nat (be_decode (take 8 raw)),
       env_Revision = word_of_nat (be_decode (take 8 (drop 8 raw))), env_Entries = ex_record,
       env_Checksum = string_of (drop 16 raw)\<rparr>)\<rparr>"

definition ex_stored :: "(string \<times> byte list) list fsm" where
  "ex_stored = NewStateMachine \<lparr>st_logs = [], st_stable = [], st_canonical = ex_record, st_meta = [(keyRevision, u64key 5)]\<rparr>
     ''/var/lib/bpc'' []"

lemma ex_entries: "canonicalEntries alist_bolt (fsm_store ex_stored) = ex_record"
  by (simp add: canonicalEntries_def ex_stored_def NewStateMachine_def alist_bolt_def ex_record_def)

lemma ex_json:
  "env_Version e = 1 \<and> env_Entries e = ex_record \<Longrightarrow> ce_decode ex_codec (ce_encode ex_codec e) = Some e"
  by (simp add: ex_codec_def string_of_bytes_of)

lemma ex_checksum_length: "length (snapshotChecksum ex_codec s v es) = 64"
proof -
  have "length (ce_sha256 ex_codec x) = 32" for x by (simp add: ex_codec_def ex_env_def)
  then show ?thesis by (simp add: snapshotChecksum_def Let_def)
qed

theorem restore_all_or_nothing_witness:
  "fst (fsm_Restore ex_codec [] ex_fsm) \<noteq> None \<and> snd (fsm_Restore ex_codec [] ex_fsm) = ex_fsm"
proof -
  obtain err f' where r: "fsm_Restore ex_codec [] ex_fsm = (err, f')" by fastforce
  have bo: "bolt_ok (ce_bolt ex_codec)" using alist_bolt_ok by (simp add: ex_codec_def ex_env_def)
  have "e = \<lparr>env_Version = 1, env_SchemaVersion = 0, env_Revision = 0, env_Entries = ex_record, env_Checksum = []\<rparr>"
    if "ce_decode ex_codec (take snapshotLimit []) = Some e" for e
    using that by (simp add: ex_codec_def string_of_def)
  moreover have "snapshotChecksum ex_codec s v es \<noteq> []" for s v es
    using ex_checksum_length [of s v es] by (metis list.size(3) zero_neq_numeral)
  ultimately have "err \<noteq> None \<and> f' = ex_fsm"
    using restore_all_or_nothing [OF bo r] by (metis snapshot_envelope.select_convs(5))
  then show ?thesis using r by simp
qed


end
