(* ===== verification/CtlLogProps.thy ===== *)
theory CtlLogProps
  imports CtlFSMProps
begin

text \<open>
  The log store as Raft uses it. The locale \<open>raft_log_store\<close> states the contract of a log store over an
  abstract map from indexes to raw entries; it is interpreted on the bbolt store, and what Raft does with
  it (replacing a conflicting suffix, compacting a prefix) is proved once inside the locale.
\<close>

section \<open>The contract\<close>

locale raft_log_store =
  fixes inv :: "'e \<Rightarrow> 's \<Rightarrow> bool"
    and entry_at :: "'e \<Rightarrow> 's \<Rightarrow> u64 \<rightharpoonup> byte list"
    and store_logs :: "'e \<Rightarrow> bool \<Rightarrow> raft_log list \<Rightarrow> 's \<Rightarrow> store_error option \<times> 's"
    and delete_range :: "'e \<Rightarrow> bool \<Rightarrow> u64 \<Rightarrow> u64 \<Rightarrow> 's \<Rightarrow> store_error option \<times> 's"
    and first_index last_index :: "'e \<Rightarrow> 's \<Rightarrow> u64"
  assumes store_inv: "inv e s \<Longrightarrow> store_logs e c ls s = (r, s') \<Longrightarrow> inv e s'"
    and delete_inv: "inv e s \<Longrightarrow> delete_range e c lo hi s = (r, s') \<Longrightarrow> inv e s'"
    and store_at: "inv e s \<Longrightarrow> store_logs e c ls s = (None, s') \<Longrightarrow>
      entry_at e s' = entry_at e s ++ map_of (rev (map (\<lambda>l. (log_Index l, encodeRaftLog l)) ls))"
    and delete_at: "inv e s \<Longrightarrow> delete_range e c lo hi s = (None, s') \<Longrightarrow>
      entry_at e s' i = (if lo \<le> i \<and> i \<le> hi then None else entry_at e s i)"
    and extremes: "inv e s \<Longrightarrow> entry_at e s i \<noteq> None \<Longrightarrow>
      entry_at e s (first_index e s) \<noteq> None \<and> first_index e s \<le> i \<and>
      entry_at e s (last_index e s) \<noteq> None \<and> i \<le> last_index e s"
begin

lemma above_last: "inv e s \<Longrightarrow> last_index e s < i \<Longrightarrow> entry_at e s i = None"
  using extremes [of e s i] by (meson linorder_not_less)

text \<open>Replacing the suffix from the first new entry on: below it the log is as before, from it on it is the
  new entries and nothing else.\<close>

lemma replace_suffix:
  assumes "inv e s" and "delete_range e c from (last_index e s) s = (None, s1)"
    and "store_logs e c' ls s1 = (None, s2)" and "\<forall>l\<in>set ls. from \<le> log_Index l"
  shows "entry_at e s2 i =
    (if i < from then entry_at e s i else map_of (rev (map (\<lambda>l. (log_Index l, encodeRaftLog l)) ls)) i)"
proof (cases "i < from")
  case True
  then have "map_of (rev (map (\<lambda>l. (log_Index l, encodeRaftLog l)) ls)) i = None"
    using assms(4) by (auto simp: map_of_eq_None_iff leD)
  then show ?thesis
    using store_at [OF delete_inv [OF assms(1,2)] assms(3)] delete_at [OF assms(1,2), of i] True
    by (auto simp: map_add_def)
next
  case False
  then have "entry_at e s1 i = None"
    using delete_at [OF assms(1,2), of i] above_last [OF assms(1), of i] by (auto simp: not_less)
  then show ?thesis
    using store_at [OF delete_inv [OF assms(1,2)] assms(3)] False by (simp add: map_add_def split: option.split)
qed

text \<open>Compacting the prefix up to \<open>hi\<close>: what remains is above it, and so is the first index.\<close>

lemma compact_prefix:
  assumes "inv e s" and "delete_range e c (first_index e s) hi s = (None, s')"
  shows "entry_at e s' i = (if i \<le> hi then None else entry_at e s i)"
  using delete_at [OF assms, of i] extremes [OF assms(1), of i] by (cases "entry_at e s i") auto

lemma compact_first:
  assumes "inv e s" and "delete_range e c (first_index e s) hi s = (None, s')" and "entry_at e s' i \<noteq> None"
  shows "hi < first_index e s' \<and> last_index e s' = last_index e s"
proof -
  have inv': "inv e s'" by (rule delete_inv [OF assms(1,2)])
  have i: "\<not> i \<le> hi" "entry_at e s i \<noteq> None" using compact_prefix [OF assms(1,2), of i] assms(3) by (auto split: if_splits)
  have f: "hi < first_index e s'"
    using extremes [OF inv' assms(3)] compact_prefix [OF assms(1,2), of "first_index e s'"] by (auto split: if_splits)
  have l: "\<not> last_index e s \<le> hi" using i extremes [OF assms(1) i(2)] by auto
  then have "entry_at e s' (last_index e s) \<noteq> None"
    using compact_prefix [OF assms(1,2), of "last_index e s"] extremes [OF assms(1) i(2)] by simp
  then have "last_index e s \<le> last_index e s'" using extremes [OF inv'] by blast
  moreover have "entry_at e s (last_index e s') \<noteq> None"
    using extremes [OF inv' assms(3)] compact_prefix [OF assms(1,2), of "last_index e s'"] by (auto split: if_splits)
  then have "last_index e s' \<le> last_index e s" using extremes [OF assms(1)] by blast
  ultimately show ?thesis using f by simp
qed

end

section \<open>The bbolt store provides it\<close>

definition log_inv :: "'b bolt \<Rightarrow> 'b store \<Rightarrow> bool" where
  "log_inv bo s \<longleftrightarrow> bolt_ok bo \<and> logs_ok bo s"

lemma db_update_cases: "db_update c tx s = (r, s') \<Longrightarrow> s' = s \<and> r \<noteq> None \<or> tx = Inr s' \<and> r = None"
  by (auto simp: db_update_def split: sum.splits if_splits)

lemma StoreLogs_cases:
  "StoreLogs bo c ls s = (r, s') \<Longrightarrow>
     s' = s \<and> r \<noteq> None \<or> (\<exists>b. put_logs bo ls (st_logs s) = Some b \<and> s' = s\<lparr>st_logs := b\<rparr> \<and> r = None)"
  unfolding StoreLogs_def by (drule db_update_cases) (auto split: option.splits)

lemma DeleteRange_cases:
  "DeleteRange bo c lo hi s = (r, s') \<Longrightarrow>
     s' = s \<or> (\<exists>ks b. delete_keys bo hi ks (st_logs s) = Some b \<and> s' = s\<lparr>st_logs := b\<rparr> \<and> r = None)"
  unfolding DeleteRange_def Let_def
  by (cases "hi < lo") (auto dest!: db_update_cases split: option.splits)

lemma map_of_logkey:
  "map_of (map (\<lambda>l. (logkey (log_Index l), encodeRaftLog l)) ls) (logkey i)
     = map_of (map (\<lambda>l. (log_Index l, encodeRaftLog l)) ls) i"
  by (induction ls) auto

lemma StoreLogs_at:
  assumes "log_inv bo s" and "StoreLogs bo c ls s = (None, s')"
  shows "log_at bo s' = log_at bo s ++ map_of (rev (map (\<lambda>l. (log_Index l, encodeRaftLog l)) ls))"
proof
  fix i
  obtain b where "put_logs bo ls (st_logs s) = Some b" "s' = s\<lparr>st_logs := b\<rparr>"
    using StoreLogs_cases [OF assms(2)] by auto
  then show "log_at bo s' i = (log_at bo s ++ map_of (rev (map (\<lambda>l. (log_Index l, encodeRaftLog l)) ls))) i"
    using put_logs_get [of bo ls "st_logs s" b] assms(1) map_of_logkey [of "rev ls" i]
    by (simp add: log_at_def log_inv_def map_add_def rev_map split: option.split)
qed

lemma log_inv_put:
  assumes "log_inv bo s" and "StoreLogs bo c ls s = (r, s')"
  shows "log_inv bo s'"
  using StoreLogs_cases [OF assms(2)]
proof (elim disjE exE conjE)
  fix b
  assume b: "put_logs bo ls (st_logs s) = Some b" "s' = s\<lparr>st_logs := b\<rparr>"
  have "k = logkey (decode_key k)" if "b_get bo b k \<noteq> None" for k
  proof -
    have "b_get bo (st_logs s) k \<noteq> None \<or> k \<in> (\<lambda>l. logkey (log_Index l)) ` set ls"
      using that put_logs_get [OF _ b(1)] assms(1)
      by (auto simp: log_inv_def map_add_def map_of_eq_None_iff split: option.splits dest!: map_of_SomeD)
    then show ?thesis using assms(1) by (auto simp: log_inv_def logs_ok_def)
  qed
  then show ?thesis using b assms(1) by (simp add: log_inv_def logs_ok_def)
qed (use assms in simp)

lemma log_inv_delete:
  assumes "log_inv bo s" and "DeleteRange bo c lo hi s = (r, s')"
  shows "log_inv bo s'"
  using DeleteRange_cases [OF assms(2)]
proof (elim disjE exE conjE)
  fix ks b
  assume b: "delete_keys bo hi ks (st_logs s) = Some b" "s' = s\<lparr>st_logs := b\<rparr>"
  have "b_get bo b k \<noteq> None \<Longrightarrow> b_get bo (st_logs s) k \<noteq> None" for k
    using delete_keys_get [OF _ b(1)] assms(1) by (auto simp: log_inv_def split: if_splits)
  then show ?thesis using b assms(1) by (simp add: log_inv_def logs_ok_def)
qed (use assms in simp)

interpretation bolt_logs: raft_log_store log_inv log_at StoreLogs DeleteRange FirstIndex LastIndex
proof unfold_locales
  fix e :: "'b bolt" and s c ls r s'
  show "log_inv e s \<Longrightarrow> StoreLogs e c ls s = (r, s') \<Longrightarrow> log_inv e s'" by (rule log_inv_put)
next
  fix e :: "'b bolt" and s c lo hi r s'
  show "log_inv e s \<Longrightarrow> DeleteRange e c lo hi s = (r, s') \<Longrightarrow> log_inv e s'" by (rule log_inv_delete)
next
  fix e :: "'b bolt" and s c ls s'
  show "log_inv e s \<Longrightarrow> StoreLogs e c ls s = (None, s') \<Longrightarrow>
      log_at e s' = log_at e s ++ map_of (rev (map (\<lambda>l. (log_Index l, encodeRaftLog l)) ls))" by (rule StoreLogs_at)
next
  fix e :: "'b bolt" and s c lo hi s' i
  show "log_inv e s \<Longrightarrow> DeleteRange e c lo hi s = (None, s') \<Longrightarrow>
      log_at e s' i = (if lo \<le> i \<and> i \<le> hi then None else log_at e s i)"
    using DeleteRange_ok [of e s] by (simp add: log_inv_def)
next
  fix e :: "'b bolt" and s i
  show "log_inv e s \<Longrightarrow> log_at e s i \<noteq> None \<Longrightarrow>
      log_at e s (FirstIndex e s) \<noteq> None \<and> FirstIndex e s \<le> i \<and> log_at e s (LastIndex e s) \<noteq> None \<and> i \<le> LastIndex e s"
    using index_extremes [of e s i] by (simp add: log_inv_def)
qed

section \<open>What Raft relies on\<close>

text \<open>C34. Replacing a conflicting suffix of the Raft log works: after the entries from some index to the last one are
  deleted and new entries with indexes from there on are stored, reading the log gives every new entry back
  exactly as it was stored, the older entries as they were, and nothing beyond.\<close>

theorem raft_suffix_replaced:
  assumes "log_inv bo s" and "DeleteRange bo c from (LastIndex bo s) s = (None, s1)"
    and "StoreLogs bo c' ls s1 = (None, s2)" and "\<forall>l\<in>set ls. from \<le> log_Index l" and "distinct (map log_Index ls)"
    and "\<forall>l\<in>set ls. - (2 ^ 63) \<le> log_AppendedAt l \<and> log_AppendedAt l < 2 ^ 63 \<and> log_AppendedAt l \<noteq> 0 \<and>
      length (log_Data l) < 2 ^ 64 \<and> length (log_Extensions l) < 2 ^ 64"
  shows "(\<forall>l\<in>set ls. GetLog bo s2 (log_Index l) out = Inr l) \<and>
    (\<forall>i. i < from \<longrightarrow> GetLog bo s2 i out = GetLog bo s i out) \<and>
    (\<forall>i. from \<le> i \<and> i \<notin> log_Index ` set ls \<longrightarrow> GetLog bo s2 i out = Inl ErrLogNotFound)"
proof -
  let ?new = "map_of (rev (map (\<lambda>l. (log_Index l, encodeRaftLog l)) ls))"
  have at: "log_at bo s2 i = (if i < from then log_at bo s i else ?new i)" for i
    by (rule bolt_logs.replace_suffix [OF assms(1-4)])
  have new: "?new (log_Index l) = Some (encodeRaftLog l)" if "l \<in> set ls" for l
    using that assms(5) by (intro map_of_is_SomeI) (auto simp: rev_map comp_def simp flip: rev_map)
  have get: "GetLog bo t i out = (case log_at bo t i of None \<Rightarrow> Inl ErrLogNotFound | Some raw \<Rightarrow> decodeRaftLog raw out)" for t i
    by (simp add: GetLog_def log_at_def)
  have "GetLog bo s2 (log_Index l) out = Inr l" if "l \<in> set ls" for l
    using that assms(4,6) decodeRaftLog_encodeRaftLog [of l out] new [OF that] by (simp add: get at leD)
  moreover have "?new i = None" if "i \<notin> log_Index ` set ls" for i
    using that by (auto simp: map_of_eq_None_iff)
  ultimately show ?thesis by (auto simp: get at)
qed

definition ex_log :: "u64 \<Rightarrow> raft_log" where
  "ex_log i = \<lparr>log_Index = i, log_Term = 1, log_Type = 0, log_AppendedAt = 5, log_Data = [1, 2], log_Extensions = []\<rparr>"

definition ex_store :: "(string \<times> byte list) list store" where
  "ex_store = \<lparr>st_logs = [], st_stable = [], st_canonical = [], st_meta = []\<rparr>"

lemma ex_log_inv: "log_inv alist_bolt ex_store"
  using alist_bolt_ok by (simp add: log_inv_def logs_ok_def ex_store_def) (simp add: alist_bolt_def)

lemma ex_store_ops:
  "LastIndex alist_bolt ex_store = 0" "FirstIndex alist_bolt ex_store = 0"
  "DeleteRange alist_bolt True 1 0 ex_store = (None, ex_store)"
  "\<exists>s. StoreLogs alist_bolt True [ex_log 1] ex_store = (None, s)"
  by (simp_all add: LastIndex_def FirstIndex_def DeleteRange_def StoreLogs_def db_update_def alist_bolt_def ex_store_def)

theorem raft_suffix_replaced_witness:
  "GetLog alist_bolt (snd (StoreLogs alist_bolt True [ex_log 1] ex_store)) 1 (ex_log 9) = Inr (ex_log 1)"
proof -
  obtain s2 where s2: "StoreLogs alist_bolt True [ex_log 1] ex_store = (None, s2)" using ex_store_ops(4) by blast
  have "(\<forall>l\<in>set [ex_log 1]. GetLog alist_bolt s2 (log_Index l) (ex_log 9) = Inr l) \<and>
    (\<forall>i. i < 1 \<longrightarrow> GetLog alist_bolt s2 i (ex_log 9) = GetLog alist_bolt ex_store i (ex_log 9)) \<and>
    (\<forall>i. 1 \<le> i \<and> i \<notin> log_Index ` set [ex_log 1] \<longrightarrow> GetLog alist_bolt s2 i (ex_log 9) = Inl ErrLogNotFound)"
    by (rule raft_suffix_replaced [OF ex_log_inv _ s2, where c = True]) (simp_all add: ex_store_ops ex_log_def)
  then show ?thesis using s2 by (simp add: ex_log_def)
qed

text \<open>Compacting the Raft log after a snapshot removes exactly the entries up to the given index: the others stay
  readable, and when there are any the first index lies above the cut and the last index is unchanged.\<close>

theorem raft_log_compacted:
  assumes "log_inv bo s" and "DeleteRange bo c (FirstIndex bo s) hi s = (None, s')"
  shows "(\<forall>i. GetLog bo s' i out = (if i \<le> hi then Inl ErrLogNotFound else GetLog bo s i out)) \<and>
    (\<forall>i. log_at bo s' i \<noteq> None \<longrightarrow> hi < FirstIndex bo s' \<and> LastIndex bo s' = LastIndex bo s)"
proof (intro conjI allI impI)
  fix i
  show "GetLog bo s' i out = (if i \<le> hi then Inl ErrLogNotFound else GetLog bo s i out)"
    using bolt_logs.compact_prefix [OF assms, of i] by (simp add: GetLog_def log_at_def)
next
  fix i assume "log_at bo s' i \<noteq> None"
  from bolt_logs.compact_first [OF assms this]
  show "hi < FirstIndex bo s'" "LastIndex bo s' = LastIndex bo s" by blast+
qed

theorem raft_log_compacted_witness:
  "\<exists>s s'. StoreLogs alist_bolt True [ex_log 1] ex_store = (None, s) \<and>
     DeleteRange alist_bolt True (FirstIndex alist_bolt s) 1 s = (None, s') \<and>
     GetLog alist_bolt s' 1 (ex_log 9) = Inl ErrLogNotFound"
proof -
  obtain s where s: "StoreLogs alist_bolt True [ex_log 1] ex_store = (None, s)" using ex_store_ops(4) by blast
  have inv: "log_inv alist_bolt s" by (rule log_inv_put [OF ex_log_inv s])
  have total: "\<exists>b'. delete_keys alist_bolt hi ks b = Some b'" for hi ks b
    by (induction ks arbitrary: b) (auto simp: alist_bolt_def)
  have "\<exists>s'. DeleteRange alist_bolt True lo hi s = (None, s')" for lo hi
    using total [of hi "dropWhile (\<lambda>k. k < logkey lo) (map fst (b_scan alist_bolt (st_logs s)))" "st_logs s"]
    by (auto simp: DeleteRange_def Let_def db_update_def)
  then obtain s' where s': "DeleteRange alist_bolt True (FirstIndex alist_bolt s) 1 s = (None, s')" by blast
  then show ?thesis using raft_log_compacted [OF inv s', of "ex_log 9"] s by auto
qed

text \<open>Opening a store for replay protects against going back: when it succeeds, the revision floor is at least the
  stored revision and at least the old floor, it is what the store then holds, nothing else changes; and
  while the canonical revision is below that floor no snapshot can be taken of it, until the replayed log
  has brought the revision up again. A store of an older version that has state but neither an applied
  index nor a snapshot is refused.\<close>

theorem replay_floor:
  assumes bo: "bolt_ok bo" and p: "prepareReplay bo c snaps s = (r, s')"
  shows "(case r of
      Inl e \<Rightarrow> s' = s
    | Inr floor \<Rightarrow> floor = max (revisionFloor bo s) (store_revision bo s) \<and> revisionFloor bo s' = floor \<and>
        store_revision bo s' = store_revision bo s \<and> appliedIndex bo s' = appliedIndex bo s \<and>
        schemaVersion bo s' = schemaVersion bo s \<and> st_canonical s' = st_canonical s \<and> st_logs s' = st_logs s \<and>
        st_stable s' = st_stable s \<and>
        (appliedIndex bo s = 0 \<and> (store_revision bo s \<noteq> 0 \<or> b_scan bo (st_canonical s) \<noteq> []) \<longrightarrow> snaps)) \<and>
    (\<forall>env f. ce_bolt env = bo \<and> store_revision bo (fsm_store f) < revisionFloor bo (fsm_store f) \<longrightarrow>
        (\<exists>e. fsm_Snapshot env f = Inl e))"
proof
  have snap: "\<exists>e. fsm_Snapshot env f = Inl e"
    if "ce_bolt env = bo" "store_revision bo (fsm_store f) < revisionFloor bo (fsm_store f)" for env f
    using that by (simp add: fsm_Snapshot_def ExportSnapshot_def checkSnapshotRevisionFloor_def Let_def)
  then show "\<forall>env f. ce_bolt env = bo \<and> store_revision bo (fsm_store f) < revisionFloor bo (fsm_store f) \<longrightarrow>
        (\<exists>e. fsm_Snapshot env f = Inl e)" by blast
next
  show "case r of
      Inl e \<Rightarrow> s' = s
    | Inr floor \<Rightarrow> floor = max (revisionFloor bo s) (store_revision bo s) \<and> revisionFloor bo s' = floor \<and>
        store_revision bo s' = store_revision bo s \<and> appliedIndex bo s' = appliedIndex bo s \<and>
        schemaVersion bo s' = schemaVersion bo s \<and> st_canonical s' = st_canonical s \<and> st_logs s' = st_logs s \<and>
        st_stable s' = st_stable s \<and>
        (appliedIndex bo s = 0 \<and> (store_revision bo s \<noteq> 0 \<or> b_scan bo (st_canonical s) \<noteq> []) \<longrightarrow> snaps)"
  proof (cases r)
    case (Inl e)
    then show ?thesis
      using p by (auto simp: prepareReplay_def Let_def db_update_def split: option.splits if_splits)
  next
    case (Inr floor)
    then obtain meta' where m: "b_put bo (st_meta s) keyRevisionFloor (u64key floor) = Some meta'" "s' = s\<lparr>st_meta := meta'\<rparr>"
      and fl: "floor = (if revisionFloor bo s < store_revision bo s then store_revision bo s else revisionFloor bo s)"
      and ok: "\<not> (appliedIndex bo s = 0 \<and> (store_revision bo s \<noteq> 0 \<or> b_scan bo (st_canonical s) \<noteq> []) \<and> \<not> snaps)"
      using p
      by (auto simp: prepareReplay_def Let_def db_update_def revisionFloor_def store_revision_def appliedIndex_def
          split: option.splits if_splits)
    have "b_get bo meta' = (b_get bo (st_meta s))(keyRevisionFloor \<mapsto> u64key floor)" by (rule bolt_laws(2) [OF bo m(1)])
    then have "revisionFloor bo s' = floor" "store_revision bo s' = store_revision bo s" "appliedIndex bo s' = appliedIndex bo s"
      "schemaVersion bo s' = schemaVersion bo s"
      by (simp_all add: m(2) revisionFloor_def store_revision_def appliedIndex_def schemaVersion_def meta_keys)
    moreover have "floor = max (revisionFloor bo s) (store_revision bo s)" using fl by (simp add: max_def less_le)
    ultimately show ?thesis using Inr ok m(2) by auto
  qed
qed

theorem replay_floor_witness:
  "revisionFloor alist_bolt (snd (prepareReplay alist_bolt True True (ex_store\<lparr>st_meta := [(keyRevision, u64key 7)]\<rparr>))) = 7"
proof -
  let ?s = "ex_store\<lparr>st_meta := [(keyRevision, u64key 7)]\<rparr>"
  obtain r s' where p: "prepareReplay alist_bolt True True ?s = (r, s')" by fastforce
  then have "r = Inr 7"
    by (auto simp: prepareReplay_def Let_def db_update_def alist_bolt_def ex_store_def meta_keys decodeU64_def)
  then show ?thesis using replay_floor [OF alist_bolt_ok p] p by simp
qed

end
