(* ===== verification/P2pGrant.thy ===== *)
theory P2pGrant
  imports GoTime NetIP Encoding
begin

text \<open>
  \<^verbatim>\<open>internal/p2p/grant.go\<close>: the signed, short-lived grants that let two Devices of one owner talk to each
  other, and the sessions made of them. Ed25519, SHA-256 and the JSON codec are parameters; a JSON decoder
  gives the first value of its input and what follows it, so that \<^verbatim>\<open>decodeStrict\<close> can refuse trailing
  data. Integers of the grant are signed 64-bit values; the one subtraction on them is of two positive
  numbers.
\<close>

section \<open>Data\<close>

datatype side = Initiator | Host

text \<open>A side arrives as an octet; \<^const>\<open>None\<close> is an octet that is no side.\<close>

definition side_of :: "byte \<Rightarrow> side option" where
  "side_of b = (if b = 0 then Some Initiator else if b = 1 then Some Host else None)"

fun side_byte :: "side \<Rightarrow> byte" where
  "side_byte Initiator = 0"
| "side_byte Host = 1"

fun other :: "side \<Rightarrow> side" where
  "other Initiator = Host"
| "other Host = Initiator"

text \<open>A \<^verbatim>\<open>netip.Addr\<close>: an IPv4 address, or anything else by its text (IPv6, or no address at all).\<close>

datatype net_addr = V4 addr | NotV4 string

fun Is4 :: "net_addr \<Rightarrow> bool" where
  "Is4 (V4 a) = True"
| "Is4 (NotV4 s) = False"

fun private4 :: "net_addr \<Rightarrow> bool" where
  "private4 (V4 a) = IsPrivate a"
| "private4 (NotV4 s) = False"

record participant =
  pt_DeviceID :: string
  pt_UserID :: string
  pt_IdentityKey :: string
  pt_WireGuardKey :: string
  pt_Address :: net_addr

record grant =
  gr_Version :: int
  gr_ClusterID :: string
  gr_SessionID :: string
  gr_Revision :: u64
  gr_IssuedAt :: int
  gr_ExpiresAt :: int
  gr_Service :: string
  gr_Participants :: "participant \<times> participant"

fun participant_of :: "grant \<Rightarrow> side \<Rightarrow> participant" where
  "participant_of g Initiator = fst (gr_Participants g)"
| "participant_of g Host = snd (gr_Participants g)"

record signed_grant =
  sg_Payload :: "byte list"
  sg_Signature :: "byte list"

record session_authorization =
  sa_deadline :: gotime
  sa_expiresAt :: int

record session =
  se_grant :: grant
  se_ticket :: "byte list"
  se_deadline :: gotime
  se_managed :: bool
  se_authorization :: "session_authorization option"

datatype p2p_error =
    UnsupportedScope
  | InvalidSessionID
  | ExpiredGrant
  | InvalidParticipant
  | InvalidIdentityKey
  | InvalidWireGuardKey
  | NotDistinctDevices
  | InvalidIssuerKey
  | InvalidTrustContext
  | InvalidDocument
  | TrailingDocument
  | InvalidSignature
  | GrantMismatch
  | StoreClosed
  | AnotherDevice
  | SessionRevoked
  | ReservationsExhausted
  | SessionIDReused
  | TooManySessions
  | UnknownSession
  | RevocationsExhausted
  | InvalidCheckpoint
  | InvalidPolicyScope
  | PolicySessionMismatch
  | TicketMismatch
  | PolicyRollback
  | RevokedTicket
  | StateMissing
  | StoredMismatch
  | InvalidReservations
  | UnownedStore
  | InvalidTrustPin
  | StoreIO
  | InvalidPolicySession
  | IdentityRequired
  | WireGuardKeyRequired
  | KeyMismatch
  | BadBase64
  | BadKeyLength nat
  | ZeroKey

record p2p_env =
  pe_verify :: "byte list \<Rightarrow> byte list \<Rightarrow> byte list \<Rightarrow> bool"
  pe_sign :: "byte list \<Rightarrow> byte list \<Rightarrow> byte list"
  pe_public :: "byte list \<Rightarrow> byte list"
  pe_sha256 :: "byte list \<Rightarrow> byte list"
  pe_envelope :: "byte list \<Rightarrow> (signed_grant \<times> byte list) option"
  pe_grant :: "byte list \<Rightarrow> (grant \<times> byte list) option"
  pe_put_envelope :: "signed_grant \<Rightarrow> byte list"
  pe_put_grant :: "grant \<Rightarrow> byte list"

definition p2p_Version :: int where "p2p_Version = 1"
definition Sunshine :: string where "Sunshine = ''sunshine-v1''"
definition MaxLease :: duration where "MaxLease = 60 * second"
definition maxTicket :: nat where "maxTicket = 8192"
definition publicKeySize :: nat where "publicKeySize = 32"
definition privateKeySize :: nat where "privateKeySize = 64"

section \<open>Sessions\<close>

definition active :: "session \<Rightarrow> gotime \<Rightarrow> bool" where
  "active s now \<longleftrightarrow>
     (if se_managed s
      then (case se_authorization s of
              None \<Rightarrow> False
            | Some policy \<Rightarrow> unix_of now < sa_expiresAt policy \<and> time_before now (sa_deadline policy))
      else True) \<and>
     gr_IssuedAt (se_grant s) \<le> unix_of now \<and> unix_of now < gr_ExpiresAt (se_grant s) \<and>
     time_before now (se_deadline s)"

section \<open>Keys\<close>

definition ParseWGKey :: "string \<Rightarrow> bool \<Rightarrow> p2p_error + byte list" where
  "ParseWGKey encoded allowZero =
     (case base64_decode (trim_space encoded) of
        None \<Rightarrow> Inl BadBase64
      | Some raw \<Rightarrow>
          if length raw \<noteq> 32 then Inl (BadKeyLength (length raw))
          else if \<not> allowZero \<and> fold (OR) raw 0 = 0 then Inl ZeroKey
          else Inr raw)"

section \<open>Validation\<close>

definition validate_participant :: "participant \<Rightarrow> p2p_error option" where
  "validate_participant p =
     (if pt_DeviceID p = [] \<or> 128 < length (pt_DeviceID p) \<or> pt_UserID p = [] \<or> 128 < length (pt_UserID p) \<or>
         \<not> Is4 (pt_Address p) \<or> \<not> private4 (pt_Address p)
      then Some InvalidParticipant
      else case base64_decode (pt_IdentityKey p) of
             None \<Rightarrow> Some InvalidIdentityKey
           | Some key \<Rightarrow>
               if length key \<noteq> publicKeySize \<or> base64_encode key \<noteq> pt_IdentityKey p \<or> key = replicate publicKeySize 0
               then Some InvalidIdentityKey
               else case ParseWGKey (pt_WireGuardKey p) False of
                      Inl _ \<Rightarrow> Some InvalidWireGuardKey
                    | Inr wgKey \<Rightarrow> if base64_encode wgKey \<noteq> pt_WireGuardKey p then Some InvalidWireGuardKey else None)"

definition grant_validate :: "grant \<Rightarrow> gotime \<Rightarrow> p2p_error option" where
  "grant_validate g now =
     (if gr_Version g \<noteq> p2p_Version \<or> gr_Service g \<noteq> Sunshine \<or> gr_ClusterID g = [] \<or> 128 < length (gr_ClusterID g) \<or>
         gr_Revision g = 0
      then Some UnsupportedScope
      else case hex_decode (gr_SessionID g) of
        None \<Rightarrow> Some InvalidSessionID
      | Some sid \<Rightarrow>
          if length sid \<noteq> 16 \<or> hex_encode sid \<noteq> gr_SessionID g then Some InvalidSessionID
          else if gr_IssuedAt g \<le> 0 \<or> unix_of now < gr_IssuedAt g \<or> gr_ExpiresAt g \<le> unix_of now \<or>
                  MaxLease div second < gr_ExpiresAt g - gr_IssuedAt g
            then Some ExpiredGrant
          else case first_error validate_participant [fst (gr_Participants g), snd (gr_Participants g)] of
                 Some e \<Rightarrow> Some e
               | None \<Rightarrow>
                   let a = fst (gr_Participants g); b = snd (gr_Participants g)
                   in if pt_UserID a \<noteq> pt_UserID b \<or> pt_DeviceID a = pt_DeviceID b \<or> pt_Address a = pt_Address b \<or>
                         pt_IdentityKey a = pt_IdentityKey b \<or> pt_WireGuardKey a = pt_WireGuardKey b
                      then Some NotDistinctDevices else None)"

section \<open>Signing and verifying\<close>

definition grant_message :: "byte list \<Rightarrow> byte list" where
  "grant_message payload = bytes_of (''BPC-P2P-GRANT-v1'' @ [CHR 0x00]) @ payload"

definition SignGrant :: "('x) p2p_env_scheme \<Rightarrow> grant \<Rightarrow> byte list \<Rightarrow> gotime \<Rightarrow> p2p_error + byte list" where
  "SignGrant env g issuer now =
     (if length issuer \<noteq> privateKeySize then Inl InvalidIssuerKey
      else case grant_validate g now of
             Some e \<Rightarrow> Inl e
           | None \<Rightarrow>
               let payload = pe_put_grant env g
               in Inr (pe_put_envelope env
                    \<lparr>sg_Payload = payload, sg_Signature = pe_sign env issuer (grant_message payload)\<rparr>))"

definition json_space :: "byte list" where
  "json_space = [0x20, 0x09, 0x0A, 0x0D]"

definition decodeStrict :: "(byte list \<Rightarrow> ('a \<times> byte list) option) \<Rightarrow> byte list \<Rightarrow> p2p_error + 'a" where
  "decodeStrict dec d =
     (case dec d of
        None \<Rightarrow> Inl InvalidDocument
      | Some (v, rest) \<Rightarrow> if set rest \<subseteq> set json_space then Inr v else Inl TrailingDocument)"

definition VerifyGrant ::
  "('x) p2p_env_scheme \<Rightarrow> byte list \<Rightarrow> byte list \<Rightarrow> string \<Rightarrow> u64 \<Rightarrow> gotime \<Rightarrow> p2p_error + session" where
  "VerifyGrant env ticket issuer cluster minRevision now =
     (if length issuer \<noteq> publicKeySize \<or> cluster = [] \<or> maxTicket < length ticket then Inl InvalidTrustContext
      else case decodeStrict (pe_envelope env) ticket of
        Inl e \<Rightarrow> Inl e
      | Inr envelope \<Rightarrow>
          if \<not> pe_verify env issuer (grant_message (sg_Payload envelope)) (sg_Signature envelope) then Inl InvalidSignature
          else case decodeStrict (pe_grant env) (sg_Payload envelope) of
            Inl e \<Rightarrow> Inl e
          | Inr g \<Rightarrow>
              (case grant_validate g now of
                 Some e \<Rightarrow> Inl e
               | None \<Rightarrow>
                   if gr_ClusterID g \<noteq> cluster \<or> gr_Revision g < minRevision then Inl GrantMismatch
                   else Inr \<lparr>se_grant = g, se_ticket = ticket, se_deadline = deadline_at now (gr_ExpiresAt g),
                             se_managed = False, se_authorization = None\<rparr>))"

definition proofMessage :: "('x) p2p_env_scheme \<Rightarrow> byte list \<Rightarrow> byte list \<Rightarrow> side \<Rightarrow> byte list \<Rightarrow> byte list" where
  "proofMessage env challenge ticket sd binding =
     bytes_of (''BPC-P2P-RELAY-PROOF-v1'' @ [CHR 0x00]) @ challenge @ pe_sha256 env ticket @ [side_byte sd] @ binding"

section \<open>What a valid grant is\<close>

definition participant_ok :: "participant \<Rightarrow> bool" where
  "participant_ok p \<longleftrightarrow>
     pt_DeviceID p \<noteq> [] \<and> pt_UserID p \<noteq> [] \<and> (\<exists>a. pt_Address p = V4 a \<and> IsPrivate a) \<and>
     (\<exists>key. base64_decode (pt_IdentityKey p) = Some key \<and> length key = publicKeySize) \<and>
     (\<exists>key. base64_decode (trim_space (pt_WireGuardKey p)) = Some key \<and> length key = 32)"

definition grant_in_scope :: "grant \<Rightarrow> gotime \<Rightarrow> bool" where
  "grant_in_scope g now \<longleftrightarrow>
     gr_Service g = Sunshine \<and> gr_Revision g \<noteq> 0 \<and>
     0 < gr_IssuedAt g \<and> gr_IssuedAt g \<le> unix_of now \<and> unix_of now < gr_ExpiresAt g \<and>
     gr_ExpiresAt g \<le> gr_IssuedAt g + 60 \<and>
     participant_ok (participant_of g Initiator) \<and> participant_ok (participant_of g Host) \<and>
     pt_UserID (participant_of g Initiator) = pt_UserID (participant_of g Host) \<and>
     pt_DeviceID (participant_of g Initiator) \<noteq> pt_DeviceID (participant_of g Host) \<and>
     pt_Address (participant_of g Initiator) \<noteq> pt_Address (participant_of g Host)"

lemma validate_participant_ok: "validate_participant p = None \<Longrightarrow> participant_ok p"
  by (cases "pt_Address p")
    (auto simp: validate_participant_def participant_ok_def ParseWGKey_def split: if_splits option.splits sum.splits)

lemma grant_validate_scope: "grant_validate g now = None \<Longrightarrow> grant_in_scope g now"
  using validate_participant_ok
  by (auto simp: grant_validate_def grant_in_scope_def MaxLease_def Let_def split: if_splits option.splits)

lemma VerifyGrant_Inr:
  assumes "VerifyGrant env ticket issuer cluster minRevision now = Inr s"
  obtains envelope where
    "decodeStrict (pe_envelope env) ticket = Inr envelope"
    "pe_verify env issuer (grant_message (sg_Payload envelope)) (sg_Signature envelope)"
    "decodeStrict (pe_grant env) (sg_Payload envelope) = Inr (se_grant s)"
    "grant_validate (se_grant s) now = None" "gr_ClusterID (se_grant s) = cluster" "minRevision \<le> gr_Revision (se_grant s)"
    "se_ticket s = ticket" "se_deadline s = deadline_at now (gr_ExpiresAt (se_grant s))" "\<not> se_managed s"
    "se_authorization s = None"
  using assms by (auto simp: VerifyGrant_def not_less split: if_splits sum.splits option.splits)

text \<open>The monotonic clock bounds a lease: once the time that was left at verification has passed on it, the
  session is inactive whatever the wall clock says.\<close>

lemma lease_over:
  assumes "se_deadline s = deadline_at now e" and "mono now = Some m" and "mono t = Some u"
    and "m + sat_duration (e * second - wall now) \<le> u"
  shows "\<not> active s t"
  using assms by (auto simp: active_def time_before_def time_diff_def mono_deadline_at split: option.splits)

end
