(* ===== verification/P2pAuthority.thy ===== *)
theory P2pAuthority
  imports P2pGrant
begin

text \<open>
  \<^verbatim>\<open>internal/p2p/authority.go\<close>: the store in which a Device keeps its trust pin, the revision floor of the
  Controller's policy checkpoints and the denied sessions, and the sessions it manages. The database file
  is the value of its one key, inside its bucket; whether a write and its commit succeed is the argument
  \<open>io\<close>, and each reading of the clock is an argument. A session object is known by its identifier in the
  map; removing it from the map clears its authorization first, so its other holders see none.
\<close>

section \<open>Data\<close>

record trust =
  tr_ClusterID :: string
  tr_DeviceID :: string
  tr_Issuer :: "byte list"

record policy_entry =
  pn_SessionID :: string
  pn_TicketSHA256 :: string

record checkpoint =
  cp_Version :: int
  cp_ClusterID :: string
  cp_DeviceID :: string
  cp_Revision :: u64
  cp_IssuedAt :: int
  cp_ExpiresAt :: int
  cp_Allowed :: "policy_entry list"

record policy_state =
  ps_Version :: int
  ps_Trust :: trust
  ps_Revision :: u64
  ps_IssuedAt :: int
  ps_Denied :: "(string \<times> int) list option"
  ps_Reserved :: "net_addr list"

record authority_env = p2p_env +
  ae_checkpoint :: "byte list \<Rightarrow> (checkpoint \<times> byte list) option"
  ae_state :: "byte list \<Rightarrow> (policy_state \<times> byte list) option"
  ae_put_state :: "policy_state \<Rightarrow> byte list"

text \<open>A file without the bucket, or the bucket with or without a state.\<close>

type_synonym policy_db = "byte list option option"

record policy_store =
  ap_db :: policy_db
  ap_open :: bool
  ap_trust :: trust
  ap_sessions :: "(string \<times> session) list"

definition MaxManagedSessions :: nat where "MaxManagedSessions = 16"
definition maxDenied :: nat where "maxDenied = 4096"

section \<open>The stored state\<close>

definition policy_state_of :: "('x) authority_env_scheme \<Rightarrow> trust \<Rightarrow> policy_db \<Rightarrow> p2p_error + policy_state" where
  "policy_state_of env tr db =
     (case db of
        None \<Rightarrow> Inl StateMissing
      | Some raw \<Rightarrow>
          (case decodeStrict (ae_state env) (case raw of None \<Rightarrow> [] | Some r \<Rightarrow> r) of
             Inl e \<Rightarrow> Inl e
           | Inr st \<Rightarrow>
               if ps_Version st \<noteq> 1 \<or> tr_ClusterID (ps_Trust st) \<noteq> tr_ClusterID tr \<or>
                  tr_DeviceID (ps_Trust st) \<noteq> tr_DeviceID tr \<or> tr_Issuer (ps_Trust st) \<noteq> tr_Issuer tr \<or>
                  ps_Denied st = None \<or> maxDenied < length (the (ps_Denied st))
               then Inl StoredMismatch
               else if MaxManagedSessions < length (ps_Reserved st) then Inl InvalidReservations
               else if (\<exists>ip\<in>set (ps_Reserved st). \<not> Is4 ip \<or> \<not> private4 ip) \<or> \<not> distinct (ps_Reserved st)
                 then Inl InvalidReservations
               else Inr st))"

definition putPolicyState :: "('x) authority_env_scheme \<Rightarrow> policy_state \<Rightarrow> policy_db" where
  "putPolicyState env st = Some (Some (ae_put_state env st))"

section \<open>Opening\<close>

text \<open>\<open>file\<close> is the file before the call, \<^const>\<open>None\<close> when there is none; the result carries the file after.\<close>

definition openPolicyStore ::
  "('x) authority_env_scheme \<Rightarrow> trust \<Rightarrow> bool \<Rightarrow> bool \<Rightarrow> policy_db option \<Rightarrow> (p2p_error + policy_store) \<times> policy_db option" where
  "openPolicyStore env tr create io file =
     (if tr_ClusterID tr = [] \<or> tr_DeviceID tr = [] \<or> length (tr_Issuer tr) \<noteq> publicKeySize then (Inl InvalidTrustPin, file)
      else if create then
        (if file \<noteq> None then (Inl StoreIO, file)
         else if \<not> io then (Inl StoreIO, Some None)
         else let db = putPolicyState env \<lparr>ps_Version = 1, ps_Trust = tr, ps_Revision = 0, ps_IssuedAt = 0,
                         ps_Denied = Some [], ps_Reserved = []\<rparr>
              in (Inr \<lparr>ap_db = db, ap_open = True, ap_trust = tr, ap_sessions = []\<rparr>, Some db))
      else case file of
             None \<Rightarrow> (Inl StoreIO, file)
           | Some db \<Rightarrow>
               if db = None then (Inl UnownedStore, file)
               else (case policy_state_of env tr db of
                       Inl e \<Rightarrow> (Inl e, file)
                     | Inr _ \<Rightarrow>
                         if \<not> io then (Inl StoreIO, file)
                         else (Inr \<lparr>ap_db = db, ap_open = True, ap_trust = tr, ap_sessions = []\<rparr>, file)))"

definition CreatePolicyStore ::
  "('x) authority_env_scheme \<Rightarrow> trust \<Rightarrow> bool \<Rightarrow> policy_db option \<Rightarrow> (p2p_error + policy_store) \<times> policy_db option" where
  "CreatePolicyStore env tr io file = openPolicyStore env tr True io file"

definition OpenPolicyStore ::
  "('x) authority_env_scheme \<Rightarrow> trust \<Rightarrow> bool \<Rightarrow> policy_db option \<Rightarrow> (p2p_error + policy_store) \<times> policy_db option" where
  "OpenPolicyStore env tr io file = openPolicyStore env tr False io file"

section \<open>Tracking a session\<close>

definition denied_at :: "policy_state \<Rightarrow> string \<Rightarrow> int" where
  "denied_at st sid = (case map_of (the (ps_Denied st)) sid of None \<Rightarrow> 0 | Some e \<Rightarrow> e)"

definition remote_address :: "trust \<Rightarrow> grant \<Rightarrow> net_addr" where
  "remote_address tr g =
     (if pt_DeviceID (participant_of g Initiator) = tr_DeviceID tr then pt_Address (participant_of g Host)
      else pt_Address (participant_of g Initiator))"

text \<open>The transaction of \<^verbatim>\<open>Track\<close>: the database it commits.\<close>

definition track_tx :: "('x) authority_env_scheme \<Rightarrow> gotime \<Rightarrow> trust \<Rightarrow> grant \<Rightarrow> policy_db \<Rightarrow> p2p_error + policy_db" where
  "track_tx env now tr g db =
     (case policy_state_of env tr db of
        Inl e \<Rightarrow> Inl e
      | Inr st \<Rightarrow>
          if unix_of now < denied_at st (gr_SessionID g) then Inl SessionRevoked
          else if remote_address tr g \<in> set (ps_Reserved st) then Inr db
          else if MaxManagedSessions \<le> length (ps_Reserved st) then Inl ReservationsExhausted
          else Inr (putPolicyState env (st\<lparr>ps_Reserved := ps_Reserved st @ [remote_address tr g]\<rparr>)))"

definition drop_expired :: "(string \<Rightarrow> gotime) \<Rightarrow> (string \<times> session) list \<Rightarrow> (string \<times> session) list" where
  "drop_expired clock ss = filter (\<lambda>(sid, s). \<not> gr_ExpiresAt (se_grant s) \<le> unix_of (clock sid)) ss"

definition Track ::
  "('x) authority_env_scheme \<Rightarrow> gotime \<Rightarrow> gotime \<Rightarrow> (string \<Rightarrow> gotime) \<Rightarrow> bool \<Rightarrow> byte list \<Rightarrow> policy_store \<Rightarrow>
   (p2p_error + session) \<times> policy_store" where
  "Track env now1 now2 clock io ticket p =
     (if \<not> ap_open p then (Inl StoreClosed, p)
      else case VerifyGrant env ticket (tr_Issuer (ap_trust p)) (tr_ClusterID (ap_trust p)) 0 now1 of
        Inl e \<Rightarrow> (Inl e, p)
      | Inr s \<Rightarrow>
          let g = se_grant s; sid = gr_SessionID g
          in if pt_DeviceID (participant_of g Initiator) \<noteq> tr_DeviceID (ap_trust p) \<and>
                pt_DeviceID (participant_of g Host) \<noteq> tr_DeviceID (ap_trust p) then (Inl AnotherDevice, p)
             else case track_tx env now2 (ap_trust p) g (ap_db p) of
               Inl e \<Rightarrow> (Inl e, p)
             | Inr db \<Rightarrow>
                 if \<not> io then (Inl StoreIO, p)
                 else let p = p\<lparr>ap_db := db, ap_sessions := drop_expired clock (ap_sessions p)\<rparr>
                      in case map_of (ap_sessions p) sid of
                           Some old \<Rightarrow> if se_ticket old \<noteq> ticket then (Inl SessionIDReused, p) else (Inr old, p)
                         | None \<Rightarrow>
                             if MaxManagedSessions \<le> length (ap_sessions p) then (Inl TooManySessions, p)
                             else let s = s\<lparr>se_managed := True\<rparr>
                                  in (Inr s, p\<lparr>ap_sessions := AList.update sid s (ap_sessions p)\<rparr>))"

definition ReservedPeers :: "('x) authority_env_scheme \<Rightarrow> policy_store \<Rightarrow> p2p_error + net_addr list" where
  "ReservedPeers env p =
     (if \<not> ap_open p then Inl StoreClosed
      else case policy_state_of env (ap_trust p) (ap_db p) of Inl e \<Rightarrow> Inl e | Inr st \<Rightarrow> Inr (ps_Reserved st))"

section \<open>Failing closed\<close>

definition set_authorization :: "(string \<Rightarrow> session \<Rightarrow> session_authorization option) \<Rightarrow> policy_store \<Rightarrow> policy_store" where
  "set_authorization f p = p\<lparr>ap_sessions := map (\<lambda>(sid, s). (sid, s\<lparr>se_authorization := f sid s\<rparr>)) (ap_sessions p)\<rparr>"

definition FailClosed :: "policy_store \<Rightarrow> policy_store" where
  "FailClosed p = set_authorization (\<lambda>_ _. None) p"

definition unexpired :: "(string \<Rightarrow> gotime) \<Rightarrow> (string \<times> int) list \<Rightarrow> (string \<times> int) list" where
  "unexpired clock denied = filter (\<lambda>(sid, expiry). \<not> expiry \<le> unix_of (clock sid)) denied"

definition stop_tx ::
  "('x) authority_env_scheme \<Rightarrow> (string \<Rightarrow> gotime) \<Rightarrow> trust \<Rightarrow> string \<Rightarrow> session \<Rightarrow> policy_db \<Rightarrow> p2p_error + policy_db" where
  "stop_tx env clock tr sid s db =
     (case policy_state_of env tr db of
        Inl e \<Rightarrow> Inl e
      | Inr st \<Rightarrow>
          let denied = unexpired clock (the (ps_Denied st))
          in if maxDenied \<le> length denied then Inl RevocationsExhausted
             else Inr (putPolicyState env (st\<lparr>ps_Denied := Some (AList.update sid (gr_ExpiresAt (se_grant s)) denied)\<rparr>)))"

definition Stop ::
  "('x) authority_env_scheme \<Rightarrow> (string \<Rightarrow> gotime) \<Rightarrow> bool \<Rightarrow> string \<Rightarrow> policy_store \<Rightarrow> p2p_error option \<times> policy_store" where
  "Stop env clock io sid p0 =
     (let p = FailClosed p0
      in if \<not> ap_open p then (Some StoreClosed, p)
         else case map_of (ap_sessions p) sid of
           None \<Rightarrow> (Some UnknownSession, p)
         | Some s \<Rightarrow>
             (case stop_tx env clock (ap_trust p) sid s (ap_db p) of
                Inl e \<Rightarrow> (Some e, p)
              | Inr db \<Rightarrow> if io then (None, p\<lparr>ap_db := db\<rparr>) else (Some StoreIO, p)))"

section \<open>Applying a checkpoint\<close>

definition policy_message :: "byte list \<Rightarrow> byte list" where
  "policy_message payload = bytes_of (''BPC-P2P-POLICY-v1'' @ [CHR 0x00]) @ payload"

fun check_allowed ::
  "('x) authority_env_scheme \<Rightarrow> (string \<times> session) list \<Rightarrow> u64 \<Rightarrow> string list \<Rightarrow> policy_entry list \<Rightarrow> p2p_error + string list" where
  "check_allowed env ss revision allowed [] = Inr allowed"
| "check_allowed env ss revision allowed (entry # es) =
     (case map_of ss (pn_SessionID entry) of
        None \<Rightarrow> Inl PolicySessionMismatch
      | Some s \<Rightarrow>
          if pn_SessionID entry \<in> set allowed \<or> revision < gr_Revision (se_grant s) then Inl PolicySessionMismatch
          else if pn_TicketSHA256 entry \<noteq> hex_encode (pe_sha256 env (se_ticket s)) then Inl TicketMismatch
          else check_allowed env ss revision (pn_SessionID entry # allowed) es)"

definition policy_in_scope :: "trust \<Rightarrow> gotime \<Rightarrow> checkpoint \<Rightarrow> bool" where
  "policy_in_scope tr now c \<longleftrightarrow>
     cp_Version c = 1 \<and> cp_ClusterID c = tr_ClusterID tr \<and> cp_DeviceID c = tr_DeviceID tr \<and> cp_Revision c \<noteq> 0 \<and>
     0 < cp_IssuedAt c \<and> cp_IssuedAt c \<le> unix_of now \<and> unix_of now < cp_ExpiresAt c \<and>
     cp_ExpiresAt c - cp_IssuedAt c \<le> 30 \<and> length (cp_Allowed c) \<le> MaxManagedSessions"

definition apply_checkpoint_tx ::
  "('x) authority_env_scheme \<Rightarrow> gotime \<Rightarrow> trust \<Rightarrow> (string \<times> session) list \<Rightarrow> checkpoint \<Rightarrow> string list \<Rightarrow> policy_db \<Rightarrow>
   p2p_error + policy_db" where
  "apply_checkpoint_tx env now tr ss c allowed db =
     (case policy_state_of env tr db of
        Inl e \<Rightarrow> Inl e
      | Inr st \<Rightarrow>
          if cp_Revision c \<le> ps_Revision st \<or> cp_IssuedAt c < ps_IssuedAt st then Inl PolicyRollback
          else let denied = unexpired (\<lambda>_. now) (the (ps_Denied st))
               in if \<exists>(sid, s)\<in>set ss. sid \<in> set allowed \<and> unix_of now < denied_at (st\<lparr>ps_Denied := Some denied\<rparr>) sid
                  then Inl RevokedTicket
                  else let denied = fold (\<lambda>(sid, s) d. if sid \<in> set allowed then d
                                            else AList.update sid (gr_ExpiresAt (se_grant s)) d) ss denied
                       in if maxDenied < length denied then Inl RevocationsExhausted
                          else Inr (putPolicyState env
                                 (st\<lparr>ps_Denied := Some denied, ps_Revision := cp_Revision c, ps_IssuedAt := cp_IssuedAt c\<rparr>)))"

definition earlier :: "gotime \<Rightarrow> gotime \<Rightarrow> gotime" where
  "earlier a b = (if time_before a b then a else b)"

definition decode_checkpoint :: "('x) authority_env_scheme \<Rightarrow> policy_store \<Rightarrow> byte list \<Rightarrow> p2p_error + checkpoint" where
  "decode_checkpoint env p ticket =
     (if \<not> ap_open p \<or> maxTicket < length ticket then Inl InvalidCheckpoint
      else case decodeStrict (pe_envelope env) ticket of
        Inl e \<Rightarrow> Inl e
      | Inr envelope \<Rightarrow>
          if \<not> pe_verify env (tr_Issuer (ap_trust p)) (policy_message (sg_Payload envelope)) (sg_Signature envelope)
          then Inl InvalidSignature
          else decodeStrict (ae_checkpoint env) (sg_Payload envelope))"

text \<open>The authorization a checkpoint leaves a session with.\<close>

definition authorize :: "gotime \<Rightarrow> checkpoint \<Rightarrow> string list \<Rightarrow> string \<Rightarrow> session \<Rightarrow> session_authorization option" where
  "authorize now c allowed sid s =
     (if sid \<in> set allowed
      then Some \<lparr>sa_deadline = earlier (deadline_at now (cp_ExpiresAt c)) (se_deadline s), sa_expiresAt = cp_ExpiresAt c\<rparr>
      else None)"

text \<open>\<^verbatim>\<open>Apply\<close>; its deferred function fails closed on every error.\<close>

definition Apply ::
  "('x) authority_env_scheme \<Rightarrow> gotime \<Rightarrow> bool \<Rightarrow> byte list \<Rightarrow> policy_store \<Rightarrow> (p2p_error + string list) \<times> policy_store" where
  "Apply env now io ticket p =
     (case decode_checkpoint env p ticket of
        Inl e \<Rightarrow> (Inl e, FailClosed p)
      | Inr c \<Rightarrow>
          if \<not> policy_in_scope (ap_trust p) now c then (Inl InvalidPolicyScope, FailClosed p)
          else case check_allowed env (ap_sessions p) (cp_Revision c) [] (cp_Allowed c) of
            Inl e \<Rightarrow> (Inl e, FailClosed p)
          | Inr allowed \<Rightarrow>
              (case apply_checkpoint_tx env now (ap_trust p) (ap_sessions p) c allowed (ap_db p) of
                 Inl e \<Rightarrow> (Inl e, FailClosed p)
               | Inr db \<Rightarrow>
                   if \<not> io then (Inl StoreIO, FailClosed p)
                   else (Inr (sort_slice (<) (map fst (filter (\<lambda>(sid, s). sid \<notin> set allowed) (ap_sessions p)))),
                         set_authorization (authorize now c allowed) (p\<lparr>ap_db := db\<rparr>))))"

definition store_Close :: "policy_store \<Rightarrow> policy_store" where
  "store_Close p = (FailClosed p)\<lparr>ap_open := False\<rparr>"

end
