(* ===== verification/Framing.thy ===== *)
theory Framing
  imports Prelude
begin

text \<open>
  Byte streams and length-prefixed frames on them. A reader's stream is the list of the bytes it will still
  deliver before its end. A writer answers each \<^verbatim>\<open>Write\<close> with the number of bytes it takes or an error; the
  answers are a list, and behind its end every write is taken whole. The locale \<open>framing\<close> is the contract
  of a frame format: what the client of a stream relies on.
\<close>

datatype io_error = EndOfFile | UnexpectedEOF | ShortWrite | WriteFault | BadFrameSize nat

section \<open>Reading and writing\<close>

definition read_full :: "nat \<Rightarrow> byte list \<Rightarrow> io_error + byte list \<times> byte list" where
  "read_full n s =
     (if n \<le> length s then Inr (take n s, drop n s)
      else if s = [] then Inl EndOfFile
      else Inl UnexpectedEOF)"

datatype write_step = Wrote nat | WriteErr

text \<open>Writing all of a slice: the error, what went out and the answers left. \<open>stuck\<close> is the error for a write that
  takes nothing.\<close>

fun write_all :: "io_error \<Rightarrow> write_step list \<Rightarrow> byte list \<Rightarrow> io_error option \<times> byte list \<times> write_step list" where
  "write_all stuck ws [] = (None, [], ws)"
| "write_all stuck [] payload = (None, payload, [])"
| "write_all stuck (WriteErr # ws) payload = (Some WriteFault, [], ws)"
| "write_all stuck (Wrote n # ws) payload =
     (if n = 0 then (Some stuck, [], ws)
      else case write_all stuck ws (drop n payload) of (e, out, ws') \<Rightarrow> (e, take n payload @ out, ws'))"

lemma write_all_out:
  "write_all stuck ws payload = (e, out, ws') \<Longrightarrow> (\<exists>rest. payload = out @ rest) \<and> (e = None \<longrightarrow> out = payload)"
proof (induction stuck ws payload arbitrary: e out ws' rule: write_all.induct)
  case (4 stuck n ws v va)
  show ?case
  proof (cases "n = 0")
    case False
    obtain e1 out1 ws1 where w: "write_all stuck ws (drop n (v # va)) = (e1, out1, ws1)" by (metis prod_cases3)
    then have ih: "(\<exists>rest. drop n (v # va) = out1 @ rest) \<and> (e1 = None \<longrightarrow> out1 = drop n (v # va))"
      using "4.IH" [OF False w] by blast
    have r: "e = e1" "out = take n (v # va) @ out1" using "4.prems" False w by auto
    obtain rest where "drop n (v # va) = out1 @ rest" using ih by blast
    then have "v # va = (take n (v # va) @ out1) @ rest" by (metis append.assoc append_take_drop_id)
    then show ?thesis using ih r by (metis append_take_drop_id)
  qed (use "4.prems" in auto)
qed auto

section \<open>Frames\<close>

text \<open>Reading frames until the stream ends or is refused, with one unit of fuel for each byte.\<close>

fun read_frames :: "(byte list \<Rightarrow> io_error + byte list \<times> byte list) \<Rightarrow> nat \<Rightarrow> byte list \<Rightarrow> byte list list \<times> io_error option" where
  "read_frames get 0 s = ([], None)"
| "read_frames get (Suc n) s =
     (case get s of
        Inl e \<Rightarrow> ([], Some e)
      | Inr (p, rest) \<Rightarrow> (case read_frames get n rest of (ps, e) \<Rightarrow> (p # ps, e)))"

locale framing =
  fixes put :: "byte list \<Rightarrow> byte list option"
    and get :: "byte list \<Rightarrow> io_error + byte list \<times> byte list"
  assumes get_put: "put p = Some w \<Longrightarrow> get (w @ rest) = Inr (p, rest)"
    and get_cut: "put p = Some w \<Longrightarrow> k < length w \<Longrightarrow> \<exists>e. get (take k w) = Inl e"
    and put_long: "put p = Some w \<Longrightarrow> 0 < length w"
    and get_end: "get [] = Inl EndOfFile"
begin

text \<open>However the stream of frames is cut off, what is read is a prefix of what was sent, followed by an error; of the
  whole stream everything is read, and then its end is seen.\<close>

lemma read_cut:
  assumes "list_all2 (\<lambda>p w. put p = Some w) ps ws" and "k \<le> length (concat ws)" and "k < n"
  shows "\<exists>m e. m \<le> length ps \<and> read_frames get n (take k (concat ws)) = (take m ps, Some e) \<and>
    (k = length (concat ws) \<longrightarrow> m = length ps \<and> e = EndOfFile)"
  using assms
proof (induction ps ws arbitrary: k n rule: list_all2_induct)
  case Nil
  then obtain j where "n = Suc j" by (cases n) auto
  then show ?case by (simp add: get_end)
next
  case (Cons p ps w ws)
  note put = Cons.hyps(1)
  obtain j where n: "n = Suc j" using Cons.prems by (cases n) auto
  show ?case
  proof (cases "k < length w")
    case True
    then obtain e where "get (take k w) = Inl e" using get_cut [OF put] by blast
    then have "read_frames get n (take k (concat (w # ws))) = ([], Some e)" using True n by simp
    then show ?thesis using True by (intro exI [of _ 0]) auto
  next
    case False
    let ?k = "k - length w"
    have t: "take k (concat (w # ws)) = w @ take ?k (concat ws)" using False by simp
    have "0 < length w" by (rule put_long [OF put])
    then have "?k < j" using False n Cons.prems by linarith
    moreover have "?k \<le> length (concat ws)" using Cons.prems False by simp
    ultimately obtain m e where m: "m \<le> length ps" "read_frames get j (take ?k (concat ws)) = (take m ps, Some e)"
      "?k = length (concat ws) \<longrightarrow> m = length ps \<and> e = EndOfFile"
      using Cons.IH by blast
    have "read_frames get n (take k (concat (w # ws))) = (take (Suc m) (p # ps), Some e)"
      unfolding t n using get_put [OF put] m(2) by simp
    moreover have "k = length (concat (w # ws)) \<longrightarrow> Suc m = length (p # ps) \<and> e = EndOfFile" using m(3) False by auto
    ultimately show ?thesis using m(1) by (intro exI [of _ "Suc m"] exI [of _ e]) auto
  qed
qed

end

text \<open>A frame of four bytes of length and the payload.\<close>

definition frame_bytes :: "byte list \<Rightarrow> byte list" where
  "frame_bytes payload = be_encode 4 (length payload) @ payload"

definition read_limited :: "nat \<Rightarrow> byte list \<Rightarrow> io_error + byte list \<times> byte list" where
  "read_limited limit s =
     (case read_full 4 s of
        Inl e \<Rightarrow> Inl e
      | Inr (header, s) \<Rightarrow>
          let n = be_decode header
          in if n = 0 \<or> limit < n then Inl (BadFrameSize n) else read_full n s)"

lemma framing_limited:
  assumes "limit < 2 ^ 32"
  shows "framing (\<lambda>p. if p = [] \<or> limit < length p then None else Some (frame_bytes p)) (read_limited limit)"
proof
  fix p w rest
  assume "(if p = [] \<or> limit < length p then None else Some (frame_bytes p)) = Some w"
  then have p: "p \<noteq> []" "length p \<le> limit" and w: "w = be_encode 4 (length p) @ p"
    by (auto simp: frame_bytes_def not_less split: if_splits)
  have len: "be_decode (be_encode 4 (length p)) = length p" using p assms by (simp add: be_decode_encode)
  have l4: "length (be_encode 4 (length p)) = 4" by simp
  show "read_limited limit (w @ rest) = Inr (p, rest)"
    unfolding read_limited_def read_full_def w using p l4 len by (simp del: be_encode.simps)
  show "0 < length w" by (simp add: w)
  fix k assume k: "k < length w"
  show "\<exists>e. read_limited limit (take k w) = Inl e"
  proof (cases "k < 4")
    case True
    then show ?thesis unfolding read_limited_def read_full_def using k by simp
  next
    case False
    then have "take 4 (take k w) = be_encode 4 (length p)" "drop 4 (take k w) = take (k - 4) p"
      unfolding w using l4 by (simp_all del: be_encode.simps)
    moreover have "4 \<le> length (take k w)" using False k by simp
    moreover have "length (take (k - 4) p) < length p" using k p(1) unfolding w by (simp add: length_greater_0_conv [symmetric] del: length_greater_0_conv be_encode.simps)
    ultimately show ?thesis unfolding read_limited_def read_full_def using len p by (simp add: Let_def del: be_encode.simps) linarith
  qed
next
  show "read_limited limit [] = Inl EndOfFile" by (simp add: read_limited_def read_full_def)
qed

end
