(* ===== verification/P2pRelay.thy ===== *)
theory P2pRelay
  imports P2pAuthority Framing
begin

text \<open>
  \<^verbatim>\<open>internal/p2p/relay.go\<close>: the relay that joins the two sides of a session, and the frames both ends speak.
  Rooms are objects known by their number and shared by the two handlers of a session, so a handler keeps
  its room when the relay's map has dropped it. A connection is a number; closing it is recorded. One
  connection's handler is the sequence \<open>handle_auth\<close>, any number of \<open>handle_packet\<close>, and
  the deferred \<^verbatim>\<open>Revoke\<close>.
\<close>

section \<open>Frames\<close>

definition maxDatagram :: nat where "maxDatagram = 4096"

definition writeFrame :: "write_step list \<Rightarrow> byte list \<Rightarrow> io_error option \<times> byte list \<times> write_step list" where
  "writeFrame ws payload =
     (if length payload = 0 \<or> maxTicket * 2 < length payload then (Some (BadFrameSize (length payload)), [], ws)
      else write_all ShortWrite ws (be_encode 4 (length payload) @ payload))"

definition readFrame :: "nat \<Rightarrow> byte list \<Rightarrow> io_error + byte list \<times> byte list" where
  "readFrame limit s =
     (case read_full 4 s of
        Inl e \<Rightarrow> Inl e
      | Inr (header, s) \<Rightarrow>
          let n = be_decode header
          in if n = 0 \<or> limit < n then Inl (BadFrameSize n) else read_full n s)"

definition wireGuardPacket :: "byte list \<Rightarrow> bool" where
  "wireGuardPacket p =
     (if length p < 4 then False
      else let t = le_decode (take 4 p)
           in if t = 1 then length p = 148
              else if t = 2 then length p = 92
              else if t = 3 then length p = 64
              else if t = 4 then 32 \<le> length p \<and> length p \<le> maxDatagram \<and> length p mod 16 = 0
              else False)"

section \<open>State\<close>

record relay_auth =
  ra_Ticket :: "byte list"
  ra_Side :: byte
  ra_Proof :: "byte list"

record room =
  rm_session :: session
  rm_hash :: "byte list"
  rm_peers :: "side \<Rightarrow> nat option"
  rm_joined :: "side \<Rightarrow> bool"
  rm_revoked :: bool

record relay =
  rl_issuer :: "byte list"
  rl_cluster :: string
  rl_revision :: u64
  rl_rooms :: "room list"
  rl_sessions :: "(string \<times> nat) list"
  rl_denied :: "(string \<times> gotime) list"
  rl_denyUntil :: gotime
  rl_forwarded :: u64
  rl_closed :: "nat list"

record relay_env = p2p_env +
  re_auth :: "byte list \<Rightarrow> (relay_auth \<times> byte list) option"
  re_put_auth :: "relay_auth \<Rightarrow> byte list"

definition NewRelay :: "byte list \<Rightarrow> string \<Rightarrow> u64 \<Rightarrow> p2p_error + relay" where
  "NewRelay issuer cluster minRevision =
     (if length issuer \<noteq> publicKeySize \<or> cluster = [] then Inl InvalidTrustContext
      else Inr \<lparr>rl_issuer = issuer, rl_cluster = cluster, rl_revision = minRevision, rl_rooms = [], rl_sessions = [],
                rl_denied = [], rl_denyUntil = zero_time, rl_forwarded = 0, rl_closed = []\<rparr>)"

definition room_conns :: "room \<Rightarrow> nat list" where
  "room_conns rm = List.map_filter (rm_peers rm) [Initiator, Host]"

section \<open>Revocation\<close>

definition relay_Revoke :: "gotime \<Rightarrow> string \<Rightarrow> relay \<Rightarrow> relay" where
  "relay_Revoke now sid r0 =
     (let denied = filter (\<lambda>(k, until). time_before now until) (rl_denied r0);
          r = (if length denied < maxDenied
               then r0\<lparr>rl_denied := AList.update sid (time_add now MaxLease) denied\<rparr>
               else r0\<lparr>rl_denied := denied, rl_denyUntil := time_add now MaxLease\<rparr>)
      in case map_of (rl_sessions r) sid of
           None \<Rightarrow> r
         | Some i \<Rightarrow>
             r\<lparr>rl_rooms := (rl_rooms r)[i := (rl_rooms r ! i)\<lparr>rm_revoked := True\<rparr>],
               rl_closed := room_conns (rl_rooms r ! i) @ rl_closed r\<rparr>)"

section \<open>Joining a room\<close>

text \<open>A map read gives the zero time for a missing key.\<close>

definition denied_until :: "relay \<Rightarrow> string \<Rightarrow> gotime" where
  "denied_until r sid = (case map_of (rl_denied r) sid of None \<Rightarrow> zero_time | Some t \<Rightarrow> t)"

definition drop_inactive :: "gotime \<Rightarrow> relay \<Rightarrow> relay" where
  "drop_inactive now r =
     r\<lparr>rl_sessions := filter (\<lambda>(k, i). active (rm_session (rl_rooms r ! i)) now) (rl_sessions r),
       rl_closed := concat (map (\<lambda>(k, i). if active (rm_session (rl_rooms r ! i)) now then []
                                         else room_conns (rl_rooms r ! i)) (rl_sessions r)) @ rl_closed r\<rparr>"

definition fresh_room :: "('x) relay_env_scheme \<Rightarrow> session \<Rightarrow> room" where
  "fresh_room env s = \<lparr>rm_session = s, rm_hash = pe_sha256 env (se_ticket s), rm_peers = (\<lambda>_. None),
     rm_joined = (\<lambda>_. False), rm_revoked = False\<rparr>"

text \<open>The session's room, or a new one while there are fewer than 64.\<close>

definition pick_room :: "('x) relay_env_scheme \<Rightarrow> session \<Rightarrow> relay \<Rightarrow> (nat \<times> relay) option" where
  "pick_room env s r =
     (let sid = gr_SessionID (se_grant s)
      in case map_of (rl_sessions r) sid of
           Some i \<Rightarrow> Some (i, r)
         | None \<Rightarrow>
             if 64 \<le> length (rl_sessions r) then None
             else let i = length (rl_rooms r)
                  in Some (i, r\<lparr>rl_rooms := rl_rooms r @ [fresh_room env s], rl_sessions := AList.update sid i (rl_sessions r)\<rparr>))"

definition join_room :: "side \<Rightarrow> nat \<Rightarrow> room \<Rightarrow> room" where
  "join_room sd conn rm = rm\<lparr>rm_joined := (rm_joined rm)(sd := True), rm_peers := (rm_peers rm)(sd := Some conn)\<rparr>"

definition relay_attach ::
  "('x) relay_env_scheme \<Rightarrow> gotime \<Rightarrow> session \<Rightarrow> side \<Rightarrow> nat \<Rightarrow> relay \<Rightarrow> nat option \<times> relay" where
  "relay_attach env now s sd conn r0 =
     (if time_before now (rl_denyUntil r0) \<or> time_before now (denied_until r0 (gr_SessionID (se_grant s))) then (None, r0)
      else let r = drop_inactive now r0
           in case pick_room env s r of
                None \<Rightarrow> (None, r)
              | Some (i, r) \<Rightarrow>
                  let rm = rl_rooms r ! i
                  in if rm_hash rm \<noteq> pe_sha256 env (se_ticket s) \<or> rm_revoked rm \<or> rm_joined rm sd then (None, r)
                     else (Some i, r\<lparr>rl_rooms := (rl_rooms r)[i := join_room sd conn rm]\<rparr>))"

section \<open>A connection\<close>

text \<open>What \<^verbatim>\<open>handle\<close> does with the answer \<open>raw\<close> to its challenge: \<open>now1\<close> and \<open>now2\<close> are its two readings of the
  clock. The result is the side and the room it has joined.\<close>

definition handle_auth ::
  "('x) relay_env_scheme \<Rightarrow> gotime \<Rightarrow> gotime \<Rightarrow> byte list \<Rightarrow> byte list \<Rightarrow> byte list \<Rightarrow> nat \<Rightarrow> relay \<Rightarrow> (side \<times> nat \<times> session) option \<times> relay" where
  "handle_auth env now1 now2 challenge binding raw conn r =
     (case decodeStrict (re_auth env) raw of
        Inl _ \<Rightarrow> (None, r)
      | Inr auth \<Rightarrow>
          (case side_of (ra_Side auth) of
             None \<Rightarrow> (None, r)
           | Some sd \<Rightarrow>
               (case VerifyGrant env (ra_Ticket auth) (rl_issuer r) (rl_cluster r) (rl_revision r) now1 of
                  Inl _ \<Rightarrow> (None, r)
                | Inr s \<Rightarrow>
                    let identity = (case base64_decode (pt_IdentityKey (participant_of (se_grant s) sd)) of
                                      None \<Rightarrow> [] | Some k \<Rightarrow> k)
                    in if \<not> pe_verify env identity (proofMessage env challenge (ra_Ticket auth) sd binding) (ra_Proof auth)
                       then (None, r)
                       else (case relay_attach env now2 s sd conn r of
                               (None, r) \<Rightarrow> (None, r)
                             | (Some i, r) \<Rightarrow> (Some (sd, i, s), r)))))"

text \<open>One frame from a connection that has joined room \<open>i\<close> as \<open>sd\<close>. \<open>wrote\<close> tells whether the write to the target
  succeeds.\<close>

datatype packet_outcome = Ended | Skipped | Forwarded nat "byte list"

definition handle_packet :: "gotime \<Rightarrow> bool \<Rightarrow> nat \<Rightarrow> side \<Rightarrow> byte list \<Rightarrow> relay \<Rightarrow> packet_outcome \<times> relay" where
  "handle_packet now wrote i sd packet r =
     (let rm = rl_rooms r ! i
      in if rm_revoked rm \<or> \<not> active (rm_session rm) now then (Ended, r)
         else if \<not> wireGuardPacket packet then (Skipped, r)
         else case rm_peers rm (other sd) of
                None \<Rightarrow> (Skipped, r)
              | Some target \<Rightarrow>
                  if \<not> wrote then (Ended, r)
                  else (Forwarded target packet, r\<lparr>rl_forwarded := rl_forwarded r + word_of_nat (length packet)\<rparr>))"

section \<open>The endpoint\<close>

definition auth_message ::
  "('x) relay_env_scheme \<Rightarrow> session \<Rightarrow> side \<Rightarrow> byte list \<Rightarrow> byte list \<Rightarrow> byte list \<Rightarrow> byte list" where
  "auth_message env s sd identity challenge binding =
     re_put_auth env \<lparr>ra_Ticket = se_ticket s, ra_Side = side_byte sd,
        ra_Proof = pe_sign env identity (proofMessage env challenge (se_ticket s) sd binding)\<rparr>"

datatype dial_error = InvalidClientTrust | IdentityMismatch | DialIO io_error | BadChallenge | BadAcknowledgement

record dial_config =
  dc_tls :: bool
  dc_insecure :: bool
  dc_serverName :: string

text \<open>\<^verbatim>\<open>DialRelay\<close> up to the connection: its checks; and the exchange on the connection, where \<open>challenge\<close> and \<open>ready\<close>
  are the relay's frames.\<close>

definition dial_check ::
  "('x) relay_env_scheme \<Rightarrow> gotime \<Rightarrow> dial_config \<Rightarrow> session option \<Rightarrow> side option \<Rightarrow> byte list \<Rightarrow> dial_error option" where
  "dial_check env now cfg s sd identity =
     (case (s, sd) of
        (Some s, Some sd) \<Rightarrow>
          if \<not> dc_tls cfg \<or> dc_insecure cfg \<or> dc_serverName cfg = [] \<or> length identity \<noteq> privateKeySize \<or> \<not> active s now
          then Some InvalidClientTrust
          else if pe_public env identity \<noteq>
                  (case base64_decode (pt_IdentityKey (participant_of (se_grant s) sd)) of None \<Rightarrow> [] | Some k \<Rightarrow> k)
            then Some IdentityMismatch
          else None
      | _ \<Rightarrow> Some InvalidClientTrust)"

definition dial_exchange ::
  "('x) relay_env_scheme \<Rightarrow> session \<Rightarrow> side \<Rightarrow> byte list \<Rightarrow> byte list \<Rightarrow> write_step list \<Rightarrow> byte list \<Rightarrow>
   dial_error option \<times> byte list" where
  "dial_exchange env s sd identity binding ws input =
     (case readFrame 32 input of
        Inl e \<Rightarrow> (Some (DialIO e), [])
      | Inr (challenge, input) \<Rightarrow>
          if length challenge \<noteq> 32 then (Some BadChallenge, [])
          else (case writeFrame ws (auth_message env s sd identity challenge binding) of
                  (Some e, out, _) \<Rightarrow> (Some (DialIO e), out)
                | (None, out, _) \<Rightarrow>
                    (case readFrame 32 input of
                       Inl e \<Rightarrow> (Some (DialIO e), out)
                     | Inr (ready, _) \<Rightarrow>
                         if string_of ready \<noteq> ''BPC-P2P-READY-v1'' then (Some BadAcknowledgement, out) else (None, out))))"

section \<open>Steps\<close>

text \<open>The connections that have joined a room since \<open>r0\<close>, and the relay they led to; the readings of the clock satisfy \<open>P\<close>.\<close>

record joined =
  jn_conn :: nat
  jn_side :: side
  jn_room :: nat
  jn_session :: session

inductive relay_trace ::
  "('x) relay_env_scheme \<Rightarrow> (gotime \<Rightarrow> bool) \<Rightarrow> relay \<Rightarrow> joined list \<Rightarrow> relay \<Rightarrow> bool"
  for env :: "('x) relay_env_scheme" and P :: "gotime \<Rightarrow> bool" and r0 :: relay where
  start: "relay_trace env P r0 [] r0"
| revoke: "relay_trace env P r0 h r \<Longrightarrow> P now \<Longrightarrow> relay_trace env P r0 h (relay_Revoke now sid r)"
| refused: "relay_trace env P r0 h r \<Longrightarrow> P now1 \<Longrightarrow> P now2 \<Longrightarrow>
    handle_auth env now1 now2 challenge binding raw conn r = (None, r') \<Longrightarrow> relay_trace env P r0 h r'"
| joins: "relay_trace env P r0 h r \<Longrightarrow> P now1 \<Longrightarrow> P now2 \<Longrightarrow>
    handle_auth env now1 now2 challenge binding raw conn r = (Some (sd, i, s), r') \<Longrightarrow>
    relay_trace env P r0 (\<lparr>jn_conn = conn, jn_side = sd, jn_room = i, jn_session = s\<rparr> # h) r'"
| packet: "relay_trace env P r0 h r \<Longrightarrow> P now \<Longrightarrow> handle_packet now wrote i sd x r = (out, r') \<Longrightarrow> relay_trace env P r0 h r'"

section \<open>Facts\<close>

lemma handle_packet_rooms [simp]: "rl_rooms (snd (handle_packet now wrote i sd x r)) = rl_rooms r"
  "rl_sessions (snd (handle_packet now wrote i sd x r)) = rl_sessions r"
  "rl_denied (snd (handle_packet now wrote i sd x r)) = rl_denied r"
  "rl_denyUntil (snd (handle_packet now wrote i sd x r)) = rl_denyUntil r"
  by (simp_all add: handle_packet_def Let_def split: option.splits)

lemma drop_inactive_simps [simp]:
  "rl_rooms (drop_inactive now r) = rl_rooms r" "rl_denied (drop_inactive now r) = rl_denied r"
  "rl_denyUntil (drop_inactive now r) = rl_denyUntil r"
  by (simp_all add: drop_inactive_def)

definition relay_ok :: "relay \<Rightarrow> bool" where
  "relay_ok r \<longleftrightarrow>
     keys_distinct (rl_sessions r) \<and> keys_distinct (rl_denied r) \<and>
     (\<forall>(sid, i) \<in> set (rl_sessions r). i < length (rl_rooms r) \<and> gr_SessionID (se_grant (rm_session (rl_rooms r ! i))) = sid) \<and>
     (\<forall>rm \<in> set (rl_rooms r). \<forall>sd. rm_joined rm sd = (rm_peers rm sd \<noteq> None))"

lemma relay_ok_drop: "relay_ok r \<Longrightarrow> relay_ok (drop_inactive now r)"
  by (auto simp: relay_ok_def drop_inactive_def)

lemma pick_room_ok:
  assumes ok: "relay_ok r" and pk: "pick_room env s r = Some (i, r2)"
  shows "relay_ok r2 \<and> i < length (rl_rooms r2) \<and> gr_SessionID (se_grant (rm_session (rl_rooms r2 ! i))) = gr_SessionID (se_grant s) \<and>
    rl_denied r2 = rl_denied r \<and> rl_denyUntil r2 = rl_denyUntil r \<and>
    (rl_rooms r2 = rl_rooms r \<or> rl_rooms r2 = rl_rooms r @ [fresh_room env s])"
proof (cases "map_of (rl_sessions r) (gr_SessionID (se_grant s))")
  case (Some j)
  then have "i = j" "r2 = r" using pk by (auto simp: pick_room_def)
  then show ?thesis using ok map_of_SomeD [OF Some] by (auto simp: relay_ok_def)
next
  case None
  let ?sid = "gr_SessionID (se_grant s)"
  have i: "i = length (rl_rooms r)" and r2: "r2 = r\<lparr>rl_rooms := rl_rooms r @ [fresh_room env s],
      rl_sessions := AList.update ?sid (length (rl_rooms r)) (rl_sessions r)\<rparr>"
    using pk None by (auto simp: pick_room_def Let_def split: if_splits)
  have "\<forall>(k, j) \<in> set (rl_sessions r2). j < length (rl_rooms r2) \<and> gr_SessionID (se_grant (rm_session (rl_rooms r2 ! j))) = k"
  proof (intro ballI)
    fix kj assume "kj \<in> set (rl_sessions r2)"
    then have "kj = (?sid, length (rl_rooms r)) \<or> kj \<in> set (rl_sessions r)"
      using set_update_subset [of ?sid _ "rl_sessions r"] by (auto simp: r2)
    then show "case kj of (k, j) \<Rightarrow> j < length (rl_rooms r2) \<and> gr_SessionID (se_grant (rm_session (rl_rooms r2 ! j))) = k"
      using ok unfolding relay_ok_def r2 by (auto simp: nth_append fresh_room_def)
  qed
  moreover have "keys_distinct (rl_sessions r2)" using ok by (simp add: relay_ok_def r2)
  ultimately have "relay_ok r2" using ok unfolding relay_ok_def by (simp add: r2 fresh_room_def)
  then show ?thesis using i by (simp add: r2 fresh_room_def)
qed

lemma join_ok:
  assumes ok: "relay_ok r" and i: "i < length (rl_rooms r)"
  shows "relay_ok (r\<lparr>rl_rooms := (rl_rooms r)[i := join_room sd conn (rl_rooms r ! i)]\<rparr>)"
proof -
  let ?rooms = "(rl_rooms r)[i := join_room sd conn (rl_rooms r ! i)]"
  have good: "\<forall>rm \<in> set (rl_rooms r). \<forall>sd. rm_joined rm sd = (rm_peers rm sd \<noteq> None)" using ok by (simp add: relay_ok_def)
  then have "\<forall>sd. rm_joined (rl_rooms r ! i) sd = (rm_peers (rl_rooms r ! i) sd \<noteq> None)" using i nth_mem by blast
  then have "\<forall>sd'. rm_joined (join_room sd conn (rl_rooms r ! i)) sd' = (rm_peers (join_room sd conn (rl_rooms r ! i)) sd' \<noteq> None)"
    by (simp add: join_room_def)
  then have "\<forall>rm \<in> set ?rooms. \<forall>sd. rm_joined rm sd = (rm_peers rm sd \<noteq> None)"
    using good set_update_subset_insert [of "rl_rooms r" i "join_room sd conn (rl_rooms r ! i)"] by blast
  moreover have "rm_session (?rooms ! j) = rm_session (rl_rooms r ! j)" for j
    using i by (cases "j = i") (auto simp: join_room_def)
  ultimately show ?thesis using ok unfolding relay_ok_def by simp
qed

text \<open>What joining does to the rooms: an old room or a new one of this very ticket gets the connection on a side
  that was free, and no other room changes.\<close>

lemma relay_attach_cases:
  assumes ok: "relay_ok r" and a: "relay_attach env now s sd conn r = (x, r')"
  shows "rl_denied r' = rl_denied r \<and> rl_denyUntil r' = rl_denyUntil r \<and> relay_ok r' \<and>
    (\<exists>rooms. (rooms = rl_rooms r \<or> rooms = rl_rooms r @ [fresh_room env s]) \<and>
       (case x of
          None \<Rightarrow> rl_rooms r' = rooms
        | Some i \<Rightarrow> i < length rooms \<and> rm_hash (rooms ! i) = pe_sha256 env (se_ticket s) \<and> \<not> rm_revoked (rooms ! i) \<and>
            gr_SessionID (se_grant (rm_session (rooms ! i))) = gr_SessionID (se_grant s) \<and>
            \<not> rm_joined (rooms ! i) sd \<and> rl_rooms r' = rooms[i := join_room sd conn (rooms ! i)] \<and>
            \<not> time_before now (rl_denyUntil r) \<and> \<not> time_before now (denied_until r (gr_SessionID (se_grant s)))))"
proof (cases "time_before now (rl_denyUntil r) \<or> time_before now (denied_until r (gr_SessionID (se_grant s)))")
  case True
  then have "x = None \<and> r' = r" using a by (auto simp: relay_attach_def)
  then show ?thesis using ok by auto
next
  case False
  note ok1 = relay_ok_drop [OF ok, of now]
  show ?thesis
  proof (cases "pick_room env s (drop_inactive now r)")
    case None
    then show ?thesis using a ok1 False by (auto simp: relay_attach_def)
  next
    case (Some ir)
    then obtain i r2 where pk: "pick_room env s (drop_inactive now r) = Some (i, r2)" by (cases ir) auto
    note two = pick_room_ok [OF ok1 pk]
    show ?thesis
    proof (cases "rm_hash (rl_rooms r2 ! i) \<noteq> pe_sha256 env (se_ticket s) \<or> rm_revoked (rl_rooms r2 ! i) \<or> rm_joined (rl_rooms r2 ! i) sd")
      case True
      then have "x = None" "r' = r2" using a pk False by (auto simp: relay_attach_def Let_def)
      then show ?thesis using two by auto
    next
      case no: False
      then have x: "x = Some i" "r' = r2\<lparr>rl_rooms := (rl_rooms r2)[i := join_room sd conn (rl_rooms r2 ! i)]\<rparr>"
        using a pk False by (auto simp: relay_attach_def Let_def)
      have "relay_ok r'" unfolding x(2) using two by (intro join_ok) auto
      then show ?thesis using two no x False by (intro conjI exI [of _ "rl_rooms r2"]) auto
    qed
  qed
qed

end
