(* ===== verification/P2pPolicy.thy ===== *)
theory P2pPolicy
  imports P2pGrant
begin

text \<open>
  \<^verbatim>\<open>internal/p2p/policy.go\<close>: the stateful packet filter on both sides of a session's WireGuard tunnel and
  the tunnel device that applies it to batches of packets. A policy points to its session, whose
  authorization the policy store changes; the session as it is at the call is an argument. An index out of
  range is the outcome \<open>Panic\<close>.
\<close>

section \<open>Data\<close>

record flow =
  fl_protocol :: byte
  fl_client :: u16
  fl_service :: u16

record policy =
  po_side :: side
  po_revoked :: bool
  po_flows :: "(flow \<times> gotime) list"
  po_nextPrune :: gotime

datatype 'a verdict = Panic | Deny | Pass 'a

definition maxFlows :: nat where "maxFlows = 4096"

definition NewPolicy :: "session option \<Rightarrow> side option \<Rightarrow> gotime \<Rightarrow> p2p_error + policy" where
  "NewPolicy s sd now =
     (case (s, sd) of
        (Some s, Some sd) \<Rightarrow>
          if \<not> active s now then Inl InvalidPolicySession
          else Inr \<lparr>po_side = sd, po_revoked = False, po_flows = [], po_nextPrune = zero_time\<rparr>
      | _ \<Rightarrow> Inl InvalidPolicySession)"

definition Revoke :: "policy \<Rightarrow> policy" where
  "Revoke p = p\<lparr>po_revoked := True, po_flows := []\<rparr>"

definition servicePort :: "byte \<Rightarrow> u16 \<Rightarrow> bool" where
  "servicePort protocol port =
     (if protocol = 6 then port = 47984 \<or> port = 47989 \<or> port = 48010
      else port = 47998 \<or> port = 47999 \<or> port = 48000 \<or> port = 48002 \<or> port = 48010)"

section \<open>Inspecting a packet\<close>

definition u16_of :: "byte list \<Rightarrow> u16" where
  "u16_of bs = word_of_nat (be_decode bs)"

text \<open>The transport header: the TCP flags, or none for UDP.\<close>

definition transport_flags :: "byte list \<Rightarrow> byte \<Rightarrow> byte verdict" where
  "transport_flags packet proto =
     (if proto = 6 then
        (if length packet < 40 then Deny
         else case (index_at packet 32, index_at packet 33) of
                (Some off, Some flags) \<Rightarrow>
                  let header = unat (drop_bit 4 off) * 4
                  in if header < 20 \<or> length packet < 20 + header then Deny else Pass flags
              | _ \<Rightarrow> Panic)
      else case subslice packet 24 26 of
             None \<Rightarrow> Panic
           | Some len \<Rightarrow> if be_decode len \<noteq> length packet - 20 then Deny else Pass 0)"

text \<open>The flow of a packet that \<open>sender\<close> sends, keyed from the initiator's side, and its TCP flags.\<close>

definition inspect :: "grant \<Rightarrow> side \<Rightarrow> byte list \<Rightarrow> (flow \<times> byte) verdict" where
  "inspect g sender packet =
     (if length packet < 20 then Deny
      else case (index_at packet 0, subslice packet 2 4, subslice packet 6 8, index_at packet 9) of
        (Some version, Some len, Some frag, Some proto) \<Rightarrow>
          if version \<noteq> 0x45 \<or> be_decode len \<noteq> length packet \<or> u16_of frag AND 0xbfff \<noteq> 0 then Deny
          else if proto \<noteq> 6 \<and> proto \<noteq> 17 then Deny
          else if length packet < 28 then Deny
          else (case (subslice packet 12 16, subslice packet 16 20, subslice packet 20 22, subslice packet 22 24) of
                  (Some source, Some target, Some sp, Some dp) \<Rightarrow>
                    if V4 (AddrFrom4 source) \<noteq> pt_Address (participant_of g sender) \<or>
                       V4 (AddrFrom4 target) \<noteq> pt_Address (participant_of g (other sender)) then Deny
                    else let src = u16_of sp; dst = u16_of dp
                         in if src = 0 \<or> dst = 0 then Deny
                            else (case transport_flags packet proto of
                                    Panic \<Rightarrow> Panic
                                  | Deny \<Rightarrow> Deny
                                  | Pass flags \<Rightarrow>
                                      let key = (if sender = Host
                                                 then \<lparr>fl_protocol = proto, fl_client = dst, fl_service = src\<rparr>
                                                 else \<lparr>fl_protocol = proto, fl_client = src, fl_service = dst\<rparr>)
                                      in if \<not> servicePort proto (fl_service key) then Deny else Pass (key, flags))
                | _ \<Rightarrow> Panic)
      | _ \<Rightarrow> Panic)"

section \<open>The decision\<close>

definition prune :: "gotime \<Rightarrow> policy \<Rightarrow> policy" where
  "prune now p =
     (if \<not> time_before now (po_nextPrune p)
      then p\<lparr>po_flows := filter (\<lambda>(f, until). time_before now until) (po_flows p), po_nextPrune := time_add now second\<rparr>
      else p)"

definition established :: "gotime \<Rightarrow> flow \<Rightarrow> policy \<Rightarrow> bool" where
  "established now key p = (case map_of (po_flows p) key of None \<Rightarrow> False | Some until \<Rightarrow> time_before now until)"

definition syn_only :: "byte \<Rightarrow> bool" where
  "syn_only flags \<longleftrightarrow> flags AND 0x02 \<noteq> 0 \<and> flags AND 0x10 = 0"

definition admit :: "gotime \<Rightarrow> side \<Rightarrow> flow \<Rightarrow> byte \<Rightarrow> policy \<Rightarrow> bool \<times> policy" where
  "admit now sender key flags p0 =
     (let p = prune now p0; proto = fl_protocol key; est = established now key p
      in if sender = Host \<and> (\<not> est \<or> proto = 6 \<and> syn_only flags) then (False, p)
         else if sender \<noteq> Host \<and> \<not> est \<and> (maxFlows \<le> length (po_flows p) \<or> proto = 6 \<and> \<not> syn_only flags) then (False, p)
         else let flows = AList.update key (time_add now (30 * second)) (po_flows p);
                  flows = (if proto = 6 \<and> flags AND 0x04 \<noteq> 0 then AList.delete key flows else flows)
              in (True, p\<lparr>po_flows := flows\<rparr>))"

definition sender_of :: "policy \<Rightarrow> bool \<Rightarrow> side" where
  "sender_of p outbound = (if outbound then po_side p else other (po_side p))"

definition Allowed :: "session \<Rightarrow> gotime \<Rightarrow> byte list \<Rightarrow> bool \<Rightarrow> policy \<Rightarrow> unit verdict \<times> policy" where
  "Allowed s now packet outbound p =
     (if po_revoked p \<or> \<not> active s now then (Deny, p\<lparr>po_flows := []\<rparr>)
      else case inspect (se_grant s) (sender_of p outbound) packet of
             Panic \<Rightarrow> (Panic, p)
           | Deny \<Rightarrow> (Deny, p)
           | Pass (key, flags) \<Rightarrow>
               (case admit now (sender_of p outbound) key flags p of
                  (True, p') \<Rightarrow> (Pass (), p')
                | (False, p') \<Rightarrow> (Deny, p')))"

section \<open>The filtering tunnel device\<close>

text \<open>\<^verbatim>\<open>copy(dst[off:], src)\<close>.\<close>

definition copy_at :: "'a list \<Rightarrow> nat \<Rightarrow> 'a list \<Rightarrow> 'a list option" where
  "copy_at dst off src =
     (if length dst < off then None
      else Some (take off dst @ take (length dst - off) src @ drop (off + min (length dst - off) (length src)) dst))"

text \<open>The loop over one batch the device has read: \<open>n\<close> packets in the buffers at \<open>offset\<close>, with a reading of
  the clock for each decision. \<^const>\<open>None\<close> is a panic.\<close>

fun filter_batch ::
  "session \<Rightarrow> (nat \<Rightarrow> gotime) \<Rightarrow> int \<Rightarrow> nat \<Rightarrow> nat \<Rightarrow> nat \<Rightarrow> byte list list \<Rightarrow> int list \<Rightarrow> policy \<Rightarrow>
   (nat \<times> byte list list \<times> int list \<times> policy) option" where
  "filter_batch s clock offset 0 i kept bufs sizes p = Some (kept, bufs, sizes, p)"
| "filter_batch s clock offset (Suc n) i kept bufs sizes p =
     (case (index_at sizes i, index_at bufs i) of
        (Some sz, Some buf) \<Rightarrow>
          if \<not> (0 \<le> sz \<and> 0 \<le> offset \<and> offset + sz \<le> int (length buf))
          then filter_batch s clock offset n (Suc i) kept bufs sizes p
          else (let packet = take (nat sz) (drop (nat offset) buf)
                in case Allowed s (clock i) packet True p of
                     (Panic, _) \<Rightarrow> None
                   | (Deny, p) \<Rightarrow> filter_batch s clock offset n (Suc i) kept bufs sizes p
                   | (Pass _, p) \<Rightarrow>
                       if i = kept then filter_batch s clock offset n (Suc i) (Suc kept) bufs sizes p
                       else (case copy_at (bufs ! kept) (nat offset) packet of
                               None \<Rightarrow> None
                             | Some d \<Rightarrow>
                                 filter_batch s clock offset n (Suc i) (Suc kept) (bufs[kept := d]) (sizes[kept := sz]) p))
      | _ \<Rightarrow> None)"

text \<open>\<^verbatim>\<open>Read\<close> repeats the device's read until a packet passes or the device reports an error. The results of
  the successive reads are a list; when it runs out the call is still waiting.\<close>

record device_read =
  dr_n :: nat
  dr_err :: bool
  dr_bufs :: "byte list list"
  dr_sizes :: "int list"
  dr_clock :: "nat \<Rightarrow> gotime"

datatype read_result = Waiting | Crashed | Returned nat bool "byte list list" "int list"

fun filter_Read :: "session \<Rightarrow> int \<Rightarrow> device_read list \<Rightarrow> policy \<Rightarrow> read_result \<times> policy" where
  "filter_Read s offset [] p = (Waiting, p)"
| "filter_Read s offset (r # rs) p =
     (case filter_batch s (dr_clock r) offset (dr_n r) 0 0 (dr_bufs r) (dr_sizes r) p of
        None \<Rightarrow> (Crashed, p)
      | Some (kept, bufs, sizes, p) \<Rightarrow>
          if 0 < kept \<or> dr_err r then (Returned kept (dr_err r) bufs sizes, p) else filter_Read s offset rs p)"

text \<open>\<^verbatim>\<open>Write\<close>: what reaches the device below, and whether one of its writes failed.\<close>

fun filter_Write ::
  "session \<Rightarrow> (nat \<Rightarrow> gotime) \<Rightarrow> (byte list \<Rightarrow> bool) \<Rightarrow> int \<Rightarrow> nat \<Rightarrow> byte list list \<Rightarrow> policy \<Rightarrow>
   (bool \<times> byte list list \<times> policy) option" where
  "filter_Write s clock fails offset i [] p = Some (True, [], p)"
| "filter_Write s clock fails offset i (buf # bufs) p =
     (if \<not> (0 \<le> offset \<and> offset \<le> int (length buf)) then filter_Write s clock fails offset (Suc i) bufs p
      else case Allowed s (clock i) (drop (nat offset) buf) False p of
             (Panic, _) \<Rightarrow> None
           | (Deny, p) \<Rightarrow> filter_Write s clock fails offset (Suc i) bufs p
           | (Pass _, p) \<Rightarrow>
               if fails buf then Some (False, [], p)
               else map_option (\<lambda>(ok, out, p). (ok, buf # out, p)) (filter_Write s clock fails offset (Suc i) bufs p))"

section \<open>What passes\<close>

text \<open>The packets of a session: unfragmented IPv4 of TCP or UDP between the two participants' addresses,
  with the service port on the host's side.\<close>

definition session_packet :: "grant \<Rightarrow> side \<Rightarrow> byte list \<Rightarrow> flow \<Rightarrow> byte \<Rightarrow> bool" where
  "session_packet g sender packet key flags \<longleftrightarrow>
     28 \<le> length packet \<and> packet ! 0 = 0x45 \<and> be_decode (take 2 (drop 2 packet)) = length packet \<and>
     u16_of (take 2 (drop 6 packet)) AND 0xbfff = 0 \<and>
     fl_protocol key = packet ! 9 \<and> (packet ! 9 = 6 \<or> packet ! 9 = 17) \<and>
     pt_Address (participant_of g sender) = V4 (AddrFrom4 (take 4 (drop 12 packet))) \<and>
     pt_Address (participant_of g (other sender)) = V4 (AddrFrom4 (take 4 (drop 16 packet))) \<and>
     u16_of (take 2 (drop 20 packet)) = (if sender = Host then fl_service key else fl_client key) \<and>
     u16_of (take 2 (drop 22 packet)) = (if sender = Host then fl_client key else fl_service key) \<and>
     fl_client key \<noteq> 0 \<and> servicePort (fl_protocol key) (fl_service key) \<and>
     (packet ! 9 = 6 \<longrightarrow> 40 \<le> length packet \<and> flags = packet ! 33)"

lemma transport_no_panic: "28 \<le> length packet \<Longrightarrow> transport_flags packet proto \<noteq> Panic"
  by (auto simp: transport_flags_def bounds_simps Let_def split: option.splits)

text \<open>The slices \<^const>\<open>inspect\<close> takes, once the length is known.\<close>

lemma packet_head:
  "\<not> length packet < 20 \<Longrightarrow> index_at packet 0 = Some (packet ! 0)"
  "\<not> length packet < 20 \<Longrightarrow> subslice packet 2 4 = Some (take 2 (drop 2 packet))"
  "\<not> length packet < 20 \<Longrightarrow> subslice packet 6 8 = Some (take 2 (drop 6 packet))"
  "\<not> length packet < 20 \<Longrightarrow> index_at packet 9 = Some (packet ! 9)"
  by (auto simp: bounds_simps)

lemma packet_parts:
  "\<not> length packet < 28 \<Longrightarrow> subslice packet 12 16 = Some (take 4 (drop 12 packet))"
  "\<not> length packet < 28 \<Longrightarrow> subslice packet 16 20 = Some (take 4 (drop 16 packet))"
  "\<not> length packet < 28 \<Longrightarrow> subslice packet 20 22 = Some (take 2 (drop 20 packet))"
  "\<not> length packet < 28 \<Longrightarrow> subslice packet 22 24 = Some (take 2 (drop 22 packet))"
  by (auto simp: bounds_simps)

lemma inspect_no_panic: "inspect g sender packet \<noteq> Panic"
proof (cases "length packet < 28")
  case True
  then show ?thesis by (simp add: inspect_def packet_head)
next
  case False
  then have "transport_flags packet proto \<noteq> Panic" for proto by (simp add: transport_no_panic)
  then show ?thesis
    using False by (simp add: inspect_def packet_head packet_parts Let_def split: verdict.split)
qed

lemma transport_flags_Pass: "transport_flags packet proto = Pass flags \<Longrightarrow> proto = 6 \<Longrightarrow> 40 \<le> length packet \<and> flags = packet ! 33"
  by (auto simp: transport_flags_def bounds_simps Let_def split: option.splits if_splits)

lemma inspect_Pass:
  assumes "inspect g sender packet = Pass (key, flags)"
  shows "session_packet g sender packet key flags"
proof -
  have len: "\<not> length packet < 20" using assms by (auto simp: inspect_def)
  note heads = packet_head [OF len]
  have ip: "packet ! 0 = 0x45" "be_decode (take 2 (drop 2 packet)) = length packet"
    "u16_of (take 2 (drop 6 packet)) AND 0xbfff = 0" "packet ! 9 = 6 \<or> packet ! 9 = 17" "\<not> length packet < 28"
    using assms len by (auto simp: inspect_def heads split: if_splits)
  note parts = packet_parts [OF ip(5)]
  have rest: "V4 (AddrFrom4 (take 4 (drop 12 packet))) = pt_Address (participant_of g sender)"
    "V4 (AddrFrom4 (take 4 (drop 16 packet))) = pt_Address (participant_of g (other sender))"
    "u16_of (take 2 (drop 20 packet)) \<noteq> 0" "u16_of (take 2 (drop 22 packet)) \<noteq> 0"
    "transport_flags packet (packet ! 9) = Pass flags"
    "key = (if sender = Host
       then \<lparr>fl_protocol = packet ! 9, fl_client = u16_of (take 2 (drop 22 packet)), fl_service = u16_of (take 2 (drop 20 packet))\<rparr>
       else \<lparr>fl_protocol = packet ! 9, fl_client = u16_of (take 2 (drop 20 packet)), fl_service = u16_of (take 2 (drop 22 packet))\<rparr>)"
    "servicePort (packet ! 9) (fl_service key)"
    using assms len ip by (auto simp: inspect_def heads parts Let_def split: if_splits verdict.splits)
  then show ?thesis
    using ip transport_flags_Pass [OF rest(5)] by (auto simp: session_packet_def)
qed

lemma Allowed_no_panic: "fst (Allowed s now packet outbound p) \<noteq> Panic"
  using inspect_no_panic by (auto simp: Allowed_def split: verdict.splits prod.splits bool.splits)

section \<open>Runs of a policy\<close>

text \<open>The packets a policy has let through so far, latest first, and the policy they led to.\<close>

record passed =
  pd_now :: gotime
  pd_sender :: side
  pd_flow :: flow
  pd_flags :: byte

inductive policy_trace :: "grant \<Rightarrow> passed list \<Rightarrow> policy \<Rightarrow> bool" for g :: grant where
  created: "NewPolicy (Some s) (Some sd) now = Inr p \<Longrightarrow> policy_trace g [] p"
| revoked: "policy_trace g h p \<Longrightarrow> policy_trace g h (Revoke p)"
| denied: "policy_trace g h p \<Longrightarrow> se_grant s = g \<Longrightarrow> Allowed s now packet outbound p = (Deny, p') \<Longrightarrow> policy_trace g h p'"
| allowed: "policy_trace g h p \<Longrightarrow> se_grant s = g \<Longrightarrow> Allowed s now packet outbound p = (Pass (), p') \<Longrightarrow>
    inspect g (sender_of p outbound) packet = Pass (key, flags) \<Longrightarrow>
    policy_trace g (\<lparr>pd_now = now, pd_sender = sender_of p outbound, pd_flow = key, pd_flags = flags\<rparr> # h) p'"

text \<open>Every open flow was opened by the initiator, with a SYN when it is TCP, and was refreshed by a packet of
  the flow thirty seconds before its deadline.\<close>

definition opener :: "flow \<Rightarrow> passed \<Rightarrow> bool" where
  "opener f x \<longleftrightarrow> pd_sender x = Initiator \<and> pd_flow x = f \<and> (fl_protocol f = 6 \<longrightarrow> syn_only (pd_flags x))"

definition flows_inv :: "passed list \<Rightarrow> (flow \<times> gotime) list \<Rightarrow> bool" where
  "flows_inv h fs \<longleftrightarrow> length fs \<le> maxFlows \<and>
     (\<forall>(f, until) \<in> set fs. (\<exists>x\<in>set h. opener f x) \<and>
        (\<exists>x\<in>set h. pd_flow x = f \<and> until = time_add (pd_now x) (30 * second)))"

lemma flows_inv_Nil [simp]: "flows_inv h []"
  by (simp add: flows_inv_def)

lemma flows_inv_subset: "flows_inv h fs \<Longrightarrow> set gs \<subseteq> set fs \<Longrightarrow> length gs \<le> length fs \<Longrightarrow> flows_inv h gs"
  unfolding flows_inv_def by (meson le_trans subsetD)

lemma flows_inv_prune: "flows_inv h (po_flows p) \<Longrightarrow> flows_inv h (po_flows (prune now p))"
  using flows_inv_subset [of h "po_flows p" "filter (\<lambda>(f, until). time_before now until) (po_flows p)"]
  by (auto simp: prune_def)

lemma established_mem:
  assumes "established now f p"
  shows "\<exists>until. (f, until) \<in> set (po_flows p) \<and> time_before now until"
  using assms by (auto simp: established_def split: option.splits dest: map_of_SomeD)

lemma length_update: "length (AList.update k v m) = (if k \<in> fst ` set m then length m else Suc (length m))"
  by (induction m) auto

lemma delete_smaller: "set (AList.delete k m) \<subseteq> set m" "length (AList.delete k m) \<le> length m"
  by (auto simp: AList.delete_eq)

lemma admit_passes:
  assumes "admit now sd key flags p = (True, p')"
  shows "(sd = Host \<longrightarrow> established now key (prune now p) \<and> \<not> (fl_protocol key = 6 \<and> syn_only flags)) \<and>
    (sd \<noteq> Host \<longrightarrow> established now key (prune now p) \<or>
       length (po_flows (prune now p)) < maxFlows \<and> (fl_protocol key = 6 \<longrightarrow> syn_only flags)) \<and>
    (\<exists>fs. po_flows p' = fs \<and> (fs = AList.update key (time_add now (30 * second)) (po_flows (prune now p)) \<or>
       fs = AList.delete key (AList.update key (time_add now (30 * second)) (po_flows (prune now p)))))"
  using assms by (auto simp: admit_def Let_def not_le split: if_splits)

lemma admit_flows_inv:
  assumes ad: "admit now sd key flags p = (True, p')" and inv: "flows_inv h (po_flows p)"
  shows "flows_inv (\<lparr>pd_now = now, pd_sender = sd, pd_flow = key, pd_flags = flags\<rparr> # h) (po_flows p')"
proof -
  let ?x = "\<lparr>pd_now = now, pd_sender = sd, pd_flow = key, pd_flags = flags\<rparr>"
  let ?fs = "po_flows (prune now p)"
  let ?gs = "AList.update key (time_add now (30 * second)) ?fs"
  note pr = flows_inv_prune [OF inv, of now]
  have cases: "established now key (prune now p) \<or> sd = Initiator \<and> length ?fs < maxFlows \<and> (fl_protocol key = 6 \<longrightarrow> syn_only flags)"
    using admit_passes [OF ad] by (cases sd) auto
  have opened: "\<exists>x\<in>set (?x # h). opener key x"
    using cases
  proof
    assume "established now key (prune now p)"
    then show ?thesis using established_mem pr unfolding flows_inv_def by fastforce
  next
    assume "sd = Initiator \<and> length ?fs < maxFlows \<and> (fl_protocol key = 6 \<longrightarrow> syn_only flags)"
    then show ?thesis by (simp add: opener_def)
  qed
  have len: "length ?gs \<le> maxFlows"
    using cases
  proof
    assume "established now key (prune now p)"
    then have "key \<in> fst ` set ?fs" using established_mem by force
    then show ?thesis using pr by (simp add: length_update flows_inv_def)
  next
    assume "sd = Initiator \<and> length ?fs < maxFlows \<and> (fl_protocol key = 6 \<longrightarrow> syn_only flags)"
    then show ?thesis using pr by (simp add: length_update flows_inv_def)
  qed
  have "flows_inv (?x # h) ?gs"
    unfolding flows_inv_def
  proof (intro conjI ballI)
    show "length ?gs \<le> maxFlows" by (rule len)
  next
    fix fu assume "fu \<in> set ?gs"
    then consider "fu = (key, time_add now (30 * second))" | "fu \<in> set ?fs" using set_update_subset by fastforce
    then show "case fu of (f, until) \<Rightarrow> (\<exists>x\<in>set (?x # h). opener f x) \<and>
        (\<exists>x\<in>set (?x # h). pd_flow x = f \<and> until = time_add (pd_now x) (30 * second))"
    proof cases
      case 1
      then show ?thesis using opened by simp
    next
      case 2
      then show ?thesis using pr unfolding flows_inv_def by fastforce
    qed
  qed
  then show ?thesis
    using admit_passes [OF ad] flows_inv_subset delete_smaller by metis
qed

lemma Allowed_Pass:
  assumes "Allowed s now packet outbound p = (Pass (), p')"
  obtains key flags where "\<not> po_revoked p" "active s now"
    "inspect (se_grant s) (sender_of p outbound) packet = Pass (key, flags)"
    "admit now (sender_of p outbound) key flags p = (True, p')"
  using assms by (auto simp: Allowed_def split: if_splits verdict.splits prod.splits bool.splits)

lemma policy_trace_inv: "policy_trace g h p \<Longrightarrow> flows_inv h (po_flows p)"
proof (induction rule: policy_trace.induct)
  case (created s sd now p)
  then show ?case by (auto simp: NewPolicy_def split: if_splits)
next
  case (revoked h p)
  then show ?case by (simp add: Revoke_def)
next
  case (denied h p s now packet outbound p')
  then have "p' = p \<or> po_flows p' = [] \<or> (\<exists>now. p' = prune now p)"
    by (auto simp: Allowed_def admit_def Let_def split: if_splits verdict.splits prod.splits bool.splits)
  then show ?case using denied flows_inv_prune by auto
next
  case (allowed h p s now packet outbound p' key flags)
  then show ?case using Allowed_Pass [OF allowed.hyps(3)] admit_flows_inv by fastforce
qed

end
