(* ===== verification/P2pMux.thy ===== *)
theory P2pMux
  imports P2pPolicy P2pAuthority
begin

text \<open>
  \<^verbatim>\<open>internal/p2p/mux.go\<close>: one tunnel adapter shared by the gateway peer and the sessions' own WireGuard
  devices. The peer devices are objects known by their number; channels are bounded queues (a send into a
  full one drops the packet). Each method runs under its locks, so it is one step. A read that would block
  is the outcome \<open>Blocked\<close>.
\<close>

section \<open>Data\<close>

record peer_tun =
  tu_peer :: net_addr
  tu_queue :: "byte list list"
  tu_done :: bool

record mux =
  mx_peers :: "(net_addr \<times> nat option) list"
  mx_tuns :: "peer_tun list"
  mx_gateway :: "byte list list"
  mx_done :: bool

datatype mux_error = ErrClosedPipe | PrivatePeerRequired | ReservationLimit | AlreadyAttached | PeerMismatch | ErrShortBuffer
  | ErrEOF | WriteFailed

definition queue_cap :: nat where "queue_cap = 128"

definition NewMuxTUN :: mux where
  "NewMuxTUN = \<lparr>mx_peers = [], mx_tuns = [], mx_gateway = [], mx_done = False\<rparr>"

section \<open>Reservations\<close>

definition Reserve :: "net_addr \<Rightarrow> mux \<Rightarrow> mux_error option \<times> mux" where
  "Reserve peer m =
     (if mx_done m then (Some ErrClosedPipe, m)
      else if \<not> Is4 peer \<or> \<not> private4 peer then (Some PrivatePeerRequired, m)
      else case map_of (mx_peers m) peer of
             Some _ \<Rightarrow> (None, m)
           | None \<Rightarrow>
               if MaxManagedSessions \<le> length (mx_peers m) then (Some ReservationLimit, m)
               else (None, m\<lparr>mx_peers := AList.update peer None (mx_peers m)\<rparr>))"

text \<open>\<open>remote\<close> is the address of the other participant of the policy's session.\<close>

definition Attach :: "net_addr \<Rightarrow> net_addr \<Rightarrow> mux \<Rightarrow> (mux_error + nat) \<times> mux" where
  "Attach peer remote m =
     (case Reserve peer m of
        (Some e, m) \<Rightarrow> (Inl e, m)
      | (None, m) \<Rightarrow>
          if mx_done m then (Inl ErrClosedPipe, m)
          else if (case map_of (mx_peers m) peer of Some (Some _) \<Rightarrow> True | _ \<Rightarrow> False) then (Inl AlreadyAttached, m)
          else if remote \<noteq> peer then (Inl PeerMismatch, m)
          else let t = length (mx_tuns m)
               in (Inr t, m\<lparr>mx_tuns := mx_tuns m @ [\<lparr>tu_peer = peer, tu_queue = [], tu_done = False\<rparr>],
                            mx_peers := AList.update peer (Some t) (mx_peers m)\<rparr>))"

definition policy_remote :: "session \<Rightarrow> policy \<Rightarrow> net_addr" where
  "policy_remote s p = pt_Address (participant_of (se_grant s) (other (po_side p)))"

section \<open>Packets\<close>

definition packetAddresses :: "byte list \<Rightarrow> (addr \<times> addr) option" where
  "packetAddresses p =
     (if length p < 20 then None
      else case (index_at p 0, subslice p 12 16, subslice p 16 20) of
             (Some b, Some src, Some dst) \<Rightarrow>
               if drop_bit 4 b \<noteq> 4 then None else Some (AddrFrom4 src, AddrFrom4 dst)
           | _ \<Rightarrow> None)"

definition reserved :: "mux \<Rightarrow> addr \<Rightarrow> bool" where
  "reserved m a \<longleftrightarrow> map_of (mx_peers m) (V4 a) \<noteq> None"

definition enqueue :: "byte list \<Rightarrow> byte list list \<Rightarrow> byte list list" where
  "enqueue p q = (if length q < queue_cap then q @ [p] else q)"

text \<open>What \<^verbatim>\<open>dispatch\<close> does with one packet read from the adapter.\<close>

definition dispatch :: "byte list \<Rightarrow> mux \<Rightarrow> mux" where
  "dispatch packet m =
     (case packetAddresses packet of
        Some (_, dst) \<Rightarrow>
          (case map_of (mx_peers m) (V4 dst) of
             Some (Some t) \<Rightarrow>
               m\<lparr>mx_tuns := (mx_tuns m)[t := (mx_tuns m ! t)\<lparr>tu_queue := enqueue packet (tu_queue (mx_tuns m ! t))\<rparr>]\<rparr>
           | Some None \<Rightarrow> m
           | None \<Rightarrow> m\<lparr>mx_gateway := enqueue packet (mx_gateway m)\<rparr>)
      | None \<Rightarrow> m\<lparr>mx_gateway := enqueue packet (mx_gateway m)\<rparr>)"

datatype read_outcome = Blocked | Failed mux_error | Got "byte list"

text \<open>\<^verbatim>\<open>readPacket\<close>: \<open>room\<close> is the space of the first buffer behind the offset, \<^const>\<open>None\<close> when there is no
  buffer or the offset is negative. The packet is taken from the queue even when it does not fit.\<close>

definition readPacket :: "byte list list \<Rightarrow> bool \<Rightarrow> int option \<Rightarrow> read_outcome \<times> byte list list" where
  "readPacket queue closed room =
     (case room of
        None \<Rightarrow> (Failed ErrShortBuffer, queue)
      | Some r \<Rightarrow>
          if closed then (Failed ErrEOF, queue)
          else case queue of
                 [] \<Rightarrow> (Blocked, [])
               | p # q \<Rightarrow> if r < 0 \<or> r < int (length p) then (Failed ErrShortBuffer, q) else (Got p, q))"

text \<open>The gateway's \<^verbatim>\<open>Read\<close> skips packets for peers reserved since they were queued.\<close>

fun mux_Read_loop :: "mux \<Rightarrow> int option \<Rightarrow> byte list list \<Rightarrow> read_outcome \<times> byte list list" where
  "mux_Read_loop m room [] = readPacket [] (mx_done m) room"
| "mux_Read_loop m room (p # q) =
     (case readPacket (p # q) (mx_done m) room of
        (Got x, q') \<Rightarrow>
          (case packetAddresses x of
             Some (_, dst) \<Rightarrow> if reserved m dst then mux_Read_loop m room q else (Got x, q')
           | None \<Rightarrow> (Got x, q'))
      | r \<Rightarrow> r)"

definition mux_Read :: "int option \<Rightarrow> mux \<Rightarrow> read_outcome \<times> mux" where
  "mux_Read room m = (case mux_Read_loop m room (mx_gateway m) of (r, q) \<Rightarrow> (r, m\<lparr>mx_gateway := q\<rparr>))"

text \<open>The gateway's \<^verbatim>\<open>Write\<close>: the packets that reach the adapter.\<close>

fun mux_Write :: "(byte list \<Rightarrow> bool) \<Rightarrow> int \<Rightarrow> byte list list \<Rightarrow> mux \<Rightarrow> mux_error option \<times> byte list list" where
  "mux_Write fails offset [] m = (None, [])"
| "mux_Write fails offset (b # bs) m =
     (if offset < 0 \<or> int (length b) < offset then (Some ErrShortBuffer, [])
      else let x = drop (nat offset) b
           in if (case packetAddresses x of Some (src, _) \<Rightarrow> reserved m src | None \<Rightarrow> False)
              then mux_Write fails offset bs m
              else if fails x then (Some WriteFailed, [])
              else case mux_Write fails offset bs m of (e, out) \<Rightarrow> (e, x # out))"

section \<open>The peers' devices\<close>

definition tun_stop :: "peer_tun \<Rightarrow> peer_tun" where
  "tun_stop t = t\<lparr>tu_done := True\<rparr>"

definition tun_Read :: "int option \<Rightarrow> nat \<Rightarrow> mux \<Rightarrow> read_outcome \<times> mux" where
  "tun_Read room i m =
     (let t = mx_tuns m ! i
      in case readPacket (tu_queue t) (tu_done t) room of
           (r, q) \<Rightarrow> (r, m\<lparr>mx_tuns := (mx_tuns m)[i := t\<lparr>tu_queue := q\<rparr>]\<rparr>))"

definition tun_Write :: "nat \<Rightarrow> mux \<Rightarrow> mux_error option" where
  "tun_Write i m = (if tu_done (mx_tuns m ! i) then Some ErrClosedPipe else None)"

definition tun_Close :: "nat \<Rightarrow> mux \<Rightarrow> mux" where
  "tun_Close i m =
     (let t = mx_tuns m ! i; m = m\<lparr>mx_tuns := (mx_tuns m)[i := tun_stop t]\<rparr>
      in if map_of (mx_peers m) (tu_peer t) = Some (Some i)
         then m\<lparr>mx_peers := AList.update (tu_peer t) None (mx_peers m)\<rparr> else m)"

definition tun_MTU :: "int \<Rightarrow> int" where
  "tun_MTU mtu = (if 1280 < mtu then 1280 else mtu)"

definition signalClose :: "mux \<Rightarrow> mux" where
  "signalClose m =
     (if mx_done m then m
      else m\<lparr>mx_done := True,
             mx_tuns := map (\<lambda>(i, t). if (\<exists>peer. (peer, Some i) \<in> set (mx_peers m)) then tun_stop t else t)
               (enumerate 0 (mx_tuns m))\<rparr>)"

section \<open>Steps\<close>

inductive mux_step :: "mux \<Rightarrow> mux \<Rightarrow> bool" where
  reserve: "mux_step m (snd (Reserve peer m))"
| attach: "mux_step m (snd (Attach peer remote m))"
| dispatch: "mux_step m (dispatch packet m)"
| gateway_read: "mux_step m (snd (mux_Read room m))"
| peer_read: "i < length (mx_tuns m) \<Longrightarrow> mux_step m (snd (tun_Read room i m))"
| peer_close: "i < length (mx_tuns m) \<Longrightarrow> mux_step m (tun_Close i m)"
| close: "mux_step m (signalClose m)"

inductive mux_run :: "mux \<Rightarrow> mux \<Rightarrow> bool" where
  none: "mux_run m m"
| more: "mux_run m m1 \<Longrightarrow> mux_step m1 m2 \<Longrightarrow> mux_run m m2"

text \<open>Attached devices exist and serve their own peer, and hold only packets for it.\<close>

definition packet_for :: "net_addr \<Rightarrow> byte list \<Rightarrow> bool" where
  "packet_for peer x \<longleftrightarrow> (\<exists>src dst. packetAddresses x = Some (src, dst) \<and> V4 dst = peer)"

definition mux_ok :: "mux \<Rightarrow> bool" where
  "mux_ok m \<longleftrightarrow>
     length (mx_peers m) \<le> MaxManagedSessions \<and> length (mx_gateway m) \<le> queue_cap \<and>
     (\<forall>peer t. map_of (mx_peers m) peer = Some (Some t) \<longrightarrow> t < length (mx_tuns m) \<and> tu_peer (mx_tuns m ! t) = peer) \<and>
     (\<forall>t\<in>set (mx_tuns m). length (tu_queue t) \<le> queue_cap \<and> (\<forall>x\<in>set (tu_queue t). packet_for (tu_peer t) x)) \<and>
     (\<forall>peer\<in>fst ` set (mx_peers m). Is4 peer \<and> private4 peer)"

section \<open>Facts\<close>

lemma Reserve_cases:
  assumes "Reserve peer m = (e, m')"
  shows "m' = m \<or> (map_of (mx_peers m) peer = None \<and> length (mx_peers m) < MaxManagedSessions \<and> Is4 peer \<and> private4 peer \<and>
      m' = m\<lparr>mx_peers := AList.update peer None (mx_peers m)\<rparr>)"
  using assms by (auto simp: Reserve_def not_le split: if_splits option.splits)

lemma Reserve_reserved: "Reserve peer m = (None, m') \<Longrightarrow> map_of (mx_peers m') peer \<noteq> None"
  by (auto simp: Reserve_def split: if_splits option.splits)

lemma Attach_cases:
  assumes "Attach peer remote m = (r, m')"
  obtains e m1 where "Reserve peer m = (e, m1)" "m' = m1"
  | m1 t where "Reserve peer m = (None, m1)" "t = length (mx_tuns m1)"
    "m' = m1\<lparr>mx_tuns := mx_tuns m1 @ [\<lparr>tu_peer = peer, tu_queue = [], tu_done = False\<rparr>],
             mx_peers := AList.update peer (Some t) (mx_peers m1)\<rparr>"
proof -
  obtain e m1 where r: "Reserve peer m = (e, m1)" by fastforce
  have "m' = m1 \<or> e = None \<and> m' = m1\<lparr>mx_tuns := mx_tuns m1 @ [\<lparr>tu_peer = peer, tu_queue = [], tu_done = False\<rparr>],
             mx_peers := AList.update peer (Some (length (mx_tuns m1))) (mx_peers m1)\<rparr>"
    using assms r by (auto simp: Attach_def Let_def split: option.splits if_splits)
  then show ?thesis using that r by blast
qed

text \<open>Reservations stay.\<close>

lemma step_keeps_reservation:
  assumes "mux_step m m'" and "map_of (mx_peers m) peer \<noteq> None"
  shows "map_of (mx_peers m') peer \<noteq> None"
  using assms(1)
proof cases
  case (reserve p)
  then show ?thesis using assms(2) Reserve_cases [of p m] by (metis fun_upd_apply map_of_update mux.select_convs(1) mux.surjective mux.update_convs(1) option.distinct(1) prod.collapse)
next
  case (attach p remote)
  obtain r m1 where a: "Attach p remote m = (r, m1)" by fastforce
  have keep: "map_of (mx_peers m2) peer \<noteq> None" if "Reserve p m = (e, m2)" for e m2
    using Reserve_cases [OF that] assms(2) by auto
  show ?thesis
    using a
  proof (cases rule: Attach_cases)
    case (1 e m2)
    then show ?thesis using keep a attach by simp
  next
    case (2 m2 t)
    then show ?thesis using keep [OF 2(1)] a attach by simp
  qed
qed (use assms(2) in \<open>auto simp: dispatch_def mux_Read_def tun_Read_def tun_Close_def signalClose_def Let_def
    split: option.splits prod.splits\<close>)

lemma run_keeps_reservation: "mux_run m m' \<Longrightarrow> map_of (mx_peers m) peer \<noteq> None \<Longrightarrow> map_of (mx_peers m') peer \<noteq> None"
  by (induction rule: mux_run.induct) (use step_keeps_reservation in blast)+

lemma mux_Read_loop_Got:
  "mux_Read_loop m room q = (Got x, q') \<Longrightarrow> packetAddresses x = Some (src, dst) \<Longrightarrow> \<not> reserved m dst"
proof (induction q)
  case Nil
  then show ?case by (auto simp: readPacket_def split: option.splits if_splits)
next
  case (Cons p q)
  then show ?case by (auto split: prod.splits read_outcome.splits option.splits if_splits)
qed

lemma mux_Write_out: "mux_Write fails offset bs m = (e, out) \<Longrightarrow> x \<in> set out \<Longrightarrow> packetAddresses x = Some (src, dst) \<Longrightarrow> \<not> reserved m src"
proof (induction bs arbitrary: e out)
  case (Cons b bs)
  then show ?case by (fastforce simp: Let_def split: if_splits option.splits prod.splits)
qed simp

section \<open>The invariant\<close>

lemma enqueue_props: "length q \<le> queue_cap \<Longrightarrow> length (enqueue p q) \<le> queue_cap" "set (enqueue p q) \<subseteq> insert p (set q)"
  by (auto simp: enqueue_def)

lemma readPacket_shrinks:
  assumes "readPacket q c room = (r, q')"
  shows "set q' \<subseteq> set q \<and> length q' \<le> length q \<and> (\<forall>x. r = Got x \<longrightarrow> x \<in> set q)"
  using assms by (auto simp: readPacket_def split: option.splits if_splits list.splits)

lemma mux_Read_loop_shrinks: "mux_Read_loop m room q = (r, q') \<Longrightarrow> length q' \<le> length q"
proof (induction q)
  case Nil
  then show ?case using readPacket_shrinks [of "[]"] by auto
next
  case (Cons p q)
  obtain r1 q1 where rp: "readPacket (p # q) (mx_done m) room = (r1, q1)" by fastforce
  then have "length q1 \<le> length (p # q)" using readPacket_shrinks [OF rp] by simp
  then show ?case
    using Cons rp by (auto split: read_outcome.splits option.splits if_splits)
qed

lemma mux_ok_new: "mux_ok NewMuxTUN"
  by (simp add: mux_ok_def NewMuxTUN_def)

lemma mux_ok_reserve:
  assumes "mux_ok m" and "Reserve peer m = (e, m')"
  shows "mux_ok m'"
  using Reserve_cases [OF assms(2)]
proof
  assume "m' = m"
  then show ?thesis using assms(1) by simp
next
  assume a: "map_of (mx_peers m) peer = None \<and> length (mx_peers m) < MaxManagedSessions \<and> Is4 peer \<and> private4 peer \<and>
      m' = m\<lparr>mx_peers := AList.update peer None (mx_peers m)\<rparr>"
  then have "length (AList.update peer None (mx_peers m)) \<le> MaxManagedSessions"
    using length_update_le [of peer None "mx_peers m"] by linarith
  moreover have "fst ` set (AList.update peer None (mx_peers m)) = insert peer (fst ` set (mx_peers m))" by (rule update_keys)
  ultimately show ?thesis using assms(1) a unfolding mux_ok_def by auto
qed

lemma mux_ok_attach:
  assumes ok: "mux_ok m" and a: "Attach peer remote m = (r, m')"
  shows "mux_ok m'"
  using a
proof (cases rule: Attach_cases)
  case (1 e m1)
  then show ?thesis using mux_ok_reserve [OF ok] by simp
next
  case (2 m1 t)
  have ok1: "mux_ok m1" by (rule mux_ok_reserve [OF ok 2(1)])
  have "peer \<in> fst ` set (mx_peers m1)" using Reserve_reserved [OF 2(1)] by (metis map_of_eq_None_iff)
  then have keys: "fst ` set (AList.update peer (Some t) (mx_peers m1)) = fst ` set (mx_peers m1)"
    and len: "length (AList.update peer (Some t) (mx_peers m1)) = length (mx_peers m1)"
    by (auto simp: update_keys length_update)
  show ?thesis
    using ok1 keys len unfolding mux_ok_def 2(2,3) by (auto simp: nth_append less_Suc_eq)
qed

lemma mux_ok_dispatch:
  assumes ok: "mux_ok m"
  shows "mux_ok (dispatch packet m)"
proof -
  have gw: "mux_ok (m\<lparr>mx_gateway := enqueue packet (mx_gateway m)\<rparr>)"
    using ok enqueue_props(1) by (auto simp: mux_ok_def)
  have tun: "mux_ok (m\<lparr>mx_tuns := (mx_tuns m)[t := (mx_tuns m ! t)\<lparr>tu_queue := enqueue packet (tu_queue (mx_tuns m ! t))\<rparr>]\<rparr>)"
    if pa: "packetAddresses packet = Some (src, dst)" and pt: "map_of (mx_peers m) (V4 dst) = Some (Some t)" for src dst t
  proof -
    let ?t = "(mx_tuns m ! t)\<lparr>tu_queue := enqueue packet (tu_queue (mx_tuns m ! t))\<rparr>"
    have t: "t < length (mx_tuns m)" "tu_peer (mx_tuns m ! t) = V4 dst" using ok pt by (auto simp: mux_ok_def)
    then have old: "length (tu_queue (mx_tuns m ! t)) \<le> queue_cap" "\<forall>x\<in>set (tu_queue (mx_tuns m ! t)). packet_for (V4 dst) x"
      using ok unfolding mux_ok_def by (metis nth_mem)+
    have "packet_for (V4 dst) packet" using pa by (simp add: packet_for_def)
    then have new: "length (tu_queue ?t) \<le> queue_cap" "\<forall>x\<in>set (tu_queue ?t). packet_for (tu_peer ?t) x"
      using old enqueue_props(1) [of "tu_queue (mx_tuns m ! t)" packet] enqueue_props(2) [of packet "tu_queue (mx_tuns m ! t)"] t by auto
    have "\<forall>u\<in>set ((mx_tuns m)[t := ?t]). length (tu_queue u) \<le> queue_cap \<and> (\<forall>x\<in>set (tu_queue u). packet_for (tu_peer u) x)"
      using ok new set_update_subset_insert [of "mx_tuns m" t ?t] unfolding mux_ok_def by blast
    moreover have "tu_peer ((mx_tuns m)[t := ?t] ! i) = tu_peer (mx_tuns m ! i)" for i
      using t(1) by (cases "i = t") auto
    ultimately show ?thesis using ok unfolding mux_ok_def by simp
  qed
  show ?thesis
    using ok gw tun by (auto simp: dispatch_def split: option.splits)
qed

lemma mux_ok_tun:
  assumes ok: "mux_ok m" and i: "i < length (mx_tuns m)"
    and q: "tu_peer t = tu_peer (mx_tuns m ! i)" "set (tu_queue t) \<subseteq> set (tu_queue (mx_tuns m ! i))"
      "length (tu_queue t) \<le> length (tu_queue (mx_tuns m ! i))"
  shows "mux_ok (m\<lparr>mx_tuns := (mx_tuns m)[i := t]\<rparr>)"
proof -
  have old: "length (tu_queue (mx_tuns m ! i)) \<le> queue_cap" "\<forall>x\<in>set (tu_queue (mx_tuns m ! i)). packet_for (tu_peer (mx_tuns m ! i)) x"
    using ok i unfolding mux_ok_def by (metis nth_mem)+
  have "\<forall>u\<in>set ((mx_tuns m)[i := t]). length (tu_queue u) \<le> queue_cap \<and> (\<forall>x\<in>set (tu_queue u). packet_for (tu_peer u) x)"
  proof
    fix u assume "u \<in> set ((mx_tuns m)[i := t])"
    then have "u = t \<or> u \<in> set (mx_tuns m)" using set_update_subset_insert by fastforce
    then show "length (tu_queue u) \<le> queue_cap \<and> (\<forall>x\<in>set (tu_queue u). packet_for (tu_peer u) x)"
      using ok old q unfolding mux_ok_def by auto
  qed
  moreover have "tu_peer ((mx_tuns m)[i := t] ! j) = tu_peer (mx_tuns m ! j)" for j
    using q(1) i by (cases "j = i") auto
  ultimately show ?thesis using ok unfolding mux_ok_def by simp
qed

lemma mux_ok_close:
  assumes ok: "mux_ok m"
  shows "mux_ok (signalClose m)"
proof -
  let ?f = "\<lambda>(i, t). if (\<exists>peer. (peer, Some i) \<in> set (mx_peers m)) then tun_stop t else t"
  let ?ts = "map ?f (enumerate 0 (mx_tuns m))"
  have nth: "?ts ! i = (if (\<exists>peer. (peer, Some i) \<in> set (mx_peers m)) then tun_stop (mx_tuns m ! i) else mx_tuns m ! i)"
    if "i < length (mx_tuns m)" for i
    using that by (simp add: nth_enumerate_eq)
  have same: "tu_peer (?ts ! i) = tu_peer (mx_tuns m ! i) \<and> tu_queue (?ts ! i) = tu_queue (mx_tuns m ! i)"
    if "i < length (mx_tuns m)" for i
    using nth [OF that] by (simp add: tun_stop_def)
  have all: "\<forall>t\<in>set ?ts. length (tu_queue t) \<le> queue_cap \<and> (\<forall>x\<in>set (tu_queue t). packet_for (tu_peer t) x)"
  proof
    fix t assume "t \<in> set ?ts"
    then obtain i where "i < length ?ts" "?ts ! i = t" by (meson in_set_conv_nth)
    then have i: "i < length (mx_tuns m)" by simp
    then have "mx_tuns m ! i \<in> set (mx_tuns m)" by simp
    then have "length (tu_queue (mx_tuns m ! i)) \<le> queue_cap \<and> (\<forall>x\<in>set (tu_queue (mx_tuns m ! i)). packet_for (tu_peer (mx_tuns m ! i)) x)"
      using ok unfolding mux_ok_def by blast
    then show "length (tu_queue t) \<le> queue_cap \<and> (\<forall>x\<in>set (tu_queue t). packet_for (tu_peer t) x)"
      using same [OF i] \<open>?ts ! i = t\<close> by simp
  qed
  have "mux_ok (m\<lparr>mx_done := True, mx_tuns := ?ts\<rparr>)"
    using ok all same unfolding mux_ok_def by simp
  then show ?thesis using ok unfolding signalClose_def by simp
qed

lemma mux_ok_step:
  assumes ok: "mux_ok m" and "mux_step m m'"
  shows "mux_ok m'"
  using assms(2)
proof cases
  case (reserve peer)
  then show ?thesis using mux_ok_reserve [OF ok, of peer] by (cases "Reserve peer m") auto
next
  case (attach peer remote)
  then show ?thesis using mux_ok_attach [OF ok, of peer remote] by (cases "Attach peer remote m") auto
next
  case (dispatch packet)
  then show ?thesis using mux_ok_dispatch [OF ok] by simp
next
  case (gateway_read room)
  obtain r q where q: "mux_Read_loop m room (mx_gateway m) = (r, q)" by fastforce
  then show ?thesis
    using gateway_read ok mux_Read_loop_shrinks [OF q] by (auto simp: mux_Read_def mux_ok_def)
next
  case (peer_read i room)
  obtain r q where q: "readPacket (tu_queue (mx_tuns m ! i)) (tu_done (mx_tuns m ! i)) room = (r, q)" by fastforce
  then show ?thesis
    using peer_read mux_ok_tun [OF ok peer_read(2), of "(mx_tuns m ! i)\<lparr>tu_queue := q\<rparr>"] readPacket_shrinks [OF q]
    by (simp add: tun_Read_def Let_def)
next
  case (peer_close i)
  let ?t = "mx_tuns m ! i"
  have ok1: "mux_ok (m\<lparr>mx_tuns := (mx_tuns m)[i := tun_stop ?t]\<rparr>)"
    by (rule mux_ok_tun [OF ok peer_close(2)]) (simp_all add: tun_stop_def)
  show ?thesis
  proof (cases "map_of (mx_peers m) (tu_peer ?t) = Some (Some i)")
    case True
    then have "tu_peer ?t \<in> fst ` set (mx_peers m)" by (metis map_of_eq_None_iff option.distinct(1))
    then have "fst ` set (AList.update (tu_peer ?t) None (mx_peers m)) = fst ` set (mx_peers m)"
      "length (AList.update (tu_peer ?t) None (mx_peers m)) = length (mx_peers m)"
      by (auto simp: update_keys length_update)
    then show ?thesis using ok1 True unfolding peer_close(1) tun_Close_def mux_ok_def by (auto simp: Let_def)
  next
    case False
    then show ?thesis using ok1 peer_close by (simp add: tun_Close_def)
  qed
next
  case close
  then show ?thesis using mux_ok_close [OF ok] by simp
qed

lemma mux_ok_run: "mux_run m m' \<Longrightarrow> mux_ok m \<Longrightarrow> mux_ok m'"
  by (induction rule: mux_run.induct) (auto intro: mux_ok_step)

end
