(* ===== verification/P2pAuthorityLemmas.thy ===== *)
theory P2pAuthorityLemmas
  imports P2pAuthority
begin

text \<open>
  The invariant of the policy store and what each of its operations does to the stored state.
\<close>

section \<open>The stored state\<close>

definition hex_id :: "string \<Rightarrow> bool" where
  "hex_id s \<longleftrightarrow> (\<exists>b. s = hex_encode b)"

text \<open>A state in which the trust is \<open>tr\<close> and the other fields are as the store leaves them.\<close>

definition valid_state :: "trust \<Rightarrow> policy_state \<Rightarrow> bool" where
  "valid_state tr st \<longleftrightarrow>
     ps_Version st = 1 \<and> ps_Trust st = tr \<and>
     (\<exists>d. ps_Denied st = Some d \<and> length d \<le> maxDenied \<and> keys_distinct d \<and> (\<forall>k\<in>fst ` set d. hex_id k)) \<and>
     length (ps_Reserved st) \<le> MaxManagedSessions \<and> (\<forall>ip\<in>set (ps_Reserved st). Is4 ip \<and> private4 ip) \<and>
     distinct (ps_Reserved st)"

abbreviation denied_map :: "policy_state \<Rightarrow> string \<rightharpoonup> int" where
  "denied_map st \<equiv> map_of (the (ps_Denied st))"

text \<open>Equal up to the order in which the denied sessions are listed.\<close>

definition same_state :: "policy_state \<Rightarrow> policy_state \<Rightarrow> bool" where
  "same_state st st' \<longleftrightarrow>
     st' = st\<lparr>ps_Denied := ps_Denied st'\<rparr> \<and> (\<exists>d'. ps_Denied st' = Some d' \<and> keys_distinct d') \<and> denied_map st' = denied_map st"

text \<open>What the store relies on of the JSON codec: a state with this trust and hexadecimal identifiers is read back
  as it was written.\<close>

definition state_codec_ok :: "('x) authority_env_scheme \<Rightarrow> trust \<Rightarrow> bool" where
  "state_codec_ok env tr \<longleftrightarrow>
     (\<forall>st. valid_state tr st \<longrightarrow>
        (\<exists>st'. decodeStrict (ae_state env) (ae_put_state env st) = Inr st' \<and> same_state st st'))"

definition db_ok :: "('x) authority_env_scheme \<Rightarrow> trust \<Rightarrow> policy_db \<Rightarrow> policy_state \<Rightarrow> bool" where
  "db_ok env tr db st \<longleftrightarrow> policy_state_of env tr db = Inr st \<and> valid_state tr st"

lemma same_map_length:
  assumes "keys_distinct d" and "keys_distinct d'" and "map_of d' = map_of d"
  shows "length d' = length d" and "fst ` set d' = fst ` set d"
proof -
  show k: "fst ` set d' = fst ` set d" using assms(3) by (metis dom_map_of_conv_image_fst)
  then show "length d' = length d"
    using assms(1,2) unfolding keys_distinct_def by (metis distinct_card length_map set_map)
qed

lemma same_state_valid:
  assumes "valid_state tr st" and "same_state st st'"
  shows "valid_state tr st'"
proof -
  obtain d where d: "ps_Denied st = Some d" "length d \<le> maxDenied" "keys_distinct d" "\<forall>k\<in>fst ` set d. hex_id k"
    using assms(1) unfolding valid_state_def by blast
  obtain d' where d': "ps_Denied st' = Some d'" "keys_distinct d'" "map_of d' = map_of d"
    using assms(2) d(1) unfolding same_state_def by auto
  have s: "st' = st\<lparr>ps_Denied := Some d'\<rparr>" using assms(2) d'(1) unfolding same_state_def by metis
  have "\<forall>k\<in>fst ` set d'. hex_id k" using d(4) same_map_length(2) [OF d(3) d'(2,3)] by (simp only:)
  then show ?thesis
    using assms(1) d d' same_map_length(1) [OF d(3) d'(2,3)] unfolding valid_state_def s by simp
qed

lemma same_stateD:
  assumes "same_state st st'"
  shows "ps_Revision st' = ps_Revision st" "ps_IssuedAt st' = ps_IssuedAt st" "ps_Reserved st' = ps_Reserved st"
    "denied_map st' = denied_map st"
proof -
  obtain d' where s: "st' = st\<lparr>ps_Denied := d'\<rparr>" using assms unfolding same_state_def by blast
  show "ps_Revision st' = ps_Revision st" "ps_IssuedAt st' = ps_IssuedAt st" "ps_Reserved st' = ps_Reserved st"
    by (simp_all add: s)
  show "denied_map st' = denied_map st" using assms unfolding same_state_def by blast
qed

lemma put_state:
  assumes "state_codec_ok env tr" and "valid_state tr st"
  obtains st' where "db_ok env tr (putPolicyState env st) st'" "same_state st st'"
proof -
  obtain st' where st': "decodeStrict (ae_state env) (ae_put_state env st) = Inr st'" "same_state st st'"
    using assms unfolding state_codec_ok_def by blast
  have v: "valid_state tr st'" by (rule same_state_valid [OF assms(2) st'(2)])
  then have "policy_state_of env tr (putPolicyState env st) = Inr st'"
    using st'(1) unfolding valid_state_def policy_state_of_def putPolicyState_def by auto
  then show ?thesis using that v st'(2) unfolding db_ok_def by blast
qed

lemma map_of_unexpired:
  assumes "keys_distinct d"
  shows "map_of (unexpired clock d) k = (case map_of d k of None \<Rightarrow> None | Some e \<Rightarrow> if e \<le> unix_of (clock k) then None else Some e)"
  using assms
proof (induction d)
  case (Cons x d)
  obtain i e where x: "x = (i, e)" by fastforce
  have "map_of d i = None" using Cons.prems x by (auto simp: keys_distinct_def map_of_eq_None_iff)
  then show ?case using Cons x by (auto simp: unexpired_def keys_distinct_def)
qed (simp add: unexpired_def)

lemma unexpired_props:
  "keys_distinct d \<Longrightarrow> keys_distinct (unexpired clock d)" "length (unexpired clock d) \<le> length d"
  "fst ` set (unexpired clock d) \<subseteq> fst ` set d"
  by (auto simp: unexpired_def keys_distinct_def distinct_map_filter)

section \<open>The transactions\<close>

lemma track_tx_ok:
  assumes codec: "state_codec_ok env tr" and db: "db_ok env tr db st" and tx: "track_tx env now tr g db = Inr db'"
    and g: "participant_ok (participant_of g Initiator)" "participant_ok (participant_of g Host)"
  obtains st' where "db_ok env tr db' st'" "ps_Revision st' = ps_Revision st" "ps_IssuedAt st' = ps_IssuedAt st"
    "denied_map st' = denied_map st" "denied_at st (gr_SessionID g) \<le> unix_of now"
proof -
  have e: "policy_state_of env tr db = Inr st" and v: "valid_state tr st" using db by (auto simp: db_ok_def)
  have d: "denied_at st (gr_SessionID g) \<le> unix_of now" using tx by (auto simp: track_tx_def e split: if_splits)
  show ?thesis
  proof (cases "remote_address tr g \<in> set (ps_Reserved st)")
    case True
    then have "db' = db" using tx d by (simp add: track_tx_def e split: if_splits)
    then show ?thesis using that db d by blast
  next
    case False
    let ?st = "st\<lparr>ps_Reserved := ps_Reserved st @ [remote_address tr g]\<rparr>"
    have len: "length (ps_Reserved st) < MaxManagedSessions" and db': "db' = putPolicyState env ?st"
      using tx d False by (auto simp: track_tx_def e not_le split: if_splits)
    have "Is4 (remote_address tr g) \<and> private4 (remote_address tr g)"
      using g by (auto simp: remote_address_def participant_ok_def)
    then have "valid_state tr ?st" using v False len unfolding valid_state_def by auto
    then obtain st' where "db_ok env tr db' st'" "same_state ?st st'" using put_state [OF codec] db' by blast
    moreover note same_stateD [OF this(2)]
    ultimately show ?thesis using that d by simp
  qed
qed


lemma stop_tx_ok:
  assumes codec: "state_codec_ok env tr" and db: "db_ok env tr db st" and tx: "stop_tx env clock tr sid s db = Inr db'"
    and sid: "hex_id sid"
  obtains st' where "db_ok env tr db' st'" "ps_Revision st' = ps_Revision st" "ps_IssuedAt st' = ps_IssuedAt st"
    "denied_map st' = (map_of (unexpired clock (the (ps_Denied st))))(sid \<mapsto> gr_ExpiresAt (se_grant s))"
proof -
  obtain d where d: "ps_Denied st = Some d" "keys_distinct d" "\<forall>k\<in>fst ` set d. hex_id k"
    using db unfolding db_ok_def valid_state_def by blast
  let ?d = "AList.update sid (gr_ExpiresAt (se_grant s)) (unexpired clock d)"
  have len: "length (unexpired clock d) < maxDenied" and db': "db' = putPolicyState env (st\<lparr>ps_Denied := Some ?d\<rparr>)"
    using tx db d(1) by (auto simp: stop_tx_def db_ok_def Let_def not_le split: if_splits)
  have "\<forall>k\<in>fst ` set ?d. hex_id k"
  proof
    fix k assume "k \<in> fst ` set ?d"
    then have "k = sid \<or> k \<in> fst ` set d"
      unfolding update_keys using unexpired_props(3) [of clock d] by blast
    then show "hex_id k" using sid d(3) by blast
  qed
  moreover have "length ?d \<le> maxDenied" using length_update_le [of sid _ "unexpired clock d"] len by (metis Suc_leI le_trans)
  ultimately have "valid_state tr (st\<lparr>ps_Denied := Some ?d\<rparr>)"
    using db d unexpired_props(1) unfolding db_ok_def valid_state_def by simp
  then obtain st' where st': "db_ok env tr db' st'" "same_state (st\<lparr>ps_Denied := Some ?d\<rparr>) st'"
    using put_state [OF codec] db' by blast
  show ?thesis using that [OF st'(1)] same_stateD [OF st'(2)] d(1) by simp
qed

definition deny_rest :: "string list \<Rightarrow> (string \<times> session) list \<Rightarrow> (string \<times> int) list \<Rightarrow> (string \<times> int) list" where
  "deny_rest allowed ss d =
     fold (\<lambda>(sid, s) d. if sid \<in> set allowed then d else AList.update sid (gr_ExpiresAt (se_grant s)) d) ss d"

lemma deny_rest_map:
  "keys_distinct ss \<Longrightarrow> map_of (deny_rest allowed ss d) k =
     (if k \<in> set allowed then map_of d k
      else case map_of ss k of Some s \<Rightarrow> Some (gr_ExpiresAt (se_grant s)) | None \<Rightarrow> map_of d k)"
proof (induction ss arbitrary: d)
  case (Cons x ss)
  obtain sid s where x: "x = (sid, s)" by fastforce
  have "map_of ss sid = None" using Cons.prems x by (auto simp: keys_distinct_def map_of_eq_None_iff)
  then show ?case
    using Cons x by (auto simp: deny_rest_def keys_distinct_def split: option.splits)
qed (simp add: deny_rest_def)

lemma deny_rest_props:
  "keys_distinct d \<Longrightarrow> keys_distinct (deny_rest allowed ss d)"
  "fst ` set (deny_rest allowed ss d) \<subseteq> fst ` set d \<union> fst ` set ss"
proof -
  show "keys_distinct d \<Longrightarrow> keys_distinct (deny_rest allowed ss d)"
    unfolding deny_rest_def by (induction ss arbitrary: d) auto
  show "fst ` set (deny_rest allowed ss d) \<subseteq> fst ` set d \<union> fst ` set ss"
  proof (induction ss arbitrary: d)
    case (Cons x ss)
    obtain sid s where x: "x = (sid, s)" by fastforce
    show ?case
      using Cons.IH [of d] Cons.IH [of "AList.update sid (gr_ExpiresAt (se_grant s)) d"] x
      unfolding update_keys by (auto simp: deny_rest_def)
  qed (simp add: deny_rest_def)
qed

lemma apply_tx_ok:
  assumes codec: "state_codec_ok env tr" and db: "db_ok env tr db st"
    and tx: "apply_checkpoint_tx env now tr ss c allowed db = Inr db'"
    and ss: "keys_distinct ss" "\<forall>k\<in>fst ` set ss. hex_id k"
  obtains st' where "db_ok env tr db' st'" "ps_Revision st < ps_Revision st'" "ps_Revision st' = cp_Revision c"
    "ps_IssuedAt st \<le> ps_IssuedAt st'" "ps_IssuedAt st' = cp_IssuedAt c"
    "\<And>k. denied_map st' k = (if k \<in> set allowed then map_of (unexpired (\<lambda>_. now) (the (ps_Denied st))) k
       else case map_of ss k of Some s \<Rightarrow> Some (gr_ExpiresAt (se_grant s))
            | None \<Rightarrow> map_of (unexpired (\<lambda>_. now) (the (ps_Denied st))) k)"
    "\<And>k e. k \<in> set allowed \<Longrightarrow> k \<in> fst ` set ss \<Longrightarrow> denied_map st k = Some e \<Longrightarrow> e \<le> unix_of now"
proof -
  obtain d where d: "ps_Denied st = Some d" "keys_distinct d" "\<forall>k\<in>fst ` set d. hex_id k"
    using db unfolding db_ok_def valid_state_def by blast
  let ?u = "unexpired (\<lambda>_. now) d"
  let ?d = "deny_rest allowed ss ?u"
  let ?st = "st\<lparr>ps_Denied := Some ?d, ps_Revision := cp_Revision c, ps_IssuedAt := cp_IssuedAt c\<rparr>"
  have fresh: "ps_Revision st < cp_Revision c" "ps_IssuedAt st \<le> cp_IssuedAt c"
    and ok: "\<not> (\<exists>(sid, s)\<in>set ss. sid \<in> set allowed \<and> unix_of now < denied_at (st\<lparr>ps_Denied := Some ?u\<rparr>) sid)"
    and len: "length ?d \<le> maxDenied" and db': "db' = putPolicyState env ?st"
    using tx db d(1) by (auto simp: apply_checkpoint_tx_def db_ok_def deny_rest_def Let_def not_le not_less split: if_splits)
  have hex: "\<forall>k\<in>fst ` set ?d. hex_id k"
    using deny_rest_props(2) [of allowed ss ?u] unexpired_props(3) [of "\<lambda>_. now" d] d(3) ss(2) by blast
  have "valid_state tr ?st"
    using db hex len deny_rest_props(1) unexpired_props(1) [OF d(2)] unfolding db_ok_def valid_state_def by simp
  then obtain st' where st': "db_ok env tr db' st'" "same_state ?st st'" using put_state [OF codec] db' by blast
  show ?thesis
  proof (rule that [OF st'(1)])
    show "ps_Revision st < ps_Revision st'" "ps_Revision st' = cp_Revision c" "ps_IssuedAt st \<le> ps_IssuedAt st'"
      "ps_IssuedAt st' = cp_IssuedAt c"
      using same_stateD [OF st'(2)] fresh by simp_all
    show "denied_map st' k = (if k \<in> set allowed then map_of (unexpired (\<lambda>_. now) (the (ps_Denied st))) k
       else case map_of ss k of Some s \<Rightarrow> Some (gr_ExpiresAt (se_grant s))
            | None \<Rightarrow> map_of (unexpired (\<lambda>_. now) (the (ps_Denied st))) k)" for k
      using same_stateD(4) [OF st'(2)] deny_rest_map [OF ss(1), of allowed ?u k] unfolding d(1) option.sel by simp
    show "e \<le> unix_of now" if "k \<in> set allowed" "k \<in> fst ` set ss" "denied_map st k = Some e" for k e
    proof (rule ccontr)
      assume n: "\<not> e \<le> unix_of now"
      then have "map_of ?u k = Some e" using that(3) d by (simp add: map_of_unexpired)
      then have "unix_of now < denied_at (st\<lparr>ps_Denied := Some ?u\<rparr>) k" using n by (simp add: denied_at_def)
      then show False using ok that(1,2) by force
    qed
  qed
qed

section \<open>The invariant\<close>

definition session_ok :: "trust \<Rightarrow> u64 \<Rightarrow> string \<times> session \<Rightarrow> bool" where
  "session_ok tr floor x \<longleftrightarrow>
     (case x of (sid, s) \<Rightarrow> sid = gr_SessionID (se_grant s) \<and> hex_id sid \<and> se_managed s \<and>
        gr_ClusterID (se_grant s) = tr_ClusterID tr \<and>
        (\<exists>sd. pt_DeviceID (participant_of (se_grant s) sd) = tr_DeviceID tr) \<and>
        (se_authorization s \<noteq> None \<longrightarrow> gr_Revision (se_grant s) \<le> floor))"

definition store_ok :: "('x) authority_env_scheme \<Rightarrow> policy_store \<Rightarrow> policy_state \<Rightarrow> bool" where
  "store_ok env p st \<longleftrightarrow>
     db_ok env (ap_trust p) (ap_db p) st \<and> keys_distinct (ap_sessions p) \<and>
     length (ap_sessions p) \<le> MaxManagedSessions \<and> (\<forall>x\<in>set (ap_sessions p). session_ok (ap_trust p) (ps_Revision st) x)"

text \<open>One operation of the store, with every reading of the clock satisfying \<open>P\<close>. \<open>restart\<close> is a new process
  that opens the file as the last one left it.\<close>

inductive auth_step :: "('x) authority_env_scheme \<Rightarrow> (gotime \<Rightarrow> bool) \<Rightarrow> policy_store \<Rightarrow> policy_store \<Rightarrow> bool"
  for env :: "('x) authority_env_scheme" and P :: "gotime \<Rightarrow> bool" where
  track: "P now1 \<Longrightarrow> P now2 \<Longrightarrow> (\<And>sid. P (clock sid)) \<Longrightarrow> Track env now1 now2 clock io ticket p = (r, p') \<Longrightarrow> auth_step env P p p'"
| checkpoint: "P now \<Longrightarrow> Apply env now io ticket p = (r, p') \<Longrightarrow> auth_step env P p p'"
| stop: "(\<And>sid. P (clock sid)) \<Longrightarrow> Stop env clock io sid p = (r, p') \<Longrightarrow> auth_step env P p p'"
| failClosed: "auth_step env P p (FailClosed p)"
| closed: "auth_step env P p (store_Close p)"
| restart: "OpenPolicyStore env (ap_trust p) io (Some (ap_db p)) = (Inr p', f) \<Longrightarrow> auth_step env P p p'"

inductive auth_run :: "('x) authority_env_scheme \<Rightarrow> (gotime \<Rightarrow> bool) \<Rightarrow> policy_store \<Rightarrow> policy_store \<Rightarrow> bool"
  for env :: "('x) authority_env_scheme" and P :: "gotime \<Rightarrow> bool" where
  none: "auth_run env P p p"
| more: "auth_run env P p p' \<Longrightarrow> auth_step env P p' p'' \<Longrightarrow> auth_run env P p p''"

section \<open>How each operation changes the store\<close>

lemma set_authorization_simps [simp]:
  "ap_db (set_authorization f p) = ap_db p" "ap_trust (set_authorization f p) = ap_trust p"
  "ap_open (set_authorization f p) = ap_open p"
  "map fst (ap_sessions (set_authorization f p)) = map fst (ap_sessions p)"
  "length (ap_sessions (set_authorization f p)) = length (ap_sessions p)"
  by (auto simp: set_authorization_def)

lemma map_of_set_authorization:
  "map_of (ap_sessions (set_authorization f p)) sid =
     map_option (\<lambda>s. s\<lparr>se_authorization := f sid s\<rparr>) (map_of (ap_sessions p) sid)"
proof -
  have "map_of (map (\<lambda>(sid, s). (sid, s\<lparr>se_authorization := f sid s\<rparr>)) ss) sid =
      map_option (\<lambda>s. s\<lparr>se_authorization := f sid s\<rparr>) (map_of ss sid)" for ss
    by (induction ss) auto
  then show ?thesis by (simp add: set_authorization_def)
qed

lemma FailClosed_simps [simp]:
  "ap_db (FailClosed p) = ap_db p" "ap_trust (FailClosed p) = ap_trust p" "ap_open (FailClosed p) = ap_open p"
  by (simp_all add: FailClosed_def)

lemma FailClosed_dead: "map_of (ap_sessions (FailClosed p)) sid = Some s \<Longrightarrow> se_authorization s = None"
  by (auto simp: FailClosed_def map_of_set_authorization)

lemma FailClosed_sessions:
  "map_of (ap_sessions (FailClosed p)) sid = map_option (\<lambda>s. s\<lparr>se_authorization := None\<rparr>) (map_of (ap_sessions p) sid)"
  by (simp add: FailClosed_def map_of_set_authorization)

lemma store_ok_set_authorization:
  assumes ok: "store_ok env p st" and db: "db_ok env (ap_trust p) (ap_db p') st'"
    and p': "p' = (set_authorization f p)\<lparr>ap_db := ap_db p', ap_open := ap_open p'\<rparr>"
    and auth: "\<And>sid s. (sid, s) \<in> set (ap_sessions p) \<Longrightarrow> f sid s \<noteq> None \<Longrightarrow> gr_Revision (se_grant s) \<le> ps_Revision st'"
  shows "store_ok env p' st'"
proof -
  have ss: "ap_sessions p' = map (\<lambda>(sid, s). (sid, s\<lparr>se_authorization := f sid s\<rparr>)) (ap_sessions p)"
    by (subst p') (simp add: set_authorization_def)
  have tr: "ap_trust p' = ap_trust p" by (subst p') simp
  have "map fst (ap_sessions p') = map fst (ap_sessions p)" unfolding ss by auto
  moreover have "\<forall>x\<in>set (ap_sessions p'). session_ok (ap_trust p) (ps_Revision st') x"
    unfolding ss using ok auth by (fastforce simp: store_ok_def session_ok_def)
  moreover have "length (ap_sessions p') = length (ap_sessions p)" unfolding ss by simp
  ultimately show ?thesis
    using ok db tr unfolding store_ok_def keys_distinct_def by simp
qed

lemma store_ok_FailClosed: "store_ok env p st \<Longrightarrow> store_ok env (FailClosed p) st"
  by (rule store_ok_set_authorization [of env p st _ _ "\<lambda>_ _. None"]) (auto simp: store_ok_def FailClosed_def set_authorization_def)

text \<open>A denied session: its identifier is denied until the session's own end, and the session has no authorization.\<close>

definition dead :: "string \<Rightarrow> int \<Rightarrow> policy_store \<Rightarrow> policy_state \<Rightarrow> bool" where
  "dead sid e p st \<longleftrightarrow> denied_map st sid = Some e \<and>
     (\<forall>s. map_of (ap_sessions p) sid = Some s \<longrightarrow> gr_ExpiresAt (se_grant s) = e \<and> se_authorization s = None \<and> se_managed s)"

definition evolves ::
  "('x) authority_env_scheme \<Rightarrow> (gotime \<Rightarrow> bool) \<Rightarrow> policy_store \<Rightarrow> policy_state \<Rightarrow> policy_store \<Rightarrow> policy_state \<Rightarrow> bool" where
  "evolves env P p st p' st' \<longleftrightarrow>
     store_ok env p' st' \<and> ap_trust p' = ap_trust p \<and> ps_Revision st \<le> ps_Revision st' \<and> ps_IssuedAt st \<le> ps_IssuedAt st' \<and>
     (\<forall>sid e. dead sid e p st \<longrightarrow> (\<forall>t. P t \<longrightarrow> unix_of t < e) \<longrightarrow> dead sid e p' st')"

lemma evolves_refl: "store_ok env p st \<Longrightarrow> evolves env P p st p st"
  by (simp add: evolves_def)

lemma evolves_trans: "evolves env P p st p1 st1 \<Longrightarrow> evolves env P p1 st1 p2 st2 \<Longrightarrow> evolves env P p st p2 st2"
  unfolding evolves_def by (intro conjI allI impI) (simp_all, (meson order_trans)+)

lemma evolves_FailClosed: "store_ok env p st \<Longrightarrow> evolves env P p st (FailClosed p) st"
  using store_ok_FailClosed by (auto simp: evolves_def dead_def FailClosed_sessions)

lemma VerifyGrant_ids:
  assumes "VerifyGrant env ticket issuer cluster rv now = Inr s"
  shows "hex_id (gr_SessionID (se_grant s))" "gr_ClusterID (se_grant s) = cluster"
    "participant_ok (participant_of (se_grant s) Initiator)" "participant_ok (participant_of (se_grant s) Host)"
    "se_authorization s = None"
proof -
  have v: "grant_validate (se_grant s) now = None" "gr_ClusterID (se_grant s) = cluster" "se_authorization s = None"
    using VerifyGrant_Inr [OF assms] by blast+
  then show "gr_ClusterID (se_grant s) = cluster" "se_authorization s = None" by simp_all
  show "participant_ok (participant_of (se_grant s) Initiator)" "participant_ok (participant_of (se_grant s) Host)"
    using grant_validate_scope [OF v(1)] by (simp_all add: grant_in_scope_def)
  show "hex_id (gr_SessionID (se_grant s))"
    using v(1) unfolding grant_validate_def hex_id_def by (auto split: if_splits option.splits) (metis)
qed

lemma map_of_drop_expired:
  "keys_distinct ss \<Longrightarrow> map_of (drop_expired clock ss) sid = Some s \<Longrightarrow> map_of ss sid = Some s"
  unfolding keys_distinct_def drop_expired_def
  by (metis (no_types, lifting) distinct_map_filter map_of_SomeD map_of_is_SomeI mem_Collect_eq set_filter)

lemma store_ok_drop:
  assumes ok: "store_ok env p st" and db: "db_ok env (ap_trust p) db st'" and rv: "ps_Revision st' = ps_Revision st"
  shows "store_ok env (p\<lparr>ap_db := db, ap_sessions := drop_expired clock (ap_sessions p)\<rparr>) st'"
proof -
  have "length (drop_expired clock (ap_sessions p)) \<le> length (ap_sessions p)" by (simp add: drop_expired_def)
  moreover have "set (drop_expired clock (ap_sessions p)) \<subseteq> set (ap_sessions p)"
    "keys_distinct (ap_sessions p) \<Longrightarrow> keys_distinct (drop_expired clock (ap_sessions p))"
    by (auto simp: drop_expired_def)
  ultimately show ?thesis using ok db rv unfolding store_ok_def by auto
qed

lemma Track_evolves:
  assumes codec: "state_codec_ok env (ap_trust p)" and ok: "store_ok env p st"
    and P: "P now2" and tr: "Track env now1 now2 clock io ticket p = (r, p')"
  shows "\<exists>st'. evolves env P p st p' st'"
proof (cases "p' = p")
  case True
  then show ?thesis using evolves_refl [OF ok] by blast
next
  case False
  then obtain s db where s: "VerifyGrant env ticket (tr_Issuer (ap_trust p)) (tr_ClusterID (ap_trust p)) 0 now1 = Inr s"
    and dev: "pt_DeviceID (participant_of (se_grant s) Initiator) = tr_DeviceID (ap_trust p) \<or>
      pt_DeviceID (participant_of (se_grant s) Host) = tr_DeviceID (ap_trust p)"
    and tx: "track_tx env now2 (ap_trust p) (se_grant s) (ap_db p) = Inr db" and io
    using tr by (auto simp: Track_def Let_def split: if_splits sum.splits)
  define p1 where "p1 = p\<lparr>ap_db := db, ap_sessions := drop_expired clock (ap_sessions p)\<rparr>"
  let ?sid = "gr_SessionID (se_grant s)"
  note ids = VerifyGrant_ids [OF s]
  have dbs: "db_ok env (ap_trust p) (ap_db p) st" using ok by (simp add: store_ok_def)
  obtain st' where st': "db_ok env (ap_trust p) db st'" "ps_Revision st' = ps_Revision st" "ps_IssuedAt st' = ps_IssuedAt st"
    "denied_map st' = denied_map st" "denied_at st ?sid \<le> unix_of now2"
    using track_tx_ok [OF codec dbs tx ids(3,4)] by blast
  have ok1: "store_ok env p1 st'" unfolding p1_def by (rule store_ok_drop [OF ok st'(1,2)])
  have e1: "evolves env P p st p1 st'"
    using ok1 st' map_of_drop_expired ok by (auto simp: evolves_def dead_def p1_def store_ok_def)
  have cases: "p' = p1 \<or> map_of (ap_sessions p1) ?sid = None \<and> length (ap_sessions p1) < MaxManagedSessions \<and>
      p' = p1\<lparr>ap_sessions := AList.update ?sid (s\<lparr>se_managed := True\<rparr>) (ap_sessions p1)\<rparr>"
    using tr False s dev tx \<open>io\<close>
    by (auto simp: Track_def Let_def p1_def [symmetric] not_le split: if_splits option.splits)
  show ?thesis
  proof (cases "p' = p1")
    case True
    then show ?thesis using e1 by blast
  next
    case False
    let ?s = "s\<lparr>se_managed := True\<rparr>"
    have new: "map_of (ap_sessions p1) ?sid = None" "length (ap_sessions p1) < MaxManagedSessions"
      and p': "p' = p1\<lparr>ap_sessions := AList.update ?sid ?s (ap_sessions p1)\<rparr>"
      using cases False by blast+
    have "session_ok (ap_trust p) (ps_Revision st') (?sid, ?s)"
    proof -
      have "\<exists>sd. pt_DeviceID (participant_of (se_grant s) sd) = tr_DeviceID (ap_trust p)" using dev by blast
      then show ?thesis using ids by (simp add: session_ok_def)
    qed
    then have "\<forall>x\<in>set (AList.update ?sid ?s (ap_sessions p1)). session_ok (ap_trust p) (ps_Revision st') x"
      using ok1 set_update_subset [of ?sid ?s "ap_sessions p1"] by (auto simp: store_ok_def p1_def)
    moreover have "length (AList.update ?sid ?s (ap_sessions p1)) \<le> MaxManagedSessions"
      using length_update_le [of ?sid ?s "ap_sessions p1"] new(2) by linarith
    ultimately have "store_ok env p' st'" using ok1 unfolding p' store_ok_def by (simp add: p1_def)
    moreover have "dead sid e p' st'" if d: "dead sid e p st" "\<forall>t. P t \<longrightarrow> unix_of t < e" for sid e
    proof -
      have "sid \<noteq> ?sid" using d P st'(5) by (auto simp: dead_def denied_at_def)
      then have "map_of (ap_sessions p') sid = map_of (ap_sessions p1) sid" by (simp add: p')
      moreover have "dead sid e p1 st'" using e1 d unfolding evolves_def by blast
      ultimately show ?thesis by (simp add: dead_def)
    qed
    moreover have "ap_trust p' = ap_trust p1" by (simp add: p')
    ultimately have "evolves env P p st p' st'" using e1 unfolding evolves_def by simp
    then show ?thesis by blast
  qed
qed


lemma sessions_ids: "store_ok env p st \<Longrightarrow> map_of (ap_sessions p) sid = Some s \<Longrightarrow> session_ok (ap_trust p) (ps_Revision st) (sid, s)"
  by (auto simp: store_ok_def dest: map_of_SomeD)

lemma unexpired_dead:
  "keys_distinct d \<Longrightarrow> map_of d sid = Some e \<Longrightarrow> unix_of (clock sid) < e \<Longrightarrow> map_of (unexpired clock d) sid = Some e"
  by (simp add: map_of_unexpired)

lemma denied_distinct: "db_ok env tr db st \<Longrightarrow> keys_distinct (the (ps_Denied st))"
  by (auto simp: db_ok_def valid_state_def)

text \<open>Stopping a session denies it to its end; other denials stay.\<close>

lemma Stop_evolves:
  assumes codec: "state_codec_ok env (ap_trust p)" and ok: "store_ok env p st" and P: "\<And>k. P (clock k)"
    and sp: "Stop env clock io sid p = (r, p')"
  shows "\<exists>st'. evolves env P p st p' st' \<and>
    (r = None \<longrightarrow> (\<exists>s. map_of (ap_sessions p) sid = Some s \<and> dead sid (gr_ExpiresAt (se_grant s)) p' st'))"
proof (cases r)
  case (Some x)
  then have "p' = FailClosed p"
    using sp by (auto simp: Stop_def Let_def split: if_splits option.splits sum.splits)
  then show ?thesis using evolves_FailClosed [OF ok, of P] Some by blast
next
  case None
  let ?p = "FailClosed p"
  obtain s db where s: "map_of (ap_sessions ?p) sid = Some s"
    and tx: "stop_tx env clock (ap_trust p) sid s (ap_db p) = Inr db" and p': "p' = ?p\<lparr>ap_db := db\<rparr>"
    using sp None by (auto simp: Stop_def Let_def split: if_splits option.splits sum.splits)
  note okF = store_ok_FailClosed [OF ok]
  have hex: "hex_id sid" using sessions_ids [OF okF s] unfolding session_ok_def by auto
  have dbs: "db_ok env (ap_trust p) (ap_db p) st" using ok by (simp add: store_ok_def)
  obtain st' where st': "db_ok env (ap_trust p) db st'" "ps_Revision st' = ps_Revision st" "ps_IssuedAt st' = ps_IssuedAt st"
    "denied_map st' = (map_of (unexpired clock (the (ps_Denied st))))(sid \<mapsto> gr_ExpiresAt (se_grant s))"
    using stop_tx_ok [OF codec dbs tx hex] by blast
  have ok': "store_ok env p' st'" using okF st' by (simp add: store_ok_def p')
  have sids: "map_of (ap_sessions p') k = map_of (ap_sessions ?p) k" for k by (simp add: p')
  have now_dead: "dead sid (gr_ExpiresAt (se_grant s)) p' st'"
    using s st'(4) FailClosed_dead [OF s] sessions_ids [OF okF s] by (simp add: dead_def sids session_ok_def)
  have keep: "dead k e p' st'" if d: "dead k e p st" "\<forall>t. P t \<longrightarrow> unix_of t < e" for k e
  proof (cases "k = sid")
    case True
    have "e = gr_ExpiresAt (se_grant s)" using d(1) s True by (auto simp: dead_def FailClosed_sessions)
    then show ?thesis using now_dead True by simp
  next
    case False
    have "map_of (unexpired clock (the (ps_Denied st))) k = Some e"
      using d P unexpired_dead [OF denied_distinct [OF dbs]] by (simp add: dead_def)
    then show ?thesis using d(1) False st'(4) by (auto simp: dead_def sids FailClosed_sessions)
  qed
  obtain s0 where "map_of (ap_sessions p) sid = Some s0" "se_grant s0 = se_grant s" using s by (auto simp: FailClosed_sessions)
  then show ?thesis
    using ok' now_dead keep st' by (intro exI [of _ st']) (auto simp: evolves_def p')
qed

lemma check_allowed_props:
  assumes "check_allowed env ss rv acc es = Inr allowed" and "\<forall>k\<in>set acc. \<exists>s. map_of ss k = Some s \<and> gr_Revision (se_grant s) \<le> rv"
  shows "\<forall>k\<in>set allowed. \<exists>s. map_of ss k = Some s \<and> gr_Revision (se_grant s) \<le> rv"
  using assms
  by (induction es arbitrary: acc) (auto simp: not_less split: option.splits if_splits)

text \<open>A checkpoint that is applied denies every session it does not list; others keep their denials.\<close>

lemma Apply_Inr:
  assumes "Apply env now io ticket p = (Inr revoked, p')"
  obtains c allowed db where "decode_checkpoint env p ticket = Inr c" "policy_in_scope (ap_trust p) now c"
    "check_allowed env (ap_sessions p) (cp_Revision c) [] (cp_Allowed c) = Inr allowed"
    "apply_checkpoint_tx env now (ap_trust p) (ap_sessions p) c allowed (ap_db p) = Inr db"
    "set revoked = {sid \<in> fst ` set (ap_sessions p). sid \<notin> set allowed}"
    "p' = set_authorization (authorize now c allowed) (p\<lparr>ap_db := db\<rparr>)"
proof -
  obtain c allowed db where "decode_checkpoint env p ticket = Inr c" "policy_in_scope (ap_trust p) now c"
    "check_allowed env (ap_sessions p) (cp_Revision c) [] (cp_Allowed c) = Inr allowed"
    "apply_checkpoint_tx env now (ap_trust p) (ap_sessions p) c allowed (ap_db p) = Inr db"
    "revoked = sort_slice (<) (map fst (filter (\<lambda>(sid, s). sid \<notin> set allowed) (ap_sessions p)))"
    "p' = set_authorization (authorize now c allowed) (p\<lparr>ap_db := db\<rparr>)"
    using assms by (auto simp: Apply_def Let_def split: if_splits sum.splits)
  moreover from this(5) have "set revoked = {sid \<in> fst ` set (ap_sessions p). sid \<notin> set allowed}" by force
  ultimately show ?thesis using that by blast
qed

lemma set_authorization_db: "set_authorization f (p\<lparr>ap_db := db\<rparr>) = (set_authorization f p)\<lparr>ap_db := db\<rparr>"
  by (simp add: set_authorization_def)

lemma Apply_Inl: "Apply env now io ticket p = (Inl e, p') \<Longrightarrow> p' = FailClosed p"
  by (auto simp: Apply_def Let_def split: if_splits sum.splits)

text \<open>An applied checkpoint, on a store that keeps its invariant: the allowed sessions, the state before and after.\<close>

definition applied ::
  "('x) authority_env_scheme \<Rightarrow> gotime \<Rightarrow> checkpoint \<Rightarrow> string list \<Rightarrow> policy_store \<Rightarrow> policy_state \<Rightarrow> policy_store \<Rightarrow> policy_state \<Rightarrow> bool" where
  "applied env now c allowed p st p' st' \<longleftrightarrow>
     db_ok env (ap_trust p) (ap_db p') st' \<and> ps_Revision st < ps_Revision st' \<and> ps_Revision st' = cp_Revision c \<and>
     ps_IssuedAt st \<le> ps_IssuedAt st' \<and>
     (\<exists>db. p' = (set_authorization (authorize now c allowed) p)\<lparr>ap_db := db\<rparr>) \<and>
     (\<forall>k\<in>set allowed. \<exists>s. map_of (ap_sessions p) k = Some s \<and> gr_Revision (se_grant s) \<le> cp_Revision c) \<and>
     (\<forall>k\<in>set allowed. \<forall>e. denied_map st k = Some e \<longrightarrow> e \<le> unix_of now) \<and>
     (\<forall>k. k \<notin> set allowed \<longrightarrow> denied_map st' k = (case map_of (ap_sessions p) k of
        Some s \<Rightarrow> Some (gr_ExpiresAt (se_grant s)) | None \<Rightarrow> map_of (unexpired (\<lambda>_. now) (the (ps_Denied st))) k))"

lemma Apply_applied:
  assumes codec: "state_codec_ok env (ap_trust p)" and ok: "store_ok env p st"
    and ap: "Apply env now io ticket p = (Inr revoked, p')"
  obtains c allowed st' where "decode_checkpoint env p ticket = Inr c" "policy_in_scope (ap_trust p) now c"
    "check_allowed env (ap_sessions p) (cp_Revision c) [] (cp_Allowed c) = Inr allowed"
    "set revoked \<inter> set allowed = {}" "applied env now c allowed p st p' st'"
proof -
  obtain c allowed db where c: "decode_checkpoint env p ticket = Inr c" "policy_in_scope (ap_trust p) now c"
    and al: "check_allowed env (ap_sessions p) (cp_Revision c) [] (cp_Allowed c) = Inr allowed"
    and tx: "apply_checkpoint_tx env now (ap_trust p) (ap_sessions p) c allowed (ap_db p) = Inr db"
    and rv: "set revoked = {sid \<in> fst ` set (ap_sessions p). sid \<notin> set allowed}"
    and p': "p' = set_authorization (authorize now c allowed) (p\<lparr>ap_db := db\<rparr>)"
    by (rule Apply_Inr [OF ap])
  note p' = p' [unfolded set_authorization_db]
  have dbs: "db_ok env (ap_trust p) (ap_db p) st" and kd: "keys_distinct (ap_sessions p)" using ok by (simp_all add: store_ok_def)
  have hex: "\<forall>k\<in>fst ` set (ap_sessions p). hex_id k" using ok by (auto simp: store_ok_def session_ok_def)
  have alp: "\<forall>k\<in>set allowed. \<exists>s. map_of (ap_sessions p) k = Some s \<and> gr_Revision (se_grant s) \<le> cp_Revision c"
    using check_allowed_props [OF al] by simp
  then have mem: "\<forall>k\<in>set allowed. k \<in> fst ` set (ap_sessions p)" by (force dest: map_of_SomeD)
  have db': "ap_db p' = db" by (simp add: p')
  obtain st' where "applied env now c allowed p st p' st'"
    using apply_tx_ok [OF codec dbs tx kd hex] alp mem p' unfolding applied_def db' by metis
  then show ?thesis using that c al rv by blast
qed

lemma applied_sessions:
  assumes "applied env now c allowed p st p' st'"
  shows "map_of (ap_sessions p') k = map_option (\<lambda>s. s\<lparr>se_authorization := authorize now c allowed k s\<rparr>) (map_of (ap_sessions p) k)"
proof -
  obtain db where "p' = (set_authorization (authorize now c allowed) p)\<lparr>ap_db := db\<rparr>" using assms unfolding applied_def by blast
  then show ?thesis by (simp add: map_of_set_authorization)
qed

lemma applied_ok:
  assumes ok: "store_ok env p st" and ap: "applied env now c allowed p st p' st'"
  shows "store_ok env p' st'"
proof (rule store_ok_set_authorization [OF ok, of p' st' "authorize now c allowed"])
  show "db_ok env (ap_trust p) (ap_db p') st'" using ap by (simp add: applied_def)
  obtain db where "p' = (set_authorization (authorize now c allowed) p)\<lparr>ap_db := db\<rparr>" using ap unfolding applied_def by blast
  then show "p' = (set_authorization (authorize now c allowed) p)\<lparr>ap_db := ap_db p', ap_open := ap_open p'\<rparr>"
    by (simp add: set_authorization_def)
next
  fix sid s assume s: "(sid, s) \<in> set (ap_sessions p)" and a: "authorize now c allowed sid s \<noteq> None"
  then have "map_of (ap_sessions p) sid = Some s" using ok by (simp add: store_ok_def keys_distinct_def)
  moreover have "sid \<in> set allowed" using a by (auto simp: authorize_def split: if_splits)
  ultimately show "gr_Revision (se_grant s) \<le> ps_Revision st'" using ap by (auto simp: applied_def)
qed

lemma applied_unlisted_dead:
  assumes "store_ok env p st" and "applied env now c allowed p st p' st'" and "k \<notin> set allowed" and "map_of (ap_sessions p) k = Some s"
  shows "dead k (gr_ExpiresAt (se_grant s)) p' st'"
  using assms sessions_ids [OF assms(1,4)]
  by (simp add: dead_def applied_sessions [OF assms(2)] session_ok_def authorize_def) (simp add: applied_def)

lemma applied_keeps_dead:
  assumes ok: "store_ok env p st" and ap: "applied env now c allowed p st p' st'"
    and d: "dead k e p st" and now: "unix_of now < e"
  shows "dead k e p' st'"
proof -
  have na: "k \<notin> set allowed" using ap d now unfolding applied_def dead_def by (metis not_less)
  show ?thesis
  proof (cases "map_of (ap_sessions p) k")
    case None
    have "map_of (unexpired (\<lambda>_. now) (the (ps_Denied st))) k = Some e"
      using ok d now unexpired_dead [OF denied_distinct, of env _ _ st k e "\<lambda>_. now"] by (auto simp: dead_def store_ok_def)
    then show ?thesis using None na ap applied_sessions [OF ap, of k] by (simp add: dead_def applied_def)
  next
    case (Some s)
    then have "e = gr_ExpiresAt (se_grant s)" using d by (simp add: dead_def)
    then show ?thesis using applied_unlisted_dead [OF ok ap na Some] by simp
  qed
qed

lemma Apply_evolves:
  assumes codec: "state_codec_ok env (ap_trust p)" and ok: "store_ok env p st" and P: "P now"
    and ap: "Apply env now io ticket p = (r, p')"
  shows "\<exists>st'. evolves env P p st p' st' \<and>
    (\<forall>revoked sid s. r = Inr revoked \<and> sid \<in> set revoked \<and> map_of (ap_sessions p) sid = Some s \<longrightarrow>
       dead sid (gr_ExpiresAt (se_grant s)) p' st')"
proof (cases r)
  case (Inl x)
  then have "p' = FailClosed p" using Apply_Inl ap by blast
  then show ?thesis using evolves_FailClosed [OF ok, of P] Inl by blast
next
  case (Inr revoked)
  obtain c allowed st' where rv: "set revoked \<inter> set allowed = {}" and a: "applied env now c allowed p st p' st'"
    using Apply_applied [OF codec ok] ap Inr by metis
  obtain db where "p' = (set_authorization (authorize now c allowed) p)\<lparr>ap_db := db\<rparr>" using a unfolding applied_def by blast
  then have "ap_trust p' = ap_trust p" by simp
  moreover have "ps_Revision st \<le> ps_Revision st'" "ps_IssuedAt st \<le> ps_IssuedAt st'" using a unfolding applied_def by auto
  ultimately have "evolves env P p st p' st'"
    using applied_ok [OF ok a] applied_keeps_dead [OF ok a] P unfolding evolves_def by blast
  moreover have "dead k (gr_ExpiresAt (se_grant s)) p' st'" if "k \<in> set revoked" "map_of (ap_sessions p) k = Some s" for k s
    using applied_unlisted_dead [OF ok a _ that(2)] that(1) rv by blast
  ultimately show ?thesis using Inr by blast
qed

lemma restart_evolves:
  assumes ok: "store_ok env p st" and re: "OpenPolicyStore env (ap_trust p) io (Some (ap_db p)) = (Inr p', f)"
  shows "evolves env P p st p' st"
proof -
  have "p' = \<lparr>ap_db = ap_db p, ap_open = True, ap_trust = ap_trust p, ap_sessions = []\<rparr>"
    using re by (auto simp: OpenPolicyStore_def openPolicyStore_def split: if_splits sum.splits)
  then show ?thesis using ok by (simp add: evolves_def store_ok_def dead_def)
qed

lemma auth_step_evolves:
  assumes "state_codec_ok env (ap_trust p)" and "store_ok env p st" and "auth_step env P p p'"
  shows "\<exists>st'. evolves env P p st p' st'"
  using assms(3)
proof cases
  case (track now1 now2 clock io ticket r)
  then show ?thesis using Track_evolves [OF assms(1,2)] by blast
next
  case (checkpoint now io ticket r)
  then show ?thesis using Apply_evolves [OF assms(1,2)] by blast
next
  case (stop clock io sid r)
  then show ?thesis using Stop_evolves [OF assms(1,2), of P clock] by blast
next
  case failClosed
  then show ?thesis using evolves_FailClosed [OF assms(2), of P] by blast
next
  case closed
  have "store_ok env (store_Close p) st" "\<And>k e. dead k e (store_Close p) st = dead k e (FailClosed p) st"
    using store_ok_FailClosed [OF assms(2)] by (simp_all add: store_Close_def store_ok_def dead_def)
  then have "evolves env P p st (store_Close p) st"
    using evolves_FailClosed [OF assms(2), of P] by (simp add: evolves_def store_Close_def)
  then show ?thesis using closed by blast
next
  case (restart io f)
  then show ?thesis using restart_evolves [OF assms(2)] by blast
qed

lemma auth_run_evolves:
  assumes "state_codec_ok env (ap_trust p)" and "store_ok env p st" and "auth_run env P p p'"
  shows "\<exists>st'. evolves env P p st p' st'"
  using assms(3,1,2)
proof (induction arbitrary: st)
  case (none p)
  then show ?case using evolves_refl by blast
next
  case (more p p1 p2)
  then obtain st1 where e1: "evolves env P p st p1 st1" by blast
  then have "ap_trust p1 = ap_trust p" "store_ok env p1 st1" by (simp_all add: evolves_def)
  then obtain st2 where "evolves env P p1 st1 p2 st2" using auth_step_evolves [OF _ _ more.hyps(2)] more.prems(1) by metis
  then show ?case using evolves_trans [OF e1] by blast
qed

end
