(* ===== verification/P2pScenario.thy ===== *)
theory P2pScenario
  imports P2pRelay P2pMux P2pAuthorityLemmas
begin

text \<open>
  A concrete grant between two Devices, with simple stand-ins for the signature scheme, the digest and the
  JSON codec, for the witnesses of the P2P properties.
\<close>

definition ex_key :: "byte \<Rightarrow> string" where
  "ex_key b = base64_encode (replicate 32 b)"

definition ex_device :: "string \<Rightarrow> byte \<Rightarrow> addr \<Rightarrow> participant" where
  "ex_device d k a = \<lparr>pt_DeviceID = d, pt_UserID = ''u'', pt_IdentityKey = ex_key k, pt_WireGuardKey = ex_key (k + 1),
     pt_Address = V4 a\<rparr>"

definition ex_sid :: string where
  "ex_sid = hex_encode (replicate 16 7)"

definition ex_grant :: grant where
  "ex_grant = \<lparr>gr_Version = 1, gr_ClusterID = ''c'', gr_SessionID = ex_sid, gr_Revision = 3, gr_IssuedAt = 100,
     gr_ExpiresAt = 150, gr_Service = ''sunshine-v1'',
     gr_Participants = (ex_device ''d1'' 1 0x0A000001, ex_device ''d2'' 5 0x0A000002)\<rparr>"

definition ex_now :: gotime where
  "ex_now = \<lparr>wall = 120 * second, mono = Some 0\<rparr>"

lemma or_repeated: "0 < n \<Longrightarrow> ((OR) k ^^ n) 0 = (k :: byte)"
proof (induction n)
  case (Suc n)
  then show ?case by (cases n) simp_all
qed simp

lemma ex_key_inject: "ex_key a = ex_key b \<longleftrightarrow> a = b"
proof
  assume "ex_key a = ex_key b"
  then have "base64_decode (ex_key a) = base64_decode (ex_key b)" by simp
  then show "a = b" by (simp add: ex_key_def)
qed simp

lemma ex_device_valid: "k \<noteq> 0 \<Longrightarrow> k + 1 \<noteq> 0 \<Longrightarrow> IsPrivate a \<Longrightarrow> d \<noteq> [] \<Longrightarrow> length d \<le> 128 \<Longrightarrow> validate_participant (ex_device d k a) = None"
  by (simp add: validate_participant_def ex_device_def ParseWGKey_def ex_key_def publicKeySize_def or_repeated)

lemma ex_private: "IsPrivate 0x0A000001" "IsPrivate 0x0A000002"
  by (simp_all add: IsPrivate_def)

lemma ex_grant_valid: "grant_validate ex_grant ex_now = None"
  using ex_device_valid [of 1 "0x0A000001" "''d1''"] ex_device_valid [of 5 "0x0A000002" "''d2''"] ex_private
  by (simp add: grant_validate_def ex_grant_def ex_sid_def ex_now_def p2p_Version_def Sunshine_def MaxLease_def unix_of_def Let_def)
    (simp add: ex_device_def ex_key_inject)

definition ex_p2p :: relay_env where
  "ex_p2p = \<lparr>pe_verify = (\<lambda>_ _ _. True), pe_sign = (\<lambda>_ _. []), pe_public = (\<lambda>k. take 32 k), pe_sha256 = (\<lambda>x. x),
     pe_envelope = (\<lambda>_. Some (\<lparr>sg_Payload = [], sg_Signature = []\<rparr>, [])), pe_grant = (\<lambda>_. Some (ex_grant, [])),
     pe_put_envelope = (\<lambda>_. []), pe_put_grant = (\<lambda>_. []),
     re_auth = (\<lambda>raw. case raw of [] \<Rightarrow> None | b # _ \<Rightarrow> Some (\<lparr>ra_Ticket = [1], ra_Side = b, ra_Proof = []\<rparr>, [])),
     re_put_auth = (\<lambda>a. [ra_Side a])\<rparr>"

definition ex_issuer :: "byte list" where
  "ex_issuer = replicate 32 9"

definition ex_session :: session where
  "ex_session = \<lparr>se_grant = ex_grant, se_ticket = [1], se_deadline = deadline_at ex_now 150, se_managed = False,
     se_authorization = None\<rparr>"

lemma ex_verify: "rv \<le> 3 \<Longrightarrow> VerifyGrant ex_p2p [1] ex_issuer ''c'' rv ex_now = Inr ex_session"
proof -
  assume "rv \<le> 3"
  have "decodeStrict (pe_envelope ex_p2p) [1] = Inr \<lparr>sg_Payload = [], sg_Signature = []\<rparr>"
    "decodeStrict (pe_grant ex_p2p) [] = Inr ex_grant"
    by (simp_all add: decodeStrict_def ex_p2p_def)
  moreover have "gr_ClusterID ex_grant = ''c''" "gr_Revision ex_grant = 3" "gr_ExpiresAt ex_grant = 150" by (simp_all add: ex_grant_def)
  moreover have "pe_verify ex_p2p k m sg" for k m sg by (simp add: ex_p2p_def)
  ultimately show ?thesis
    using \<open>rv \<le> 3\<close> ex_grant_valid by (simp add: VerifyGrant_def ex_issuer_def publicKeySize_def maxTicket_def ex_session_def not_less)
qed

lemma ex_active: "active ex_session ex_now"
  by (simp add: active_def ex_session_def ex_grant_def ex_now_def unix_of_def deadline_at_def time_defs)

end
