(* ===== verification/P2pProps.thy ===== *)
theory P2pProps
  imports P2pScenario
begin

text \<open>
  The properties of the Device-to-Device sessions on the Devices' side: grants, the packet filter, the policy
  store and the shared tunnel.
\<close>

section \<open>Grants\<close>

lemma lease_left:
  assumes "grant_in_scope g now"
  shows "0 < gr_ExpiresAt g * second - wall now" and "gr_ExpiresAt g * second - wall now \<le> 60 * second"
proof -
  have e: "wall now div second < gr_ExpiresAt g" "gr_ExpiresAt g \<le> wall now div second + 60"
    using assms by (auto simp: grant_in_scope_def unix_of_def)
  have d: "wall now = wall now div second * second + wall now mod second" "0 \<le> wall now mod second" "wall now mod second < second"
    by simp_all
  show "0 < gr_ExpiresAt g * second - wall now" using e(1) d by linarith
  show "gr_ExpiresAt g * second - wall now \<le> 60 * second" using e(2) d by linarith
qed

text \<open>C22. What a verified session stands for: the issuer's signature over its grant, a grant of the expected cluster and
  at least the asked revision, for the one service, between two distinct private addresses and Devices of
  one owner, issued in the past and ending within sixty seconds of being issued. Once sixty seconds have
  passed on the monotonic clock it is inactive, whatever is done to the wall clock and however its
  authorization is renewed.\<close>

theorem verified_session_scope:
  assumes "VerifyGrant env ticket issuer cluster rv now = Inr s"
  shows "(\<exists>payload sig. pe_verify env issuer (grant_message payload) sig \<and>
      decodeStrict (pe_grant env) payload = Inr (se_grant s)) \<and>
    gr_ClusterID (se_grant s) = cluster \<and> rv \<le> gr_Revision (se_grant s) \<and> grant_in_scope (se_grant s) now \<and>
    (\<forall>m u t a b. mono now = Some m \<and> mono t = Some u \<and> m + 60 * second \<le> u \<longrightarrow>
       \<not> active (s\<lparr>se_managed := b, se_authorization := a\<rparr>) t)"
proof -
  obtain envelope :: signed_grant where v: "pe_verify env issuer (grant_message (sg_Payload envelope)) (sg_Signature envelope)"
    "decodeStrict (pe_grant env) (sg_Payload envelope) = Inr (se_grant s)" "grant_validate (se_grant s) now = None"
    "gr_ClusterID (se_grant s) = cluster" "rv \<le> gr_Revision (se_grant s)"
    "se_deadline s = deadline_at now (gr_ExpiresAt (se_grant s))"
    by (rule VerifyGrant_Inr [OF assms]) blast
  have scope: "grant_in_scope (se_grant s) now" by (rule grant_validate_scope [OF v(3)])
  have "\<not> active (s\<lparr>se_managed := b, se_authorization := a\<rparr>) t"
    if "mono now = Some m" "mono t = Some u" "m + 60 * second \<le> u" for m u t a b
  proof (rule lease_over [of _ now "gr_ExpiresAt (se_grant s)" m t u])
    have "sat_duration (gr_ExpiresAt (se_grant s) * second - wall now) \<le> 60 * second"
      using lease_left(2) [OF scope] by (simp add: sat_duration_def)
    then show "m + sat_duration (gr_ExpiresAt (se_grant s) * second - wall now) \<le> u" using that(3) by linarith
  qed (use that v(6) in simp_all)
  then show ?thesis using v scope by blast
qed

theorem verified_session_scope_witness:
  "grant_in_scope (se_grant ex_session) ex_now \<and>
   \<not> active (ex_session\<lparr>se_managed := False, se_authorization := None\<rparr>) \<lparr>wall = 120 * second, mono = Some (60 * second)\<rparr>"
proof -
  have v: "VerifyGrant ex_p2p [1] ex_issuer ''c'' 3 ex_now = Inr ex_session" by (rule ex_verify) simp
  have m: "mono ex_now = Some 0 \<and> mono \<lparr>wall = 120 * second, mono = Some (60 * second)\<rparr> = Some (60 * second) \<and>
    0 + 60 * second \<le> 60 * second"
    by (simp add: ex_now_def)
  show ?thesis
    using verified_session_scope [OF v] m by blast
qed

text \<open>A grant that the Controller signs is accepted by the Devices and relays that trust its key, of the same
  cluster and at a revision no higher than the grant's, and gives a session of exactly that grant that is
  active at once.\<close>

theorem signed_grant_accepted:
  assumes sign: "SignGrant env g priv now = Inr ticket"
    and sig: "\<forall>msg. pe_verify env (pe_public env priv) msg (pe_sign env priv msg)" "length (pe_public env priv) = publicKeySize"
    and json: "\<forall>e. decodeStrict (pe_envelope env) (pe_put_envelope env e) = Inr e"
      "decodeStrict (pe_grant env) (pe_put_grant env g) = Inr g"
    and fits: "length ticket \<le> maxTicket" and rv: "rv \<le> gr_Revision g"
  shows "\<exists>s. VerifyGrant env ticket (pe_public env priv) (gr_ClusterID g) rv now = Inr s \<and> se_grant s = g \<and> active s now"
proof -
  have v: "grant_validate g now = None"
    and t: "ticket = pe_put_envelope env \<lparr>sg_Payload = pe_put_grant env g,
      sg_Signature = pe_sign env priv (grant_message (pe_put_grant env g))\<rparr>"
    using sign by (auto simp: SignGrant_def Let_def split: if_splits option.splits)
  let ?s = "\<lparr>se_grant = g, se_ticket = ticket, se_deadline = deadline_at now (gr_ExpiresAt g), se_managed = False,
    se_authorization = None\<rparr>"
  have scope: "grant_in_scope g now" by (rule grant_validate_scope [OF v])
  have "gr_ClusterID g \<noteq> []" using v by (auto simp: grant_validate_def)
  then have "VerifyGrant env ticket (pe_public env priv) (gr_ClusterID g) rv now = Inr ?s"
    using sig json fits rv v by (simp add: VerifyGrant_def t not_less)
  moreover have "time_diff now (deadline_at now (gr_ExpiresAt g)) = - sat_duration (gr_ExpiresAt g * second - wall now)"
    by (simp add: deadline_at_def time_add_def time_sub_def time_diff_def of_unix_def split: option.splits)
  then have "time_before now (deadline_at now (gr_ExpiresAt g))"
    using lease_left(1) [OF scope] by (simp add: time_before_def sat_duration_def)
  then have "active ?s now" using scope by (simp add: active_def grant_in_scope_def)
  ultimately show ?thesis by (intro exI [of _ ?s]) simp
qed

text \<open>A codec that writes the length of the payload in unary, and a signature that is always empty.\<close>

definition ex_put_envelope :: "signed_grant \<Rightarrow> byte list" where
  "ex_put_envelope e = replicate (length (sg_Payload e)) 1 @ [0] @ sg_Payload e @ sg_Signature e"

definition ex_get_envelope :: "byte list \<Rightarrow> (signed_grant \<times> byte list) option" where
  "ex_get_envelope t = (let n = length (takeWhile (\<lambda>b. b = 1) t); rest = drop (Suc n) t
     in Some (\<lparr>sg_Payload = take n rest, sg_Signature = drop n rest\<rparr>, []))"

definition ex_signer :: relay_env where
  "ex_signer = ex_p2p\<lparr>pe_put_envelope := ex_put_envelope, pe_envelope := ex_get_envelope\<rparr>"

lemma ex_envelope: "ex_get_envelope (ex_put_envelope e) = Some (e, [])"
  by (simp add: ex_get_envelope_def ex_put_envelope_def takeWhile_append Let_def)

theorem signed_grant_accepted_witness:
  "\<exists>s. VerifyGrant ex_signer [0] (replicate 32 9) ''c'' 3 ex_now = Inr s \<and> se_grant s = ex_grant \<and> active s ex_now"
proof -
  have sign: "SignGrant ex_signer ex_grant (replicate 64 9) ex_now = Inr [0]"
    by (simp add: SignGrant_def privateKeySize_def ex_grant_valid ex_signer_def ex_p2p_def ex_put_envelope_def)
  have key: "pe_public ex_signer (replicate 64 9) = replicate 32 9" by (simp add: ex_signer_def ex_p2p_def min_def)
  show ?thesis
    using signed_grant_accepted [OF sign, of 3] key
    by (simp add: ex_signer_def ex_p2p_def decodeStrict_def ex_envelope publicKeySize_def maxTicket_def ex_grant_def)
qed

section \<open>The packet filter\<close>

text \<open>C12. The filter lets through only packets of the session: unfragmented TCP or UDP between the two
  participants' addresses with a service port on the Host's side, while the session is active and the policy
  not revoked. The Host can only answer: a packet it sends belongs to a flow that the Initiator opened (with
  a SYN when it is TCP), in which some packet passed less than thirty seconds before, and it is not itself
  the opening of a connection. The table never holds more than 4096 flows.\<close>

theorem host_only_answers:
  assumes "policy_trace g h p" and "se_grant s = g" and "Allowed s now packet outbound p = (Pass (), p')"
  shows "active s now \<and> \<not> po_revoked p \<and> length (po_flows p') \<le> 4096 \<and>
    (\<exists>key flags. session_packet g (sender_of p outbound) packet key flags \<and>
       (sender_of p outbound = Host \<longrightarrow>
          \<not> (fl_protocol key = 6 \<and> syn_only flags) \<and> (\<exists>x\<in>set h. opener key x) \<and>
          (\<exists>x\<in>set h. pd_flow x = key \<and> time_before now (time_add (pd_now x) (30 * second)))))"
proof -
  obtain key flags where a: "\<not> po_revoked p" "active s now" "inspect g (sender_of p outbound) packet = Pass (key, flags)"
    "admit now (sender_of p outbound) key flags p = (True, p')"
    using Allowed_Pass [OF assms(3)] assms(2) by blast
  have inv: "flows_inv h (po_flows p)" by (rule policy_trace_inv [OF assms(1)])
  have "flows_inv (\<lparr>pd_now = now, pd_sender = sender_of p outbound, pd_flow = key, pd_flags = flags\<rparr> # h) (po_flows p')"
    by (rule admit_flows_inv [OF a(4) inv])
  then have len: "length (po_flows p') \<le> 4096" by (simp add: flows_inv_def maxFlows_def)
  have host: "\<not> (fl_protocol key = 6 \<and> syn_only flags) \<and> (\<exists>x\<in>set h. opener key x) \<and>
      (\<exists>x\<in>set h. pd_flow x = key \<and> time_before now (time_add (pd_now x) (30 * second)))" if hs: "sender_of p outbound = Host"
  proof -
    have e: "established now key (prune now p)" "\<not> (fl_protocol key = 6 \<and> syn_only flags)"
      using admit_passes [OF a(4)] hs by blast+
    obtain until where u: "(key, until) \<in> set (po_flows (prune now p))" "time_before now until"
      using established_mem [OF e(1)] by blast
    have "(\<exists>x\<in>set h. opener key x) \<and> (\<exists>x\<in>set h. pd_flow x = key \<and> until = time_add (pd_now x) (30 * second))"
      using flows_inv_prune [OF inv, of now] u(1) unfolding flows_inv_def by blast
    then show ?thesis using e(2) u(2) by blast
  qed
  show ?thesis using a(1,2) len host inspect_Pass [OF a(3)] by blast
qed

text \<open>A datagram of the Initiator to the Host's port 47998 and the Host's answer.\<close>

definition ex_ask :: "byte list" where
  "ex_ask = [0x45, 0, 0, 28, 0, 0, 0, 0, 64, 17, 0, 0, 10, 0, 0, 1, 10, 0, 0, 2, 0x13, 0x88, 0xBB, 0x7E, 0, 8, 0, 0]"

definition ex_answer :: "byte list" where
  "ex_answer = [0x45, 0, 0, 28, 0, 0, 0, 0, 64, 17, 0, 0, 10, 0, 0, 2, 10, 0, 0, 1, 0xBB, 0x7E, 0x13, 0x88, 0, 8, 0, 0]"

definition ex_flow :: flow where "ex_flow = \<lparr>fl_protocol = 17, fl_client = 5000, fl_service = 47998\<rparr>"

definition ex_policy :: policy where
  "ex_policy = \<lparr>po_side = Initiator, po_revoked = False, po_flows = [], po_nextPrune = zero_time\<rparr>"

definition ex_policy1 :: policy where
  "ex_policy1 = ex_policy\<lparr>po_flows := [(ex_flow, time_add ex_now (30 * second))], po_nextPrune := time_add ex_now second\<rparr>"

lemma ex_addresses: "pt_Address (fst (gr_Participants ex_grant)) = V4 0x0A000001" "pt_Address (snd (gr_Participants ex_grant)) = V4 0x0A000002"
  by (simp_all add: ex_grant_def ex_device_def)

lemma ex_inspect:
  "inspect ex_grant Initiator ex_ask = Pass (ex_flow, 0)" "inspect ex_grant Host ex_answer = Pass (ex_flow, 0)"
  by (simp_all add: inspect_def ex_ask_def ex_answer_def ex_addresses ex_flow_def index_at_def subslice_def be_decode_def u16_of_def
      AddrFrom4_def transport_flags_def servicePort_def)

lemma ex_pass:
  "Allowed ex_session ex_now ex_ask True ex_policy = (Pass (), ex_policy1)"
  "\<exists>p. Allowed ex_session ex_now ex_answer False ex_policy1 = (Pass (), p)"
  using ex_active ex_inspect
  by (simp_all add: Allowed_def ex_policy1_def ex_policy_def sender_of_def ex_session_def admit_def prune_def established_def
      ex_flow_def ex_now_def time_defs maxFlows_def)

lemma ex_trace: "policy_trace ex_grant [\<lparr>pd_now = ex_now, pd_sender = Initiator, pd_flow = ex_flow, pd_flags = 0\<rparr>] ex_policy1"
proof -
  have "NewPolicy (Some ex_session) (Some Initiator) ex_now = Inr ex_policy"
    using ex_active by (simp add: NewPolicy_def ex_policy_def)
  then have t: "policy_trace ex_grant [] ex_policy" by (rule policy_trace.created)
  have "se_grant ex_session = ex_grant" "sender_of ex_policy True = Initiator" by (simp_all add: ex_session_def ex_policy_def sender_of_def)
  then show ?thesis using policy_trace.allowed [OF t _ ex_pass(1)] ex_inspect(1) by simp
qed

theorem host_only_answers_witness:
  "active ex_session ex_now \<and> \<not> po_revoked ex_policy1 \<and>
   (\<exists>key flags. session_packet ex_grant Host ex_answer key flags)"
proof -
  obtain p where p: "Allowed ex_session ex_now ex_answer False ex_policy1 = (Pass (), p)" using ex_pass(2) by blast
  have "se_grant ex_session = ex_grant" "sender_of ex_policy1 False = Host"
    by (simp_all add: ex_session_def ex_policy1_def ex_policy_def sender_of_def)
  then show ?thesis using host_only_answers [OF ex_trace _ p] by metis
qed

end
