(* ===== verification/P2pStoreProps.thy ===== *)
theory P2pStoreProps
  imports P2pScenario "HOL-Library.Countable"
begin

text \<open>
  The properties of the policy store and of the shared tunnel adapter.
\<close>

section \<open>The policy store\<close>

lemma created_ok:
  assumes codec: "state_codec_ok env tr" and c: "CreatePolicyStore env tr io f = (Inr p, f')"
  shows "\<exists>st. store_ok env p st" and "ap_trust p = tr"
proof -
  let ?st = "\<lparr>ps_Version = 1, ps_Trust = tr, ps_Revision = 0, ps_IssuedAt = 0, ps_Denied = Some [], ps_Reserved = []\<rparr>"
  have p: "p = \<lparr>ap_db = putPolicyState env ?st, ap_open = True, ap_trust = tr, ap_sessions = []\<rparr>"
    using c by (auto simp: CreatePolicyStore_def openPolicyStore_def Let_def split: if_splits)
  have "valid_state tr ?st" by (simp add: valid_state_def)
  then obtain st where "db_ok env tr (putPolicyState env ?st) st" using put_state [OF codec] by blast
  then show "\<exists>st. store_ok env p st" by (auto simp: p store_ok_def)
  show "ap_trust p = tr" by (simp add: p)
qed

lemma reached_ok:
  assumes "state_codec_ok env tr" and "CreatePolicyStore env tr io f = (Inr p0, f')" and "auth_run env P p0 p"
  shows "ap_trust p = tr" and "\<exists>st. store_ok env p st"
proof -
  obtain st0 where "store_ok env p0 st0" "ap_trust p0 = tr" using created_ok [OF assms(1,2)] by blast
  then obtain st where e: "evolves env P p0 st0 p st" using auth_run_evolves [OF _ _ assms(3)] assms(1) by metis
  then show "ap_trust p = tr" "\<exists>st. store_ok env p st" using \<open>ap_trust p0 = tr\<close> by (auto simp: evolves_def)
qed

lemma dead_inactive: "dead sid e p st \<Longrightarrow> map_of (ap_sessions p) sid = Some s \<Longrightarrow> \<not> active s t"
  by (auto simp: dead_def active_def)

lemma Track_Inr:
  assumes "Track env now1 now2 clock io ticket p = (Inr s, p')"
  obtains s' db where "track_tx env now2 (ap_trust p) (se_grant s') (ap_db p) = Inr db"
    "s = s'\<lparr>se_managed := True\<rparr> \<or> map_of (drop_expired clock (ap_sessions p)) (gr_SessionID (se_grant s')) = Some s"
proof -
  obtain s' where v: "VerifyGrant env ticket (tr_Issuer (ap_trust p)) (tr_ClusterID (ap_trust p)) 0 now1 = Inr s'"
    using assms by (cases "VerifyGrant env ticket (tr_Issuer (ap_trust p)) (tr_ClusterID (ap_trust p)) 0 now1")
      (simp_all add: Track_def split: if_splits)
  obtain db where t: "track_tx env now2 (ap_trust p) (se_grant s') (ap_db p) = Inr db"
    using assms by (cases "track_tx env now2 (ap_trust p) (se_grant s') (ap_db p)") (simp_all add: Track_def v Let_def split: if_splits)
  have "s = s'\<lparr>se_managed := True\<rparr> \<or> map_of (drop_expired clock (ap_sessions p)) (gr_SessionID (se_grant s')) = Some s"
    using assms by (auto simp: Track_def v t Let_def split: if_splits option.splits)
  then show ?thesis using that t by blast
qed

lemma dead_not_tracked:
  assumes ok: "store_ok env p st" and d: "dead sid e p st" and e: "unix_of now2 < e"
    and tr: "Track env now1 now2 clock io ticket p = (Inr s, p')"
  shows "gr_SessionID (se_grant s) \<noteq> sid"
proof
  assume sid: "gr_SessionID (se_grant s) = sid"
  have db: "policy_state_of env (ap_trust p) (ap_db p) = Inr st" and kd: "keys_distinct (ap_sessions p)"
    using ok by (simp_all add: store_ok_def db_ok_def)
  obtain s' db' where tx: "track_tx env now2 (ap_trust p) (se_grant s') (ap_db p) = Inr db'"
    and s: "s = s'\<lparr>se_managed := True\<rparr> \<or> map_of (drop_expired clock (ap_sessions p)) (gr_SessionID (se_grant s')) = Some s"
    by (rule Track_Inr [OF tr])
  have "gr_SessionID (se_grant s') = sid"
    using s sid map_of_drop_expired [OF kd] sessions_ids [OF ok] by (auto simp: session_ok_def)
  moreover have "denied_at st sid = e" using d by (simp add: dead_def denied_at_def)
  ultimately show False using tx e by (simp add: track_tx_def db)
qed

text \<open>C13. Stopping a session on the Device, or applying a checkpoint that does not list it, ends the session for
  good: whatever the store does afterwards (new checkpoints, tracking the same ticket again, closing,
  restarting from the file), as long as the clock shows a time before the session's own end, the session is
  never active again and the store never hands out a session of that identifier.\<close>

theorem ended_session_stays_ended:
  assumes codec: "state_codec_ok env tr" and create: "CreatePolicyStore env tr io f = (Inr p0, f')"
    and before: "auth_run env (\<lambda>_. True) p0 p" and s: "map_of (ap_sessions p) sid = Some s"
    and ended: "Stop env clock io' sid p = (None, p1) \<or> (Apply env now io' ticket p = (Inr revoked, p1) \<and> sid \<in> set revoked)"
    and after: "auth_run env (\<lambda>t. unix_of t < gr_ExpiresAt (se_grant s)) p1 p2"
  shows "(\<forall>s' t. map_of (ap_sessions p2) sid = Some s' \<longrightarrow> \<not> active s' t) \<and>
    (\<forall>now1 now2 clock io ticket s' p3. unix_of now2 < gr_ExpiresAt (se_grant s) \<and>
       Track env now1 now2 clock io ticket p2 = (Inr s', p3) \<longrightarrow> gr_SessionID (se_grant s') \<noteq> sid)"
proof -
  let ?e = "gr_ExpiresAt (se_grant s)"
  obtain st where ok: "store_ok env p st" and tr: "ap_trust p = tr" using reached_ok [OF codec create before] by blast
  have codec': "state_codec_ok env (ap_trust p)" using codec tr by simp
  obtain st1 where e1: "evolves env (\<lambda>_. True) p st p1 st1" and d1: "dead sid ?e p1 st1"
    using ended
  proof
    assume sp: "Stop env clock io' sid p = (None, p1)"
    show ?thesis using Stop_evolves [OF codec' ok _ sp, of "\<lambda>_. True"] that s by auto
  next
    assume "Apply env now io' ticket p = (Inr revoked, p1) \<and> sid \<in> set revoked"
    then show ?thesis using Apply_evolves [OF codec' ok, of "\<lambda>_. True" now io' ticket "Inr revoked" p1] that s by auto
  qed
  then have ok1: "store_ok env p1 st1" and tr1: "ap_trust p1 = tr" using tr by (simp_all add: evolves_def)
  obtain st2 where e2: "evolves env (\<lambda>t. unix_of t < ?e) p1 st1 p2 st2"
    using auth_run_evolves [OF _ ok1 after] codec tr1 by blast
  then have ok2: "store_ok env p2 st2" and d2: "dead sid ?e p2 st2" using d1 by (simp_all add: evolves_def)
  show ?thesis using dead_inactive [OF d2] dead_not_tracked [OF ok2 d2] by blast
qed

lemma check_allowed_set:
  "check_allowed env ss rv acc es = Inr allowed \<Longrightarrow> set allowed \<subseteq> set acc \<union> pn_SessionID ` set es"
proof (induction es arbitrary: acc)
  case (Cons x es)
  have "check_allowed env ss rv (pn_SessionID x # acc) es = Inr allowed" using Cons.prems by (auto split: option.splits if_splits)
  from Cons.IH [OF this] show ?case by auto
qed simp

text \<open>C21. Applying a checkpoint: when it fails, the file is as before and no session is active at any time; when it
  succeeds, the checkpoint was signed by the pinned issuer for this Device, its revision is above the stored
  one and becomes the stored one, and a session that is active afterwards is one the checkpoint lists, is
  not past the checkpoint's end, and has a grant of at most the checkpoint's revision.\<close>

theorem checkpoint_authorizes:
  assumes codec: "state_codec_ok env tr" and create: "CreatePolicyStore env tr io f = (Inr p0, f')"
    and run: "auth_run env (\<lambda>_. True) p0 p" and st: "policy_state_of env tr (ap_db p) = Inr st"
    and ap: "Apply env now io' ticket p = (r, p')"
  shows "case r of
      Inl e \<Rightarrow> ap_db p' = ap_db p \<and> \<not> (\<exists>sid s t. map_of (ap_sessions p') sid = Some s \<and> active s t)
    | Inr revoked \<Rightarrow>
        \<exists>c st'. decode_checkpoint env p ticket = Inr c \<and> cp_DeviceID c = tr_DeviceID tr \<and>
          policy_state_of env tr (ap_db p') = Inr st' \<and> ps_Revision st < cp_Revision c \<and> ps_Revision st' = cp_Revision c \<and>
          (\<forall>sid s t. map_of (ap_sessions p') sid = Some s \<and> active s t \<longrightarrow>
             sid \<in> pn_SessionID ` set (cp_Allowed c) \<and> unix_of t < cp_ExpiresAt c \<and> gr_Revision (se_grant s) \<le> cp_Revision c)"
proof -
  obtain st0 where ok0: "store_ok env p st0" and tr: "ap_trust p = tr" using reached_ok [OF codec create run] by blast
  then have ok: "store_ok env p st" using st by (simp add: store_ok_def db_ok_def)
  have codec': "state_codec_ok env (ap_trust p)" using codec tr by simp
  show ?thesis
  proof (cases r)
    case (Inl e)
    have p': "p' = FailClosed p" using Apply_Inl ap Inl by blast
    have "\<not> active s t" if "map_of (ap_sessions p') sid = Some s" for sid s t
      using that FailClosed_dead [of p sid s] FailClosed_sessions [of p sid] sessions_ids [OF ok]
      by (auto simp: p' active_def session_ok_def)
    then show ?thesis using Inl p' by auto
  next
    case (Inr revoked)
    obtain c allowed st' where c: "decode_checkpoint env p ticket = Inr c" "policy_in_scope (ap_trust p) now c"
      and al: "check_allowed env (ap_sessions p) (cp_Revision c) [] (cp_Allowed c) = Inr allowed"
      and a: "applied env now c allowed p st p' st'"
      using Apply_applied [OF codec' ok] ap Inr by metis
    have listed: "set allowed \<subseteq> pn_SessionID ` set (cp_Allowed c)" using check_allowed_set [OF al] by simp
    have act: "sid \<in> pn_SessionID ` set (cp_Allowed c) \<and> unix_of t < cp_ExpiresAt c \<and> gr_Revision (se_grant s) \<le> cp_Revision c"
      if m: "map_of (ap_sessions p') sid = Some s" and ac: "active s t" for sid s t
    proof -
      obtain s0 where s0: "map_of (ap_sessions p) sid = Some s0" "s = s0\<lparr>se_authorization := authorize now c allowed sid s0\<rparr>"
        using m unfolding applied_sessions [OF a, of sid] by auto
      have "se_managed s" using sessions_ids [OF ok s0(1)] by (simp add: s0(2) session_ok_def)
      then obtain w where "se_authorization s = Some w" "unix_of t < sa_expiresAt w"
        using ac by (auto simp: active_def split: option.splits)
      then have "sid \<in> set allowed" "unix_of t < cp_ExpiresAt c" by (auto simp: s0(2) authorize_def split: if_splits)
      moreover have "gr_Revision (se_grant s) \<le> cp_Revision c"
        using a calculation(1) s0 by (auto simp: applied_def)
      ultimately show ?thesis using listed by blast
    qed
    have st': "policy_state_of env tr (ap_db p') = Inr st'" "ps_Revision st < cp_Revision c" "ps_Revision st' = cp_Revision c"
      using a tr unfolding applied_def db_ok_def by auto
    show ?thesis using c st' act tr by (auto simp: Inr policy_in_scope_def intro!: exI [of _ c] exI [of _ st'])
  qed
qed

subsection \<open>A store\<close>

text \<open>A state codec by way of the countability of states.\<close>

fun addr_code :: "net_addr \<Rightarrow> addr + string" where
  "addr_code (V4 a) = Inl a"
| "addr_code (NotV4 s) = Inr s"

lemma addr_code_inject: "addr_code a = addr_code b \<Longrightarrow> a = b"
  by (cases a; cases b) auto

definition state_code where
  "state_code st = (ps_Version st, (tr_ClusterID (ps_Trust st), tr_DeviceID (ps_Trust st), tr_Issuer (ps_Trust st)),
     ps_Revision st, ps_IssuedAt st, ps_Denied st, map addr_code (ps_Reserved st))"

lemma state_code_inject: "state_code (st :: policy_state) = state_code st' \<Longrightarrow> st = st'"
  by (auto simp: state_code_def intro!: policy_state.equality trust.equality)
    (metis addr_code_inject inj_on_def list.inj_map_strong)

definition ex_put_state :: "policy_state \<Rightarrow> byte list" where
  "ex_put_state st = replicate (to_nat (state_code st)) 1"

definition ex_get_state :: "byte list \<Rightarrow> (policy_state \<times> byte list) option" where
  "ex_get_state raw = Some (inv ex_put_state raw, [])"

lemma ex_state_codec: "ex_get_state (ex_put_state st) = Some (st, [])"
proof -
  have "inj ex_put_state"
    by (rule injI) (metis ex_put_state_def length_replicate state_code_inject to_nat_split)
  then show ?thesis by (simp add: ex_get_state_def)
qed

definition ex_trust :: trust where
  "ex_trust = \<lparr>tr_ClusterID = ''c'', tr_DeviceID = ''d1'', tr_Issuer = ex_issuer\<rparr>"

definition ex_checkpoint :: checkpoint where
  "ex_checkpoint = \<lparr>cp_Version = 1, cp_ClusterID = ''c'', cp_DeviceID = ''d1'', cp_Revision = 5, cp_IssuedAt = 110, cp_ExpiresAt = 130,
     cp_Allowed = [\<lparr>pn_SessionID = ex_sid, pn_TicketSHA256 = hex_encode [1]\<rparr>]\<rparr>"

definition ex_auth :: authority_env where
  "ex_auth = \<lparr>pe_verify = pe_verify ex_p2p, pe_sign = pe_sign ex_p2p, pe_public = pe_public ex_p2p, pe_sha256 = pe_sha256 ex_p2p,
     pe_envelope = pe_envelope ex_p2p, pe_grant = pe_grant ex_p2p, pe_put_envelope = pe_put_envelope ex_p2p,
     pe_put_grant = pe_put_grant ex_p2p, ae_checkpoint = (\<lambda>_. Some (ex_checkpoint, [])), ae_state = ex_get_state,
     ae_put_state = ex_put_state\<rparr>"

lemma ex_codec: "state_codec_ok ex_auth tr"
  by (auto simp: state_codec_ok_def decodeStrict_def ex_auth_def ex_state_codec same_state_def valid_state_def)

lemma ex_auth_verify: "VerifyGrant ex_auth [1] ex_issuer ''c'' 0 ex_now = Inr ex_session"
proof -
  have "pe_verify ex_auth = pe_verify ex_p2p" "pe_envelope ex_auth = pe_envelope ex_p2p" "pe_grant ex_auth = pe_grant ex_p2p"
    by (simp_all add: ex_auth_def)
  then have "VerifyGrant ex_auth [1] ex_issuer ''c'' 0 ex_now = VerifyGrant ex_p2p [1] ex_issuer ''c'' 0 ex_now"
    by (simp only: VerifyGrant_def)
  then show ?thesis using ex_verify [of 0] by simp
qed

definition ex_state0 :: policy_state where
  "ex_state0 = \<lparr>ps_Version = 1, ps_Trust = ex_trust, ps_Revision = 0, ps_IssuedAt = 0, ps_Denied = Some [], ps_Reserved = []\<rparr>"

definition ex_store0 :: policy_store where
  "ex_store0 = \<lparr>ap_db = putPolicyState ex_auth ex_state0, ap_open = True, ap_trust = ex_trust, ap_sessions = []\<rparr>"

definition ex_state1 :: policy_state where
  "ex_state1 = ex_state0\<lparr>ps_Reserved := [V4 0x0A000002]\<rparr>"

definition ex_managed :: session where
  "ex_managed = ex_session\<lparr>se_managed := True\<rparr>"

definition ex_store1 :: policy_store where
  "ex_store1 = ex_store0\<lparr>ap_db := putPolicyState ex_auth ex_state1, ap_sessions := [(ex_sid, ex_managed)]\<rparr>"

lemma ex_states: "policy_state_of ex_auth ex_trust (ap_db ex_store0) = Inr ex_state0" "policy_state_of ex_auth ex_trust (ap_db ex_store1) = Inr ex_state1"
  using ex_private
  by (simp_all add: policy_state_of_def putPolicyState_def decodeStrict_def ex_auth_def ex_state_codec ex_store0_def ex_store1_def
      ex_state0_def ex_state1_def maxDenied_def MaxManagedSessions_def)

lemma ex_create: "CreatePolicyStore ex_auth ex_trust True None = (Inr ex_store0, Some (ap_db ex_store0))"
  by (simp add: CreatePolicyStore_def openPolicyStore_def ex_trust_def ex_issuer_def publicKeySize_def ex_store0_def ex_state0_def Let_def)

lemma ex_track: "Track ex_auth ex_now ex_now (\<lambda>_. ex_now) True [1] ex_store0 = (Inr ex_managed, ex_store1)"
proof -
  have g: "se_grant ex_session = ex_grant" "gr_SessionID ex_grant = ex_sid" "pt_DeviceID (participant_of ex_grant Initiator) = ''d1''"
    "remote_address ex_trust ex_grant = V4 0x0A000002"
    by (simp_all add: ex_session_def ex_grant_def ex_device_def remote_address_def ex_trust_def)
  have tx: "track_tx ex_auth ex_now ex_trust ex_grant (ap_db ex_store0) = Inr (putPolicyState ex_auth ex_state1)"
    by (simp add: track_tx_def ex_states g) (simp add: ex_state0_def ex_state1_def denied_at_def ex_now_def unix_of_def MaxManagedSessions_def)
  have p: "ap_open ex_store0" "ap_trust ex_store0 = ex_trust" "ap_sessions ex_store0 = []" by (simp_all add: ex_store0_def)
  have t: "tr_Issuer ex_trust = ex_issuer" "tr_ClusterID ex_trust = ''c''" "tr_DeviceID ex_trust = ''d1''" by (simp_all add: ex_trust_def)
  show ?thesis
    unfolding Track_def p t ex_auth_verify sum.case Let_def g tx
    by (simp add: p drop_expired_def MaxManagedSessions_def ex_store1_def ex_managed_def)
qed

lemma ex_run: "auth_run ex_auth (\<lambda>_. True) ex_store0 ex_store1"
  by (rule auth_run.more [OF auth_run.none auth_step.track [OF _ _ _ ex_track]]) simp_all

definition ex_stopped :: policy_store where
  "ex_stopped = ex_store1\<lparr>ap_db := putPolicyState ex_auth (ex_state1\<lparr>ps_Denied := Some [(ex_sid, 150)]\<rparr>)\<rparr>"

lemma ex_stop: "Stop ex_auth (\<lambda>_. ex_now) True ex_sid ex_store1 = (None, ex_stopped)"
proof -
  have f: "FailClosed ex_store1 = ex_store1"
    by (simp add: FailClosed_def set_authorization_def ex_store1_def ex_managed_def ex_session_def)
  have s: "ap_open ex_store1" "ap_trust ex_store1 = ex_trust" "map_of (ap_sessions ex_store1) ex_sid = Some ex_managed"
    by (simp_all add: ex_store1_def ex_store0_def)
  have tx: "stop_tx ex_auth (\<lambda>_. ex_now) ex_trust ex_sid ex_managed (ap_db ex_store1) =
      Inr (putPolicyState ex_auth (ex_state1\<lparr>ps_Denied := Some [(ex_sid, 150)]\<rparr>))"
    by (simp add: stop_tx_def ex_states)
      (simp add: ex_state1_def ex_state0_def unexpired_def maxDenied_def ex_managed_def ex_session_def ex_grant_def)
  show ?thesis unfolding Stop_def Let_def f by (simp add: s tx ex_stopped_def)
qed

theorem ended_session_stays_ended_witness:
  "\<not> (\<exists>s t. map_of (ap_sessions ex_stopped) ex_sid = Some s \<and> active s t) \<and>
   \<not> (\<exists>s p. Track ex_auth ex_now ex_now (\<lambda>_. ex_now) True [1] ex_stopped = (Inr s, p) \<and> gr_SessionID (se_grant s) = ex_sid)"
proof -
  have s: "map_of (ap_sessions ex_store1) ex_sid = Some ex_managed" by (simp add: ex_store1_def)
  have e: "unix_of ex_now < gr_ExpiresAt (se_grant ex_managed)"
    by (simp add: ex_now_def unix_of_def ex_managed_def ex_session_def ex_grant_def)
  note ended = ended_session_stays_ended [OF ex_codec ex_create ex_run s disjI1 [OF ex_stop] auth_run.none]
  show ?thesis using ended e by blast
qed

lemma ex_state1_revision: "ps_Revision ex_state1 = 0"
  by (simp add: ex_state1_def ex_state0_def)

lemma ex_apply: "\<exists>p. Apply ex_auth ex_now True [2] ex_store1 = (Inr [], p)"
proof -
  have p: "ap_open ex_store1" "ap_trust ex_store1 = ex_trust" "ap_sessions ex_store1 = [(ex_sid, ex_managed)]"
    by (simp_all add: ex_store1_def ex_store0_def)
  have d: "decode_checkpoint ex_auth ex_store1 [2] = Inr ex_checkpoint"
    by (simp add: decode_checkpoint_def p maxTicket_def decodeStrict_def ex_auth_def ex_p2p_def)
  have s: "policy_in_scope ex_trust ex_now ex_checkpoint"
    by (simp add: policy_in_scope_def ex_trust_def ex_checkpoint_def ex_now_def unix_of_def MaxManagedSessions_def)
  have a: "check_allowed ex_auth [(ex_sid, ex_managed)] (cp_Revision ex_checkpoint) [] (cp_Allowed ex_checkpoint) = Inr [ex_sid]"
    by (simp add: ex_checkpoint_def ex_managed_def ex_session_def ex_grant_def ex_auth_def ex_p2p_def)
  obtain db where "apply_checkpoint_tx ex_auth ex_now ex_trust [(ex_sid, ex_managed)] ex_checkpoint [ex_sid] (ap_db ex_store1) = Inr db"
    by (simp add: apply_checkpoint_tx_def ex_states)
      (simp add: ex_state1_def ex_state0_def ex_checkpoint_def unexpired_def denied_at_def ex_now_def unix_of_def maxDenied_def)
  then show ?thesis by (simp add: Apply_def d p s a)
qed

theorem checkpoint_authorizes_witness:
  "\<exists>c st p. decode_checkpoint ex_auth ex_store1 [2] = Inr c \<and> Apply ex_auth ex_now True [2] ex_store1 = (Inr [], p) \<and>
     policy_state_of ex_auth ex_trust (ap_db p) = Inr st \<and> ps_Revision st = cp_Revision c \<and> 0 < ps_Revision st"
proof -
  obtain p where p: "Apply ex_auth ex_now True [2] ex_store1 = (Inr [], p)" using ex_apply by blast
  from checkpoint_authorizes [OF ex_codec ex_create ex_run ex_states(2) p]
  obtain c st where "decode_checkpoint ex_auth ex_store1 [2] = Inr c" "policy_state_of ex_auth ex_trust (ap_db p) = Inr st"
    "ps_Revision ex_state1 < cp_Revision c" "ps_Revision st = cp_Revision c" by auto
  then show ?thesis using p ex_state1_revision by auto
qed

section \<open>The shared tunnel adapter\<close>

text \<open>C33. Once an address is reserved for a session, the gateway's side of the shared adapter never sees its
  traffic: whatever is attached, detached, dispatched or read afterwards, the gateway reads no packet to that
  address (not even one queued before the reservation) and none it writes reaches the adapter from it; and a
  session's device only reads packets to its own peer.\<close>

theorem reserved_traffic_separated:
  assumes "mux_run NewMuxTUN m" and "Reserve peer m = (None, m1)" and "mux_run m1 m2"
  shows "(\<forall>room x src dst m3. mux_Read room m2 = (Got x, m3) \<and> packetAddresses x = Some (src, dst) \<longrightarrow> V4 dst \<noteq> peer) \<and>
    (\<forall>fails offset bs e out x src dst. mux_Write fails offset bs m2 = (e, out) \<and> x \<in> set out \<and>
       packetAddresses x = Some (src, dst) \<longrightarrow> V4 src \<noteq> peer) \<and>
    (\<forall>room i x m3. i < length (mx_tuns m2) \<and> tun_Read room i m2 = (Got x, m3) \<longrightarrow>
       (\<exists>src dst. packetAddresses x = Some (src, dst) \<and> V4 dst = tu_peer (mx_tuns m2 ! i)))"
proof -
  have res: "map_of (mx_peers m2) peer \<noteq> None" by (rule run_keeps_reservation [OF assms(3) Reserve_reserved [OF assms(2)]])
  have "mux_ok m" by (rule mux_ok_run [OF assms(1) mux_ok_new])
  then have ok: "mux_ok m2" using mux_ok_reserve [OF _ assms(2)] mux_ok_run [OF assms(3)] by blast
  have rd: "V4 dst \<noteq> peer" if "mux_Read room m2 = (Got x, m3)" "packetAddresses x = Some (src, dst)" for room x src dst m3
    using that mux_Read_loop_Got res by (fastforce simp: mux_Read_def reserved_def split: prod.splits)
  have wr: "V4 src \<noteq> peer" if "mux_Write fails offset bs m2 = (e, out)" "x \<in> set out" "packetAddresses x = Some (src, dst)"
    for fails offset bs e out x src dst
    using mux_Write_out [OF that] res by (auto simp: reserved_def)
  have tun: "packet_for (tu_peer (mx_tuns m2 ! i)) x" if i: "i < length (mx_tuns m2)" and t: "tun_Read room i m2 = (Got x, m3)" for room i x m3
  proof -
    obtain q where "readPacket (tu_queue (mx_tuns m2 ! i)) (tu_done (mx_tuns m2 ! i)) room = (Got x, q)"
      using t by (auto simp: tun_Read_def Let_def split: prod.splits)
    then have "x \<in> set (tu_queue (mx_tuns m2 ! i))" using readPacket_shrinks by blast
    then show ?thesis using ok nth_mem [OF i] unfolding mux_ok_def by blast
  qed
  show ?thesis using rd wr tun unfolding packet_for_def by blast
qed

theorem reserved_traffic_separated_witness:
  "\<not> (\<exists>room x src m. mux_Read room (snd (Reserve (V4 0x0A000002) NewMuxTUN)) = (Got x, m) \<and>
     packetAddresses x = Some (src, 0x0A000002))"
proof -
  have "Reserve (V4 0x0A000002) NewMuxTUN = (None, snd (Reserve (V4 0x0A000002) NewMuxTUN))"
    using ex_private by (simp add: Reserve_def NewMuxTUN_def MaxManagedSessions_def)
  from reserved_traffic_separated [OF mux_run.none this mux_run.none] show ?thesis by blast
qed

end
