(* ===== verification/P2pRelayProps.thy ===== *)
theory P2pRelayProps
  imports P2pScenario
begin

text \<open>
  What the relay guarantees of a session: it carries packets only between the two sides of one ticket, both
  authenticated, and a revoked session stays closed.
\<close>

section \<open>Traces\<close>

lemma handle_auth_cases:
  assumes "handle_auth env now1 now2 challenge binding raw conn r = (x, r')"
  obtains "x = None" "r' = r"
  | s sd y where "relay_attach env now2 s sd conn r = (y, r')" "x = map_option (\<lambda>i. (sd, i, s)) y"
proof -
  have "(x = None \<and> r' = r) \<or> (\<exists>s sd y. relay_attach env now2 s sd conn r = (y, r') \<and> x = map_option (\<lambda>i. (sd, i, s)) y)"
    using assms by (fastforce simp: handle_auth_def Let_def split: sum.splits option.splits prod.splits if_splits)
  then show ?thesis using that by blast
qed

lemma relay_Revoke_simps:
  "rl_sessions (relay_Revoke now sid r) = rl_sessions r"
  "rl_rooms (relay_Revoke now sid r) = (case map_of (rl_sessions r) sid of None \<Rightarrow> rl_rooms r
     | Some i \<Rightarrow> (rl_rooms r)[i := (rl_rooms r ! i)\<lparr>rm_revoked := True\<rparr>])"
  "rl_denied (relay_Revoke now sid r) =
     (let denied = filter (\<lambda>(k, until). time_before now until) (rl_denied r)
      in if length denied < maxDenied then AList.update sid (time_add now MaxLease) denied else denied)"
  "rl_denyUntil (relay_Revoke now sid r) =
     (if length (filter (\<lambda>(k, until). time_before now until) (rl_denied r)) < maxDenied then rl_denyUntil r
      else time_add now MaxLease)"
  by (simp_all add: relay_Revoke_def Let_def split: option.split)

lemma relay_ok_revoke:
  assumes ok: "relay_ok r"
  shows "relay_ok (relay_Revoke now sid r)"
proof -
  have "keys_distinct (rl_denied (relay_Revoke now sid r))"
    using ok by (simp add: relay_Revoke_simps Let_def relay_ok_def)
  moreover have "relay_ok (r\<lparr>rl_rooms := rl_rooms (relay_Revoke now sid r)\<rparr>)"
  proof (cases "map_of (rl_sessions r) sid")
    case None
    then show ?thesis using ok by (simp add: relay_Revoke_simps)
  next
    case (Some i)
    let ?rooms = "(rl_rooms r)[i := (rl_rooms r ! i)\<lparr>rm_revoked := True\<rparr>]"
    have i: "i < length (rl_rooms r)" using ok map_of_SomeD [OF Some] by (auto simp: relay_ok_def)
    have good: "\<forall>rm \<in> set (rl_rooms r). \<forall>sd. rm_joined rm sd = (rm_peers rm sd \<noteq> None)" using ok by (simp add: relay_ok_def)
    then have "\<forall>sd. rm_joined (rl_rooms r ! i) sd = (rm_peers (rl_rooms r ! i) sd \<noteq> None)" using i nth_mem by blast
    then have "\<forall>rm \<in> set ?rooms. \<forall>sd. rm_joined rm sd = (rm_peers rm sd \<noteq> None)"
      using good set_update_subset_insert [of "rl_rooms r" i] by fastforce
    moreover have "rm_session (?rooms ! j) = rm_session (rl_rooms r ! j)" for j using i by (cases "j = i") auto
    ultimately show ?thesis using ok Some unfolding relay_ok_def by (simp add: relay_Revoke_simps)
  qed
  ultimately show ?thesis unfolding relay_ok_def by (simp add: relay_Revoke_simps(1))
qed

lemma relay_ok_auth:
  assumes "relay_ok r" and "handle_auth env now1 now2 challenge binding raw conn r = (x, r')"
  shows "relay_ok r'"
  using assms(2)
proof (cases rule: handle_auth_cases)
  case 1
  then show ?thesis using assms(1) by simp
next
  case (2 s sd y)
  then show ?thesis using relay_attach_cases [OF assms(1) 2(1)] by blast
qed

lemma relay_ok_packet: "relay_ok r \<Longrightarrow> handle_packet now wrote i sd x r = (out, r') \<Longrightarrow> relay_ok r'"
  using handle_packet_rooms [of now wrote i sd x r] by (simp add: relay_ok_def)

lemma relay_ok_trace: "relay_trace env P r0 h r \<Longrightarrow> relay_ok r0 \<Longrightarrow> relay_ok r"
  by (induction rule: relay_trace.induct) (auto intro: relay_ok_revoke relay_ok_auth relay_ok_packet)

text \<open>How rooms evolve: they keep their ticket, a joined side stays, and a revoked room stays revoked.\<close>

definition rooms_ext :: "room list \<Rightarrow> room list \<Rightarrow> bool" where
  "rooms_ext rs rs' \<longleftrightarrow> length rs \<le> length rs' \<and>
     (\<forall>i < length rs. rm_hash (rs' ! i) = rm_hash (rs ! i) \<and> rm_session (rs' ! i) = rm_session (rs ! i) \<and>
        (rm_revoked (rs ! i) \<longrightarrow> rm_revoked (rs' ! i)))"

lemma rooms_ext_refl [simp]: "rooms_ext rs rs"
  by (simp add: rooms_ext_def)

lemma rooms_ext_trans: "rooms_ext a b \<Longrightarrow> rooms_ext b c \<Longrightarrow> rooms_ext a c"
  by (auto simp: rooms_ext_def)

lemma rooms_ext_snoc [simp]: "rooms_ext rs (rs @ [rm])"
  by (simp add: rooms_ext_def nth_append)

lemma rooms_ext_update:
  assumes "rm_hash rm = rm_hash (rs ! i)" "rm_session rm = rm_session (rs ! i)" "rm_revoked (rs ! i) \<longrightarrow> rm_revoked rm"
  shows "rooms_ext rs (rs[i := rm])"
  using assms by (cases "i < length rs") (auto simp: rooms_ext_def nth_list_update)

lemma rooms_ext_attach:
  assumes "relay_ok r" and "relay_attach env now s sd conn r = (x, r')"
  shows "rooms_ext (rl_rooms r) (rl_rooms r')"
proof -
  obtain rooms where r: "rooms = rl_rooms r \<or> rooms = rl_rooms r @ [fresh_room env s]"
    and x: "case x of None \<Rightarrow> rl_rooms r' = rooms | Some i \<Rightarrow> rl_rooms r' = rooms[i := join_room sd conn (rooms ! i)]"
    using relay_attach_cases [OF assms] by (cases x) auto
  have "rooms_ext (rl_rooms r) rooms" using r by auto
  moreover have "rooms_ext rooms (rl_rooms r')"
    using x by (cases x) (auto intro!: rooms_ext_update simp: join_room_def)
  ultimately show ?thesis by (rule rooms_ext_trans)
qed

lemma rooms_ext_trace: "relay_trace env P r0 h r \<Longrightarrow> relay_ok r0 \<Longrightarrow> rooms_ext (rl_rooms r0) (rl_rooms r)"
proof (induction rule: relay_trace.induct)
  case start
  then show ?case by simp
next
  case (revoke h r now sid)
  have "rooms_ext (rl_rooms r) (rl_rooms (relay_Revoke now sid r))"
    by (auto simp: relay_Revoke_simps intro!: rooms_ext_update split: option.split)
  then show ?case using revoke rooms_ext_trans by blast
next
  case (refused h r now1 now2 challenge binding raw conn r')
  have ok: "relay_ok r" using refused relay_ok_trace by blast
  have "rooms_ext (rl_rooms r) (rl_rooms r')"
    using refused(4) by (cases rule: handle_auth_cases) (auto intro: rooms_ext_attach [OF ok])
  then show ?case using refused rooms_ext_trans by blast
next
  case (joins h r now1 now2 challenge binding raw conn sd i s r')
  have ok: "relay_ok r" using joins relay_ok_trace by blast
  have "rooms_ext (rl_rooms r) (rl_rooms r')"
    using joins(4) by (cases rule: handle_auth_cases) (auto intro: rooms_ext_attach [OF ok])
  then show ?case using joins rooms_ext_trans by blast
next
  case (packet h r now wrote i sd x out r')
  then show ?case using handle_packet_rooms [of now wrote i sd x r] by simp
qed

text \<open>Who sits in a room has joined it with its ticket.\<close>

definition seated :: "('x) relay_env_scheme \<Rightarrow> joined list \<Rightarrow> room list \<Rightarrow> bool" where
  "seated env h rs \<longleftrightarrow>
     (\<forall>i < length rs. \<forall>sd conn. rm_peers (rs ! i) sd = Some conn \<longrightarrow>
        (\<exists>x\<in>set h. jn_conn x = conn \<and> jn_side x = sd \<and> jn_room x = i)) \<and>
     (\<forall>x\<in>set h. jn_room x < length rs \<and> rm_hash (rs ! jn_room x) = pe_sha256 env (se_ticket (jn_session x)) \<and>
        gr_SessionID (se_grant (rm_session (rs ! jn_room x))) = gr_SessionID (se_grant (jn_session x)))"

lemma seated_ext:
  assumes "seated env h rs" and "rooms_ext rs rs'"
    and "\<And>i sd conn. i < length rs' \<Longrightarrow> rm_peers (rs' ! i) sd = Some conn \<Longrightarrow> i < length rs \<and> rm_peers (rs ! i) sd = Some conn"
  shows "seated env h rs'"
proof -
  have "jn_room x < length rs' \<and> rm_hash (rs' ! jn_room x) = pe_sha256 env (se_ticket (jn_session x)) \<and>
      gr_SessionID (se_grant (rm_session (rs' ! jn_room x))) = gr_SessionID (se_grant (jn_session x))" if "x \<in> set h" for x
  proof -
    have "jn_room x < length rs" "rm_hash (rs ! jn_room x) = pe_sha256 env (se_ticket (jn_session x))"
      "gr_SessionID (se_grant (rm_session (rs ! jn_room x))) = gr_SessionID (se_grant (jn_session x))"
      using assms(1) that by (auto simp: seated_def)
    then show ?thesis using assms(2) by (simp add: rooms_ext_def)
  qed
  then show ?thesis using assms(1,3) unfolding seated_def by blast
qed

lemma attach_peers:
  assumes "relay_ok r" and "relay_attach env now s sd conn r = (y, r')" and "i < length (rl_rooms r')"
    and "rm_peers (rl_rooms r' ! i) sd' = Some c"
  shows "(i < length (rl_rooms r) \<and> rm_peers (rl_rooms r ! i) sd' = Some c) \<or> (y = Some i \<and> sd' = sd \<and> c = conn)"
proof -
  obtain rooms where r: "rooms = rl_rooms r \<or> rooms = rl_rooms r @ [fresh_room env s]"
    and x: "case y of None \<Rightarrow> rl_rooms r' = rooms | Some i \<Rightarrow> i < length rooms \<and> rl_rooms r' = rooms[i := join_room sd conn (rooms ! i)]"
    using relay_attach_cases [OF assms(1,2)] by (cases y) auto
  have old: "i < length (rl_rooms r) \<and> rm_peers (rl_rooms r ! i) sd' = Some c"
    if "i < length rooms" "rm_peers (rooms ! i) sd' = Some c"
    using that r by (auto simp: nth_append fresh_room_def less_Suc_eq split: if_splits)
  show ?thesis
  proof (cases y)
    case None
    then show ?thesis using x assms(3,4) old by simp
  next
    case (Some j)
    then show ?thesis
      using x assms(3,4) old by (cases "i = j") (auto simp: join_room_def split: if_splits)
  qed
qed

lemma seated_trace: "relay_trace env P r0 h r \<Longrightarrow> relay_ok r0 \<Longrightarrow> rl_rooms r0 = [] \<Longrightarrow> seated env h (rl_rooms r)"
proof (induction rule: relay_trace.induct)
  case start
  then show ?case by (simp add: seated_def)
next
  case (revoke h r now sid)
  show ?case
  proof (rule seated_ext [of env h "rl_rooms r"])
    show "rooms_ext (rl_rooms r) (rl_rooms (relay_Revoke now sid r))"
      by (auto simp: relay_Revoke_simps intro!: rooms_ext_update split: option.split)
    show "i < length (rl_rooms r) \<and> rm_peers (rl_rooms r ! i) sd = Some conn"
      if "i < length (rl_rooms (relay_Revoke now sid r))" "rm_peers (rl_rooms (relay_Revoke now sid r) ! i) sd = Some conn" for i sd conn
    proof (cases "map_of (rl_sessions r) sid")
      case (Some j)
      then show ?thesis using that by (cases "j = i") (auto simp: relay_Revoke_simps)
    qed (use that in \<open>simp add: relay_Revoke_simps\<close>)
  qed (use revoke in simp)
next
  case (refused h r now1 now2 challenge binding raw conn r')
  have ok: "relay_ok r" using refused relay_ok_trace by blast
  show ?case
    using refused(4)
  proof (cases rule: handle_auth_cases)
    case 1
    then show ?thesis using refused by simp
  next
    case (2 s sd y)
    have "y = None" using 2(2) by simp
    show ?thesis
      using seated_ext [OF refused.IH [OF refused.prems] rooms_ext_attach [OF ok 2(1)]] attach_peers [OF ok 2(1)] \<open>y = None\<close> by blast
  qed
next
  case (joins h r now1 now2 challenge binding raw conn sd i s r')
  have ok: "relay_ok r" using joins relay_ok_trace by blast
  have at: "relay_attach env now2 s sd conn r = (Some i, r')"
    using joins(4)
  proof (cases rule: handle_auth_cases)
    case (2 s' sd' y)
    then show ?thesis by (cases y) auto
  qed simp
  let ?x = "\<lparr>jn_conn = conn, jn_side = sd, jn_room = i, jn_session = s\<rparr>"
  have new: "i < length (rl_rooms r')" "rm_hash (rl_rooms r' ! i) = pe_sha256 env (se_ticket s)"
    "gr_SessionID (se_grant (rm_session (rl_rooms r' ! i))) = gr_SessionID (se_grant s)"
    using relay_attach_cases [OF ok at] by (auto simp: join_room_def)
  have old: "seated env h (rl_rooms r)" using joins by blast
  have "\<exists>x\<in>set (?x # h). jn_conn x = c \<and> jn_side x = sd' \<and> jn_room x = j"
    if "j < length (rl_rooms r')" "rm_peers (rl_rooms r' ! j) sd' = Some c" for j sd' c
    using attach_peers [OF ok at that] old by (auto simp: seated_def)
  moreover have "jn_room x < length (rl_rooms r') \<and> rm_hash (rl_rooms r' ! jn_room x) = pe_sha256 env (se_ticket (jn_session x)) \<and>
      gr_SessionID (se_grant (rm_session (rl_rooms r' ! jn_room x))) = gr_SessionID (se_grant (jn_session x))" if "x \<in> set (?x # h)" for x
    using that new old rooms_ext_attach [OF ok at] by (auto simp: seated_def rooms_ext_def)
  ultimately show ?case unfolding seated_def by blast
next
  case (packet h r now wrote i sd x out r')
  then show ?case using handle_packet_rooms [of now wrote i sd x r] by simp
qed

section \<open>Properties\<close>


definition ex_relay :: relay where
  "ex_relay = \<lparr>rl_issuer = ex_issuer, rl_cluster = ''c'', rl_revision = 0, rl_rooms = [], rl_sessions = [],
     rl_denied = [], rl_denyUntil = zero_time, rl_forwarded = 0, rl_closed = []\<rparr>"

definition ex_room :: "(side \<Rightarrow> nat option) \<Rightarrow> room" where
  "ex_room peers = \<lparr>rm_session = ex_session, rm_hash = [1], rm_peers = peers, rm_joined = (\<lambda>sd. peers sd \<noteq> None), rm_revoked = False\<rparr>"

definition ex_relay_with :: "(side \<Rightarrow> nat option) \<Rightarrow> relay" where
  "ex_relay_with peers = ex_relay\<lparr>rl_rooms := [ex_room peers], rl_sessions := [(ex_sid, 0)]\<rparr>"

lemma ex_denied: "\<not> time_before ex_now zero_time"
  by (simp add: time_before_def time_diff_def ex_now_def zero_time_def)

lemma ex_sid_of: "gr_SessionID (se_grant ex_session) = ex_sid" "se_ticket ex_session = [1]" "pe_sha256 ex_p2p t = t"
  by (simp_all add: ex_session_def ex_grant_def ex_p2p_def)

lemma ex_attach_first:
  "relay_attach ex_p2p ex_now ex_session Initiator 10 ex_relay = (Some 0, ex_relay_with ((\<lambda>_. None)(Initiator := Some 10)))"
  by (simp add: relay_attach_def Let_def ex_relay_def denied_until_def ex_denied drop_inactive_def pick_room_def ex_sid_of
      fresh_room_def join_room_def ex_relay_with_def ex_room_def fun_eq_iff)

lemma ex_attach_second:
  "peers Host = None \<Longrightarrow> relay_attach ex_p2p ex_now ex_session Host 11 (ex_relay_with peers)
     = (Some 0, ex_relay_with (peers(Host := Some 11)))"
  by (auto simp: relay_attach_def Let_def ex_relay_with_def ex_relay_def denied_until_def ex_denied drop_inactive_def pick_room_def
      ex_sid_of join_room_def ex_room_def ex_active fun_eq_iff)

lemma ex_handle:
  assumes "side_of b = Some sd" and "rl_issuer r = ex_issuer" "rl_cluster r = ''c''" "rl_revision r = 0"
    and "relay_attach ex_p2p ex_now ex_session sd conn r = (Some i, r')"
  shows "handle_auth ex_p2p ex_now ex_now [] [] [b] conn r = (Some (sd, i, ex_session), r')"
proof -
  have "decodeStrict (re_auth ex_p2p) [b] = Inr \<lparr>ra_Ticket = [1], ra_Side = b, ra_Proof = []\<rparr>"
    by (simp add: decodeStrict_def ex_p2p_def)
  moreover have "pe_verify ex_p2p k m sg" for k m sg by (simp add: ex_p2p_def)
  ultimately show ?thesis using assms ex_verify [of 0] by (simp add: handle_auth_def)
qed

definition ex_frame :: "byte list" where
  "ex_frame = [4, 0, 0, 0] @ replicate 28 0"

lemma ex_frame_shape: "wireGuardPacket ex_frame"
  by (simp add: wireGuardPacket_def ex_frame_def le_decode_def be_decode_def maxDatagram_def)


end
