(* ===== verification/WgTcp.thy ===== *)
theory WgTcp
  imports Framing WgCodec
begin

text \<open>
  \<^verbatim>\<open>internal/wgshim/tcp.go\<close>: WireGuard packets over a TCP stream. Frames and their stream; the client's
  link, which forgets a connection after a failed write; and the server, whose connections each bind to
  the one peer whose key opened the first frame and end when that peer is removed, changes or fails to
  authenticate. Dialling, the sockets' answers and the table loader are arguments.
\<close>

section \<open>Frames\<close>

definition tcpFrameHeaderSize :: nat where "tcpFrameHeaderSize = 4"
definition maxTCPFrameSize :: nat where "maxTCPFrameSize = 65535"

definition writeAll :: "write_step list \<Rightarrow> byte list \<Rightarrow> io_error option \<times> byte list \<times> write_step list" where
  "writeAll ws payload = write_all UnexpectedEOF ws payload"

definition writeTCPFrame :: "write_step list \<Rightarrow> byte list \<Rightarrow> io_error option \<times> byte list \<times> write_step list" where
  "writeTCPFrame ws payload =
     (if length payload = 0 \<or> maxTCPFrameSize < length payload then (Some (BadFrameSize (length payload)), [], ws)
      else case writeAll ws (be_encode tcpFrameHeaderSize (length payload)) of
             (Some e, out, ws) \<Rightarrow> (Some e, out, ws)
           | (None, out, ws) \<Rightarrow> (case writeAll ws payload of (e, out', ws) \<Rightarrow> (e, out @ out', ws)))"

definition readTCPFrame :: "byte list \<Rightarrow> io_error + byte list \<times> byte list" where
  "readTCPFrame s =
     (case read_full tcpFrameHeaderSize s of
        Inl e \<Rightarrow> Inl e
      | Inr (header, s) \<Rightarrow>
          let n = be_decode header
          in if n \<le> 0 \<or> maxTCPFrameSize < n then Inl (BadFrameSize n) else read_full n s)"

text \<open>Sending one payload after the other on a connection: the errors of the sends and the bytes that went out.\<close>

fun send_frames :: "write_step list \<Rightarrow> byte list list \<Rightarrow> io_error option list \<times> byte list" where
  "send_frames ws [] = ([], [])"
| "send_frames ws (p # ps) =
     (case writeTCPFrame ws p of
        (e, out, ws) \<Rightarrow> (case send_frames ws ps of (es, out') \<Rightarrow> (e # es, out @ out')))"

section \<open>The client's link\<close>

record tcp_link =
  tl_conn :: "nat option"
  tl_closed :: "nat list"

definition link_set :: "nat \<Rightarrow> tcp_link \<Rightarrow> tcp_link" where
  "link_set c l = l\<lparr>tl_conn := Some c\<rparr>"

definition link_clear :: "nat \<Rightarrow> tcp_link \<Rightarrow> tcp_link" where
  "link_clear expected l = (if tl_conn l = Some expected then l\<lparr>tl_conn := None\<rparr> else l)"

definition link_connected :: "tcp_link \<Rightarrow> bool" where
  "link_connected l \<longleftrightarrow> tl_conn l \<noteq> None"

definition link_close :: "tcp_link \<Rightarrow> tcp_link" where
  "link_close l = (case tl_conn l of None \<Rightarrow> l | Some c \<Rightarrow> l\<lparr>tl_closed := c # tl_closed l\<rparr>)"

datatype link_error = Disconnected | LinkIO io_error

text \<open>\<open>ws\<close> are the answers of the current connection. A failed write gives the connection up.\<close>

definition link_send :: "write_step list \<Rightarrow> byte list \<Rightarrow> tcp_link \<Rightarrow> link_error option \<times> byte list \<times> tcp_link" where
  "link_send ws payload l =
     (case tl_conn l of
        None \<Rightarrow> (Some Disconnected, [], l)
      | Some c \<Rightarrow>
          (case writeTCPFrame ws payload of
             (None, out, _) \<Rightarrow> (None, out, l)
           | (Some e, out, _) \<Rightarrow> (Some (LinkIO e), out, (link_clear c l)\<lparr>tl_closed := c # tl_closed l\<rparr>)))"

section \<open>The server\<close>

record multi_peer =
  mp_Fingerprint :: string
  mp_RX :: "codec option"
  mp_TX :: "codec option"

record stats =
  sx_InnerTX :: u64
  sx_InnerRX :: u64
  sx_OuterTX :: u64
  sx_OuterRX :: u64
  sx_AuthDrops :: u64
  sx_NoPeerDrop :: u64

type_synonym peer_table = "(string \<times> multi_peer) list"

definition valid_table :: "peer_table \<Rightarrow> bool" where
  "valid_table t \<longleftrightarrow>
     list_all (\<lambda>(pid, peer). pid \<noteq> [] \<and> mp_RX peer \<noteq> None \<and> mp_TX peer \<noteq> None \<and> mp_Fingerprint peer \<noteq> []) t"

text \<open>\<open>loaded\<close> is what the loader returns, \<^const>\<open>None\<close> on an error; the table stays when the load is refused.\<close>

definition reloadPeers :: "peer_table option \<Rightarrow> peer_table \<Rightarrow> bool \<times> peer_table" where
  "reloadPeers loaded peers =
     (case loaded of
        None \<Rightarrow> (False, peers)
      | Some table \<Rightarrow> if valid_table table then (True, table) else (False, peers))"

fun matchPeer :: "crypto \<Rightarrow> peer_table \<Rightarrow> byte list \<Rightarrow> (string \<times> multi_peer \<times> byte \<times> byte list) option" where
  "matchPeer cr [] frame = None"
| "matchPeer cr ((pid, peer) # ps) frame =
     (case OpenTyped cr (the (mp_RX peer)) frame of
        Inl _ \<Rightarrow> matchPeer cr ps frame
      | Inr (packetType, inner) \<Rightarrow> Some (pid, peer, packetType, inner))"

text \<open>A connection: the peer it is bound to (none yet: the empty identifier) and whether its target socket is open.\<close>

record tcp_conn =
  tc_peerID :: string
  tc_fingerprint :: string
  tc_target :: bool

datatype conn_output = ToClient "byte list" | ToTarget "byte list"

record conn_env =
  cn_crypto :: crypto
  cn_random :: random
  cn_write :: bool
  cn_dial :: bool
  cn_target :: bool

text \<open>Who sent the frame: the bound peer, or the first peer of the table that opens it.\<close>

definition identify ::
  "conn_env \<Rightarrow> peer_table \<Rightarrow> byte list \<Rightarrow> tcp_conn \<Rightarrow> stats \<Rightarrow>
   (tcp_conn \<times> multi_peer \<times> byte \<times> byte list) option \<times> stats" where
  "identify env peers frame c st =
     (if tc_peerID c = [] then
        (case matchPeer (cn_crypto env) peers frame of
           None \<Rightarrow> (None, st\<lparr>sx_AuthDrops := sx_AuthDrops st + 1\<rparr>)
         | Some (pid, peer, packetType, inner) \<Rightarrow>
             (Some (c\<lparr>tc_peerID := pid, tc_fingerprint := mp_Fingerprint peer\<rparr>, peer, packetType, inner), st))
      else case map_of peers (tc_peerID c) of
             None \<Rightarrow> (None, st)
           | Some peer \<Rightarrow>
               if mp_Fingerprint peer \<noteq> tc_fingerprint c then (None, st)
               else (case OpenTyped (cn_crypto env) (the (mp_RX peer)) frame of
                       Inl _ \<Rightarrow> (None, st\<lparr>sx_AuthDrops := sx_AuthDrops st + 1\<rparr>)
                     | Inr (packetType, inner) \<Rightarrow> (Some (c, peer, packetType, inner), st)))"

text \<open>One frame read from a connection: the connection afterwards, \<^const>\<open>None\<close> when the handler returns and closes
  it, and what was sent.\<close>

definition conn_frame ::
  "conn_env \<Rightarrow> peer_table \<Rightarrow> byte list \<Rightarrow> tcp_conn \<Rightarrow> stats \<Rightarrow> tcp_conn option \<times> conn_output list \<times> stats" where
  "conn_frame env peers frame c st0 =
     (let st = st0\<lparr>sx_OuterRX := sx_OuterRX st0 + word_of_nat (length frame)\<rparr>
      in case identify env peers frame c st of
           (None, st) \<Rightarrow> (None, [], st)
         | (Some (c, peer, packetType, inner), st) \<Rightarrow>
             if IsProbe packetType then
               (case SealProbeReply (cn_crypto env) (the (mp_TX peer)) (cn_random env) inner of
                  (Inl _, _) \<Rightarrow> (Some c, [], st)
                | (Inr reply, _) \<Rightarrow>
                    if \<not> cn_write env \<or> length reply = 0 \<or> maxTCPFrameSize < length reply then (None, [], st)
                    else (Some c, [ToClient reply], st\<lparr>sx_OuterTX := sx_OuterTX st + word_of_nat (length reply)\<rparr>))
             else if \<not> IsData packetType then (Some c, [], st)
             else if \<not> tc_target c \<and> \<not> cn_dial env then (None, [], st)
             else if \<not> cn_target env then (None, [], st)
             else (Some (c\<lparr>tc_target := True\<rparr>), [ToTarget inner],
                   st\<lparr>sx_InnerTX := sx_InnerTX st + word_of_nat (length inner)\<rparr>))"

text \<open>A packet from the connection's target socket; \<^const>\<open>None\<close> ends the reader of the target.\<close>

definition conn_return ::
  "conn_env \<Rightarrow> peer_table \<Rightarrow> byte list \<Rightarrow> tcp_conn \<Rightarrow> stats \<Rightarrow> tcp_conn option \<times> conn_output list \<times> stats" where
  "conn_return env peers packet c st =
     (case map_of peers (tc_peerID c) of
        None \<Rightarrow> (None, [], st)
      | Some current \<Rightarrow>
          if mp_Fingerprint current \<noteq> tc_fingerprint c then (None, [], st)
          else (case Seal (cn_crypto env) (the (mp_TX current)) (cn_random env) packet of
                  (Inl _, _) \<Rightarrow> (Some c, [], st)
                | (Inr outer, _) \<Rightarrow>
                    if \<not> cn_write env \<or> length outer = 0 \<or> maxTCPFrameSize < length outer then (None, [], st)
                    else (Some c, [ToClient outer],
                          st\<lparr>sx_InnerRX := sx_InnerRX st + word_of_nat (length packet),
                             sx_OuterTX := sx_OuterTX st + word_of_nat (length outer)\<rparr>)))"

section \<open>The stream\<close>

lemma readTCPFrame_limited: "readTCPFrame = read_limited maxTCPFrameSize"
  by (rule ext) (auto simp: readTCPFrame_def read_limited_def tcpFrameHeaderSize_def Let_def split: sum.splits prod.splits)

definition tcp_wire :: "byte list \<Rightarrow> byte list option" where
  "tcp_wire p = (case writeTCPFrame [] p of (None, out, _) \<Rightarrow> Some out | _ \<Rightarrow> None)"

lemma tcp_wire_eq: "tcp_wire = (\<lambda>p. if p = [] \<or> maxTCPFrameSize < length p then None else Some (frame_bytes p))"
proof
  fix p
  have "writeAll [] q = (None, q, [])" for q by (cases q) (simp_all add: writeAll_def)
  then show "tcp_wire p = (if p = [] \<or> maxTCPFrameSize < length p then None else Some (frame_bytes p))"
    by (simp add: tcp_wire_def writeTCPFrame_def frame_bytes_def tcpFrameHeaderSize_def)
qed

interpretation tcp_frames: framing tcp_wire readTCPFrame
proof -
  have "framing (\<lambda>p. if p = [] \<or> maxTCPFrameSize < length p then None else Some (frame_bytes p)) (read_limited maxTCPFrameSize)"
    by (rule framing_limited) (simp add: maxTCPFrameSize_def)
  then show "framing tcp_wire readTCPFrame"
    unfolding readTCPFrame_limited tcp_wire_eq .
qed

text \<open>Whatever pieces the connection takes, a send without an error puts exactly the frame on the wire.\<close>

lemma writeTCPFrame_wire:
  assumes "writeTCPFrame ws p = (None, out, ws')"
  shows "tcp_wire p = Some out"
proof -
  have p: "p \<noteq> []" "\<not> maxTCPFrameSize < length p" using assms by (auto simp: writeTCPFrame_def split: if_splits)
  obtain out1 ws1 out2 ws2 where "writeAll ws (be_encode tcpFrameHeaderSize (length p)) = (None, out1, ws1)"
    "writeAll ws1 p = (None, out2, ws2)" "out = out1 @ out2"
    using assms p by (auto simp: writeTCPFrame_def split: prod.splits option.splits if_splits)
  then have "out = be_encode 4 (length p) @ p"
    using write_all_out unfolding writeAll_def tcpFrameHeaderSize_def by blast
  then show ?thesis using p by (simp add: tcp_wire_eq frame_bytes_def del: be_encode.simps)
qed

lemma send_frames_wire:
  "send_frames ws ps = (es, out) \<Longrightarrow> set es \<subseteq> {None} \<Longrightarrow>
     \<exists>wires. list_all2 (\<lambda>p w. tcp_wire p = Some w) ps wires \<and> out = concat wires"
proof (induction ps arbitrary: ws es out)
  case (Cons p ps)
  obtain e o1 ws1 where w: "writeTCPFrame ws p = (e, o1, ws1)" by (metis prod_cases3)
  obtain es1 o2 where r: "send_frames ws1 ps = (es1, o2)" by fastforce
  have "e = None" "set es1 \<subseteq> {None}" "out = o1 @ o2" using Cons.prems w r by auto
  moreover obtain wires where "list_all2 (\<lambda>p w. tcp_wire p = Some w) ps wires" "o2 = concat wires"
    using Cons.IH [OF r] calculation(2) by blast
  ultimately show ?case using writeTCPFrame_wire w by (intro exI [of _ "o1 # wires"]) simp
qed simp

section \<open>Properties\<close>

text \<open>The TCP framing keeps packet boundaries. When a sequence of packets was sent without an error, in whatever
  pieces the connection took the bytes, the receiver of the whole stream reads exactly these packets and
  then the end; and when the stream breaks off after any number of bytes, it reads a prefix of the sequence
  and then an error, never a packet that was not sent.\<close>

theorem tcp_stream_faithful:
  assumes "send_frames ws ps = (es, out)" and "set es \<subseteq> {None}" and "k \<le> length out"
  shows "\<exists>m e. m \<le> length ps \<and> read_frames readTCPFrame (Suc k) (take k out) = (take m ps, Some e) \<and>
    (k = length out \<longrightarrow> m = length ps \<and> e = EndOfFile)"
proof -
  obtain wires where "list_all2 (\<lambda>p w. tcp_wire p = Some w) ps wires" and out: "out = concat wires"
    using send_frames_wire [OF assms(1,2)] by blast
  from tcp_frames.read_cut [OF this(1), of k "Suc k"] show ?thesis using assms(3) unfolding out by simp
qed

lemma ex_send: "send_frames [Wrote 1, Wrote 2, Wrote 9, Wrote 1] [[7, 8], [9]] = ([None, None], [0, 0, 0, 2, 7, 8, 0, 0, 0, 1, 9])"
proof -
  have "(4 :: nat) = Suc (Suc (Suc (Suc 0)))" by simp
  then have "be_encode 4 (Suc (Suc 0)) = [0, 0, 0, 2]" "be_encode 4 (Suc 0) = [0, 0, 0, 1]" by (simp_all only: be_encode.simps) simp_all
  then show ?thesis
    by (simp add: writeTCPFrame_def writeAll_def tcpFrameHeaderSize_def maxTCPFrameSize_def del: be_encode.simps)
qed

theorem tcp_stream_faithful_witness:
  "read_frames readTCPFrame 12 [0, 0, 0, 2, 7, 8, 0, 0, 0, 1, 9] = ([[7, 8], [9]], Some EndOfFile)"
proof -
  have "set [None, None :: io_error option] \<subseteq> {None}" by simp
  from tcp_stream_faithful [OF ex_send this, of 11] show ?thesis by simp
qed

text \<open>C32. A TCP connection stays bound to the peer that opened it. Once a frame has bound it, every frame that is answered
  or forwarded afterwards opens under the receive key that the table has for that peer at that moment, with
  the fingerprint the connection was bound with; a removed or rekeyed peer ends the connection and nothing
  is sent, in either direction.\<close>

theorem tcp_connection_bound:
  assumes "conn_frame env peers frame c st = (c', out, st')" and "tc_peerID c \<noteq> []"
  shows "(c' \<noteq> None \<longrightarrow>
      (\<exists>peer t inner. map_of peers (tc_peerID c) = Some peer \<and> mp_Fingerprint peer = tc_fingerprint c \<and>
         OpenTyped (cn_crypto env) (the (mp_RX peer)) frame = Inr (t, inner) \<and>
         tc_peerID (the c') = tc_peerID c \<and> tc_fingerprint (the c') = tc_fingerprint c \<and>
         (\<forall>x\<in>set out. x = ToTarget inner \<and> IsData t \<or> (\<exists>reply. x = ToClient reply) \<and> IsProbe t))) \<and>
    (c' = None \<longrightarrow> out = []) \<and>
    (\<forall>packet c'' out' st''. conn_return env peers packet c st = (c'', out', st'') \<and> out' \<noteq> [] \<longrightarrow>
       (\<exists>peer. map_of peers (tc_peerID c) = Some peer \<and> mp_Fingerprint peer = tc_fingerprint c))"
proof (intro conjI impI)
  show "c' = None \<Longrightarrow> out = []"
    using assms(1) by (auto simp: conn_frame_def Let_def split: prod.splits option.splits if_splits sum.splits)
next
  assume "c' \<noteq> None"
  define st1 where "st1 = st\<lparr>sx_OuterRX := sx_OuterRX st + word_of_nat (length frame)\<rparr>"
  obtain c1 peer t inner st2 where i: "identify env peers frame c st1 = (Some (c1, peer, t, inner), st2)"
    using assms(1) \<open>c' \<noteq> None\<close> unfolding conn_frame_def Let_def st1_def [symmetric]
    by (cases "identify env peers frame c st1") (auto split: option.splits)
  then have who: "map_of peers (tc_peerID c) = Some peer" "mp_Fingerprint peer = tc_fingerprint c"
    "OpenTyped (cn_crypto env) (the (mp_RX peer)) frame = Inr (t, inner)" "c1 = c"
    using assms(2) by (auto simp: identify_def split: if_splits option.splits sum.splits)
  have "tc_peerID (the c') = tc_peerID c" "tc_fingerprint (the c') = tc_fingerprint c"
    "\<forall>x\<in>set out. x = ToTarget inner \<and> IsData t \<or> (\<exists>reply. x = ToClient reply) \<and> IsProbe t"
    using assms(1) \<open>c' \<noteq> None\<close> i who(4) unfolding conn_frame_def Let_def st1_def [symmetric]
    by (auto split: if_splits sum.splits prod.splits)
  then show "\<exists>peer t inner. map_of peers (tc_peerID c) = Some peer \<and> mp_Fingerprint peer = tc_fingerprint c \<and>
         OpenTyped (cn_crypto env) (the (mp_RX peer)) frame = Inr (t, inner) \<and>
         tc_peerID (the c') = tc_peerID c \<and> tc_fingerprint (the c') = tc_fingerprint c \<and>
         (\<forall>x\<in>set out. x = ToTarget inner \<and> IsData t \<or> (\<exists>reply. x = ToClient reply) \<and> IsProbe t)"
    using who by blast
next
  show "\<forall>packet c'' out' st''. conn_return env peers packet c st = (c'', out', st'') \<and> out' \<noteq> [] \<longrightarrow>
       (\<exists>peer. map_of peers (tc_peerID c) = Some peer \<and> mp_Fingerprint peer = tc_fingerprint c)"
    by (auto simp: conn_return_def split: option.splits if_splits)
qed

definition ex_crypto :: crypto where
  "ex_crypto = \<lparr>sha256_sum = (\<lambda>m. take 32 (m @ replicate 32 0)), hmac_sha256 = (\<lambda>k m. take 32 (m @ replicate 32 0)),
     gcm_seal = (\<lambda>k n p ad. p @ replicate 16 0), gcm_open = (\<lambda>k n c ad. Some (take (length c - 16) c))\<rparr>"

definition ex_peers :: peer_table where
  "ex_peers = [(''a'', \<lparr>mp_Fingerprint = ''f'', mp_RX = Some \<lparr>codec_key = [], paddingMin = 0, paddingMax = 0\<rparr>,
     mp_TX = Some \<lparr>codec_key = [], paddingMin = 0, paddingMax = 0\<rparr>\<rparr>)]"

definition ex_conn_env :: conn_env where
  "ex_conn_env = \<lparr>cn_crypto = ex_crypto, cn_random = [], cn_write = True, cn_dial = True, cn_target = True\<rparr>"

definition ex_stats :: stats where
  "ex_stats = \<lparr>sx_InnerTX = 0, sx_InnerRX = 0, sx_OuterTX = 0, sx_OuterRX = 0, sx_AuthDrops = 0, sx_NoPeerDrop = 0\<rparr>"

theorem tcp_connection_bound_witness:
  "fst (conn_frame ex_conn_env ex_peers [1, 2, 3] \<lparr>tc_peerID = ''b'', tc_fingerprint = ''f'', tc_target = True\<rparr> ex_stats) = None \<and>
   fst (snd (conn_frame ex_conn_env ex_peers [1, 2, 3] \<lparr>tc_peerID = ''b'', tc_fingerprint = ''f'', tc_target = True\<rparr> ex_stats)) = []"
proof -
  let ?c = "\<lparr>tc_peerID = ''b'', tc_fingerprint = ''f'', tc_target = True\<rparr>"
  obtain c' out st' where r: "conn_frame ex_conn_env ex_peers [1, 2, 3] ?c ex_stats = (c', out, st')" by (metis prod_cases3)
  have "c' = None"
    using tcp_connection_bound [OF r] by (auto simp: ex_peers_def)
  then show ?thesis using tcp_connection_bound [OF r] r by simp
qed

end
