(* ===== verification/WgPath.thy ===== *)
theory WgPath
  imports GoTime Float64
begin

text \<open>
  \<^verbatim>\<open>internal/wgshim/path.go\<close>: which of several already probed relay endpoints carries the tunnel. Probe rounds
  update each path's health, \<^verbatim>\<open>Select\<close> decides, and a switch is rolled back when no traffic comes over the
  new path. An index of \<open>-1\<close> is \<^const>\<open>None\<close>; an index out of range is a panic, the result \<^const>\<open>None\<close> of an
  operation. Every floating-point operation is rounded on its own, as on amd64.
\<close>

section \<open>Data\<close>

record path_policy =
  MinimumImprovement :: duration
  MinimumStableDuration :: duration
  FailurePenalty :: duration
  RecoveryCooldown :: duration
  FailureThreshold :: int

definition policy_defaults :: "path_policy \<Rightarrow> path_policy" where
  "policy_defaults p =
     \<lparr>MinimumImprovement = (if MinimumImprovement p \<le> 0 then 15 * millisecond else MinimumImprovement p),
      MinimumStableDuration = (if MinimumStableDuration p \<le> 0 then 5 * second else MinimumStableDuration p),
      FailurePenalty = (if FailurePenalty p \<le> 0 then 250 * millisecond else FailurePenalty p),
      RecoveryCooldown = (if RecoveryCooldown p \<le> 0 then 10 * second else RecoveryCooldown p),
      FailureThreshold = (if FailureThreshold p \<le> 0 then 2 else FailureThreshold p)\<rparr>"

record path_health =
  ph_Node :: string
  ph_Endpoint :: string
  ph_Reachable :: bool
  ph_RTTMS :: f64
  ph_LossPercent :: f64
  ph_JitterMS :: f64
  ph_LastSuccess :: gotime
  ph_FailureCount :: u64
  ph_ConsecutiveFailures :: int
  ph_State :: string
  ph_LastTraffic :: gotime

record path_state = path_health +
  ps_samples :: "bool list"
  ps_lastRTT :: duration
  ps_failedAt :: gotime
  ps_recoveredAt :: gotime

record path_manager =
  pm_policy :: path_policy
  pm_paths :: "path_state list"
  pm_active :: nat
  pm_candidate :: "nat option"
  pm_candidateSince :: gotime
  pm_migratingFrom :: "nat option"
  pm_migrationStarted :: gotime

definition fresh_path :: "string \<Rightarrow> path_state" where
  "fresh_path endpoint =
     \<lparr>ph_Node = [], ph_Endpoint = endpoint, ph_Reachable = False, ph_RTTMS = 0, ph_LossPercent = 0, ph_JitterMS = 0,
      ph_LastSuccess = zero_time, ph_FailureCount = 0, ph_ConsecutiveFailures = 0, ph_State = [], ph_LastTraffic = zero_time,
      ps_samples = [], ps_lastRTT = 0, ps_failedAt = zero_time, ps_recoveredAt = zero_time\<rparr>"

definition NewPathManager :: "string list \<Rightarrow> path_policy \<Rightarrow> path_manager" where
  "NewPathManager endpoints policy =
     \<lparr>pm_policy = policy_defaults policy, pm_paths = map fresh_path endpoints, pm_active = 0, pm_candidate = None,
      pm_candidateSince = zero_time, pm_migratingFrom = None, pm_migrationStarted = zero_time\<rparr>"

section \<open>Probe rounds\<close>

definition float_ms :: "duration \<Rightarrow> f64" where
  "float_ms d = f64_div (f64_of_int d) (f64_of_int millisecond)"

definition last_samples :: "bool list \<Rightarrow> bool list" where
  "last_samples ss = (if 32 < length ss then drop (length ss - 32) ss else ss)"

text \<open>Loss and failures of a round with \<open>got\<close> replies to \<open>sent\<close> probes.\<close>

definition count_round :: "nat \<Rightarrow> nat \<Rightarrow> path_state \<Rightarrow> path_state" where
  "count_round sent got p =
     (let ss = last_samples (ps_samples p @ map (\<lambda>i. i < got) [0..<sent])
      in p\<lparr>ps_samples := ss,
           ph_LossPercent := f64_div (f64_mul 100 (f64_of_int (int (length (filter Not ss))))) (f64_of_int (int (length ss))),
           ph_FailureCount := ph_FailureCount p + word_of_nat (sent - got)\<rparr>)"

definition jitter_step :: "duration \<Rightarrow> path_state \<Rightarrow> path_state" where
  "jitter_step rtt p =
     (let p = (if ps_lastRTT p \<noteq> 0
               then p\<lparr>ph_JitterMS := f64_add (f64_mul (3 / 4) (ph_JitterMS p))
                        (f64_mul (1 / 4) \<bar>float_ms (rtt - ps_lastRTT p)\<bar>)\<rparr>
               else p)
      in p\<lparr>ps_lastRTT := rtt\<rparr>)"

definition missed_round :: "path_policy \<Rightarrow> gotime \<Rightarrow> path_state \<Rightarrow> path_state" where
  "missed_round pol now p0 =
     (let p = p0\<lparr>ph_ConsecutiveFailures := ph_ConsecutiveFailures p0 + 1\<rparr>
      in if FailureThreshold pol \<le> ph_ConsecutiveFailures p then p\<lparr>ps_failedAt := now, ph_Reachable := False\<rparr> else p)"

definition answered_round :: "gotime \<Rightarrow> duration list \<Rightarrow> path_state \<Rightarrow> path_state" where
  "answered_round now replies p0 =
     (let p = (if \<not> ph_Reachable p0 \<and> \<not> is_zero (ps_failedAt p0) then p0\<lparr>ps_recoveredAt := now\<rparr> else p0);
          p = p\<lparr>ph_Reachable := True, ph_ConsecutiveFailures := 0, ph_LastSuccess := now\<rparr>;
          p = fold jitter_step replies p;
          rtt = float_ms (sort_slice (<) replies ! (length replies div 2))
      in p\<lparr>ph_RTTMS := (if ph_RTTMS p = 0 then rtt else f64_add (f64_mul (3 / 4) (ph_RTTMS p)) (f64_mul (1 / 4) rtt))\<rparr>)"

definition observe_path :: "path_policy \<Rightarrow> nat \<Rightarrow> duration list \<Rightarrow> gotime \<Rightarrow> path_state \<Rightarrow> path_state" where
  "observe_path pol sent replies0 now p0 =
     (let replies = take sent replies0; p = count_round sent (length replies) p0
      in if replies = [] then missed_round pol now p else answered_round now replies p)"

definition Observe :: "int \<Rightarrow> int \<Rightarrow> duration list \<Rightarrow> gotime \<Rightarrow> path_manager \<Rightarrow> path_manager" where
  "Observe index sent replies now m =
     (if index < 0 \<or> int (length (pm_paths m)) \<le> index \<or> sent \<le> 0 then m
      else m\<lparr>pm_paths := (pm_paths m)[nat index := observe_path (pm_policy m) (nat sent) replies now (pm_paths m ! nat index)]\<rparr>)"

section \<open>Selection\<close>

definition score :: "path_policy \<Rightarrow> path_state \<Rightarrow> gotime \<Rightarrow> f64" where
  "score pol p now =
     (let remaining = f64_sub 1 (f64_div (f64_of_int (time_sub now (ps_failedAt p))) (f64_of_int (RecoveryCooldown pol)));
          penalty = (if \<not> is_zero (ps_failedAt p) \<and> 0 < remaining
                     then f64_div (f64_mul remaining (f64_of_int (FailurePenalty pol))) (f64_of_int millisecond) else 0)
      in f64_add (f64_add (f64_add (ph_RTTMS p) (f64_mul 2 (ph_JitterMS p))) (f64_mul 3 (ph_LossPercent p))) penalty)"

text \<open>A path the loop of \<^verbatim>\<open>Select\<close> considers.\<close>

definition eligible :: "path_policy \<Rightarrow> gotime \<Rightarrow> bool \<Rightarrow> path_state \<Rightarrow> bool" where
  "eligible pol now currentUsable p \<longleftrightarrow>
     \<not> (\<not> ph_Reachable p \<or> 0 < ph_ConsecutiveFailures p) \<and>
     \<not> (currentUsable \<and> \<not> is_zero (ps_recoveredAt p) \<and> time_sub now (ps_recoveredAt p) < RecoveryCooldown pol)"

fun best_path :: "path_policy \<Rightarrow> gotime \<Rightarrow> bool \<Rightarrow> nat \<Rightarrow> path_state list \<Rightarrow> (nat \<times> path_state) option \<Rightarrow> (nat \<times> path_state) option" where
  "best_path pol now usable i [] best = best"
| "best_path pol now usable i (p # ps) best =
     best_path pol now usable (Suc i) ps
       (if \<not> eligible pol now usable p then best
        else case best of
               None \<Rightarrow> Some (i, p)
             | Some (_, b) \<Rightarrow> if score pol p now < score pol b now then Some (i, p) else best)"

text \<open>Whether the new path has carried no traffic for two seconds while the old one still works.\<close>

definition rollback_due :: "gotime \<Rightarrow> path_manager \<Rightarrow> bool option" where
  "rollback_due now m =
     (case pm_migratingFrom m of
        None \<Rightarrow> Some False
      | Some old \<Rightarrow>
          if is_zero (pm_migrationStarted m) \<or> \<not> 2 * second < time_sub now (pm_migrationStarted m) then Some False
          else map_option ph_Reachable (index_at (pm_paths m) old))"

definition roll_back :: "gotime \<Rightarrow> path_state \<Rightarrow> nat \<Rightarrow> path_manager \<Rightarrow> path_manager" where
  "roll_back now failed old m =
     m\<lparr>pm_paths := (pm_paths m)[pm_active m := failed\<lparr>ps_failedAt := now, ph_Reachable := False,
                                   ph_FailureCount := ph_FailureCount failed + 1\<rparr>],
       pm_active := old, pm_migratingFrom := None, pm_candidate := None\<rparr>"

definition migrate_to :: "nat \<Rightarrow> path_manager \<Rightarrow> path_manager" where
  "migrate_to best m =
     m\<lparr>pm_migratingFrom := Some (pm_active m), pm_migrationStarted := zero_time, pm_active := best, pm_candidate := None\<rparr>"

text \<open>The choice when no rollback is due; \<open>cur\<close> is the active path.\<close>

definition choose_path :: "gotime \<Rightarrow> path_state \<Rightarrow> path_manager \<Rightarrow> bool \<times> path_manager" where
  "choose_path now cur m =
     (let pol = pm_policy m
      in case best_path pol now (ph_Reachable cur) 0 (pm_paths m) None of
           None \<Rightarrow> (False, m\<lparr>pm_candidate := None\<rparr>)
         | Some (best, b) \<Rightarrow>
             if best = pm_active m then (False, m\<lparr>pm_candidate := None\<rparr>)
             else if ph_Reachable cur \<and> f64_sub (score pol cur now) (score pol b now) < float_ms (MinimumImprovement pol)
               then (False, m\<lparr>pm_candidate := None\<rparr>)
             else if ph_Reachable cur \<and> pm_candidate m \<noteq> Some best
               then (False, m\<lparr>pm_candidate := Some best, pm_candidateSince := now\<rparr>)
             else if ph_Reachable cur \<and> time_sub now (pm_candidateSince m) < MinimumStableDuration pol
               then (False, m)
             else (True, migrate_to best m))"

text \<open>\<^verbatim>\<open>Select\<close>: the selected path, whether it has just changed, and the manager.\<close>

definition Select :: "gotime \<Rightarrow> path_manager \<Rightarrow> (nat option \<times> bool \<times> path_manager) option" where
  "Select now m =
     (if pm_paths m = [] then Some (None, False, m)
      else case (rollback_due now m, index_at (pm_paths m) (pm_active m)) of
             (Some due, Some cur) \<Rightarrow>
               (case pm_migratingFrom m of
                  Some old \<Rightarrow>
                    if due then Some (Some old, True, roll_back now cur old m)
                    else (case choose_path now cur m of (sw, m') \<Rightarrow> Some (Some (pm_active m'), sw, m'))
                | None \<Rightarrow> (case choose_path now cur m of (sw, m') \<Rightarrow> Some (Some (pm_active m'), sw, m')))
           | _ \<Rightarrow> None)"

section \<open>Traffic\<close>

definition ConfirmTraffic :: "string \<Rightarrow> gotime \<Rightarrow> path_manager \<Rightarrow> path_manager" where
  "ConfirmTraffic endpoint now m =
     (case find (\<lambda>i. ph_Endpoint (pm_paths m ! i) = endpoint) [0..<length (pm_paths m)] of
        None \<Rightarrow> m
      | Some i \<Rightarrow>
          m\<lparr>pm_paths := (pm_paths m)[i := (pm_paths m ! i)\<lparr>ph_LastTraffic := now\<rparr>],
            pm_migratingFrom := (if i = pm_active m then None else pm_migratingFrom m)\<rparr>)"

definition MarkSent :: "int \<Rightarrow> gotime \<Rightarrow> path_manager \<Rightarrow> path_manager" where
  "MarkSent index now m =
     (if index = int (pm_active m) \<and> pm_migratingFrom m \<noteq> None \<and> is_zero (pm_migrationStarted m)
      then m\<lparr>pm_migrationStarted := now\<rparr> else m)"

definition MigrationFallback :: "path_manager \<Rightarrow> nat option option" where
  "MigrationFallback m =
     (case pm_migratingFrom m of
        None \<Rightarrow> Some None
      | Some old \<Rightarrow> map_option (\<lambda>p. if ph_Reachable p then Some old else None) (index_at (pm_paths m) old))"

definition state_name :: "path_manager \<Rightarrow> nat \<Rightarrow> path_state \<Rightarrow> string" where
  "state_name m i p =
     (if i = pm_active m then (if pm_migratingFrom m \<noteq> None then ''VERIFYING'' else ''ACTIVE'')
      else if ph_Reachable p then ''STANDBY''
      else if \<not> is_zero (ph_LastSuccess p) then ''FAILED''
      else ''PROBING'')"

definition Snapshot :: "path_manager \<Rightarrow> path_health list" where
  "Snapshot m = map (\<lambda>(i, p). path_health.truncate (p\<lparr>ph_State := state_name m i p\<rparr>)) (enumerate 0 (pm_paths m))"

section \<open>Runs\<close>

text \<open>A manager after any operations at readings of the clock that do not go back, with the time of the last
  reading and of the last switch.\<close>

inductive path_run :: "string list \<Rightarrow> path_policy \<Rightarrow> int \<Rightarrow> int option \<Rightarrow> path_manager \<Rightarrow> bool"
  for endpoints :: "string list" and policy :: path_policy where
  new: "path_run endpoints policy t None (NewPathManager endpoints policy)"
| observe: "path_run endpoints policy t sw m \<Longrightarrow> mono now = Some u \<Longrightarrow> t \<le> u \<Longrightarrow>
    path_run endpoints policy u sw (Observe index sent replies now m)"
| stay: "path_run endpoints policy t sw m \<Longrightarrow> mono now = Some u \<Longrightarrow> t \<le> u \<Longrightarrow> Select now m = Some (i, False, m') \<Longrightarrow>
    path_run endpoints policy u sw m'"
| switch: "path_run endpoints policy t sw m \<Longrightarrow> mono now = Some u \<Longrightarrow> t \<le> u \<Longrightarrow> Select now m = Some (i, True, m') \<Longrightarrow>
    path_run endpoints policy u (Some u) m'"
| confirm: "path_run endpoints policy t sw m \<Longrightarrow> mono now = Some u \<Longrightarrow> t \<le> u \<Longrightarrow>
    path_run endpoints policy u sw (ConfirmTraffic endpoint now m)"
| sent: "path_run endpoints policy t sw m \<Longrightarrow> mono now = Some u \<Longrightarrow> t \<le> u \<Longrightarrow>
    path_run endpoints policy u sw (MarkSent index now m)"

definition candidate_after :: "int \<Rightarrow> int option \<Rightarrow> path_manager \<Rightarrow> bool" where
  "candidate_after t sw m \<longleftrightarrow>
     (case sw of None \<Rightarrow> True | Some s \<Rightarrow> s \<le> t) \<and>
     (pm_candidate m \<noteq> None \<longrightarrow> (\<exists>c. mono (pm_candidateSince m) = Some c \<and> c \<le> t \<and> (case sw of None \<Rightarrow> True | Some s \<Rightarrow> s \<le> c)))"

text \<open>The indices are in range, a migration is between two paths, and the samples are bounded.\<close>

definition path_ok :: "string list \<Rightarrow> path_policy \<Rightarrow> path_manager \<Rightarrow> bool" where
  "path_ok endpoints policy m \<longleftrightarrow>
     pm_policy m = policy_defaults policy \<and> map ph_Endpoint (pm_paths m) = endpoints \<and>
     (endpoints \<noteq> [] \<longrightarrow> pm_active m < length endpoints) \<and>
     (\<forall>j. pm_migratingFrom m = Some j \<longrightarrow> j < length endpoints \<and> j \<noteq> pm_active m) \<and>
     (\<forall>j. pm_candidate m = Some j \<longrightarrow> j < length endpoints) \<and>
     (\<forall>p\<in>set (pm_paths m). length (ps_samples p) \<le> 32)"

section \<open>The invariant\<close>

lemma jitter_steps_keep: "ph_Endpoint (fold jitter_step rs p) = ph_Endpoint p \<and> ps_samples (fold jitter_step rs p) = ps_samples p"
  by (induction rs arbitrary: p) (auto simp: jitter_step_def Let_def)

lemma length_last_samples: "length (last_samples ss) \<le> 32"
  by (simp add: last_samples_def)

lemma observe_path_keeps: "ph_Endpoint (observe_path pol sent rs now p) = ph_Endpoint p \<and> length (ps_samples (observe_path pol sent rs now p)) \<le> 32"
  using length_last_samples
  by (auto simp: observe_path_def count_round_def missed_round_def answered_round_def Let_def jitter_steps_keep)

lemma best_path_eligible:
  assumes "best_path pol now usable i ps best = Some (j, b)"
  shows "best = Some (j, b) \<or> (i \<le> j \<and> j < i + length ps \<and> ps ! (j - i) = b \<and> eligible pol now usable b)"
  using assms
proof (induction ps arbitrary: i best)
  case (Cons p ps)
  let ?best = "if \<not> eligible pol now usable p then best
        else case best of None \<Rightarrow> Some (i, p) | Some (_, b) \<Rightarrow> if score pol p now < score pol b now then Some (i, p) else best"
  have "?best = Some (j, b) \<or> (Suc i \<le> j \<and> j < Suc i + length ps \<and> ps ! (j - Suc i) = b \<and> eligible pol now usable b)"
    using Cons.IH [of "Suc i" ?best] Cons.prems by simp
  moreover have "?best = best \<or> (?best = Some (i, p) \<and> eligible pol now usable p)" by (auto split: option.splits)
  ultimately show ?case by (auto simp: nth_Cons' Suc_diff_le)
qed simp

lemma best_path_Some:
  "best_path pol now usable 0 ps None = Some (j, b) \<Longrightarrow> j < length ps \<and> ps ! j = b \<and> eligible pol now usable b"
  using best_path_eligible [of pol now usable 0 ps None j b] by simp

text \<open>What \<^const>\<open>choose_path\<close> does.\<close>

lemma choose_path_cases:
  assumes "choose_path now cur m = (sw, m')"
  obtains (stay) "\<not> sw" "pm_active m' = pm_active m" "pm_paths m' = pm_paths m" "pm_policy m' = pm_policy m"
      "pm_migratingFrom m' = pm_migratingFrom m"
      "pm_candidate m' = None \<or> m' = m \<or> (\<exists>j < length (pm_paths m). pm_candidate m' = Some j \<and> pm_candidateSince m' = now)"
  | (move) best b where sw "m' = migrate_to best m" "best < length (pm_paths m)" "pm_paths m ! best = b" "best \<noteq> pm_active m"
      "eligible (pm_policy m) now (ph_Reachable cur) b"
      "ph_Reachable cur \<Longrightarrow> float_ms (MinimumImprovement (pm_policy m)) \<le>
          f64_sub (score (pm_policy m) cur now) (score (pm_policy m) b now)"
      "ph_Reachable cur \<Longrightarrow> pm_candidate m = Some best \<and> MinimumStableDuration (pm_policy m) \<le> time_sub now (pm_candidateSince m)"
proof (cases "best_path (pm_policy m) now (ph_Reachable cur) 0 (pm_paths m) None")
  case None
  then have "\<not> sw" "m' = m\<lparr>pm_candidate := None\<rparr>" using assms by (auto simp: choose_path_def)
  then show ?thesis using stay by simp
next
  case (Some x)
  obtain best b where x: "x = (best, b)" by fastforce
  note bp = best_path_Some [OF Some [unfolded x]]
  show ?thesis
  proof (cases sw)
    case True
    then have "m' = migrate_to best m" "best \<noteq> pm_active m"
      "\<not> (ph_Reachable cur \<and> f64_sub (score (pm_policy m) cur now) (score (pm_policy m) b now) < float_ms (MinimumImprovement (pm_policy m)))"
      "\<not> (ph_Reachable cur \<and> pm_candidate m \<noteq> Some best)"
      "\<not> (ph_Reachable cur \<and> time_sub now (pm_candidateSince m) < MinimumStableDuration (pm_policy m))"
      using assms by (auto simp: choose_path_def Some x Let_def split: if_splits)
    then show ?thesis using move [of best b] bp True by (simp add: not_less)
  next
    case False
    then have "m' = m\<lparr>pm_candidate := None\<rparr> \<or> m' = m \<or> m' = m\<lparr>pm_candidate := Some best, pm_candidateSince := now\<rparr>"
      using assms by (auto simp: choose_path_def Some x Let_def split: if_splits)
    then show ?thesis using stay bp False by (elim disjE) auto
  qed
qed

text \<open>What \<^const>\<open>Select\<close> does.\<close>

lemma Select_cases:
  assumes "Select now m = Some (i, sw, m')"
  obtains (empty) "pm_paths m = []" "i = None" "\<not> sw" "m' = m"
  | (rolled) old cur where "pm_migratingFrom m = Some old" "rollback_due now m = Some True" "sw" "i = Some old"
      "index_at (pm_paths m) (pm_active m) = Some cur" "m' = roll_back now cur old m"
  | (chosen) cur where "index_at (pm_paths m) (pm_active m) = Some cur" "rollback_due now m = Some False"
      "choose_path now cur m = (sw, m')" "i = Some (pm_active m')"
proof -
  have none: "pm_migratingFrom m = None \<Longrightarrow> rollback_due now m = Some False" by (simp add: rollback_due_def)
  show ?thesis
    using assms empty rolled chosen none
    by (cases "pm_migratingFrom m"; cases "rollback_due now m"; cases "index_at (pm_paths m) (pm_active m)")
      (auto simp: Select_def split: if_splits prod.splits bool.splits)
qed

lemma path_ok_new: "path_ok endpoints policy (NewPathManager endpoints policy)"
  by (auto simp: path_ok_def NewPathManager_def fresh_path_def comp_def)

lemma path_ok_update:
  assumes ok: "path_ok es pol m" and q: "ph_Endpoint q = ph_Endpoint (pm_paths m ! i)" "length (ps_samples q) \<le> 32"
    and i: "i < length (pm_paths m)"
  shows "path_ok es pol (m\<lparr>pm_paths := (pm_paths m)[i := q]\<rparr>)"
proof -
  have "map ph_Endpoint ((pm_paths m)[i := q]) = map ph_Endpoint (pm_paths m)"
    using q(1) i by (simp add: map_update list_update_same_conv)
  moreover have "\<forall>p\<in>set ((pm_paths m)[i := q]). length (ps_samples p) \<le> 32"
    using ok q(2) set_update_subset_insert [of "pm_paths m" i q] unfolding path_ok_def by blast
  ultimately show ?thesis using ok unfolding path_ok_def by simp
qed

lemma path_ok_indices:
  assumes "path_ok es pol m"
  shows "pm_paths m \<noteq> [] \<Longrightarrow> pm_active m < length (pm_paths m)" "pm_migratingFrom m = Some j \<Longrightarrow> j < length (pm_paths m)"
    "length es = length (pm_paths m)"
  using assms by (auto simp: path_ok_def)

lemma path_ok_Observe: "path_ok es pol m \<Longrightarrow> path_ok es pol (Observe index sent rs now m)"
  using path_ok_update [of es pol m "observe_path (pm_policy m) (nat sent) rs now (pm_paths m ! nat index)" "nat index"] observe_path_keeps
  by (auto simp: Observe_def)

lemma path_ok_Confirm: "path_ok es pol m \<Longrightarrow> path_ok es pol (ConfirmTraffic endpoint now m)"
proof (cases "find (\<lambda>i. ph_Endpoint (pm_paths m ! i) = endpoint) [0..<length (pm_paths m)]")
  case (Some i)
  assume ok: "path_ok es pol m"
  have i: "i < length (pm_paths m)" using Some by (auto simp: find_Some_iff)
  have "length (ps_samples (pm_paths m ! i)) \<le> 32" using ok nth_mem [OF i] unfolding path_ok_def by blast
  then have "path_ok es pol (m\<lparr>pm_paths := (pm_paths m)[i := (pm_paths m ! i)\<lparr>ph_LastTraffic := now\<rparr>]\<rparr>)"
    by (intro path_ok_update [OF ok _ _ i]) simp_all
  then show ?thesis using Some by (auto simp: ConfirmTraffic_def path_ok_def)
qed (simp add: ConfirmTraffic_def)

lemma path_ok_Sent: "path_ok es pol m \<Longrightarrow> path_ok es pol (MarkSent index now m)"
  by (simp add: MarkSent_def path_ok_def)

lemma path_ok_Select:
  assumes ok: "path_ok es pol m" and "Select now m = Some (i, sw, m')"
  shows "path_ok es pol m'"
  using assms(2)
proof (cases rule: Select_cases)
  case empty
  then show ?thesis using ok by simp
next
  case (rolled old cur)
  have a: "pm_active m < length (pm_paths m)" "cur = pm_paths m ! pm_active m" using rolled(5) by (auto simp: bounds_simps)
  then have "length (ps_samples cur) \<le> 32" using ok nth_mem [OF a(1)] unfolding path_ok_def by blast
  then have "path_ok es pol (m\<lparr>pm_paths := (pm_paths m)[pm_active m := cur\<lparr>ps_failedAt := now, ph_Reachable := False,
      ph_FailureCount := ph_FailureCount cur + 1\<rparr>]\<rparr>)"
    using a by (intro path_ok_update [OF ok]) simp_all
  then show ?thesis using rolled(1) unfolding rolled(6) roll_back_def path_ok_def by auto
next
  case (chosen cur)
  show ?thesis
    using chosen(3)
  proof (cases rule: choose_path_cases)
    case stay
    then show ?thesis using ok unfolding path_ok_def by auto
  next
    case (move best b)
    have "pm_active m < length (pm_paths m)" using chosen(1) by (auto simp: bounds_simps)
    then show ?thesis using ok move(3,5) path_ok_indices(3) [OF ok] unfolding move(2) migrate_to_def path_ok_def by auto
  qed
qed

lemma path_run_ok: "path_run es pol t sw m \<Longrightarrow> path_ok es pol m"
  by (induction rule: path_run.induct)
    (auto intro: path_ok_new path_ok_Observe path_ok_Confirm path_ok_Sent path_ok_Select)

lemma Select_defined:
  assumes "path_ok es pol m"
  shows "\<exists>i sw m'. Select now m = Some (i, sw, m')"
proof (cases "pm_paths m = []")
  case False
  have "rollback_due now m \<noteq> None" "index_at (pm_paths m) (pm_active m) \<noteq> None"
    using path_ok_indices [OF assms] False by (auto simp: rollback_due_def bounds_simps split: option.splits)
  then show ?thesis using False by (auto simp: Select_def split: option.splits prod.splits)
qed (auto simp: Select_def)

section \<open>Candidates\<close>

lemma candidate_after_mono: "candidate_after t sw m \<Longrightarrow> t \<le> u \<Longrightarrow> candidate_after u sw m"
  by (force simp: candidate_after_def split: option.splits)

lemma path_run_candidate: "path_run es pol t sw m \<Longrightarrow> candidate_after t sw m"
proof (induction rule: path_run.induct)
  case (new t)
  then show ?case by (simp add: candidate_after_def NewPathManager_def)
next
  case (observe t sw m now u index sent replies)
  then have "candidate_after u sw m" using candidate_after_mono by blast
  then show ?case by (simp add: candidate_after_def Observe_def)
next
  case (stay t sw m now u i m')
  then have c: "candidate_after u sw m" using candidate_after_mono by blast
  show ?case
    using stay.hyps(4)
  proof (cases rule: Select_cases)
    case (chosen cur)
    show ?thesis
      using chosen(3)
    proof (cases rule: choose_path_cases)
      case stay
      then show ?thesis using c \<open>mono now = Some u\<close> by (auto simp: candidate_after_def split: option.splits)
    qed simp
  qed (use c in auto)
next
  case (switch t sw m now u i m')
  then have "pm_candidate m' = None"
    by (auto elim!: Select_cases choose_path_cases simp: roll_back_def migrate_to_def)
  then show ?case by (simp add: candidate_after_def)
next
  case (confirm t sw m now u endpoint)
  then have "candidate_after u sw m" using candidate_after_mono by blast
  then show ?case by (simp add: candidate_after_def ConfirmTraffic_def split: option.splits)
next
  case (sent t sw m now u index)
  then have "candidate_after u sw m" using candidate_after_mono by blast
  then show ?case by (simp add: candidate_after_def MarkSent_def)
qed

section \<open>Properties\<close>

text \<open>The path manager always selects an endpoint, whatever probes, traffic and selections came before, and changes
  it only for one of three reasons: the switch before carried no traffic within two seconds of its use and
  the old path still answers; the active path is down and another one answers; or another path has scored
  better by the required margin, has been the candidate for the required time and did not recover within
  the cooldown.\<close>

theorem path_switch_justified:
  assumes run: "path_run es pol t sw m" and ne: "es \<noteq> []"
  shows "\<exists>i switched m'. Select now m = Some (Some i, switched, m') \<and> i = pm_active m' \<and> i < length es \<and>
    (switched \<longleftrightarrow> i \<noteq> pm_active m) \<and>
    (switched \<longrightarrow> ph_Reachable (pm_paths m ! i) \<and>
      (pm_migratingFrom m = Some i \<and> \<not> is_zero (pm_migrationStarted m) \<and> 2 * second < time_sub now (pm_migrationStarted m) \<or>
       \<not> ph_Reachable (pm_paths m ! pm_active m) \<and> ph_ConsecutiveFailures (pm_paths m ! i) \<le> 0 \<or>
       pm_candidate m = Some i \<and>
       MinimumStableDuration (policy_defaults pol) \<le> time_sub now (pm_candidateSince m) \<and>
       float_ms (MinimumImprovement (policy_defaults pol)) \<le>
         f64_sub (score (policy_defaults pol) (pm_paths m ! pm_active m) now) (score (policy_defaults pol) (pm_paths m ! i) now) \<and>
       (is_zero (ps_recoveredAt (pm_paths m ! i)) \<or>
        RecoveryCooldown (policy_defaults pol) \<le> time_sub now (ps_recoveredAt (pm_paths m ! i)))))"
proof -
  have ok: "path_ok es pol m" by (rule path_run_ok [OF run])
  then have len: "length (pm_paths m) = length es" and pne: "pm_paths m \<noteq> []" and pol: "pm_policy m = policy_defaults pol"
    using path_ok_indices(3) [OF ok] ne by (auto simp: path_ok_def)
  obtain i switched m' where sel: "Select now m = Some (i, switched, m')" using Select_defined [OF ok] by blast
  have act: "pm_active m' < length es" using path_ok_Select [OF ok sel] ne by (simp add: path_ok_def)
  show ?thesis
    using sel
  proof (cases rule: Select_cases)
    case empty
    then show ?thesis using pne by simp
  next
    case (rolled old cur)
    have "old \<noteq> pm_active m" using ok rolled(1) by (simp add: path_ok_def)
    moreover have "ph_Reachable (pm_paths m ! old)" "\<not> is_zero (pm_migrationStarted m)" "2 * second < time_sub now (pm_migrationStarted m)"
      using rolled(1,2) by (auto simp: rollback_due_def bounds_simps split: if_splits)
    ultimately show ?thesis using sel rolled act by (simp add: roll_back_def)
  next
    case (chosen cur)
    have cur: "cur = pm_paths m ! pm_active m" using chosen(1) by (simp add: bounds_simps)
    show ?thesis
      using chosen(3)
    proof (cases rule: choose_path_cases)
      case stay
      then show ?thesis using sel chosen act by simp
    next
      case (move best b)
      have "pm_active m' = best" by (simp add: move(2) migrate_to_def)
      then show ?thesis using sel chosen(4) act move(1,3-8) unfolding cur pol eligible_def by (auto simp: not_less)
    qed
  qed
qed

text \<open>C38. Planned switches do not flap: when the active path works, its successor is chosen at the earliest the
  policy's stable duration (five seconds by default) after the last switch, of whatever kind that was.\<close>

theorem path_no_flapping:
  assumes run: "path_run es pol t (Some s) m" and now: "mono now = Some u" "t \<le> u"
    and sel: "Select now m = Some (i, True, m')" and works: "ph_Reachable (pm_paths m ! pm_active m)"
    and planned: "rollback_due now m = Some False"
  shows "s + MinimumStableDuration (policy_defaults pol) \<le> u \<and> 0 < MinimumStableDuration (policy_defaults pol)"
proof -
  have pol: "pm_policy m = policy_defaults pol" using path_run_ok [OF run] by (simp add: path_ok_def)
  have pos: "0 < MinimumStableDuration (policy_defaults pol)" by (simp add: policy_defaults_def)
  obtain best where "pm_candidate m = Some best"
    and d: "MinimumStableDuration (policy_defaults pol) \<le> time_sub now (pm_candidateSince m)"
    using sel
  proof (cases rule: Select_cases)
    case (chosen cur)
    have "ph_Reachable cur" using chosen(1) works by (simp add: bounds_simps)
    with chosen(3) show ?thesis
      by (cases rule: choose_path_cases) (use that pol in auto)
  qed (use planned in auto)
  then obtain c where c: "mono (pm_candidateSince m) = Some c" "s \<le> c"
    using path_run_candidate [OF run] by (auto simp: candidate_after_def)
  have "time_sub now (pm_candidateSince m) \<le> u - c" if "0 < time_sub now (pm_candidateSince m)"
    using that now(1) c(1) by (auto simp: time_sub_def time_diff_def sat_duration_def min_def max_def split: if_splits)
  then show ?thesis using d pos c(2) by linarith
qed

subsection \<open>A run\<close>

text \<open>Two endpoints: the second answers first (100 ms), the tunnel moves to it at once; the first answers later
  (10 ms) and takes over five seconds after it has become the candidate.\<close>

definition clock_at :: "int \<Rightarrow> gotime" where
  "clock_at s = \<lparr>wall = s * second, mono = Some (s * second)\<rparr>"

definition ex_path_policy :: path_policy where
  "ex_path_policy = \<lparr>MinimumImprovement = 0, MinimumStableDuration = 0, FailurePenalty = 0, RecoveryCooldown = 0, FailureThreshold = 0\<rparr>"

definition ex_path0 :: path_manager where "ex_path0 = NewPathManager [''a'', ''b''] ex_path_policy"

definition answered :: "string \<Rightarrow> int \<Rightarrow> int \<Rightarrow> path_state" where
  "answered e ms s = (fresh_path e)\<lparr>ph_Reachable := True, ph_RTTMS := of_int ms, ph_LastSuccess := clock_at s, ps_samples := [True],
     ps_lastRTT := ms * millisecond\<rparr>"

definition ex_path1 :: path_manager where
  "ex_path1 = ex_path0\<lparr>pm_paths := [fresh_path ''a'', answered ''b'' 100 1]\<rparr>"
definition ex_path2 :: path_manager where
  "ex_path2 = ex_path1\<lparr>pm_active := 1, pm_migratingFrom := Some 0\<rparr>"
definition ex_path3 :: path_manager where
  "ex_path3 = ex_path2\<lparr>pm_paths := [answered ''a'' 10 2, answered ''b'' 100 1]\<rparr>"
definition ex_path4 :: path_manager where
  "ex_path4 = ex_path3\<lparr>pm_candidate := Some 0, pm_candidateSince := clock_at 3\<rparr>"

lemma clock_at_props [simp]: "mono (clock_at s) = Some (s * second)" "time_sub (clock_at s) (clock_at r) = sat_duration ((s - r) * second)"
  by (simp_all add: clock_at_def time_sub_def time_diff_def algebra_simps)

lemma f64_exact [simp]: "f64_of_int (numeral k) = numeral k" "f64_of_int 0 = 0" "f64_of_int 1 = 1" if "numeral k < (2 :: int) ^ 53"
  using f64_round_numeral [OF that] f64_round_of_int [of 1] by (simp_all add: f64_of_int_def)

lemma f64_ms: "float_ms (10 * millisecond) = 10" "float_ms (100 * millisecond) = 100" "float_ms (15 * millisecond) = 15"
  by (simp_all add: float_ms_def f64_of_int_def f64_div_def f64_round_numeral)

lemma ex_answered:
  "observe_path pol 1 [10 * millisecond] (clock_at s) (fresh_path e) = answered e 10 s"
  "observe_path pol 1 [100 * millisecond] (clock_at s) (fresh_path e) = answered e 100 s"
  using f64_ms
  by (simp_all add: observe_path_def count_round_def last_samples_def answered_round_def jitter_step_def fresh_path_def answered_def
      Let_def f64_of_int_def f64_mul_def f64_div_def sort_slice_def)

lemma ex_scores: "score pol (answered e 10 s) now = 10" "score pol (answered e 100 s) now = 100"
  by (simp_all add: score_def answered_def fresh_path_def Let_def f64_add_def f64_mul_def f64_round_numeral)

lemma ex_path_fields:
  "pm_paths ex_path3 = [answered ''a'' 10 2, answered ''b'' 100 1]" "pm_active ex_path3 = 1" "pm_migratingFrom ex_path3 = Some 0"
  "is_zero (pm_migrationStarted ex_path3)" "pm_candidate ex_path3 = None" "pm_policy ex_path3 = policy_defaults ex_path_policy"
  by (simp_all add: ex_path3_def ex_path2_def ex_path1_def ex_path0_def NewPathManager_def)

lemma ex_answered_usable: "ph_Reachable (answered e ms s)" "eligible pol now usable (answered e ms s)"
  by (simp_all add: answered_def eligible_def fresh_path_def)

lemma ex_choose_path:
  assumes "pm_paths m = [answered ''a'' 10 2, answered ''b'' 100 1]" and "pm_active m = 1" and "pm_policy m = policy_defaults ex_path_policy"
  shows "choose_path now (answered ''b'' 100 1) m =
    (if pm_candidate m \<noteq> Some 0 then (False, m\<lparr>pm_candidate := Some 0, pm_candidateSince := now\<rparr>)
     else if time_sub now (pm_candidateSince m) < 5 * second then (False, m) else (True, migrate_to 0 m))"
proof -
  have "best_path (pm_policy m) now True 0 (pm_paths m) None = Some (0, answered ''a'' 10 2)"
    by (simp add: assms ex_answered_usable ex_scores)
  moreover have "\<not> f64_sub 100 10 < float_ms (15 * millisecond)" unfolding f64_ms by (simp add: f64_sub_def f64_round_numeral)
  moreover have "MinimumImprovement (pm_policy m) = 15 * millisecond" "MinimumStableDuration (pm_policy m) = 5 * second"
    by (simp_all add: assms policy_defaults_def ex_path_policy_def)
  ultimately show ?thesis by (simp add: choose_path_def ex_answered_usable ex_scores assms(2) Let_def)
qed

lemma ex_path_run: "path_run [''a'', ''b''] ex_path_policy (3 * second) (Some (1 * second)) ex_path4"
proof -
  let ?run = "path_run [''a'', ''b''] ex_path_policy"
  have r0: "?run 0 None ex_path0" unfolding ex_path0_def by (rule path_run.new)
  have o1: "Observe 1 1 [100 * millisecond] (clock_at 1) ex_path0 = ex_path1"
    using ex_answered(2) [of "policy_defaults ex_path_policy" 1 "''b''"]
    by (simp add: Observe_def ex_path0_def ex_path1_def NewPathManager_def)
  have r1: "?run (1 * second) None ex_path1" using path_run.observe [OF r0, of "clock_at 1"] o1 by (metis clock_at_props(1) mult_nonneg_nonneg zero_le_numeral zero_le_one)
  have s1: "Select (clock_at 1) ex_path1 = Some (Some 1, True, ex_path2)"
    by (simp add: Select_def rollback_due_def ex_path1_def ex_path0_def NewPathManager_def index_at_def choose_path_def Let_def
        eligible_def fresh_path_def answered_def migrate_to_def ex_path2_def)
  have r2: "?run (1 * second) (Some (1 * second)) ex_path2" by (rule path_run.switch [OF r1 _ _ s1]) simp_all
  have o2: "Observe 0 1 [10 * millisecond] (clock_at 2) ex_path2 = ex_path3"
    using ex_answered(1) [of "policy_defaults ex_path_policy" 2 "''a''"]
    by (simp add: Observe_def ex_path2_def ex_path3_def ex_path1_def ex_path0_def NewPathManager_def)
  have r3: "?run (2 * second) (Some (1 * second)) ex_path3"
    using path_run.observe [OF r2, of "clock_at 2" "2 * second" 0 1 "[10 * millisecond]"] o2 by simp
  have s3: "Select (clock_at 3) ex_path3 = Some (Some 1, False, ex_path4)"
    using ex_choose_path [of ex_path3 "clock_at 3"] by (simp add: Select_def rollback_due_def ex_path_fields index_at_def ex_path4_def)
  show ?thesis by (rule path_run.stay [OF r3 _ _ s3]) simp_all
qed

lemma ex_path4_fields:
  "pm_paths ex_path4 = [answered ''a'' 10 2, answered ''b'' 100 1]" "pm_active ex_path4 = 1" "pm_migratingFrom ex_path4 = Some 0"
  "is_zero (pm_migrationStarted ex_path4)" "pm_candidate ex_path4 = Some 0" "pm_candidateSince ex_path4 = clock_at 3"
  "pm_policy ex_path4 = policy_defaults ex_path_policy"
  by (simp_all add: ex_path4_def ex_path_fields)

lemma ex_path_moves: "Select (clock_at 8) ex_path4 = Some (Some 0, True, migrate_to 0 ex_path4)"
  using ex_choose_path [of ex_path4 "clock_at 8"]
  by (simp add: Select_def rollback_due_def ex_path4_fields index_at_def sat_duration_def) (simp add: migrate_to_def)

theorem path_switch_justified_witness:
  "\<exists>m'. Select (clock_at 8) ex_path4 = Some (Some 0, True, m') \<and> pm_active ex_path4 = 1 \<and>
     5 * second \<le> time_sub (clock_at 8) (pm_candidateSince ex_path4)"
proof -
  have "[''a'', ''b''] \<noteq> []" by simp
  from path_switch_justified [OF ex_path_run this, of "clock_at 8"]
  show ?thesis by (auto simp: ex_path_moves ex_path4_fields ex_answered_usable policy_defaults_def ex_path_policy_def)
qed

theorem path_no_flapping_witness:
  "1 * second + MinimumStableDuration (policy_defaults ex_path_policy) \<le> 8 * second"
proof -
  have "rollback_due (clock_at 8) ex_path4 = Some False" "ph_Reachable (pm_paths ex_path4 ! pm_active ex_path4)"
    by (simp_all add: rollback_due_def ex_path4_fields ex_answered_usable)
  with path_no_flapping [OF ex_path_run _ _ ex_path_moves] show ?thesis by simp
qed

end
