(* ===== verification/WgUdp.thy ===== *)
theory WgUdp
  imports WgTcp NetUDP
begin

text \<open>
  \<^verbatim>\<open>internal/wgshim/relay.go\<close>, the plain tunnel: \<^verbatim>\<open>RunClient\<close> between a local WireGuard and a server, \<^verbatim>\<open>RunServer\<close>
  between clients and the WireGuard target. Each of the two loops of a side is one step per datagram; the
  answer of the socket it writes to and the bytes of the random source are arguments. A step says whether
  the loop goes on; an error ends the tunnel.
\<close>

section \<open>Data\<close>

record step_env =
  sv_crypto :: crypto
  sv_random :: random
  sv_write :: bool

datatype datagram = Outer udp_addr "byte list" | Inner udp_addr "byte list" | ToServer "byte list" | Target "byte list"

record wg_client =
  wc_TX :: codec
  wc_RX :: codec
  wc_wgPeer :: "udp_addr option"
  wc_stats :: stats

record wg_server =
  ws_RX :: codec
  ws_TX :: codec
  ws_clientPeer :: "udp_addr option"
  ws_stats :: stats

definition no_stats :: stats where
  "no_stats = \<lparr>sx_InnerTX = 0, sx_InnerRX = 0, sx_OuterTX = 0, sx_OuterRX = 0, sx_AuthDrops = 0, sx_NoPeerDrop = 0\<rparr>"

definition add_InnerTX :: "nat \<Rightarrow> stats \<Rightarrow> stats" where "add_InnerTX n s = s\<lparr>sx_InnerTX := sx_InnerTX s + word_of_nat n\<rparr>"
definition add_InnerRX :: "nat \<Rightarrow> stats \<Rightarrow> stats" where "add_InnerRX n s = s\<lparr>sx_InnerRX := sx_InnerRX s + word_of_nat n\<rparr>"
definition add_OuterTX :: "nat \<Rightarrow> stats \<Rightarrow> stats" where "add_OuterTX n s = s\<lparr>sx_OuterTX := sx_OuterTX s + word_of_nat n\<rparr>"
definition add_OuterRX :: "nat \<Rightarrow> stats \<Rightarrow> stats" where "add_OuterRX n s = s\<lparr>sx_OuterRX := sx_OuterRX s + word_of_nat n\<rparr>"
definition add_AuthDrops :: "stats \<Rightarrow> stats" where "add_AuthDrops s = s\<lparr>sx_AuthDrops := sx_AuthDrops s + 1\<rparr>"
definition add_NoPeerDrop :: "stats \<Rightarrow> stats" where "add_NoPeerDrop s = s\<lparr>sx_NoPeerDrop := sx_NoPeerDrop s + 1\<rparr>"

section \<open>The client\<close>

definition NewClient :: "codec \<Rightarrow> codec \<Rightarrow> wg_client" where
  "NewClient tx rx = \<lparr>wc_TX = tx, wc_RX = rx, wc_wgPeer = None, wc_stats = no_stats\<rparr>"

text \<open>A packet of the local WireGuard, which is at \<open>addr\<close>.\<close>

definition client_local :: "step_env \<Rightarrow> udp_addr \<Rightarrow> byte list \<Rightarrow> wg_client \<Rightarrow> bool \<times> datagram list \<times> wg_client" where
  "client_local env addr packet c0 =
     (let c = c0\<lparr>wc_wgPeer := Some addr, wc_stats := add_InnerTX (length packet) (wc_stats c0)\<rparr>
      in case Seal (sv_crypto env) (wc_TX c) (sv_random env) packet of
           (Inl _, _) \<Rightarrow> (False, [], c)
         | (Inr outer, _) \<Rightarrow>
             if \<not> sv_write env then (False, [], c)
             else (True, [ToServer outer], c\<lparr>wc_stats := add_OuterTX (length outer) (wc_stats c)\<rparr>))"

definition client_outer :: "step_env \<Rightarrow> byte list \<Rightarrow> wg_client \<Rightarrow> bool \<times> datagram list \<times> wg_client" where
  "client_outer env packet c0 =
     (let c = c0\<lparr>wc_stats := add_OuterRX (length packet) (wc_stats c0)\<rparr>
      in case codec_Open (sv_crypto env) (wc_RX c) packet of
           Inl _ \<Rightarrow> (True, [], c\<lparr>wc_stats := add_AuthDrops (wc_stats c)\<rparr>)
         | Inr inner \<Rightarrow>
             (case wc_wgPeer c of
                None \<Rightarrow> (True, [], c\<lparr>wc_stats := add_NoPeerDrop (wc_stats c)\<rparr>)
              | Some peer \<Rightarrow>
                  if \<not> sv_write env then (False, [], c)
                  else (True, [Inner peer inner], c\<lparr>wc_stats := add_InnerRX (length inner) (wc_stats c)\<rparr>)))"

section \<open>The server\<close>

definition NewServer :: "codec \<Rightarrow> codec \<Rightarrow> wg_server" where
  "NewServer rx tx = \<lparr>ws_RX = rx, ws_TX = tx, ws_clientPeer = None, ws_stats = no_stats\<rparr>"

definition server_outer :: "step_env \<Rightarrow> udp_addr \<Rightarrow> byte list \<Rightarrow> wg_server \<Rightarrow> bool \<times> datagram list \<times> wg_server" where
  "server_outer env addr packet s0 =
     (let s = s0\<lparr>ws_stats := add_OuterRX (length packet) (ws_stats s0)\<rparr>
      in case codec_Open (sv_crypto env) (ws_RX s) packet of
           Inl _ \<Rightarrow> (True, [], s\<lparr>ws_stats := add_AuthDrops (ws_stats s)\<rparr>)
         | Inr inner \<Rightarrow>
             let s = s\<lparr>ws_clientPeer := Some addr\<rparr>
             in if \<not> sv_write env then (False, [], s)
                else (True, [Target inner], s\<lparr>ws_stats := add_InnerTX (length inner) (ws_stats s)\<rparr>))"

definition server_target :: "step_env \<Rightarrow> byte list \<Rightarrow> wg_server \<Rightarrow> bool \<times> datagram list \<times> wg_server" where
  "server_target env packet s0 =
     (let s = s0\<lparr>ws_stats := add_InnerRX (length packet) (ws_stats s0)\<rparr>
      in case ws_clientPeer s of
           None \<Rightarrow> (True, [], s\<lparr>ws_stats := add_NoPeerDrop (ws_stats s)\<rparr>)
         | Some peer \<Rightarrow>
             (case Seal (sv_crypto env) (ws_TX s) (sv_random env) packet of
                (Inl _, _) \<Rightarrow> (False, [], s)
              | (Inr outer, _) \<Rightarrow>
                  if \<not> sv_write env then (False, [], s)
                  else (True, [Outer peer outer], s\<lparr>ws_stats := add_OuterTX (length outer) (ws_stats s)\<rparr>)))"

section \<open>Runs\<close>

text \<open>A server after any traffic: the packets of clients (authentic or not) and of the target, with the addresses
  and payloads of those that were authentic, latest first.\<close>

inductive server_run :: "crypto \<Rightarrow> codec \<Rightarrow> codec \<Rightarrow> (udp_addr \<times> byte list) list \<Rightarrow> wg_server \<Rightarrow> bool"
  for cr :: crypto and rx :: codec and tx :: codec where
  new: "server_run cr rx tx [] (NewServer rx tx)"
| outer: "server_run cr rx tx h s \<Longrightarrow> sv_crypto env = cr \<Longrightarrow> server_outer env addr packet s = (go, out, s') \<Longrightarrow>
    server_run cr rx tx (case codec_Open cr rx packet of Inr inner \<Rightarrow> (addr, inner) # h | Inl _ \<Rightarrow> h) s'"
| target: "server_run cr rx tx h s \<Longrightarrow> sv_crypto env = cr \<Longrightarrow> server_target env packet s = (go, out, s') \<Longrightarrow> server_run cr rx tx h s'"

lemma server_run_inv:
  "server_run cr rx tx h s \<Longrightarrow> ws_RX s = rx \<and> ws_TX s = tx \<and> ws_clientPeer s = (if h = [] then None else Some (fst (hd h)))"
proof (induction rule: server_run.induct)
  case (outer h s env addr packet go out s')
  then show ?case
    by (auto simp: server_outer_def Let_def split: sum.splits if_splits)
next
  case (target h s env packet go out s')
  then show ?case
    by (auto simp: server_target_def Let_def split: option.splits prod.splits sum.splits if_splits)
qed (simp add: NewServer_def)

text \<open>What is sealed for a packet opens again.\<close>

lemma Seal_Open:
  assumes "crypto_ok cr" and "Seal cr c rnd packet = (Inr outer, rest)" and "codec_key c' = codec_key c"
  shows "codec_Open cr c' outer = Inr packet"
proof -
  have "OpenTyped cr c outer = Inr (packetData, packet)"
    using sealType_OpenTyped assms(1,2) unfolding Seal_def by blast
  moreover have "OpenTyped cr c' outer = OpenTyped cr c outer" using assms(3) by (simp only: OpenTyped_def)
  ultimately show ?thesis by (simp add: codec_Open_def)
qed

section \<open>Properties\<close>

text \<open>C31. The tunnel is transparent. A packet that the client takes from its WireGuard reaches the server's target
  unchanged, and the packet the target then answers with reaches the client's WireGuard unchanged, whatever
  packets, forged ones included, the server has handled before; padding and nonces may be any bytes.
  What a server sends to an address is always the sealed form of a packet of the target, to the client that
  was last heard with an authentic packet.\<close>

theorem tunnel_transparent:
  assumes cr: "crypto_ok cr" and keys: "codec_key (wc_TX c) = codec_key rx" "codec_key (wc_RX c) = codec_key tx"
    and run: "server_run cr rx tx h s"
    and envs: "sv_crypto e1 = cr" "sv_crypto e2 = cr" "sv_crypto e3 = cr" "sv_crypto e4 = cr"
    and up: "client_local e1 wg packet c = (True, [ToServer outer], c')"
    and arrive: "server_outer e2 addr outer s = (go, out, s')" "sv_write e2"
    and down: "server_target e3 reply s' = (True, out', s'')" "sv_write e4"
  shows "out = [Target packet] \<and>
    (\<exists>outer'. out' = [Outer addr outer'] \<and> fst (snd (client_outer e4 outer' c')) = [Inner wg reply])"
proof -
  have s: "ws_RX s = rx" "ws_TX s = tx" using server_run_inv [OF run] by simp_all
  obtain rest where seal: "Seal cr (wc_TX c) (sv_random e1) packet = (Inr outer, rest)"
    and c': "wc_wgPeer c' = Some wg" "wc_RX c' = wc_RX c"
    using up envs(1) by (auto simp: client_local_def Let_def split: prod.splits sum.splits if_splits)
  have "codec_Open cr rx outer = Inr packet" by (rule Seal_Open [OF cr seal]) (simp add: keys)
  then have out: "out = [Target packet]" and s': "ws_clientPeer s' = Some addr" "ws_TX s' = tx"
    using arrive envs(2) s by (auto simp: server_outer_def Let_def)
  obtain outer' rest' where seal': "Seal cr tx (sv_random e3) reply = (Inr outer', rest')" and out': "out' = [Outer addr outer']"
    using down(1) envs(3) s' by (auto simp: server_target_def Let_def split: prod.splits sum.splits if_splits)
  have "codec_Open cr (wc_RX c') outer' = Inr reply" by (rule Seal_Open [OF cr seal']) (simp add: keys c')
  then have "fst (snd (client_outer e4 outer' c')) = [Inner wg reply]"
    using envs(4) c' down(2) by (simp add: client_outer_def Let_def)
  then show ?thesis using out out' by blast
qed

definition ex_up :: codec where "ex_up = \<lparr>codec_key = [1], paddingMin = 0, paddingMax = 0\<rparr>"
definition ex_back :: codec where "ex_back = \<lparr>codec_key = [2], paddingMin = 0, paddingMax = 0\<rparr>"
definition ex_step_env :: step_env where "ex_step_env = \<lparr>sv_crypto = ex_crypto, sv_random = replicate 12 3, sv_write = True\<rparr>"
definition ex_wg :: udp_addr where "ex_wg = \<lparr>IP = [127, 0, 0, 1], Port = 51820, Zone = []\<rparr>"
definition ex_from :: udp_addr where "ex_from = \<lparr>IP = [198, 51, 100, 7], Port = 4500, Zone = []\<rparr>"

definition ex_sealed :: "byte list \<Rightarrow> byte list" where
  "ex_sealed p = replicate 12 3 @ ([protocolVersion, packetData] @ be_encode 2 (length p) @ p) @ replicate 16 0"

lemma ex_crypto_ok: "crypto_ok ex_crypto"
  by (simp add: crypto_ok_def ex_crypto_def gcmOverhead_def min_def)

lemma ex_Seal: "length p \<le> 65475 \<Longrightarrow> paddingMin c = 0 \<Longrightarrow> paddingMax c = 0 \<Longrightarrow>
    Seal ex_crypto c (replicate 12 3) p = (Inr (ex_sealed p), [])"
  by (simp add: Seal_def sealType_def packet_kinds codec_consts randomPaddingLength_def ReadFull_def ex_crypto_def ex_sealed_def)

theorem tunnel_transparent_witness:
  "fst (snd (server_outer ex_step_env ex_from (ex_sealed [7]) (NewServer ex_up ex_back))) = [Target [7]]"
proof -
  let ?c = "NewClient ex_up ex_back" and ?s = "NewServer ex_up ex_back"
  obtain c' where up: "client_local ex_step_env ex_wg [7] ?c = (True, [ToServer (ex_sealed [7])], c')"
    using ex_Seal [of "[7]" ex_up] by (simp add: client_local_def NewClient_def ex_step_env_def ex_up_def)
  obtain go out s' where arr: "server_outer ex_step_env ex_from (ex_sealed [7]) ?s = (go, out, s')" by (metis prod_cases3)
  have op: "codec_Open ex_crypto ex_up (ex_sealed [7]) = Inr [7]"
    using Seal_Open [OF ex_crypto_ok ex_Seal [of "[7]" ex_up]] by (simp add: ex_up_def)
  then have s': "ws_clientPeer s' = Some ex_from" "ws_TX s' = ex_back"
    using arr by (auto simp: server_outer_def Let_def NewServer_def ex_step_env_def)
  obtain out' s'' where down: "server_target ex_step_env [8] s' = (True, out', s'')"
    using ex_Seal [of "[8]" ex_back] s' by (simp add: server_target_def ex_step_env_def ex_back_def)
  have "out = [Target [7]]"
    using tunnel_transparent [OF ex_crypto_ok _ _ server_run.new _ _ _ _ up arr _ down, of ex_step_env]
    by (simp add: NewClient_def ex_step_env_def)
  then show ?thesis using arr by simp
qed

end
