(* ===== verification/WgAdaptive.thy ===== *)
theory WgAdaptive
  imports WgUdp WgPath
begin

text \<open>
  \<^verbatim>\<open>internal/wgshim/relay.go\<close>, the adaptive client: one outer socket and several servers, probed in rounds, of
  which the path manager selects the one that carries the tunnel. The goroutines are steps: a packet of the
  local WireGuard, a packet of the outer socket, one probe, the end of a round. A step that reads the
  selection takes it as an argument, since it may have changed by the time it is used. The resolver is a
  parameter. An index out of range is the result \<^const>\<open>None\<close>.
\<close>

section \<open>Servers\<close>

text \<open>The resolved addresses, their names, the names by printed address, and what did not resolve.\<close>

record server_pool =
  pl_addrs :: "udp_addr list"
  pl_names :: "string list"
  pl_sources :: "(string \<times> string) list"
  pl_unresolved :: "string list"

fun resolve_loop :: "(string \<Rightarrow> udp_addr option) \<Rightarrow> string list \<Rightarrow> server_pool \<Rightarrow> server_pool" where
  "resolve_loop resolver [] pl = pl"
| "resolve_loop resolver (raw # rest) pl =
     (case resolver raw of
        None \<Rightarrow> resolve_loop resolver rest (pl\<lparr>pl_unresolved := pl_unresolved pl @ [raw]\<rparr>)
      | Some addr \<Rightarrow>
          let key = udp_String addr
          in if map_of (pl_sources pl) key \<noteq> None then resolve_loop resolver rest pl
             else resolve_loop resolver rest
                    (pl\<lparr>pl_addrs := pl_addrs pl @ [addr], pl_names := pl_names pl @ [raw],
                        pl_sources := AList.update key raw (pl_sources pl)\<rparr>))"

definition resolveAdaptiveServers :: "(string \<Rightarrow> udp_addr option) \<Rightarrow> string list \<Rightarrow> string list + server_pool" where
  "resolveAdaptiveServers resolver servers =
     (let pl = resolve_loop resolver servers \<lparr>pl_addrs = [], pl_names = [], pl_sources = [], pl_unresolved = []\<rparr>
      in if pl_addrs pl = [] then Inl (pl_unresolved pl) else Inr pl)"

text \<open>One tick of \<^verbatim>\<open>waitForAdaptiveServerRecovery\<close>: whether an unresolved server resolves now.\<close>

definition recovered_tick :: "(string \<Rightarrow> udp_addr option) \<Rightarrow> string list \<Rightarrow> bool" where
  "recovered_tick resolver unresolved \<longleftrightarrow> list_ex (\<lambda>raw. resolver raw \<noteq> None) unresolved"

definition preferAdaptiveServer :: "string list \<Rightarrow> string \<Rightarrow> string list" where
  "preferAdaptiveServer servers preferred =
     (if preferred = [] \<or> length servers < 2 \<or> hd servers = preferred then servers
      else let result = (case find (\<lambda>s. s = preferred) servers of None \<Rightarrow> [] | Some s \<Rightarrow> [s]) @
                        filter (\<lambda>s. s \<noteq> preferred) servers
           in if length result \<noteq> length servers then servers else result)"

section \<open>Configuration and state\<close>

record adaptive_config =
  af_WireGuardHandoff :: bool
  af_Servers :: "string list"
  af_TX :: codec
  af_RX :: codec
  af_ProbeTimeout :: duration
  af_SwitchThreshold :: duration
  af_ProbeInterval :: duration
  af_ResolveRetryInterval :: duration
  af_Policy :: path_policy

definition or_default :: "duration \<Rightarrow> duration \<Rightarrow> duration" where
  "or_default d v = (if v \<le> 0 then d else v)"

definition adaptive_defaults :: "adaptive_config \<Rightarrow> adaptive_config" where
  "adaptive_defaults cfg0 =
     (let cfg = cfg0\<lparr>af_ProbeTimeout := or_default (400 * millisecond) (af_ProbeTimeout cfg0),
                     af_SwitchThreshold := or_default (10 * millisecond) (af_SwitchThreshold cfg0),
                     af_ProbeInterval := or_default (250 * millisecond) (af_ProbeInterval cfg0),
                     af_ResolveRetryInterval := or_default (5 * second) (af_ResolveRetryInterval cfg0)\<rparr>
      in cfg\<lparr>af_Policy := (af_Policy cfg)\<lparr>MinimumImprovement :=
               or_default (af_SwitchThreshold cfg) (MinimumImprovement (af_Policy cfg))\<rparr>\<rparr>)"

record endpoint_report =
  er_Selected :: string
  er_RTT :: duration
  er_Reachable :: nat
  er_Total :: nat
  er_Switched :: bool
  er_PreserveSession :: bool
  er_Paths :: "path_health list"

text \<open>A pending probe is the endpoint it went to and when; a measurement is the name of an endpoint and a round trip.
  The channel of measurements holds at most \<open>result_cap\<close>; those collected in the current round have left it.\<close>

record adaptive =
  ac_config :: adaptive_config
  ac_pool :: server_pool
  ac_wgPeer :: "udp_addr option"
  ac_selected :: nat
  ac_pending :: "(string \<times> string \<times> gotime) list"
  ac_results :: "(string \<times> duration) list"
  ac_measured :: "(string \<times> duration) list"
  ac_manager :: path_manager
  ac_stats :: stats

definition result_cap :: nat where "result_cap = 128"
definition samplesPerEndpoint :: nat where "samplesPerEndpoint = 3"

definition failed_health :: "string \<Rightarrow> path_health" where
  "failed_health endpoint = path_health.truncate ((fresh_path endpoint)\<lparr>ph_State := ''FAILED''\<rparr>)"

text \<open>The closure \<^verbatim>\<open>setSelected\<close>: the state and the report it makes.\<close>

definition set_selected :: "nat \<Rightarrow> duration \<Rightarrow> nat \<Rightarrow> bool \<Rightarrow> adaptive \<Rightarrow> (adaptive \<times> endpoint_report) option" where
  "set_selected nxt rtt reachable switched a =
     (case (MigrationFallback (ac_manager a), index_at (pl_names (ac_pool a)) nxt) of
        (Some fallback, Some name) \<Rightarrow>
          Some (a\<lparr>ac_selected := nxt\<rparr>,
                \<lparr>er_Selected = name, er_RTT = rtt, er_Reachable = reachable,
                 er_Total = length (pl_names (ac_pool a)) + length (pl_unresolved (ac_pool a)), er_Switched = switched,
                 er_PreserveSession = (af_WireGuardHandoff (ac_config a) \<and> fallback \<noteq> None),
                 er_Paths = Snapshot (ac_manager a) @ map failed_health (pl_unresolved (ac_pool a))\<rparr>)
      | _ \<Rightarrow> None)"

datatype start_error = NoServers | Unresolvable "string list"

definition adaptive_start :: "adaptive_config \<Rightarrow> (string \<Rightarrow> udp_addr option) \<Rightarrow> start_error + (adaptive \<times> endpoint_report) option" where
  "adaptive_start cfg0 resolver =
     (if af_Servers cfg0 = [] then Inl NoServers
      else let cfg = adaptive_defaults cfg0
           in case resolveAdaptiveServers resolver (af_Servers cfg) of
                Inl unresolved \<Rightarrow> Inl (Unresolvable unresolved)
              | Inr pl \<Rightarrow>
                  Inr (set_selected 0 0 0 False
                    \<lparr>ac_config = cfg, ac_pool = pl, ac_wgPeer = None, ac_selected = 0, ac_pending = [], ac_results = [], ac_measured = [],
                     ac_manager = NewPathManager (pl_names pl) (af_Policy cfg), ac_stats = no_stats\<rparr>))"

section \<open>Packets\<close>

definition isWireGuardTransportData :: "byte list \<Rightarrow> bool" where
  "isWireGuardTransportData packet \<longleftrightarrow> 32 \<le> length packet \<and> le_decode (take 4 packet) = 4"

text \<open>A packet of the local WireGuard; \<open>index\<close> is the selection as it was read, \<open>again\<close> whether the copy to the
  previous path is written.\<close>

definition adaptive_local ::
  "step_env \<Rightarrow> bool \<Rightarrow> gotime \<Rightarrow> udp_addr \<Rightarrow> byte list \<Rightarrow> nat \<Rightarrow> adaptive \<Rightarrow> (bool \<times> datagram list \<times> adaptive) option" where
  "adaptive_local env again now addr packet index a0 =
     (let a = a0\<lparr>ac_wgPeer := Some addr, ac_stats := add_InnerTX (length packet) (ac_stats a0)\<rparr>
      in case Seal (sv_crypto env) (af_TX (ac_config a)) (sv_random env) packet of
           (Inl _, _) \<Rightarrow> Some (False, [], a)
         | (Inr outer, _) \<Rightarrow>
             (case index_at (pl_addrs (ac_pool a)) index of
                None \<Rightarrow> None
              | Some endpoint \<Rightarrow>
                  let a = a\<lparr>ac_manager := MarkSent (int index) now (ac_manager a)\<rparr>
                  in if \<not> sv_write env then Some (False, [], a)
                     else let a = a\<lparr>ac_stats := add_OuterTX (length outer) (ac_stats a)\<rparr>
                          in if af_WireGuardHandoff (ac_config a) \<and> isWireGuardTransportData packet
                             then (case MigrationFallback (ac_manager a) of
                                     None \<Rightarrow> None
                                   | Some None \<Rightarrow> Some (True, [Outer endpoint outer], a)
                                   | Some (Some previous) \<Rightarrow>
                                       if previous = index then Some (True, [Outer endpoint outer], a)
                                       else (case index_at (pl_addrs (ac_pool a)) previous of
                                               None \<Rightarrow> None
                                             | Some old \<Rightarrow>
                                                 if again then Some (True, [Outer endpoint outer, Outer old outer],
                                                            a\<lparr>ac_stats := add_OuterTX (length outer) (ac_stats a)\<rparr>)
                                                 else Some (True, [Outer endpoint outer], a)))
                             else Some (True, [Outer endpoint outer], a)))"

text \<open>The reply to a probe: the pending entry is used up, and the round trip counted when it came from the endpoint
  that was probed and the queue has room.\<close>

definition probe_reply :: "string \<Rightarrow> byte list \<Rightarrow> gotime \<Rightarrow> adaptive \<Rightarrow> adaptive" where
  "probe_reply source inner now a =
     (let token = hex_encode inner
      in case map_of (ac_pending a) token of
           None \<Rightarrow> a
         | Some (endpoint, sent) \<Rightarrow>
             let a = a\<lparr>ac_pending := AList.delete token (ac_pending a)\<rparr>
             in if source = endpoint \<and> length (ac_results a) < result_cap
                then a\<lparr>ac_results := ac_results a @
                         [(case map_of (pl_sources (ac_pool a)) endpoint of None \<Rightarrow> [] | Some n \<Rightarrow> n, time_sub now sent)]\<rparr>
                else a)"

text \<open>A packet of the outer socket; \<open>sel\<close> is the selection as it was read.\<close>

definition adaptive_outer ::
  "step_env \<Rightarrow> gotime \<Rightarrow> udp_addr \<Rightarrow> byte list \<Rightarrow> nat \<Rightarrow> adaptive \<Rightarrow> (bool \<times> datagram list \<times> adaptive) option" where
  "adaptive_outer env now source packet sel a0 =
     (case map_of (pl_sources (ac_pool a0)) (udp_String source) of
        None \<Rightarrow> Some (True, [], a0)
      | Some name \<Rightarrow>
          let a = a0\<lparr>ac_stats := add_OuterRX (length packet) (ac_stats a0)\<rparr>
          in case OpenTyped (sv_crypto env) (af_RX (ac_config a)) packet of
               Inl _ \<Rightarrow> Some (True, [], a\<lparr>ac_stats := add_AuthDrops (ac_stats a)\<rparr>)
             | Inr (packetType, inner) \<Rightarrow>
                 if IsProbeReply packetType then Some (True, [], probe_reply (udp_String source) inner now a)
                 else if \<not> IsData packetType then Some (True, [], a)
                 else let traffic = (\<not> af_WireGuardHandoff (ac_config a) \<or> isWireGuardTransportData inner);
                          a = (if traffic then a\<lparr>ac_manager := ConfirmTraffic name now (ac_manager a)\<rparr> else a)
                      in case (if traffic then Some True
                               else map_option (\<lambda>addr. udp_String source = udp_String addr) (index_at (pl_addrs (ac_pool a)) sel)) of
                           None \<Rightarrow> None
                         | Some False \<Rightarrow> Some (True, [], a)
                         | Some True \<Rightarrow>
                             (case ac_wgPeer a of
                                None \<Rightarrow> Some (True, [], a\<lparr>ac_stats := add_NoPeerDrop (ac_stats a)\<rparr>)
                              | Some peer \<Rightarrow>
                                  if \<not> sv_write env then Some (False, [], a)
                                  else Some (True, [Inner peer inner], a\<lparr>ac_stats := add_InnerRX (length inner) (ac_stats a)\<rparr>)))"

section \<open>Rounds\<close>

text \<open>\<^verbatim>\<open>randomIndex\<close> on the two bytes it reads (none when the random source fails), and the order of a round: the
  swaps of Fisher and Yates from the end.\<close>

definition randomIndex :: "(byte \<times> byte) option \<Rightarrow> nat \<Rightarrow> nat" where
  "randomIndex raw n =
     (if n \<le> 1 then 0
      else case raw of
             None \<Rightarrow> 0
           | Some (lo, hi) \<Rightarrow>
               unat (((ucast lo :: u16) OR push_bit 8 (ucast hi)) mod word_of_nat n))"

fun shuffle :: "(nat \<Rightarrow> (byte \<times> byte) option) \<Rightarrow> nat \<Rightarrow> nat list \<Rightarrow> nat list" where
  "shuffle draw 0 order = order"
| "shuffle draw (Suc i) order =
     (let j = randomIndex (draw (Suc i)) (Suc (Suc i))
      in shuffle draw i (order[Suc i := order ! j, j := order ! Suc i]))"

definition probe_order :: "(nat \<Rightarrow> (byte \<times> byte) option) \<Rightarrow> nat \<Rightarrow> nat list" where
  "probe_order draw n = shuffle draw (n - 1) [0..<n]"

text \<open>One probe to server \<open>i\<close>. A failure of the seal ends the client.\<close>

definition adaptive_probe ::
  "step_env \<Rightarrow> gotime \<Rightarrow> nat \<Rightarrow> byte list \<Rightarrow> adaptive \<Rightarrow> (bool \<times> datagram list \<times> adaptive) option" where
  "adaptive_probe env now i token a0 =
     (case index_at (pl_addrs (ac_pool a0)) i of
        None \<Rightarrow> None
      | Some endpoint \<Rightarrow>
          let key = hex_encode token;
              a = a0\<lparr>ac_pending := AList.update key (udp_String endpoint, now) (ac_pending a0)\<rparr>
          in case SealProbe (sv_crypto env) (af_TX (ac_config a)) (sv_random env) token of
               (Inl _, _) \<Rightarrow> Some (False, [], a)
             | (Inr packet, _) \<Rightarrow>
                 if sv_write env
                 then Some (True, [Outer endpoint packet], a\<lparr>ac_stats := add_OuterTX (length packet) (ac_stats a)\<rparr>)
                 else Some (True, [], a\<lparr>ac_pending := AList.delete key (ac_pending a)\<rparr>))"

text \<open>\<^verbatim>\<open>time.Duration(f)\<close> of a float truncates towards zero.\<close>

definition f64_trunc :: "f64 \<Rightarrow> int" where
  "f64_trunc x = (if 0 \<le> x then \<lfloor>x\<rfloor> else \<lceil>x\<rceil>)"

fun observe_all :: "nat \<Rightarrow> string list \<Rightarrow> (string \<times> duration) list \<Rightarrow> gotime \<Rightarrow> path_manager \<Rightarrow> path_manager" where
  "observe_all i [] ms now m = m"
| "observe_all i (name # names) ms now m =
     observe_all (Suc i) names ms now
       (Observe (int i) (int samplesPerEndpoint) (map snd (filter (\<lambda>r. fst r = name) ms)) now m)"

text \<open>One turn of the collecting loop, and the end of a round at \<open>now\<close>, when as many measurements as probes were
  collected or the timer has fired.\<close>

definition adaptive_collect :: "adaptive \<Rightarrow> adaptive" where
  "adaptive_collect a =
     (case ac_results a of [] \<Rightarrow> a | r # rest \<Rightarrow> a\<lparr>ac_results := rest, ac_measured := ac_measured a @ [r]\<rparr>)"

definition adaptive_round :: "gotime \<Rightarrow> adaptive \<Rightarrow> (adaptive \<times> endpoint_report) option" where
  "adaptive_round now a0 =
     (let a = a0\<lparr>ac_measured := [],
                 ac_pending := filter (\<lambda>(t, e, sent). \<not> af_ProbeTimeout (ac_config a0) \<le> time_sub now sent) (ac_pending a0),
                 ac_manager := observe_all 0 (pl_names (ac_pool a0)) (ac_measured a0) now (ac_manager a0)\<rparr>
      in case Select now (ac_manager a) of
           Some (Some nxt, switched, m) \<Rightarrow>
             (let health = Snapshot m
              in case index_at health nxt of
                   None \<Rightarrow> None
                 | Some h \<Rightarrow>
                     set_selected nxt (f64_trunc (f64_mul (ph_RTTMS h) (f64_of_int millisecond)))
                       (length (filter ph_Reachable health)) switched (a\<lparr>ac_manager := m\<rparr>))
         | _ \<Rightarrow> None)"

text \<open>\<^verbatim>\<open>RunAdaptiveClient\<close> around the client: the servers of the next attempt, when the attempt ended because an
  unresolved server was found (with the selected server as the preferred one), and none when the client is done.\<close>

definition adaptive_again :: "bool \<Rightarrow> string option \<Rightarrow> adaptive_config \<Rightarrow> adaptive_config option" where
  "adaptive_again cancelled changed cfg =
     (if cancelled then None
      else map_option (\<lambda>preferred. cfg\<lparr>af_Servers := preferAdaptiveServer (af_Servers cfg) preferred\<rparr>) changed)"

section \<open>Runs\<close>

inductive adaptive_run :: "adaptive \<Rightarrow> adaptive \<Rightarrow> bool" for a0 :: adaptive where
  start: "adaptive_run a0 a0"
| from_local: "adaptive_run a0 a \<Longrightarrow> index < length (pl_names (ac_pool a)) \<Longrightarrow>
    adaptive_local env again now addr packet index a = Some (go, out, a') \<Longrightarrow> adaptive_run a0 a'"
| from_outer: "adaptive_run a0 a \<Longrightarrow> sel < length (pl_names (ac_pool a)) \<Longrightarrow>
    adaptive_outer env now source packet sel a = Some (go, out, a') \<Longrightarrow> adaptive_run a0 a'"
| probe: "adaptive_run a0 a \<Longrightarrow> adaptive_probe env now i token a = Some (go, out, a') \<Longrightarrow> adaptive_run a0 a'"
| round: "adaptive_run a0 a \<Longrightarrow> adaptive_round now a = Some (a', report) \<Longrightarrow> adaptive_run a0 a'"
| collect: "adaptive_run a0 a \<Longrightarrow> adaptive_run a0 (adaptive_collect a)"

definition pool_ok :: "server_pool \<Rightarrow> bool" where
  "pool_ok pl \<longleftrightarrow> length (pl_addrs pl) = length (pl_names pl) \<and>
     (\<forall>i < length (pl_addrs pl). map_of (pl_sources pl) (udp_String (pl_addrs pl ! i)) = Some (pl_names pl ! i)) \<and>
     (\<forall>k n. map_of (pl_sources pl) k = Some n \<longrightarrow> (\<exists>i < length (pl_addrs pl). k = udp_String (pl_addrs pl ! i)))"

definition adaptive_ok :: "adaptive \<Rightarrow> bool" where
  "adaptive_ok a \<longleftrightarrow>
     pool_ok (ac_pool a) \<and> pl_names (ac_pool a) \<noteq> [] \<and>
     path_ok (pl_names (ac_pool a)) (af_Policy (ac_config a)) (ac_manager a) \<and>
     ac_selected a < length (pl_names (ac_pool a)) \<and> length (ac_results a) \<le> result_cap \<and>
     (\<forall>(t, e, sent) \<in> set (ac_pending a). map_of (pl_sources (ac_pool a)) e \<noteq> None)"

lemma pool_ok_extend:
  assumes ok: "pool_ok pl" and new: "map_of (pl_sources pl) (udp_String addr) = None"
  shows "pool_ok (pl\<lparr>pl_addrs := pl_addrs pl @ [addr], pl_names := pl_names pl @ [raw],
    pl_sources := AList.update (udp_String addr) raw (pl_sources pl)\<rparr>)"
proof -
  have "udp_String (pl_addrs pl ! i) \<noteq> udp_String addr" if "i < length (pl_addrs pl)" for i
    using ok new that unfolding pool_ok_def by (metis option.distinct(1))
  then show ?thesis
    using ok unfolding pool_ok_def
    by (auto simp: update_Some_unfold nth_append less_Suc_eq AList.update_conv') blast
qed

lemma resolve_loop_ok: "pool_ok pl \<Longrightarrow> pool_ok (resolve_loop resolver servers pl)"
proof (induction servers arbitrary: pl)
  case (Cons raw rest)
  have "pool_ok (pl\<lparr>pl_unresolved := u\<rparr>)" for u using Cons.prems unfolding pool_ok_def by auto
  then show ?case
    using Cons pool_ok_extend [OF Cons.prems] by (simp add: Let_def split: option.split)
qed simp

lemma resolve_ok: "resolveAdaptiveServers resolver servers = Inr pl \<Longrightarrow> pool_ok pl \<and> pl_addrs pl \<noteq> []"
  using resolve_loop_ok [of "\<lparr>pl_addrs = [], pl_names = [], pl_sources = [], pl_unresolved = []\<rparr>" resolver servers]
  by (auto simp: resolveAdaptiveServers_def pool_ok_def Let_def split: if_splits)

lemma fallback_defined:
  assumes "path_ok es pol m"
  shows "MigrationFallback m \<noteq> None" and "MigrationFallback m = Some (Some j) \<Longrightarrow> j < length es \<and> j \<noteq> pm_active m \<and> ph_Reachable (pm_paths m ! j)"
proof -
  note ix = path_ok_indices [OF assms]
  show "MigrationFallback m \<noteq> None" using ix(2) by (auto simp: MigrationFallback_def bounds_simps split: option.splits)
  assume "MigrationFallback m = Some (Some j)"
  then have "pm_migratingFrom m = Some j" "ph_Reachable (pm_paths m ! j)"
    by (auto simp: MigrationFallback_def bounds_simps split: option.splits if_splits)
  then show "j < length es \<and> j \<noteq> pm_active m \<and> ph_Reachable (pm_paths m ! j)" using assms by (auto simp: path_ok_def)
qed

lemma set_selected_ok:
  assumes ok: "adaptive_ok a" and i: "i < length (pl_names (ac_pool a))"
  obtains r where "set_selected i rtt n sw a = Some (a\<lparr>ac_selected := i\<rparr>, r)" "adaptive_ok (a\<lparr>ac_selected := i\<rparr>)"
    "er_Selected r = pl_names (ac_pool a) ! i"
proof -
  obtain f where "MigrationFallback (ac_manager a) = Some f"
    using fallback_defined(1) ok unfolding adaptive_ok_def by fastforce
  moreover have "index_at (pl_names (ac_pool a)) i = Some (pl_names (ac_pool a) ! i)" using i by (simp add: bounds_simps)
  moreover have "adaptive_ok (a\<lparr>ac_selected := i\<rparr>)" using ok i by (simp add: adaptive_ok_def)
  ultimately show ?thesis using that by (simp add: set_selected_def)
qed

lemma start_ok:
  assumes "adaptive_start cfg resolver = Inr x"
  shows "\<exists>a r. x = Some (a, r) \<and> adaptive_ok a"
proof -
  let ?cfg = "adaptive_defaults cfg"
  obtain pl where pl: "resolveAdaptiveServers resolver (af_Servers ?cfg) = Inr pl"
    and x: "x = set_selected 0 0 0 False
                    \<lparr>ac_config = ?cfg, ac_pool = pl, ac_wgPeer = None, ac_selected = 0, ac_pending = [], ac_results = [], ac_measured = [],
                     ac_manager = NewPathManager (pl_names pl) (af_Policy ?cfg), ac_stats = no_stats\<rparr>" (is "x = set_selected 0 0 0 False ?a")
    using assms by (auto simp: adaptive_start_def Let_def split: if_splits sum.splits)
  have "pl_names pl \<noteq> []" using resolve_ok [OF pl] by (auto simp: pool_ok_def)
  then have ok: "adaptive_ok ?a" using resolve_ok [OF pl] path_ok_new by (simp add: adaptive_ok_def)
  have "0 < length (pl_names (ac_pool ?a))" using \<open>pl_names pl \<noteq> []\<close> by simp
  from set_selected_ok [OF ok this, of 0 0 False] show ?thesis unfolding x by blast
qed

lemma path_ok_observe_all: "path_ok es pol m \<Longrightarrow> path_ok es pol (observe_all i names ms now m)"
  by (induction names arbitrary: i m) (auto intro: path_ok_Observe)


lemma Select_active:
  assumes "Select now m = Some (i, sw, m')" and "pm_paths m \<noteq> []"
  shows "i = Some (pm_active m')"
  using assms(1)
proof (cases rule: Select_cases)
  case empty
  then show ?thesis using assms(2) by simp
qed (auto simp: roll_back_def)

lemma adaptive_ok_parts:
  assumes "adaptive_ok a"
  shows "pool_ok (ac_pool a)" "pl_names (ac_pool a) \<noteq> []" "path_ok (pl_names (ac_pool a)) (af_Policy (ac_config a)) (ac_manager a)"
    "length (pl_addrs (ac_pool a)) = length (pl_names (ac_pool a))"
  using assms by (auto simp: adaptive_ok_def pool_ok_def)

text \<open>The steps that keep the pool, the configuration and the selection.\<close>

lemma adaptive_ok_keep:
  assumes "adaptive_ok a" and "ac_pool b = ac_pool a" "ac_config b = ac_config a" "ac_selected b = ac_selected a"
    and "path_ok (pl_names (ac_pool a)) (af_Policy (ac_config a)) (ac_manager b)"
    and "set (ac_pending b) \<subseteq> set (ac_pending a)" and "length (ac_results b) \<le> result_cap"
  shows "adaptive_ok b"
  using assms unfolding adaptive_ok_def by auto

lemma local_cases:
  assumes ok: "adaptive_ok a" and i: "index < length (pl_names (ac_pool a))"
  obtains go out a' where "adaptive_local env again now addr packet index a = Some (go, out, a')" "adaptive_ok a'"
    "ac_wgPeer a' = Some addr" "ac_pool a' = ac_pool a"
proof -
  note parts = adaptive_ok_parts [OF ok]
  let ?m = "MarkSent (int index) now (ac_manager a)"
  have m: "path_ok (pl_names (ac_pool a)) (af_Policy (ac_config a)) ?m" by (rule path_ok_Sent [OF parts(3)])
  obtain f where f: "MigrationFallback ?m = Some f" "\<And>j. f = Some j \<Longrightarrow> j < length (pl_names (ac_pool a))"
    using fallback_defined [OF m] by fastforce
  have ix: "index_at (pl_addrs (ac_pool a)) j = Some (pl_addrs (ac_pool a) ! j)" if "j < length (pl_names (ac_pool a))" for j
    using that parts(4) by (simp add: bounds_simps)
  have keep: "adaptive_ok b" if "ac_pool b = ac_pool a" "ac_config b = ac_config a" "ac_selected b = ac_selected a"
      "ac_manager b = ac_manager a \<or> ac_manager b = ?m" "ac_pending b = ac_pending a" "ac_results b = ac_results a" for b
    using adaptive_ok_keep [OF ok that(1-3)] that(4-6) m parts(3) ok by (auto simp: adaptive_ok_def)
  have "\<exists>go out a'. adaptive_local env again now addr packet index a = Some (go, out, a') \<and> adaptive_ok a' \<and>
      ac_wgPeer a' = Some addr \<and> ac_pool a' = ac_pool a"
    using i f ix by (auto simp: adaptive_local_def Let_def intro!: keep split: prod.splits sum.splits option.splits)
  then show ?thesis using that by blast
qed

lemma probe_reply_ok: "adaptive_ok a \<Longrightarrow> adaptive_ok (probe_reply source inner now a)"
  by (cases "map_of (ac_pending a) (hex_encode inner)")
    (auto simp: probe_reply_def Let_def AList.delete_eq adaptive_ok_parts(3) intro!: adaptive_ok_keep [of a], auto simp: adaptive_ok_def split: if_splits)


lemma outer_cases:
  assumes ok: "adaptive_ok a" and i: "sel < length (pl_names (ac_pool a))"
  obtains go out a' where "adaptive_outer env now source packet sel a = Some (go, out, a')" "adaptive_ok a'"
    "ac_wgPeer a' = ac_wgPeer a" "ac_pool a' = ac_pool a"
proof -
  note parts = adaptive_ok_parts [OF ok]
  have c: "path_ok (pl_names (ac_pool a)) (af_Policy (ac_config a)) (ConfirmTraffic n now (ac_manager a))" for n
    by (rule path_ok_Confirm [OF parts(3)])
  have keep: "adaptive_ok b" if "ac_pool b = ac_pool a" "ac_config b = ac_config a" "ac_selected b = ac_selected a"
      "ac_manager b = ac_manager a \<or> ac_manager b = ConfirmTraffic n now (ac_manager a)" "ac_pending b = ac_pending a"
      "ac_results b = ac_results a" for b n
    using adaptive_ok_keep [OF ok that(1-3)] that(4-6) c [of n] parts(3) ok by (auto simp: adaptive_ok_def)
  have reply: "adaptive_ok (probe_reply src inner now (a\<lparr>ac_stats := st\<rparr>))" for src inner st
    by (rule probe_reply_ok) (use ok in \<open>simp add: adaptive_ok_def\<close>)
  have peer: "ac_wgPeer (probe_reply src inner now b) = ac_wgPeer b" "ac_pool (probe_reply src inner now b) = ac_pool b" for src inner b
    by (auto simp: probe_reply_def Let_def split: option.split)
  have ix: "index_at (pl_addrs (ac_pool a)) sel = Some (pl_addrs (ac_pool a) ! sel)" using i parts(4) by (simp add: bounds_simps)
  have "\<exists>go out a'. adaptive_outer env now source packet sel a = Some (go, out, a') \<and> adaptive_ok a' \<and>
      ac_wgPeer a' = ac_wgPeer a \<and> ac_pool a' = ac_pool a"
    using ix ok reply peer by (auto simp: adaptive_outer_def Let_def intro!: keep split: prod.splits sum.splits option.splits bool.splits)
  then show ?thesis using that by blast
qed

lemma probe_cases:
  assumes ok: "adaptive_ok a" and i: "i < length (pl_names (ac_pool a))"
  obtains go out a' where "adaptive_probe env now i token a = Some (go, out, a')" "adaptive_ok a'" "ac_pool a' = ac_pool a"
proof -
  note parts = adaptive_ok_parts [OF ok]
  let ?addr = "pl_addrs (ac_pool a) ! i"
  have ix: "index_at (pl_addrs (ac_pool a)) i = Some ?addr" using i parts(4) by (simp add: bounds_simps)
  have src: "map_of (pl_sources (ac_pool a)) (udp_String ?addr) \<noteq> None"
    using parts(1,4) i by (simp add: pool_ok_def)
  let ?b = "a\<lparr>ac_pending := AList.update (hex_encode token) (udp_String ?addr, now) (ac_pending a)\<rparr>"
  have b: "adaptive_ok ?b"
    using ok src set_update_subset [of "hex_encode token" "(udp_String ?addr, now)" "ac_pending a"]
    by (fastforce simp: adaptive_ok_def)
  have "adaptive_ok (?b\<lparr>ac_stats := st\<rparr>)" "adaptive_ok (?b\<lparr>ac_pending := AList.delete k (ac_pending ?b)\<rparr>)" for st k
    using b by (auto simp: adaptive_ok_def AList.delete_eq)
  then have "\<exists>go out a'. adaptive_probe env now i token a = Some (go, out, a') \<and> adaptive_ok a' \<and> ac_pool a' = ac_pool a"
    using ix b by (auto simp: adaptive_probe_def Let_def split: prod.splits sum.splits)
  then show ?thesis using that by blast
qed

lemma collect_ok: "adaptive_ok a \<Longrightarrow> adaptive_ok (adaptive_collect a) \<and> ac_pool (adaptive_collect a) = ac_pool a"
  by (cases "ac_results a") (auto simp: adaptive_collect_def adaptive_ok_def)

lemma round_cases:
  assumes ok: "adaptive_ok a"
  obtains a' r where "adaptive_round now a = Some (a', r)" "adaptive_ok a'" "ac_pool a' = ac_pool a" "ac_wgPeer a' = ac_wgPeer a"
    "er_Selected r = pl_names (ac_pool a) ! ac_selected a'" "ac_selected a' = pm_active (ac_manager a')"
proof -
  note parts = adaptive_ok_parts [OF ok]
  let ?m = "observe_all 0 (pl_names (ac_pool a)) (ac_measured a) now (ac_manager a)"
  let ?b = "a\<lparr>ac_measured := [],
      ac_pending := filter (\<lambda>(t, e, sent). \<not> af_ProbeTimeout (ac_config a) \<le> time_sub now sent) (ac_pending a)\<rparr>"
  have m: "path_ok (pl_names (ac_pool a)) (af_Policy (ac_config a)) ?m" by (rule path_ok_observe_all [OF parts(3)])
  obtain i sw m' where sel: "Select now ?m = Some (i, sw, m')" using Select_defined [OF m] by blast
  have m': "path_ok (pl_names (ac_pool a)) (af_Policy (ac_config a)) m'" by (rule path_ok_Select [OF m sel])
  have ne: "pm_paths ?m \<noteq> []" using m parts(2) by (auto simp: path_ok_def)
  then have i: "i = Some (pm_active m')" using Select_active [OF sel] by simp
  have act: "pm_active m' < length (pl_names (ac_pool a))" using m' parts(2) by (simp add: path_ok_def)
  have "length (Snapshot m') = length (pl_names (ac_pool a))"
    using path_ok_indices(3) [OF m'] by (simp add: Snapshot_def)
  then obtain h where h: "index_at (Snapshot m') (pm_active m') = Some h" using act by (simp add: bounds_simps)
  let ?c = "?b\<lparr>ac_manager := m'\<rparr>"
  have c: "adaptive_ok ?c" using ok m' unfolding adaptive_ok_def by auto
  have act': "pm_active m' < length (pl_names (ac_pool ?c))" using act by simp
  obtain r where r: "set_selected (pm_active m') (f64_trunc (f64_mul (ph_RTTMS h) (f64_of_int millisecond)))
      (length (filter ph_Reachable (Snapshot m'))) sw ?c = Some (?c\<lparr>ac_selected := pm_active m'\<rparr>, r)"
      "adaptive_ok (?c\<lparr>ac_selected := pm_active m'\<rparr>)" "er_Selected r = pl_names (ac_pool ?c) ! pm_active m'"
    using set_selected_ok [OF c act'] by metis
  have "adaptive_round now a = Some (?c\<lparr>ac_selected := pm_active m'\<rparr>, r)"
    using sel i h r(1) by (simp add: adaptive_round_def Let_def)
  then show ?thesis using that r(2,3) by simp
qed


lemma adaptive_run_ok: "adaptive_run a0 a \<Longrightarrow> adaptive_ok a0 \<Longrightarrow> adaptive_ok a \<and> ac_pool a = ac_pool a0"
proof (induction rule: adaptive_run.induct)
  case (from_local a index env again now addr packet go out a')
  then show ?case using local_cases [of a index env again now addr packet] by (metis option.inject prod.inject)
next
  case (from_outer a sel env now source packet go out a')
  then show ?case using outer_cases [of a sel env now source packet] by (metis option.inject prod.inject)
next
  case (probe a env now i token go out a')
  then have "i < length (pl_names (ac_pool a))"
    using adaptive_ok_parts(4) [of a] by (auto simp: adaptive_probe_def bounds_simps split: option.splits)
  then show ?case using probe probe_cases [of a i env now token] by (metis option.inject prod.inject)
next
  case (round a now a' report)
  then show ?case using round_cases [of a now] by (metis option.inject prod.inject)
qed (auto simp: collect_ok)

text \<open>The order of a round visits every server once, and the preferred server only moves to the front.\<close>

lemma randomIndex_bound: "0 < n \<Longrightarrow> n < 2 ^ 16 \<Longrightarrow> randomIndex raw n < n"
  by (cases raw) (auto simp: randomIndex_def unat_mod unsigned_of_nat take_bit_nat_eq_self)

lemma shuffle_perm: "i < length order \<Longrightarrow> length order < 2 ^ 16 \<Longrightarrow> mset (shuffle draw i order) = mset order"
proof (induction draw i order rule: shuffle.induct)
  case (2 draw i order)
  let ?j = "randomIndex (draw (Suc i)) (Suc (Suc i))"
  have "?j < Suc (Suc i)" using randomIndex_bound 2(2,3) by (metis Suc_lessI le_less_trans less_imp_le_nat zero_less_Suc)
  then have "?j < length order" using 2(2) by simp
  then show ?case using 2 by (simp add: Let_def mset_swap)
qed simp

lemma probe_order_perm: "n < 2 ^ 16 \<Longrightarrow> mset (probe_order draw n) = mset [0..<n]"
  using shuffle_perm [of "n - 1" "[0..<n]" draw] by (cases n) (auto simp: probe_order_def)


lemma find_eq: "find (\<lambda>s. s = x) xs = (if x \<in> set xs then Some x else None)"
  by (induction xs) auto

lemma mset_split_eq: "mset xs = replicate_mset (count (mset xs) x) x + mset (filter (\<lambda>s. s \<noteq> x) xs)"
  by (induction xs) auto

lemma preferAdaptiveServer_perm: "mset (preferAdaptiveServer servers preferred) = mset servers"
proof -
  let ?n = "count (mset servers) preferred" and ?others = "filter (\<lambda>s. s \<noteq> preferred) servers"
  have split: "mset servers = replicate_mset ?n preferred + mset ?others" by (rule mset_split_eq)
  have "length servers = ?n + length ?others"
    by (metis mset_split_eq size_mset size_replicate_mset size_union)
  then have "mset servers = add_mset preferred (mset ?others)" if "length servers = Suc (length ?others)"
    using split that by (metis Suc_eq_plus1_left add_mset_add_single add.commute add_right_cancel replicate_mset_Suc replicate_mset_0 One_nat_def empty_neutral(1))
  moreover have "?others = servers" if "preferred \<notin> set servers" using that by (simp add: filter_id_conv) blast
  ultimately show ?thesis by (auto simp: preferAdaptiveServer_def Let_def find_eq simp del: mset_filter)
qed

section \<open>Properties\<close>

text \<open>C37. The adaptive client never indexes out of range: when it starts, the start is defined, and after any run of its
  goroutines every packet of the local WireGuard, every packet of the outer socket and every probe is handled
  without a panic, for every selection that was read, and the end of every round selects an existing server, the one
  that the path manager made active, and reports it. The pool of servers never changes, every pending probe belongs to a server of the
  pool and the channel of measurements keeps its bound.\<close>

theorem adaptive_never_panics:
  assumes "adaptive_start cfg resolver = Inr x"
  shows "\<exists>a0 r. x = Some (a0, r) \<and>
    (\<forall>a. adaptive_run a0 a \<longrightarrow> adaptive_ok a \<and> ac_pool a = ac_pool a0 \<and>
      (\<forall>i < length (pl_names (ac_pool a0)).
         adaptive_local env again now addr packet i a \<noteq> None \<and> adaptive_outer env now source packet i a \<noteq> None \<and>
         adaptive_probe env now i token a \<noteq> None) \<and>
      (\<exists>a' report. adaptive_round now a = Some (a', report) \<and> er_Selected report \<in> set (pl_names (ac_pool a0)) \<and>
         ac_selected a' = pm_active (ac_manager a')))"
proof -
  obtain a0 r where x: "x = Some (a0, r)" and ok0: "adaptive_ok a0" using start_ok [OF assms] by blast
  { fix a
    assume "adaptive_run a0 a"
    then have ok: "adaptive_ok a" and pool: "ac_pool a = ac_pool a0" using adaptive_run_ok ok0 by blast+
    { fix i
      assume i: "i < length (pl_names (ac_pool a0))"
      have "adaptive_local env again now addr packet i a \<noteq> None" by (rule local_cases [OF ok]) (use i pool in auto)
      moreover have "adaptive_outer env now source packet i a \<noteq> None" by (rule outer_cases [OF ok]) (use i pool in auto)
      moreover have "adaptive_probe env now i token a \<noteq> None" by (rule probe_cases [OF ok]) (use i pool in auto)
      ultimately have "adaptive_local env again now addr packet i a \<noteq> None \<and> adaptive_outer env now source packet i a \<noteq> None \<and>
         adaptive_probe env now i token a \<noteq> None" by blast }
    moreover obtain a' report where rd: "adaptive_round now a = Some (a', report)" "adaptive_ok a'" "ac_pool a' = ac_pool a"
        "er_Selected report = pl_names (ac_pool a) ! ac_selected a'" "ac_selected a' = pm_active (ac_manager a')"
      by (rule round_cases [OF ok])
    moreover have "er_Selected report \<in> set (pl_names (ac_pool a0))"
      using rd(2-4) pool by (simp add: adaptive_ok_def)
    ultimately have "adaptive_ok a \<and> ac_pool a = ac_pool a0 \<and>
      (\<forall>i < length (pl_names (ac_pool a0)).
         adaptive_local env again now addr packet i a \<noteq> None \<and> adaptive_outer env now source packet i a \<noteq> None \<and>
         adaptive_probe env now i token a \<noteq> None) \<and>
      (\<exists>a' report. adaptive_round now a = Some (a', report) \<and> er_Selected report \<in> set (pl_names (ac_pool a0)) \<and>
         ac_selected a' = pm_active (ac_manager a'))"
      using ok pool by blast }
  then show ?thesis using x by blast
qed

text \<open>What the two directions send.\<close>

lemma local_sends:
  assumes "adaptive_local env again now addr packet index a = Some (go, out, a')" and "d \<in> set out"
  shows "\<exists>i outer rest. i < length (pl_addrs (ac_pool a)) \<and> d = Outer (pl_addrs (ac_pool a) ! i) outer \<and>
    Seal (sv_crypto env) (af_TX (ac_config a)) (sv_random env) packet = (Inr outer, rest)"
  using assms
  by (auto simp: adaptive_local_def Let_def bounds_simps split: prod.splits sum.splits option.splits if_splits)

lemma outer_sends:
  assumes "adaptive_outer env now source packet sel a = Some (go, out, a')" and "d \<in> set out"
  shows "\<exists>name peer inner. map_of (pl_sources (ac_pool a)) (udp_String source) = Some name \<and> ac_wgPeer a = Some peer \<and>
    OpenTyped (sv_crypto env) (af_RX (ac_config a)) packet = Inr (packetData, inner) \<and> d = Inner peer inner \<and>
    (af_WireGuardHandoff (ac_config a) \<and> \<not> isWireGuardTransportData inner \<longrightarrow>
      udp_String source = udp_String (pl_addrs (ac_pool a) ! sel))"
  using assms
  by (auto simp: adaptive_outer_def Let_def packet_kinds bounds_simps split: prod.splits sum.splits option.splits if_splits bool.splits)

lemma outer_measures:
  assumes "adaptive_outer env now source packet sel a = Some (go, out, a')" and "ac_results a' \<noteq> ac_results a"
  shows "\<exists>name token sent. map_of (pl_sources (ac_pool a)) (udp_String source) = Some name \<and>
    OpenTyped (sv_crypto env) (af_RX (ac_config a)) packet = Inr (packetProbeReply, token) \<and>
    map_of (ac_pending a) (hex_encode token) = Some (udp_String source, sent) \<and>
    map_of (ac_pending a') (hex_encode token) = None \<and> ac_results a' = ac_results a @ [(name, time_sub now sent)]"
  using assms
  by (auto simp: adaptive_outer_def probe_reply_def Let_def packet_kinds AList.delete_conv' split: prod.splits sum.splits option.splits if_splits bool.splits)


text \<open>The adaptive client talks to its servers and to nobody else. After any run, what it sends for a packet of the local
  WireGuard goes to servers of the pool and opens to that packet; what it hands to WireGuard came from the
  address of a server of the pool, was sealed with the receive key as data, and goes to the address WireGuard was last
  heard from; and a round trip is counted only for the reply to a pending probe, opened with the receive key, that came from the
  address that the probe was sent to, to the credit of that server, and the probe is used up.\<close>

theorem adaptive_only_servers:
  assumes cr: "crypto_ok (sv_crypto env)" and start: "adaptive_start cfg resolver = Inr (Some (a0, r))" and run: "adaptive_run a0 a"
  shows "(adaptive_local env again now addr packet index a = Some (go, out, a') \<longrightarrow> d \<in> set out \<longrightarrow>
      (\<exists>server \<in> set (pl_addrs (ac_pool a0)). \<exists>outer. d = Outer server outer \<and>
         codec_Open (sv_crypto env) (af_TX (ac_config a)) outer = Inr packet)) \<and>
    (adaptive_outer env now source packet sel a = Some (go, out, a') \<longrightarrow> d \<in> set out \<longrightarrow>
      (\<exists>server \<in> set (pl_addrs (ac_pool a0)). \<exists>peer inner. udp_String source = udp_String server \<and> ac_wgPeer a = Some peer \<and>
         OpenTyped (sv_crypto env) (af_RX (ac_config a)) packet = Inr (packetData, inner) \<and> d = Inner peer inner)) \<and>
    (adaptive_outer env now source packet sel a = Some (go, out, a') \<longrightarrow> ac_results a' \<noteq> ac_results a \<longrightarrow>
      (\<exists>i token sent. i < length (pl_names (ac_pool a0)) \<and> udp_String source = udp_String (pl_addrs (ac_pool a0) ! i) \<and>
         OpenTyped (sv_crypto env) (af_RX (ac_config a)) packet = Inr (packetProbeReply, token) \<and>
         map_of (ac_pending a) (hex_encode token) = Some (udp_String source, sent) \<and> map_of (ac_pending a') (hex_encode token) = None \<and>
         ac_results a' = ac_results a @ [(pl_names (ac_pool a0) ! i, time_sub now sent)]))"
proof (intro conjI impI)
  have "adaptive_ok a0" using start_ok [OF start] by simp
  then have ok: "adaptive_ok a" and pool: "ac_pool a = ac_pool a0" using adaptive_run_ok [OF run] by auto
  note pl = adaptive_ok_parts [OF ok, unfolded pool]
  have known: "\<exists>i < length (pl_addrs (ac_pool a0)). k = udp_String (pl_addrs (ac_pool a0) ! i) \<and> n = pl_names (ac_pool a0) ! i"
    if "map_of (pl_sources (ac_pool a0)) k = Some n" for k n
    using pl(1) that unfolding pool_ok_def by (metis option.inject)
  { assume "adaptive_local env again now addr packet index a = Some (go, out, a')" "d \<in> set out"
    from local_sends [OF this] obtain i outer rest where "i < length (pl_addrs (ac_pool a0))" "d = Outer (pl_addrs (ac_pool a0) ! i) outer"
      and seal: "Seal (sv_crypto env) (af_TX (ac_config a)) (sv_random env) packet = (Inr outer, rest)" unfolding pool by blast
    moreover have "codec_Open (sv_crypto env) (af_TX (ac_config a)) outer = Inr packet" by (rule Seal_Open [OF cr seal refl])
    ultimately show "\<exists>server \<in> set (pl_addrs (ac_pool a0)). \<exists>outer. d = Outer server outer \<and>
         codec_Open (sv_crypto env) (af_TX (ac_config a)) outer = Inr packet" by auto }
  { assume "adaptive_outer env now source packet sel a = Some (go, out, a')" "d \<in> set out"
    from outer_sends [OF this] known show "\<exists>server \<in> set (pl_addrs (ac_pool a0)). \<exists>peer inner. udp_String source = udp_String server \<and> ac_wgPeer a = Some peer \<and>
         OpenTyped (sv_crypto env) (af_RX (ac_config a)) packet = Inr (packetData, inner) \<and> d = Inner peer inner"
      unfolding pool by (metis nth_mem) }
  { assume "adaptive_outer env now source packet sel a = Some (go, out, a')" "ac_results a' \<noteq> ac_results a"
    from outer_measures [OF this] known show "\<exists>i token sent. i < length (pl_names (ac_pool a0)) \<and> udp_String source = udp_String (pl_addrs (ac_pool a0) ! i) \<and>
         OpenTyped (sv_crypto env) (af_RX (ac_config a)) packet = Inr (packetProbeReply, token) \<and>
         map_of (ac_pending a) (hex_encode token) = Some (udp_String source, sent) \<and> map_of (ac_pending a') (hex_encode token) = None \<and>
         ac_results a' = ac_results a @ [(pl_names (ac_pool a0) ! i, time_sub now sent)]"
      unfolding pool pl(4) by metis }
qed

text \<open>Handing a WireGuard session over. While the client migrates from a server that still answers, a
  transport packet goes to the new server and, in the same sealed form, to the old one, while a handshake goes to the new one alone; in
  the other direction transport packets of every server of the pool reach WireGuard, but the handshake of a server that is not selected
  is dropped.\<close>

theorem handoff_overlap:
  assumes ok: "adaptive_ok a" and handoff: "af_WireGuardHandoff (ac_config a)"
    and moving: "MigrationFallback (ac_manager a) = Some (Some old)" and i: "i < length (pl_names (ac_pool a))" "i \<noteq> old"
    and seal: "Seal (sv_crypto env) (af_TX (ac_config a)) (sv_random env) packet = (Inr outer, rest)" and w: "sv_write env"
    and j: "j < length (pl_names (ac_pool a))" "udp_String source = udp_String (pl_addrs (ac_pool a) ! j)"
    and answer: "OpenTyped (sv_crypto env) (af_RX (ac_config a)) reply = Inr (packetData, inner)" and peer: "ac_wgPeer a = Some wg"
  shows "\<exists>a1 a2. adaptive_local env True now addr packet i a =
      Some (True, Outer (pl_addrs (ac_pool a) ! i) outer #
        (if isWireGuardTransportData packet then [Outer (pl_addrs (ac_pool a) ! old) outer] else []), a1) \<and>
    adaptive_outer env now source reply i a =
      Some (True, if isWireGuardTransportData inner \<or> udp_String source = udp_String (pl_addrs (ac_pool a) ! i) then [Inner wg inner] else [], a2)"
proof -
  note pl = adaptive_ok_parts [OF ok]
  have old: "old < length (pl_names (ac_pool a))" using fallback_defined(2) [OF pl(3) moving] by simp
  have fb: "MigrationFallback (MarkSent (int i) now (ac_manager a)) = Some (Some old)"
    using moving by (auto simp: MarkSent_def MigrationFallback_def split: option.splits if_splits)
  have ix: "index_at (pl_addrs (ac_pool a)) k = Some (pl_addrs (ac_pool a) ! k)" if "k < length (pl_names (ac_pool a))" for k
    using that pl(4) by (simp add: bounds_simps)
  obtain n where src: "map_of (pl_sources (ac_pool a)) (udp_String source) = Some n"
    using pl(1,4) j by (auto simp: pool_ok_def)
  have "\<exists>a1. adaptive_local env True now addr packet i a =
      Some (True, Outer (pl_addrs (ac_pool a) ! i) outer #
        (if isWireGuardTransportData packet then [Outer (pl_addrs (ac_pool a) ! old) outer] else []), a1)"
    using seal w handoff fb i(2) ix [OF i(1)] ix [OF old] by (simp add: adaptive_local_def Let_def)
  moreover have "\<exists>a2. adaptive_outer env now source reply i a =
      Some (True, if isWireGuardTransportData inner \<or> udp_String source = udp_String (pl_addrs (ac_pool a) ! i) then [Inner wg inner] else [], a2)"
    using src answer w handoff peer ix [OF i(1)] by (simp add: adaptive_outer_def Let_def packet_kinds codec_consts)
  ultimately show ?thesis by blast
qed


section \<open>Witnesses\<close>

definition ex_resolver :: "string \<Rightarrow> udp_addr option" where
  "ex_resolver raw = (if raw = ''a'' then Some ex_from else if raw = ''b'' then Some ex_wg else None)"

definition ex_adaptive_config :: adaptive_config where
  "ex_adaptive_config = \<lparr>af_WireGuardHandoff = True, af_Servers = [''a'', ''b'', ''c''], af_TX = ex_up, af_RX = ex_back, af_ProbeTimeout = 0,
     af_SwitchThreshold = 0, af_ProbeInterval = 0, af_ResolveRetryInterval = 0, af_Policy = ex_path_policy\<rparr>"

definition ex_pool :: server_pool where
  "ex_pool = \<lparr>pl_addrs = [ex_from, ex_wg], pl_names = [''a'', ''b''],
     pl_sources = [(udp_String ex_from, ''a''), (udp_String ex_wg, ''b'')], pl_unresolved = [''c'']\<rparr>"

lemma ex_server_addresses: "udp_String ex_from = ''198.51.100.7:4500''" "udp_String ex_wg = ''127.0.0.1:51820''"
  by (simp_all add: udp_String_def join_host_port_def ip_String_def ex_from_def ex_wg_def To4_def ipv4_String_def Itoa_def radix.simps
      digit_char_def char_of_def bit_numeral_rec bit_0)

lemma ex_pool_resolved: "resolveAdaptiveServers ex_resolver [''a'', ''b'', ''c''] = Inr ex_pool"
  by (simp add: ex_server_addresses resolveAdaptiveServers_def ex_resolver_def ex_pool_def)

lemma ex_adaptive_started: "\<exists>a0 r. adaptive_start ex_adaptive_config ex_resolver = Inr (Some (a0, r)) \<and> ac_pool a0 = ex_pool \<and>
   af_TX (ac_config a0) = ex_up \<and> ac_selected a0 = 0"
  using ex_pool_resolved
  by (simp add: adaptive_start_def ex_adaptive_config_def adaptive_defaults_def set_selected_def MigrationFallback_def NewPathManager_def ex_pool_def
      index_at_def)

theorem adaptive_never_panics_witness:
  "\<exists>a0 r. adaptive_start ex_adaptive_config ex_resolver = Inr (Some (a0, r)) \<and> adaptive_round (clock_at 1) a0 \<noteq> None"
proof -
  obtain a0 r where st: "adaptive_start ex_adaptive_config ex_resolver = Inr (Some (a0, r))" using ex_adaptive_started by blast
  from adaptive_never_panics [OF st, of _ _ "clock_at 1"] adaptive_run.start [of a0]
  have "adaptive_round (clock_at 1) a0 \<noteq> None" by blast
  then show ?thesis using st by blast
qed

theorem adaptive_only_servers_witness:
  "\<exists>a0 r out a'. adaptive_start ex_adaptive_config ex_resolver = Inr (Some (a0, r)) \<and>
     adaptive_local ex_step_env True (clock_at 1) ex_wg [7] 0 a0 = Some (True, out, a') \<and>
     (\<exists>server outer. server \<in> {ex_from, ex_wg} \<and> out = [Outer server outer] \<and> codec_Open ex_crypto ex_up outer = Inr [7])"
proof -
  obtain a0 r where st: "adaptive_start ex_adaptive_config ex_resolver = Inr (Some (a0, r))" and a0: "ac_pool a0 = ex_pool" "af_TX (ac_config a0) = ex_up"
    using ex_adaptive_started by blast
  have crypto: "sv_crypto ex_step_env = ex_crypto" by (simp add: ex_step_env_def)
  have "Seal ex_crypto ex_up (replicate 12 3) [7] = (Inr (ex_sealed [7]), [])"
    using ex_Seal [of "[7]" ex_up] by (simp add: ex_up_def)
  then obtain a' where loc: "adaptive_local ex_step_env True (clock_at 1) ex_wg [7] 0 a0 = Some (True, [Outer ex_from (ex_sealed [7])], a')"
    using a0 by (simp add: adaptive_local_def ex_step_env_def Let_def ex_pool_def index_at_def isWireGuardTransportData_def)
  have "crypto_ok (sv_crypto ex_step_env)" using ex_crypto_ok crypto by simp
  from adaptive_only_servers [OF this st adaptive_run.start, THEN conjunct1, rule_format, OF loc, of "Outer ex_from (ex_sealed [7])"]
  have "\<exists>server outer. server \<in> {ex_from, ex_wg} \<and> Outer ex_from (ex_sealed [7]) = Outer server outer \<and> codec_Open ex_crypto ex_up outer = Inr [7]"
    using a0 crypto by (auto simp: ex_pool_def)
  then show ?thesis using st loc by blast
qed

definition ex_moving :: adaptive where
  "ex_moving = \<lparr>ac_config = ex_adaptive_config, ac_pool = ex_pool, ac_wgPeer = Some ex_wg, ac_selected = 1, ac_pending = [], ac_results = [],
     ac_measured = [], ac_manager = ex_path4, ac_stats = no_stats\<rparr>"

definition ex_data :: "byte list" where "ex_data = [4, 0, 0, 0] @ replicate 28 0"

theorem handoff_overlap_witness:
  "\<exists>a'. adaptive_local ex_step_env True (clock_at 9) ex_wg ex_data 1 ex_moving =
     Some (True, [Outer ex_wg (ex_sealed ex_data), Outer ex_from (ex_sealed ex_data)], a')"
proof -
  have ok: "adaptive_ok ex_moving"
    using resolve_ok [OF ex_pool_resolved] path_run_ok [OF ex_path_run]
    by (simp add: adaptive_ok_def ex_moving_def ex_adaptive_config_def ex_pool_def)
  have seal: "Seal (sv_crypto ex_step_env) (af_TX (ac_config ex_moving)) (sv_random ex_step_env) ex_data = (Inr (ex_sealed ex_data), [])"
    using ex_Seal [of ex_data ex_up] by (simp add: ex_step_env_def ex_moving_def ex_adaptive_config_def ex_up_def ex_data_def)
  have answer: "OpenTyped (sv_crypto ex_step_env) (af_RX (ac_config ex_moving)) (ex_sealed [7]) = Inr (packetData, [7])"
    using sealType_OpenTyped [OF ex_crypto_ok, of ex_back "replicate 12 3" packetData "[7]"] ex_Seal [of "[7]" ex_back]
    by (simp add: Seal_def ex_step_env_def ex_moving_def ex_adaptive_config_def ex_back_def)
  have moving: "MigrationFallback (ac_manager ex_moving) = Some (Some 0)"
    by (simp add: ex_moving_def MigrationFallback_def ex_path4_fields index_at_def ex_answered_usable)
  have data: "isWireGuardTransportData ex_data" by (simp add: isWireGuardTransportData_def ex_data_def le_decode_def be_decode_def)
  have fields: "af_WireGuardHandoff (ac_config ex_moving)" "1 < length (pl_names (ac_pool ex_moving))" "sv_write ex_step_env"
      "0 < length (pl_names (ac_pool ex_moving))" "udp_String ex_from = udp_String (pl_addrs (ac_pool ex_moving) ! 0)"
      "ac_wgPeer ex_moving = Some ex_wg" "pl_addrs (ac_pool ex_moving) ! 1 = ex_wg" "pl_addrs (ac_pool ex_moving) ! 0 = ex_from"
    by (simp_all add: ex_moving_def ex_adaptive_config_def ex_pool_def ex_step_env_def)
  from handoff_overlap [OF ok fields(1) moving fields(2) one_neq_zero seal fields(3,4,5) answer fields(6), of "clock_at 9" ex_wg] data fields(7,8)
  show ?thesis by auto
qed

end
