(* ===== verification/WgMulti.thy ===== *)
theory WgMulti
  imports WgUdp
begin

text \<open>
  \<^verbatim>\<open>internal/wgshim/multi.go\<close>: one outer socket that serves many clients, each with its own keys and its own socket to the
  WireGuard target. A session is an object with a number, a map takes the identifier of a client to its session. The goroutines are
  steps: the main loop reads a packet and finds whose it is (with the table of peers as it was copied, in the order of the copy),
  then forwards it; a reload installs a table, then closes sessions; every session has a reader. Any other step may come in between.
\<close>

section \<open>Data\<close>

record multi_session =
  ms_id :: string
  ms_fingerprint :: string
  ms_tx :: "codec option"
  ms_peer :: "udp_addr option"
  ms_open :: bool

record multi_server =
  mu_peers :: "peer_table"
  mu_sessions :: "(string \<times> nat) list"
  mu_objects :: "multi_session list"
  mu_stats :: stats

datatype multi_out = UdpTarget nat "byte list" | UdpClient udp_addr "byte list"

section \<open>Sessions\<close>

definition setPeer :: "nat \<Rightarrow> udp_addr \<Rightarrow> multi_server \<Rightarrow> multi_server" where
  "setPeer n addr s = s\<lparr>mu_objects := (mu_objects s)[n := (mu_objects s ! n)\<lparr>ms_peer := Some addr\<rparr>]\<rparr>"

definition close_conn :: "nat \<Rightarrow> multi_server \<Rightarrow> multi_server" where
  "close_conn n s = s\<lparr>mu_objects := (mu_objects s)[n := (mu_objects s ! n)\<lparr>ms_open := False\<rparr>]\<rparr>"

definition drop_session :: "string \<Rightarrow> nat \<Rightarrow> multi_server \<Rightarrow> multi_server" where
  "drop_session cid n s = close_conn n (s\<lparr>mu_sessions := AList.delete cid (mu_sessions s)\<rparr>)"

definition closeSession :: "string \<Rightarrow> nat option \<Rightarrow> multi_server \<Rightarrow> multi_server" where
  "closeSession cid expected s =
     (case map_of (mu_sessions s) cid of
        None \<Rightarrow> s
      | Some n \<Rightarrow> if expected = None \<or> expected = Some n then drop_session cid n s else s)"

definition startSession :: "bool \<Rightarrow> string \<Rightarrow> multi_peer \<Rightarrow> multi_server \<Rightarrow> nat option \<times> multi_server" where
  "startSession dial cid peer s =
     (case map_of (mu_sessions s) cid of
        Some n \<Rightarrow> (Some n, s)
      | None \<Rightarrow>
          if \<not> dial then (None, s)
          else let n = length (mu_objects s)
               in (Some n, s\<lparr>mu_objects := mu_objects s @
                               [\<lparr>ms_id = cid, ms_fingerprint = mp_Fingerprint peer, ms_tx = mp_TX peer, ms_peer = None, ms_open = True\<rparr>],
                             mu_sessions := AList.update cid n (mu_sessions s)\<rparr>))"

section \<open>Reload\<close>

definition stale :: "peer_table \<Rightarrow> multi_server \<Rightarrow> string \<times> nat \<Rightarrow> bool" where
  "stale table s = (\<lambda>(cid, n).
     case map_of table cid of None \<Rightarrow> True | Some peer \<Rightarrow> mp_Fingerprint peer \<noteq> ms_fingerprint (mu_objects s ! n))"

definition close_all :: "(string \<times> nat) list \<Rightarrow> multi_server \<Rightarrow> multi_server" where
  "close_all xs s = fold (\<lambda>(cid, n). drop_session cid n) xs s"

definition install_table :: "peer_table \<Rightarrow> multi_server \<Rightarrow> multi_server" where
  "install_table table s = s\<lparr>mu_peers := table\<rparr>"

definition close_stale :: "peer_table \<Rightarrow> multi_server \<Rightarrow> multi_server" where
  "close_stale table s = close_all (filter (stale table s) (mu_sessions s)) s"

text \<open>\<^verbatim>\<open>reloadPeers\<close> when nothing comes in between; none is the error, which leaves the server as it was.\<close>

definition multi_reload :: "peer_table option \<Rightarrow> multi_server \<Rightarrow> multi_server option" where
  "multi_reload loaded s =
     (case loaded of
        None \<Rightarrow> None
      | Some table \<Rightarrow> if valid_table table then Some (close_stale table (install_table table s)) else None)"

definition multi_new :: multi_server where
  "multi_new = \<lparr>mu_peers = [], mu_sessions = [], mu_objects = [], mu_stats = no_stats\<rparr>"

definition multi_shutdown :: "multi_server \<Rightarrow> multi_server" where
  "multi_shutdown s = close_all (mu_sessions s) s"

section \<open>Packets\<close>

text \<open>A packet of the outer socket up to the session it is for; \<open>snapshot\<close> is the copy of the table. What is left to do is
  forward the payload to a session.\<close>

definition multi_outer ::
  "step_env \<Rightarrow> bool \<Rightarrow> peer_table \<Rightarrow> udp_addr \<Rightarrow> byte list \<Rightarrow> multi_server \<Rightarrow>
   multi_out list \<times> (string \<times> nat \<times> byte list) option \<times> multi_server" where
  "multi_outer env dial snapshot addr packet s0 =
     (let s = s0\<lparr>mu_stats := add_OuterRX (length packet) (mu_stats s0)\<rparr>
      in case matchPeer (sv_crypto env) snapshot packet of
           None \<Rightarrow> ([], None, s\<lparr>mu_stats := add_AuthDrops (mu_stats s)\<rparr>)
         | Some (cid, peer, t, inner) \<Rightarrow>
             if IsProbe t
             then (case SealProbeReply (sv_crypto env) (the (mp_TX peer)) (sv_random env) inner of
                     (Inl _, _) \<Rightarrow> ([], None, s)
                   | (Inr reply, _) \<Rightarrow>
                       if \<not> sv_write env then ([], None, s)
                       else ([UdpClient addr reply], None, s\<lparr>mu_stats := add_OuterTX (length reply) (mu_stats s)\<rparr>))
             else if \<not> IsData t then ([], None, s)
             else (case startSession dial cid peer s of
                     (None, s) \<Rightarrow> ([], None, s)
                   | (Some n, s) \<Rightarrow> ([], Some (cid, n, inner), s)))"

text \<open>The rest of the turn. A write on a closed socket fails.\<close>

definition multi_forward :: "step_env \<Rightarrow> string \<Rightarrow> nat \<Rightarrow> udp_addr \<Rightarrow> byte list \<Rightarrow> multi_server \<Rightarrow> multi_out list \<times> multi_server" where
  "multi_forward env cid n addr inner s0 =
     (let s = setPeer n addr s0
      in if \<not> (sv_write env \<and> ms_open (mu_objects s ! n)) then ([], closeSession cid (Some n) s)
         else ([UdpTarget n inner], s\<lparr>mu_stats := add_InnerTX (length inner) (mu_stats s)\<rparr>))"

text \<open>A packet of the target for session \<open>n\<close>; on a closed socket, or when the read fails, the reader ends.\<close>

definition multi_target :: "step_env \<Rightarrow> nat \<Rightarrow> byte list option \<Rightarrow> multi_server \<Rightarrow> multi_out list \<times> multi_server" where
  "multi_target env n received s0 =
     (let session = mu_objects s0 ! n
      in case (ms_open session, received) of
           (True, Some packet) \<Rightarrow>
             (let s = s0\<lparr>mu_stats := add_InnerRX (length packet) (mu_stats s0)\<rparr>
              in case ms_peer session of
                   None \<Rightarrow> ([], s\<lparr>mu_stats := add_NoPeerDrop (mu_stats s)\<rparr>)
                 | Some peer \<Rightarrow>
                     (case Seal (sv_crypto env) (the (ms_tx session)) (sv_random env) packet of
                        (Inl _, _) \<Rightarrow> ([], s)
                      | (Inr outer, _) \<Rightarrow>
                          if \<not> sv_write env then ([], s)
                          else ([UdpClient peer outer], s\<lparr>mu_stats := add_OuterTX (length outer) (mu_stats s)\<rparr>)))
         | _ \<Rightarrow> ([], closeSession (ms_id session) (Some n) s0))"

section \<open>Runs\<close>

text \<open>A run records the tables that were installed, the data packets that were authentic (whose they were, from where and what they said),
  and what the main loop has still to forward.\<close>

record multi_log =
  ml_tables :: "peer_table list"
  ml_auth :: "(string \<times> udp_addr \<times> byte list) list"
  ml_todo :: "(string \<times> nat \<times> udp_addr \<times> byte list) option"

inductive multi_run :: "crypto \<Rightarrow> multi_log \<Rightarrow> multi_server \<Rightarrow> bool" for cr :: crypto where
  new: "multi_run cr \<lparr>ml_tables = [[]], ml_auth = [], ml_todo = None\<rparr> multi_new"
| load: "multi_run cr l s \<Longrightarrow> valid_table table \<Longrightarrow> keys_distinct table \<Longrightarrow>
    multi_run cr (l\<lparr>ml_tables := table # ml_tables l\<rparr>) (install_table table s)"
| prune: "multi_run cr l s \<Longrightarrow> table \<in> set (ml_tables l) \<Longrightarrow> multi_run cr l (close_stale table s)"
| outer: "multi_run cr l s \<Longrightarrow> ml_todo l = None \<Longrightarrow> sv_crypto env = cr \<Longrightarrow> table \<in> set (ml_tables l) \<Longrightarrow> mset snapshot = mset table \<Longrightarrow>
    multi_outer env dial snapshot addr packet s = (out, todo, s') \<Longrightarrow>
    multi_run cr (case todo of None \<Rightarrow> l | Some (cid, n, inner) \<Rightarrow>
       l\<lparr>ml_todo := Some (cid, n, addr, inner), ml_auth := (cid, addr, inner) # ml_auth l\<rparr>) s'"
| forward: "multi_run cr l s \<Longrightarrow> ml_todo l = Some (cid, n, addr, inner) \<Longrightarrow> multi_forward env cid n addr inner s = (out, s') \<Longrightarrow>
    multi_run cr (l\<lparr>ml_todo := None\<rparr>) s'"
| target: "multi_run cr l s \<Longrightarrow> sv_crypto env = cr \<Longrightarrow> n < length (mu_objects s) \<Longrightarrow> multi_target env n received s = (out, s') \<Longrightarrow>
    multi_run cr l s'"
| shutdown: "multi_run cr l s \<Longrightarrow> multi_run cr l (multi_shutdown s)"

text \<open>Every session of the map is open, known by its own identifier and mapped from it; every open socket is in the map.\<close>

definition multi_ok :: "multi_log \<Rightarrow> multi_server \<Rightarrow> bool" where
  "multi_ok l s \<longleftrightarrow>
     keys_distinct (mu_sessions s) \<and>
     (\<forall>cid n. map_of (mu_sessions s) cid = Some n \<longleftrightarrow> n < length (mu_objects s) \<and> ms_id (mu_objects s ! n) = cid \<and> ms_open (mu_objects s ! n)) \<and>
     (\<forall>n < length (mu_objects s).
        (\<exists>table \<in> set (ml_tables l). \<exists>peer. map_of table (ms_id (mu_objects s ! n)) = Some peer \<and>
            mp_Fingerprint peer = ms_fingerprint (mu_objects s ! n) \<and> mp_TX peer = ms_tx (mu_objects s ! n)) \<and>
        (\<forall>a. ms_peer (mu_objects s ! n) = Some a \<longrightarrow> (\<exists>inner. (ms_id (mu_objects s ! n), a, inner) \<in> set (ml_auth l)))) \<and>
     (\<forall>cid n addr inner. ml_todo l = Some (cid, n, addr, inner) \<longrightarrow>
        n < length (mu_objects s) \<and> ms_id (mu_objects s ! n) = cid \<and> (cid, addr, inner) \<in> set (ml_auth l)) \<and>
     (\<forall>table \<in> set (ml_tables l). keys_distinct table \<and> valid_table table)"


lemma matchPeer_Some:
  assumes "matchPeer cr snapshot packet = Some (cid, peer, t, inner)"
  shows "(cid, peer) \<in> set snapshot \<and> OpenTyped cr (the (mp_RX peer)) packet = Inr (t, inner)"
  using assms by (induction cr snapshot packet rule: matchPeer.induct) (auto split: sum.splits)

lemma drop_session_ok:
  assumes ok: "multi_ok l s" and n: "map_of (mu_sessions s) cid = Some n"
  shows "multi_ok l (drop_session cid n s)"
proof -
  have n': "n < length (mu_objects s)" "ms_id (mu_objects s ! n) = cid" using ok n by (auto simp: multi_ok_def)
  then show ?thesis
    using ok n
    by (auto simp: multi_ok_def drop_session_def close_conn_def AList.delete_conv' nth_list_update) (metis option.inject)
qed

lemma drop_session_sessions: "mu_sessions (drop_session cid n s) = AList.delete cid (mu_sessions s)"
  and drop_session_fingerprints: "n < length (mu_objects s) \<Longrightarrow> length (mu_objects (drop_session cid n s)) = length (mu_objects s) \<and>
    ms_fingerprint (mu_objects (drop_session cid n s) ! k) = ms_fingerprint (mu_objects s ! k)"
  by (cases "k = n"; simp add: drop_session_def close_conn_def)+

lemma close_all_ok:
  assumes "multi_ok l s" and "keys_distinct xs" and "\<forall>x \<in> set xs. map_of (mu_sessions s) (fst x) = Some (snd x)"
  shows "multi_ok l (close_all xs s) \<and> mu_peers (close_all xs s) = mu_peers s \<and>
    map_of (mu_sessions (close_all xs s)) = (\<lambda>cid. if cid \<in> fst ` set xs then None else map_of (mu_sessions s) cid) \<and>
    (\<forall>k. ms_fingerprint (mu_objects (close_all xs s) ! k) = ms_fingerprint (mu_objects s ! k))"
  using assms
proof (induction xs arbitrary: s)
  case (Cons x xs)
  obtain cid n where x: "x = (cid, n)" by (cases x)
  have n: "map_of (mu_sessions s) cid = Some n" using Cons.prems(3) x by simp
  then have len: "n < length (mu_objects s)" using Cons.prems(1) by (simp add: multi_ok_def)
  let ?s = "drop_session cid n s"
  have ok: "multi_ok l ?s" by (rule drop_session_ok [OF Cons.prems(1) n])
  have dist: "keys_distinct xs" "cid \<notin> fst ` set xs" using Cons.prems(2) x by (auto simp: keys_distinct_def)
  have "\<forall>x \<in> set xs. map_of (mu_sessions ?s) (fst x) = Some (snd x)"
    using Cons.prems(3) dist(2) by (auto simp: drop_session_sessions AList.delete_conv' image_iff)
  from Cons.IH [OF ok dist(1) this] show ?case
    using drop_session_fingerprints [OF len]
    by (auto simp: close_all_def x drop_session_sessions AList.delete_conv' drop_session_def close_conn_def)
qed (simp add: close_all_def)

lemma close_stale_ok:
  assumes "multi_ok l s"
  shows "multi_ok l (close_stale table s)" and "mu_peers (close_stale table s) = mu_peers s"
    and "map_of (mu_sessions (close_stale table s)) cid = Some n \<Longrightarrow>
      \<exists>peer. map_of table cid = Some peer \<and> mp_Fingerprint peer = ms_fingerprint (mu_objects (close_stale table s) ! n)"
proof -
  let ?xs = "filter (stale table s) (mu_sessions s)"
  have d: "keys_distinct (mu_sessions s)" using assms by (simp add: multi_ok_def)
  then have "\<forall>x \<in> set ?xs. map_of (mu_sessions s) (fst x) = Some (snd x)" by (simp add: keys_distinct_def)
  note all = close_all_ok [OF assms keys_distinct_filter [OF d] this, folded close_stale_def]
  then show "multi_ok l (close_stale table s)" "mu_peers (close_stale table s) = mu_peers s" by blast+
  assume "map_of (mu_sessions (close_stale table s)) cid = Some n"
  then have m: "map_of (mu_sessions s) cid = Some n" and out: "cid \<notin> fst ` set ?xs" using all by (simp_all split: if_splits)
  have "\<not> stale table s (cid, n)"
  proof
    assume "stale table s (cid, n)"
    then have "(cid, n) \<in> set ?xs" using map_of_SomeD [OF m] by simp
    then show False using out by (metis fst_conv image_eqI)
  qed
  then obtain peer where "map_of table cid = Some peer" "mp_Fingerprint peer = ms_fingerprint (mu_objects s ! n)"
    by (auto simp: stale_def split: option.splits)
  then show "\<exists>peer. map_of table cid = Some peer \<and> mp_Fingerprint peer = ms_fingerprint (mu_objects (close_stale table s) ! n)"
    using all by metis
qed

lemma multi_shutdown_ok:
  assumes "multi_ok l s"
  shows "multi_ok l (multi_shutdown s)" and "mu_sessions (multi_shutdown s) = []"
proof -
  have d: "keys_distinct (mu_sessions s)" using assms by (simp add: multi_ok_def)
  then have "\<forall>x \<in> set (mu_sessions s). map_of (mu_sessions s) (fst x) = Some (snd x)" by (simp add: keys_distinct_def)
  note all = close_all_ok [OF assms d this, folded multi_shutdown_def]
  then show "multi_ok l (multi_shutdown s)" by blast
  have "map_of (mu_sessions (multi_shutdown s)) = Map.empty" using all by (auto simp: map_of_eq_None_iff)
  then show "mu_sessions (multi_shutdown s) = []" by simp
qed

lemma closeSession_ok: "multi_ok l s \<Longrightarrow> multi_ok l (closeSession cid expected s)"
  by (auto simp: closeSession_def intro: drop_session_ok split: option.split)


lemma multi_ok_stats [simp]: "multi_ok l (s\<lparr>mu_stats := st\<rparr>) = multi_ok l s" "multi_ok l (s\<lparr>mu_peers := t\<rparr>) = multi_ok l s"
  by (simp_all add: multi_ok_def)

lemma multi_ok_done: "multi_ok l s \<Longrightarrow> multi_ok (l\<lparr>ml_todo := None\<rparr>) s"
  by (simp add: multi_ok_def)

lemma multi_ok_todo:
  assumes "multi_ok l s" and "n < length (mu_objects s)" and "ms_id (mu_objects s ! n) = c"
  shows "multi_ok (l\<lparr>ml_todo := Some (c, n, addr, inner), ml_auth := (c, addr, inner) # ml_auth l\<rparr>) s"
  using assms by (simp add: multi_ok_def) blast

lemma setPeer_ok:
  assumes "multi_ok l s" and "n < length (mu_objects s)" and "(ms_id (mu_objects s ! n), addr, inner) \<in> set (ml_auth l)"
  shows "multi_ok l (setPeer n addr s)"
  using assms by (auto simp: multi_ok_def setPeer_def nth_list_update)

lemma startSession_ok:
  assumes ok: "multi_ok l s" and peer: "table \<in> set (ml_tables l)" "map_of table cid = Some peer"
    and start: "startSession dial cid peer s = (r, s')"
  shows "multi_ok l s'" and "r = Some n \<Longrightarrow> n < length (mu_objects s') \<and> ms_id (mu_objects s' ! n) = cid \<and> ms_open (mu_objects s' ! n)"
proof -
  have "multi_ok l s' \<and> (\<forall>n. r = Some n \<longrightarrow> n < length (mu_objects s') \<and> ms_id (mu_objects s' ! n) = cid \<and> ms_open (mu_objects s' ! n))"
  proof (cases "map_of (mu_sessions s) cid")
    case None
    then have no: "\<not> (n < length (mu_objects s) \<and> ms_id (mu_objects s ! n) = cid \<and> ms_open (mu_objects s ! n))" for n
      using ok by (simp add: multi_ok_def) (metis option.distinct(1))
    show ?thesis
    proof (cases dial)
      case True
      then show ?thesis using None no ok start peer
        by (auto simp: startSession_def Let_def multi_ok_def nth_append less_Suc_eq update_conv' split: if_splits; blast)
    qed (use None ok start in \<open>simp add: startSession_def\<close>)
  next
    case (Some n)
    then show ?thesis using ok start by (auto simp: startSession_def multi_ok_def)
  qed
  then show "multi_ok l s'" and "r = Some n \<Longrightarrow> n < length (mu_objects s') \<and> ms_id (mu_objects s' ! n) = cid \<and> ms_open (mu_objects s' ! n)"
    by blast+
qed

lemma outer_todo:
  assumes ok: "multi_ok l s" and table: "table \<in> set (ml_tables l)" "mset snapshot = mset table"
    and out: "multi_outer env dial snapshot addr packet s = (out, todo, s')"
  shows "multi_ok l s'" and "todo = Some (cid, n, inner) \<Longrightarrow> \<exists>peer. map_of table cid = Some peer \<and>
      OpenTyped (sv_crypto env) (the (mp_RX peer)) packet = Inr (packetData, inner) \<and>
      n < length (mu_objects s') \<and> ms_id (mu_objects s' ! n) = cid \<and> ms_open (mu_objects s' ! n) \<and> out = []"
proof -
  let ?s = "s\<lparr>mu_stats := add_OuterRX (length packet) (mu_stats s)\<rparr>"
  have ok': "multi_ok l ?s" using ok by simp
  have mem: "map_of table c = Some p" if "(c, p) \<in> set snapshot" for c p
    using that table ok mset_eq_setD [OF table(2)] by (auto simp: multi_ok_def keys_distinct_def)
  have "multi_ok l s' \<and> (todo = Some (cid, n, inner) \<longrightarrow> (\<exists>peer. map_of table cid = Some peer \<and>
      OpenTyped (sv_crypto env) (the (mp_RX peer)) packet = Inr (packetData, inner) \<and>
      n < length (mu_objects s') \<and> ms_id (mu_objects s' ! n) = cid \<and> ms_open (mu_objects s' ! n) \<and> out = []))"
  proof (cases "matchPeer (sv_crypto env) snapshot packet")
    case None
    then show ?thesis using out ok by (auto simp: multi_outer_def Let_def)
  next
    case (Some m)
    then obtain c p t x where m: "matchPeer (sv_crypto env) snapshot packet = Some (c, p, t, x)" by (cases m) auto
    have c: "map_of table c = Some p" "OpenTyped (sv_crypto env) (the (mp_RX p)) packet = Inr (t, x)"
      using matchPeer_Some [OF m] mem by blast+
    show ?thesis
    proof (cases "IsData t")
      case True
      obtain r s1 where st: "startSession dial c p ?s = (r, s1)" by fastforce
      note ss = startSession_ok [OF ok' table(1) c(1) st]
      show ?thesis
        using out m st ss c True by (auto simp: multi_outer_def Let_def packet_kinds codec_consts split: option.splits)
    next
      case False
      then show ?thesis using out m ok
        by (auto simp: multi_outer_def Let_def packet_kinds split: if_splits prod.splits sum.splits)
    qed
  qed
  then show "multi_ok l s'" and "todo = Some (cid, n, inner) \<Longrightarrow> \<exists>peer. map_of table cid = Some peer \<and>
      OpenTyped (sv_crypto env) (the (mp_RX peer)) packet = Inr (packetData, inner) \<and>
      n < length (mu_objects s') \<and> ms_id (mu_objects s' ! n) = cid \<and> ms_open (mu_objects s' ! n) \<and> out = []" by blast+
qed

lemma forward_ok:
  assumes "multi_ok l s" and "ml_todo l = Some (cid, n, addr, inner)" and "multi_forward env cid n addr inner s = (out, s')"
  shows "multi_ok (l\<lparr>ml_todo := None\<rparr>) s'"
proof -
  have "n < length (mu_objects s)" "(ms_id (mu_objects s ! n), addr, inner) \<in> set (ml_auth l)"
    using assms(1,2) by (simp_all add: multi_ok_def)
  then have "multi_ok l (setPeer n addr s)" by (rule setPeer_ok [OF assms(1)])
  then show ?thesis using assms(3) multi_ok_done closeSession_ok
    by (auto simp: multi_forward_def Let_def split: if_splits)
qed

lemma target_ok:
  assumes "multi_ok l s" and "multi_target env n received s = (out, s')"
  shows "multi_ok l s'"
  using assms closeSession_ok [OF assms(1)]
  by (auto simp: multi_target_def Let_def split: bool.splits option.splits prod.splits sum.splits if_splits)

lemma multi_run_ok: "multi_run cr l s \<Longrightarrow> multi_ok l s"
proof (induction rule: multi_run.induct)
  case new
  then show ?case by (simp add: multi_ok_def multi_new_def valid_table_def)
next
  case (load l s table)
  then show ?case by (force simp: multi_ok_def install_table_def)
next
  case (outer l s env table snapshot dial addr packet out todo s')
  show ?case
  proof (cases todo)
    case None
    then show ?thesis using outer_todo(1) outer by simp
  next
    case (Some x)
    then obtain c n inner where x: "todo = Some (c, n, inner)" by (cases x) auto
    from outer_todo [OF outer.IH outer.hyps(4,5,6)] x show ?thesis using multi_ok_todo by fastforce
  qed
qed (auto intro: close_stale_ok(1) forward_ok target_ok multi_shutdown_ok(1))


section \<open>Properties\<close>

lemma multi_ok_open:
  "multi_ok l s \<Longrightarrow> n < length (mu_objects s) \<Longrightarrow> ms_open (mu_objects s ! n) \<longleftrightarrow> map_of (mu_sessions s) (ms_id (mu_objects s ! n)) = Some n"
  by (simp add: multi_ok_def)

lemma multi_ok_session:
  assumes "multi_ok l s" and "n < length (mu_objects s)"
  obtains table peer where "table \<in> set (ml_tables l)" "map_of table (ms_id (mu_objects s ! n)) = Some peer" "mp_TX peer = ms_tx (mu_objects s ! n)"
    "\<And>a. ms_peer (mu_objects s ! n) = Some a \<Longrightarrow> \<exists>inner. (ms_id (mu_objects s ! n), a, inner) \<in> set (ml_auth l)"
proof -
  have "(\<exists>table \<in> set (ml_tables l). \<exists>peer. map_of table (ms_id (mu_objects s ! n)) = Some peer \<and>
            mp_Fingerprint peer = ms_fingerprint (mu_objects s ! n) \<and> mp_TX peer = ms_tx (mu_objects s ! n)) \<and>
        (\<forall>a. ms_peer (mu_objects s ! n) = Some a \<longrightarrow> (\<exists>inner. (ms_id (mu_objects s ! n), a, inner) \<in> set (ml_auth l)))"
    by (rule assms(1) [unfolded multi_ok_def, THEN conjunct2, THEN conjunct2, THEN conjunct1, THEN spec, THEN mp, OF assms(2)])
  then show ?thesis using that by blast
qed

lemma target_sends:
  assumes "multi_target env n received s = (out, s')" and "d \<in> set out"
  shows "\<exists>packet addr outer rest. received = Some packet \<and> ms_peer (mu_objects s ! n) = Some addr \<and> ms_open (mu_objects s ! n) \<and>
    Seal (sv_crypto env) (the (ms_tx (mu_objects s ! n))) (sv_random env) packet = (Inr outer, rest) \<and> d = UdpClient addr outer"
  using assms
  by (auto simp: multi_target_def Let_def split: bool.splits option.splits prod.splits sum.splits if_splits)

text \<open>C15. Clients of the shared server are isolated. After any interleaving of packets, reloads and closings: a data packet
  is taken up only when it opens with the receive key of a client of the table that was copied, for the session of that same
  client; the payload is then written to the socket of that session and no other; and what the target answers on
  the socket of a session is sealed with the transmit key of its client and sent to an address from which an
  authentic data packet of that client came.\<close>

theorem multi_isolation:
  assumes run: "multi_run cr l s" and cr: "sv_crypto env = cr"
  shows "(table \<in> set (ml_tables l) \<longrightarrow> mset snapshot = mset table \<longrightarrow>
      multi_outer env dial snapshot addr packet s = (out, Some (cid, n, inner), s') \<longrightarrow>
      (\<exists>peer. map_of table cid = Some peer \<and> OpenTyped cr (the (mp_RX peer)) packet = Inr (packetData, inner) \<and>
         map_of (mu_sessions s') cid = Some n \<and> ms_id (mu_objects s' ! n) = cid \<and> out = [])) \<and>
    (ml_todo l = Some (cid, n, addr, inner) \<longrightarrow> multi_forward env cid n addr inner s = (out, s') \<longrightarrow> d \<in> set out \<longrightarrow>
      d = UdpTarget n inner \<and> ms_id (mu_objects s ! n) = cid \<and> (cid, addr, inner) \<in> set (ml_auth l)) \<and>
    (n < length (mu_objects s) \<longrightarrow> multi_target env n (Some packet) s = (out, s') \<longrightarrow> d \<in> set out \<longrightarrow>
      (\<exists>table \<in> set (ml_tables l). \<exists>peer to outer rest p. map_of table (ms_id (mu_objects s ! n)) = Some peer \<and>
         Seal cr (the (mp_TX peer)) (sv_random env) packet = (Inr outer, rest) \<and> d = UdpClient to outer \<and>
         (ms_id (mu_objects s ! n), to, p) \<in> set (ml_auth l)))"
proof (intro conjI impI)
  have ok: "multi_ok l s" by (rule multi_run_ok [OF run])
  { assume t: "table \<in> set (ml_tables l)" "mset snapshot = mset table"
      and out: "multi_outer env dial snapshot addr packet s = (out, Some (cid, n, inner), s')"
    obtain peer where p: "map_of table cid = Some peer" "OpenTyped cr (the (mp_RX peer)) packet = Inr (packetData, inner)"
        "n < length (mu_objects s')" "ms_id (mu_objects s' ! n) = cid" "ms_open (mu_objects s' ! n)" "out = []"
      using outer_todo(2) [OF ok t out refl] cr by auto
    have "multi_ok l s'" by (rule outer_todo(1) [OF ok t out])
    then have "map_of (mu_sessions s') cid = Some n" using p by (simp add: multi_ok_def)
    then show "\<exists>peer. map_of table cid = Some peer \<and> OpenTyped cr (the (mp_RX peer)) packet = Inr (packetData, inner) \<and>
         map_of (mu_sessions s') cid = Some n \<and> ms_id (mu_objects s' ! n) = cid \<and> out = []" using p by blast }
  { assume "ml_todo l = Some (cid, n, addr, inner)" "multi_forward env cid n addr inner s = (out, s')" "d \<in> set out"
    then show "d = UdpTarget n inner" "ms_id (mu_objects s ! n) = cid" "(cid, addr, inner) \<in> set (ml_auth l)"
      using ok by (auto simp: multi_ok_def multi_forward_def Let_def split: if_splits) }
  { assume n: "n < length (mu_objects s)" and "multi_target env n (Some packet) s = (out, s')" "d \<in> set out"
    from target_sends [OF this(2,3)] obtain to outer rest where "ms_peer (mu_objects s ! n) = Some to" "d = UdpClient to outer"
      "Seal cr (the (ms_tx (mu_objects s ! n))) (sv_random env) packet = (Inr outer, rest)" using cr by auto
    moreover obtain table peer where "table \<in> set (ml_tables l)" "map_of table (ms_id (mu_objects s ! n)) = Some peer"
        "mp_TX peer = ms_tx (mu_objects s ! n)"
        "\<And>a. ms_peer (mu_objects s ! n) = Some a \<Longrightarrow> \<exists>inner. (ms_id (mu_objects s ! n), a, inner) \<in> set (ml_auth l)"
      by (rule multi_ok_session [OF ok n]) blast
    ultimately show "\<exists>table \<in> set (ml_tables l). \<exists>peer to outer rest p. map_of table (ms_id (mu_objects s ! n)) = Some peer \<and>
         Seal cr (the (mp_TX peer)) (sv_random env) packet = (Inr outer, rest) \<and> d = UdpClient to outer \<and>
         (ms_id (mu_objects s ! n), to, p) \<in> set (ml_auth l)"
      by metis }
qed

text \<open>The shared server leaks no socket. After any interleaving, a socket is open exactly when it is the session
  that its client's identifier is mapped to, so no client has two; when a reload
  has been accepted, every open socket belongs to a client of the new table whose fingerprint is the one the session
  started with; a refused reload changes nothing; and closing down leaves no socket open.\<close>

theorem multi_sockets:
  assumes run: "multi_run cr l s" and table: "keys_distinct table"
  shows "(n < length (mu_objects s) \<longrightarrow> (ms_open (mu_objects s ! n) \<longleftrightarrow> map_of (mu_sessions s) (ms_id (mu_objects s ! n)) = Some n)) \<and>
    (multi_reload (Some table) s = Some s' \<longrightarrow> mu_peers s' = table \<and>
      (n < length (mu_objects s') \<and> ms_open (mu_objects s' ! n) \<longrightarrow>
         (\<exists>peer. map_of table (ms_id (mu_objects s' ! n)) = Some peer \<and> mp_Fingerprint peer = ms_fingerprint (mu_objects s' ! n)))) \<and>
    (multi_reload (Some table) s = None \<longleftrightarrow> \<not> valid_table table) \<and>
    (n < length (mu_objects (multi_shutdown s)) \<longrightarrow> \<not> ms_open (mu_objects (multi_shutdown s) ! n))"
proof (intro conjI impI)
  have ok: "multi_ok l s" by (rule multi_run_ok [OF run])
  show "ms_open (mu_objects s ! n) \<longleftrightarrow> map_of (mu_sessions s) (ms_id (mu_objects s ! n)) = Some n" if "n < length (mu_objects s)"
    using ok that by (rule multi_ok_open)
  show "multi_reload (Some table) s = None \<longleftrightarrow> \<not> valid_table table" by (simp add: multi_reload_def)
  { assume "n < length (mu_objects (multi_shutdown s))"
    then show "\<not> ms_open (mu_objects (multi_shutdown s) ! n)"
      using multi_ok_open [OF multi_shutdown_ok(1) [OF ok]] multi_shutdown_ok(2) [OF ok] by simp }
  { assume "multi_reload (Some table) s = Some s'"
    then have s': "s' = close_stale table (install_table table s)"
      by (simp add: multi_reload_def split: if_splits)
    have "multi_ok l (install_table table s)" using ok by (simp add: install_table_def)
    note cs = close_stale_ok [OF this, of table, folded s']
    show "mu_peers s' = table" using cs(2) by (simp add: install_table_def)
    assume "n < length (mu_objects s') \<and> ms_open (mu_objects s' ! n)"
    then have "map_of (mu_sessions s') (ms_id (mu_objects s' ! n)) = Some n" using multi_ok_open [OF cs(1)] by blast
    from cs(3) [OF this] show "\<exists>peer. map_of table (ms_id (mu_objects s' ! n)) = Some peer \<and> mp_Fingerprint peer = ms_fingerprint (mu_objects s' ! n)" . }
qed

section \<open>Witnesses\<close>

definition ex_client :: multi_peer where "ex_client = \<lparr>mp_Fingerprint = ''f1'', mp_RX = Some ex_up, mp_TX = Some ex_back\<rparr>"
definition ex_client' :: multi_peer where "ex_client' = ex_client\<lparr>mp_Fingerprint := ''f2''\<rparr>"

definition ex_multi :: multi_server where
  "ex_multi = \<lparr>mu_peers = [(''c'', ex_client)], mu_sessions = [(''c'', 0)],
     mu_objects = [\<lparr>ms_id = ''c'', ms_fingerprint = ''f1'', ms_tx = Some ex_back, ms_peer = None, ms_open = True\<rparr>],
     mu_stats = add_OuterRX (length (ex_sealed [7])) no_stats\<rparr>"

definition ex_multi_log :: multi_log where
  "ex_multi_log = \<lparr>ml_tables = [[(''c'', ex_client)], []], ml_auth = [(''c'', ex_from, [7])], ml_todo = Some (''c'', 0, ex_from, [7])\<rparr>"

lemma ex_multi_run: "multi_run ex_crypto ex_multi_log ex_multi"
proof -
  let ?t = "[(''c'', ex_client)]"
  have "valid_table ?t" by (simp add: valid_table_def ex_client_def)
  moreover have "keys_distinct ?t" by (simp add: keys_distinct_def)
  ultimately have r: "multi_run ex_crypto \<lparr>ml_tables = [?t, []], ml_auth = [], ml_todo = None\<rparr> (install_table ?t multi_new)"
    using multi_run.load [OF multi_run.new] by simp
  have "OpenTyped ex_crypto ex_up (ex_sealed [7]) = Inr (packetData, [7])"
    using sealType_OpenTyped [OF ex_crypto_ok, of ex_up "replicate 12 3" packetData "[7]"] ex_Seal [of "[7]" ex_up]
    by (simp add: Seal_def ex_up_def)
  then have "matchPeer ex_crypto ?t (ex_sealed [7]) = Some (''c'', ex_client, packetData, [7])"
    by (simp add: ex_client_def)
  then have o: "multi_outer ex_step_env True ?t ex_from (ex_sealed [7]) (install_table ?t multi_new) = ([], Some (''c'', 0, [7]), ex_multi)"
    by (simp add: multi_outer_def Let_def ex_step_env_def packet_kinds codec_consts startSession_def install_table_def multi_new_def ex_multi_def
        ex_client_def)
  show ?thesis
    using multi_run.outer [OF r _ _ _ refl o] by (simp add: ex_step_env_def ex_multi_log_def)
qed

theorem multi_isolation_witness:
  "\<exists>out s'. multi_forward ex_step_env ''c'' 0 ex_from [7] ex_multi = (out, s') \<and> out = [UdpTarget 0 [7]] \<and> ms_id (mu_objects ex_multi ! 0) = ''c''"
proof -
  have cr: "sv_crypto ex_step_env = ex_crypto" by (simp add: ex_step_env_def)
  obtain s' where f: "multi_forward ex_step_env ''c'' 0 ex_from [7] ex_multi = ([UdpTarget 0 [7]], s')"
    by (simp add: multi_forward_def ex_multi_def setPeer_def ex_step_env_def)
  have "ml_todo ex_multi_log = Some (''c'', 0, ex_from, [7])" by (simp add: ex_multi_log_def)
  from multi_isolation [OF ex_multi_run cr, THEN conjunct2, THEN conjunct1, rule_format, OF this f] f show ?thesis by auto
qed

theorem multi_sockets_witness:
  "\<exists>s'. multi_reload (Some [(''c'', ex_client')]) ex_multi = Some s' \<and> ms_open (mu_objects ex_multi ! 0) \<and> \<not> ms_open (mu_objects s' ! 0)"
proof -
  let ?t = "[(''c'', ex_client')]"
  obtain s' where r: "multi_reload (Some ?t) ex_multi = Some s'" and len: "length (mu_objects s') = 1" and f: "ms_fingerprint (mu_objects s' ! 0) = ''f1''"
      "ms_id (mu_objects s' ! 0) = ''c''"
    by (simp add: multi_reload_def valid_table_def ex_client'_def ex_client_def close_stale_def stale_def install_table_def ex_multi_def
        close_all_def drop_session_def close_conn_def)
  have "keys_distinct ?t" by (simp add: keys_distinct_def)
  from multi_sockets [OF ex_multi_run this, of 0 s'] r len f have "\<not> ms_open (mu_objects s' ! 0)" by (auto simp: ex_client'_def)
  then show ?thesis using r by (simp add: ex_multi_def)
qed

end
