(* ===== verification/WgFlow.thy ===== *)
theory WgFlow
  imports WgUdp GoTime
begin

text \<open>
  \<^verbatim>\<open>internal/wgshim/flow.go\<close> and \<^verbatim>\<open>internal/wgshim/transport.go\<close>: clients that keep several sockets and connections to a relay at the same time,
  probe them in rounds and send WireGuard through the healthiest. A path is a flow, by its index, in the first, and one of two transports in the
  second; both keep the same state, so the operations they share are defined once for paths of any type and then instantiated. The goroutines are
  steps; which paths take a write is an argument. \<^verbatim>\<open>sort.Slice\<close> may order equal elements in any way, so the ranking of the scores is a
  parameter that is only known to sort.
\<close>

section \<open>Shared state\<close>

record 'k probing =
  pb_selected :: 'k
  pb_wgPeer :: "udp_addr option"
  pb_pending :: "(string \<times> 'k \<times> gotime) list"
  pb_results :: "('k \<times> duration) list"
  pb_values :: "('k \<times> duration) list"
  pb_stats :: stats

definition new_probing :: "'k \<Rightarrow> 'k probing" where
  "new_probing k = \<lparr>pb_selected = k, pb_wgPeer = None, pb_pending = [], pb_results = [], pb_values = [], pb_stats = no_stats\<rparr>"

text \<open>The sockets of a packet: the paths that exist and those that take the write.\<close>

record 'k paths =
  pt_known :: "'k \<Rightarrow> bool"
  pt_works :: "'k \<Rightarrow> bool"

definition sendOuter :: "'k paths \<Rightarrow> 'k \<Rightarrow> byte list \<Rightarrow> 'k probing \<Rightarrow> bool \<times> ('k \<times> byte list) list \<times> 'k probing" where
  "sendOuter ps k packet p =
     (if \<not> pt_known ps k then (False, [], p)
      else if \<not> pt_works ps k then (False, [], p)
      else (True, [(k, packet)], p\<lparr>pb_stats := add_OuterTX (length packet) (pb_stats p)\<rparr>))"

fun send_first :: "'k paths \<Rightarrow> 'k list \<Rightarrow> byte list \<Rightarrow> 'k probing \<Rightarrow> ('k \<times> byte list) list \<times> 'k probing" where
  "send_first ps [] packet p = ([], p)"
| "send_first ps (k # ks) packet p =
     (case sendOuter ps k packet p of
        (True, out, p) \<Rightarrow> (out, p)
      | (False, _, p) \<Rightarrow> send_first ps ks packet p)"

text \<open>A packet of the local WireGuard: the selected path first, then the others in the order given.\<close>

definition probing_local ::
  "step_env \<Rightarrow> codec \<Rightarrow> 'k paths \<Rightarrow> 'k list \<Rightarrow> udp_addr \<Rightarrow> byte list \<Rightarrow> 'k probing \<Rightarrow> bool \<times> ('k \<times> byte list) list \<times> 'k probing" where
  "probing_local env tx ps order addr packet p0 =
     (let p = p0\<lparr>pb_wgPeer := Some addr, pb_stats := add_InnerTX (length packet) (pb_stats p0)\<rparr>
      in case Seal (sv_crypto env) tx (sv_random env) packet of
           (Inl _, _) \<Rightarrow> (False, [], p)
         | (Inr outer, _) \<Rightarrow> (case send_first ps order outer p of (out, p) \<Rightarrow> (True, out, p)))"

definition recordProbeReply :: "nat \<Rightarrow> 'k \<Rightarrow> byte list \<Rightarrow> gotime \<Rightarrow> 'k probing \<Rightarrow> 'k probing" where
  "recordProbeReply cap k payload now p0 =
     (let token = hex_encode payload
      in case map_of (pb_pending p0) token of
           None \<Rightarrow> p0
         | Some (path, sent) \<Rightarrow>
             let p = p0\<lparr>pb_pending := AList.delete token (pb_pending p0)\<rparr>
             in if path \<noteq> k then p
                else if length (pb_results p) < cap then p\<lparr>pb_results := pb_results p @ [(k, time_sub now sent)]\<rparr>
                else p)"

definition deliverOuter ::
  "nat \<Rightarrow> step_env \<Rightarrow> codec \<Rightarrow> gotime \<Rightarrow> 'k \<Rightarrow> byte list \<Rightarrow> 'k probing \<Rightarrow> bool \<times> datagram list \<times> 'k probing" where
  "deliverOuter cap env rx now k packet p0 =
     (let p = p0\<lparr>pb_stats := add_OuterRX (length packet) (pb_stats p0)\<rparr>
      in case OpenTyped (sv_crypto env) rx packet of
           Inl _ \<Rightarrow> (True, [], p\<lparr>pb_stats := add_AuthDrops (pb_stats p)\<rparr>)
         | Inr (packetType, inner) \<Rightarrow>
             if IsProbeReply packetType then (True, [], recordProbeReply cap k inner now p)
             else if \<not> IsData packetType then (True, [], p)
             else (case pb_wgPeer p of
                     None \<Rightarrow> (True, [], p\<lparr>pb_stats := add_NoPeerDrop (pb_stats p)\<rparr>)
                   | Some peer \<Rightarrow>
                       if \<not> sv_write env then (False, [], p)
                       else (True, [Inner peer inner], p\<lparr>pb_stats := add_InnerRX (length inner) (pb_stats p)\<rparr>)))"

definition sendProbe ::
  "step_env \<Rightarrow> codec \<Rightarrow> 'k paths \<Rightarrow> gotime \<Rightarrow> byte list option \<Rightarrow> 'k \<Rightarrow> 'k probing \<Rightarrow> bool \<times> ('k \<times> byte list) list \<times> 'k probing" where
  "sendProbe env tx ps now random k p0 =
     (case random of
        None \<Rightarrow> (False, [], p0)
      | Some token \<Rightarrow>
          (case SealProbe (sv_crypto env) tx (sv_random env) token of
             (Inl _, _) \<Rightarrow> (False, [], p0)
           | (Inr packet, _) \<Rightarrow>
               let key = hex_encode token;
                   p = p0\<lparr>pb_pending := AList.update key (k, now) (pb_pending p0)\<rparr>
               in case sendOuter ps k packet p of
                    (True, out, p) \<Rightarrow> (True, out, p)
                  | (False, _, p) \<Rightarrow> (False, [], p\<lparr>pb_pending := AList.delete key (pb_pending p)\<rparr>)))"

text \<open>One turn of the collecting loop, and what the end of a round does to the pending probes.\<close>

definition collect :: "'k probing \<Rightarrow> 'k probing" where
  "collect p = (case pb_results p of [] \<Rightarrow> p | r # rest \<Rightarrow> p\<lparr>pb_results := rest, pb_values := pb_values p @ [r]\<rparr>)"

definition expire :: "duration \<Rightarrow> gotime \<Rightarrow> 'k probing \<Rightarrow> 'k probing" where
  "expire timeout now p = p\<lparr>pb_pending := filter (\<lambda>(t, k, sent). \<not> timeout \<le> time_sub now sent) (pb_pending p)\<rparr>"

definition values_of :: "'k \<Rightarrow> 'k probing \<Rightarrow> duration list" where
  "values_of k p = map snd (filter (\<lambda>r. fst r = k) (pb_values p))"

definition median :: "duration list \<Rightarrow> duration" where
  "median items = (if items = [] then 0 else sort items ! (length items div 2))"

text \<open>The sum of two durations wraps at 64 bits.\<close>

definition dur_add :: "duration \<Rightarrow> duration \<Rightarrow> duration" where
  "dur_add a b = (a + b + 2 ^ 63) mod 2 ^ 64 - 2 ^ 63"

section \<open>Flows\<close>

definition TransportUDP :: string where "TransportUDP = ''udp''"
definition TransportTCP :: string where "TransportTCP = ''tcp''"

record flow_config =
  fc_UDPServer :: string
  fc_UDPFlows :: int
  fc_TCPServer :: string
  fc_TCPFlows :: int
  fc_TX :: "codec option"
  fc_RX :: "codec option"
  fc_ProbeInterval :: duration
  fc_ProbeTimeout :: duration
  fc_SwitchThreshold :: duration

record transport_flow =
  tf_id :: string
  tf_transport :: string
  tf_endpoint :: string
  tf_local :: string

datatype flow_error = MissingCodec | NoEndpoint | UDPFlowCount | TCPFlowCount | ResolveFailed | DialFailed nat | NoFlows

definition flow_defaults :: "flow_config \<Rightarrow> flow_error + flow_config" where
  "flow_defaults cfg0 =
     (if fc_TX cfg0 = None \<or> fc_RX cfg0 = None then Inl MissingCodec
      else if fc_UDPServer cfg0 = [] \<and> fc_TCPServer cfg0 = [] then Inl NoEndpoint
      else let cfg = (if fc_UDPServer cfg0 \<noteq> [] \<and> fc_UDPFlows cfg0 \<le> 0 then cfg0\<lparr>fc_UDPFlows := 4\<rparr> else cfg0);
               cfg = (if fc_TCPServer cfg \<noteq> [] \<and> fc_TCPFlows cfg \<le> 0 then cfg\<lparr>fc_TCPFlows := 1\<rparr> else cfg)
           in if fc_UDPFlows cfg < 0 \<or> 16 < fc_UDPFlows cfg then Inl UDPFlowCount
              else if fc_TCPFlows cfg < 0 \<or> 8 < fc_TCPFlows cfg then Inl TCPFlowCount
              else Inr (cfg\<lparr>fc_ProbeInterval := if fc_ProbeInterval cfg \<le> 0 then 15 * second else fc_ProbeInterval cfg,
                            fc_ProbeTimeout := if fc_ProbeTimeout cfg \<le> 0 then 750 * millisecond else fc_ProbeTimeout cfg,
                            fc_SwitchThreshold := if fc_SwitchThreshold cfg \<le> 0 then 5 * millisecond else fc_SwitchThreshold cfg\<rparr>))"

text \<open>The UDP flows: \<open>dial i\<close> is the local address of the socket, none when it cannot be opened.\<close>

fun udp_flows :: "(nat \<Rightarrow> string option) \<Rightarrow> string \<Rightarrow> nat \<Rightarrow> nat \<Rightarrow> flow_error + transport_flow list" where
  "udp_flows dial endpoint i 0 = Inr []"
| "udp_flows dial endpoint i (Suc n) =
     (case dial i of
        None \<Rightarrow> Inl (DialFailed (Suc i))
      | Some addr \<Rightarrow>
          (case udp_flows dial endpoint (Suc i) n of
             Inl e \<Rightarrow> Inl e
           | Inr fs \<Rightarrow> Inr (\<lparr>tf_id = ''udp-'' @ Itoa (int (Suc i)), tf_transport = TransportUDP, tf_endpoint = endpoint, tf_local = addr\<rparr> # fs)))"

definition tcp_flows :: "string \<Rightarrow> nat \<Rightarrow> transport_flow list" where
  "tcp_flows server n =
     map (\<lambda>i. \<lparr>tf_id = ''tcp-'' @ Itoa (int (Suc i)), tf_transport = TransportTCP, tf_endpoint = server, tf_local = ''pending''\<rparr>) [0..<n]"

definition open_flows :: "(string \<Rightarrow> udp_addr option) \<Rightarrow> (nat \<Rightarrow> string option) \<Rightarrow> flow_config \<Rightarrow> flow_error + transport_flow list" where
  "open_flows resolver dial cfg =
     (case (if fc_UDPServer cfg = [] then Inr []
            else case resolver (fc_UDPServer cfg) of
                   None \<Rightarrow> Inl ResolveFailed
                 | Some addr \<Rightarrow> udp_flows dial (udp_String addr) 0 (nat (fc_UDPFlows cfg))) of
        Inl e \<Rightarrow> Inl e
      | Inr udp \<Rightarrow>
          let flows = udp @ (if fc_TCPServer cfg = [] then [] else tcp_flows (fc_TCPServer cfg) (nat (fc_TCPFlows cfg)))
          in if flows = [] then Inl NoFlows else Inr flows)"

definition flow_start ::
  "(string \<Rightarrow> udp_addr option) \<Rightarrow> (nat \<Rightarrow> string option) \<Rightarrow> flow_config \<Rightarrow> flow_error + flow_config \<times> transport_flow list \<times> nat probing" where
  "flow_start resolver dial cfg0 =
     (case flow_defaults cfg0 of
        Inl e \<Rightarrow> Inl e
      | Inr cfg \<Rightarrow>
          (case open_flows resolver dial cfg of
             Inl e \<Rightarrow> Inl e
           | Inr flows \<Rightarrow> Inr (cfg, flows, new_probing 0)))"

text \<open>The sockets of the flows: \<open>works i\<close> says whether flow \<open>i\<close> takes the packet.\<close>

definition flow_paths :: "transport_flow list \<Rightarrow> (nat \<Rightarrow> bool) \<Rightarrow> nat paths" where
  "flow_paths flows works =
     \<lparr>pt_known = (\<lambda>i. i < length flows \<and> (tf_transport (flows ! i) = TransportUDP \<or> tf_transport (flows ! i) = TransportTCP)), pt_works = works\<rparr>"

definition flow_order :: "nat \<Rightarrow> nat \<Rightarrow> nat list" where
  "flow_order n active = active # map (\<lambda>offset. (active + offset) mod n) [1..<n]"

definition flow_local ::
  "step_env \<Rightarrow> codec \<Rightarrow> transport_flow list \<Rightarrow> (nat \<Rightarrow> bool) \<Rightarrow> nat \<Rightarrow> udp_addr \<Rightarrow> byte list \<Rightarrow> nat probing \<Rightarrow>
   bool \<times> (nat \<times> byte list) list \<times> nat probing" where
  "flow_local env tx flows works active addr packet p =
     probing_local env tx (flow_paths flows works) (flow_order (length flows) active) addr packet p"

definition flow_deliver :: "step_env \<Rightarrow> codec \<Rightarrow> gotime \<Rightarrow> nat \<Rightarrow> byte list \<Rightarrow> nat probing \<Rightarrow> bool \<times> datagram list \<times> nat probing" where
  "flow_deliver = deliverOuter 256"

definition flow_probe ::
  "step_env \<Rightarrow> codec \<Rightarrow> transport_flow list \<Rightarrow> (nat \<Rightarrow> bool) \<Rightarrow> gotime \<Rightarrow> byte list option \<Rightarrow> nat \<Rightarrow> nat probing \<Rightarrow>
   bool \<times> (nat \<times> byte list) list \<times> nat probing" where
  "flow_probe env tx flows works = sendProbe env tx (flow_paths flows works)"

record flow_score =
  sc_index :: nat
  sc_rtt :: duration
  sc_replies :: nat

definition flow_scores :: "nat \<Rightarrow> nat probing \<Rightarrow> flow_score list" where
  "flow_scores n p =
     map (\<lambda>i. \<lparr>sc_index = i, sc_rtt = median (values_of i p), sc_replies = length (values_of i p)\<rparr>)
       (filter (\<lambda>i. values_of i p \<noteq> []) [0..<n])"

definition score_less :: "flow_score \<Rightarrow> flow_score \<Rightarrow> bool" where
  "score_less a b = less_by2 (\<lambda>s. - int (sc_replies s)) sc_rtt a b"

record flow_report =
  fr_Selected :: string
  fr_Transport :: string
  fr_Endpoint :: string
  fr_Local :: string
  fr_RTT :: duration
  fr_Replies :: nat
  fr_Samples :: nat
  fr_Reachable :: nat
  fr_Total :: nat
  fr_Switched :: bool

definition choose_flow :: "duration \<Rightarrow> flow_score list \<Rightarrow> nat \<Rightarrow> nat \<times> duration \<times> nat" where
  "choose_flow threshold scores current =
     (let cur = find (\<lambda>s. sc_index s = current) scores;
          stay = (case cur of None \<Rightarrow> (current, 0, 0) | Some s \<Rightarrow> (current, sc_rtt s, sc_replies s))
      in case scores of
           [] \<Rightarrow> stay
         | best # _ \<Rightarrow>
             if cur = None \<or> snd (snd stay) < sc_replies best \<or>
                (sc_index best \<noteq> current \<and> sc_replies best = snd (snd stay) \<and> dur_add (sc_rtt best) threshold < fst (snd stay))
             then (sc_index best, sc_rtt best, sc_replies best) else stay)"

text \<open>The end of a round; \<open>rank\<close> is \<^verbatim>\<open>sort.Slice\<close> on the scores, \<open>connected\<close> the local address of a TCP flow that is connected.\<close>

definition flow_round ::
  "(flow_score list \<Rightarrow> flow_score list) \<Rightarrow> (nat \<Rightarrow> string option) \<Rightarrow> flow_config \<Rightarrow> transport_flow list \<Rightarrow> gotime \<Rightarrow> nat probing \<Rightarrow>
   (flow_report \<times> nat probing) option" where
  "flow_round rank connected cfg flows now p0 =
     (let p = expire (fc_ProbeTimeout cfg) now p0;
          scores = rank (flow_scores (length flows) p)
      in case choose_flow (fc_SwitchThreshold cfg) scores (pb_selected p) of
           (nxt, rtt, replies) \<Rightarrow>
             map_option (\<lambda>flow.
               (\<lparr>fr_Selected = tf_id flow, fr_Transport = tf_transport flow, fr_Endpoint = tf_endpoint flow,
                 fr_Local = (if tf_transport flow = TransportTCP then (case connected nxt of Some l \<Rightarrow> l | None \<Rightarrow> tf_local flow) else tf_local flow),
                 fr_RTT = rtt, fr_Replies = replies, fr_Samples = 3, fr_Reachable = length scores, fr_Total = length flows,
                 fr_Switched = (pb_selected p \<noteq> nxt)\<rparr>,
                p\<lparr>pb_selected := nxt, pb_values := []\<rparr>)) (index_at flows nxt))"

section \<open>Two transports\<close>

definition transport_paths :: "(string \<Rightarrow> bool) \<Rightarrow> string paths" where
  "transport_paths works = \<lparr>pt_known = (\<lambda>t. t = TransportTCP \<or> t = TransportUDP), pt_works = works\<rparr>"

text \<open>The other transport is tried when the selected one fails: UDP always, TCP when it is connected.\<close>

definition transport_order :: "bool \<Rightarrow> string \<Rightarrow> string list" where
  "transport_order connected active =
     active # (if active = TransportTCP then [TransportUDP] else if connected then [TransportTCP] else [])"

definition transport_local ::
  "step_env \<Rightarrow> codec \<Rightarrow> (string \<Rightarrow> bool) \<Rightarrow> bool \<Rightarrow> string \<Rightarrow> udp_addr \<Rightarrow> byte list \<Rightarrow> string probing \<Rightarrow>
   bool \<times> (string \<times> byte list) list \<times> string probing" where
  "transport_local env tx works connected active addr packet p =
     probing_local env tx (transport_paths works) (transport_order connected active) addr packet p"

definition transport_deliver :: "step_env \<Rightarrow> codec \<Rightarrow> gotime \<Rightarrow> string \<Rightarrow> byte list \<Rightarrow> string probing \<Rightarrow> bool \<times> datagram list \<times> string probing" where
  "transport_deliver = deliverOuter 64"

definition transport_probe ::
  "step_env \<Rightarrow> codec \<Rightarrow> (string \<Rightarrow> bool) \<Rightarrow> gotime \<Rightarrow> byte list option \<Rightarrow> string \<Rightarrow> string probing \<Rightarrow>
   bool \<times> (string \<times> byte list) list \<times> string probing" where
  "transport_probe env tx works = sendProbe env tx (transport_paths works)"

definition choose_transport :: "duration \<Rightarrow> duration \<Rightarrow> duration \<Rightarrow> string \<Rightarrow> string" where
  "choose_transport threshold udpRTT tcpRTT current =
     (if udpRTT = 0 \<and> 0 < tcpRTT then TransportTCP
      else if tcpRTT = 0 \<and> 0 < udpRTT then TransportUDP
      else if 0 < udpRTT \<and> 0 < tcpRTT then
        (if current = TransportUDP \<and> dur_add tcpRTT threshold < udpRTT then TransportTCP
         else if current = TransportTCP \<and> dur_add udpRTT threshold < tcpRTT then TransportUDP
         else current)
      else current)"

record transport_report =
  tr_Selected :: string
  tr_UDPRTT :: duration
  tr_TCPRTT :: duration
  tr_UDPReplies :: nat
  tr_TCPReplies :: nat
  tr_Samples :: nat
  tr_Switched :: bool

definition transport_round :: "duration \<Rightarrow> duration \<Rightarrow> gotime \<Rightarrow> string probing \<Rightarrow> transport_report \<times> string probing" where
  "transport_round timeout threshold now p0 =
     (let p = expire timeout now p0;
          udpRTT = median (values_of TransportUDP p); tcpRTT = median (values_of TransportTCP p);
          nxt = choose_transport threshold udpRTT tcpRTT (pb_selected p)
      in (\<lparr>tr_Selected = nxt, tr_UDPRTT = udpRTT, tr_TCPRTT = tcpRTT, tr_UDPReplies = length (values_of TransportUDP p),
           tr_TCPReplies = length (values_of TransportTCP p), tr_Samples = 3, tr_Switched = (pb_selected p \<noteq> nxt)\<rparr>,
          p\<lparr>pb_selected := nxt, pb_values := []\<rparr>))"

section \<open>Runs\<close>

text \<open>What is known of \<^verbatim>\<open>sort.Slice\<close>: the result has the same elements and none is less than one before it.\<close>

definition ranks :: "(flow_score list \<Rightarrow> flow_score list) \<Rightarrow> bool" where
  "ranks rank \<longleftrightarrow> (\<forall>scores. mset (rank scores) = mset scores \<and> sorted_wrt (\<lambda>a b. \<not> score_less b a) (rank scores))"

inductive flow_run :: "(flow_score list \<Rightarrow> flow_score list) \<Rightarrow> flow_config \<Rightarrow> transport_flow list \<Rightarrow> nat probing \<Rightarrow> bool"
  for rank :: "flow_score list \<Rightarrow> flow_score list" and cfg :: flow_config and flows :: "transport_flow list" where
  start: "flow_run rank cfg flows (new_probing 0)"
| from_local: "flow_run rank cfg flows p \<Longrightarrow> flow_local env tx flows works active addr packet p = (go, out, p') \<Longrightarrow> flow_run rank cfg flows p'"
| from_outer: "flow_run rank cfg flows p \<Longrightarrow> i < length flows \<Longrightarrow> flow_deliver env rx now i packet p = (go, out, p') \<Longrightarrow> flow_run rank cfg flows p'"
| probe: "flow_run rank cfg flows p \<Longrightarrow> i < length flows \<Longrightarrow> flow_probe env tx flows works now random i p = (sent, out, p') \<Longrightarrow> flow_run rank cfg flows p'"
| collect: "flow_run rank cfg flows p \<Longrightarrow> flow_run rank cfg flows (collect p)"
| round: "flow_run rank cfg flows p \<Longrightarrow> flow_round rank connected cfg flows now p = Some (report, p') \<Longrightarrow> flow_run rank cfg flows p'"

lemma send_first_eq:
  "send_first ps ks packet p =
     (case find (\<lambda>k. pt_known ps k \<and> pt_works ps k) ks of
        None \<Rightarrow> ([], p)
      | Some k \<Rightarrow> ([(k, packet)], p\<lparr>pb_stats := add_OuterTX (length packet) (pb_stats p)\<rparr>))"
  by (induction ks) (auto simp: sendOuter_def)

lemma probing_keeps:
  "probing_local env tx ps order addr packet p = (go, out, p') \<Longrightarrow> pb_selected p' = pb_selected p \<and> pb_pending p' = pb_pending p \<and> pb_results p' = pb_results p"
  "deliverOuter cap env rx now k packet p = (go, ds, p') \<Longrightarrow> pb_selected p' = pb_selected p"
  "sendProbe env tx ps now random k p = (sent, out, p') \<Longrightarrow> pb_selected p' = pb_selected p"
  "pb_selected (collect p) = pb_selected p" "pb_selected (expire timeout now p) = pb_selected p"
  by (auto simp: probing_local_def deliverOuter_def recordProbeReply_def sendProbe_def sendOuter_def collect_def expire_def send_first_eq Let_def
      split: sum.splits prod.splits option.splits if_splits list.splits)

lemma flow_run_selected:
  "flow_run rank cfg flows p \<Longrightarrow> flows \<noteq> [] \<Longrightarrow> pb_selected p < length flows"
proof (induction rule: flow_run.induct)
  case (round p connected now report p')
  then show ?case by (auto simp: flow_round_def Let_def bounds_simps split: prod.splits)
qed (auto simp: new_probing_def flow_local_def flow_deliver_def flow_probe_def probing_keeps(4) dest!: probing_keeps(1-3))

lemma udp_flows_ok: "udp_flows dial endpoint i n = Inr fs \<Longrightarrow> length fs = n \<and> (\<forall>f \<in> set fs. tf_transport f = TransportUDP \<and> tf_endpoint f = endpoint)"
  by (induction n arbitrary: i fs) (auto split: option.splits sum.splits)

lemma flow_start_ok:
  assumes "flow_start resolver dial cfg0 = Inr (cfg, flows, p)"
  shows "flows \<noteq> [] \<and> length flows \<le> 24 \<and> (\<forall>f \<in> set flows. tf_transport f = TransportUDP \<or> tf_transport f = TransportTCP) \<and>
    p = new_probing 0 \<and> 0 < fc_SwitchThreshold cfg"
proof -
  have d: "flow_defaults cfg0 = Inr cfg" and f: "open_flows resolver dial cfg = Inr flows" and p: "p = new_probing 0"
    using assms by (auto simp: flow_start_def split: sum.splits)
  have c: "fc_UDPFlows cfg \<le> 16" "fc_TCPFlows cfg \<le> 8" "0 < fc_SwitchThreshold cfg"
    using d by (auto simp: flow_defaults_def Let_def split: if_splits)
  obtain udp where r: "(if fc_UDPServer cfg = [] then Inr []
            else case resolver (fc_UDPServer cfg) of
                   None \<Rightarrow> Inl ResolveFailed
                 | Some addr \<Rightarrow> udp_flows dial (udp_String addr) 0 (nat (fc_UDPFlows cfg))) = Inr udp"
    and fl: "flows = udp @ (if fc_TCPServer cfg = [] then [] else tcp_flows (fc_TCPServer cfg) (nat (fc_TCPFlows cfg)))" "flows \<noteq> []"
    using f unfolding open_flows_def Let_def by (auto split: sum.splits if_splits)
  have "length udp \<le> nat (fc_UDPFlows cfg) \<and> (\<forall>f \<in> set udp. tf_transport f = TransportUDP)"
    using r udp_flows_ok by (fastforce split: if_splits option.splits)
  then show ?thesis using p c fl by (auto simp: tcp_flows_def)
qed

lemma flow_order_eq: "active < n \<Longrightarrow> flow_order n active = map (\<lambda>offset. (active + offset) mod n) [0..<n]"
  by (cases n) (auto simp: flow_order_def upt_rec [of 0])

lemma flow_order_all: "active < n \<Longrightarrow> set (flow_order n active) = {0..<n}"
proof -
  assume a: "active < n"
  have "i \<in> (\<lambda>offset. (active + offset) mod n) ` {0..<n}" if "i < n" for i
  proof (cases "active \<le> i")
    case True
    then show ?thesis using that by (intro image_eqI [of _ _ "i - active"]) auto
  next
    case False
    then show ?thesis using that a by (intro image_eqI [of _ _ "i + n - active"]) auto
  qed
  then show ?thesis using a by (auto simp: flow_order_eq)
qed

section \<open>Delivery\<close>

lemma find_order:
  assumes "find P (map g [0..<n]) = Some x"
  shows "\<exists>k < n. x = g k \<and> P (g k) \<and> (\<forall>j < k. \<not> P (g j))"
  using assms by (auto simp: find_Some_iff)

text \<open>A packet of the local WireGuard leaves on the selected flow when it works, else on the first flow that works,
  in cyclic order from the selected one; it leaves once, sealed so that the relay opens it to the same packet, and is lost only when no flow
  works. The selection itself is left to the next round.\<close>

theorem flow_delivery:
  assumes cr: "crypto_ok (sv_crypto env)" and start: "flow_start resolver dial cfg0 = Inr (cfg, flows, p0)" and tx: "fc_TX cfg = Some tx"
    and seal: "Seal (sv_crypto env) tx (sv_random env) packet = (Inr outer, rest)" and active: "active < length flows"
    and local: "flow_local env tx flows works active addr packet p = (go, out, p')"
  shows "go \<and> pb_selected p' = pb_selected p \<and> codec_Open (sv_crypto env) tx outer = Inr packet \<and>
    (if \<exists>i < length flows. works i
     then \<exists>k < length flows. out = [((active + k) mod length flows, outer)] \<and> works ((active + k) mod length flows) \<and>
            (\<forall>j < k. \<not> works ((active + j) mod length flows))
     else out = [])"
proof -
  let ?n = "length flows" and ?P = "\<lambda>k. pt_known (flow_paths flows works) k \<and> pt_works (flow_paths flows works) k"
  have known: "?P i \<longleftrightarrow> i < ?n \<and> works i" for i
    using flow_start_ok [OF start] by (auto simp: flow_paths_def)
  have op: "codec_Open (sv_crypto env) tx outer = Inr packet" by (rule Seal_Open [OF cr seal refl])
  have keep: "pb_selected p' = pb_selected p" using probing_keeps(1) local unfolding flow_local_def by blast
  show ?thesis
  proof (cases "find ?P (flow_order ?n active)")
    case None
    have "\<not> ?P i" if "i < ?n" for i
      using None that flow_order_all [OF active] unfolding find_None_iff by auto
    then have "\<not> (\<exists>i < ?n. works i)" using known by blast
    moreover have "go" "out = []"
      using local seal None by (auto simp: flow_local_def probing_local_def send_first_eq Let_def)
    ultimately show ?thesis using op keep by simp
  next
    case (Some x)
    from find_order [OF Some [unfolded flow_order_eq [OF active]]]
    obtain k where k: "k < ?n" "x = (active + k) mod ?n" "?P ((active + k) mod ?n)" "\<forall>j < k. \<not> ?P ((active + j) mod ?n)"
      by blast
    have "go" "out = [(x, outer)]"
      using local seal Some by (auto simp: flow_local_def probing_local_def send_first_eq Let_def)
    moreover have "(active + j) mod ?n < ?n" for j by (rule mod_less_divisor) (use k(1) in linarith)
    then have "\<forall>j < k. \<not> works ((active + j) mod ?n)" using k(4) unfolding known by blast
    moreover have "works ((active + k) mod ?n)" "\<exists>i < ?n. works i" using k(3) unfolding known by blast+
    ultimately show ?thesis using k(1,2) op keep by (simp, intro exI [of _ k]) simp
  qed
qed

section \<open>Selection\<close>

lemma dur_add_exact: "- (2 ^ 63) \<le> a + b \<Longrightarrow> a + b < 2 ^ 63 \<Longrightarrow> dur_add a b = a + b"
  by (simp add: dur_add_def)

lemma median_in: "items \<noteq> [] \<Longrightarrow> median items \<in> set items"
  by (metis length_greater_0_conv length_sort median_def nth_mem set_sort div_less_dividend one_less_numeral_iff semiring_norm(76))

lemma flow_scores_find:
  "find (\<lambda>s. sc_index s = i) (flow_scores n p) \<noteq> None \<longleftrightarrow> i < n \<and> values_of i p \<noteq> []"
  by (auto simp: find_None_iff flow_scores_def)

lemma flow_scores_mem:
  "s \<in> set (flow_scores n p) \<longleftrightarrow> sc_index s < n \<and> values_of (sc_index s) p \<noteq> [] \<and> sc_rtt s = median (values_of (sc_index s) p) \<and>
     sc_replies s = length (values_of (sc_index s) p)"
  by (cases s) (auto simp: flow_scores_def image_iff)

lemma find_score:
  assumes "set scores = set (flow_scores n p)"
  shows "find (\<lambda>s. sc_index s = i) scores =
    (if i < n \<and> values_of i p \<noteq> [] then Some \<lparr>sc_index = i, sc_rtt = median (values_of i p), sc_replies = length (values_of i p)\<rparr> else None)"
proof (cases "find (\<lambda>s. sc_index s = i) scores")
  case None
  then have "\<forall>s \<in> set (flow_scores n p). sc_index s \<noteq> i" using assms unfolding find_None_iff by auto
  then have "\<not> (i < n \<and> values_of i p \<noteq> [])"
    using flow_scores_mem [of "\<lparr>sc_index = i, sc_rtt = median (values_of i p), sc_replies = length (values_of i p)\<rparr>" n p] by auto
  then show ?thesis using None by auto
next
  case (Some s)
  then have "s \<in> set (flow_scores n p)" "sc_index s = i" using assms by (auto simp: find_Some_iff)
  then show ?thesis using Some unfolding flow_scores_mem by (cases s) auto
qed


text \<open>The first of the sorted scores has the most replies, and the smallest median among those.\<close>

lemma best_score:
  fixes n p
  defines "R \<equiv> \<lambda>i. length (values_of i p)" and "T \<equiv> \<lambda>i. median (values_of i p)"
  assumes set: "set scores = set (flow_scores n p)" and sorted: "sorted_wrt (\<lambda>a b. \<not> score_less b a) scores"
    and best: "scores = best # others"
  shows "sc_index best < n" "values_of (sc_index best) p \<noteq> []" "sc_rtt best = T (sc_index best)"
    "sc_replies best = R (sc_index best)"
    "i < n \<Longrightarrow> R i < R (sc_index best) \<or> R i = R (sc_index best) \<and> T (sc_index best) \<le> T i"
proof -
  show b: "sc_index best < n" "values_of (sc_index best) p \<noteq> []" "sc_rtt best = T (sc_index best)"
    "sc_replies best = R (sc_index best)"
    using best set flow_scores_mem [of best n p] by (auto simp: R_def T_def)
  assume i: "i < n"
  show "R i < R (sc_index best) \<or> R i = R (sc_index best) \<and> T (sc_index best) \<le> T i"
  proof (cases "values_of i p = []")
    case True
    then show ?thesis using b(2) by (simp add: R_def)
  next
    case False
    let ?s = "\<lparr>sc_index = i, sc_rtt = T i, sc_replies = R i\<rparr>"
    have "?s \<in> set scores" using set flow_scores_mem [of ?s n p] False i by (simp add: R_def T_def)
    then have "\<not> score_less ?s best" using sorted best by (auto simp: score_less_def less_by2_def)
    then show ?thesis using b by (auto simp: score_less_def less_by2_def split: if_splits)
  qed
qed

text \<open>What the choice means for scores in the order of \<^verbatim>\<open>sort.Slice\<close>, when no sum overflows.\<close>

lemma choose_flow_spec:
  fixes n p thr scores cur
  defines "R \<equiv> \<lambda>i. length (values_of i p)" and "T \<equiv> \<lambda>i. median (values_of i p)"
  assumes scores: "mset scores = mset (flow_scores n p)" "sorted_wrt (\<lambda>a b. \<not> score_less b a) scores"
    and cur: "cur < n" and thr: "0 < thr" and safe: "\<forall>r \<in> set (pb_values p). 0 \<le> snd r \<and> snd r + thr < 2 ^ 63"
    and choose: "choose_flow thr scores cur = (nxt, rtt, replies)"
  shows "nxt < n \<and> (\<forall>i < n. R i \<le> R nxt \<and> (R i = R nxt \<longrightarrow> T nxt \<le> T i + thr)) \<and>
    (nxt \<noteq> cur \<longrightarrow> R cur < R nxt \<or> R cur = R nxt \<and> T nxt + thr < T cur) \<and> rtt = T nxt \<and> replies = R nxt"
proof -
  have set: "set scores = set (flow_scores n p)" using scores(1) mset_eq_setD by blast
  note find = find_score [OF set, of cur]
  have T0: "values_of i p = [] \<Longrightarrow> T i = 0" for i by (simp add: T_def median_def)
  have Tsafe: "0 \<le> T i \<and> T i + thr < 2 ^ 63" if "values_of i p \<noteq> []" for i
    using median_in [OF that] safe by (auto simp: T_def values_of_def)
  show ?thesis
  proof (cases scores)
    case Nil
    then have none: "values_of i p = []" if "i < n" for i
      using that set flow_scores_mem [of "\<lparr>sc_index = i, sc_rtt = median (values_of i p), sc_replies = length (values_of i p)\<rparr>" n p] by auto
    then have "nxt = cur" "rtt = 0" "replies = 0" using choose Nil by (auto simp: choose_flow_def)
    then show ?thesis using none cur thr T0 by (auto simp: R_def)
  next
    case (Cons best others)
    let ?b = "sc_index best"
    have b: "?b < n" "values_of ?b p \<noteq> []" "sc_rtt best = T ?b" "sc_replies best = R ?b"
      and least: "\<And>i. i < n \<Longrightarrow> R i < R ?b \<or> R i = R ?b \<and> T ?b \<le> T i"
      using best_score [OF set scores(2) Cons] unfolding R_def T_def by blast+
    have sum: "dur_add (T ?b) thr = T ?b + thr" using Tsafe [OF b(2)] thr by (intro dur_add_exact) auto
    show ?thesis
    proof (cases "values_of cur p = []")
      case True
      then have "nxt = ?b" "rtt = T ?b" "replies = R ?b"
        using choose Cons find b unfolding choose_flow_def Let_def by auto
      then show ?thesis using b(1,2) least thr True by (force simp: R_def)
    next
      case False
      then have ch: "(nxt, rtt, replies) = (if R cur < R ?b \<or> (?b \<noteq> cur \<and> R ?b = R cur \<and> T ?b + thr < T cur) then (?b, T ?b, R ?b) else (cur, T cur, R cur))"
        using choose Cons find b(3,4) cur sum unfolding choose_flow_def Let_def by (simp add: R_def T_def split: if_splits)
      show ?thesis
      proof (cases "R cur < R ?b \<or> (?b \<noteq> cur \<and> R ?b = R cur \<and> T ?b + thr < T cur)")
        case True
        then have "nxt = ?b" "rtt = T ?b" "replies = R ?b" using ch by auto
        then show ?thesis using True b(1) least thr by force
      next
        case f: False
        then have eq: "nxt = cur" "rtt = T cur" "replies = R cur" using ch by auto
        have rb: "R cur = R ?b" using f least [OF cur] by auto
        have "T cur \<le> T ?b + thr"
        proof (cases "?b = cur")
          case True
          show ?thesis unfolding True using thr by linarith
        next
          case False
          then show ?thesis using f rb by linarith
        qed
        then have "R i \<le> R cur \<and> (R i = R cur \<longrightarrow> T cur \<le> T i + thr)" if "i < n" for i
          using least [OF that] rb by linarith
        then show ?thesis using cur eq by blast
      qed
    qed
  qed
qed


text \<open>The flow a round selects. After any run of the client, the end of a round is defined and selects an existing flow that has
  answered as many probes as any other and, among those, is at most the threshold slower than the fastest; the client leaves the
  flow it was on only for one that answered more probes or as many and faster by more than the threshold, so two flows that
  differ by less do not alternate; when none answered it stays.\<close>

theorem flow_selection:
  assumes start: "flow_start resolver dial cfg0 = Inr (cfg, flows, p0)" and run: "flow_run rank cfg flows p" and rank: "ranks rank"
    and safe: "\<forall>r \<in> set (pb_values p). 0 \<le> snd r \<and> snd r + fc_SwitchThreshold cfg < 2 ^ 63"
  shows "\<exists>report p'. flow_round rank connected cfg flows now p = Some (report, p') \<and> pb_selected p' < length flows \<and>
    (let nxt = pb_selected p'; cur = pb_selected p; replies = (\<lambda>i. length (values_of i p)); rtt = (\<lambda>i. median (values_of i p)) in
      (\<forall>i < length flows. replies i \<le> replies nxt \<and> (replies i = replies nxt \<longrightarrow> rtt nxt \<le> rtt i + fc_SwitchThreshold cfg)) \<and>
      (nxt \<noteq> cur \<longrightarrow> replies cur < replies nxt \<or> replies cur = replies nxt \<and> rtt nxt + fc_SwitchThreshold cfg < rtt cur) \<and>
      (fr_Switched report \<longleftrightarrow> nxt \<noteq> cur) \<and> fr_Selected report = tf_id (flows ! nxt) \<and> fr_RTT report = rtt nxt \<and> fr_Replies report = replies nxt)"
proof -
  have ne: "flows \<noteq> []" and thr: "0 < fc_SwitchThreshold cfg" using flow_start_ok [OF start] by auto
  have cur: "pb_selected p < length flows" by (rule flow_run_selected [OF run ne])
  let ?p = "expire (fc_ProbeTimeout cfg) now p"
  have same: "pb_selected ?p = pb_selected p" "pb_values ?p = pb_values p" "values_of i ?p = values_of i p" for i
    by (simp_all add: expire_def values_of_def)
  then have sc: "flow_scores (length flows) ?p = flow_scores (length flows) p" by (simp add: flow_scores_def)
  let ?scores = "rank (flow_scores (length flows) p)"
  obtain nxt rtt replies where ch: "choose_flow (fc_SwitchThreshold cfg) ?scores (pb_selected p) = (nxt, rtt, replies)" by (metis prod_cases3)
  have rk: "mset ?scores = mset (flow_scores (length flows) p)" "sorted_wrt (\<lambda>a b. \<not> score_less b a) ?scores"
    using rank by (auto simp: ranks_def)
  note spec = choose_flow_spec [OF rk cur thr safe ch]
  then have "index_at flows nxt = Some (flows ! nxt)" by (simp add: index_at_def)
  then obtain report p' where rd: "flow_round rank connected cfg flows now p = Some (report, p')"
      "pb_selected p' = nxt" "fr_Switched report \<longleftrightarrow> nxt \<noteq> pb_selected p" "fr_Selected report = tf_id (flows ! nxt)"
      "fr_RTT report = rtt" "fr_Replies report = replies"
    using ch by (auto simp: flow_round_def Let_def same sc)
  then show ?thesis using spec by (simp add: Let_def)
qed

text \<open>The choice between two transports: it is one of the two, and the client moves only to a transport that answered.\<close>

lemma transport_choice:
  assumes "choose_transport threshold (median us) (median ts) cur = nxt" and "nxt \<noteq> cur"
    and "\<forall>d \<in> set us \<union> set ts. 0 < d" and "cur = TransportUDP \<or> cur = TransportTCP"
  shows "nxt = TransportTCP \<and> ts \<noteq> [] \<or> nxt = TransportUDP \<and> us \<noteq> []"
  using assms median_in by (fastforce simp: choose_transport_def median_def split: if_splits)

section \<open>Witnesses\<close>

definition ex_flow_config :: flow_config where
  "ex_flow_config = \<lparr>fc_UDPServer = ''a'', fc_UDPFlows = 2, fc_TCPServer = ''t'', fc_TCPFlows = 0, fc_TX = Some ex_up, fc_RX = Some ex_back,
     fc_ProbeInterval = 0, fc_ProbeTimeout = 0, fc_SwitchThreshold = 0\<rparr>"

definition ex_flow_defaults :: flow_config where
  "ex_flow_defaults = ex_flow_config\<lparr>fc_TCPFlows := 1, fc_ProbeInterval := 15 * second, fc_ProbeTimeout := 750 * millisecond,
     fc_SwitchThreshold := 5 * millisecond\<rparr>"

definition ex_flow_dial :: "nat \<Rightarrow> string option" where "ex_flow_dial i = Some ''local''"

definition ex_flows :: "transport_flow list" where
  "ex_flows = [\<lparr>tf_id = ''udp-'' @ Itoa 1, tf_transport = TransportUDP, tf_endpoint = udp_String ex_from, tf_local = ''local''\<rparr>,
     \<lparr>tf_id = ''udp-'' @ Itoa 2, tf_transport = TransportUDP, tf_endpoint = udp_String ex_from, tf_local = ''local''\<rparr>,
     \<lparr>tf_id = ''tcp-'' @ Itoa 1, tf_transport = TransportTCP, tf_endpoint = ''t'', tf_local = ''pending''\<rparr>]"

lemma ex_flow_started: "flow_start (\<lambda>s. Some ex_from) ex_flow_dial ex_flow_config = Inr (ex_flow_defaults, ex_flows, new_probing 0)"
  by (simp add: flow_start_def flow_defaults_def ex_flow_config_def ex_flow_defaults_def open_flows_def ex_flow_dial_def tcp_flows_def ex_flows_def
      numeral_2_eq_2 Let_def)

theorem flow_delivery_witness:
  "\<exists>p'. flow_local ex_step_env ex_up ex_flows (\<lambda>i. i = 0) 1 ex_wg [7] (new_probing 1) = (True, [(0, ex_sealed [7])], p')"
proof -
  have cr: "crypto_ok (sv_crypto ex_step_env)" using ex_crypto_ok by (simp add: ex_step_env_def)
  have tx: "fc_TX ex_flow_defaults = Some ex_up" by (simp add: ex_flow_defaults_def ex_flow_config_def)
  have seal: "Seal (sv_crypto ex_step_env) ex_up (sv_random ex_step_env) [7] = (Inr (ex_sealed [7]), [])"
    using ex_Seal [of "[7]" ex_up] by (simp add: ex_step_env_def ex_up_def)
  have n: "length ex_flows = 3" by (simp add: ex_flows_def)
  have a: "1 < length ex_flows" by (simp add: ex_flows_def)
  obtain go out p' where l: "flow_local ex_step_env ex_up ex_flows (\<lambda>i. i = 0) 1 ex_wg [7] (new_probing 1) = (go, out, p')" by (metis prod_cases3)
  from flow_delivery [OF cr ex_flow_started tx seal a l] n have "go" "\<exists>k < 3. out = [((1 + k) mod 3, ex_sealed [7])] \<and> (1 + k) mod 3 = 0"
    by (auto split: if_splits)
  then show ?thesis using l by auto
qed

lemma ex_ranks: "ranks (sort_slice score_less)"
proof -
  have eq: "score_less = less_by2 (\<lambda>s. - int (sc_replies s)) sc_rtt" by (rule ext)+ (simp add: score_less_def)
  show ?thesis unfolding ranks_def eq by (simp add: by_key2.sort_slice_sorted)
qed

definition ms_time :: "int \<Rightarrow> gotime" where "ms_time n = \<lparr>wall = n * millisecond, mono = Some (n * millisecond)\<rparr>"

definition ex_probed :: "nat probing" where
  "ex_probed = \<lparr>pb_selected = 0, pb_wgPeer = None, pb_pending = [], pb_results = [], pb_values = [(1, 20 * millisecond)],
     pb_stats = add_OuterRX 33 (add_OuterTX 33 no_stats)\<rparr>"

lemma ex_probe_sealed:
  "SealProbe ex_crypto c (replicate 12 3) [9] = (Inr (replicate 12 3 @ [protocolVersion, packetProbe, 0, 1, 9] @ replicate 16 0), [])"
  "SealProbeReply ex_crypto c (replicate 12 3) [9] = (Inr (replicate 12 3 @ [protocolVersion, packetProbeReply, 0, 1, 9] @ replicate 16 0), [])"
  if "paddingMin c = 0" "paddingMax c = 0" for c
  using that by (simp_all add: SealProbe_def SealProbeReply_def sealType_def packet_kinds codec_consts randomPaddingLength_def ReadFull_def ex_crypto_def
      numeral_2_eq_2)

lemma ex_flow_run: "flow_run (sort_slice score_less) ex_flow_defaults ex_flows ex_probed"
proof -
  let ?run = "flow_run (sort_slice score_less) ex_flow_defaults ex_flows"
  let ?reply = "replicate 12 3 @ [protocolVersion, packetProbeReply, 0, 1, 9] @ replicate 16 (0 :: byte)"
  let ?key = "hex_encode [9]"
  let ?p1 = "(new_probing 0)\<lparr>pb_pending := [(?key, 1, ms_time 0)], pb_stats := add_OuterTX 33 no_stats\<rparr>"
  let ?p2 = "(new_probing 0)\<lparr>pb_results := [(1, 20 * millisecond)], pb_stats := add_OuterRX 33 (add_OuterTX 33 no_stats)\<rparr>"
  have pr: "flow_probe ex_step_env ex_up ex_flows (\<lambda>i. True) (ms_time 0) (Some [9]) 1 (new_probing 0) =
      (True, [(1, replicate 12 3 @ [protocolVersion, packetProbe, 0, 1, 9] @ replicate 16 0)], ?p1)"
    using ex_probe_sealed(1) [of ex_up]
    by (simp add: flow_probe_def sendProbe_def ex_step_env_def ex_up_def sendOuter_def flow_paths_def ex_flows_def new_probing_def)
  have op: "OpenTyped ex_crypto ex_back ?reply = Inr (packetProbeReply, [9])"
    using sealType_OpenTyped [OF ex_crypto_ok, of ex_back "replicate 12 3" packetProbeReply "[9]"] ex_probe_sealed(2) [of ex_back]
    by (simp add: SealProbeReply_def ex_back_def)
  have dl: "flow_deliver ex_step_env ex_back (ms_time 20) 1 ?reply ?p1 = (True, [], ?p2)"
    using op by (simp add: flow_deliver_def deliverOuter_def ex_step_env_def packet_kinds recordProbeReply_def new_probing_def ms_time_def time_sub_def
        time_diff_def sat_duration_def)
  have n: "(1 :: nat) < length ex_flows" by (simp add: ex_flows_def)
  have "?run ?p2" by (rule flow_run.from_outer [OF flow_run.probe [OF flow_run.start n pr] n dl])
  from flow_run.collect [OF this] show ?thesis by (simp add: collect_def ex_probed_def new_probing_def)
qed

theorem flow_selection_witness:
  "\<exists>report p'. flow_round (sort_slice score_less) (\<lambda>i. None) ex_flow_defaults ex_flows (ms_time 30) ex_probed = Some (report, p') \<and>
     pb_selected p' = 1 \<and> fr_Replies report = 1 \<and> fr_RTT report = 20 * millisecond"
proof -
  have safe: "\<forall>r \<in> set (pb_values ex_probed). 0 \<le> snd r \<and> snd r + fc_SwitchThreshold ex_flow_defaults < 2 ^ 63"
    by (auto simp: ex_probed_def ex_flow_defaults_def)
  have v: "values_of i ex_probed = (if i = 1 then [20 * millisecond] else [])" for i
    by (auto simp: values_of_def ex_probed_def)
  from flow_selection [OF ex_flow_started ex_flow_run ex_ranks safe, of "\<lambda>i. None" "ms_time 30"]
  obtain report p' where r: "flow_round (sort_slice score_less) (\<lambda>i. None) ex_flow_defaults ex_flows (ms_time 30) ex_probed = Some (report, p')"
    and m: "\<forall>i < length ex_flows. length (values_of i ex_probed) \<le> length (values_of (pb_selected p') ex_probed)"
    and f: "fr_RTT report = median (values_of (pb_selected p') ex_probed)" "fr_Replies report = length (values_of (pb_selected p') ex_probed)"
    unfolding Let_def by blast
  have "pb_selected p' = 1" using m [rule_format, of 1] by (auto simp: v ex_flows_def split: if_splits)
  then show ?thesis using r f v by (auto simp: median_def)
qed

end
