(* ===== verification/CtlNode.thy ===== *)
theory CtlNode
  imports CtlLogProps
begin

text \<open>
  \<^verbatim>\<open>internal/controlplane/node.go\<close> and \<^verbatim>\<open>reconcile.go\<close>: a Controller as the API sees it, above the replicated state machine.
  Raft is a parameter: what it answers in each call is an argument, together with the entries it applied to the state machine
  by then. A revision floor, kept across restarts, stops the Controller from handing out revisions that were already in use before
  a log was replayed.
\<close>

section \<open>Raft as it is seen\<close>

datatype suffrage = Voter | Nonvoter | Staging

record raft_server =
  rs_ID :: string
  rs_Address :: string
  rs_Suffrage :: suffrage

text \<open>The answers of one moment: the entries applied since the last one, the leadership, a barrier, indexes and the configuration (none on an error).\<close>

record raft_view =
  rv_applied :: "entry list"
  rv_leader :: bool
  rv_leader_id :: string
  rv_leader_address :: string
  rv_barrier :: bool
  rv_commit :: u64
  rv_appliedIndex :: u64
  rv_lastIndex :: u64
  rv_config :: "(raft_server list \<times> u64) option"
  rv_stats :: "string \<Rightarrow> string"

text \<open>The future of \<^verbatim>\<open>raft.Apply\<close>: the entries applied before it, at which index the state machine applied the command itself (none when
  it did not), whether an error is reported, and the outcomes of commit and file operations.\<close>

record apply_future =
  ap_before :: "entry list"
  ap_index :: "u64 option"
  ap_failed :: bool
  ap_commit_ok :: bool
  ap_io_fail :: "io_op \<Rightarrow> string \<Rightarrow> bool"

record gateway_record =
  gw_NodeID :: string
  gw_Roles :: "(string \<times> bool) list"
  gw_Revoked :: bool

record 'b node_env =
  ne_ctl :: "'b ctl_env"
  ne_encode_mutation :: "mutation \<Rightarrow> byte list"
  ne_cluster_id :: "byte list \<Rightarrow> string option"
  ne_gateway :: "byte list \<Rightarrow> gateway_record option"
  ne_SnapshotVersionMax :: int

section \<open>State\<close>

record node_config =
  nc_NodeID :: string
  nc_RaftBindAddress :: string
  nc_RaftAddress :: string
  nc_StateRoot :: string
  nc_Bootstrap :: bool
  nc_SnapshotRetain :: int
  nc_SnapshotThreshold :: u64
  nc_SnapshotInterval :: duration
  nc_HeartbeatTimeout :: duration
  nc_ElectionTimeout :: duration
  nc_LeaderLeaseTimeout :: duration
  nc_ClusterID :: string

record 'b node =
  nd_config :: node_config
  nd_fsm :: "'b fsm"
  nd_floor :: u64

datatype node_error =
    IdentityRequired | BadRaftConfig | DataDirFailed | StoreOpenFailed store_error | SnapshotStoreFailed | ReplayFailed store_error | TransportFailed
  | ExistingStateFailed | ReconcileFailed fsm_error | RaftStartFailed | BootstrapFailed
  | LeaderTimeout | UseReconciliation | ErrNotLeader | RevisionBelowFloor u64 u64 | ApplyFailed | EmptyResponse
  | BarrierFailed | NotAppliedInTime u64 | ConfigurationFailed | MembershipFailed | NotMember string | TooFewVoters
  | SnapshotFailed | StateMachineError fsm_error | BadSnapshot | SnapshotSchema | SnapshotChecksum | NoClusterMetadata | BadClusterMetadata | ClusterIDMissing
  | BadGatewayRecord | InvalidGatewayIdentity | CatchUpTimeout | StateChanged | BadMinimum | ReconciliationFailed

definition node_advance :: "'b node_env \<Rightarrow> raft_view \<Rightarrow> 'b node \<Rightarrow> 'b node" where
  "node_advance env v n = n\<lparr>nd_fsm := fsm_run (ne_ctl env) (rv_applied v) (nd_fsm n)\<rparr>"

section \<open>Starting\<close>

text \<open>The timings of Raft: the defaults of the library are a parameter, and so is its check.\<close>

record raft_config =
  rc_LocalID :: string
  rc_SnapshotThreshold :: u64
  rc_SnapshotInterval :: duration
  rc_HeartbeatTimeout :: duration
  rc_ElectionTimeout :: duration
  rc_LeaderLeaseTimeout :: duration
  rc_ShutdownOnRemove :: bool

definition or_keep :: "duration \<Rightarrow> duration \<Rightarrow> duration" where
  "or_keep v d = (if v \<noteq> 0 then v else d)"

definition raftRuntimeConfig :: "raft_config \<Rightarrow> (raft_config \<Rightarrow> bool) \<Rightarrow> node_config \<Rightarrow> node_error + raft_config" where
  "raftRuntimeConfig defaults valid cfg =
     (let result = defaults\<lparr>rc_LocalID := nc_NodeID cfg, rc_SnapshotThreshold := nc_SnapshotThreshold cfg,
                            rc_SnapshotInterval := nc_SnapshotInterval cfg, rc_ShutdownOnRemove := True,
                            rc_HeartbeatTimeout := or_keep (nc_HeartbeatTimeout cfg) (rc_HeartbeatTimeout defaults),
                            rc_ElectionTimeout := or_keep (nc_ElectionTimeout cfg) (rc_ElectionTimeout defaults),
                            rc_LeaderLeaseTimeout := or_keep (nc_LeaderLeaseTimeout cfg) (rc_LeaderLeaseTimeout defaults)\<rparr>
      in if valid result then Inr result else Inl BadRaftConfig)"

definition node_defaults :: "node_config \<Rightarrow> node_config" where
  "node_defaults cfg =
     cfg\<lparr>nc_RaftBindAddress := if trim_space (nc_RaftBindAddress cfg) = [] then nc_RaftAddress cfg else nc_RaftBindAddress cfg,
         nc_SnapshotRetain := if nc_SnapshotRetain cfg \<le> 0 then 3 else nc_SnapshotRetain cfg,
         nc_SnapshotThreshold := if nc_SnapshotThreshold cfg = 0 then 64 else nc_SnapshotThreshold cfg,
         nc_SnapshotInterval := if nc_SnapshotInterval cfg \<le> 0 then 30 * second else nc_SnapshotInterval cfg\<rparr>"

text \<open>What the file system, the snapshot store and Raft answer while a Node starts; the buckets found in the database and the files on disk.\<close>

record 'b start_env =
  se_defaults :: raft_config
  se_valid :: "raft_config \<Rightarrow> bool"
  se_datadir :: bool
  se_open_commit :: bool
  se_file :: "(string \<rightharpoonup> 'b) option"
  se_snapshots :: "nat option"
  se_replay_commit :: bool
  se_transport :: bool
  se_existing :: "bool option"
  se_raft :: bool
  se_bootstrap :: bool
  se_files :: "(string \<times> disk_file) list"

text \<open>The result is the Node, or an error, with the store as the start left it when it was opened.\<close>

definition NewNode :: "'b node_env \<Rightarrow> 'b start_env \<Rightarrow> node_config \<Rightarrow> (node_error \<times> 'b store option) + 'b node" where
  "NewNode env se cfg0 =
     (if trim_space (nc_NodeID cfg0) = [] \<or> trim_space (nc_RaftAddress cfg0) = [] then Inl (IdentityRequired, None)
      else let cfg = node_defaults cfg0; bo = ce_bolt (ne_ctl env)
      in case raftRuntimeConfig (se_defaults se) (se_valid se) cfg of
        Inl e \<Rightarrow> Inl (e, None)
      | Inr rc \<Rightarrow>
      if \<not> se_datadir se then Inl (DataDirFailed, None)
      else case OpenStore bo (se_open_commit se) (se_file se) of
        Inl e \<Rightarrow> Inl (StoreOpenFailed e, None)
      | Inr store \<Rightarrow>
      case se_snapshots se of
        None \<Rightarrow> Inl (SnapshotStoreFailed, Some store)
      | Some available \<Rightarrow>
      case prepareReplay bo (se_replay_commit se) (available \<noteq> 0) store of
        (Inl e, store) \<Rightarrow> Inl (ReplayFailed e, Some store)
      | (Inr floor, store) \<Rightarrow>
      if \<not> se_transport se then Inl (TransportFailed, Some store)
      else let fsm = NewStateMachine store (nc_StateRoot cfg) (se_files se)
      in case se_existing se of
        None \<Rightarrow> Inl (ExistingStateFailed, Some store)
      | Some existing \<Rightarrow>
      case (if existing then ReconcileProjection (ne_ctl env) fsm else (None, fsm)) of
        (Some e, _) \<Rightarrow> Inl (ReconcileFailed e, Some store)
      | (None, fsm) \<Rightarrow>
      if \<not> se_raft se then Inl (RaftStartFailed, Some store)
      else if \<not> existing \<and> nc_Bootstrap cfg \<and> \<not> se_bootstrap se then Inl (BootstrapFailed, Some store)
      else Inr \<lparr>nd_config = cfg, nd_fsm = fsm, nd_floor = floor\<rparr>)"

section \<open>Leadership and reads\<close>

definition IsLeader :: "raft_view \<Rightarrow> bool" where "IsLeader v = rv_leader v"

definition Leader :: "raft_view \<Rightarrow> string \<times> string" where "Leader v = (rv_leader_id v, rv_leader_address v)"

text \<open>Polling: the list holds the clock and Raft's answers at each turn; none when the loop has not ended by then.\<close>

fun WaitForLeader :: "gotime \<Rightarrow> (gotime \<times> raft_view) list \<Rightarrow> node_error option option" where
  "WaitForLeader deadline [] = None"
| "WaitForLeader deadline ((now, v) # polls) =
     (if \<not> time_before now deadline then Some (Some LeaderTimeout)
      else if snd (Leader v) \<noteq> [] then Some None
      else WaitForLeader deadline polls)"

definition checkRevisionFloor :: "'b node_env \<Rightarrow> 'b node \<Rightarrow> node_error option" where
  "checkRevisionFloor env n =
     (let revision = fsm_Revision (ne_ctl env) (nd_fsm n)
      in if revision < nd_floor n then Some (RevisionBelowFloor revision (nd_floor n)) else None)"

definition node_reconcile :: "'b node_env \<Rightarrow> 'b node \<Rightarrow> node_error option \<times> 'b node" where
  "node_reconcile env n =
     (case ReconcileProjection (ne_ctl env) (nd_fsm n) of (e, f) \<Rightarrow> (map_option StateMachineError e, n\<lparr>nd_fsm := f\<rparr>))"

text \<open>\<open>v0\<close> is the view when the call starts, \<open>v\<close> the one when the barrier returns.\<close>

definition StrongRead :: "'b node_env \<Rightarrow> raft_view \<Rightarrow> raft_view \<Rightarrow> 'b node \<Rightarrow> (node_error + u64 \<times> u64) \<times> 'b node" where
  "StrongRead env v0 v n0 =
     (let n = node_advance env v0 n0
      in if \<not> IsLeader v0 then (Inl ErrNotLeader, n)
         else let n = node_advance env v n
         in if \<not> rv_barrier v then (Inl BarrierFailed, n)
         else case checkRevisionFloor env n of
                Some e \<Rightarrow> (Inl e, n)
              | None \<Rightarrow>
                  (case node_reconcile env n of
                     (Some e, n) \<Rightarrow> (Inl e, n)
                   | (None, n) \<Rightarrow> (Inr (rv_commit v, fsm_Revision (ne_ctl env) (nd_fsm n)), n)))"

fun WaitApplied :: "'b node_env \<Rightarrow> u64 \<Rightarrow> gotime \<Rightarrow> (gotime \<times> raft_view) list \<Rightarrow> 'b node \<Rightarrow> node_error option option \<times> 'b node" where
  "WaitApplied env index deadline [] n = (None, n)"
| "WaitApplied env index deadline ((now, v) # polls) n0 =
     (let n = node_advance env v n0
      in if \<not> time_before now deadline then (Some (Some (NotAppliedInTime index)), n)
         else if index \<le> rv_appliedIndex v
           then (case checkRevisionFloor env n of
                   Some e \<Rightarrow> (Some (Some e), n)
                 | None \<Rightarrow> (case node_reconcile env n of (e, n) \<Rightarrow> (Some e, n)))
         else WaitApplied env index deadline polls n)"

section \<open>Mutations\<close>

text \<open>The command goes through the log: the state machine applies what comes before it, then the command itself.\<close>

definition raft_apply :: "'b node_env \<Rightarrow> apply_future \<Rightarrow> byte list \<Rightarrow> 'b node \<Rightarrow> (u64 \<times> mutation_result) option \<times> 'b node" where
  "raft_apply env a raw n =
     (let f = fsm_run (ne_ctl env) (ap_before a) (nd_fsm n)
      in case ap_index a of
           None \<Rightarrow> (None, n\<lparr>nd_fsm := f\<rparr>)
         | Some index \<Rightarrow>
             (case fsm_Apply ((ne_ctl env)\<lparr>ce_commit_ok := ap_commit_ok a, ce_io_fail := ap_io_fail a\<rparr>) index raw f of
                (r, f) \<Rightarrow> (Some (index, r), n\<lparr>nd_fsm := f\<rparr>)))"

definition Submit :: "'b node_env \<Rightarrow> raft_view \<Rightarrow> apply_future \<Rightarrow> mutation \<Rightarrow> 'b node \<Rightarrow> (node_error + u64 \<times> mutation_result) \<times> 'b node" where
  "Submit env v a command n0 =
     (let n = node_advance env v n0
      in if mut_Kind command = ''ReconcileRevision'' \<or> mut_RevisionMinimum command \<noteq> 0 then (Inl UseReconciliation, n)
         else if \<not> IsLeader v then (Inl ErrNotLeader, n)
         else case checkRevisionFloor env n of
                Some e \<Rightarrow> (Inl e, n)
              | None \<Rightarrow>
                  (case raft_apply env a (ne_encode_mutation env command) n of
                     (response, n) \<Rightarrow>
                       if ap_failed a then (Inl ApplyFailed, n)
                       else (case response of None \<Rightarrow> (Inl EmptyResponse, n) | Some r \<Rightarrow> (Inr r, n))))"

section \<open>Membership\<close>

text \<open>Raft's own operation may still fail: \<open>ok\<close>.\<close>

definition AddMember :: "'b node_env \<Rightarrow> raft_view \<Rightarrow> bool \<Rightarrow> string \<Rightarrow> string \<Rightarrow> bool \<Rightarrow> 'b node \<Rightarrow> node_error + raft_server" where
  "AddMember env v ok sid address voter n0 =
     (let n = node_advance env v n0
      in if \<not> IsLeader v then Inl ErrNotLeader
         else case checkRevisionFloor env n of
                Some e \<Rightarrow> Inl e
              | None \<Rightarrow> if \<not> ok then Inl MembershipFailed
                        else Inr \<lparr>rs_ID = sid, rs_Address = address, rs_Suffrage = (if voter then Voter else Nonvoter)\<rparr>)"

definition voters :: "raft_server list \<Rightarrow> nat" where
  "voters servers = length (filter (\<lambda>s. rs_Suffrage s = Voter) servers)"

text \<open>The result is the identifier that Raft is asked to remove.\<close>

definition RemoveMember :: "'b node_env \<Rightarrow> raft_view \<Rightarrow> bool \<Rightarrow> string \<Rightarrow> bool \<Rightarrow> 'b node \<Rightarrow> node_error + string" where
  "RemoveMember env v ok sid force n0 =
     (let n = node_advance env v n0
      in if \<not> IsLeader v then Inl ErrNotLeader
         else case checkRevisionFloor env n of
                Some e \<Rightarrow> Inl e
              | None \<Rightarrow>
                  (case rv_config v of
                     None \<Rightarrow> Inl ConfigurationFailed
                   | Some (servers, _) \<Rightarrow>
                       if \<not> list_ex (\<lambda>s. rs_ID s = sid) servers then Inl (NotMember sid)
                       else if voters servers \<le> 2 \<and> \<not> force then Inl TooFewVoters
                       else if \<not> ok then Inl MembershipFailed
                       else Inr sid))"

section \<open>Snapshots\<close>

definition node_Snapshot :: "'b node_env \<Rightarrow> bool \<Rightarrow> 'b node \<Rightarrow> node_error option" where
  "node_Snapshot env ok n =
     (case checkRevisionFloor env n of Some e \<Rightarrow> Some e | None \<Rightarrow> if ok then None else Some SnapshotFailed)"

definition node_ExportSnapshot :: "'b node_env \<Rightarrow> 'b node \<Rightarrow> node_error + byte list" where
  "node_ExportSnapshot env n =
     (case checkRevisionFloor env n of
        Some e \<Rightarrow> Inl e
      | None \<Rightarrow> (case ExportSnapshot (ne_ctl env) (nd_fsm n) of Inl e \<Rightarrow> Inl (StateMachineError e) | Inr raw \<Rightarrow> Inr raw))"

definition SnapshotClusterID :: "'b node_env \<Rightarrow> byte list \<Rightarrow> node_error + string" where
  "SnapshotClusterID env raw =
     (case ce_decode (ne_ctl env) raw of
        None \<Rightarrow> Inl BadSnapshot
      | Some e \<Rightarrow>
          if env_Version e \<noteq> 1 \<or> ControlSchemaVersion < env_SchemaVersion e then Inl SnapshotSchema
          else if snapshotChecksum (ne_ctl env) (env_SchemaVersion e) (env_Revision e) (env_Entries e) \<noteq> env_Checksum e then Inl SnapshotChecksum
          else case map_of (env_Entries e) ''cluster/cluster.json'' of
                 None \<Rightarrow> Inl NoClusterMetadata
               | Some clusterRaw \<Rightarrow>
                   (case ne_cluster_id env clusterRaw of
                      None \<Rightarrow> Inl BadClusterMetadata
                    | Some cid \<Rightarrow> if trim_space cid = [] then Inl ClusterIDMissing else Inr (trim_space cid)))"

text \<open>\<^verbatim>\<open>strconv.ParseUint\<close> in base ten with 64 bits, its error ignored: 0 for what is not a number, the largest value when it is too big.\<close>

fun parse_uint_loop :: "nat \<Rightarrow> string \<Rightarrow> nat" where
  "parse_uint_loop n [] = n"
| "parse_uint_loop n (c # cs) =
     (if \<not> is_digit c then 0
      else if 2 ^ 64 \<le> n * 10 + digit_val c then 2 ^ 64 - 1
      else parse_uint_loop (n * 10 + digit_val c) cs)"

definition parseUint :: "string \<Rightarrow> u64" where
  "parseUint s = word_of_nat (if s = [] then 0 else parse_uint_loop 0 s)"

record snapshot_meta =
  sm_Version :: int
  sm_Index :: u64
  sm_Term :: u64
  sm_Configuration :: "raft_server list"
  sm_ConfigurationIndex :: u64
  sm_Size :: int

text \<open>What is handed to Raft: the metadata and the snapshot.\<close>

definition RestoreSnapshot :: "'b node_env \<Rightarrow> raft_view \<Rightarrow> byte list \<Rightarrow> node_error + snapshot_meta \<times> byte list" where
  "RestoreSnapshot env v raw =
     (if \<not> IsLeader v then Inl ErrNotLeader
      else case SnapshotClusterID env raw of
             Inl e \<Rightarrow> Inl e
           | Inr _ \<Rightarrow>
               (case rv_config v of
                  None \<Rightarrow> Inl ConfigurationFailed
                | Some (servers, index) \<Rightarrow>
                    Inr (\<lparr>sm_Version = ne_SnapshotVersionMax env, sm_Index = rv_lastIndex v, sm_Term = parseUint (rv_stats v ''term''), sm_Configuration = servers,
                          sm_ConfigurationIndex = index, sm_Size = int (length raw)\<rparr>, raw)))"

section \<open>Status\<close>

record node_status =
  ns_NodeID :: string
  ns_RaftRole :: string
  ns_LeaderID :: string
  ns_LeaderAddress :: string
  ns_Term :: u64
  ns_CommitIndex :: u64
  ns_LastApplied :: u64
  ns_LastLogIndex :: u64
  ns_SnapshotIndex :: u64
  ns_Revision :: u64
  ns_RevisionFloor :: u64
  ns_StateSchema :: u64
  ns_RaftProtocol :: u64
  ns_PeerCount :: int
  ns_ReplicationLag :: u64
  ns_Members :: "raft_server list"
  ns_Voters :: nat
  ns_Quorum :: nat

definition node_Status :: "'b node_env \<Rightarrow> raft_view \<Rightarrow> 'b node \<Rightarrow> node_error option \<times> node_status" where
  "node_Status env v n =
     (let stat = (\<lambda>k. parseUint (rv_stats v k));
          status = \<lparr>ns_NodeID = nc_NodeID (nd_config n), ns_RaftRole = rv_stats v ''state'', ns_LeaderID = fst (Leader v),
            ns_LeaderAddress = snd (Leader v), ns_Term = stat ''term'', ns_CommitIndex = stat ''commit_index'',
            ns_LastApplied = stat ''applied_index'', ns_LastLogIndex = stat ''last_log_index'', ns_SnapshotIndex = stat ''last_snapshot_index'',
            ns_Revision = fsm_Revision (ne_ctl env) (nd_fsm n), ns_RevisionFloor = nd_floor n,
            ns_StateSchema = fsm_SchemaVersion (ne_ctl env) (nd_fsm n), ns_RaftProtocol = stat ''protocol_version'', ns_PeerCount = 0,
            ns_ReplicationLag = 0, ns_Members = [], ns_Voters = 0, ns_Quorum = 0\<rparr>
      in case rv_config v of
           None \<Rightarrow> (Some ConfigurationFailed, status)
         | Some (servers, _) \<Rightarrow>
             (None, status\<lparr>ns_Members := servers, ns_Voters := voters servers,
                ns_Quorum := if 0 < voters servers then voters servers div 2 + 1 else 0,
                ns_PeerCount := if servers \<noteq> [] then int (length servers) - 1 else 0,
                ns_ReplicationLag := if ns_LastApplied status < ns_CommitIndex status
                                     then ns_CommitIndex status - ns_LastApplied status else 0\<rparr>))"

section \<open>Reconciliation\<close>

text \<open>\<^verbatim>\<open>RecoveryGateways\<close>: the active gateways of the canonical state. The walk is in the order of the keys.\<close>

fun recovery_gateways :: "'b node_env \<Rightarrow> (string \<times> byte list) list \<Rightarrow> node_error + string list" where
  "recovery_gateways env [] = Inr []"
| "recovery_gateways env ((k, v) # kvs) =
     (if \<not> has_prefix k ''control/nodes/'' then recovery_gateways env kvs
      else case ne_gateway env v of
             None \<Rightarrow> Inl BadGatewayRecord
           | Some r \<Rightarrow>
               if map_of (gw_Roles r) ''gateway'' = Some True \<and> \<not> gw_Revoked r
               then (if gw_NodeID r = [] \<or> k \<noteq> ''control/nodes/'' @ gw_NodeID r @ ''.json'' then Inl InvalidGatewayIdentity
                     else case recovery_gateways env kvs of Inl e \<Rightarrow> Inl e | Inr ids \<Rightarrow> Inr (gw_NodeID r # ids))
               else recovery_gateways env kvs)"

definition RecoveryGateways :: "'b node_env \<Rightarrow> 'b node \<Rightarrow> node_error + string list" where
  "RecoveryGateways env n = recovery_gateways env (b_scan (ce_bolt (ne_ctl env)) (st_canonical (fsm_store (nd_fsm n))))"

record recovery_state =
  ry_Version :: int
  ry_NodeID :: string
  ry_Index :: u64
  ry_Revision :: u64
  ry_Floor :: u64
  ry_Digest :: string
  ry_ConfigurationIndex :: u64

definition RevisionRecoveryVersion :: int where "RevisionRecoveryVersion = 1"

definition recovery_view :: "'b node_env \<Rightarrow> u64 \<Rightarrow> u64 \<Rightarrow> 'b node \<Rightarrow> recovery_state" where
  "recovery_view env index configuration n =
     (let bo = ce_bolt (ne_ctl env); s = fsm_store (nd_fsm n)
      in \<lparr>ry_Version = RevisionRecoveryVersion, ry_NodeID = nc_NodeID (nd_config n), ry_Index = index, ry_Revision = store_revision bo s,
          ry_Floor = revisionFloor bo s, ry_Digest = snapshotChecksum (ne_ctl env) (schemaVersion bo s) 0 (canonicalEntries bo s),
          ry_ConfigurationIndex = configuration\<rparr>)"

text \<open>With index 0 the state of the leader at its commit index after a barrier.\<close>

definition leader_state :: "'b node_env \<Rightarrow> raft_view \<Rightarrow> raft_view \<Rightarrow> 'b node \<Rightarrow> (node_error + recovery_state) \<times> 'b node" where
  "leader_state env v0 v n0 =
     (let n = node_advance env v0 n0
      in if \<not> IsLeader v0 then (Inl ErrNotLeader, n)
         else let n = node_advance env v n
         in if \<not> rv_barrier v then (Inl BarrierFailed, n)
         else case rv_config v of
                None \<Rightarrow> (Inl ConfigurationFailed, n)
              | Some (_, configuration) \<Rightarrow> (Inr (recovery_view env (rv_commit v) configuration n), n))"

text \<open>With another index the state of any member once it has applied that entry.\<close>

fun member_state :: "'b node_env \<Rightarrow> u64 \<Rightarrow> gotime \<Rightarrow> (gotime \<times> raft_view) list \<Rightarrow> 'b node \<Rightarrow> (node_error + recovery_state) option \<times> 'b node" where
  "member_state env index deadline [] n = (None, n)"
| "member_state env index deadline ((now, v) # polls) n0 =
     (let n = node_advance env v n0
      in if rv_appliedIndex v < index
         then (if time_before deadline now then (Some (Inl CatchUpTimeout), n) else member_state env index deadline polls n)
         else case rv_config v of
                None \<Rightarrow> (Some (Inl ConfigurationFailed), n)
              | Some (_, configuration) \<Rightarrow> (Some (Inr (recovery_view env index configuration n)), n))"

definition recovery_command :: "u64 \<Rightarrow> mutation" where
  "recovery_command minimum =
     \<lparr>mut_Version = CommandVersion, mut_ID = ''revision-recovery-'' @ radix 10 (unat minimum), mut_Kind = ''ReconcileRevision'', mut_IssuedAt = 0,
      mut_Operations = [], mut_RevisionMinimum = minimum\<rparr>"

definition ReconcileRevision ::
  "'b node_env \<Rightarrow> raft_view \<Rightarrow> raft_view \<Rightarrow> raft_view \<Rightarrow> apply_future \<Rightarrow> raft_view \<Rightarrow> raft_view \<Rightarrow> recovery_state \<Rightarrow> u64 \<Rightarrow> 'b node \<Rightarrow>
   (node_error + u64 \<times> mutation_result) \<times> 'b node" where
  "ReconcileRevision env v v0 v1 a v2 v3 seen minimum n0 =
     (let n = node_advance env v n0
      in if \<not> IsLeader v then (Inl ErrNotLeader, n)
         else case leader_state env v0 v1 n of
                (Inl e, n) \<Rightarrow> (Inl e, n)
              | (Inr current, n) \<Rightarrow>
                  if ry_Digest seen \<noteq> ry_Digest current \<or> ry_ConfigurationIndex seen \<noteq> ry_ConfigurationIndex current \<or>
                     ry_Revision seen \<noteq> ry_Revision current then (Inl StateChanged, n)
                  else if minimum < ry_Floor current \<or> minimum < ry_Revision current \<or> minimum = 0 \<or> minimum = - 1 then (Inl BadMinimum, n)
                  else (case raft_apply env a (ne_encode_mutation env (recovery_command minimum)) n of
                          (response, n) \<Rightarrow>
                            if ap_failed a then (Inl ApplyFailed, n)
                            else (case response of
                                    None \<Rightarrow> (Inl ReconciliationFailed, n)
                                  | Some (index, r) \<Rightarrow>
                                      if \<not> res_OK r then (Inl ReconciliationFailed, n)
                                      else (case StrongRead env v2 v3 n of
                                              (Inl e, n) \<Rightarrow> (Inl e, n)
                                            | (Inr _, n) \<Rightarrow> (Inr (index, r), n)))))"

section \<open>The state machine below\<close>

lemma fsm_Apply_OK:
  assumes bo: "bolt_ok (ce_bolt env)" and ap: "fsm_Apply env index d f = (r, f')" and ok: "res_OK r" and m: "ce_mutation env d = Some command"
    and fresh: "index \<noteq> 0" "appliedIndex (ce_bolt env) (fsm_store f) < index"
  shows "res_Revision r = store_revision (ce_bolt env) (fsm_store f')"
    and "mut_Kind command \<noteq> ''ReconcileRevision'' \<Longrightarrow> store_revision (ce_bolt env) (fsm_store f) \<noteq> - 1 \<and>
      store_revision (ce_bolt env) (fsm_store f') = store_revision (ce_bolt env) (fsm_store f) + 1"
    and "mut_Kind command = ''ReconcileRevision'' \<Longrightarrow> canonical_map env f' = canonical_map env f \<and>
      store_revision (ce_bolt env) (fsm_store f') = max (store_revision (ce_bolt env) (fsm_store f)) (mut_RevisionMinimum command)"
proof -
  obtain ops outcome s where c: "check_command command = None" "normalize_ops (mut_Operations command) = Inr ops"
      "apply_tx env command ops index (fsm_store f) = Inr (outcome, s)" "finish_apply env ops outcome (f\<lparr>fsm_store := s\<rparr>) = (r, f')"
    using ap ok m by (auto simp: fsm_Apply_def error_result_def split: option.splits sum.splits if_splits)
  note tx = apply_tx_cases [OF bo c(3)]
  obtain n where n: "outcome = Applied n"
    using tx c(4) ok fresh by (cases outcome) (auto simp: finish_apply_def)
  then have f': "fsm_store f' = s" "res_Revision r = n"
    using c(4) by (auto simp: finish_apply_def ok_result_def error_result_def split: option.splits prod.splits)
  then show "res_Revision r = store_revision (ce_bolt env) (fsm_store f')" using tx n by simp
  { assume "mut_Kind command \<noteq> ''ReconcileRevision''"
    then show "store_revision (ce_bolt env) (fsm_store f) \<noteq> - 1 \<and>
        store_revision (ce_bolt env) (fsm_store f') = store_revision (ce_bolt env) (fsm_store f) + 1"
      using tx n f' by auto }
  { assume k: "mut_Kind command = ''ReconcileRevision''"
    then have "ops = []" using c(1,2) by (auto simp: check_command_def split: if_splits)
    then show "canonical_map env f' = canonical_map env f \<and>
        store_revision (ce_bolt env) (fsm_store f') = max (store_revision (ce_bolt env) (fsm_store f)) (mut_RevisionMinimum command)"
      using tx n f' k by (auto simp: canonical_map_def ops_effect_def) }
qed

lemma fsm_run_revision: "bolt_ok (ce_bolt env) \<Longrightarrow> store_revision (ce_bolt env) (fsm_store f) \<le> store_revision (ce_bolt env) (fsm_store (fsm_run env xs f))"
proof (induction xs arbitrary: f)
  case (Cons x xs)
  obtain r f1 where ap: "fsm_Apply (step_env env x) (en_index x) (en_data x) f = (r, f1)" by fastforce
  have "store_revision (ce_bolt env) (fsm_store f) \<le> store_revision (ce_bolt env) (fsm_store f1)"
    using fsm_Apply_advances [OF _ ap] Cons.prems by simp
  then show ?case using Cons.IH [OF Cons.prems, of f1] ap by simp
qed simp

lemma node_reconcile_store: "node_reconcile env n = (e, n') \<Longrightarrow> fsm_store (nd_fsm n') = fsm_store (nd_fsm n) \<and> nd_floor n' = nd_floor n"
  by (auto simp: node_reconcile_def ReconcileProjection_def Let_def split: prod.splits option.splits sum.splits)

lemma advance_floor [simp]: "nd_floor (node_advance env v n) = nd_floor n" "nd_config (node_advance env v n) = nd_config n"
  by (simp_all add: node_advance_def)

section \<open>The floor\<close>

text \<open>A Node between its start and a later moment: entries are applied, snapshots restored, files reconciled, in any order and with any failure.\<close>

inductive node_run :: "'b node_env \<Rightarrow> 'b node \<Rightarrow> 'b node \<Rightarrow> bool" for env :: "'b node_env" and n0 :: "'b node" where
  start: "node_run env n0 n0"
| applied: "node_run env n0 n \<Longrightarrow> node_run env n0 (n\<lparr>nd_fsm := fsm_run (ne_ctl env) xs (nd_fsm n)\<rparr>)"
| restored: "node_run env n0 n \<Longrightarrow>
    node_run env n0 (n\<lparr>nd_fsm := snd (fsm_Restore ((ne_ctl env)\<lparr>ce_commit_ok := c, ce_io_fail := io\<rparr>) raw (nd_fsm n))\<rparr>)"
| reconciled: "node_run env n0 n \<Longrightarrow> node_run env n0 (snd (node_reconcile env n))"

lemma node_run_floor: "node_run env n0 n \<Longrightarrow> nd_floor n = nd_floor n0"
  by (induction rule: node_run.induct) (auto simp: node_reconcile_def split: prod.splits)

lemma NewNode_floor:
  assumes bo: "bolt_ok (ce_bolt (ne_ctl env))" and start: "NewNode env se cfg = Inr n" and opened: "OpenStore (ce_bolt (ne_ctl env)) (se_open_commit se) (se_file se) = Inr s"
  shows "nd_floor n = max (revisionFloor (ce_bolt (ne_ctl env)) s) (store_revision (ce_bolt (ne_ctl env)) s)"
proof -
  obtain snaps store where p: "prepareReplay (ce_bolt (ne_ctl env)) (se_replay_commit se) snaps s = (Inr (nd_floor n), store)"
    using start opened
    by (auto simp: NewNode_def Let_def split: if_splits sum.splits option.splits prod.splits)
  from replay_floor [OF bo p] show ?thesis by simp
qed

lemma word_less_Suc: "n \<noteq> - 1 \<Longrightarrow> n < n + 1" for n :: u64
proof -
  assume "n \<noteq> - 1"
  then have "unat n \<noteq> unat (- 1 :: u64)" by (simp add: word_unat_eq_iff)
  moreover have "unat (- 1 :: u64) = 2 ^ 64 - 1" by (simp add: unsigned_minus_1_eq_mask mask_eq_exp_minus_1)
  moreover have "unat n < 2 ^ 64" using unsigned_less [of n] by simp
  ultimately have "unat n + 1 < 2 ^ 64" by linarith
  then show "n < n + 1" by (simp add: word_less_nat_alt unat_word_ariths)
qed

lemma checkRevisionFloor_None: "checkRevisionFloor env n = None \<longleftrightarrow> nd_floor n \<le> store_revision (ce_bolt (ne_ctl env)) (fsm_store (nd_fsm n))"
  by (simp add: checkRevisionFloor_def fsm_Revision_def Let_def linorder_not_less [symmetric])

lemma raft_apply_Some:
  assumes "raft_apply env a raw n = (Some (index, r), n')"
  obtains f' where "ap_index a = Some index"
    "fsm_Apply ((ne_ctl env)\<lparr>ce_commit_ok := ap_commit_ok a, ce_io_fail := ap_io_fail a\<rparr>) index raw (fsm_run (ne_ctl env) (ap_before a) (nd_fsm n)) = (r, f')"
    "n' = n\<lparr>nd_fsm := f'\<rparr>"
  using assms by (auto simp: raft_apply_def Let_def split: option.splits prod.splits)


text \<open>C35. Below its floor a Controller fails closed: it accepts no mutation, answers no read, changes no membership and takes or exports no
  snapshot, whoever leads and however Raft answers, and the state machine is left as it was.\<close>

theorem below_floor_fails_closed:
  assumes low: "store_revision (ce_bolt (ne_ctl env)) (fsm_store (nd_fsm n)) < nd_floor n" and still: "rv_applied v = []" "rv_applied v' = []"
  shows "(\<exists>e. fst (Submit env v a command n) = Inl e) \<and> nd_fsm (snd (Submit env v a command n)) = nd_fsm n \<and>
    (\<exists>e. fst (StrongRead env v v' n) = Inl e) \<and> (\<exists>e. AddMember env v ok sid address voter n = Inl e) \<and>
    (\<exists>e. RemoveMember env v ok sid force n = Inl e) \<and> (\<exists>e. node_Snapshot env ok n = Some e) \<and> (\<exists>e. node_ExportSnapshot env n = Inl e)"
proof -
  have adv: "node_advance env v n = n" "node_advance env v' n = n" using still by (simp_all add: node_advance_def)
  obtain e where e: "checkRevisionFloor env n = Some e"
    using low checkRevisionFloor_None [of env n] by (cases "checkRevisionFloor env n") auto
  show ?thesis
    by (simp add: adv e Submit_def StrongRead_def AddMember_def RemoveMember_def node_Snapshot_def node_ExportSnapshot_def Let_def)
qed

lemma StrongRead_Inr:
  assumes "StrongRead env v0 v n = (Inr x, n')"
  shows "nd_floor n' \<le> store_revision (ce_bolt (ne_ctl env)) (fsm_store (nd_fsm n')) \<and>
    fsm_store (nd_fsm n') = fsm_store (nd_fsm (node_advance env v (node_advance env v0 n))) \<and> nd_floor n' = nd_floor n"
proof -
  let ?n = "node_advance env v (node_advance env v0 n)"
  obtain n'' where fl: "checkRevisionFloor env ?n = None" and rec: "node_reconcile env ?n = (None, n')"
    using assms by (auto simp: StrongRead_def Let_def split: if_splits option.splits prod.splits)
  then show ?thesis using node_reconcile_store [OF rec] by (simp add: checkRevisionFloor_None)
qed

text \<open>Reconciliation only raises the revision. When it succeeds, the state that the administrator had seen (by its digest,
  revision and membership) was the leader's state; afterwards the revision has reached the requested minimum and the
  floor, so the Controller serves again; and its own entry changes no canonical data, so that the state is the one that was seen
  unless Raft applied other entries in between.\<close>

theorem reconcile_raises_only:
  assumes bo: "bolt_ok (ce_bolt (ne_ctl env))"
    and json: "ce_mutation (ne_ctl env) (ne_encode_mutation env (recovery_command minimum)) = Some (recovery_command minimum)"
    and rec: "ReconcileRevision env v v0 v1 a v2 v3 seen minimum n = (Inr (index, r), n')"
    and fresh: "index \<noteq> 0" "appliedIndex (ce_bolt (ne_ctl env)) (fsm_store (fsm_run (ne_ctl env) (ap_before a)
      (nd_fsm (node_advance env v1 (node_advance env v0 (node_advance env v n)))))) < index"
  shows "minimum \<le> store_revision (ce_bolt (ne_ctl env)) (fsm_store (nd_fsm n')) \<and> checkRevisionFloor env n' = None \<and>
    (\<exists>n1 index configuration. n1 = node_advance env v1 (node_advance env v0 (node_advance env v n)) \<and>
       (let current = recovery_view env index configuration n1 in
         ry_Digest seen = ry_Digest current \<and> ry_Revision seen = ry_Revision current \<and> ry_ConfigurationIndex seen = configuration) \<and>
       (ap_before a = [] \<and> rv_applied v2 = [] \<and> rv_applied v3 = [] \<longrightarrow> canonical_map (ne_ctl env) (nd_fsm n') = canonical_map (ne_ctl env) (nd_fsm n1)))"
proof -
  let ?bo = "ce_bolt (ne_ctl env)" and ?n = "node_advance env v1 (node_advance env v0 (node_advance env v n))"
  let ?e = "(ne_ctl env)\<lparr>ce_commit_ok := ap_commit_ok a, ce_io_fail := ap_io_fail a\<rparr>" and ?raw = "ne_encode_mutation env (recovery_command minimum)"
  obtain servers configuration n2 x where cfg: "leader_state env v0 v1 (node_advance env v n) = (Inr (recovery_view env (rv_commit v1) configuration ?n), ?n)"
    using rec by (auto simp: ReconcileRevision_def leader_state_def Let_def split: if_splits option.splits prod.splits)
  then obtain n2 x where seen: "ry_Digest seen = ry_Digest (recovery_view env (rv_commit v1) configuration ?n)"
      "ry_ConfigurationIndex seen = ry_ConfigurationIndex (recovery_view env (rv_commit v1) configuration ?n)"
      "ry_Revision seen = ry_Revision (recovery_view env (rv_commit v1) configuration ?n)"
    and ap: "raft_apply env a ?raw ?n = (Some (index, r), n2)" and ok: "res_OK r" and sr: "StrongRead env v2 v3 n2 = (Inr x, n')"
    using rec by (auto simp: ReconcileRevision_def Let_def split: if_splits option.splits prod.splits sum.splits)
  from raft_apply_Some [OF ap] obtain f' where f': "fsm_Apply ?e index ?raw (fsm_run (ne_ctl env) (ap_before a) (nd_fsm ?n)) = (r, f')" "n2 = ?n\<lparr>nd_fsm := f'\<rparr>"
    by metis
  have "bolt_ok (ce_bolt ?e)" "ce_mutation ?e ?raw = Some (recovery_command minimum)"
      "appliedIndex (ce_bolt ?e) (fsm_store (fsm_run (ne_ctl env) (ap_before a) (nd_fsm ?n))) < index"
    using bo json fresh by simp_all
  note res = fsm_Apply_OK(3) [OF this(1) f'(1) ok this(2) fresh(1) this(3)]
  have kind: "mut_Kind (recovery_command minimum) = ''ReconcileRevision''" "mut_RevisionMinimum (recovery_command minimum) = minimum"
    by (simp_all add: recovery_command_def)
  have min: "minimum \<le> store_revision ?bo (fsm_store f')" using res kind by simp
  have can: "canonical_map (ne_ctl env) f' = canonical_map (ne_ctl env) (fsm_run (ne_ctl env) (ap_before a) (nd_fsm ?n))"
    using res kind by (simp add: canonical_map_def)
  have "fsm_store f' = fsm_store (nd_fsm n2)" using f'(2) by simp
  then have "store_revision ?bo (fsm_store f') \<le> store_revision ?bo (fsm_store (nd_fsm (node_advance env v2 n2)))"
    using fsm_run_revision [OF bo, of "nd_fsm n2"] by (simp add: node_advance_def)
  also have "\<dots> \<le> store_revision ?bo (fsm_store (nd_fsm n'))"
    using fsm_run_revision [OF bo, of "nd_fsm (node_advance env v2 n2)"] StrongRead_Inr [OF sr] by (simp add: node_advance_def)
  finally have "minimum \<le> store_revision ?bo (fsm_store (nd_fsm n'))" using min by simp
  moreover have "checkRevisionFloor env n' = None" unfolding checkRevisionFloor_None by (rule conjunct1 [OF StrongRead_Inr [OF sr]])
  moreover have "canonical_map (ne_ctl env) (nd_fsm n') = canonical_map (ne_ctl env) (nd_fsm ?n)"
    if "ap_before a = []" "rv_applied v2 = []" "rv_applied v3 = []"
    using StrongRead_Inr [OF sr] can f'(2) that by (simp add: canonical_map_def node_advance_def)
  moreover have "ry_ConfigurationIndex seen = configuration" using seen(2) by (simp add: recovery_view_def Let_def)
  ultimately show ?thesis using seen(1,3) unfolding Let_def by blast
qed

text \<open>Removing a member without force leaves at least two voters.\<close>

lemma RemoveMember_keeps_voters:
  assumes "RemoveMember env v ok sid False n = Inr sid'" and "rv_config v = Some (servers, index)" and "distinct (map rs_ID servers)"
  shows "2 \<le> voters (filter (\<lambda>s. rs_ID s \<noteq> sid) servers)"
proof -
  have "length (filter (\<lambda>s. rs_ID s = sid) servers) \<le> 1"
    using assms(3) by (induction servers) (auto simp: filter_empty_conv image_iff)
  moreover have "voters servers \<le> voters (filter (\<lambda>s. rs_ID s \<noteq> sid) servers) + length (filter (\<lambda>s. rs_ID s = sid) servers)"
    by (induction servers) (auto simp: voters_def)
  moreover have "2 < voters servers" using assms(1,2) by (auto simp: RemoveMember_def Let_def split: if_splits option.splits)
  ultimately show ?thesis by linarith
qed

text \<open>But with two voters a member that has no vote cannot be removed either.\<close>

lemma nonvoter_removal_refused:
  assumes "voters servers = 2" and "rv_config v = Some (servers, index)"
  shows "\<exists>e. RemoveMember env v ok sid False n = Inl e"
  using assms by (auto simp: RemoveMember_def Let_def split: option.split)

section \<open>Witnesses\<close>

definition ex_touch :: mutation where
  "ex_touch = \<lparr>mut_Version = 1, mut_ID = ''m2'', mut_Kind = ''Touch'', mut_IssuedAt = 0, mut_Operations = [], mut_RevisionMinimum = 0\<rparr>"

definition ex_node_env :: "mutation \<Rightarrow> (string \<times> byte list) list node_env" where
  "ex_node_env m = \<lparr>ne_ctl = ex_env\<lparr>ce_mutation := (\<lambda>_. Some m)\<rparr>, ne_encode_mutation = (\<lambda>_. []), ne_cluster_id = (\<lambda>_. Some ''c1''), ne_gateway = (\<lambda>_. None), ne_SnapshotVersionMax = 1\<rparr>"

definition ex_node_config :: node_config where
  "ex_node_config = \<lparr>nc_NodeID = ''n1'', nc_RaftBindAddress = ''n1:1'', nc_RaftAddress = ''n1:1'', nc_StateRoot = ''/var/lib/bpc'', nc_Bootstrap = False,
     nc_SnapshotRetain = 3, nc_SnapshotThreshold = 64, nc_SnapshotInterval = 30 * second, nc_HeartbeatTimeout = 0, nc_ElectionTimeout = 0,
     nc_LeaderLeaseTimeout = 0, nc_ClusterID = ''c1''\<rparr>"

definition ex_raft_config :: raft_config where
  "ex_raft_config = \<lparr>rc_LocalID = [], rc_SnapshotThreshold = 0, rc_SnapshotInterval = 0, rc_HeartbeatTimeout = second, rc_ElectionTimeout = second,
     rc_LeaderLeaseTimeout = second, rc_ShutdownOnRemove = False\<rparr>"

definition ex_old_store :: "(string \<times> byte list) list store" where
  "ex_old_store = \<lparr>st_logs = [], st_stable = [], st_canonical = [], st_meta = [(keyRevision, u64key 7)]\<rparr>"

definition ex_start_env :: "(string \<times> byte list) list start_env" where
  "ex_start_env = \<lparr>se_defaults = ex_raft_config, se_valid = (\<lambda>_. True), se_datadir = True, se_open_commit = True,
     se_file = Some (\<lambda>n. Some (if n = ''canonical_meta'' then [(keyRevision, u64key 7)] else [])), se_snapshots = Some 1, se_replay_commit = True,
     se_transport = True, se_existing = Some False, se_raft = True, se_bootstrap = True, se_files = []\<rparr>"

definition ex_view :: raft_view where
  "ex_view = \<lparr>rv_applied = [], rv_leader = True, rv_leader_id = ''n1'', rv_leader_address = ''n1:1'', rv_barrier = True, rv_commit = 1, rv_appliedIndex = 1,
     rv_lastIndex = 1, rv_config = Some ([], 5), rv_stats = (\<lambda>_. ''0'')\<rparr>"

definition ex_future :: apply_future where
  "ex_future = \<lparr>ap_before = [], ap_index = Some 1, ap_failed = False, ap_commit_ok = True, ap_io_fail = (\<lambda>_ _. False)\<rparr>"

definition ex_node :: "(string \<times> byte list) list node" where
  "ex_node = \<lparr>nd_config = ex_node_config, nd_fsm = \<lparr>fsm_store = ex_old_store\<lparr>st_meta := [(keyRevision, u64key 7), (keyRevisionFloor, u64key 7)]\<rparr>,
     fsm_root = path_Clean ''/var/lib/bpc'', fsm_files = []\<rparr>, nd_floor = 7\<rparr>"

lemma ex_node_bolt: "ce_bolt (ne_ctl (ex_node_env m)) = alist_bolt" "ce_mutation (ne_ctl (ex_node_env m)) d = Some m"
  by (simp_all add: ex_node_env_def ex_env_def)

lemma ex_decode: "decodeU64 (Some (u64key 7)) = 7" "decodeU64 (Some (u64key 9)) = 9"
  by (simp_all add: decodeU64_def u64key_def be_decode_encode)

lemma ex_opened: "OpenStore alist_bolt True (se_file ex_start_env) = Inr ex_old_store"
  by (simp add: OpenStore_def openStore_def bucket_names_def ex_start_env_def ex_old_store_def)

lemma ex_node_started: "NewNode (ex_node_env m) ex_start_env ex_node_config = Inr ex_node"
proof -
  have t: "trim_space ''n1'' = ''n1''" "trim_space ''n1:1'' = ''n1:1''"
    by (rule trim_space_plain; simp add: space_bytes_def space_seqs_def)+
  have d: "node_defaults ex_node_config = ex_node_config" by (simp add: node_defaults_def ex_node_config_def t)
  have p: "prepareReplay alist_bolt True True ex_old_store = (Inr 7, ex_old_store\<lparr>st_meta := [(keyRevision, u64key 7), (keyRevisionFloor, u64key 7)]\<rparr>)"
    by (simp add: prepareReplay_def Let_def db_update_def alist_bolt_def ex_old_store_def meta_keys ex_decode decodeU64_def [of None])
  obtain rc where rc: "raftRuntimeConfig (se_defaults ex_start_env) (se_valid ex_start_env) ex_node_config = Inr rc"
    by (simp add: raftRuntimeConfig_def ex_start_env_def)
  have o: "OpenStore alist_bolt (se_open_commit ex_start_env) (se_file ex_start_env) = Inr ex_old_store"
    using ex_opened by (simp add: ex_start_env_def)
  have f: "se_datadir ex_start_env" "se_snapshots ex_start_env = Some 1" "se_replay_commit ex_start_env" "se_transport ex_start_env"
      "se_existing ex_start_env = Some False" "se_raft ex_start_env" "se_files ex_start_env = []" "se_bootstrap ex_start_env"
    by (simp_all add: ex_start_env_def)
  show ?thesis
    by (simp add: NewNode_def Let_def t d rc o f p ex_node_bolt NewStateMachine_def)
      (simp add: ex_node_config_def ex_node_def t)
qed

lemma ex_applied_at:
  assumes m: "check_command m = None" "mut_Operations m = []" and f: "fsm_files f = []" and s: "appliedIndex alist_bolt (fsm_store f) = 0"
    "store_revision alist_bolt (fsm_store f) = 7" "st_canonical (fsm_store f) = []"
  shows "\<exists>r f'. fsm_Apply ((ne_ctl (ex_node_env m))\<lparr>ce_commit_ok := True, ce_io_fail := (\<lambda>_ _. False)\<rparr>) 1 [] f = (r, f') \<and> res_OK r \<and>
    st_canonical (fsm_store f') = [] \<and> fsm_files f' = [] \<and> schemaVersion alist_bolt (fsm_store f') = 1"
proof -
  have p: "b_put alist_bolt b key v = Some (AList.update key v b)" for b key v by (simp add: alist_bolt_def)
  have r: "resultingPrefixRecords alist_bolt [] pre [] = []" for pre by (simp add: resultingPrefixRecords_def alist_bolt_def)
  have g: "b_get alist_bolt b = map_of b" for b by (simp add: alist_bolt_def)
  have one: "decodeU64 (Some (u64key 1)) = 1" by (simp add: decodeU64_def u64key_def be_decode_encode del: unat_1)
  let ?e = "(ne_ctl (ex_node_env m))\<lparr>ce_commit_ok := True, ce_io_fail := (\<lambda>_ _. False)\<rparr>"
  have e: "ce_bolt ?e = alist_bolt" "ce_mutation ?e [] = Some m" "ce_commit_ok ?e" by (simp_all add: ex_node_bolt)
  have n: "validateRouteOwnershipInvariant ?e [] [] = None"
    by (simp add: validateRouteOwnershipInvariant_def e r)
  have "\<exists>rev s'. apply_tx ?e m [] 1 (fsm_store f) = Inr (Applied rev, s') \<and> st_canonical s' = [] \<and> schemaVersion alist_bolt s' = 1"
    using n s by (simp add: apply_tx_def Let_def e p schemaVersion_def g ControlSchemaVersion_def one)
  then show ?thesis
    using f by (auto simp: fsm_Apply_def ex_node_bolt m finish_apply_def ok_result_def)
qed

lemma ex_applied:
  assumes "m \<in> {ex_touch, recovery_command 9}"
  shows "\<exists>r f'. fsm_Apply ((ne_ctl (ex_node_env m))\<lparr>ce_commit_ok := True, ce_io_fail := (\<lambda>_ _. False)\<rparr>) 1 [] (nd_fsm ex_node) = (r, f') \<and> res_OK r \<and>
    st_canonical (fsm_store f') = [] \<and> fsm_files f' = []"
proof -
  have k: "b_get alist_bolt b key = map_of b key" for b key by (simp add: alist_bolt_def)
  have "check_command m = None" "mut_Operations m = []"
    using assms by (auto simp: check_command_def ex_touch_def recovery_command_def CommandVersion_def)
  moreover have "fsm_store (nd_fsm ex_node) = ex_old_store\<lparr>st_meta := [(keyRevision, u64key 7), (keyRevisionFloor, u64key 7)]\<rparr>" "fsm_files (nd_fsm ex_node) = []"
    by (simp_all add: ex_node_def)
  ultimately show ?thesis
    using ex_applied_at [of m "nd_fsm ex_node"]
    by (simp add: appliedIndex_def store_revision_def k meta_keys ex_decode decodeU64_def [of None] ex_old_store_def) blast
qed


theorem below_floor_fails_closed_witness:
  "\<exists>e. fst (Submit (ex_node_env ex_touch) ex_view ex_future ex_touch (ex_node\<lparr>nd_floor := 8\<rparr>)) = Inl e"
proof -
  have "store_revision (ce_bolt (ne_ctl (ex_node_env ex_touch))) (fsm_store (nd_fsm (ex_node\<lparr>nd_floor := 8\<rparr>))) < nd_floor (ex_node\<lparr>nd_floor := 8\<rparr>)"
    by (simp add: ex_node_bolt ex_node_def store_revision_def alist_bolt_def meta_keys ex_decode ex_old_store_def)
  moreover have "rv_applied ex_view = []" by (simp add: ex_view_def)
  ultimately show ?thesis using below_floor_fails_closed [of "ex_node_env ex_touch" "ex_node\<lparr>nd_floor := 8\<rparr>" ex_view ex_view ex_future ex_touch] by blast
qed

theorem reconcile_raises_only_witness:
  "\<exists>seen index r n'. ReconcileRevision (ex_node_env (recovery_command 9)) ex_view ex_view ex_view ex_future ex_view ex_view seen 9 ex_node = (Inr (index, r), n') \<and>
     9 \<le> store_revision alist_bolt (fsm_store (nd_fsm n'))"
proof -
  let ?env = "ex_node_env (recovery_command 9)" and ?seen = "recovery_view (ex_node_env (recovery_command 9)) 1 5 ex_node"
  have v: "rv_applied ex_view = []" "rv_leader ex_view" "rv_barrier ex_view" "rv_config ex_view = Some ([], 5)" "rv_commit ex_view = 1"
    by (simp_all add: ex_view_def)
  have adv: "node_advance ?env ex_view n = n" for n by (simp add: node_advance_def v)
  have rev: "store_revision alist_bolt (fsm_store (nd_fsm ex_node)) = 7" "appliedIndex alist_bolt (fsm_store (nd_fsm ex_node)) = 0"
      "revisionFloor alist_bolt (fsm_store (nd_fsm ex_node)) = 7" "st_canonical (fsm_store (nd_fsm ex_node)) = []"
    by (simp_all add: ex_node_def appliedIndex_def store_revision_def revisionFloor_def alist_bolt_def meta_keys ex_decode decodeU64_def [of None] ex_old_store_def)
  have ls: "leader_state ?env ex_view ex_view ex_node = (Inr ?seen, ex_node)" by (simp add: leader_state_def Let_def adv v IsLeader_def)
  have fl: "ry_Floor ?seen = 7" "ry_Revision ?seen = 7" by (simp_all add: recovery_view_def Let_def ex_node_bolt rev)
  obtain r f' where ap: "fsm_Apply ((ne_ctl ?env)\<lparr>ce_commit_ok := True, ce_io_fail := (\<lambda>_ _. False)\<rparr>) 1 [] (nd_fsm ex_node) = (r, f')" "res_OK r"
      and can: "st_canonical (fsm_store f') = []" "fsm_files f' = []"
    using ex_applied [of "recovery_command 9"] by auto
  have ra: "raft_apply ?env ex_future (ne_encode_mutation ?env (recovery_command 9)) ex_node = (Some (1, r), ex_node\<lparr>nd_fsm := f'\<rparr>)"
    using ap(1) by (simp add: raft_apply_def ex_future_def ex_node_env_def)
  have ff: "\<not> ap_failed ex_future" by (simp add: ex_future_def)
  have bo: "bolt_ok (ce_bolt (ne_ctl ?env))" using alist_bolt_ok by (simp add: ex_node_bolt)
  have fresh: "appliedIndex (ce_bolt (ne_ctl ?env)) (fsm_store (fsm_run (ne_ctl ?env) (ap_before ex_future)
      (nd_fsm (node_advance ?env ex_view (node_advance ?env ex_view (node_advance ?env ex_view ex_node)))))) < 1"
    by (simp add: adv ex_node_bolt rev ex_future_def)
  have "store_revision alist_bolt (fsm_store f') = 9"
    using fsm_Apply_OK(3) [OF _ ap(1) ap(2), of "recovery_command 9"] bo rev
    by (simp add: ex_node_bolt recovery_command_def max_def)
  then have fl': "checkRevisionFloor ?env (ex_node\<lparr>nd_fsm := f'\<rparr>) = None"
    unfolding checkRevisionFloor_None by (simp add: ex_node_bolt ex_node_def)
  have "canonicalEntries alist_bolt (fsm_store f') = []" by (simp add: canonicalEntries_def can alist_bolt_def)
  moreover have "ce_io_fail (ne_ctl ?env) op p = False" for op p by (simp add: ex_node_env_def ex_env_def)
  ultimately obtain f'' where "ReconcileProjection (ne_ctl ?env) f' = (None, f'')"
    by (simp add: ReconcileProjection_def ex_node_bolt Let_def ScanReplicatedProjection_def can map_filter_def)
  with fl' obtain x n' where sr: "StrongRead ?env ex_view ex_view (ex_node\<lparr>nd_fsm := f'\<rparr>) = (Inr x, n')"
    by (auto simp: StrongRead_def Let_def adv v IsLeader_def node_reconcile_def)
  have "ReconcileRevision ?env ex_view ex_view ex_view ex_future ex_view ex_view ?seen 9 ex_node = (Inr (1, r), n')"
    using ap(2) by (simp add: ReconcileRevision_def Let_def adv v IsLeader_def ls fl ra sr ff)
  from reconcile_raises_only [OF bo ex_node_bolt(2) this _ fresh] this show ?thesis by (auto simp: ex_node_bolt)
qed

end
