(* ===== verification/CtlCheckpoint.thy ===== *)
theory CtlCheckpoint
  imports CtlNode CtlSnapshotProps
begin

text \<open>
  \<^verbatim>\<open>internal/controlplane/checkpoint.go\<close> and the peer check of \<^verbatim>\<open>tls.go\<close>: a Controller whose log cannot be replayed takes a Raft snapshot
  from the leader, checks it against its own identity, the certificates of the connection and the membership recorded in the snapshot itself, and
  puts it beside its database. Certificates, the JSON codecs and the outcomes of file operations are parameters; the snapshots on disk are a list,
  newest first, as \<^verbatim>\<open>List\<close> is documented to give them.
\<close>

section \<open>Peers\<close>

record certificate =
  ct_CommonName :: string
  ct_Raw :: "byte list"
  ct_URIs :: "string list"

record membership_record =
  mr_NodeID :: string
  mr_State :: string
  mr_CertificateSHA256 :: string

record tls_material =
  tm_MembershipDir :: string
  tm_ClusterID :: string

datatype peer_error =
    NoClusterIdentity | BadNodeIdentity | NoMembershipFile | BadMembershipRecord | MembershipMismatch | MembershipState string | FingerprintMismatch
  | ClusterNotBound | NoPeerCertificate

text \<open>\<open>files\<close> is what can be read, \<open>decode\<close> the JSON decoder of membership records.\<close>

definition verifyControllerMembership ::
  "'b node_env \<Rightarrow> (byte list \<Rightarrow> membership_record option) \<Rightarrow> (string \<Rightarrow> byte list option) \<Rightarrow> tls_material \<Rightarrow> certificate \<Rightarrow> peer_error option" where
  "verifyControllerMembership env decode files material cert =
     (if trim_space (tm_MembershipDir material) = [] then None
      else if trim_space (tm_ClusterID material) = [] then Some NoClusterIdentity
      else let nodeID = trim_space (ct_CommonName cert)
      in if nodeID = [] \<or> nodeID = ''.'' \<or> nodeID = ''..'' \<or> CHR ''/'' \<in> set nodeID \<or> CHR 0x5C \<in> set nodeID then Some BadNodeIdentity
      else case files (path_Join (tm_MembershipDir material) (nodeID @ ''.json'')) of
        None \<Rightarrow> Some NoMembershipFile
      | Some raw \<Rightarrow>
      case decode raw of
        None \<Rightarrow> Some BadMembershipRecord
      | Some record \<Rightarrow>
      if mr_NodeID record \<noteq> nodeID then Some MembershipMismatch
      else if mr_State record \<noteq> ''pending'' \<and> mr_State record \<noteq> ''nonvoter'' \<and> mr_State record \<noteq> ''voter'' then Some (MembershipState (mr_State record))
      else if to_lower (trim_space (mr_CertificateSHA256 record)) \<noteq> sha256Hex (ne_ctl env) (ct_Raw cert) then Some FingerprintMismatch
      else if ''bpc://'' @ tm_ClusterID material @ ''/controller/'' @ nodeID \<notin> set (ct_URIs cert) then Some ClusterNotBound
      else None)"

definition verifyPeer ::
  "'b node_env \<Rightarrow> (byte list \<Rightarrow> membership_record option) \<Rightarrow> (string \<Rightarrow> byte list option) \<Rightarrow> tls_material \<Rightarrow> certificate list \<Rightarrow> peer_error option" where
  "verifyPeer env decode files material certs =
     (case certs of [] \<Rightarrow> Some NoPeerCertificate | cert # _ \<Rightarrow> verifyControllerMembership env decode files material cert)"

text \<open>A peer is accepted exactly when its certificate is the one of the membership record that its name leads to, in an admitted state, and is bound to
  this cluster; the record is a file right below the membership directory.\<close>

lemma verifyPeer_iff:
  assumes "trim_space (tm_MembershipDir material) \<noteq> []"
  shows "verifyPeer env decode files material certs = None \<longleftrightarrow>
    trim_space (tm_ClusterID material) \<noteq> [] \<and>
    (\<exists>cert rest raw m. certs = cert # rest \<and> (let nodeID = trim_space (ct_CommonName cert) in
       nodeID \<notin> {[], ''.'', ''..''} \<and> set nodeID \<inter> {CHR ''/'', CHR 0x5C} = {} \<and>
       files (path_Join (tm_MembershipDir material) (nodeID @ ''.json'')) = Some raw \<and> decode raw = Some m \<and> mr_NodeID m = nodeID \<and>
       mr_State m \<in> {''pending'', ''nonvoter'', ''voter''} \<and>
       to_lower (trim_space (mr_CertificateSHA256 m)) = sha256Hex (ne_ctl env) (ct_Raw cert) \<and>
       ''bpc://'' @ tm_ClusterID material @ ''/controller/'' @ nodeID \<in> set (ct_URIs cert)))"
  using assms
  by (cases certs) (auto simp: verifyPeer_def verifyControllerMembership_def Let_def split: option.split)

section \<open>Checkpoints\<close>

definition maxCheckpointBytes :: nat where "maxCheckpointBytes = 192 * 1024 * 1024"
definition maxCheckpointStateBytes :: nat where "maxCheckpointStateBytes = 128 * 1024 * 1024"

record replay_checkpoint =
  ck_Version :: int
  ck_ClusterID :: string
  ck_SourceNodeID :: string
  ck_Meta :: snapshot_meta
  ck_State :: "byte list"
  ck_SHA256 :: string

record 'b ck_env =
  ck_node :: "'b node_env"
  ck_marshal :: "replay_checkpoint \<Rightarrow> byte list"
  ck_unmarshal :: "byte list \<Rightarrow> replay_checkpoint option"
  ck_member :: "byte list \<Rightarrow> membership_record option"

datatype checkpoint_error =
    NodeFailed node_error | NothingAvailable | OpenSnapshotFailed | SnapshotTooLarge
  | IdentityMismatch | ChecksumOrSize | BadMetadata | ClusterMismatch | BadEncoding | BadCanonicalPath string | BadConfiguration
  | AddressMismatch | NotIncluded | CertificateIdentity | RecordUnavailable | NotAuthorized | SourceNotVoter
  | BadSource | IncompleteIdentity | NoDatabase | OpenDatabase store_error | BadTLS | NotReachable | HttpStatus int | NoTLSIdentity | TooLarge | BadResponse | PeerMismatch
  | LocalCluster | CheckpointIO | NotNewer | ReplayPrepare store_error

definition checkpointChecksum :: "'b ck_env \<Rightarrow> replay_checkpoint \<Rightarrow> string" where
  "checkpointChecksum env ck = hex_encode (ce_sha256 (ne_ctl (ck_node env)) (ck_marshal env (ck\<lparr>ck_SHA256 := []\<rparr>)))"

text \<open>Exporting: \<open>taken\<close> says that Raft took a snapshot or had nothing new to take, \<open>available\<close> what can be opened, newest first (none when the listing
  fails), \<open>v'\<close> the view at the end.\<close>

definition ExportReplayCheckpoint ::
  "'b ck_env \<Rightarrow> raft_view \<Rightarrow> raft_view \<Rightarrow> bool \<Rightarrow> (snapshot_meta \<times> byte list) option list option \<Rightarrow> raft_view \<Rightarrow> 'b node \<Rightarrow>
   (checkpoint_error + replay_checkpoint) \<times> 'b node" where
  "ExportReplayCheckpoint env v0 v taken available v' n0 =
     (case StrongRead (ck_node env) v0 v n0 of
        (Inl e, n) \<Rightarrow> (Inl (NodeFailed e), n)
      | (Inr _, n) \<Rightarrow>
      case node_Snapshot (ck_node env) taken n of
        Some e \<Rightarrow> (Inl (NodeFailed e), n)
      | None \<Rightarrow>
      case available of
        None \<Rightarrow> (Inl OpenSnapshotFailed, n)
      | Some [] \<Rightarrow> (Inl NothingAvailable, n)
      | Some (None # _) \<Rightarrow> (Inl OpenSnapshotFailed, n)
      | Some (Some (meta, state) # _) \<Rightarrow>
          if maxCheckpointStateBytes < length state then (Inl SnapshotTooLarge, n)
          else (case SnapshotClusterID (ck_node env) state of
                  Inl e \<Rightarrow> (Inl (NodeFailed e), n)
                | Inr clusterID \<Rightarrow>
                    if \<not> IsLeader v' then (Inl (NodeFailed ErrNotLeader), n)
                    else let ck = \<lparr>ck_Version = 1, ck_ClusterID = clusterID, ck_SourceNodeID = nc_NodeID (nd_config n), ck_Meta = meta,
                                   ck_State = state, ck_SHA256 = []\<rparr>
                         in (Inr (ck\<lparr>ck_SHA256 := checkpointChecksum env ck\<rparr>), n)))"

section \<open>Validation\<close>

text \<open>The servers of the configuration: the identifiers seen, whether the recipient and a voting source were found.\<close>

fun check_servers ::
  "node_config \<Rightarrow> string \<Rightarrow> raft_server list \<Rightarrow> string list \<Rightarrow> bool \<Rightarrow> bool \<Rightarrow> checkpoint_error + bool \<times> bool" where
  "check_servers cfg source [] seen recipientFound sourceFound = Inr (recipientFound, sourceFound)"
| "check_servers cfg source (m # ms) seen recipientFound sourceFound =
     (if rs_ID m = [] \<or> rs_Address m = [] \<or> rs_ID m \<in> set seen \<or> (rs_Suffrage m \<noteq> Voter \<and> rs_Suffrage m \<noteq> Nonvoter) then Inl BadConfiguration
      else if rs_ID m = nc_NodeID cfg \<and> rs_Address m \<noteq> nc_RaftAddress cfg then Inl AddressMismatch
      else check_servers cfg source ms (rs_ID m # seen) (recipientFound \<or> rs_ID m = nc_NodeID cfg)
             (sourceFound \<or> (rs_ID m = source \<and> rs_Suffrage m = Voter)))"

definition controller_path :: "string \<Rightarrow> string" where
  "controller_path nodeID = ''cluster/controllers/'' @ nodeID @ ''.json''"

definition check_certificate :: "'b ck_env \<Rightarrow> replay_checkpoint \<Rightarrow> (string \<times> byte list) list \<Rightarrow> string \<times> certificate option \<Rightarrow> checkpoint_error option" where
  "check_certificate env ck entries = (\<lambda>(nodeID, cert).
     case cert of
       None \<Rightarrow> Some CertificateIdentity
     | Some cert \<Rightarrow>
     if ct_CommonName cert \<noteq> nodeID then Some CertificateIdentity
     else case (case map_of entries (controller_path nodeID) of None \<Rightarrow> None | Some raw \<Rightarrow> ck_member env raw) of
       None \<Rightarrow> Some RecordUnavailable
     | Some record \<Rightarrow>
     if mr_NodeID record \<noteq> nodeID \<or> to_lower (mr_CertificateSHA256 record) \<noteq> sha256Hex (ne_ctl (ck_node env)) (ct_Raw cert) \<or>
        (mr_State record \<noteq> ''voter'' \<and> mr_State record \<noteq> ''nonvoter'' \<and> mr_State record \<noteq> ''pending'') then Some NotAuthorized
     else if nodeID = ck_SourceNodeID ck \<and> mr_State record \<noteq> ''voter'' then Some SourceNotVoter
     else None)"

definition validateReplayCheckpoint ::
  "'b ck_env \<Rightarrow> replay_checkpoint \<Rightarrow> node_config \<Rightarrow> certificate option \<Rightarrow> certificate option \<Rightarrow> checkpoint_error option" where
  "validateReplayCheckpoint env ck cfg recipient source =
     (let meta = ck_Meta ck in
      if ck_Version ck \<noteq> 1 \<or> ck_SourceNodeID ck = [] \<or> ck_SourceNodeID ck = nc_NodeID cfg \<or> ck_ClusterID ck \<noteq> nc_ClusterID cfg then Some IdentityMismatch
      else if maxCheckpointStateBytes < length (ck_State ck) \<or> ck_SHA256 ck \<noteq> checkpointChecksum env ck then Some ChecksumOrSize
      else if sm_Version meta \<noteq> ne_SnapshotVersionMax (ck_node env) \<or> sm_Index meta = 0 \<or> sm_Term meta = 0 \<or> sm_ConfigurationIndex meta = 0 \<or>
              sm_Index meta < sm_ConfigurationIndex meta \<or> sm_Size meta \<noteq> int (length (ck_State ck)) then Some BadMetadata
      else case SnapshotClusterID (ck_node env) (ck_State ck) of
        Inl e \<Rightarrow> Some (NodeFailed e)
      | Inr clusterID \<Rightarrow>
      if clusterID \<noteq> ck_ClusterID ck then Some ClusterMismatch
      else case ce_decode (ne_ctl (ck_node env)) (ck_State ck) of
        None \<Rightarrow> Some BadEncoding
      | Some envelope \<Rightarrow>
      case first_error (\<lambda>p. if NormalizeReplicatedPath p = Inr p then None else Some (BadCanonicalPath p)) (map fst (env_Entries envelope)) of
        Some e \<Rightarrow> Some e
      | None \<Rightarrow>
      case check_servers cfg (ck_SourceNodeID ck) (sm_Configuration meta) [] False False of
        Inl e \<Rightarrow> Some e
      | Inr (recipientFound, sourceFound) \<Rightarrow>
      if \<not> recipientFound \<or> \<not> sourceFound then Some NotIncluded
      else first_error (check_certificate env ck (env_Entries envelope)) [(nc_NodeID cfg, recipient), (ck_SourceNodeID ck, source)])"

section \<open>Installation\<close>

text \<open>What the recipient has on disk: its database, the Raft snapshots, newest first, and copies of the database.\<close>

record 'b recipient_disk =
  rd_store :: "'b store"
  rd_snapshots :: "(snapshot_meta \<times> byte list) list"
  rd_backups :: "'b store list"

datatype ck_io =
    ChmodData | OpenSnapshots | ListSnapshots | MkdirBackup | ChmodBackup | CreateBackup | WriteBackup | SyncBackup | CloseBackup
  | SyncBackupDir | SyncDataDir | CreateSink | WriteSink | CloseSink | ChmodSnapshot | ChmodState

record import_result =
  ir_SnapshotIndex :: u64
  ir_RevisionFloor :: u64

text \<open>The files: a copy of the database, the snapshot, then the floor in the database.\<close>

definition add_snapshot ::
  "'b ck_env \<Rightarrow> (ck_io \<Rightarrow> bool) \<Rightarrow> bool \<Rightarrow> replay_checkpoint \<Rightarrow> 'b recipient_disk \<Rightarrow> (checkpoint_error + import_result) \<times> 'b recipient_disk" where
  "add_snapshot env fail commit_ok ck d0 =
     (if fail MkdirBackup \<or> fail ChmodBackup \<or> fail CreateBackup \<or> fail WriteBackup \<or> fail SyncBackup \<or> fail CloseBackup then (Inl CheckpointIO, d0)
      else let d = d0\<lparr>rd_backups := rd_store d0 # rd_backups d0\<rparr> in
      if fail SyncBackupDir \<or> fail SyncDataDir \<or> fail CreateSink \<or> fail WriteSink \<or> fail CloseSink then (Inl CheckpointIO, d)
      else let d = d\<lparr>rd_snapshots := (ck_Meta ck, ck_State ck) # rd_snapshots d\<rparr> in
      if fail ChmodSnapshot \<or> fail ChmodState then (Inl CheckpointIO, d)
      else case prepareReplay (ce_bolt (ne_ctl (ck_node env))) commit_ok True (rd_store d) of
             (Inl e, s) \<Rightarrow> (Inl (ReplayPrepare e), d\<lparr>rd_store := s\<rparr>)
           | (Inr floor, s) \<Rightarrow> (Inr \<lparr>ir_SnapshotIndex = sm_Index (ck_Meta ck), ir_RevisionFloor = floor\<rparr>, d\<lparr>rd_store := s\<rparr>))"

definition local_cluster :: "'b ck_env \<Rightarrow> 'b store \<Rightarrow> string option" where
  "local_cluster env s =
     (case canonicalGet (ce_bolt (ne_ctl (ck_node env))) s ''cluster/cluster.json'' of None \<Rightarrow> None | Some raw \<Rightarrow> ne_cluster_id (ck_node env) raw)"

definition installReplayCheckpoint ::
  "'b ck_env \<Rightarrow> (ck_io \<Rightarrow> bool) \<Rightarrow> bool \<Rightarrow> node_config \<Rightarrow> replay_checkpoint \<Rightarrow> certificate option \<Rightarrow> certificate option \<Rightarrow> 'b recipient_disk \<Rightarrow>
   (checkpoint_error + import_result) \<times> 'b recipient_disk" where
  "installReplayCheckpoint env fail commit_ok cfg ck recipient source d =
     (case validateReplayCheckpoint env ck cfg recipient source of
        Some e \<Rightarrow> (Inl e, d)
      | None \<Rightarrow>
      if local_cluster env (rd_store d) \<noteq> Some (ck_ClusterID ck) then (Inl LocalCluster, d)
      else if fail ChmodData \<or> fail OpenSnapshots \<or> fail ListSnapshots then (Inl CheckpointIO, d)
      else if rd_snapshots d \<noteq> [] \<and> sm_Index (ck_Meta ck) \<le> sm_Index (fst (hd (rd_snapshots d))) then (Inl NotNewer, d)
      else add_snapshot env fail commit_ok ck d)"

text \<open>Fetching it: the parsed origin (none when it does not parse), the database file, the recipient's certificate and the response, with the status, the
  certificates of the peer and the body, as far as each was obtained.\<close>

record origin =
  or_Scheme :: string
  or_Host :: string
  or_User :: bool
  or_RawQuery :: string
  or_Fragment :: string
  or_Path :: string

record response =
  re_Status :: int
  re_Peers :: "certificate list option"
  re_Body :: "byte list option"

definition ImportReplayCheckpoint ::
  "'b ck_env \<Rightarrow> (ck_io \<Rightarrow> bool) \<Rightarrow> bool \<Rightarrow> node_config \<Rightarrow> string \<Rightarrow> origin option \<Rightarrow> bool \<Rightarrow> bool \<Rightarrow> (string \<rightharpoonup> 'b) option \<Rightarrow> certificate option \<Rightarrow>
   response option \<Rightarrow> 'b recipient_disk \<Rightarrow> (checkpoint_error + import_result) \<times> 'b recipient_disk" where
  "ImportReplayCheckpoint env fail commit_ok cfg membershipDir endpoint regular open_commit db certificate response d =
     (case endpoint of
        None \<Rightarrow> (Inl BadSource, d)
      | Some u \<Rightarrow>
      if or_Scheme u \<noteq> ''https'' \<or> or_Host u = [] \<or> or_User u \<or> or_RawQuery u \<noteq> [] \<or> or_Fragment u \<noteq> [] \<or>
         (or_Path u \<noteq> [] \<and> or_Path u \<noteq> ''/'') then (Inl BadSource, d)
      else if nc_NodeID cfg = [] \<or> nc_RaftAddress cfg = [] \<or> nc_ClusterID cfg = [] \<or> membershipDir = [] then (Inl IncompleteIdentity, d)
      else if \<not> regular then (Inl NoDatabase, d)
      else case openStore (ce_bolt (ne_ctl (ck_node env))) open_commit False db of
        Inl e \<Rightarrow> (Inl (OpenDatabase e), d)
      | Inr store \<Rightarrow>
      case certificate of
        None \<Rightarrow> (Inl BadTLS, d)
      | Some recipient \<Rightarrow>
      case response of
        None \<Rightarrow> (Inl NotReachable, d)
      | Some r \<Rightarrow>
      if re_Status r \<noteq> 200 then (Inl (HttpStatus (re_Status r)), d)
      else case re_Peers r of
        None \<Rightarrow> (Inl NoTLSIdentity, d)
      | Some [] \<Rightarrow> (Inl NoTLSIdentity, d)
      | Some (peer # _) \<Rightarrow>
      case re_Body r of
        None \<Rightarrow> (Inl BadResponse, d)
      | Some raw \<Rightarrow>
      if maxCheckpointBytes < length raw then (Inl TooLarge, d)
      else case ck_unmarshal env raw of
        None \<Rightarrow> (Inl BadResponse, d)
      | Some ck \<Rightarrow>
      if ck_SourceNodeID ck \<noteq> ct_CommonName peer then (Inl PeerMismatch, d)
      else installReplayCheckpoint env fail commit_ok cfg ck (Some recipient) (Some peer) (d\<lparr>rd_store := store\<rparr>))"

section \<open>What an accepted checkpoint is\<close>

lemma SnapshotClusterID_Inr:
  assumes "SnapshotClusterID env raw = Inr cid"
  obtains e clusterRaw c where "ce_decode (ne_ctl env) raw = Some e" "env_Version e = 1" "env_SchemaVersion e \<le> ControlSchemaVersion"
    "snapshotChecksum (ne_ctl env) (env_SchemaVersion e) (env_Revision e) (env_Entries e) = env_Checksum e"
    "map_of (env_Entries e) ''cluster/cluster.json'' = Some clusterRaw" "ne_cluster_id env clusterRaw = Some c" "cid = trim_space c" "cid \<noteq> []"
  using assms that
  by (auto simp: SnapshotClusterID_def linorder_not_less [symmetric] split: option.splits if_splits)

lemma validate_None:
  assumes "validateReplayCheckpoint env ck cfg recipient source = None"
  obtains e where "ce_decode (ne_ctl (ck_node env)) (ck_State ck) = Some e"
    "SnapshotClusterID (ck_node env) (ck_State ck) = Inr (ck_ClusterID ck)" "length (ck_State ck) \<le> maxCheckpointStateBytes"
    "\<forall>p \<in> fst ` set (env_Entries e). NormalizeReplicatedPath p = Inr p"
    "check_certificate env ck (env_Entries e) (nc_NodeID cfg, recipient) = None"
    "check_certificate env ck (env_Entries e) (ck_SourceNodeID ck, source) = None"
    "ck_SourceNodeID ck \<noteq> nc_NodeID cfg" "ck_ClusterID ck = nc_ClusterID cfg"
    "check_servers cfg (ck_SourceNodeID ck) (sm_Configuration (ck_Meta ck)) [] False False = Inr (True, True)"
    "sm_Index (ck_Meta ck) \<noteq> 0" "sm_ConfigurationIndex (ck_Meta ck) \<le> sm_Index (ck_Meta ck)"
  using assms that
  by (auto simp: validateReplayCheckpoint_def Let_def linorder_not_less [symmetric] split: option.splits if_splits sum.splits prod.splits)

lemma check_servers_found:
  "check_servers cfg source ms seen a b = Inr (x, y) \<Longrightarrow>
     (x \<longleftrightarrow> a \<or> (\<exists>m \<in> set ms. rs_ID m = nc_NodeID cfg \<and> rs_Address m = nc_RaftAddress cfg)) \<and>
     (y \<longleftrightarrow> b \<or> (\<exists>m \<in> set ms. rs_ID m = source \<and> rs_Suffrage m = Voter)) \<and> distinct (map rs_ID ms) \<and> set seen \<inter> rs_ID ` set ms = {}"
proof (induction ms arbitrary: seen a b)
  case (Cons m ms)
  have rest: "check_servers cfg source ms (rs_ID m # seen) (a \<or> rs_ID m = nc_NodeID cfg) (b \<or> (rs_ID m = source \<and> rs_Suffrage m = Voter)) = Inr (x, y)"
    and m: "rs_ID m \<notin> set seen" "rs_ID m = nc_NodeID cfg \<longrightarrow> rs_Address m = nc_RaftAddress cfg"
    using Cons.prems by (simp_all split: if_splits)
  from Cons.IH [OF rest] m show ?case by auto
qed simp

lemma check_certificate_None:
  assumes "check_certificate env ck entries (nodeID, cert) = None"
  obtains c raw m where "cert = Some c" "ct_CommonName c = nodeID" "map_of entries (controller_path nodeID) = Some raw" "ck_member env raw = Some m"
    "mr_NodeID m = nodeID" "to_lower (mr_CertificateSHA256 m) = sha256Hex (ne_ctl (ck_node env)) (ct_Raw c)"
    "nodeID = ck_SourceNodeID ck \<Longrightarrow> mr_State m = ''voter''"
  using assms that by (auto simp: check_certificate_def split: option.splits if_splits)

lemma snapshotChecksum_env [simp]:
  "snapshotChecksum (env\<lparr>ce_commit_ok := c, ce_io_fail := io\<rparr>) schema revision entries = snapshotChecksum env schema revision entries"
  by (simp add: snapshotChecksum_def sha256Hex_def)


lemma prepareReplay_keeps:
  assumes bo: "bolt_ok bo" and p: "prepareReplay bo c snaps s = (r, s')"
  shows "st_canonical s' = st_canonical s \<and> st_logs s' = st_logs s \<and> st_stable s' = st_stable s \<and> store_revision bo s' = store_revision bo s \<and>
    (\<forall>floor. r = Inr floor \<longrightarrow> floor = max (revisionFloor bo s) (store_revision bo s) \<and> revisionFloor bo s' = floor)"
  using replay_floor [OF bo p] by (cases r) auto

lemma add_snapshot_cases:
  assumes "add_snapshot env fail c ck d = (r, d')"
  obtains (kept) "rd_snapshots d' = rd_snapshots d" "rd_store d' = rd_store d" "\<exists>e. r = Inl e"
  | (failed) "rd_snapshots d' = (ck_Meta ck, ck_State ck) # rd_snapshots d" "rd_backups d' = rd_store d # rd_backups d" "rd_store d' = rd_store d" "\<exists>e. r = Inl e"
  | (added) x where "rd_snapshots d' = (ck_Meta ck, ck_State ck) # rd_snapshots d" "rd_backups d' = rd_store d # rd_backups d"
      "prepareReplay (ce_bolt (ne_ctl (ck_node env))) c True (rd_store d) = (x, rd_store d')"
      "\<And>res. r = Inr res \<Longrightarrow> ir_SnapshotIndex res = sm_Index (ck_Meta ck) \<and> x = Inr (ir_RevisionFloor res)"
proof (cases "fail MkdirBackup \<or> fail ChmodBackup \<or> fail CreateBackup \<or> fail WriteBackup \<or> fail SyncBackup \<or> fail CloseBackup")
  case True
  then show ?thesis using assms kept by (auto simp: add_snapshot_def)
next
  case a: False
  let ?d = "d\<lparr>rd_backups := rd_store d # rd_backups d\<rparr>"
  let ?d' = "?d\<lparr>rd_snapshots := (ck_Meta ck, ck_State ck) # rd_snapshots d\<rparr>"
  show ?thesis
  proof (cases "fail SyncBackupDir \<or> fail SyncDataDir \<or> fail CreateSink \<or> fail WriteSink \<or> fail CloseSink")
    case True
    then have "(r, d') = (Inl CheckpointIO, ?d)" using assms a by (simp add: add_snapshot_def Let_def)
    then show ?thesis using kept by simp
  next
    case b: False
    show ?thesis
    proof (cases "fail ChmodSnapshot \<or> fail ChmodState")
      case True
      then have "(r, d') = (Inl CheckpointIO, ?d')" using assms a b by (simp add: add_snapshot_def Let_def)
      then show ?thesis using failed by simp
    next
      case False
      obtain x s where p: "prepareReplay (ce_bolt (ne_ctl (ck_node env))) c True (rd_store d) = (x, s)" by fastforce
      have "d' = ?d'\<lparr>rd_store := s\<rparr>" "r = (case x of Inl e \<Rightarrow> Inl (ReplayPrepare e) | Inr floor \<Rightarrow> Inr \<lparr>ir_SnapshotIndex = sm_Index (ck_Meta ck), ir_RevisionFloor = floor\<rparr>)"
        using assms a b False p by (auto simp: add_snapshot_def Let_def split: sum.splits)
      then show ?thesis using added [of x] p by (cases x) auto
    qed
  qed
qed

text \<open>C19. Installing a checkpoint loses nothing and trusts nobody but a voter. In every outcome the canonical state, the log, the stable
  store and the revision of the database are as before, and every snapshot is kept. A snapshot is added only if it is newer than those on disk, belongs to the
  cluster of this Controller's own database, and comes from another member that the snapshot itself records as a voter with the
  certificate that authenticated the connection, while this Controller's certificate is recorded as well; the database
  was copied before. On success the floor is raised at least to the revision of the database.\<close>

theorem checkpoint_install_safe:
  assumes bo: "bolt_ok (ce_bolt (ne_ctl (ck_node env)))" and inst: "installReplayCheckpoint env fail c cfg ck (Some mine) (Some peer) d = (r, d')"
  shows "st_canonical (rd_store d') = st_canonical (rd_store d) \<and> st_logs (rd_store d') = st_logs (rd_store d) \<and> st_stable (rd_store d') = st_stable (rd_store d) \<and>
    store_revision (ce_bolt (ne_ctl (ck_node env))) (rd_store d') = store_revision (ce_bolt (ne_ctl (ck_node env))) (rd_store d) \<and>
    (rd_snapshots d' = rd_snapshots d \<or> rd_snapshots d' = (ck_Meta ck, ck_State ck) # rd_snapshots d) \<and>
    (rd_snapshots d' \<noteq> rd_snapshots d \<longrightarrow>
      (rd_snapshots d = [] \<or> sm_Index (fst (hd (rd_snapshots d))) < sm_Index (ck_Meta ck)) \<and> rd_backups d' = rd_store d # rd_backups d \<and>
      (\<exists>raw. b_get (ce_bolt (ne_ctl (ck_node env))) (st_canonical (rd_store d)) ''cluster/cluster.json'' = Some raw \<and>
         ne_cluster_id (ck_node env) raw = Some (nc_ClusterID cfg)) \<and>
      (\<exists>e sourceRaw s ownRaw own. ce_decode (ne_ctl (ck_node env)) (ck_State ck) = Some e \<and> ct_CommonName peer = ck_SourceNodeID ck \<and>
         ck_SourceNodeID ck \<noteq> nc_NodeID cfg \<and> map_of (env_Entries e) (controller_path (ct_CommonName peer)) = Some sourceRaw \<and>
         ck_member env sourceRaw = Some s \<and> mr_State s = ''voter'' \<and> to_lower (mr_CertificateSHA256 s) = sha256Hex (ne_ctl (ck_node env)) (ct_Raw peer) \<and>
         (\<exists>m \<in> set (sm_Configuration (ck_Meta ck)). rs_ID m = ct_CommonName peer \<and> rs_Suffrage m = Voter) \<and>
         map_of (env_Entries e) (controller_path (nc_NodeID cfg)) = Some ownRaw \<and> ck_member env ownRaw = Some own \<and>
         to_lower (mr_CertificateSHA256 own) = sha256Hex (ne_ctl (ck_node env)) (ct_Raw mine))) \<and>
    (\<forall>res. r = Inr res \<longrightarrow> rd_snapshots d' \<noteq> rd_snapshots d \<and> ir_SnapshotIndex res = sm_Index (ck_Meta ck) \<and>
      ir_RevisionFloor res = revisionFloor (ce_bolt (ne_ctl (ck_node env))) (rd_store d') \<and>
      store_revision (ce_bolt (ne_ctl (ck_node env))) (rd_store d) \<le> ir_RevisionFloor res)"
proof (cases "rd_snapshots d' = rd_snapshots d \<and> rd_store d' = rd_store d \<and> (\<exists>e. r = Inl e)")
  case True
  then show ?thesis by auto
next
  case False
  let ?bo = "ce_bolt (ne_ctl (ck_node env))"
  have valid: "validateReplayCheckpoint env ck cfg (Some mine) (Some peer) = None" and loc: "local_cluster env (rd_store d) = Some (ck_ClusterID ck)"
    and newer: "rd_snapshots d = [] \<or> sm_Index (fst (hd (rd_snapshots d))) < sm_Index (ck_Meta ck)"
    and add: "add_snapshot env fail c ck d = (r, d')"
    using inst False by (auto simp: installReplayCheckpoint_def linorder_not_less [symmetric] split: option.splits if_splits)
  obtain e where e: "ce_decode (ne_ctl (ck_node env)) (ck_State ck) = Some e" "check_certificate env ck (env_Entries e) (nc_NodeID cfg, Some mine) = None"
      "check_certificate env ck (env_Entries e) (ck_SourceNodeID ck, Some peer) = None" "ck_SourceNodeID ck \<noteq> nc_NodeID cfg" "ck_ClusterID ck = nc_ClusterID cfg"
      "check_servers cfg (ck_SourceNodeID ck) (sm_Configuration (ck_Meta ck)) [] False False = Inr (True, True)"
    by (rule validate_None [OF valid])
  obtain ownRaw own where own: "map_of (env_Entries e) (controller_path (nc_NodeID cfg)) = Some ownRaw" "ck_member env ownRaw = Some own"
      "to_lower (mr_CertificateSHA256 own) = sha256Hex (ne_ctl (ck_node env)) (ct_Raw mine)"
    by (rule check_certificate_None [OF e(2)]) auto
  obtain sourceRaw m where src: "ct_CommonName peer = ck_SourceNodeID ck" "map_of (env_Entries e) (controller_path (ck_SourceNodeID ck)) = Some sourceRaw"
      "ck_member env sourceRaw = Some m" "to_lower (mr_CertificateSHA256 m) = sha256Hex (ne_ctl (ck_node env)) (ct_Raw peer)" "mr_State m = ''voter''"
    by (rule check_certificate_None [OF e(3)]) auto
  have voter: "\<exists>m \<in> set (sm_Configuration (ck_Meta ck)). rs_ID m = ct_CommonName peer \<and> rs_Suffrage m = Voter"
    using check_servers_found [OF e(6)] src(1) by simp
  obtain raw where raw: "b_get ?bo (st_canonical (rd_store d)) ''cluster/cluster.json'' = Some raw" "ne_cluster_id (ck_node env) raw = Some (nc_ClusterID cfg)"
    using loc e(5) by (auto simp: local_cluster_def canonicalGet_def split: option.splits)
  have snap: "rd_snapshots d' = (ck_Meta ck, ck_State ck) # rd_snapshots d" "rd_backups d' = rd_store d # rd_backups d"
    using add False by (auto elim: add_snapshot_cases)
  have store: "st_canonical (rd_store d') = st_canonical (rd_store d) \<and> st_logs (rd_store d') = st_logs (rd_store d) \<and>
      st_stable (rd_store d') = st_stable (rd_store d) \<and> store_revision ?bo (rd_store d') = store_revision ?bo (rd_store d)"
    using add prepareReplay_keeps [OF bo] by (auto elim!: add_snapshot_cases)
  have res: "\<forall>res. r = Inr res \<longrightarrow> rd_snapshots d' \<noteq> rd_snapshots d \<and> ir_SnapshotIndex res = sm_Index (ck_Meta ck) \<and>
      ir_RevisionFloor res = revisionFloor ?bo (rd_store d') \<and> store_revision ?bo (rd_store d) \<le> ir_RevisionFloor res"
    using add prepareReplay_keeps [OF bo] snap(1) by (cases rule: add_snapshot_cases) (auto, metis max.cobounded2)
  show ?thesis
    by (intro conjI impI, (use store in blast)+, use snap in blast, rule newer, rule snap(2), use raw in blast,
        use e(1,4) src own voter in metis, rule res)
qed

section \<open>Witnesses\<close>

definition ex_members :: "(string \<times> byte list) list" where
  "ex_members = [(''cluster/cluster.json'', []), (controller_path ''n1'', bytes_of ''n1''), (controller_path ''n2'', bytes_of ''n2'')]"

definition ex_envelope :: snapshot_envelope where
  "ex_envelope = \<lparr>env_Version = 1, env_SchemaVersion = 1, env_Revision = 5, env_Entries = ex_members, env_Checksum = snapshotChecksum ex_env 1 5 ex_members\<rparr>"

definition ex_ck_env :: "(string \<times> byte list) list ck_env" where
  "ex_ck_env = \<lparr>ck_node = (ex_node_env ex_touch)\<lparr>ne_ctl := ex_env\<lparr>ce_decode := (\<lambda>_. Some ex_envelope)\<rparr>\<rparr>, ck_marshal = (\<lambda>_. []), ck_unmarshal = (\<lambda>_. None),
     ck_member = (\<lambda>raw. Some \<lparr>mr_NodeID = string_of raw, mr_State = ''voter'', mr_CertificateSHA256 = sha256Hex ex_env []\<rparr>)\<rparr>"

definition ex_cert :: "string \<Rightarrow> certificate" where
  "ex_cert cn = \<lparr>ct_CommonName = cn, ct_Raw = [], ct_URIs = []\<rparr>"

definition ex_server :: "string \<Rightarrow> raft_server" where
  "ex_server n = \<lparr>rs_ID = n, rs_Address = n @ '':1'', rs_Suffrage = Voter\<rparr>"

definition ex_ck :: replay_checkpoint where
  "ex_ck = \<lparr>ck_Version = 1, ck_ClusterID = ''c1'', ck_SourceNodeID = ''n2'',
     ck_Meta = \<lparr>sm_Version = 1, sm_Index = 9, sm_Term = 2, sm_Configuration = [ex_server ''n1'', ex_server ''n2''], sm_ConfigurationIndex = 3, sm_Size = 1\<rparr>,
     ck_State = [0], ck_SHA256 = hex_encode (ce_sha256 ex_env [])\<rparr>"

lemma ex_ck_env_simps:
  "ce_bolt (ne_ctl (ck_node ex_ck_env)) = alist_bolt" "ce_decode (ne_ctl (ck_node ex_ck_env)) raw = Some ex_envelope"
  "sha256Hex (ne_ctl (ck_node ex_ck_env)) x = sha256Hex ex_env x" "ne_cluster_id (ck_node ex_ck_env) raw = Some ''c1''"
  "snapshotChecksum (ne_ctl (ck_node ex_ck_env)) schema revision es = snapshotChecksum ex_env schema revision es" "ne_SnapshotVersionMax (ck_node ex_ck_env) = 1"
  "ck_member ex_ck_env raw = Some \<lparr>mr_NodeID = string_of raw, mr_State = ''voter'', mr_CertificateSHA256 = sha256Hex ex_env []\<rparr>"
  "checkpointChecksum ex_ck_env ck = hex_encode (ce_sha256 ex_env [])"
  by (simp_all add: ex_ck_env_def ex_node_env_def ex_env_def sha256Hex_def snapshotChecksum_def checkpointChecksum_def)

lemma ex_controller_paths:
  "NormalizeReplicatedPath (controller_path ''n1'') = Inr (controller_path ''n1'')" "NormalizeReplicatedPath (controller_path ''n2'') = Inr (controller_path ''n2'')"
proof -
  have "trim_space (controller_path ''n1'') = controller_path ''n1''" "trim_space (controller_path ''n2'') = controller_path ''n2''"
    by (rule trim_space_plain; simp add: controller_path_def space_bytes_def space_seqs_def)+
  then show "NormalizeReplicatedPath (controller_path ''n1'') = Inr (controller_path ''n1'')" "NormalizeReplicatedPath (controller_path ''n2'') = Inr (controller_path ''n2'')"
    by (simp_all add: NormalizeReplicatedPath_def path_Clean_def IsAbs_def has_prefix_def trim_prefix_def replicatedExact_def replicatedPrefixes_def controller_path_def)
qed

lemma ex_fingerprint: "to_lower (sha256Hex ex_env []) = sha256Hex ex_env []"
  by (simp add: sha256Hex_def ex_env_def to_lower_def hex_encode_def hex_char_def map_concat)

lemma ex_validated: "validateReplayCheckpoint ex_ck_env ex_ck ex_node_config (Some (ex_cert ''n1'')) (Some (ex_cert ''n2'')) = None"
proof -
  have cfg: "nc_NodeID ex_node_config = ''n1''" "nc_RaftAddress ex_node_config = ''n1:1''" "nc_ClusterID ex_node_config = ''c1''" by (simp_all add: ex_node_config_def)
  have "trim_space ''c1'' = ''c1''" by (rule trim_space_plain) (simp_all add: space_bytes_def space_seqs_def)
  then have cid: "SnapshotClusterID (ck_node ex_ck_env) [0] = Inr ''c1''"
    by (simp add: SnapshotClusterID_def ex_ck_env_simps ex_envelope_def ControlSchemaVersion_def ex_members_def)
  have paths: "\<forall>p \<in> fst ` set (env_Entries ex_envelope). NormalizeReplicatedPath p = Inr p"
    using ex_controller_paths exact_canonical [of "''cluster/cluster.json''"] by (simp add: ex_envelope_def ex_members_def replicatedExact_def)
  have srv: "check_servers ex_node_config ''n2'' [ex_server ''n1'', ex_server ''n2''] [] False False = Inr (True, True)" by (simp add: ex_server_def cfg)
  have certs: "check_certificate ex_ck_env ex_ck (env_Entries ex_envelope) (''n1'', Some (ex_cert ''n1'')) = None"
      "check_certificate ex_ck_env ex_ck (env_Entries ex_envelope) (''n2'', Some (ex_cert ''n2'')) = None"
    by (simp_all add: check_certificate_def ex_cert_def ex_ck_env_simps ex_fingerprint ex_envelope_def ex_members_def controller_path_def)
  have ck: "ck_Version ex_ck = 1" "ck_ClusterID ex_ck = ''c1''" "ck_SourceNodeID ex_ck = ''n2''" "ck_State ex_ck = [0]" "ck_SHA256 ex_ck = hex_encode (ce_sha256 ex_env [])"
      "ck_Meta ex_ck = \<lparr>sm_Version = 1, sm_Index = 9, sm_Term = 2, sm_Configuration = [ex_server ''n1'', ex_server ''n2''], sm_ConfigurationIndex = 3, sm_Size = 1\<rparr>"
    by (simp_all add: ex_ck_def)
  have "first_error (\<lambda>p. if NormalizeReplicatedPath p = Inr p then None else Some (BadCanonicalPath p)) (map fst (env_Entries ex_envelope)) = None"
    using paths by simp
  then show ?thesis
    by (simp add: validateReplayCheckpoint_def Let_def ck cfg ex_ck_env_simps cid srv certs maxCheckpointStateBytes_def del: first_error_None check_servers.simps)
qed


theorem checkpoint_install_safe_witness:
  "\<exists>r d'. installReplayCheckpoint ex_ck_env (\<lambda>_. False) True ex_node_config ex_ck (Some (ex_cert ''n1'')) (Some (ex_cert ''n2''))
       \<lparr>rd_store = ex_old_store\<lparr>st_canonical := [(''cluster/cluster.json'', [])]\<rparr>, rd_snapshots = [], rd_backups = []\<rparr> = (r, d') \<and>
     st_canonical (rd_store d') = [(''cluster/cluster.json'', [])] \<and> length (rd_snapshots d') = 1"
proof -
  let ?s = "ex_old_store\<lparr>st_canonical := [(''cluster/cluster.json'', [])]\<rparr>"
  let ?d = "\<lparr>rd_store = ?s, rd_snapshots = [], rd_backups = []\<rparr>"
  obtain r d' where i: "installReplayCheckpoint ex_ck_env (\<lambda>_. False) True ex_node_config ex_ck (Some (ex_cert ''n1'')) (Some (ex_cert ''n2'')) ?d = (r, d')" by fastforce
  have "bolt_ok (ce_bolt (ne_ctl (ck_node ex_ck_env)))" using alist_bolt_ok by (simp add: ex_ck_env_simps)
  note safe = checkpoint_install_safe [OF this i]
  have "ck_ClusterID ex_ck = ''c1''" by (simp add: ex_ck_def)
  then have "local_cluster ex_ck_env ?s = Some (ck_ClusterID ex_ck)"
    by (simp add: local_cluster_def canonicalGet_def ex_ck_env_simps alist_bolt_def)
  then have "add_snapshot ex_ck_env (\<lambda>_. False) True ex_ck ?d = (r, d')"
    using i ex_validated by (simp add: installReplayCheckpoint_def)
  then have "rd_snapshots d' \<noteq> []" by (auto simp: add_snapshot_def Let_def split: prod.splits sum.splits)
  then show ?thesis using i safe by auto
qed

end
