(* ===== verification/AgentText.thy ===== *)
theory AgentText
  imports NetIP NetUDP GoPath Encoding
begin

text \<open>The parts of the Go library the Device agent reads text with: \<^verbatim>\<open>strconv.Atoi\<close>, the verb \<open>%d\<close> of \<^verbatim>\<open>fmt.Sscanf\<close>,
  \<^verbatim>\<open>net.SplitHostPort\<close>, \<^verbatim>\<open>strings.Cut\<close>, \<^verbatim>\<open>strings.Fields\<close>, \<^verbatim>\<open>bytes.LastIndex\<close> and \<^verbatim>\<open>netip.ParsePrefix\<close> for both address families.\<close>

section \<open>Numbers\<close>

definition int64_ok :: "int \<Rightarrow> bool" where
  "int64_ok n \<longleftrightarrow> - (2 ^ 63) \<le> n \<and> n < 2 ^ 63"

text \<open>A signed decimal of 64 bits: no digit, another character or a value out of range is an error.\<close>

definition ParseInt :: "string \<Rightarrow> int option" where
  "ParseInt s =
     (let neg = (s \<noteq> [] \<and> hd s = CHR ''-'');
          ds = (if s \<noteq> [] \<and> hd s \<in> {CHR ''-'', CHR ''+''} then tl s else s)
      in if ds = [] then None
         else case parse_nat_acc 0 ds of
                None \<Rightarrow> None
              | Some n \<Rightarrow> let v = (if neg then - int n else int n) in if int64_ok v then Some v else None)"

definition Atoi :: "string \<Rightarrow> int option" where
  "Atoi s = ParseInt s"

text \<open>Reading one \<open>%d\<close>: blanks but no line end are skipped, then a sign and the longest run of digits are read; what follows is left unread.\<close>

fun skip_blank :: "string \<Rightarrow> string option" where
  "skip_blank [] = Some []"
| "skip_blank (c # cs) =
     (if c = CHR 0x0A then None
      else if c = CHR 0x0D \<and> cs \<noteq> [] \<and> hd cs = CHR 0x0A then None
      else if c \<in> {CHR 0x09, CHR 0x0B, CHR 0x0C, CHR 0x0D, CHR 0x20} then skip_blank cs
      else Some (c # cs))"

definition Sscanf_d :: "string \<Rightarrow> int option" where
  "Sscanf_d s =
     (case skip_blank s of
        None \<Rightarrow> None
      | Some r \<Rightarrow>
          let sign = (if r \<noteq> [] \<and> hd r \<in> {CHR ''-'', CHR ''+''} then [hd r] else []);
              digits = takeWhile is_digit (drop (length sign) r)
          in if digits = [] then None else ParseInt (sign @ digits))"

section \<open>Cutting\<close>

definition cut_at :: "char \<Rightarrow> string \<Rightarrow> (string \<times> string) option" where
  "cut_at c s =
     (if c \<in> set s then Some (takeWhile (\<lambda>x. x \<noteq> c) s, tl (dropWhile (\<lambda>x. x \<noteq> c) s)) else None)"

text \<open>The part before and the part after the last occurrence.\<close>

definition cut_last :: "char \<Rightarrow> string \<Rightarrow> (string \<times> string) option" where
  "cut_last c s = map_option (\<lambda>(a, b). (rev b, rev a)) (cut_at c (rev s))"

definition trim_suffix :: "string \<Rightarrow> string \<Rightarrow> string" where
  "trim_suffix s p = (if has_prefix (rev s) (rev p) then take (length s - length p) s else s)"

definition has_suffix :: "string \<Rightarrow> string \<Rightarrow> bool" where
  "has_suffix s p \<longleftrightarrow> has_prefix (rev s) (rev p)"

definition trim_right_char :: "char \<Rightarrow> string \<Rightarrow> string" where
  "trim_right_char c s = rev (dropWhile (\<lambda>x. x = c) (rev s))"

text \<open>\<^verbatim>\<open>bytes.Index\<close> and \<^verbatim>\<open>bytes.LastIndex\<close> of a non-empty pattern, as the text before and after the first and the last occurrence.\<close>

fun find_first :: "'a list \<Rightarrow> 'a list \<Rightarrow> ('a list \<times> 'a list) option" where
  "find_first pat [] = None"
| "find_first pat (x # xs) =
     (if take (length pat) (x # xs) = pat then Some ([], drop (length pat) (x # xs))
      else map_option (\<lambda>(a, b). (x # a, b)) (find_first pat xs))"

fun find_last :: "'a list \<Rightarrow> 'a list \<Rightarrow> ('a list \<times> 'a list) option" where
  "find_last pat [] = None"
| "find_last pat (x # xs) =
     (case find_last pat xs of
        Some (a, b) \<Rightarrow> Some (x # a, b)
      | None \<Rightarrow> if take (length pat) (x # xs) = pat then Some ([], drop (length pat) (x # xs)) else None)"

definition index_of :: "'a list \<Rightarrow> 'a list \<Rightarrow> int" where
  "index_of pat xs = (case find_last pat xs of None \<Rightarrow> - 1 | Some (a, b) \<Rightarrow> int (length a))"

text \<open>\<^verbatim>\<open>strings.Fields\<close>: the words between runs of blanks.\<close>

fun fields_loop :: "nat \<Rightarrow> string \<Rightarrow> string \<Rightarrow> string list" where
  "fields_loop 0 word s = (if word = [] then [] else [rev word])"
| "fields_loop (Suc fuel) word s =
     (case s of
        [] \<Rightarrow> if word = [] then [] else [rev word]
      | c # cs \<Rightarrow>
          (case strip_one space_seqs s of
             Some r \<Rightarrow> (if word = [] then fields_loop fuel [] r else rev word # fields_loop fuel [] r)
           | None \<Rightarrow> fields_loop fuel (c # word) cs))"

definition Fields :: "string \<Rightarrow> string list" where
  "Fields s = fields_loop (length s) [] s"

section \<open>Host and port\<close>

definition SplitHostPort :: "string \<Rightarrow> (string \<times> string) option" where
  "SplitHostPort s =
     (case cut_last CHR '':'' s of
        None \<Rightarrow> None
      | Some (before, port) \<Rightarrow>
          if hd s = CHR ''['' then
            (case cut_at CHR '']'' s of
               None \<Rightarrow> None
             | Some (inside, after) \<Rightarrow>
                 let host = tl inside
                 in if inside @ '']'' \<noteq> before then None
                    else if CHR ''['' \<in> set (tl s) \<or> CHR '']'' \<in> set after then None
                    else Some (host, port))
          else if CHR '':'' \<in> set before then None
          else if CHR ''['' \<in> set s \<or> CHR '']'' \<in> set s then None
          else Some (before, port))"

section \<open>Prefixes of both families\<close>

abbreviation is_hex :: "char \<Rightarrow> bool" where
  "is_hex c \<equiv> hex_val c \<noteq> None"

text \<open>\<open>i\<close> counts the bytes of the address read so far; \<open>ell\<close> says whether the double colon was seen.\<close>

definition ipv6_end :: "nat \<Rightarrow> bool \<Rightarrow> string \<Rightarrow> bool" where
  "ipv6_end i ell s \<longleftrightarrow> s = [] \<and> (if i < 16 then ell else \<not> ell)"

fun ipv6_loop :: "nat \<Rightarrow> nat \<Rightarrow> bool \<Rightarrow> string \<Rightarrow> bool" where
  "ipv6_loop 0 i ell s = ipv6_end i ell s"
| "ipv6_loop (Suc fuel) i ell s =
     (let off = length (takeWhile is_hex s); rest = dropWhile is_hex s
      in if 4 < off \<or> off = 0 then False
         else if rest = [] then ipv6_end (i + 2) ell []
         else if hd rest = CHR ''.'' then
           (if \<not> ell \<and> i \<noteq> 12 then False
            else if 16 < i + 4 then False
            else parse_ipv4_fields None 0 0 [] s \<noteq> None \<and> ipv6_end (i + 4) ell [])
         else if hd rest \<noteq> CHR '':'' then False
         else if tl rest = [] then False
         else if hd (tl rest) = CHR '':'' then
           (if ell then False
            else if tl (tl rest) = [] then ipv6_end (i + 2) True []
            else ipv6_loop fuel (i + 2) True (tl (tl rest)))
         else ipv6_loop fuel (i + 2) ell (tl rest))"

text \<open>The loop ends when 16 bytes are read: at most eight rounds. A prefix has no zone.\<close>

definition valid_ipv6 :: "string \<Rightarrow> bool" where
  "valid_ipv6 s \<longleftrightarrow>
     CHR ''%'' \<notin> set s \<and>
     (if has_prefix s ''::''
      then (if length s = 2 then True else ipv6_loop 8 0 True (drop 2 s))
      else ipv6_loop 8 0 False s)"

datatype any_prefix = Prefix4 prefix | Prefix6 nat

definition parse_bits :: "nat \<Rightarrow> string \<Rightarrow> nat option" where
  "parse_bits maxBits s =
     (if 1 < length s \<and> (hd s < CHR ''1'' \<or> CHR ''9'' < hd s) then None
      else if s = [] then None
      else case parse_nat_acc 0 s of None \<Rightarrow> None | Some bits \<Rightarrow> if maxBits < bits then None else Some bits)"

definition ParseAnyPrefix :: "string \<Rightarrow> any_prefix option" where
  "ParseAnyPrefix s =
     (case cut_last CHR ''/'' s of
        None \<Rightarrow> None
      | Some (ipStr, bitsStr) \<Rightarrow>
          if addr_kind ipStr = Some CHR ''.'' then map_option Prefix4 (ParsePrefix s)
          else if addr_kind ipStr = Some CHR '':'' \<and> valid_ipv6 ipStr
            then map_option Prefix6 (parse_bits 128 bitsStr)
          else None)"

section \<open>Decimals and their text\<close>

lemma parse_nat_acc_append:
  "parse_nat_acc n (a @ b) = (case parse_nat_acc n a of None \<Rightarrow> None | Some m \<Rightarrow> parse_nat_acc m b)"
  by (induction a arbitrary: n) auto

lemma digit_char_digit: "n < 10 \<Longrightarrow> is_digit (digit_char n) \<and> digit_val (digit_char n) = n"
  by (auto simp: digit_char_def is_digit_def digit_val_def less_eq_char_def)

lemma parse_radix: "parse_nat_acc 0 (radix 10 n) = Some n"
proof (induction n rule: less_induct)
  case (less n)
  show ?case
  proof (cases "n < 10")
    case True
    then show ?thesis by (simp add: radix.simps [of 10 n] digit_char_digit)
  next
    case False
    then show ?thesis
      using less [of "n div 10"] digit_char_digit [of "n mod 10"]
      by (simp add: radix.simps [of 10 n] parse_nat_acc_append)
  qed
qed

lemma radix_digits: "radix 10 n \<noteq> [] \<and> (\<forall>c\<in>set (radix 10 n). is_digit c)"
proof (induction n rule: less_induct)
  case (less n)
  show ?case
  proof (cases "n < 10")
    case True
    then show ?thesis by (simp add: radix.simps [of 10 n] digit_char_digit)
  next
    case False
    then show ?thesis
      using less [of "n div 10"] digit_char_digit [of "n mod 10"]
      by (simp add: radix.simps [of 10 n])
  qed
qed

lemma digit_not_sign: "is_digit c \<Longrightarrow> c \<noteq> CHR ''-'' \<and> c \<noteq> CHR ''+'' \<and> c \<noteq> CHR ''.''"
  by (auto simp: is_digit_def less_eq_char_def)

lemma ParseInt_Itoa: "int64_ok n \<Longrightarrow> ParseInt (Itoa n) = Some n"
proof -
  assume ok: "int64_ok n"
  have "hd (radix 10 m) \<noteq> CHR ''-'' \<and> hd (radix 10 m) \<noteq> CHR ''+''" for m
    using radix_digits [of m] digit_not_sign by (metis list.set_sel(1))
  then show ?thesis using ok radix_digits by (simp add: ParseInt_def Itoa_def parse_radix Let_def)
qed

lemma Sscanf_Itoa: "int64_ok n \<Longrightarrow> Sscanf_d (Itoa n) = Some n"
proof -
  assume ok: "int64_ok n"
  have blank: "skip_blank (Itoa n) = Some (Itoa n)"
  proof -
    have "hd (radix 10 m) \<noteq> CHR 0x0A \<and> hd (radix 10 m) \<notin> {CHR 0x09, CHR 0x0B, CHR 0x0C, CHR 0x0D, CHR 0x20}" for m
    proof -
      have "is_digit (hd (radix 10 m))" using radix_digits [of m] by (metis list.set_sel(1))
      then show ?thesis by (auto simp: is_digit_def less_eq_char_def)
    qed
    moreover obtain c cs where "radix 10 (nat n) = c # cs" using radix_digits [of "nat n"] by (cases "radix 10 (nat n)") auto
    ultimately show ?thesis by (auto simp: Itoa_def) (metis list.sel(1))+
  qed
  have run: "takeWhile is_digit (radix 10 m) = radix 10 m" for m
    using radix_digits [of m] by (simp add: takeWhile_eq_all_conv)
  have sign: "hd (radix 10 m) \<noteq> CHR ''-'' \<and> hd (radix 10 m) \<noteq> CHR ''+''" for m
    using radix_digits [of m] digit_not_sign by (metis list.set_sel(1))
  show ?thesis
    using ParseInt_Itoa [OF ok] radix_digits sign unfolding Sscanf_d_def blank
    by (simp add: Itoa_def run Let_def split: if_splits)
qed

lemma Itoa_chars: "CHR ''.'' \<notin> set (Itoa n) \<and> Itoa n \<noteq> []"
  using radix_digits digit_not_sign by (auto simp: Itoa_def)

lemma ParseInt_range: "ParseInt s = Some n \<Longrightarrow> int64_ok n"
  by (auto simp: ParseInt_def Let_def split: if_splits option.splits)

lemma Sscanf_range: "Sscanf_d s = Some n \<Longrightarrow> int64_ok n"
  by (auto simp: Sscanf_d_def Let_def ParseInt_range split: if_splits option.splits)

fun glue :: "char \<Rightarrow> string list \<Rightarrow> string" where
  "glue c [] = []"
| "glue c [w] = w"
| "glue c (w # ws) = w @ c # glue c ws"

lemma glue_Cons: "ws \<noteq> [] \<Longrightarrow> glue c (w # ws) = w @ c # glue c ws"
  by (cases ws) auto

lemma split_glue: "s = glue c (split_on c s)"
proof (induction s)
  case (Cons a s)
  show ?case
  proof (cases "a = c")
    case True
    then show ?thesis using Cons by (simp add: glue_Cons)
  next
    case False
    obtain w ws where "split_on c s = w # ws" using split_on_not_Nil [of c s] by (cases "split_on c s") auto
    then show ?thesis using Cons False by (cases ws) auto
  qed
qed simp

end
