(* ===== verification/AgentProfile.thy ===== *)
theory AgentProfile
  imports AgentText P2pGrant
begin

text \<open>The configuration of a Device: \<^verbatim>\<open>internal/agentctl/wireguard.go\<close>, \<^verbatim>\<open>internal/agentctl/path.go\<close> and the validation and the versions of
  \<^verbatim>\<open>internal/agentctl/control.go\<close>. Two library functions are arguments, in one record: \<^verbatim>\<open>url.Parse\<close>, as far as scheme and host, and
  \<^verbatim>\<open>strings.ToLower\<close>, whose tables cover all of Unicode.\<close>

section \<open>Data\<close>

record text_env =
  te_url :: "string \<Rightarrow> (string \<times> string) option"
  te_ToLower :: "string \<Rightarrow> string"

record wireguard_profile =
  wp_PrivateKey :: string
  wp_Address :: string
  wp_MTU :: int
  wp_PeerPublicKey :: string
  wp_PresharedKey :: string
  wp_AllowedIPs :: "string list"
  wp_PersistentKeepalive :: int

record transport_path =
  tp_Node :: string
  tp_Endpoint :: string
  tp_PeerPublicKey :: string

record runtime_config =
  rc_Paths :: "transport_path list"
  rc_ConfigVersion :: int
  rc_Controllers :: "string list"
  rc_WGShimServer :: string
  rc_WGShimServers :: "string list"
  rc_WGShimListen :: string
  rc_WGShimTarget :: string
  rc_WGShimPSK :: string
  rc_PaddingMin :: int
  rc_PaddingMax :: int
  rc_LegacyTunnel :: string
  rc_UpdateChannel :: string
  rc_WireGuard :: "wireguard_profile option"

record agent_state =
  as_Version :: int
  as_DeviceID :: string
  as_DeviceName :: string
  as_AccessToken :: string
  as_AccessExpiresAt :: int
  as_RefreshToken :: string
  as_RefreshExpiresAt :: int
  as_DeviceToken :: string
  as_PublicKey :: string
  as_PrivateKey :: string
  as_ControlURL :: string
  as_ControlURLs :: "string list"
  as_UpdatePubKey :: string
  as_Config :: runtime_config
  as_WireGuard :: wireguard_profile

record bootstrap =
  bs_Version :: int
  bs_Device :: string
  bs_ControlURL :: string
  bs_ControlURLs :: "string list"
  bs_EnrollToken :: string
  bs_UpdatePublicKey :: string
  bs_LegacyTunnel :: string

definition BootstrapVersion :: int where "BootstrapVersion = 3"
definition LegacyBootstrapVersion :: int where "LegacyBootstrapVersion = 2"
definition StateVersion :: int where "StateVersion = 2"
definition LegacyStateVersion :: int where "LegacyStateVersion = 1"

datatype agent_error =
    KeyInvalid p2p_error | AddressNotIPv4 | MTURange | AllowedIPsEmpty | AllowedIPInvalid string | KeepaliveRange
  | PeerCount int | KeepaliveNotNumber
  | ParseControlURL | ControlNotHTTPS | NoControlURL | TooManyControlURLs
  | PathCount | PathEndpoint string | PathDuplicate string | PathPeer string
  | FieldEmpty | PrimaryNotInPool | ShimKeyInvalid | PaddingRange
  | BootstrapVersionUnknown int | BootstrapDeviceEmpty | EnrollTokenEmpty | UpdateKeyInvalid

section \<open>WireGuard profiles\<close>

text \<open>The part of the check after the keys.\<close>

definition validate_network :: "string \<Rightarrow> int \<Rightarrow> string list \<Rightarrow> int \<Rightarrow> agent_error option" where
  "validate_network address mtu allowedIPs keepalive =
     (case ParseAnyPrefix (trim_space address) of
        Some (Prefix4 _) \<Rightarrow>
          if mtu < 576 \<or> 9000 < mtu then Some MTURange
          else if allowedIPs = [] then Some AllowedIPsEmpty
          else (case first_error (\<lambda>value. if ParseAnyPrefix (trim_space value) = None then Some (AllowedIPInvalid value) else None) allowedIPs of
                  Some e \<Rightarrow> Some e
                | None \<Rightarrow> if keepalive < 0 \<or> 65535 < keepalive then Some KeepaliveRange else None)
      | _ \<Rightarrow> Some AddressNotIPv4)"

definition validateWireGuardProfile :: "wireguard_profile \<Rightarrow> bool \<Rightarrow> agent_error option" where
  "validateWireGuardProfile p requirePrivate =
     (case (if requirePrivate then ParseWGKey (wp_PrivateKey p) False else Inr []) of
        Inl e \<Rightarrow> Some (KeyInvalid e)
      | Inr _ \<Rightarrow>
     (case ParseWGKey (wp_PeerPublicKey p) False of
        Inl e \<Rightarrow> Some (KeyInvalid e)
      | Inr _ \<Rightarrow>
     (case (if trim_space (wp_PresharedKey p) \<noteq> [] then ParseWGKey (wp_PresharedKey p) True else Inr []) of
        Inl e \<Rightarrow> Some (KeyInvalid e)
      | Inr _ \<Rightarrow> validate_network (wp_Address p) (wp_MTU p) (wp_AllowedIPs p) (wp_PersistentKeepalive p))))"

definition ValidateWireGuardProfile :: "wireguard_profile \<Rightarrow> agent_error option" where
  "ValidateWireGuardProfile p = validateWireGuardProfile p True"

definition ValidateWireGuardServerProfile :: "wireguard_profile \<Rightarrow> agent_error option" where
  "ValidateWireGuardServerProfile p = validateWireGuardProfile p False"

definition Complete :: "wireguard_profile \<Rightarrow> bool" where
  "Complete p \<longleftrightarrow> ValidateWireGuardProfile p = None"

definition WGKeyHex :: "string \<Rightarrow> bool \<Rightarrow> p2p_error + string" where
  "WGKeyHex encoded allowZero =
     (case ParseWGKey encoded allowZero of
        Inl e \<Rightarrow> Inl e
      | Inr key \<Rightarrow> Inr (concat (map (\<lambda>value. [hex_char (unat (drop_bit 4 value)), hex_char (unat (value AND 15))]) key)))"

text \<open>A new key pair from 32 random bytes, none when they cannot be read; \<open>base\<close> is the base point multiplication of Curve25519.\<close>

definition clamp :: "byte list \<Rightarrow> byte list" where
  "clamp private = private[0 := private ! 0 AND 248, 31 := (private ! 31 AND 127) OR 64]"

definition GenerateWireGuardKeypair :: "(byte list \<Rightarrow> byte list) \<Rightarrow> byte list option \<Rightarrow> (string \<times> string) option" where
  "GenerateWireGuardKeypair base random =
     (case random of
        None \<Rightarrow> None
      | Some r \<Rightarrow> let private = clamp r in Some (base64_encode private, base64_encode (base private)))"

text \<open>The text of \<^verbatim>\<open>wg showconf\<close>, line by line: the profile so far, the section and the number of peers.\<close>

definition split_cidrs :: "string \<Rightarrow> string list" where
  "split_cidrs value = filter (\<lambda>c. c \<noteq> []) (map trim_space (split_on CHR '','' value))"

definition peer_key :: "string \<Rightarrow> string \<Rightarrow> wireguard_profile \<Rightarrow> agent_error + wireguard_profile" where
  "peer_key key value p =
     (if key = ''publickey'' then Inr (p\<lparr>wp_PeerPublicKey := value\<rparr>)
      else if key = ''presharedkey'' then Inr (p\<lparr>wp_PresharedKey := value\<rparr>)
      else if key = ''allowedips'' then Inr (p\<lparr>wp_AllowedIPs := wp_AllowedIPs p @ split_cidrs value\<rparr>)
      else if key = ''persistentkeepalive'' then
        (case Atoi value of None \<Rightarrow> Inl KeepaliveNotNumber | Some n \<Rightarrow> Inr (p\<lparr>wp_PersistentKeepalive := n\<rparr>))
      else Inr p)"

definition showconf_line ::
  "(string \<Rightarrow> string) \<Rightarrow> string \<Rightarrow> wireguard_profile \<times> string \<times> int \<Rightarrow> agent_error + wireguard_profile \<times> string \<times> int" where
  "showconf_line lower rawLine st =
     (case st of (p, sec, peers) \<Rightarrow>
        let line = trim_space (trim_suffix rawLine [CHR 0x0D])
        in if line = [] \<or> has_prefix line ''#'' \<or> has_prefix line '';'' then Inr st
           else if has_prefix line ''['' \<and> has_suffix line '']'' then
             let sec = lower (trim_space (take (length line - 2) (drop 1 line)))
             in if sec = ''peer'' then
                  (if 1 < peers + 1 then Inl (PeerCount (peers + 1)) else Inr (p, sec, peers + 1))
                else Inr (p, sec, peers)
           else case cut_at CHR ''='' line of
                  None \<Rightarrow> Inr st
                | Some (k, v) \<Rightarrow>
                    let key = lower (trim_space k); value = trim_space v
                    in if sec = ''interface'' then
                         Inr (if key = ''privatekey'' then p\<lparr>wp_PrivateKey := value\<rparr> else p, sec, peers)
                       else if sec = ''peer'' then
                         (case peer_key key value p of Inl e \<Rightarrow> Inl e | Inr p \<Rightarrow> Inr (p, sec, peers))
                       else Inr st)"

fun showconf_lines ::
  "(string \<Rightarrow> string) \<Rightarrow> string list \<Rightarrow> wireguard_profile \<times> string \<times> int \<Rightarrow> agent_error + wireguard_profile \<times> string \<times> int" where
  "showconf_lines lower [] st = Inr st"
| "showconf_lines lower (l # ls) st =
     (case showconf_line lower l st of Inl e \<Rightarrow> Inl e | Inr st \<Rightarrow> showconf_lines lower ls st)"

definition ParseWireGuardShowConf :: "(string \<Rightarrow> string) \<Rightarrow> string \<Rightarrow> string \<Rightarrow> int \<Rightarrow> agent_error + wireguard_profile" where
  "ParseWireGuardShowConf lower txt address mtu =
     (let profile = \<lparr>wp_PrivateKey = [], wp_Address = trim_space address, wp_MTU = mtu, wp_PeerPublicKey = [],
                     wp_PresharedKey = [], wp_AllowedIPs = [], wp_PersistentKeepalive = 0\<rparr>
      in case showconf_lines lower (split_on CHR 0x0A txt) (profile, [], 0) of
           Inl e \<Rightarrow> Inl e
         | Inr (p, sec, peers) \<Rightarrow>
             if peers \<noteq> 1 then Inl (PeerCount peers)
             else case ValidateWireGuardProfile p of Some e \<Rightarrow> Inl e | None \<Rightarrow> Inr p)"

section \<open>Transport paths\<close>

definition TransportPaths :: "runtime_config \<Rightarrow> transport_path list" where
  "TransportPaths c =
     (if rc_Paths c \<noteq> [] then rc_Paths c
      else let servers = (if rc_WGShimServers c = [] then [rc_WGShimServer c] else rc_WGShimServers c)
           in map (\<lambda>endpoint. \<lparr>tp_Node = [], tp_Endpoint = endpoint, tp_PeerPublicKey = []\<rparr>) servers)"

definition valid_endpoint :: "string \<Rightarrow> bool" where
  "valid_endpoint endpoint \<longleftrightarrow>
     (case SplitHostPort endpoint of
        None \<Rightarrow> False
      | Some (host, port) \<Rightarrow>
          host \<noteq> [] \<and> (\<forall>c\<in>set host. c \<noteq> CHR 0x20 \<and> c \<noteq> CHR ''/'' \<and> c \<noteq> CHR 0x0A \<and> c \<noteq> CHR 0x5C \<and> c \<noteq> CHR 0x09 \<and> c \<noteq> CHR 0x0D) \<and>
          (case Atoi port of None \<Rightarrow> False | Some number \<Rightarrow> 1 \<le> number \<and> number \<le> 65535))"

fun validate_paths_loop :: "text_env \<Rightarrow> wireguard_profile option \<Rightarrow> string list \<Rightarrow> transport_path list \<Rightarrow> agent_error option" where
  "validate_paths_loop env wg seen [] = None"
| "validate_paths_loop env wg seen (path # paths) =
     (let key = te_ToLower env (tp_Endpoint path)
      in if \<not> valid_endpoint (tp_Endpoint path) then Some (PathEndpoint (tp_Endpoint path))
         else if key \<in> set seen then Some (PathDuplicate (tp_Endpoint path))
         else if tp_PeerPublicKey path \<noteq> [] \<and> (case wg of None \<Rightarrow> True | Some p \<Rightarrow> tp_PeerPublicKey path \<noteq> wp_PeerPublicKey p)
           then Some (PathPeer (tp_Endpoint path))
         else validate_paths_loop env wg (key # seen) paths)"

definition ValidatePaths :: "text_env \<Rightarrow> runtime_config \<Rightarrow> agent_error option" where
  "ValidatePaths env c =
     (let paths = TransportPaths c
      in if paths = [] \<or> 16 < length paths then Some PathCount
         else validate_paths_loop env (rc_WireGuard c) [] paths)"

section \<open>Controller addresses\<close>

fun normalize_loop :: "text_env \<Rightarrow> string list \<Rightarrow> string list \<Rightarrow> agent_error + string list" where
  "normalize_loop env result [] = Inr result"
| "normalize_loop env result (raw # values) =
     (let baseURL = trim_right_char CHR ''/'' (trim_space raw)
      in if baseURL = [] then normalize_loop env result values
         else case te_url env baseURL of
                None \<Rightarrow> Inl ParseControlURL
              | Some (scheme, host) \<Rightarrow>
                  if scheme \<noteq> ''https'' \<or> host = [] then Inl ControlNotHTTPS
                  else if baseURL \<in> set result then normalize_loop env result values
                  else normalize_loop env (result @ [baseURL]) values)"

definition normalizeControlURLs :: "text_env \<Rightarrow> string list \<Rightarrow> agent_error + string list" where
  "normalizeControlURLs env values =
     (case normalize_loop env [] values of
        Inl e \<Rightarrow> Inl e
      | Inr result \<Rightarrow>
          if result = [] then Inl NoControlURL
          else if 16 < length result then Inl TooManyControlURLs
          else Inr result)"

definition state_ControlEndpoints :: "text_env \<Rightarrow> agent_state \<Rightarrow> string list" where
  "state_ControlEndpoints env s =
     (case normalizeControlURLs env (as_ControlURL s # as_ControlURLs s @ rc_Controllers (as_Config s)) of
        Inl e \<Rightarrow> [as_ControlURL s] | Inr normalized \<Rightarrow> normalized)"

definition bootstrap_ControlEndpoints :: "text_env \<Rightarrow> bootstrap \<Rightarrow> string list" where
  "bootstrap_ControlEndpoints env b =
     (case normalizeControlURLs env (bs_ControlURL b # bs_ControlURLs b) of
        Inl e \<Rightarrow> [bs_ControlURL b] | Inr normalized \<Rightarrow> normalized)"

definition ControlCredential :: "agent_state \<Rightarrow> string" where
  "ControlCredential s =
     (if trim_space (as_AccessToken s) \<noteq> [] then trim_space (as_AccessToken s) else trim_space (as_DeviceToken s))"

definition NeedsRefresh :: "agent_state \<Rightarrow> gotime \<Rightarrow> bool" where
  "NeedsRefresh s now \<longleftrightarrow>
     (if trim_space (as_RefreshToken s) = [] then False
      else if trim_space (as_AccessToken s) = [] then True
      else as_AccessExpiresAt s \<le> unix_of (time_add now (60 * second)))"

section \<open>Validation of a configuration\<close>

text \<open>The update key is text that holds a PEM block with a key; \<open>pem\<close> is what the library makes of the decoded text, and is none for a block it
  refuses or a key that is not Ed25519.\<close>

definition ParseUpdatePublicKey :: "(byte list \<Rightarrow> byte list option) \<Rightarrow> string \<Rightarrow> byte list option" where
  "ParseUpdatePublicKey pem encoded =
     (case base64_decode (trim_space encoded) of None \<Rightarrow> None | Some raw \<Rightarrow> pem raw)"

definition ValidateBootstrap :: "text_env \<Rightarrow> (byte list \<Rightarrow> byte list option) \<Rightarrow> bootstrap \<Rightarrow> agent_error option" where
  "ValidateBootstrap env pem cfg =
     (if bs_Version cfg \<noteq> BootstrapVersion \<and> bs_Version cfg \<noteq> LegacyBootstrapVersion then Some (BootstrapVersionUnknown (bs_Version cfg))
      else if trim_space (bs_Device cfg) = [] then Some BootstrapDeviceEmpty
      else if bs_Version cfg = LegacyBootstrapVersion \<and> trim_space (bs_EnrollToken cfg) = [] then Some EnrollTokenEmpty
      else case normalizeControlURLs env (bootstrap_ControlEndpoints env cfg) of
             Inl e \<Rightarrow> Some e
           | Inr _ \<Rightarrow> if ParseUpdatePublicKey pem (bs_UpdatePublicKey cfg) = None then Some UpdateKeyInvalid else None)"

definition shim_key_ok :: "string \<Rightarrow> bool" where
  "shim_key_ok psk \<longleftrightarrow> (case base64_decode psk of None \<Rightarrow> False | Some key \<Rightarrow> length key = 32)"

definition ValidateRuntimeConfig :: "text_env \<Rightarrow> runtime_config \<Rightarrow> agent_error option" where
  "ValidateRuntimeConfig env cfg =
     (case (if rc_Controllers cfg \<noteq> [] then normalizeControlURLs env (rc_Controllers cfg) else Inr []) of
        Inl e \<Rightarrow> Some e
      | Inr _ \<Rightarrow>
     if trim_space (rc_WGShimListen cfg) = [] \<or> trim_space (rc_WGShimTarget cfg) = [] \<or> trim_space (rc_WGShimPSK cfg) = [] then Some FieldEmpty
     else case ValidatePaths env cfg of
        Some e \<Rightarrow> Some e
      | None \<Rightarrow>
     if rc_Paths cfg = [] \<and> rc_WGShimServers cfg \<noteq> [] \<and> rc_WGShimServer cfg \<notin> set (rc_WGShimServers cfg) then Some PrimaryNotInPool
     else if \<not> shim_key_ok (rc_WGShimPSK cfg) then Some ShimKeyInvalid
     else if rc_PaddingMin cfg < 0 \<or> rc_PaddingMax cfg < rc_PaddingMin cfg \<or> 255 < rc_PaddingMax cfg then Some PaddingRange
     else case rc_WireGuard cfg of None \<Rightarrow> None | Some p \<Rightarrow> ValidateWireGuardServerProfile p)"

definition state_ValidateRuntimeConfig :: "text_env \<Rightarrow> agent_state \<Rightarrow> agent_error option" where
  "state_ValidateRuntimeConfig env s =
     (let cfg = as_Config s;
          cfg = (if rc_WireGuard cfg = None \<and> wp_PeerPublicKey (as_WireGuard s) \<noteq> []
                 then cfg\<lparr>rc_WireGuard := Some ((as_WireGuard s)\<lparr>wp_PrivateKey := [], wp_PresharedKey := []\<rparr>)\<rparr>
                 else cfg)
      in ValidateRuntimeConfig env cfg)"

section \<open>Versions\<close>

fun parse_parts :: "string list \<Rightarrow> int list option" where
  "parse_parts [] = Some []"
| "parse_parts (part # parts) =
     (case Sscanf_d part of
        None \<Rightarrow> None
      | Some n \<Rightarrow> if Itoa n \<noteq> part then None else map_option ((#) n) (parse_parts parts))"

definition parseStableSemver :: "string \<Rightarrow> int list option" where
  "parseStableSemver value =
     (let parts = split_on CHR ''.'' (trim_prefix (trim_space value) ''v'')
      in if length parts \<noteq> 3 then None else parse_parts parts)"

fun newer_loop :: "int list \<Rightarrow> int list \<Rightarrow> bool" where
  "newer_loop (a # as) (b # bs) = (if b < a then True else if a < b then False else newer_loop as bs)"
| "newer_loop _ _ = False"

definition IsNewerVersion :: "string \<Rightarrow> string \<Rightarrow> bool" where
  "IsNewerVersion candidate current \<longleftrightarrow>
     (case (parseStableSemver candidate, parseStableSemver current) of (Some a, Some b) \<Rightarrow> newer_loop a b | _ \<Rightarrow> False)"

section \<open>Update manifests\<close>

record update_manifest =
  um_Version :: string
  um_URL :: string
  um_SHA256 :: string
  um_Signature :: string

text \<open>The digest is hexadecimal where a manifest is checked, so that its lower case is that of ASCII.\<close>

definition manifestSigningBytes :: "update_manifest \<Rightarrow> byte list" where
  "manifestSigningBytes m = bytes_of (um_Version m @ [CHR 0x0A] @ to_lower (um_SHA256 m) @ [CHR 0x0A] @ um_URL m @ [CHR 0x0A])"

datatype update_error =
  ManifestIncomplete | DigestInvalid | UpdateKeyBad | SignatureNotBase64 | SignatureWrong | DigestMismatch | FileUnreadable

text \<open>\<open>verify\<close> is \<^verbatim>\<open>ed25519.Verify\<close>.\<close>

definition VerifyUpdateManifest ::
  "(byte list \<Rightarrow> byte list option) \<Rightarrow> (byte list \<Rightarrow> byte list \<Rightarrow> byte list \<Rightarrow> bool) \<Rightarrow> update_manifest \<Rightarrow> string \<Rightarrow> update_error option" where
  "VerifyUpdateManifest pem verify m encodedPublicKey =
     (if um_Version m = [] \<or> um_URL m = [] \<or> um_SHA256 m = [] \<or> um_Signature m = [] then Some ManifestIncomplete
      else if hex_decode (um_SHA256 m) = None \<or> length (um_SHA256 m) \<noteq> 64 then Some DigestInvalid
      else case ParseUpdatePublicKey pem encodedPublicKey of
             None \<Rightarrow> Some UpdateKeyBad
           | Some publicKey \<Rightarrow>
               (case base64_decode (um_Signature m) of
                  None \<Rightarrow> Some SignatureNotBase64
                | Some signature \<Rightarrow>
                    if \<not> verify publicKey (manifestSigningBytes m) signature then Some SignatureWrong else None))"

text \<open>\<^verbatim>\<open>EqualFold\<close> of a hexadecimal string: none of its letters has another form than the two of ASCII. The content is none when the file cannot be read.\<close>

definition VerifyFileSHA256 :: "(byte list \<Rightarrow> byte list) \<Rightarrow> byte list option \<Rightarrow> string \<Rightarrow> update_error option" where
  "VerifyFileSHA256 sha256 content expected =
     (case content of
        None \<Rightarrow> Some FileUnreadable
      | Some bs \<Rightarrow> let actual = hex_encode (sha256 bs)
                   in if to_lower actual \<noteq> to_lower (trim_space expected) then Some DigestMismatch else None)"

section \<open>Keys\<close>

lemma WGKeyHex_encode: "ParseWGKey s z = Inr key \<Longrightarrow> WGKeyHex s z = Inr (hex_encode key)"
proof -
  have "hex_char (unat (drop_bit 4 v)) = hex_char (unat v div 16) \<and> hex_char (unat (v AND 15)) = hex_char (unat v)" for v :: byte
  proof -
    have "v AND 15 = take_bit 4 v" by (simp add: take_bit_eq_mask mask_eq_exp_minus_1)
    then have "unat (v AND 15) = unat v mod 16" by (simp add: take_bit_eq_mod unat_mod)
    then show ?thesis by (simp add: hex_char_def drop_bit_eq_div unat_div)
  qed
  then show "ParseWGKey s z = Inr key \<Longrightarrow> ?thesis" by (simp add: WGKeyHex_def hex_encode_def)
qed

lemma fold_or_zero: "fold (OR) bs (a :: byte) = 0 \<Longrightarrow> a = 0 \<and> (\<forall>b\<in>set bs. b = 0)"
proof (induction bs arbitrary: a)
  case (Cons b bs)
  have z: "fold (OR) bs (b OR a) = 0" using Cons.prems by simp
  from Cons.IH [OF this] show ?case by (simp add: or_eq_0_iff)
qed simp

lemma length_clamp [simp]: "length (clamp bs) = length bs"
  by (simp add: clamp_def)

lemma clamp_not_zero: "length bs = 32 \<Longrightarrow> fold (OR) (clamp bs) 0 \<noteq> 0"
proof
  assume len: "length bs = 32" and z: "fold (OR) (clamp bs) 0 = 0"
  have "clamp bs ! 31 = (bs ! 31 AND 127) OR 64" using len by (simp add: clamp_def)
  moreover have "clamp bs ! 31 = 0" using fold_or_zero [OF z] len by simp
  ultimately show False by (simp add: or_eq_0_iff)
qed

lemma generated_key_parses:
  "length r = 32 \<Longrightarrow> GenerateWireGuardKeypair base (Some r) = Some (private, public) \<Longrightarrow> ParseWGKey private False = Inr (clamp r)"
  using clamp_not_zero [of r] by (auto simp: GenerateWireGuardKeypair_def ParseWGKey_def Let_def)

section \<open>Versions and their text\<close>

definition version_text :: "int \<Rightarrow> int \<Rightarrow> int \<Rightarrow> string" where
  "version_text a b c = Itoa a @ ''.'' @ Itoa b @ ''.'' @ Itoa c"

lemma parse_parts_iff: "parse_parts ws = Some ns \<longleftrightarrow> ws = map Itoa ns \<and> (\<forall>n\<in>set ns. int64_ok n)"
proof (induction ws arbitrary: ns)
  case (Cons w ws)
  have one: "parse_parts (w # ws) = Some (n # ms) \<longleftrightarrow> parse_parts ws = Some ms \<and> w = Itoa n \<and> int64_ok n" for n ms
  proof (cases "Sscanf_d w")
    case None
    then have "w = Itoa n \<Longrightarrow> \<not> int64_ok n" using Sscanf_Itoa [of n] by auto
    then show ?thesis using None by auto
  next
    case (Some k)
    show ?thesis
    proof (cases "Itoa k = w")
      case True
      have "int64_ok n \<and> w = Itoa n \<longleftrightarrow> k = n" using Sscanf_Itoa [of n] Sscanf_range [OF Some] Some True by (metis option.inject)
      then show ?thesis using Some True by auto
    next
      case False
      have "w = Itoa n \<Longrightarrow> \<not> int64_ok n" using Sscanf_Itoa [of n] Some False by auto
      then show ?thesis using Some False by auto
    qed
  qed
  have "parse_parts (w # ws) \<noteq> Some []" by (auto split: option.splits)
  then show ?case by (cases ns) (auto simp: one Cons.IH simp del: parse_parts.simps)
qed auto

lemma split_version:
  "split_on CHR ''.'' s = [x, y, z] \<longleftrightarrow>
   s = x @ ''.'' @ y @ ''.'' @ z \<and> CHR ''.'' \<notin> set x \<and> CHR ''.'' \<notin> set y \<and> CHR ''.'' \<notin> set z"
proof
  assume split: "split_on CHR ''.'' s = [x, y, z]"
  have "CHR ''.'' \<notin> set w" if "w \<in> {x, y, z}" for w
    using split_on_chars [of w "CHR ''.''" s] that split by auto
  moreover have "s = x @ ''.'' @ y @ ''.'' @ z" using split_glue [of s "CHR ''.''"] split by simp
  ultimately show "s = x @ ''.'' @ y @ ''.'' @ z \<and> CHR ''.'' \<notin> set x \<and> CHR ''.'' \<notin> set y \<and> CHR ''.'' \<notin> set z" by simp
next
  assume "s = x @ ''.'' @ y @ ''.'' @ z \<and> CHR ''.'' \<notin> set x \<and> CHR ''.'' \<notin> set y \<and> CHR ''.'' \<notin> set z"
  then show "split_on CHR ''.'' s = [x, y, z]" by (simp add: split_on_append split_on_single)
qed

lemma parseStableSemver_iff:
  "parseStableSemver s = Some [a, b, c] \<longleftrightarrow>
   trim_prefix (trim_space s) ''v'' = version_text a b c \<and> int64_ok a \<and> int64_ok b \<and> int64_ok c"
proof -
  have "parseStableSemver s = Some [a, b, c] \<longleftrightarrow>
        split_on CHR ''.'' (trim_prefix (trim_space s) ''v'') = map Itoa [a, b, c] \<and> int64_ok a \<and> int64_ok b \<and> int64_ok c"
    by (auto simp: parseStableSemver_def Let_def parse_parts_iff)
  then show ?thesis by (simp add: split_version version_text_def Itoa_chars)
qed

lemma parseStableSemver_shape: "parseStableSemver s = Some ns \<Longrightarrow> \<exists>a b c. ns = [a, b, c]"
proof -
  assume "parseStableSemver s = Some ns"
  then have "length ns = 3" by (auto simp: parseStableSemver_def Let_def parse_parts_iff split: if_splits)
  then show ?thesis by (auto simp: numeral_3_eq_3 length_Suc_conv)
qed

end
