(* ===== verification/AgentClient.thy ===== *)
theory AgentClient
  imports AgentProfile
begin

text \<open>The client of the control plane: the requests of \<^verbatim>\<open>internal/agentctl/control.go\<close> and \<^verbatim>\<open>internal/agentctl/p2p.go\<close>, and their failover from one
  Controller to the next. The network is an argument: what the request with a given number is answered, none when no answer comes. The body of a
  request is kept as the value that is encoded; \<^verbatim>\<open>json.Decoder.Decode\<close> fills the value it is given and may do so in part before it fails.\<close>

section \<open>Data\<close>

record enrollment_request =
  eq_Token :: string
  eq_Device :: string
  eq_PublicKey :: string
  eq_WireGuardPublicKey :: string
  eq_Version :: string

record enrollment_response =
  er_DeviceID :: string
  er_DeviceToken :: string
  er_Config :: runtime_config
  er_WireGuard :: wireguard_profile

record login_response =
  lr_AccessToken :: string
  lr_AccessExpiresAt :: int
  lr_UserID :: string
  lr_Username :: string

record registration_request =
  dq_DeviceID :: string
  dq_Name :: string
  dq_PublicKey :: string
  dq_WireGuardPublicKey :: string
  dq_Version :: string
  dq_Proof :: string

record registration_response =
  dr_DeviceID :: string
  dr_AccessToken :: string
  dr_AccessExpiresAt :: int
  dr_RefreshToken :: string
  dr_RefreshExpiresAt :: int
  dr_Config :: runtime_config
  dr_WireGuard :: wireguard_profile

record refresh_response =
  rr_DeviceID :: string
  rr_AccessToken :: string
  rr_AccessExpiresAt :: int
  rr_RefreshToken :: string
  rr_RefreshExpiresAt :: int

record device_summary =
  ds_ID :: string
  ds_Name :: string
  ds_CreatedAt :: int
  ds_LastSeen :: int
  ds_Enabled :: bool
  ds_RevokedAt :: "int option"

record heartbeat_request =
  hb_Version :: string
  hb_Transport :: string
  hb_Status :: string

record p2p_info =
  pi_Capabilities :: "string list"
  pi_ClusterID :: string
  pi_DeviceID :: string
  pi_IssuerPublicKey :: string
  pi_IssuerCertificateSHA256 :: string
  pi_Enabled :: bool
  pi_AccessSHA256 :: string
  pi_AccountMode :: bool

record p2p_peer =
  pp_ID :: string
  pp_Name :: string
  pp_Address :: string

record p2p_offer =
  po_Ticket :: "byte list"
  po_Relay :: string
  po_ExpiresAt :: int

definition P2PCapability :: string where "P2PCapability = ''p2p-session-v1''"

datatype request_body =
    EnrollBody enrollment_request | LoginBody string string | RegisterBody registration_request
  | RefreshBody string string | LogoutBody string | RevokeBody string | HeartbeatBody heartbeat_request
  | ConsentBody bool string string "string list" | HostBody string "string list"
  | SyncBody "byte list list" "string list" | CapabilityBody "string list"

record http_request =
  hr_Method :: string
  hr_URL :: string
  hr_Bearer :: "string option"
  hr_Body :: "request_body option"

record http_response =
  hs_Status :: int
  hs_Body :: "byte list"

type_synonym network = "nat \<Rightarrow> http_request \<Rightarrow> http_response option"

type_synonym 'o decoder = "byte list \<Rightarrow> 'o \<Rightarrow> bool \<times> 'o"

record client =
  cl_BaseURL :: string
  cl_BaseURLs :: "string list"
  cl_Token :: string

datatype client_error =
    Setup agent_error | BadRequest | Unreachable string | Unavailable string int | Refused int | Undecodable | NoEndpoints
  | IncompleteResponse | IncompleteProfile | ManifestWithoutVersion | DeviceIDRequired
  | BadP2PInfo | BadConsentContext | BadIdentityKey | BadHost | BadGrantResponse | TooManyTickets | BadTicket
  | BadCheckpointResponse | TooManyPeers | BadPeer | BadDelivery
  | BadDownloadURL | DownloadNotHTTPS | DownloadFailed int | FileError

section \<open>Construction\<close>

definition NewMultiClient :: "text_env \<Rightarrow> string list \<Rightarrow> string \<Rightarrow> agent_error + client" where
  "NewMultiClient env baseURLs token =
     (case normalizeControlURLs env baseURLs of
        Inl e \<Rightarrow> Inl e
      | Inr normalized \<Rightarrow> Inr \<lparr>cl_BaseURL = hd normalized, cl_BaseURLs = normalized, cl_Token = trim_space token\<rparr>)"

definition NewClient :: "text_env \<Rightarrow> string \<Rightarrow> string \<Rightarrow> agent_error + client" where
  "NewClient env baseURL token = NewMultiClient env [baseURL] token"

section \<open>One request\<close>

text \<open>The result of a call: its error, the value the answer was decoded into, the client, and the requests that were sent.\<close>

type_synonym 'o outcome = "client_error option \<times> 'o \<times> client \<times> http_request list"

definition make_request :: "string \<Rightarrow> string \<Rightarrow> string \<Rightarrow> request_body option \<Rightarrow> http_request" where
  "make_request verb url token body =
     \<lparr>hr_Method = verb, hr_URL = url, hr_Bearer = (if token \<noteq> [] then Some token else None), hr_Body = body\<rparr>"

definition gateway_status :: "int \<Rightarrow> bool" where
  "gateway_status status \<longleftrightarrow> status = 502 \<or> status = 503 \<or> status = 504"

fun doJSON_loop ::
  "text_env \<Rightarrow> network \<Rightarrow> string \<Rightarrow> string \<Rightarrow> string \<Rightarrow> request_body option \<Rightarrow> 'o decoder option \<Rightarrow>
   nat \<Rightarrow> client_error option \<Rightarrow> string list \<Rightarrow> 'o \<Rightarrow> client \<Rightarrow> 'o outcome" where
  "doJSON_loop env net verb path token body decode index lastErr [] out c =
     (Some (case lastErr of Some e \<Rightarrow> e | None \<Rightarrow> NoEndpoints), out, c, [])"
| "doJSON_loop env net verb path token body decode index lastErr (baseURL # endpoints) out c =
     (if te_url env (baseURL @ path) = None then (Some BadRequest, out, c, [])
      else let req = make_request verb (baseURL @ path) token body;
               again = (\<lambda>e out. case doJSON_loop env net verb path token body decode (index + 1) (Some e) endpoints out c of
                                (err, out, c, sent) \<Rightarrow> (err, out, c, req # sent))
      in case net index req of
           None \<Rightarrow> again (Unreachable baseURL) out
         | Some resp \<Rightarrow>
             if gateway_status (hs_Status resp) then
               (if endpoints \<noteq> [] then again (Unavailable baseURL (hs_Status resp)) out
                else (Some (Unavailable baseURL (hs_Status resp)), out, c, [req]))
             else if hs_Status resp < 200 \<or> 300 \<le> hs_Status resp then (Some (Refused (hs_Status resp)), out, c, [req])
             else case decode of
                    None \<Rightarrow> (None, out, c\<lparr>cl_BaseURL := baseURL\<rparr>, [req])
                  | Some dec \<Rightarrow>
                      (case dec (take (2 ^ 20) (hs_Body resp)) out of
                         (False, out) \<Rightarrow> again Undecodable out
                       | (True, out) \<Rightarrow> (None, out, c\<lparr>cl_BaseURL := baseURL\<rparr>, [req])))"

definition endpoints_of :: "client \<Rightarrow> string list" where
  "endpoints_of c = (if cl_BaseURLs c = [] then [cl_BaseURL c] else cl_BaseURLs c)"

definition doJSON ::
  "text_env \<Rightarrow> network \<Rightarrow> string \<Rightarrow> string \<Rightarrow> string \<Rightarrow> request_body option \<Rightarrow> 'o decoder option \<Rightarrow> 'o \<Rightarrow> client \<Rightarrow> 'o outcome" where
  "doJSON env net verb path token body decode out c =
     doJSON_loop env net verb path token body decode 0 None (endpoints_of c) out c"

section \<open>The requests\<close>

definition zero_profile :: wireguard_profile where
  "zero_profile = \<lparr>wp_PrivateKey = [], wp_Address = [], wp_MTU = 0, wp_PeerPublicKey = [], wp_PresharedKey = [],
                   wp_AllowedIPs = [], wp_PersistentKeepalive = 0\<rparr>"

definition zero_config :: runtime_config where
  "zero_config = \<lparr>rc_Paths = [], rc_ConfigVersion = 0, rc_Controllers = [], rc_WGShimServer = [], rc_WGShimServers = [],
                  rc_WGShimListen = [], rc_WGShimTarget = [], rc_WGShimPSK = [], rc_PaddingMin = 0, rc_PaddingMax = 0,
                  rc_LegacyTunnel = [], rc_UpdateChannel = [], rc_WireGuard = None\<rparr>"

record client_env = text_env +
  ce_enroll :: "enrollment_response decoder"
  ce_login :: "login_response decoder"
  ce_register :: "registration_response decoder"
  ce_refresh :: "refresh_response decoder"
  ce_devices :: "device_summary list decoder"
  ce_config :: "runtime_config decoder"
  ce_manifest :: "update_manifest decoder"
  ce_info :: "p2p_info decoder"
  ce_bytes :: "byte list decoder"
  ce_peers :: "p2p_peer list decoder"
  ce_offer :: "p2p_offer option decoder"
  ce_sign :: "byte list \<Rightarrow> byte list \<Rightarrow> byte list"
  ce_sha256 :: "byte list \<Rightarrow> byte list"

abbreviation POST :: string where "POST \<equiv> ''POST''"
abbreviation GET :: string where "GET \<equiv> ''GET''"

type_synonym 'o reply = "(client_error + 'o) \<times> client \<times> http_request list"

text \<open>What a call does with the answer: \<open>check\<close> is the first thing wrong with it.\<close>

definition checked :: "('o \<Rightarrow> client_error option) \<Rightarrow> 'o outcome \<Rightarrow> 'o reply" where
  "checked check r =
     (case r of (err, out, c, sent) \<Rightarrow>
        (case err of
           Some e \<Rightarrow> Inl e
         | None \<Rightarrow> (case check out of Some e \<Rightarrow> Inl e | None \<Rightarrow> Inr out), c, sent))"

definition profile_incomplete :: "wireguard_profile \<Rightarrow> bool" where
  "profile_incomplete p \<longleftrightarrow> trim_space (wp_Address p) = [] \<or> trim_space (wp_PeerPublicKey p) = []"

definition Enroll :: "client_env \<Rightarrow> network \<Rightarrow> client \<Rightarrow> enrollment_request \<Rightarrow> enrollment_response reply" where
  "Enroll env net c req =
     checked (\<lambda>r. if er_DeviceID r = [] \<or> er_DeviceToken r = [] then Some IncompleteResponse
                   else if profile_incomplete (er_WireGuard r) then Some IncompleteProfile else None)
       (doJSON (text_env.truncate env) net POST ''/v1/enroll'' [] (Some (EnrollBody req)) (Some (ce_enroll env))
          \<lparr>er_DeviceID = [], er_DeviceToken = [], er_Config = zero_config, er_WireGuard = zero_profile\<rparr> c)"

definition Login :: "client_env \<Rightarrow> network \<Rightarrow> client \<Rightarrow> string \<Rightarrow> string \<Rightarrow> login_response reply" where
  "Login env net c username password =
     checked (\<lambda>r. if lr_AccessToken r = [] \<or> lr_AccessExpiresAt r = 0 \<or> lr_UserID r = [] then Some IncompleteResponse else None)
       (doJSON (text_env.truncate env) net POST ''/v1/auth/login'' [] (Some (LoginBody username password)) (Some (ce_login env))
          \<lparr>lr_AccessToken = [], lr_AccessExpiresAt = 0, lr_UserID = [], lr_Username = []\<rparr> c)"

definition registerDevice :: "client_env \<Rightarrow> network \<Rightarrow> client \<Rightarrow> string \<Rightarrow> string \<Rightarrow> registration_request \<Rightarrow> registration_response reply" where
  "registerDevice env net c path accessToken req =
     checked (\<lambda>r. if dr_DeviceID r = [] \<or> dr_AccessToken r = [] \<or> dr_RefreshToken r = [] then Some IncompleteResponse
                   else if profile_incomplete (dr_WireGuard r) then Some IncompleteProfile else None)
       (doJSON (text_env.truncate env) net POST path accessToken (Some (RegisterBody req)) (Some (ce_register env))
          \<lparr>dr_DeviceID = [], dr_AccessToken = [], dr_AccessExpiresAt = 0, dr_RefreshToken = [], dr_RefreshExpiresAt = 0,
           dr_Config = zero_config, dr_WireGuard = zero_profile\<rparr> c)"

definition RegisterDevice :: "client_env \<Rightarrow> network \<Rightarrow> client \<Rightarrow> string \<Rightarrow> registration_request \<Rightarrow> registration_response reply" where
  "RegisterDevice env net c accessToken req = registerDevice env net c ''/v1/devices/register'' accessToken req"

definition ReauthenticateDevice :: "client_env \<Rightarrow> network \<Rightarrow> client \<Rightarrow> string \<Rightarrow> registration_request \<Rightarrow> registration_response reply" where
  "ReauthenticateDevice env net c token req =
     (if dq_DeviceID req = [] then (Inl DeviceIDRequired, c, [])
      else registerDevice env net c ''/v1/devices/reauthenticate'' token req)"

definition Refresh :: "client_env \<Rightarrow> network \<Rightarrow> client \<Rightarrow> string \<Rightarrow> string \<Rightarrow> refresh_response reply" where
  "Refresh env net c refreshToken proof =
     checked (\<lambda>r. if rr_AccessToken r = [] \<or> rr_RefreshToken r = [] \<or> rr_AccessExpiresAt r = 0 \<or> rr_RefreshExpiresAt r = 0
                   then Some IncompleteResponse else None)
       (doJSON (text_env.truncate env) net POST ''/v1/auth/refresh'' [] (Some (RefreshBody refreshToken proof)) (Some (ce_refresh env))
          \<lparr>rr_DeviceID = [], rr_AccessToken = [], rr_AccessExpiresAt = 0, rr_RefreshToken = [], rr_RefreshExpiresAt = 0\<rparr> c)"

text \<open>Calls whose answer is not read.\<close>

definition call :: "client_env \<Rightarrow> network \<Rightarrow> client \<Rightarrow> string \<Rightarrow> string \<Rightarrow> request_body \<Rightarrow> unit reply" where
  "call env net c path token body =
     checked (\<lambda>_. None) (doJSON (text_env.truncate env) net POST path token (Some body) None () c)"

definition Logout :: "client_env \<Rightarrow> network \<Rightarrow> client \<Rightarrow> string \<Rightarrow> string \<Rightarrow> unit reply" where
  "Logout env net c accessToken refreshToken = call env net c ''/v1/auth/logout'' accessToken (LogoutBody refreshToken)"

definition ListDevices :: "client_env \<Rightarrow> network \<Rightarrow> client \<Rightarrow> string \<Rightarrow> device_summary list reply" where
  "ListDevices env net c accessToken =
     checked (\<lambda>_. None) (doJSON (text_env.truncate env) net GET ''/v1/devices'' accessToken None (Some (ce_devices env)) [] c)"

definition RevokeDevice :: "client_env \<Rightarrow> network \<Rightarrow> client \<Rightarrow> string \<Rightarrow> string \<Rightarrow> unit reply" where
  "RevokeDevice env net c accessToken deviceID = call env net c ''/v1/devices/revoke'' accessToken (RevokeBody deviceID)"

definition FetchConfig :: "client_env \<Rightarrow> network \<Rightarrow> client \<Rightarrow> runtime_config reply" where
  "FetchConfig env net c =
     checked (\<lambda>_. None) (doJSON (text_env.truncate env) net GET ''/v1/config'' (cl_Token c) None (Some (ce_config env)) zero_config c)"

definition Heartbeat :: "client_env \<Rightarrow> network \<Rightarrow> client \<Rightarrow> heartbeat_request \<Rightarrow> unit reply" where
  "Heartbeat env net c req = call env net c ''/v1/heartbeat'' (cl_Token c) (HeartbeatBody req)"

definition FetchUpdateManifest :: "client_env \<Rightarrow> network \<Rightarrow> client \<Rightarrow> update_manifest reply" where
  "FetchUpdateManifest env net c =
     checked (\<lambda>m. if um_Version m = [] then Some ManifestWithoutVersion else None)
       (doJSON (text_env.truncate env) net GET ''/v1/update/manifest'' (cl_Token c) None (Some (ce_manifest env))
          \<lparr>um_Version = [], um_URL = [], um_SHA256 = [], um_Signature = []\<rparr> c)"

section \<open>Downloading\<close>

type_synonym files = "string \<rightharpoonup> byte list"

datatype file_op = MakeDir | OpenTemp | CopyBody | CloseTemp | RemoveTemp | RemoveTarget | RenameTemp

definition remove_file :: "(file_op \<Rightarrow> bool) \<Rightarrow> file_op \<Rightarrow> string \<Rightarrow> files \<Rightarrow> files" where
  "remove_file fail op path fs = (if fail op then fs else fs(path := None))"

text \<open>Writing a file beside its target and moving it there; a copy that breaks off leaves \<open>partial\<close>. Also how the agent copies itself.\<close>

definition write_beside :: "(file_op \<Rightarrow> bool) \<Rightarrow> byte list \<Rightarrow> string \<Rightarrow> string \<Rightarrow> byte list \<Rightarrow> files \<Rightarrow> bool \<times> files" where
  "write_beside fail partial tmp dst content fs =
     (if fail OpenTemp then (False, fs)
      else if fail CopyBody then (False, remove_file fail RemoveTemp tmp (fs(tmp \<mapsto> partial)))
      else if fail CloseTemp then (False, remove_file fail RemoveTemp tmp (fs(tmp \<mapsto> content)))
      else let fs = remove_file fail RemoveTarget dst (fs(tmp \<mapsto> content))
           in if fail RenameTemp then (False, remove_file fail RemoveTemp tmp fs)
              else (True, (fs(tmp := None))(dst \<mapsto> content)))"

definition Download ::
  "text_env \<Rightarrow> (http_request \<Rightarrow> http_response option) \<Rightarrow> (file_op \<Rightarrow> bool) \<Rightarrow> byte list \<Rightarrow> client \<Rightarrow> string \<Rightarrow> string \<Rightarrow> files \<Rightarrow>
   client_error option \<times> files" where
  "Download env net fail partial c rawURL dst fs =
     (case te_url env rawURL of
        None \<Rightarrow> (Some BadDownloadURL, fs)
      | Some (scheme, host) \<Rightarrow>
          if scheme \<noteq> ''https'' then (Some DownloadNotHTTPS, fs)
          else case net (make_request GET rawURL (cl_Token c) None) of
                 None \<Rightarrow> (Some (Unreachable rawURL), fs)
               | Some resp \<Rightarrow>
                   if hs_Status resp \<noteq> 200 then (Some (DownloadFailed (hs_Status resp)), fs)
                   else if fail MakeDir then (Some FileError, fs)
                   else case write_beside fail partial (dst @ ''.download'') dst (take (128 * 2 ^ 20) (hs_Body resp)) fs of
                          (ok, fs) \<Rightarrow> (if ok then None else Some FileError, fs))"

section \<open>Proofs of identity\<close>

definition GenerateIdentity :: "(byte list \<times> byte list) option \<Rightarrow> (string \<times> string) option" where
  "GenerateIdentity keys =
     (case keys of None \<Rightarrow> None | Some (public, private) \<Rightarrow> Some (base64_encode public, base64_encode private))"

definition SignDeviceProof :: "(byte list \<Rightarrow> byte list \<Rightarrow> byte list) \<Rightarrow> string \<Rightarrow> byte list \<Rightarrow> client_error + string" where
  "SignDeviceProof sign privateB64 message =
     (case base64_decode (trim_space privateB64) of
        None \<Rightarrow> Inl BadIdentityKey
      | Some raw \<Rightarrow> if length raw \<noteq> 64 then Inl BadIdentityKey else Inr (base64_encode (sign raw message)))"

definition RegistrationSigningBytes :: "string \<Rightarrow> string \<Rightarrow> string \<Rightarrow> byte list" where
  "RegistrationSigningBytes accessToken publicKey wireGuardPublicKey =
     bytes_of (''bpc-register-v1'' @ [CHR 0x0A] @ trim_space accessToken @ [CHR 0x0A] @ trim_space publicKey @ [CHR 0x0A] @
               trim_space wireGuardPublicKey @ [CHR 0x0A])"

definition RefreshSigningBytes :: "string \<Rightarrow> byte list" where
  "RefreshSigningBytes refreshToken = bytes_of (''bpc-refresh-v1'' @ [CHR 0x0A] @ trim_space refreshToken @ [CHR 0x0A])"

definition p2pHex :: "string \<Rightarrow> nat \<Rightarrow> bool" where
  "p2pHex value len \<longleftrightarrow>
     (case hex_decode value of None \<Rightarrow> False | Some raw \<Rightarrow> length value = len \<and> hex_encode raw = value)"

definition P2PConsentSigningBytes :: "(byte list \<Rightarrow> byte list) \<Rightarrow> string \<Rightarrow> string \<Rightarrow> bool \<Rightarrow> string \<Rightarrow> client_error + byte list" where
  "P2PConsentSigningBytes sha256 token device enabled expected =
     (if \<not> p2pHex token 64 \<or> \<not> p2pHex device 32 \<or> (expected \<noteq> [] \<and> \<not> p2pHex expected 64) then Inl BadConsentContext
      else Inr (bytes_of (''BPC-P2P-CONSENT-v1'' @ [CHR 0x0A] @ hex_encode (sha256 (bytes_of token)) @ [CHR 0x0A] @ device @ [CHR 0x0A] @
                          (if enabled then ''true'' else ''false'') @ [CHR 0x0A] @ expected)))"

section \<open>P2P requests\<close>

definition info_invalid :: "p2p_info \<Rightarrow> bool" where
  "info_invalid info \<longleftrightarrow>
     (case base64_decode (pi_IssuerPublicKey info) of
        None \<Rightarrow> True
      | Some key \<Rightarrow> length key \<noteq> 32 \<or> base64_encode key \<noteq> pi_IssuerPublicKey info) \<or>
     pi_ClusterID info = [] \<or> \<not> p2pHex (pi_DeviceID info) 32 \<or> \<not> p2pHex (pi_IssuerCertificateSHA256 info) 64 \<or>
     length (pi_Capabilities info) \<noteq> 1 \<or> hd (pi_Capabilities info) \<noteq> P2PCapability"

definition FetchP2PInfo :: "client_env \<Rightarrow> network \<Rightarrow> client \<Rightarrow> p2p_info reply" where
  "FetchP2PInfo env net c =
     checked (\<lambda>info. if info_invalid info then Some BadP2PInfo else None)
       (doJSON (text_env.truncate env) net GET ''/v1/p2p/info'' (cl_Token c) None (Some (ce_info env))
          \<lparr>pi_Capabilities = [], pi_ClusterID = [], pi_DeviceID = [], pi_IssuerPublicKey = [], pi_IssuerCertificateSHA256 = [],
           pi_Enabled = False, pi_AccessSHA256 = [], pi_AccountMode = False\<rparr> c)"

definition SetP2PConsent :: "client_env \<Rightarrow> network \<Rightarrow> client \<Rightarrow> p2p_info \<Rightarrow> bool \<Rightarrow> string \<Rightarrow> unit reply" where
  "SetP2PConsent env net c info enabled devicePrivateKey =
     (case P2PConsentSigningBytes (ce_sha256 env) (cl_Token c) (pi_DeviceID info) enabled (pi_AccessSHA256 info) of
        Inl e \<Rightarrow> (Inl e, c, [])
      | Inr message \<Rightarrow>
          (case SignDeviceProof (ce_sign env) devicePrivateKey message of
             Inl e \<Rightarrow> (Inl e, c, [])
           | Inr proof \<Rightarrow> call env net c ''/v1/p2p/consent'' (cl_Token c) (ConsentBody enabled (pi_AccessSHA256 info) proof [P2PCapability])))"

definition small_ticket :: "byte list \<Rightarrow> bool" where
  "small_ticket t \<longleftrightarrow> t \<noteq> [] \<and> length t \<le> 8192"

definition IssueP2PGrant :: "client_env \<Rightarrow> network \<Rightarrow> client \<Rightarrow> string \<Rightarrow> byte list reply" where
  "IssueP2PGrant env net c hostDeviceID =
     (if \<not> p2pHex hostDeviceID 32 then (Inl BadHost, c, [])
      else checked (\<lambda>ticket. if \<not> small_ticket ticket then Some BadGrantResponse else None)
             (doJSON (text_env.truncate env) net POST ''/v1/p2p/issue'' (cl_Token c) (Some (HostBody hostDeviceID [P2PCapability]))
                (Some (ce_bytes env)) [] c))"

definition SyncP2PPolicy :: "client_env \<Rightarrow> network \<Rightarrow> client \<Rightarrow> byte list list \<Rightarrow> byte list reply" where
  "SyncP2PPolicy env net c tickets =
     (if 16 < length tickets then (Inl TooManyTickets, c, [])
      else if \<not> list_all small_ticket tickets then (Inl BadTicket, c, [])
      else checked (\<lambda>checkpoint. if \<not> small_ticket checkpoint then Some BadCheckpointResponse else None)
             (doJSON (text_env.truncate env) net POST ''/v1/p2p/sync'' (cl_Token c) (Some (SyncBody tickets [P2PCapability]))
                (Some (ce_bytes env)) [] c))"

definition P2PPeers :: "client_env \<Rightarrow> network \<Rightarrow> client \<Rightarrow> p2p_peer list reply" where
  "P2PPeers env net c =
     checked (\<lambda>peers. if 128 < length peers then Some TooManyPeers
                       else if \<not> list_all (\<lambda>peer. p2pHex (pp_ID peer) 32) peers then Some BadPeer else None)
       (doJSON (text_env.truncate env) net POST ''/v1/p2p/peers'' (cl_Token c) (Some (CapabilityBody [P2PCapability])) (Some (ce_peers env)) [] c)"

definition ConnectP2P :: "client_env \<Rightarrow> network \<Rightarrow> client \<Rightarrow> string \<Rightarrow> unit reply" where
  "ConnectP2P env net c host =
     (if \<not> p2pHex host 32 then (Inl BadHost, c, [])
      else call env net c ''/v1/p2p/connect'' (cl_Token c) (HostBody host [P2PCapability]))"

definition P2PInbox :: "client_env \<Rightarrow> network \<Rightarrow> client \<Rightarrow> p2p_offer option reply" where
  "P2PInbox env net c =
     checked (\<lambda>offer. case offer of
                         None \<Rightarrow> None
                       | Some o' \<Rightarrow> if \<not> small_ticket (po_Ticket o') \<or> 260 < length (po_Relay o') then Some BadDelivery else None)
       (doJSON (text_env.truncate env) net POST ''/v1/p2p/inbox'' (cl_Token c) (Some (CapabilityBody [P2PCapability])) (Some (ce_offer env)) None c)"

end
