(* ===== verification/AgentClientProps.thy ===== *)
theory AgentClientProps
  imports AgentClient
begin

text \<open>The client of the control plane: its failover between Controllers, where its credentials go, and the versions and manifests of updates.\<close>

section \<open>Controller addresses\<close>

definition https_origin :: "text_env \<Rightarrow> string \<Rightarrow> bool" where
  "https_origin env e \<longleftrightarrow> e \<noteq> [] \<and> (\<exists>host. te_url env e = Some (''https'', host) \<and> host \<noteq> [])"

definition pool_ok :: "text_env \<Rightarrow> string list \<Rightarrow> bool" where
  "pool_ok env es \<longleftrightarrow> es \<noteq> [] \<and> length es \<le> 16 \<and> distinct es \<and> (\<forall>e\<in>set es. https_origin env e)"

lemma normalize_loop_pool:
  "normalize_loop env result vs = Inr es \<Longrightarrow> distinct result \<Longrightarrow> \<forall>e\<in>set result. https_origin env e \<Longrightarrow>
   distinct es \<and> (\<forall>e\<in>set es. https_origin env e)"
proof (induction vs arbitrary: result)
  case (Cons raw vs)
  let ?u = "trim_right_char CHR ''/'' (trim_space raw)"
  consider "normalize_loop env result vs = Inr es"
    | "normalize_loop env (result @ [?u]) vs = Inr es" "?u \<notin> set result" "https_origin env ?u"
    using Cons.prems(1) by (auto simp: Let_def https_origin_def split: if_splits option.splits)
  then show ?case
  proof cases
    case 1
    then show ?thesis using Cons.IH Cons.prems(2,3) by blast
  next
    case 2
    then have "distinct (result @ [?u])" and "\<forall>e\<in>set (result @ [?u]). https_origin env e" using Cons.prems(2,3) by auto
    then show ?thesis using Cons.IH 2(1) by blast
  qed
qed auto

lemma normalizeControlURLs_pool: "normalizeControlURLs env vs = Inr es \<Longrightarrow> pool_ok env es"
  using normalize_loop_pool [of env "[]" vs es]
  by (auto simp: normalizeControlURLs_def pool_ok_def split: sum.splits if_splits)

lemma NewMultiClient_pool:
  "NewMultiClient env urls token = Inr c \<Longrightarrow> pool_ok env (cl_BaseURLs c) \<and> endpoints_of c = cl_BaseURLs c \<and> cl_BaseURL c \<in> set (cl_BaseURLs c)"
  using normalizeControlURLs_pool
  by (auto simp: NewMultiClient_def endpoints_of_def pool_ok_def split: sum.splits)

section \<open>Failover\<close>

definition inconclusive :: "http_response option \<Rightarrow> bool" where
  "inconclusive r \<longleftrightarrow> (case r of None \<Rightarrow> True | Some resp \<Rightarrow> gateway_status (hs_Status resp))"

definition accepted :: "'o decoder option \<Rightarrow> 'o \<Rightarrow> http_response \<Rightarrow> 'o \<Rightarrow> bool" where
  "accepted decode out resp out' \<longleftrightarrow>
     200 \<le> hs_Status resp \<and> hs_Status resp < 300 \<and>
     (case decode of None \<Rightarrow> out' = out | Some dec \<Rightarrow> dec (take (2 ^ 20) (hs_Body resp)) out = (True, out'))"

lemma doJSON_loop_finds:
  assumes "\<forall>e\<in>set (pre @ [e]). te_url env (e @ path) \<noteq> None"
    and "\<forall>k<length pre. inconclusive (net (index + k) (make_request verb ((pre ! k) @ path) token body))"
    and "net (index + length pre) (make_request verb (e @ path) token body) = Some resp"
    and "accepted decode out resp out'"
  shows "doJSON_loop env net verb path token body decode index lastErr (pre @ e # post) out c =
         (None, out', c\<lparr>cl_BaseURL := e\<rparr>, map (\<lambda>e. make_request verb (e @ path) token body) (pre @ [e]))"
  using assms
proof (induction pre arbitrary: index lastErr)
  case Nil
  then have "\<not> gateway_status (hs_Status resp)" by (auto simp: accepted_def gateway_status_def)
  then show ?case using Nil by (auto simp: accepted_def Let_def split: option.splits)
next
  case (Cons p pre)
  have rest: "\<forall>k<length pre. inconclusive (net (Suc index + k) (make_request verb ((pre ! k) @ path) token body))"
    using Cons.prems(2) by (auto dest: spec [of _ "Suc _"])
  have step: "doJSON_loop env net verb path token body decode (Suc index) err (pre @ e # post) out c =
         (None, out', c\<lparr>cl_BaseURL := e\<rparr>, map (\<lambda>e. make_request verb (e @ path) token body) (pre @ [e]))" for err
    using Cons.IH [of "Suc index" err] Cons.prems rest by simp
  have first: "inconclusive (net index (make_request verb (p @ path) token body))"
    using Cons.prems(2) [rule_format, of 0] by simp
  show ?case using Cons.prems(1) first step by (auto simp: inconclusive_def Let_def split: option.splits)
qed

text \<open>A call asks the endpoints of a prefix of the pool, each once and in order; it remembers the last of them when it succeeds.\<close>

definition asked :: "(string \<Rightarrow> http_request) \<Rightarrow> string list \<Rightarrow> client \<Rightarrow> client_error option \<Rightarrow> client \<Rightarrow> http_request list \<Rightarrow> bool" where
  "asked mk es c err c' sent \<longleftrightarrow>
     (\<exists>n\<le>length es. sent = map mk (take n es) \<and>
       (if err = None then 0 < n \<and> c' = c\<lparr>cl_BaseURL := es ! (n - 1)\<rparr> else c' = c))"

lemma asked_none: "asked mk es c (Some e) c []"
  by (auto simp: asked_def)

lemma asked_failed: "asked mk (b # es) c (Some e) c [mk b]"
  by (auto simp: asked_def intro: exI [of _ 1])

lemma asked_done: "asked mk (b # es) c None (c\<lparr>cl_BaseURL := b\<rparr>) [mk b]"
  by (auto simp: asked_def intro!: exI [of _ 1])

lemma asked_more: "asked mk es c err c' sent \<Longrightarrow> asked mk (b # es) c err c' (mk b # sent)"
proof -
  assume "asked mk es c err c' sent"
  then obtain n where "n \<le> length es" "sent = map mk (take n es)"
    "if err = None then 0 < n \<and> c' = c\<lparr>cl_BaseURL := es ! (n - 1)\<rparr> else c' = c" by (auto simp: asked_def)
  then show ?thesis unfolding asked_def by (intro exI [of _ "Suc n"]) (auto simp: nth_Cons' split: if_splits)
qed

lemma doJSON_loop_asked:
  "doJSON_loop env net verb path token body decode index lastErr es out c = (err, out', c', sent) \<Longrightarrow>
   asked (\<lambda>e. make_request verb (e @ path) token body) es c err c' sent"
proof (induction es arbitrary: index lastErr out err out' c' sent)
  case Nil
  then show ?case using asked_none by auto
next
  case (Cons b es)
  let ?mk = "\<lambda>e. make_request verb (e @ path) token body"
  have more: "asked ?mk (b # es) c err c' (?mk b # s)"
    if "doJSON_loop env net verb path token body decode i l es o1 c = (err, out', c', s)" for i l o1 s
    using asked_more [OF Cons.IH [OF that], of b] .
  show ?case
  proof (cases "te_url env (b @ path)")
    case None
    then show ?thesis using Cons.prems asked_none by auto
  next
    case (Some u)
    note url = this
    show ?thesis
    proof (cases "net index (?mk b)")
      case None
      then show ?thesis using Cons.prems url more by (auto simp: Let_def split: prod.splits)
    next
      case (Some resp)
      then show ?thesis
        using Cons.prems url more asked_failed [of ?mk b es c] asked_done [of ?mk b es c]
        by (auto simp: Let_def split: if_splits option.splits prod.splits bool.splits)
    qed
  qed
qed

section \<open>A client to try it on\<close>

definition plain_url :: "string \<Rightarrow> (string \<times> string) option" where
  "plain_url s = (if has_prefix s ''https://'' then Some (''https'', takeWhile (\<lambda>c. c \<noteq> CHR ''/'') (drop 8 s)) else None)"

definition plain_text :: text_env where
  "plain_text = \<lparr>te_url = plain_url, te_ToLower = to_lower\<rparr>"

definition pool_client :: client where
  "pool_client = \<lparr>cl_BaseURL = ''https://a'', cl_BaseURLs = [''https://a'', ''https://b''], cl_Token = ''t''\<rparr>"

text \<open>The first Controller is overloaded, the second answers.\<close>

definition second_answers :: network where
  "second_answers n req = (if n = 0 then Some \<lparr>hs_Status = 503, hs_Body = []\<rparr> else Some \<lparr>hs_Status = 200, hs_Body = [1]\<rparr>)"

lemma trim_https: "trim_space ''https://a'' = ''https://a''" "trim_space ''https://b/'' = ''https://b/''" "trim_space ''t'' = ''t''"
  by (rule trim_space_plain; simp add: space_bytes_def space_seqs_def)+

lemma pool_client_made: "NewMultiClient plain_text [''https://a'', ''https://b/'', ''https://a''] ''t'' = Inr pool_client"
  by (simp add: NewMultiClient_def normalizeControlURLs_def trim_https trim_right_char_def plain_text_def plain_url_def has_prefix_def pool_client_def)

section \<open>The claims\<close>

text \<open>A Controller that works is found. Let every Controller before \<open>e\<close> in the pool be unreachable or answer with a gateway error (502, 503 or
  504), and let \<open>e\<close> answer with a status of success and a body that decodes. Then the call succeeds with the value \<open>e\<close> sent, remembers \<open>e\<close> as the
  address in use, and has asked exactly the Controllers up to \<open>e\<close>, each once and in the order of the pool, with the same method, path, credential
  and body.\<close>
theorem controller_failover:
  assumes "endpoints_of c = pre @ e # post"
    and "\<forall>e\<in>set (pre @ [e]). te_url env (e @ path) \<noteq> None"
    and "\<forall>k<length pre. inconclusive (net k (make_request verb ((pre ! k) @ path) token body))"
    and "net (length pre) (make_request verb (e @ path) token body) = Some resp"
    and "accepted decode out resp out'"
  shows "doJSON env net verb path token body decode out c =
         (None, out', c\<lparr>cl_BaseURL := e\<rparr>, map (\<lambda>e. make_request verb (e @ path) token body) (pre @ [e]))"
  using assms doJSON_loop_finds [of pre e env path net 0 verb token body resp decode out out' None post c]
  by (simp add: doJSON_def)

theorem controller_failover_witness:
  "doJSON plain_text second_answers GET ''/v1/config'' ''t'' None (Some (\<lambda>bs _. (True, bs))) [] pool_client =
   (None, [1], pool_client\<lparr>cl_BaseURL := ''https://b''\<rparr>,
    [make_request GET ''https://a/v1/config'' ''t'' None, make_request GET ''https://b/v1/config'' ''t'' None])"
  using controller_failover [of pool_client "[''https://a'']" "''https://b''" "[]" plain_text "''/v1/config''" second_answers GET "''t''" None
      "\<lparr>hs_Status = 200, hs_Body = [1]\<rparr>" "Some (\<lambda>bs _. (True, bs))" "[]" "[1]"]
  by (simp add: pool_client_def endpoints_of_def plain_text_def plain_url_def has_prefix_def second_answers_def inconclusive_def gateway_status_def
      accepted_def)



section \<open>Versions\<close>

text \<open>A text denotes a version when, without surrounding blanks and one leading \<open>v\<close>, it is the three decimals with dots between them.\<close>

definition denotes :: "string \<Rightarrow> int \<Rightarrow> int \<Rightarrow> int \<Rightarrow> bool" where
  "denotes s a b c \<longleftrightarrow> trim_prefix (trim_space s) ''v'' = version_text a b c \<and> int64_ok a \<and> int64_ok b \<and> int64_ok c"

lemma parse_denotes: "parseStableSemver s = Some [a, b, c] \<longleftrightarrow> denotes s a b c"
  unfolding denotes_def by (rule parseStableSemver_iff)

text \<open>An update is offered exactly when it is newer: the two texts are versions of three decimals of 64 bits and the first version is the greater one in
  lexicographic order. A text of another form is never newer than another and nothing is newer than it.\<close>
theorem version_order:
  "IsNewerVersion s t \<longleftrightarrow>
   (\<exists>a b c x y z. denotes s a b c \<and> denotes t x y z \<and> (x < a \<or> x = a \<and> (y < b \<or> y = b \<and> z < c)))"
proof
  assume "IsNewerVersion s t"
  then obtain ns ms where parsed: "parseStableSemver s = Some ns" "parseStableSemver t = Some ms" "newer_loop ns ms"
    by (auto simp: IsNewerVersion_def split: option.splits)
  obtain a b c where ns: "ns = [a, b, c]" using parseStableSemver_shape [OF parsed(1)] by blast
  obtain x y z where ms: "ms = [x, y, z]" using parseStableSemver_shape [OF parsed(2)] by blast
  have "x < a \<or> x = a \<and> (y < b \<or> y = b \<and> z < c)" using parsed(3) by (simp add: ns ms split: if_splits)
  moreover have "denotes s a b c" "denotes t x y z" using parsed(1,2) by (simp_all add: ns ms parse_denotes)
  ultimately show "\<exists>a b c x y z. denotes s a b c \<and> denotes t x y z \<and> (x < a \<or> x = a \<and> (y < b \<or> y = b \<and> z < c))" by blast
next
  assume "\<exists>a b c x y z. denotes s a b c \<and> denotes t x y z \<and> (x < a \<or> x = a \<and> (y < b \<or> y = b \<and> z < c))"
  then show "IsNewerVersion s t" by (auto simp: IsNewerVersion_def parse_denotes [symmetric])
qed

section \<open>What a signature covers\<close>

lemma trim_space_parts: "\<exists>w w'. s = w @ trim_space s @ w' \<and> set w \<subseteq> set space_bytes \<and> set w' \<subseteq> set space_bytes"
proof -
  let ?t = "trim_front space_seqs s"
  obtain w where w: "s = w @ ?t" "set w \<subseteq> set space_bytes"
    using trim_front_blank [of s space_seqs] unfolding space_bytes_def by blast
  obtain v where v: "rev ?t = v @ trim_front (map rev space_seqs) (rev ?t)" "set v \<subseteq> set (concat (map rev space_seqs))"
    using trim_front_blank [of "rev ?t" "map rev space_seqs"] by blast
  then have "?t = trim_space s @ rev v" unfolding trim_space_def by (metis rev_append rev_rev_ident)
  moreover have "set (rev v) \<subseteq> set space_bytes" using v(2) by (auto simp: space_bytes_def)
  ultimately show ?thesis using w by metis
qed

lemma newline_at_edge:
  assumes s: "w @ t @ w' = a @ CHR 0x0A # b" and t: "CHR 0x0A \<notin> set t"
    and "set w \<subseteq> S" "set w' \<subseteq> S"
  shows "set a \<subseteq> S \<or> set b \<subseteq> S"
proof -
  from s consider (front) us where "w = a @ CHR 0x0A # us" | (mid) us where "a = w @ us" "t @ w' = us @ CHR 0x0A # b"
    by (fastforce simp: append_eq_append_conv2 append_eq_Cons_conv)
  then show ?thesis
  proof cases
    case front
    then show ?thesis using assms(3) by auto
  next
    case mid
    then obtain vs where "w' = vs @ CHR 0x0A # b"
      using t by (auto simp: append_eq_append_conv2 append_eq_Cons_conv Cons_eq_append_conv)
    then show ?thesis using assms(4) by auto
  qed
qed

lemma version_text_chars: "CHR 0x0A \<notin> set (version_text a b c) \<and> CHR ''.'' \<in> set (version_text a b c)"
proof -
  have "CHR 0x0A \<notin> set (radix 10 n)" for n
    using radix_digits [of n] by (auto simp: is_digit_def less_eq_char_def)
  then have "CHR 0x0A \<notin> set (Itoa n)" for n by (simp add: Itoa_def)
  then show ?thesis by (simp add: version_text_def)
qed

lemma stable_no_newline:
  assumes "parseStableSemver v = Some ns" "v = a @ CHR 0x0A # b"
  shows "set a \<subseteq> set space_bytes \<or> set b \<subseteq> set space_bytes"
proof -
  obtain x y z where "ns = [x, y, z]" using parseStableSemver_shape [OF assms(1)] by blast
  then have core: "trim_prefix (trim_space v) ''v'' = version_text x y z" using assms(1) parseStableSemver_iff by auto
  have "set (trim_space v) \<subseteq> insert CHR ''v'' (set (version_text x y z))"
    using core unfolding trim_prefix_def has_prefix_def
    by (auto split: if_splits) (metis append_take_drop_id Un_iff empty_iff insert_iff list.set set_append)
  then have "CHR 0x0A \<notin> set (trim_space v)" using version_text_chars by fastforce
  moreover obtain w w' where "v = w @ trim_space v @ w'" "set w \<subseteq> set space_bytes" "set w' \<subseteq> set space_bytes"
    using trim_space_parts by blast
  ultimately show ?thesis using newline_at_edge [of w "trim_space v" w' a b] assms(2) by metis
qed

lemma stable_has_dot: "parseStableSemver v = Some ns \<Longrightarrow> CHR ''.'' \<in> set v"
proof -
  assume p: "parseStableSemver v = Some ns"
  obtain x y z where "ns = [x, y, z]" using parseStableSemver_shape [OF p] by blast
  then have "trim_prefix (trim_space v) ''v'' = version_text x y z" using p parseStableSemver_iff by auto
  then have "CHR ''.'' \<in> set (trim_space v)"
    using version_text_chars unfolding trim_prefix_def by (metis in_set_dropD)
  then show ?thesis using trim_space_parts [of v] by (metis Un_iff set_append)
qed

lemma hex_decode_chars: "hex_decode s = Some bs \<Longrightarrow> c \<in> set s \<Longrightarrow> hex_val c \<noteq> None"
  by (induction s arbitrary: bs rule: hex_decode.induct) (auto split: option.splits)

lemma hex_lower: "hex_val c \<noteq> None \<Longrightarrow> to_lower [c] \<noteq> [CHR 0x0A] \<and> hd (to_lower [c]) \<notin> set space_bytes"
proof -
  assume "hex_val c \<noteq> None"
  then have "(of_char c :: nat) \<in> {48..<58} \<union> ({97..<103} \<union> {65..<71})"
    by (simp add: hex_val_def Let_def split: if_splits)
  then have n: "(of_char c :: nat) \<in> set ([48..<58] @ [97..<103] @ [65..<71])" by (simp only: set_append set_upt)
  have "\<forall>n\<in>set ([48..<58] @ [97..<103] @ [65..<71]). to_lower [char_of n] \<noteq> [CHR 0x0A] \<and> hd (to_lower [char_of n]) \<notin> set space_bytes"
    by code_simp
  from bspec [OF this n] show ?thesis by simp
qed

definition digest_ok :: "string \<Rightarrow> bool" where
  "digest_ok d \<longleftrightarrow> hex_decode d \<noteq> None \<and> length d = 64"

lemma digest_chars: "digest_ok d \<Longrightarrow> length (to_lower d) = 64 \<and> (\<forall>c\<in>set (to_lower d). c \<noteq> CHR 0x0A \<and> c \<notin> set space_bytes)"
  using hex_lower hex_decode_chars by (fastforce simp: digest_ok_def to_lower_def)

lemma append_newline_prefix:
  assumes "d @ CHR 0x0A # u = r @ x" "CHR 0x0A \<notin> set d" "CHR 0x0A \<in> set r"
  shows "\<exists>q. r = d @ CHR 0x0A # q"
  using assms by (auto simp: append_eq_append_conv2 Cons_eq_append_conv)

lemma signing_split:
  assumes eq: "v1 @ CHR 0x0A # d1 @ CHR 0x0A # u1 = v2 @ CHR 0x0A # d2 @ CHR 0x0A # u2"
    and d: "length d1 = 64" "length d2 = 64" "\<forall>c\<in>set d1. c \<noteq> CHR 0x0A \<and> c \<notin> set space_bytes"
    and v: "parseStableSemver v1 = Some n1" "parseStableSemver v2 = Some n2" "length v1 \<le> length v2"
  shows "v1 = v2 \<and> d1 = d2 \<and> u1 = u2"
proof -
  obtain r where r: "v2 = v1 @ r" "CHR 0x0A # d1 @ CHR 0x0A # u1 = r @ CHR 0x0A # d2 @ CHR 0x0A # u2"
    using eq v(3) by (auto simp: append_eq_append_conv2)
  show ?thesis
  proof (cases r)
    case Nil
    then show ?thesis using r d by simp
  next
    case (Cons c r')
    have c: "c = CHR 0x0A" and rest: "d1 @ CHR 0x0A # u1 = (r' @ [CHR 0x0A]) @ d2 @ CHR 0x0A # u2" using Cons r(2) by auto
    obtain q where q: "r' @ [CHR 0x0A] = d1 @ CHR 0x0A # q"
      using append_newline_prefix [OF rest] d(3) by auto
    have "v2 = v1 @ CHR 0x0A # r'" using r(1) Cons c by simp
    then have "set v1 \<subseteq> set space_bytes \<or> set r' \<subseteq> set space_bytes" using stable_no_newline [OF v(2)] by blast
    moreover have "CHR ''.'' \<in> set v1" using stable_has_dot [OF v(1)] .
    moreover have "CHR ''.'' \<notin> set space_bytes" by (simp add: space_bytes_def space_seqs_def)
    moreover have "hd d1 \<in> set d1" using d(1) by (cases d1) auto
    moreover have "hd d1 \<in> set r'"
    proof -
      have "hd d1 \<in> set (r' @ [CHR 0x0A])" using q \<open>hd d1 \<in> set d1\<close> by simp
      then show ?thesis using d(3) \<open>hd d1 \<in> set d1\<close> by auto
    qed
    ultimately show ?thesis using d(3) by blast
  qed
qed

lemma bytes_of_inject: "bytes_of s = bytes_of t \<longleftrightarrow> s = t"
  by (metis string_of_bytes_of)

definition release :: update_manifest where
  "release = \<lparr>um_Version = ''1.2.3'', um_URL = ''https://a/x'', um_SHA256 = hex_encode (replicate 32 0), um_Signature = base64_encode [0]\<rparr>"

lemma release_checks: "VerifyUpdateManifest Some (\<lambda>_ _ _. True) release (base64_encode [0]) = None"
proof -
  have "hex_encode (replicate 32 0) \<noteq> []" by (metis length_hex_encode length_replicate list.size(3) mult_eq_0_iff zero_neq_numeral)
  moreover have "base64_encode [0] \<noteq> []" by simp
  ultimately show ?thesis by (simp add: VerifyUpdateManifest_def ParseUpdatePublicKey_def release_def del: base64_encode.simps)
qed

lemma release_version: "parseStableSemver ''1.2.3'' = Some [1, 2, 3]"
proof -
  have t: "trim_space ''1.2.3'' = ''1.2.3''" by (rule trim_space_plain; simp add: space_bytes_def space_seqs_def)
  have "Itoa 1 = ''1''" "Itoa 2 = ''2''" "Itoa 3 = ''3''" by code_simp+
  then have "denotes ''1.2.3'' 1 2 3" by (simp add: denotes_def t trim_prefix_def has_prefix_def version_text_def int64_ok_def)
  then show ?thesis by (simp add: parse_denotes)
qed

text \<open>C29. The signature of an update covers all that is installed by it. Let two manifests pass the check of their form and signature, and name versions the agent
  could accept. If the bytes that are signed are the same for both, then both name the same version, the same address and the same digest (up to the
  case of its letters): no part of one can be read as another part, although the parts are only separated by line ends.\<close>
theorem signature_binds_update:
  assumes "VerifyUpdateManifest pem verify m key = None" "VerifyUpdateManifest pem verify m' key' = None"
    and "parseStableSemver (um_Version m) = Some n" "parseStableSemver (um_Version m') = Some n'"
    and "manifestSigningBytes m = manifestSigningBytes m'"
  shows "um_Version m = um_Version m' \<and> um_URL m = um_URL m' \<and> to_lower (um_SHA256 m) = to_lower (um_SHA256 m')"
proof -
  have d: "digest_ok (um_SHA256 m)" "digest_ok (um_SHA256 m')"
    using assms(1,2) by (auto simp: VerifyUpdateManifest_def digest_ok_def split: if_splits)
  have eq: "um_Version m @ CHR 0x0A # to_lower (um_SHA256 m) @ CHR 0x0A # um_URL m @ [CHR 0x0A] =
            um_Version m' @ CHR 0x0A # to_lower (um_SHA256 m') @ CHR 0x0A # um_URL m' @ [CHR 0x0A]"
    using assms(5) by (simp add: manifestSigningBytes_def bytes_of_inject)
  note chars = digest_chars [OF d(1)] digest_chars [OF d(2)]
  show ?thesis
  proof (cases "length (um_Version m) \<le> length (um_Version m')")
    case True
    then show ?thesis using signing_split [OF eq _ _ _ assms(3,4)] chars by simp
  next
    case False
    then show ?thesis using signing_split [OF eq [symmetric] _ _ _ assms(4,3)] chars by simp
  qed
qed

theorem signature_binds_update_witness:
  "VerifyUpdateManifest Some (\<lambda>_ _ _. True) release (base64_encode [0]) = None \<and>
   um_URL release = um_URL (release\<lparr>um_Signature := (base64_encode [0])\<rparr>)"
proof -
  have "release\<lparr>um_Signature := (base64_encode [0])\<rparr> = release" by (simp add: release_def del: base64_encode.simps)
  then show ?thesis
    using signature_binds_update [OF release_checks release_checks, of "[1, 2, 3]" "[1, 2, 3]"] release_checks release_version
    by (simp add: release_def del: base64_encode.simps)
qed

end
