(* ===== verification/AgentState.thy ===== *)
theory AgentState
  imports AgentClient
begin

text \<open>The life of a Device's credentials and configuration: \<^verbatim>\<open>SaveState\<close> and \<^verbatim>\<open>LoadState\<close> of \<^verbatim>\<open>internal/agentctl/control.go\<close>, enrollment, refresh,
  synchronization and update of \<^verbatim>\<open>cmd/bpc-agent/main.go\<close>, and \<^verbatim>\<open>cmd/bpc-agent/session_recovery.go\<close>. The state file and the outcome of every
  file operation, the answers of the network call by call, the clock, the random source and the user's answers are arguments, and so is the JSON text of a state, of any type \<open>'b\<close>.\<close>

section \<open>The state file\<close>

datatype 'b state_file = Absent | Unreadable | Content 'b

datatype save_op = StateDir | CreateTemp | CopyACL | ChmodTemp | WriteTemp | SyncTemp | CloseState | RenameState

record 'b agent_env = client_env +
  ae_encode :: "agent_state \<Rightarrow> 'b"
  ae_decode :: "'b \<Rightarrow> agent_state option"
  ae_bootstrap :: "byte list \<Rightarrow> bootstrap option"
  ae_pem :: "byte list \<Rightarrow> byte list option"
  ae_verify :: "byte list \<Rightarrow> byte list \<Rightarrow> byte list \<Rightarrow> bool"
  ae_base :: "byte list \<Rightarrow> byte list"
  ae_x25519 :: "byte list \<Rightarrow> byte list option"
  ae_version :: string

abbreviation tenv :: "'b agent_env \<Rightarrow> text_env" where "tenv env \<equiv> text_env.truncate env"
abbreviation cenv :: "'b agent_env \<Rightarrow> client_env" where "cenv env \<equiv> client_env.truncate env"

datatype session_error =
    ClientFailed client_error | ConfigFailed agent_error | ProfileFailed agent_error | SaveFailed | NoStateFile | StateUnreadable
  | StateInvalid | StateVersionUnknown int | AnotherDevice | DifferentIdentity | KeyGeneration | NoCredentials | UsernameEmpty | PasswordEmpty
  | WireGuardKeyInvalid | LegacyCapture agent_error | StopFailed | StatusFailed | UpdateFailed update_error | VersionMismatch | ProbeFailed
  | HelperFailed | BootstrapMissing | BootstrapFooter | BootstrapInvalid

text \<open>The temporary file is gone again in every case; only the rename changes the state file.\<close>

definition SaveState :: "'b agent_env \<Rightarrow> (save_op \<Rightarrow> bool) \<Rightarrow> agent_state \<Rightarrow> 'b state_file \<Rightarrow> session_error option \<times> 'b state_file" where
  "SaveState env fail st d =
     (if fail StateDir \<or> fail CreateTemp \<or> fail CopyACL \<or> fail ChmodTemp \<or> fail WriteTemp \<or> fail SyncTemp \<or> fail CloseState \<or> fail RenameState
      then (Some SaveFailed, d) else (None, Content (ae_encode env st)))"

definition LoadState :: "'b agent_env \<Rightarrow> 'b state_file \<Rightarrow> session_error + agent_state" where
  "LoadState env d =
     (case d of
        Absent \<Rightarrow> Inl NoStateFile
      | Unreadable \<Rightarrow> Inl StateUnreadable
      | Content raw \<Rightarrow>
          (case ae_decode env raw of
             None \<Rightarrow> Inl StateInvalid
           | Some st \<Rightarrow> if as_Version st \<noteq> StateVersion \<and> as_Version st \<noteq> LegacyStateVersion
                        then Inl (StateVersionUnknown (as_Version st)) else Inr st))"

section \<open>Refreshing and synchronizing\<close>

text \<open>The agent's memory: its client and its state.\<close>

record agent =
  ag_client :: client
  ag_state :: agent_state

definition with_tokens :: "agent_state \<Rightarrow> string \<Rightarrow> int \<Rightarrow> string \<Rightarrow> int \<Rightarrow> agent_state" where
  "with_tokens st access accessEnd refresh refreshEnd =
     st\<lparr>as_Version := StateVersion, as_AccessToken := access, as_AccessExpiresAt := accessEnd, as_RefreshToken := refresh,
        as_RefreshExpiresAt := refreshEnd, as_DeviceToken := []\<rparr>"

definition ensureControlCredential ::
  "'b agent_env \<Rightarrow> network \<Rightarrow> gotime \<Rightarrow> (save_op \<Rightarrow> bool) \<Rightarrow> agent \<Rightarrow> 'b state_file \<Rightarrow> session_error option \<times> agent \<times> 'b state_file" where
  "ensureControlCredential env net now fail a d =
     (let st = ag_state a; c = ag_client a
      in if trim_space (as_RefreshToken st) = [] then (None, a\<lparr>ag_client := c\<lparr>cl_Token := ControlCredential st\<rparr>\<rparr>, d)
         else if \<not> NeedsRefresh st now then (None, a\<lparr>ag_client := c\<lparr>cl_Token := as_AccessToken st\<rparr>\<rparr>, d)
         else case SignDeviceProof (ce_sign env) (as_PrivateKey st) (RefreshSigningBytes (as_RefreshToken st)) of
                Inl e \<Rightarrow> (Some (ClientFailed e), a, d)
              | Inr proof \<Rightarrow>
                  (case Refresh (cenv env) net c (as_RefreshToken st) proof of
                     (Inl e, c, _) \<Rightarrow> (Some (ClientFailed e), a\<lparr>ag_client := c\<rparr>, d)
                   | (Inr r, c, _) \<Rightarrow>
                       if rr_DeviceID r \<noteq> [] \<and> rr_DeviceID r \<noteq> as_DeviceID st then (Some AnotherDevice, a\<lparr>ag_client := c\<rparr>, d)
                       else let st = with_tokens st (rr_AccessToken r) (rr_AccessExpiresAt r) (rr_RefreshToken r) (rr_RefreshExpiresAt r)
                            in case SaveState env fail st d of
                                 (e, d) \<Rightarrow> (e, \<lparr>ag_client = c\<lparr>cl_Token := rr_AccessToken r\<rparr>, ag_state = st\<rparr>, d)))"

text \<open>The profile the Controller sends has no private key, and may leave out the preshared key.\<close>

definition keep_keys :: "wireguard_profile \<Rightarrow> wireguard_profile \<Rightarrow> wireguard_profile" where
  "keep_keys old p =
     (let p = p\<lparr>wp_PrivateKey := wp_PrivateKey old\<rparr>
      in if trim_space (wp_PresharedKey p) = [] then p\<lparr>wp_PresharedKey := wp_PresharedKey old\<rparr> else p)"

definition sync_profile :: "agent_state \<Rightarrow> runtime_config \<Rightarrow> session_error + agent_state \<times> runtime_config" where
  "sync_profile st cfg =
     (case rc_WireGuard cfg of
        None \<Rightarrow> Inr (st, cfg)
      | Some p \<Rightarrow>
          let profile = keep_keys (as_WireGuard st) p
          in case ValidateWireGuardProfile profile of
               Some e \<Rightarrow> Inl (ProfileFailed e)
             | None \<Rightarrow> Inr (st\<lparr>as_WireGuard := profile\<rparr>, cfg\<lparr>rc_WireGuard := None\<rparr>))"

definition syncRuntimeState ::
  "'b agent_env \<Rightarrow> network \<Rightarrow> network \<Rightarrow> gotime \<Rightarrow> (save_op \<Rightarrow> bool) \<Rightarrow> (save_op \<Rightarrow> bool) \<Rightarrow> bool \<Rightarrow> agent \<Rightarrow> 'b state_file \<Rightarrow>
   session_error option \<times> agent \<times> 'b state_file" where
  "syncRuntimeState env net1 net2 now fail1 fail2 ui_ok a d =
     (case ensureControlCredential env net1 now fail1 a d of
        (Some e, a, d) \<Rightarrow> (Some e, a, d)
      | (None, a, d) \<Rightarrow>
          (case FetchConfig (cenv env) net2 (ag_client a) of
             (Inl e, c, _) \<Rightarrow> (Some (ClientFailed e), a\<lparr>ag_client := c\<rparr>, d)
           | (Inr cfg, c, _) \<Rightarrow>
               (case ValidateRuntimeConfig (tenv env) cfg of
                  Some e \<Rightarrow> (Some (ConfigFailed e), a\<lparr>ag_client := c\<rparr>, d)
                | None \<Rightarrow>
                    (case sync_profile (ag_state a) cfg of
                       Inl e \<Rightarrow> (Some e, a\<lparr>ag_client := c\<rparr>, d)
                     | Inr (st, cfg) \<Rightarrow>
                         let st = st\<lparr>as_Config := cfg, as_ControlURL := cl_BaseURL c, as_ControlURLs := rc_Controllers cfg\<rparr>;
                             a = \<lparr>ag_client = c, ag_state = st\<rparr>
                         in case SaveState env fail2 st d of
                              (Some e, d) \<Rightarrow> (Some e, a, d)
                            | (None, d) \<Rightarrow> (if ui_ok then None else Some StatusFailed, a, d)))))"

section \<open>Signing in again\<close>

definition recovered_state :: "agent_state \<Rightarrow> registration_response \<Rightarrow> agent_state" where
  "recovered_state previous r =
     (let wg = (dr_WireGuard r)\<lparr>wp_PrivateKey := wp_PrivateKey (as_WireGuard previous)\<rparr>;
          wg = (if wp_PresharedKey wg = [] then wg\<lparr>wp_PresharedKey := wp_PresharedKey (as_WireGuard previous)\<rparr> else wg)
      in (with_tokens previous (dr_AccessToken r) (dr_AccessExpiresAt r) (dr_RefreshToken r) (dr_RefreshExpiresAt r))
           \<lparr>as_Config := dr_Config r, as_WireGuard := wg\<rparr>)"

definition accept_recovery ::
  "'b agent_env \<Rightarrow> bool \<Rightarrow> (save_op \<Rightarrow> bool) \<Rightarrow> agent_state \<Rightarrow> registration_response \<Rightarrow> 'b state_file \<Rightarrow> (session_error + agent_state) \<times> 'b state_file" where
  "accept_recovery env stop_ok fail previous r d =
     (if dr_DeviceID r \<noteq> as_DeviceID previous \<or> wp_Address (dr_WireGuard r) \<noteq> wp_Address (as_WireGuard previous) then (Inl DifferentIdentity, d)
      else let st = recovered_state previous r
      in case ValidateWireGuardProfile (as_WireGuard st) of
           Some e \<Rightarrow> (Inl (ProfileFailed e), d)
         | None \<Rightarrow>
             (case state_ValidateRuntimeConfig (tenv env) st of
                Some e \<Rightarrow> (Inl (ConfigFailed e), d)
              | None \<Rightarrow>
                  if \<not> stop_ok then (Inl StopFailed, d)
                  else case SaveState env fail st d of (Some e, d) \<Rightarrow> (Inl e, d) | (None, d) \<Rightarrow> (Inr st, d)))"

text \<open>The proof that the Device is the one it was: signed with its identity, over its keys and the token of the new login.\<close>

definition recovery_request :: "'b agent_env \<Rightarrow> agent_state \<Rightarrow> login_response \<Rightarrow> session_error + registration_request" where
  "recovery_request env previous login =
     (case base64_decode (wp_PrivateKey (as_WireGuard previous)) of
        None \<Rightarrow> Inl WireGuardKeyInvalid
      | Some private \<Rightarrow>
          (case ae_x25519 env private of
             None \<Rightarrow> Inl WireGuardKeyInvalid
           | Some public \<Rightarrow>
               let wgPublic = base64_encode public
               in case SignDeviceProof (ce_sign env) (as_PrivateKey previous)
                         (RegistrationSigningBytes (lr_AccessToken login) (as_PublicKey previous) wgPublic) of
                    Inl e \<Rightarrow> Inl (ClientFailed e)
                  | Inr proof \<Rightarrow>
                      Inr \<lparr>dq_DeviceID = as_DeviceID previous, dq_Name = as_DeviceName previous, dq_PublicKey = as_PublicKey previous,
                           dq_WireGuardPublicKey = wgPublic, dq_Version = ae_version env, dq_Proof = proof\<rparr>))"

definition recoverDeviceSession ::
  "'b agent_env \<Rightarrow> network \<Rightarrow> network \<Rightarrow> (string \<times> string) option \<Rightarrow> bool \<Rightarrow> (save_op \<Rightarrow> bool) \<Rightarrow> agent_state \<Rightarrow> 'b state_file \<Rightarrow>
   (session_error + agent_state) \<times> 'b state_file" where
  "recoverDeviceSession env net1 net2 credentials stop_ok fail previous d =
     (case NewMultiClient (tenv env) (state_ControlEndpoints (tenv env) previous) [] of
        Inl e \<Rightarrow> (Inl (ConfigFailed e), d)
      | Inr c \<Rightarrow>
          (case credentials of
             None \<Rightarrow> (Inl NoCredentials, d)
           | Some (username, password) \<Rightarrow>
               (case Login (cenv env) net1 c username password of
                  (Inl e, _) \<Rightarrow> (Inl (ClientFailed e), d)
                | (Inr login, c, _) \<Rightarrow>
                    (case recovery_request env previous login of
                       Inl e \<Rightarrow> (Inl e, d)
                     | Inr req \<Rightarrow>
                         (case ReauthenticateDevice (cenv env) net2 c (lr_AccessToken login) req of
                            (Inl e, _) \<Rightarrow> (Inl (ClientFailed e), d)
                          | (Inr r, _) \<Rightarrow> accept_recovery env stop_ok fail previous r d)))))"

section \<open>Enrollment\<close>

definition readLoginCredentials :: "(string \<times> string) option \<Rightarrow> session_error + string \<times> string" where
  "readLoginCredentials answer =
     (case answer of
        None \<Rightarrow> Inl NoCredentials
      | Some (username, password) \<Rightarrow>
          let username = trim_space username
          in if username = [] then Inl UsernameEmpty else if password = [] then Inl PasswordEmpty else Inr (username, password))"

text \<open>The profile that is provisioned, or the one of the tunnel the agent replaces when that one is complete.\<close>

definition provision :: "wireguard_profile \<Rightarrow> wireguard_profile \<Rightarrow> string \<Rightarrow> session_error + wireguard_profile" where
  "provision legacy p private =
     (let profile = p\<lparr>wp_PrivateKey := private\<rparr>
      in case ValidateWireGuardProfile profile of
           None \<Rightarrow> Inr profile
         | Some e \<Rightarrow> if Complete legacy then Inr legacy else Inl (ProfileFailed e))"

record fresh_keys =
  fk_public :: string
  fk_private :: string
  fk_wgPrivate :: string
  fk_wgPublic :: string

definition enrolled_state :: "bootstrap \<Rightarrow> fresh_keys \<Rightarrow> string \<Rightarrow> runtime_config \<Rightarrow> wireguard_profile \<Rightarrow> agent_state" where
  "enrolled_state b k deviceID cfg profile =
     \<lparr>as_Version = StateVersion, as_DeviceID = deviceID, as_DeviceName = bs_Device b, as_AccessToken = [], as_AccessExpiresAt = 0,
      as_RefreshToken = [], as_RefreshExpiresAt = 0, as_DeviceToken = [], as_PublicKey = fk_public k, as_PrivateKey = fk_private k,
      as_ControlURL = bs_ControlURL b, as_ControlURLs = rc_Controllers cfg, as_UpdatePubKey = bs_UpdatePublicKey b,
      as_Config = cfg, as_WireGuard = profile\<rparr>"

definition enroll_legacy :: "'b agent_env \<Rightarrow> network \<Rightarrow> bootstrap \<Rightarrow> wireguard_profile \<Rightarrow> fresh_keys \<Rightarrow> client \<Rightarrow> session_error + agent_state" where
  "enroll_legacy env net b legacy k c =
     (case Enroll (cenv env) net c
             \<lparr>eq_Token = bs_EnrollToken b, eq_Device = bs_Device b, eq_PublicKey = fk_public k, eq_WireGuardPublicKey = fk_wgPublic k,
              eq_Version = ae_version env\<rparr> of
        (Inl e, _) \<Rightarrow> Inl (ClientFailed e)
      | (Inr r, _) \<Rightarrow>
          (case ValidateRuntimeConfig (tenv env) (er_Config r) of
             Some e \<Rightarrow> Inl (ConfigFailed e)
           | None \<Rightarrow>
               (case provision legacy (er_WireGuard r) (fk_wgPrivate k) of
                  Inl e \<Rightarrow> Inl e
                | Inr profile \<Rightarrow> Inr ((enrolled_state b k (er_DeviceID r) (er_Config r) profile)\<lparr>as_DeviceToken := er_DeviceToken r\<rparr>))))"

definition register_new ::
  "'b agent_env \<Rightarrow> network \<Rightarrow> network \<Rightarrow> (string \<times> string) option \<Rightarrow> bootstrap \<Rightarrow> wireguard_profile \<Rightarrow> fresh_keys \<Rightarrow> client \<Rightarrow> session_error + agent_state" where
  "register_new env net1 net2 answer b legacy k c =
     (case readLoginCredentials answer of
        Inl e \<Rightarrow> Inl e
      | Inr (username, password) \<Rightarrow>
     (case Login (cenv env) net1 c username password of
        (Inl e, _) \<Rightarrow> Inl (ClientFailed e)
      | (Inr login, c, _) \<Rightarrow>
     (case SignDeviceProof (ce_sign env) (fk_private k) (RegistrationSigningBytes (lr_AccessToken login) (fk_public k) (fk_wgPublic k)) of
        Inl e \<Rightarrow> Inl (ClientFailed e)
      | Inr proof \<Rightarrow>
     (case RegisterDevice (cenv env) net2 c (lr_AccessToken login)
             \<lparr>dq_DeviceID = [], dq_Name = bs_Device b, dq_PublicKey = fk_public k, dq_WireGuardPublicKey = fk_wgPublic k,
              dq_Version = ae_version env, dq_Proof = proof\<rparr> of
        (Inl e, _) \<Rightarrow> Inl (ClientFailed e)
      | (Inr r, _) \<Rightarrow>
     (case ValidateRuntimeConfig (tenv env) (dr_Config r) of
        Some e \<Rightarrow> Inl (ConfigFailed e)
      | None \<Rightarrow>
     (case provision legacy (dr_WireGuard r) (fk_wgPrivate k) of
        Inl e \<Rightarrow> Inl e
      | Inr profile \<Rightarrow>
          Inr ((enrolled_state b k (dr_DeviceID r) (dr_Config r) profile)
                 \<lparr>as_AccessToken := dr_AccessToken r, as_AccessExpiresAt := dr_AccessExpiresAt r,
                  as_RefreshToken := dr_RefreshToken r, as_RefreshExpiresAt := dr_RefreshExpiresAt r\<rparr>)))))))"

record enroll_inputs =
  ei_net1 :: network
  ei_net2 :: network
  ei_now :: gotime
  ei_answer :: "(string \<times> string) option"
  ei_legacy :: "agent_error + wireguard_profile"
  ei_identity :: "(byte list \<times> byte list) option"
  ei_random :: "byte list option"
  ei_stop_ok :: bool
  ei_fail :: "save_op \<Rightarrow> bool"

definition fresh_enrollment :: "'b agent_env \<Rightarrow> enroll_inputs \<Rightarrow> bootstrap \<Rightarrow> session_error + agent_state" where
  "fresh_enrollment env i b =
     (case (if bs_LegacyTunnel b \<noteq> [] then ei_legacy i else Inr zero_profile) of
        Inl e \<Rightarrow> Inl (LegacyCapture e)
      | Inr legacy \<Rightarrow>
     (case GenerateIdentity (ei_identity i) of
        None \<Rightarrow> Inl KeyGeneration
      | Some (public, private) \<Rightarrow>
     (case GenerateWireGuardKeypair (ae_base env) (ei_random i) of
        None \<Rightarrow> Inl KeyGeneration
      | Some (wgPrivate, wgPublic) \<Rightarrow>
     (case NewMultiClient (tenv env) (bootstrap_ControlEndpoints (tenv env) b) [] of
        Inl e \<Rightarrow> Inl (ConfigFailed e)
      | Inr c \<Rightarrow>
          let k = \<lparr>fk_public = public, fk_private = private, fk_wgPrivate = wgPrivate, fk_wgPublic = wgPublic\<rparr>
          in if bs_Version b = LegacyBootstrapVersion then enroll_legacy env (ei_net1 i) b legacy k c
             else register_new env (ei_net1 i) (ei_net2 i) (ei_answer i) b legacy k c))))"

definition enrollOrLoadState :: "'b agent_env \<Rightarrow> enroll_inputs \<Rightarrow> bootstrap \<Rightarrow> 'b state_file \<Rightarrow> (session_error + agent_state) \<times> 'b state_file" where
  "enrollOrLoadState env i b d =
     (case LoadState env d of
        Inr st \<Rightarrow>
          if bs_Version b \<noteq> LegacyBootstrapVersion \<and> NeedsRefresh st (ei_now i)
          then recoverDeviceSession env (ei_net1 i) (ei_net2 i)
                 (case readLoginCredentials (ei_answer i) of Inl _ \<Rightarrow> None | Inr up \<Rightarrow> Some up) (ei_stop_ok i) (ei_fail i) st d
          else (Inr st, d)
      | Inl e \<Rightarrow>
          if e \<noteq> NoStateFile then (Inl e, d)
          else case fresh_enrollment env i b of
                 Inl e \<Rightarrow> (Inl e, d)
               | Inr st \<Rightarrow> (case SaveState env (ei_fail i) st d of (Some e, d) \<Rightarrow> (Inl e, d) | (None, d) \<Rightarrow> (Inr st, d)))"

end
