(* ===== verification/AgentUpdate.thy ===== *)
theory AgentUpdate
  imports AgentState
begin

text \<open>Updates of the agent and what its binary carries: \<^verbatim>\<open>checkAndStageUpdate\<close> and \<^verbatim>\<open>parseBootstrapBytes\<close> of \<^verbatim>\<open>cmd/bpc-agent/main.go\<close> and
  \<^verbatim>\<open>cmd/bpc-agent/payload.go\<close>. The downloaded program is asked for its version: what a file with a given content prints is an argument, none when it cannot
  be run in time.\<close>

section \<open>Updates\<close>

definition validateUpdateVersionOutput :: "string \<Rightarrow> string \<Rightarrow> session_error option" where
  "validateUpdateVersionOutput output expected =
     (if trim_space output \<noteq> ''bpc-agent '' @ expected then Some VersionMismatch else None)"

definition verifyUpdateVersion :: "(byte list option \<Rightarrow> string option) \<Rightarrow> byte list option \<Rightarrow> string \<Rightarrow> session_error option" where
  "verifyUpdateVersion run content expected =
     (case run content of None \<Rightarrow> Some ProbeFailed | Some output \<Rightarrow> validateUpdateVersionOutput output expected)"

record update_world =
  uw_manifest :: network
  uw_download :: "http_request \<Rightarrow> http_response option"
  uw_fail :: "file_op \<Rightarrow> bool"
  uw_partial :: "byte list"
  uw_readable :: bool
  uw_run :: "byte list option \<Rightarrow> string option"
  uw_helper_ok :: bool
  uw_remove_ok :: bool

text \<open>The replacement that is scheduled: of the program at the first path by the file at the second.\<close>

type_synonym replacement = "(string \<times> string \<times> bool) option"

definition discard :: "update_world \<Rightarrow> string \<Rightarrow> files \<Rightarrow> files" where
  "discard w path fs = (if uw_remove_ok w then fs(path := None) else fs)"

definition scheduleReplacement :: "bool \<Rightarrow> string \<Rightarrow> string \<Rightarrow> bool \<Rightarrow> session_error option \<times> replacement" where
  "scheduleReplacement helper_ok exePath nextPath installUI =
     (if helper_ok then (None, Some (exePath, nextPath, installUI)) else (Some HelperFailed, None))"

definition stage_file :: "'b agent_env \<Rightarrow> update_world \<Rightarrow> string \<Rightarrow> string \<Rightarrow> bool \<Rightarrow> update_manifest \<Rightarrow> files \<Rightarrow> bool \<times> session_error option \<times> files \<times> replacement" where
  "stage_file env w exePath nextPath installUI m fs =
     (case VerifyFileSHA256 (ce_sha256 env) (if uw_readable w then fs nextPath else None) (um_SHA256 m) of
        Some e \<Rightarrow> (False, Some (UpdateFailed e), discard w nextPath fs, None)
      | None \<Rightarrow>
          (case verifyUpdateVersion (uw_run w) (fs nextPath) (um_Version m) of
             Some e \<Rightarrow> (False, Some e, discard w nextPath fs, None)
           | None \<Rightarrow>
               (case scheduleReplacement (uw_helper_ok w) exePath nextPath installUI of
                  (Some e, _) \<Rightarrow> (False, Some e, fs, None)
                | (None, r) \<Rightarrow> (True, None, fs, r))))"

definition checkAndStageUpdate ::
  "'b agent_env \<Rightarrow> update_world \<Rightarrow> string \<Rightarrow> string \<Rightarrow> bool \<Rightarrow> client \<Rightarrow> agent_state \<Rightarrow> files \<Rightarrow> bool \<times> session_error option \<times> files \<times> replacement" where
  "checkAndStageUpdate env w exePath nextPath installUI c st fs =
     (case FetchUpdateManifest (cenv env) (uw_manifest w) c of
        (Inl e, _) \<Rightarrow> (False, Some (ClientFailed e), fs, None)
      | (Inr m, c, _) \<Rightarrow>
          (case VerifyUpdateManifest (ae_pem env) (ae_verify env) m (as_UpdatePubKey st) of
             Some e \<Rightarrow> (False, Some (UpdateFailed e), fs, None)
           | None \<Rightarrow>
               if \<not> IsNewerVersion (um_Version m) (ae_version env) then (False, None, fs, None)
               else case Download (tenv env) (uw_download w) (uw_fail w) (uw_partial w) c (um_URL m) nextPath fs of
                      (Some e, fs) \<Rightarrow> (False, Some (ClientFailed e), fs, None)
                    | (None, fs) \<Rightarrow> stage_file env w exePath nextPath installUI m fs))"

text \<open>What the helper does three seconds later: it moves the file over the program.\<close>

definition replace_program :: "replacement \<Rightarrow> files \<Rightarrow> files" where
  "replace_program r fs =
     (case r of
        None \<Rightarrow> fs
      | Some (exePath, nextPath, _) \<Rightarrow> (case fs nextPath of None \<Rightarrow> fs | Some content \<Rightarrow> (fs(nextPath := None))(exePath \<mapsto> content)))"

section \<open>What the binary carries\<close>

definition bootstrapStart :: string where "bootstrapStart = [CHR 0x0A] @ ''BPC_AGENT_BOOTSTRAP_V3'' @ [CHR 0x0A]"
definition legacyBootstrapStart :: string where "legacyBootstrapStart = [CHR 0x0A] @ ''BPC_AGENT_BOOTSTRAP_V2'' @ [CHR 0x0A]"
definition bootstrapEnd :: string where "bootstrapEnd = [CHR 0x0A] @ ''BPC_AGENT_BOOTSTRAP_END'' @ [CHR 0x0A]"
definition wintunPayloadStart :: string where "wintunPayloadStart = [CHR 0x0A] @ ''BPC_AGENT_WINTUN_V1'' @ [CHR 0x0A]"
definition wintunPayloadEnd :: string where "wintunPayloadEnd = [CHR 0x0A] @ ''BPC_AGENT_WINTUN_END'' @ [CHR 0x0A]"

text \<open>The text between the last start marker and the first end marker after it, trimmed and decoded.\<close>

definition extractPayload :: "string \<Rightarrow> string \<Rightarrow> string \<Rightarrow> byte list option" where
  "extractPayload data startMarker endMarker =
     (case find_last startMarker data of
        None \<Rightarrow> None
      | Some (_, rest) \<Rightarrow>
          (case find_first endMarker rest of None \<Rightarrow> None | Some (encoded, _) \<Rightarrow> base64_decode (trim_space encoded)))"

text \<open>Of the two start markers the later one counts.\<close>

definition parseBootstrapBytes :: "(byte list \<Rightarrow> bootstrap option) \<Rightarrow> string \<Rightarrow> session_error + bootstrap" where
  "parseBootstrapBytes decode data =
     (let marker = (if index_of bootstrapStart data < index_of legacyBootstrapStart data then legacyBootstrapStart else bootstrapStart)
      in case find_last marker data of
           None \<Rightarrow> Inl BootstrapMissing
         | Some (_, rest) \<Rightarrow>
             (case find_first bootstrapEnd rest of
                None \<Rightarrow> Inl BootstrapFooter
              | Some (encoded, _) \<Rightarrow>
                  (case base64_decode (trim_space encoded) of
                     None \<Rightarrow> Inl BootstrapInvalid
                   | Some raw \<Rightarrow> (case decode raw of None \<Rightarrow> Inl BootstrapInvalid | Some cfg \<Rightarrow> Inr cfg))))"

text \<open>Installing the driver: updates do not carry it and keep the installed one, when that has a size greater than zero.\<close>

datatype payload_error = PayloadMissing | PayloadSize nat | PayloadIO

definition installWintunPayload :: "(file_op \<Rightarrow> bool) \<Rightarrow> byte list option \<Rightarrow> string option \<Rightarrow> string \<Rightarrow> files \<Rightarrow> payload_error option \<times> files" where
  "installWintunPayload fail partial data path fs =
     (case data of
        None \<Rightarrow> (Some PayloadIO, fs)
      | Some data \<Rightarrow>
          (case extractPayload data wintunPayloadStart wintunPayloadEnd of
             None \<Rightarrow> (case fs path of
                         Some (_ # _) \<Rightarrow> (None, fs)
                       | _ \<Rightarrow> (Some PayloadMissing, fs))
           | Some dll \<Rightarrow>
               if length dll < 64 * 1024 \<or> 4 * 1024 * 1024 < length dll then (Some (PayloadSize (length dll)), fs)
               else if fail MakeDir then (Some PayloadIO, fs)
               else let tmp = path @ ''.tmp''
               in if fail CopyBody then (Some PayloadIO, fs(tmp := partial))
                  else let fs = remove_file fail RemoveTarget path (fs(tmp \<mapsto> dll))
                  in if fail RenameTemp then (Some PayloadIO, remove_file fail RemoveTemp tmp fs)
                     else (None, (fs(tmp := None))(path \<mapsto> dll))))"

section \<open>Lemmas\<close>

lemma to_lower_length [simp]: "length (to_lower s) = length s"
  by (simp add: to_lower_def)

lemma write_beside_ok: "write_beside fail p tmp dst content fs = (True, fs') \<Longrightarrow> fs' dst = Some content"
  by (auto simp: write_beside_def Let_def split: if_splits)

lemma write_beside_other: "write_beside fail p tmp dst content fs = (ok, fs') \<Longrightarrow> x \<noteq> tmp \<Longrightarrow> x \<noteq> dst \<Longrightarrow> fs' x = fs x"
  by (auto simp: write_beside_def remove_file_def Let_def split: if_splits)

lemma Download_other: "Download env net fail p c url dst fs = (e, fs') \<Longrightarrow> x \<noteq> dst @ ''.download'' \<Longrightarrow> x \<noteq> dst \<Longrightarrow> fs' x = fs x"
  by (auto simp: Download_def split: option.splits if_splits prod.splits dest: write_beside_other)

text \<open>What is known of a file that passed: its content has the digest of the manifest.\<close>

definition vouched :: "'b agent_env \<Rightarrow> agent_state \<Rightarrow> update_manifest \<Rightarrow> byte list \<Rightarrow> bool" where
  "vouched env st m content \<longleftrightarrow>
     (\<exists>key signature. ParseUpdatePublicKey (ae_pem env) (as_UpdatePubKey st) = Some key \<and> base64_decode (um_Signature m) = Some signature \<and>
        ae_verify env key (manifestSigningBytes m) signature) \<and>
     to_lower (hex_encode (ce_sha256 env content)) = to_lower (trim_space (um_SHA256 m)) \<and>
     IsNewerVersion (um_Version m) (ae_version env)"

lemma stage_file_cases:
  assumes "stage_file env w exe nxt ui m fs = (ok, e, fs', r)"
  shows "(ok \<longrightarrow> e = None \<and> fs' = fs \<and> r = Some (exe, nxt, ui) \<and>
            (\<exists>content. fs nxt = Some content \<and> to_lower (hex_encode (ce_sha256 env content)) = to_lower (trim_space (um_SHA256 m)) \<and>
               (\<exists>out. uw_run w (Some content) = Some out \<and> trim_space out = ''bpc-agent '' @ um_Version m))) \<and>
         (\<not> ok \<longrightarrow> r = None \<and> (\<forall>x. x \<noteq> nxt \<longrightarrow> fs' x = fs x))"
  using assms
  by (auto simp: stage_file_def VerifyFileSHA256_def verifyUpdateVersion_def validateUpdateVersionOutput_def scheduleReplacement_def discard_def Let_def
      split: option.splits if_splits)

lemma verified_signature:
  "VerifyUpdateManifest pem verify m key' = None \<Longrightarrow>
   \<exists>key signature. ParseUpdatePublicKey pem key' = Some key \<and> base64_decode (um_Signature m) = Some signature \<and>
     verify key (manifestSigningBytes m) signature"
  by (auto simp: VerifyUpdateManifest_def split: if_splits option.splits)

end
