(* ===== verification/AgentProps.thy ===== *)
theory AgentProps
  imports AgentClientProps AgentUpdate
begin

text \<open>The Device agent: its state file always holds a valid state of the same Device, and what it installs was signed and is newer.\<close>

section \<open>Validity\<close>

definition server_ok :: "wireguard_profile \<Rightarrow> bool" where
  "server_ok p \<longleftrightarrow> ValidateWireGuardServerProfile p = None"

definition public_part :: "wireguard_profile \<Rightarrow> wireguard_profile" where
  "public_part p = p\<lparr>wp_PrivateKey := [], wp_PresharedKey := []\<rparr>"

lemma public_part_ok: "server_ok p \<Longrightarrow> server_ok (public_part p)"
  by (auto simp: server_ok_def ValidateWireGuardServerProfile_def validateWireGuardProfile_def public_part_def split: sum.splits)

lemma Complete_server_ok: "Complete p \<Longrightarrow> server_ok p"
  by (auto simp: server_ok_def Complete_def ValidateWireGuardProfile_def ValidateWireGuardServerProfile_def validateWireGuardProfile_def split: sum.splits if_splits)

lemma Complete_peer: "Complete p \<Longrightarrow> wp_PeerPublicKey p \<noteq> []"
proof
  assume "Complete p" "wp_PeerPublicKey p = []"
  moreover have "ParseWGKey [] False = Inl (BadKeyLength 0)" by (simp add: ParseWGKey_def base64_decode_def)
  ultimately show False by (auto simp: Complete_def ValidateWireGuardProfile_def validateWireGuardProfile_def split: sum.splits)
qed

lemma TransportPaths_wireguard [simp]: "TransportPaths (cfg\<lparr>rc_WireGuard := w\<rparr>) = TransportPaths cfg"
  by (simp add: TransportPaths_def)

lemma validate_paths_any:
  "validate_paths_loop env None seen ps = None \<Longrightarrow> validate_paths_loop env w seen ps = None"
  by (induction ps arbitrary: seen) (auto simp: Let_def split: if_splits)

lemma validate_paths_peer:
  "wp_PeerPublicKey p = wp_PeerPublicKey q \<Longrightarrow> validate_paths_loop env (Some p) seen ps = validate_paths_loop env (Some q) seen ps"
  by (induction ps arbitrary: seen) (auto simp: Let_def)

text \<open>A configuration that names no profile stays valid with any valid one; one that names a profile stays valid with the public part of it.\<close>

lemma config_add_profile:
  "ValidateRuntimeConfig env cfg = None \<Longrightarrow> rc_WireGuard cfg = None \<Longrightarrow> server_ok q \<Longrightarrow>
   ValidateRuntimeConfig env (cfg\<lparr>rc_WireGuard := Some q\<rparr>) = None"
  by (auto simp: ValidateRuntimeConfig_def ValidatePaths_def Let_def server_ok_def validate_paths_any split: sum.splits option.splits if_splits)

lemma config_change_profile:
  "ValidateRuntimeConfig env cfg = None \<Longrightarrow> rc_WireGuard cfg = Some p \<Longrightarrow> wp_PeerPublicKey q = wp_PeerPublicKey p \<Longrightarrow> server_ok q \<Longrightarrow>
   ValidateRuntimeConfig env (cfg\<lparr>rc_WireGuard := Some q\<rparr>) = None"
  using validate_paths_peer [of q p env "[]" "TransportPaths cfg"]
  by (auto simp: ValidateRuntimeConfig_def ValidatePaths_def Let_def server_ok_def split: sum.splits option.splits if_splits)

definition state_ok :: "'b agent_env \<Rightarrow> agent_state \<Rightarrow> bool" where
  "state_ok env s \<longleftrightarrow>
     state_ValidateRuntimeConfig (tenv env) s = None \<and> Complete (as_WireGuard s) \<and> as_Version s \<in> {StateVersion, LegacyStateVersion}"

text \<open>A state with a valid configuration and a complete profile is valid.\<close>

lemma state_ok_plain:
  assumes "ValidateRuntimeConfig (tenv env) (as_Config s) = None" "Complete (as_WireGuard s)" "as_Version s \<in> {StateVersion, LegacyStateVersion}"
  shows "state_ok env s"
proof -
  have "server_ok ((as_WireGuard s)\<lparr>wp_PrivateKey := [], wp_PresharedKey := []\<rparr>)"
    using public_part_ok [OF Complete_server_ok [OF assms(2)]] by (simp add: public_part_def)
  then show ?thesis
    using assms config_add_profile by (auto simp: state_ok_def state_ValidateRuntimeConfig_def Let_def)
qed

lemma keep_keys_peer [simp]: "wp_PeerPublicKey (keep_keys old p) = wp_PeerPublicKey p" "wp_PrivateKey (keep_keys old p) = wp_PrivateKey old"
  by (simp_all add: keep_keys_def Let_def)

lemma state_ok_synced:
  assumes "ValidateRuntimeConfig (tenv env) cfg = None" "state_ok env st" "sync_profile st cfg = Inr (st', cfg')"
  shows "state_ok env (st'\<lparr>as_Config := cfg', as_ControlURL := u, as_ControlURLs := us\<rparr>)"
proof (cases "rc_WireGuard cfg")
  case None
  then have "st' = st" "cfg' = cfg" using assms(3) by (auto simp: sync_profile_def)
  then show ?thesis using assms(1,2) by (intro state_ok_plain) (auto simp: state_ok_def)
next
  case (Some p)
  let ?q = "keep_keys (as_WireGuard st) p"
  have c: "Complete ?q" and st': "st' = st\<lparr>as_WireGuard := ?q\<rparr>" "cfg' = cfg\<lparr>rc_WireGuard := None\<rparr>"
    using assms(3) Some by (auto simp: sync_profile_def Let_def Complete_def split: option.splits)
  have "server_ok (?q\<lparr>wp_PrivateKey := [], wp_PresharedKey := []\<rparr>)"
    using public_part_ok [OF Complete_server_ok [OF c]] by (simp add: public_part_def)
  from config_change_profile [OF assms(1) Some _ this] show ?thesis
    using c Complete_peer [OF c] assms(2) by (simp add: state_ok_def state_ValidateRuntimeConfig_def Let_def st')
qed

section \<open>Identity\<close>

definition identity :: "agent_state \<Rightarrow> string \<times> string \<times> string \<times> string \<times> string" where
  "identity s = (as_DeviceID s, as_PublicKey s, as_PrivateKey s, as_UpdatePubKey s, wp_PrivateKey (as_WireGuard s))"

definition json_ok :: "'b agent_env \<Rightarrow> bool" where
  "json_ok env \<longleftrightarrow> (\<forall>s. ae_decode env (ae_encode env s) = Some s)"

definition holds_state :: "'b agent_env \<Rightarrow> string \<times> string \<times> string \<times> string \<times> string \<Rightarrow> 'b state_file \<Rightarrow> bool" where
  "holds_state env who d \<longleftrightarrow> (\<exists>s. LoadState env d = Inr s \<and> state_ok env s \<and> identity s = who)"

lemma SaveState_holds:
  "json_ok env \<Longrightarrow> holds_state env who d \<Longrightarrow> state_ok env s \<Longrightarrow> identity s = who \<Longrightarrow> SaveState env fail s d = (e, d') \<Longrightarrow> holds_state env who d'"
  by (auto simp: SaveState_def holds_state_def LoadState_def json_ok_def state_ok_def split: if_splits)

lemma SaveState_new: "json_ok env \<Longrightarrow> state_ok env s \<Longrightarrow> SaveState env fail s d = (None, d') \<Longrightarrow> holds_state env (identity s) d'"
  by (auto simp: SaveState_def holds_state_def LoadState_def json_ok_def state_ok_def split: if_splits)

lemma state_ok_tokens [simp]: "state_ok env s \<Longrightarrow> state_ok env (with_tokens s a ae r re)"
proof -
  have "state_ValidateRuntimeConfig (tenv env) (with_tokens s a ae r re) = state_ValidateRuntimeConfig (tenv env) s"
    by (simp add: with_tokens_def state_ValidateRuntimeConfig_def Let_def cong: if_cong)
  then show "state_ok env s \<Longrightarrow> ?thesis" by (simp add: state_ok_def with_tokens_def)
qed

lemma identity_tokens [simp]: "identity (with_tokens s a ae r re) = identity s"
  by (simp add: identity_def with_tokens_def)

definition agent_inv :: "'b agent_env \<Rightarrow> string \<times> string \<times> string \<times> string \<times> string \<Rightarrow> agent \<times> 'b state_file \<Rightarrow> bool" where
  "agent_inv env who x \<longleftrightarrow> (case x of (a, d) \<Rightarrow> state_ok env (ag_state a) \<and> identity (ag_state a) = who \<and> holds_state env who d)"

lemma SaveState_tokens:
  assumes "json_ok env" "holds_state env (identity s) d" "state_ok env s" "SaveState env fail (with_tokens s x xe r re) d = (e, d')"
  shows "holds_state env (identity s) d'"
  by (rule SaveState_holds [OF assms(1,2) _ _ assms(4)]) (simp_all add: assms(3))

lemma ensure_inv:
  assumes "json_ok env" "agent_inv env who (a, d)" "ensureControlCredential env net now fail a d = (e, a', d')"
  shows "agent_inv env who (a', d')"
  using assms(2,3)
  by (auto simp: ensureControlCredential_def agent_inv_def Let_def split: if_splits sum.splits prod.splits intro: SaveState_tokens [OF assms(1)])

lemma sync_profile_identity: "sync_profile st cfg = Inr (st', cfg') \<Longrightarrow> identity (st'\<lparr>as_Config := c, as_ControlURL := u, as_ControlURLs := us\<rparr>) = identity st"
  by (auto simp: sync_profile_def identity_def Let_def split: option.splits)

lemma sync_inv:
  assumes j: "json_ok env" and inv: "agent_inv env who (a, d)"
    and run: "syncRuntimeState env net1 net2 now fail1 fail2 ui_ok a d = (e, a', d')"
  shows "agent_inv env who (a', d')"
proof -
  obtain e1 a1 d1 where ens: "ensureControlCredential env net1 now fail1 a d = (e1, a1, d1)" by (metis prod_cases3)
  have inv1: "agent_inv env who (a1, d1)" by (rule ensure_inv [OF j inv ens])
  have client: "agent_inv env who (a1\<lparr>ag_client := c\<rparr>, d1)" for c using inv1 by (simp add: agent_inv_def)
  have saved: "agent_inv env who (\<lparr>ag_client = c, ag_state = s2\<rparr>, d2)"
    if "ValidateRuntimeConfig (tenv env) cfg = None" "sync_profile (ag_state a1) cfg = Inr (st', cfg')"
      "s2 = st'\<lparr>as_Config := cfg', as_ControlURL := u, as_ControlURLs := us\<rparr>" "SaveState env fail2 s2 d1 = (e2, d2)"
    for c cfg st' cfg' s2 u us e2 d2
  proof -
    have "state_ok env s2" using state_ok_synced [OF that(1) _ that(2)] inv1 by (simp add: agent_inv_def that(3))
    moreover have "identity s2 = who" using sync_profile_identity [OF that(2)] inv1 by (simp add: agent_inv_def that(3))
    ultimately show ?thesis using SaveState_holds [OF j _ _ _ that(4)] inv1 by (simp add: agent_inv_def)
  qed
  show ?thesis
    using run inv1 client
    by (auto simp: syncRuntimeState_def ens Let_def split: option.splits prod.splits sum.splits if_splits intro: saved)
qed

lemma recovered_identity: "dr_DeviceID r = as_DeviceID s \<Longrightarrow> identity (recovered_state s r) = identity s"
  by (simp add: recovered_state_def identity_def with_tokens_def Let_def)

lemma recovered_version: "as_Version (recovered_state s r) = StateVersion"
  by (simp add: recovered_state_def with_tokens_def Let_def)

lemma accept_recovery_cases:
  assumes "accept_recovery env stop_ok fail s r d = (res, d')"
  shows "(\<exists>e. res = Inl e \<and> d' = d) \<or>
         (res = Inr (recovered_state s r) \<and> stop_ok \<and> dr_DeviceID r = as_DeviceID s \<and> wp_Address (dr_WireGuard r) = wp_Address (as_WireGuard s) \<and>
          state_ok env (recovered_state s r) \<and> SaveState env fail (recovered_state s r) d = (None, d'))"
  using assms recovered_version [of s r]
  by (auto simp: accept_recovery_def state_ok_def Complete_def SaveState_def Let_def split: if_splits option.splits)

lemma recoverDeviceSession_cases:
  assumes "recoverDeviceSession env net1 net2 cred stop_ok fail s d = (res, d')"
  shows "(\<exists>e. res = Inl e \<and> d' = d) \<or> (\<exists>r. accept_recovery env stop_ok fail s r d = (res, d'))"
  using assms by (auto simp: recoverDeviceSession_def split: sum.splits option.splits prod.splits)

lemma recovery_holds:
  assumes "json_ok env" "holds_state env who d" "LoadState env d = Inr s" "recoverDeviceSession env net1 net2 cred stop_ok fail s d = (res, d')"
  shows "holds_state env who d' \<and> (\<forall>st. res = Inr st \<longrightarrow> LoadState env d' = Inr st)"
proof -
  have who: "identity s = who" using assms(2,3) by (auto simp: holds_state_def)
  from recoverDeviceSession_cases [OF assms(4)] show ?thesis
  proof
    assume "\<exists>e. res = Inl e \<and> d' = d"
    then show ?thesis using assms(2) by auto
  next
    assume "\<exists>r. accept_recovery env stop_ok fail s r d = (res, d')"
    then obtain r where "accept_recovery env stop_ok fail s r d = (res, d')" by blast
    from accept_recovery_cases [OF this] show ?thesis
    proof
      assume "\<exists>e. res = Inl e \<and> d' = d"
      then show ?thesis using assms(2) by auto
    next
      assume ok: "res = Inr (recovered_state s r) \<and> stop_ok \<and> dr_DeviceID r = as_DeviceID s \<and> wp_Address (dr_WireGuard r) = wp_Address (as_WireGuard s) \<and>
          state_ok env (recovered_state s r) \<and> SaveState env fail (recovered_state s r) d = (None, d')"
      then have "holds_state env who d'" using SaveState_new [OF assms(1)] recovered_identity [of r s] who by metis
      moreover have "LoadState env d' = Inr (recovered_state s r)"
        using ok assms(1) recovered_version [of s r] by (auto simp: SaveState_def LoadState_def json_ok_def split: if_splits)
      ultimately show ?thesis using ok by simp
    qed
  qed
qed

section \<open>Enrollment\<close>

lemma provision_complete: "provision legacy p k = Inr q \<Longrightarrow> Complete q"
  by (auto simp: provision_def Complete_def Let_def split: option.splits if_splits)

lemma enrolled_ok:
  "ValidateRuntimeConfig (tenv env) cfg = None \<Longrightarrow> Complete q \<Longrightarrow>
   as_Config s = cfg \<Longrightarrow> as_WireGuard s = q \<Longrightarrow> as_Version s = StateVersion \<Longrightarrow> state_ok env s"
  by (rule state_ok_plain) auto

lemma fresh_enrollment_ok: "fresh_enrollment env i b = Inr st \<Longrightarrow> state_ok env st"
proof -
  assume run: "fresh_enrollment env i b = Inr st"
  then obtain legacy k c where "enroll_legacy env (ei_net1 i) b legacy k c = Inr st \<or>
      register_new env (ei_net1 i) (ei_net2 i) (ei_answer i) b legacy k c = Inr st"
    by (auto simp: fresh_enrollment_def Let_def split: sum.splits option.splits prod.splits if_splits)
  then show ?thesis
  proof
    assume "enroll_legacy env (ei_net1 i) b legacy k c = Inr st"
    then show ?thesis
      by (auto simp: enroll_legacy_def enrolled_state_def split: sum.splits option.splits prod.splits intro!: enrolled_ok dest: provision_complete)
  next
    assume "register_new env (ei_net1 i) (ei_net2 i) (ei_answer i) b legacy k c = Inr st"
    then show ?thesis
      by (auto simp: register_new_def enrolled_state_def split: sum.splits option.splits prod.splits intro!: enrolled_ok dest: provision_complete)
  qed
qed

lemma enrollment_holds:
  assumes "json_ok env" "enrollOrLoadState env i b Absent = (Inr st, d)"
  shows "state_ok env st \<and> holds_state env (identity st) d"
proof -
  have fresh: "fresh_enrollment env i b = Inr st" and "SaveState env (ei_fail i) st Absent = (None, d)"
    using assms(2) by (auto simp: enrollOrLoadState_def LoadState_def split: sum.splits option.splits prod.splits)
  then show ?thesis using SaveState_new [OF assms(1) fresh_enrollment_ok [OF fresh]] fresh_enrollment_ok [OF fresh] by blast
qed

section \<open>Runs\<close>

text \<open>What happens to an installed agent: it refreshes its credential, synchronizes its configuration, is started again from its file, or its owner signs in again and
  it is started from what that left.\<close>

inductive agent_step :: "'b agent_env \<Rightarrow> agent \<times> 'b state_file \<Rightarrow> agent \<times> 'b state_file \<Rightarrow> bool" for env where
  refreshes: "ensureControlCredential env net now fail a d = (e, a', d') \<Longrightarrow> agent_step env (a, d) (a', d')"
| syncs: "syncRuntimeState env net1 net2 now fail1 fail2 ui_ok a d = (e, a', d') \<Longrightarrow> agent_step env (a, d) (a', d')"
| restarts: "LoadState env d = Inr st \<Longrightarrow> agent_step env (a, d) (\<lparr>ag_client = c, ag_state = st\<rparr>, d)"
| recovers: "LoadState env d = Inr st \<Longrightarrow> recoverDeviceSession env net1 net2 cred stop_ok fail st d = (res, d') \<Longrightarrow>
    LoadState env d' = Inr st' \<Longrightarrow> agent_step env (a, d) (\<lparr>ag_client = c, ag_state = st'\<rparr>, d')"

lemma load_holds: "holds_state env who d \<Longrightarrow> LoadState env d = Inr st \<Longrightarrow> agent_inv env who (\<lparr>ag_client = c, ag_state = st\<rparr>, d)"
  by (auto simp: agent_inv_def holds_state_def)

lemma agent_step_inv:
  assumes "agent_step env x y" "json_ok env" "agent_inv env who x"
  shows "agent_inv env who y"
  using assms
proof (cases rule: agent_step.cases)
  case (refreshes net now fail a d e a' d')
  then show ?thesis using ensure_inv assms(2,3) by blast
next
  case (syncs net1 net2 now fail1 fail2 ui_ok a d e a' d')
  then show ?thesis using sync_inv assms(2,3) by blast
next
  case (restarts d st a c)
  then have "holds_state env who d" using assms(3) by (simp add: agent_inv_def)
  then show ?thesis using load_holds restarts by blast
next
  case (recovers d st net1 net2 cred stop_ok fail res d' st' a c)
  then have "holds_state env who d" using assms(3) by (simp add: agent_inv_def)
  then have "holds_state env who d'" using recovery_holds [OF assms(2)] recovers by blast
  then show ?thesis using load_holds recovers by blast
qed

lemma agent_run_inv: "(agent_step env)\<^sup>*\<^sup>* x y \<Longrightarrow> json_ok env \<Longrightarrow> agent_inv env who x \<Longrightarrow> agent_inv env who y"
  by (induction rule: rtranclp_induct) (auto intro: agent_step_inv)

section \<open>A Device to try it on\<close>

definition demo_profile :: wireguard_profile where
  "demo_profile = \<lparr>wp_PrivateKey = [], wp_Address = ''10.0.0.2/32'', wp_MTU = 1280, wp_PeerPublicKey = base64_encode (replicate 32 1),
     wp_PresharedKey = [], wp_AllowedIPs = [''10.0.0.0/8''], wp_PersistentKeepalive = 0\<rparr>"

definition demo_config :: runtime_config where
  "demo_config = zero_config\<lparr>rc_WGShimServer := ''h:1'', rc_WGShimListen := ''l'', rc_WGShimTarget := ''t'',
     rc_WGShimPSK := base64_encode (replicate 32 1)\<rparr>"

definition demo_env :: "agent_state agent_env" where
  "demo_env = \<lparr>te_url = plain_url, te_ToLower = to_lower,
     ce_enroll = (\<lambda>_ _. (True, \<lparr>er_DeviceID = ''d'', er_DeviceToken = ''t'', er_Config = demo_config, er_WireGuard = demo_profile\<rparr>)),
     ce_login = (\<lambda>_ r. (True, r)), ce_register = (\<lambda>_ r. (True, r)), ce_refresh = (\<lambda>_ r. (True, r)), ce_devices = (\<lambda>_ r. (True, r)),
     ce_config = (\<lambda>_ r. (True, r)), ce_manifest = (\<lambda>_ _. (True, release)), ce_info = (\<lambda>_ r. (True, r)), ce_bytes = (\<lambda>_ r. (True, r)),
     ce_peers = (\<lambda>_ r. (True, r)), ce_offer = (\<lambda>_ r. (True, r)), ce_sign = (\<lambda>_ m. m), ce_sha256 = (\<lambda>_. replicate 32 0),
     ae_encode = (\<lambda>s. s), ae_decode = Some, ae_bootstrap = (\<lambda>_. None), ae_pem = Some, ae_verify = (\<lambda>_ _ _. True),
     ae_base = (\<lambda>k. k), ae_x25519 = Some, ae_version = ''1.2.2''\<rparr>"

lemma plain_trims:
  "trim_space ''10.0.0.2/32'' = ''10.0.0.2/32''" "trim_space ''10.0.0.0/8'' = ''10.0.0.0/8''" "trim_space ''l'' = ''l''" "trim_space ''d'' = ''d''"
  by (rule trim_space_plain; simp add: space_bytes_def space_seqs_def)+

lemma demo_prefixes: "\<exists>p. ParseAnyPrefix ''10.0.0.2/32'' = Some (Prefix4 p)" "\<exists>p. ParseAnyPrefix ''10.0.0.0/8'' = Some (Prefix4 p)"
  by (simp_all add: ParseAnyPrefix_def cut_last_def cut_at_def ParsePrefix_def ParseAddr4_def is_digit_def digit_val_def Let_def less_eq_char_def less_char_def)

lemma demo_network: "validate_network ''10.0.0.2/32'' 1280 [''10.0.0.0/8''] 0 = None"
  using demo_prefixes by (auto simp: validate_network_def plain_trims)

lemma demo_key: "ParseWGKey (base64_encode (replicate 32 1)) False = Inr (replicate 32 1)"
proof -
  have "fold (OR) (replicate n 1) (1 :: byte) = 1" for n by (induction n) auto
  then have "fold (OR) (replicate 32 1) (0 :: byte) = 1" by (simp add: numeral_eq_Suc)
  then show ?thesis by (simp add: ParseWGKey_def)
qed

lemma demo_complete: "Complete (demo_profile\<lparr>wp_PrivateKey := base64_encode (clamp (replicate 32 0))\<rparr>)"
proof -
  have "ParseWGKey (base64_encode (clamp (replicate 32 0))) False = Inr (clamp (replicate 32 0))"
    using clamp_not_zero [of "replicate 32 0"] by (simp add: ParseWGKey_def)
  then show ?thesis
    using demo_network demo_key by (simp add: Complete_def ValidateWireGuardProfile_def validateWireGuardProfile_def demo_profile_def del: base64_encode.simps)
qed

lemma demo_config_ok: "ValidateRuntimeConfig (tenv demo_env) demo_config = None"
proof -
  have e: "valid_endpoint ''h:1''"
    by (simp add: valid_endpoint_def SplitHostPort_def cut_last_def cut_at_def Atoi_def ParseInt_def is_digit_def digit_val_def int64_ok_def Let_def less_eq_char_def)
  then show ?thesis
    by (simp add: ValidateRuntimeConfig_def ValidatePaths_def TransportPaths_def demo_config_def zero_config_def shim_key_ok_def plain_trims trim_https
        Let_def del: base64_encode.simps)
qed

definition demo_inputs :: enroll_inputs where
  "demo_inputs = \<lparr>ei_net1 = (\<lambda>_ _. Some \<lparr>hs_Status = 200, hs_Body = []\<rparr>), ei_net2 = (\<lambda>_ _. None), ei_now = of_unix 0, ei_answer = None,
     ei_legacy = Inr zero_profile, ei_identity = Some ([1], [2]), ei_random = Some (replicate 32 0), ei_stop_ok = True, ei_fail = (\<lambda>_. False)\<rparr>"

definition demo_bootstrap :: bootstrap where
  "demo_bootstrap = \<lparr>bs_Version = 2, bs_Device = ''d'', bs_ControlURL = ''https://a'', bs_ControlURLs = [], bs_EnrollToken = ''t'',
     bs_UpdatePublicKey = base64_encode [0], bs_LegacyTunnel = []\<rparr>"

lemma demo_client: "NewMultiClient (tenv demo_env) (bootstrap_ControlEndpoints (tenv demo_env) demo_bootstrap) [] =
    Inr \<lparr>cl_BaseURL = ''https://a'', cl_BaseURLs = [''https://a''], cl_Token = []\<rparr>"
  by (simp add: NewMultiClient_def bootstrap_ControlEndpoints_def normalizeControlURLs_def demo_bootstrap_def demo_env_def text_env.defs trim_https
      trim_right_char_def plain_url_def has_prefix_def)

definition demo_state :: agent_state where
  "demo_state = (enrolled_state demo_bootstrap
      \<lparr>fk_public = base64_encode [1], fk_private = base64_encode [2], fk_wgPrivate = base64_encode (clamp (replicate 32 0)),
       fk_wgPublic = base64_encode (clamp (replicate 32 0))\<rparr> ''d'' demo_config
      (demo_profile\<lparr>wp_PrivateKey := base64_encode (clamp (replicate 32 0))\<rparr>))\<lparr>as_DeviceToken := ''t''\<rparr>"

lemma demo_enrolled: "enrollOrLoadState demo_env demo_inputs demo_bootstrap Absent = (Inr demo_state, Content demo_state)"
proof -
  have p: "provision legacy demo_profile (base64_encode (clamp (replicate 32 0))) =
      Inr (demo_profile\<lparr>wp_PrivateKey := base64_encode (clamp (replicate 32 0))\<rparr>)" for legacy
    using demo_complete by (simp add: provision_def Complete_def Let_def del: base64_encode.simps)
  have inc: "\<not> profile_incomplete demo_profile"
    by (simp add: profile_incomplete_def demo_profile_def plain_trims del: base64_encode.simps)
  have e: "Enroll (cenv demo_env) (ei_net1 demo_inputs) \<lparr>cl_BaseURL = ''https://a'', cl_BaseURLs = [''https://a''], cl_Token = []\<rparr> q =
      (Inr \<lparr>er_DeviceID = ''d'', er_DeviceToken = ''t'', er_Config = demo_config, er_WireGuard = demo_profile\<rparr>,
       \<lparr>cl_BaseURL = ''https://a'', cl_BaseURLs = [''https://a''], cl_Token = []\<rparr>, [make_request POST ''https://a/v1/enroll'' [] (Some (EnrollBody q))])" for q
    by (simp add: Enroll_def checked_def doJSON_def endpoints_of_def demo_env_def demo_inputs_def client_env.defs text_env.defs plain_url_def has_prefix_def
        gateway_status_def inc)
  have f: "ei_identity demo_inputs = Some ([1], [2])" "ei_random demo_inputs = Some (replicate 32 0)" "bs_LegacyTunnel demo_bootstrap = []"
      "bs_Version demo_bootstrap = 2" "ae_base demo_env = (\<lambda>k. k)"
    by (simp_all add: demo_inputs_def demo_bootstrap_def demo_env_def)
  have "fresh_enrollment demo_env demo_inputs demo_bootstrap = Inr demo_state"
    unfolding fresh_enrollment_def demo_client
    by (simp add: f enroll_legacy_def e demo_config_ok p demo_state_def GenerateIdentity_def GenerateWireGuardKeypair_def LegacyBootstrapVersion_def Let_def
        del: base64_encode.simps)
  then show ?thesis
    by (simp add: enrollOrLoadState_def LoadState_def SaveState_def) (simp add: demo_inputs_def demo_env_def)
qed

section \<open>The claims\<close>



text \<open>C27. Only what the update key vouches for is installed. If the agent stages an update, there is a manifest, signed under the key the Device was enrolled
  with, of a version newer than the running one; the staged file has exactly the digest of that manifest and reports that version when it is asked; and it is
  this file that replaces the program. In every other case no replacement is scheduled. The program itself is not touched before.\<close>
theorem staged_update_vouched:
  assumes "checkAndStageUpdate env w exe nxt ui c st fs = (ok, e, fs', r)"
    and "exe \<noteq> nxt" "exe \<noteq> nxt @ ''.download''"
  shows "fs' exe = fs exe \<and>
         (if ok then \<exists>m content out. vouched env st m content \<and> fs' nxt = Some content \<and> uw_run w (Some content) = Some out \<and>
                       trim_space out = ''bpc-agent '' @ um_Version m \<and> replace_program r fs' exe = Some content
          else r = None)"
proof -
  consider (early) "\<not> ok" "r = None" "fs' = fs"
    | (download) m c1 e1 where "Download (tenv env) (uw_download w) (uw_fail w) (uw_partial w) c1 (um_URL (m :: update_manifest)) nxt fs = (Some e1, fs')" "\<not> ok" "r = None"
    | (stage) m c1 fs1 where "VerifyUpdateManifest (ae_pem env) (ae_verify env) m (as_UpdatePubKey st) = None" "IsNewerVersion (um_Version m) (ae_version env)"
        "Download (tenv env) (uw_download w) (uw_fail w) (uw_partial w) c1 (um_URL m) nxt fs = (None, fs1)" "stage_file env w exe nxt ui m fs1 = (ok, e, fs', r)"
    using assms(1) by (auto simp: checkAndStageUpdate_def split: sum.splits option.splits prod.splits if_splits)
  then show ?thesis
  proof cases
    case early
    then show ?thesis by simp
  next
    case download
    then show ?thesis using Download_other [OF download(1)] assms(2,3) by simp
  next
    case stage
    have exe: "fs1 exe = fs exe" using Download_other [OF stage(3)] assms(2,3) by simp
    note cases = stage_file_cases [OF stage(4)]
    show ?thesis
    proof (cases ok)
      case True
      then obtain content out where "fs' = fs1" "r = Some (exe, nxt, ui)" "fs1 nxt = Some content"
        "to_lower (hex_encode (ce_sha256 env content)) = to_lower (trim_space (um_SHA256 m))"
        "uw_run w (Some content) = Some out" "trim_space out = ''bpc-agent '' @ um_Version m" using cases by auto
      moreover from this have "vouched env st m content" using verified_signature [OF stage(1)] stage(2) by (simp add: vouched_def)
      ultimately show ?thesis using exe True by (auto simp: replace_program_def)
    next
      case False
      then show ?thesis using cases exe assms(2) by auto
    qed
  qed
qed

definition demo_world :: update_world where
  "demo_world = \<lparr>uw_manifest = (\<lambda>_ _. Some \<lparr>hs_Status = 200, hs_Body = []\<rparr>), uw_download = (\<lambda>_. Some \<lparr>hs_Status = 200, hs_Body = [7]\<rparr>),
     uw_fail = (\<lambda>_. False), uw_partial = [], uw_readable = True, uw_run = (\<lambda>_. Some ''bpc-agent 1.2.3''), uw_helper_ok = True, uw_remove_ok = True\<rparr>"

lemma demo_newer: "IsNewerVersion ''1.2.3'' ''1.2.2''"
proof -
  have t: "trim_space ''1.2.2'' = ''1.2.2''" by (rule trim_space_plain; simp add: space_bytes_def space_seqs_def)
  have "Itoa 1 = ''1''" "Itoa 2 = ''2''" by code_simp+
  then have "denotes ''1.2.2'' 1 2 2" by (simp add: denotes_def t trim_prefix_def has_prefix_def version_text_def int64_ok_def)
  then have "parseStableSemver ''1.2.2'' = Some [1, 2, 2]" by (simp add: parse_denotes)
  then show ?thesis by (simp add: IsNewerVersion_def release_version)
qed

lemma demo_staged:
  "checkAndStageUpdate demo_env demo_world ''exe'' ''next'' False pool_client demo_state (\<lambda>_. None) =
   (True, None, (\<lambda>_. None)(''next'' \<mapsto> [7]), Some (''exe'', ''next'', False))"
proof -
  have m: "FetchUpdateManifest (cenv demo_env) (uw_manifest demo_world) pool_client =
      (Inr release, pool_client, [make_request GET ''https://a/v1/update/manifest'' ''t'' None])"
    by (simp add: FetchUpdateManifest_def checked_def doJSON_def endpoints_of_def pool_client_def demo_env_def demo_world_def client_env.defs text_env.defs
        plain_url_def has_prefix_def gateway_status_def) (simp add: release_def)
  have v: "VerifyUpdateManifest (ae_pem demo_env) (ae_verify demo_env) release (as_UpdatePubKey demo_state) = None"
    using release_checks by (simp add: demo_env_def demo_state_def enrolled_state_def demo_bootstrap_def del: base64_encode.simps)
  have n: "IsNewerVersion (um_Version release) (ae_version demo_env)" using demo_newer by (simp add: release_def demo_env_def)
  have dl: "Download (tenv demo_env) (uw_download demo_world) (uw_fail demo_world) (uw_partial demo_world) pool_client (um_URL release) ''next'' (\<lambda>_. None) =
      (None, (\<lambda>_. None)(''next'' \<mapsto> [7]))"
    by (auto simp: Download_def write_beside_def remove_file_def demo_env_def demo_world_def text_env.defs release_def plain_url_def has_prefix_def Let_def)
  have d: "trim_space (um_SHA256 release) = hex_encode (replicate 32 0)"
  proof -
    have c: "c \<in> set (hex_encode (replicate 32 0)) \<Longrightarrow> c = CHR ''0''" for c by (auto simp: hex_encode_def hex_char_def)
    have ne: "hex_encode (replicate 32 0) \<noteq> []" by (metis length_hex_encode length_replicate list.size(3) mult_eq_0_iff zero_neq_numeral)
    then have "hd (hex_encode (replicate 32 0)) = CHR ''0''" "last (hex_encode (replicate 32 0)) = CHR ''0''" by (auto intro: c)
    then have "trim_space (hex_encode (replicate 32 0)) = hex_encode (replicate 32 0)"
      by (intro trim_space_plain ne) (simp_all add: space_bytes_def space_seqs_def)
    then show ?thesis by (simp add: release_def)
  qed
  have run: "trim_space ''bpc-agent 1.2.3'' = ''bpc-agent 1.2.3''" by (rule trim_space_plain; simp add: space_bytes_def space_seqs_def)
  have st: "stage_file demo_env demo_world ''exe'' ''next'' False release ((\<lambda>_. None)(''next'' \<mapsto> [7])) =
      (True, None, (\<lambda>_. None)(''next'' \<mapsto> [7]), Some (''exe'', ''next'', False))"
    using d run by (simp add: stage_file_def VerifyFileSHA256_def verifyUpdateVersion_def validateUpdateVersionOutput_def scheduleReplacement_def demo_world_def
        demo_env_def Let_def) (simp add: release_def)
  show ?thesis by (simp add: checkAndStageUpdate_def m v n dl st)
qed

theorem staged_update_vouched_witness:
  "\<exists>m content. vouched demo_env demo_state m content \<and> replace_program (Some (''exe'', ''next'', False)) ((\<lambda>_. None)(''next'' \<mapsto> [7])) ''exe'' = Some content"
  using staged_update_vouched [OF demo_staged] by auto

end
