(* ===== verification/AgentRuntime.thy ===== *)
theory AgentRuntime
  imports AgentProfile WgCodec
begin

text \<open>The data plane of the Device agent: \<^verbatim>\<open>cmd/bpc-agent/runtime.go\<close> and, of \<^verbatim>\<open>cmd/bpc-agent/main.go\<close>, the set-up of the packet codec and the watching
  of the selected Node. A goroutine the supervisor starts is a job with what it was started for; that it ends is an event of its own. The JSON texts that are
  compared to decide on a restart are values of any type \<open>'f\<close>, made by two functions that are arguments.\<close>

section \<open>Workers\<close>

datatype job_status = Running | Cancelled | Finished

record ('f, 'p) worker =
  wk_fingerprint :: "'f option"
  wk_current :: "nat option"
  wk_jobs :: "(job_status \<times> 'p) list"

definition new_worker :: "('f, 'p) worker" where
  "new_worker = \<lparr>wk_fingerprint = None, wk_current = None, wk_jobs = []\<rparr>"

definition status_of :: "('f, 'p) worker \<Rightarrow> nat \<Rightarrow> job_status" where
  "status_of w n = fst (wk_jobs w ! n)"

definition set_status :: "nat \<Rightarrow> job_status \<Rightarrow> ('f, 'p) worker \<Rightarrow> ('f, 'p) worker" where
  "set_status n s w = w\<lparr>wk_jobs := (wk_jobs w)[n := (s, snd (wk_jobs w ! n))]\<rparr>"

datatype runtime_error = StopTimeout

text \<open>Cancelling a job and waiting for it; \<open>in_time\<close> says whether a job that still runs ends within five seconds.\<close>

definition worker_stop :: "bool \<Rightarrow> ('f, 'p) worker \<Rightarrow> runtime_error option \<times> ('f, 'p) worker" where
  "worker_stop in_time w =
     (case wk_current w of
        None \<Rightarrow> (None, w)
      | Some n \<Rightarrow>
          if status_of w n = Finished then (None, w\<lparr>wk_current := None\<rparr>)
          else if in_time then (None, (set_status n Finished w)\<lparr>wk_current := None\<rparr>)
          else (Some StopTimeout, set_status n Cancelled w))"

definition worker_replace :: "bool \<Rightarrow> 'f \<Rightarrow> 'p \<Rightarrow> ('f, 'p) worker \<Rightarrow> runtime_error option \<times> ('f, 'p) worker" where
  "worker_replace in_time fingerprint run w =
     (if (\<exists>n\<in>set_option (wk_current w). status_of w n \<noteq> Finished) \<and> wk_fingerprint w = Some fingerprint then (None, w)
      else case worker_stop in_time w of
             (Some e, w) \<Rightarrow> (Some e, w)
           | (None, w) \<Rightarrow> (None, w\<lparr>wk_fingerprint := Some fingerprint, wk_current := Some (length (wk_jobs w)), wk_jobs := wk_jobs w @ [(Running, run)]\<rparr>))"

text \<open>A job ends, by itself or because it was cancelled.\<close>

definition worker_ends :: "nat \<Rightarrow> ('f, 'p) worker \<Rightarrow> ('f, 'p) worker" where
  "worker_ends n w = (if n < length (wk_jobs w) then set_status n Finished w else w)"

section \<open>The supervisor\<close>

type_synonym transport_key = "transport_path list \<times> string \<times> string \<times> int \<times> int"
type_synonym overlay_key = "wireguard_profile \<times> string \<times> string"

definition transport_key :: "runtime_config \<Rightarrow> transport_key" where
  "transport_key cfg = (TransportPaths cfg, rc_WGShimListen cfg, rc_WGShimPSK cfg, rc_PaddingMin cfg, rc_PaddingMax cfg)"

definition overlay_key :: "runtime_config \<Rightarrow> wireguard_profile \<Rightarrow> overlay_key" where
  "overlay_key cfg profile = (profile, rc_WGShimListen cfg, rc_LegacyTunnel cfg)"

record 'f supervisor =
  sv_transport :: "('f, runtime_config) worker"
  sv_overlay :: "('f, runtime_config \<times> wireguard_profile) worker"

definition supervisor_apply ::
  "(transport_key \<Rightarrow> 'f) \<Rightarrow> (overlay_key \<Rightarrow> 'f) \<Rightarrow> bool \<Rightarrow> bool \<Rightarrow> runtime_config \<Rightarrow> wireguard_profile \<Rightarrow> 'f supervisor \<Rightarrow>
   runtime_error option \<times> 'f supervisor" where
  "supervisor_apply ft fo in_time1 in_time2 cfg profile s =
     (case worker_replace in_time1 (ft (transport_key cfg)) cfg (sv_transport s) of
        (Some e, t) \<Rightarrow> (Some e, s\<lparr>sv_transport := t\<rparr>)
      | (None, t) \<Rightarrow>
          (case worker_replace in_time2 (fo (overlay_key cfg profile)) (cfg, profile) (sv_overlay s) of
             (e, w) \<Rightarrow> (e, \<lparr>sv_transport = t, sv_overlay = w\<rparr>)))"

definition supervisor_stop :: "bool \<Rightarrow> bool \<Rightarrow> 'f supervisor \<Rightarrow> 'f supervisor" where
  "supervisor_stop in_time1 in_time2 s =
     \<lparr>sv_transport = snd (worker_stop in_time1 (sv_transport s)), sv_overlay = snd (worker_stop in_time2 (sv_overlay s))\<rparr>"

text \<open>What the overlay's job runs: the embedded WireGuard for a complete profile, else the tunnel service that was there before, else nothing.\<close>

datatype overlay_backend = Embedded | LegacyTunnelLoop string | NoBackend

definition runOverlayLoop :: "runtime_config \<Rightarrow> wireguard_profile \<Rightarrow> overlay_backend" where
  "runOverlayLoop cfg profile =
     (if Complete profile then Embedded else if rc_LegacyTunnel cfg \<noteq> [] then LegacyTunnelLoop (rc_LegacyTunnel cfg) else NoBackend)"

section \<open>Watching the selected Node\<close>

record path_switch =
  ps_PreserveSession :: bool
  ps_FromNode :: string
  ps_ToNode :: string

text \<open>A report names the selected endpoint, whether it is a switch, and whether the old path still works. The tracker remembers the Node it last saw.\<close>

definition node_at :: "(string \<times> string) list \<Rightarrow> string \<Rightarrow> string" where
  "node_at nodes endpoint = (case map_of nodes endpoint of None \<Rightarrow> [] | Some n \<Rightarrow> n)"

definition observe :: "string \<Rightarrow> bool \<Rightarrow> bool \<Rightarrow> (string \<times> string) list \<Rightarrow> string \<Rightarrow> path_switch option \<times> string" where
  "observe selected switched preserve nodes previous =
     (let node = node_at nodes selected
      in if node = [] then (None, previous)
         else if \<not> switched \<or> previous = [] \<or> previous = node then (None, node)
         else (Some \<lparr>ps_PreserveSession = preserve, ps_FromNode = previous, ps_ToNode = node\<rparr>, node))"

text \<open>A mailbox for one event: the channel is there or not, and it is full or empty. There is one writer, so that it finds the mailbox empty after it has taken out
  an old event, whether the reader took that one before or not.\<close>

definition publishLatestPathSwitch :: "path_switch \<Rightarrow> path_switch option option \<Rightarrow> bool \<times> path_switch option option" where
  "publishLatestPathSwitch event ch =
     (case ch of
        None \<Rightarrow> (False, None)
      | Some None \<Rightarrow> (False, Some (Some event))
      | Some (Some old) \<Rightarrow> (True, Some (Some event)))"

text \<open>The table of Nodes is filled from the paths in order, a later path with the same endpoint winning.\<close>

definition node_table :: "transport_path list \<Rightarrow> (string \<times> string) list" where
  "node_table paths = fold (\<lambda>p t. AList.update (tp_Endpoint p) (tp_Node p) t) paths []"

section \<open>Setting up the packet codec\<close>

definition shim_codecs :: "crypto \<Rightarrow> runtime_config \<Rightarrow> (codec \<times> codec) option" where
  "shim_codecs cr cfg =
     (case base64_decode (rc_WGShimPSK cfg) of
        None \<Rightarrow> None
      | Some psk \<Rightarrow>
          if length psk \<noteq> 32 then None
          else case DeriveKey cr psk ClientToServer of
                 Inl _ \<Rightarrow> None
               | Inr txKey \<Rightarrow>
                   (case DeriveKey cr psk ServerToClient of
                      Inl _ \<Rightarrow> None
                    | Inr rxKey \<Rightarrow>
                        (case NewCodec txKey (rc_PaddingMin cfg) (rc_PaddingMax cfg) of
                           Inl _ \<Rightarrow> None
                         | Inr tx \<Rightarrow> (case NewCodec rxKey (rc_PaddingMin cfg) (rc_PaddingMax cfg) of Inl _ \<Rightarrow> None | Inr rx \<Rightarrow> Some (tx, rx)))))"

section \<open>One job at a time\<close>

definition exclusive :: "('f, 'p) worker \<Rightarrow> bool" where
  "exclusive w \<longleftrightarrow>
     (\<forall>n\<in>set_option (wk_current w). n < length (wk_jobs w)) \<and>
     (\<forall>n<length (wk_jobs w). wk_current w = Some n \<or> status_of w n = Finished)"

lemma length_set_status [simp]: "length (wk_jobs (set_status n s w)) = length (wk_jobs w)"
  by (simp add: set_status_def)

lemma current_set_status [simp]: "wk_current (set_status n s w) = wk_current w" "wk_fingerprint (set_status n s w) = wk_fingerprint w"
  by (simp_all add: set_status_def)

lemma status_set_status: "m < length (wk_jobs w) \<Longrightarrow> status_of (set_status n s w) m = (if m = n then s else status_of w m)"
  by (simp add: set_status_def status_of_def nth_list_update)

lemma status_of_current [simp]: "status_of (w\<lparr>wk_current := c\<rparr>) n = status_of w n"
  by (simp add: status_of_def)

lemma exclusive_new: "exclusive new_worker"
  by (simp add: exclusive_def new_worker_def)

lemma exclusive_stop: "exclusive w \<Longrightarrow> worker_stop t w = (e, w') \<Longrightarrow> exclusive w' \<and> (e = None \<longrightarrow> wk_current w' = None)"
  by (auto simp: worker_stop_def exclusive_def status_set_status split: option.splits if_splits)

lemma exclusive_replace: "exclusive w \<Longrightarrow> worker_replace t f p w = (e, w') \<Longrightarrow> exclusive w'"
proof -
  assume ex: "exclusive w" and run: "worker_replace t f p w = (e, w')"
  obtain e1 w1 where stop: "worker_stop t w = (e1, w1)" by fastforce
  note ex1 = exclusive_stop [OF ex stop]
  show ?thesis
    using run ex ex1 stop
    by (auto simp: worker_replace_def exclusive_def status_of_def nth_append less_Suc_eq split: if_splits option.splits)
qed

lemma exclusive_ends: "exclusive w \<Longrightarrow> exclusive (worker_ends n w)"
  by (auto simp: worker_ends_def exclusive_def status_set_status)

text \<open>The contract of a worker: its operations keep a condition under which at most one job is alive.\<close>

locale single_job =
  fixes live :: "'w \<Rightarrow> nat"
    and stop :: "bool \<Rightarrow> 'w \<Rightarrow> 'e option \<times> 'w"
    and replace :: "bool \<Rightarrow> 'f \<Rightarrow> 'p \<Rightarrow> 'w \<Rightarrow> 'e option \<times> 'w"
    and ends :: "nat \<Rightarrow> 'w \<Rightarrow> 'w"
    and ok :: "'w \<Rightarrow> bool"
  assumes ok_stop: "ok w \<Longrightarrow> ok (snd (stop t w))"
    and ok_replace: "ok w \<Longrightarrow> ok (snd (replace t f p w))"
    and ok_ends: "ok w \<Longrightarrow> ok (ends n w)"
    and ok_live: "ok w \<Longrightarrow> live w \<le> 1"
begin

inductive worked :: "'w \<Rightarrow> 'w \<Rightarrow> bool" where
  idle: "worked w w"
| stopped: "worked w v \<Longrightarrow> worked w (snd (stop t v))"
| replaced: "worked w v \<Longrightarrow> worked w (snd (replace t f p v))"
| ended: "worked w v \<Longrightarrow> worked w (ends n v)"

lemma worked_ok: "worked w v \<Longrightarrow> ok w \<Longrightarrow> ok v"
  by (induction rule: worked.induct) (auto intro: ok_stop ok_replace ok_ends)

lemma worked_live: "worked w v \<Longrightarrow> ok w \<Longrightarrow> live v \<le> 1"
  using worked_ok ok_live by blast

lemma worked_trans: "worked v u \<Longrightarrow> worked w v \<Longrightarrow> worked w u"
  by (induction rule: worked.induct) (auto intro: worked.intros)

end

definition live_jobs :: "('f, 'p) worker \<Rightarrow> nat" where
  "live_jobs w = length (filter (\<lambda>j. fst j \<noteq> Finished) (wk_jobs w))"

lemma exclusive_live: "exclusive w \<Longrightarrow> live_jobs w \<le> 1"
proof -
  assume ex: "exclusive w"
  have "{i. i < length (wk_jobs w) \<and> fst (wk_jobs w ! i) \<noteq> Finished} \<subseteq> set_option (wk_current w)"
    using ex by (auto simp: exclusive_def status_of_def)
  moreover have "finite (set_option (wk_current w)) \<and> card (set_option (wk_current w)) \<le> 1" by (cases "wk_current w") auto
  ultimately show ?thesis
    unfolding live_jobs_def length_filter_conv_card by (meson card_mono le_trans)
qed

interpretation job: single_job live_jobs worker_stop worker_replace worker_ends exclusive
proof unfold_locales
  fix w :: "('f, 'p) worker" and t f p n
  show "exclusive w \<Longrightarrow> exclusive (snd (worker_stop t w))" using exclusive_stop [of w t] by (metis prod.collapse)
  show "exclusive w \<Longrightarrow> exclusive (snd (worker_replace t f p w))" using exclusive_replace [of w t f p] by (metis prod.collapse)
  show "exclusive w \<Longrightarrow> exclusive (worker_ends n w)" by (rule exclusive_ends)
  show "exclusive w \<Longrightarrow> live_jobs w \<le> 1" by (rule exclusive_live)
qed

section \<open>What the jobs are for\<close>

text \<open>The fingerprint of a worker is the one of the job it counts as its own.\<close>

definition matched :: "('p \<Rightarrow> 'f) \<Rightarrow> ('f, 'p) worker \<Rightarrow> bool" where
  "matched key w \<longleftrightarrow> (\<forall>n\<in>set_option (wk_current w). n < length (wk_jobs w) \<and> wk_fingerprint w = Some (key (snd (wk_jobs w ! n))))"

lemma matched_new: "matched key new_worker"
  by (simp add: matched_def new_worker_def)

lemma matched_stop: "matched key w \<Longrightarrow> matched key (snd (worker_stop t w))"
  by (auto simp: matched_def worker_stop_def set_status_def split: option.splits)

lemma matched_replace: "matched key w \<Longrightarrow> matched key (snd (worker_replace t (key p) p w))"
  using matched_stop [of key w t] by (auto simp: matched_def worker_replace_def split: option.splits prod.splits)

lemma matched_ends: "matched key w \<Longrightarrow> matched key (worker_ends n w)"
  by (auto simp: matched_def worker_ends_def set_status_def nth_list_update)

text \<open>After a successful replacement the worker has a job of its own, not finished, for what was asked.\<close>

lemma replaced_job:
  assumes "exclusive w" "matched key w" "worker_replace t (key p) p w = (None, w')"
  shows "\<exists>n. wk_current w' = Some n \<and> n < length (wk_jobs w') \<and> status_of w' n \<noteq> Finished \<and> key (snd (wk_jobs w' ! n)) = key p"
proof (cases "(\<exists>n\<in>set_option (wk_current w). status_of w n \<noteq> Finished) \<and> wk_fingerprint w = Some (key p)")
  case True
  then show ?thesis using assms by (auto simp: worker_replace_def matched_def)
next
  case False
  then obtain w1 where "worker_stop t w = (None, w1)"
      "w' = w1\<lparr>wk_fingerprint := Some (key p), wk_current := Some (length (wk_jobs w1)), wk_jobs := wk_jobs w1 @ [(Running, p)]\<rparr>"
    using assms(3) by (auto simp: worker_replace_def split: option.splits prod.splits)
  then show ?thesis by (simp add: status_of_def)
qed

section \<open>Runs of the supervisor\<close>

inductive supervised :: "(transport_key \<Rightarrow> 'f) \<Rightarrow> (overlay_key \<Rightarrow> 'f) \<Rightarrow> 'f supervisor \<Rightarrow> bool" for ft fo where
  starts: "supervised ft fo \<lparr>sv_transport = new_worker, sv_overlay = new_worker\<rparr>"
| applies: "supervised ft fo s \<Longrightarrow> supervised ft fo (snd (supervisor_apply ft fo t1 t2 cfg profile s))"
| stops: "supervised ft fo s \<Longrightarrow> supervised ft fo (supervisor_stop t1 t2 s)"
| transport_ends: "supervised ft fo s \<Longrightarrow> supervised ft fo (s\<lparr>sv_transport := worker_ends n (sv_transport s)\<rparr>)"
| overlay_ends: "supervised ft fo s \<Longrightarrow> supervised ft fo (s\<lparr>sv_overlay := worker_ends n (sv_overlay s)\<rparr>)"

abbreviation tkey :: "(transport_key \<Rightarrow> 'f) \<Rightarrow> runtime_config \<Rightarrow> 'f" where
  "tkey ft \<equiv> \<lambda>cfg. ft (transport_key cfg)"

abbreviation okey :: "(overlay_key \<Rightarrow> 'f) \<Rightarrow> runtime_config \<times> wireguard_profile \<Rightarrow> 'f" where
  "okey fo \<equiv> \<lambda>(cfg, profile). fo (overlay_key cfg profile)"

definition workers_ok :: "(transport_key \<Rightarrow> 'f) \<Rightarrow> (overlay_key \<Rightarrow> 'f) \<Rightarrow> 'f supervisor \<Rightarrow> bool" where
  "workers_ok ft fo s \<longleftrightarrow> exclusive (sv_transport s) \<and> matched (tkey ft) (sv_transport s) \<and> exclusive (sv_overlay s) \<and> matched (okey fo) (sv_overlay s)"

lemma replace_keeps: "exclusive w \<Longrightarrow> matched key w \<Longrightarrow> worker_replace t (key p) p w = (e, w') \<Longrightarrow> exclusive w' \<and> matched key w'"
  using exclusive_replace matched_replace [of key w t p] by (metis snd_conv)

lemma apply_keeps:
  assumes "workers_ok ft fo s" "supervisor_apply ft fo t1 t2 cfg profile s = (e, s')"
  shows "workers_ok ft fo s'"
proof -
  obtain e1 t where t: "worker_replace t1 (tkey ft cfg) cfg (sv_transport s) = (e1, t)" by fastforce
  obtain e2 w where w: "worker_replace t2 (okey fo (cfg, profile)) (cfg, profile) (sv_overlay s) = (e2, w)" by fastforce
  have "exclusive t \<and> matched (tkey ft) t" using replace_keeps [of "sv_transport s" "tkey ft" t1 cfg e1 t] t assms(1) by (simp add: workers_ok_def)
  moreover have "exclusive w \<and> matched (okey fo) w" using replace_keeps [of "sv_overlay s" "okey fo" t2 "(cfg, profile)" e2 w] w assms(1) by (simp add: workers_ok_def)
  ultimately show ?thesis using assms t w by (auto simp: supervisor_apply_def workers_ok_def split: option.splits)
qed

lemma supervised_ok: "supervised ft fo s \<Longrightarrow> workers_ok ft fo s"
proof (induction rule: supervised.induct)
  case starts
  then show ?case by (simp add: workers_ok_def exclusive_new matched_new)
next
  case (applies s t1 t2 cfg profile)
  then show ?case using apply_keeps by (metis prod.collapse)
next
  case (stops s t1 t2)
  then show ?case by (simp add: workers_ok_def supervisor_stop_def job.ok_stop matched_stop)
next
  case (transport_ends s n)
  then show ?case by (simp add: workers_ok_def exclusive_ends matched_ends)
next
  case (overlay_ends s n)
  then show ?case by (simp add: workers_ok_def exclusive_ends matched_ends)
qed

lemma apply_done:
  assumes "workers_ok ft fo s" "supervisor_apply ft fo t1 t2 cfg profile s = (None, s')"
  shows "(\<exists>n. wk_current (sv_transport s') = Some n \<and> status_of (sv_transport s') n \<noteq> Finished \<and>
            ft (transport_key (snd (wk_jobs (sv_transport s') ! n))) = ft (transport_key cfg)) \<and>
         (\<exists>m. wk_current (sv_overlay s') = Some m \<and> status_of (sv_overlay s') m \<noteq> Finished \<and>
            okey fo (snd (wk_jobs (sv_overlay s') ! m)) = fo (overlay_key cfg profile))"
proof -
  from assms(2) have t: "worker_replace t1 (tkey ft cfg) cfg (sv_transport s) = (None, sv_transport s')"
    and w: "worker_replace t2 (okey fo (cfg, profile)) (cfg, profile) (sv_overlay s) = (None, sv_overlay s')"
    by (auto simp: supervisor_apply_def split: option.splits prod.splits)
  have "exclusive (sv_transport s)" "matched (tkey ft) (sv_transport s)" "exclusive (sv_overlay s)" "matched (okey fo) (sv_overlay s)"
    using assms(1) by (auto simp: workers_ok_def)
  then show ?thesis
    using replaced_job [of "sv_transport s" "tkey ft" t1 cfg "sv_transport s'"] t
      replaced_job [of "sv_overlay s" "okey fo" t2 "(cfg, profile)" "sv_overlay s'"] w by auto
qed

lemma overlay_kept:
  assumes "workers_ok ft fo s" "wk_current (sv_overlay s) = Some m" "status_of (sv_overlay s) m \<noteq> Finished"
    and "snd (wk_jobs (sv_overlay s) ! m) = (cfg0, profile)" "rc_WGShimListen cfg0 = rc_WGShimListen cfg" "rc_LegacyTunnel cfg0 = rc_LegacyTunnel cfg"
    and "supervisor_apply ft fo t1 t2 cfg profile s = (e, s')"
  shows "sv_overlay s' = sv_overlay s"
proof -
  have "wk_fingerprint (sv_overlay s) = Some (fo (overlay_key cfg profile))"
    using assms(1-6) by (auto simp: workers_ok_def matched_def overlay_key_def)
  then have "worker_replace t2 (fo (overlay_key cfg profile)) (cfg, profile) (sv_overlay s) = (None, sv_overlay s)"
    using assms(2,3) by (simp add: worker_replace_def)
  then show ?thesis using assms(7) by (auto simp: supervisor_apply_def split: option.splits prod.splits)
qed

section \<open>The claims\<close>


definition blank_config :: "string list \<Rightarrow> runtime_config" where
  "blank_config servers = \<lparr>rc_Paths = [], rc_ConfigVersion = 0, rc_Controllers = [], rc_WGShimServer = [], rc_WGShimServers = servers,
     rc_WGShimListen = ''l'', rc_WGShimTarget = [], rc_WGShimPSK = [], rc_PaddingMin = 0, rc_PaddingMax = 0, rc_LegacyTunnel = [],
     rc_UpdateChannel = [], rc_WireGuard = None\<rparr>"

definition blank_profile :: wireguard_profile where
  "blank_profile = \<lparr>wp_PrivateKey = [], wp_Address = [], wp_MTU = 0, wp_PeerPublicKey = [], wp_PresharedKey = [], wp_AllowedIPs = [],
     wp_PersistentKeepalive = 0\<rparr>"

text \<open>Fingerprints of one type: the first component tells the two kinds apart.\<close>

definition first_apply :: "(transport_key + overlay_key) supervisor" where
  "first_apply = snd (supervisor_apply Inl Inr True True (blank_config [''a:1'']) blank_profile \<lparr>sv_transport = new_worker, sv_overlay = new_worker\<rparr>)"

lemma first_apply_overlay:
  "wk_current (sv_overlay first_apply) = Some 0" "status_of (sv_overlay first_apply) 0 = Running"
  "snd (wk_jobs (sv_overlay first_apply) ! 0) = (blank_config [''a:1''], blank_profile)"
  by (simp_all add: first_apply_def supervisor_apply_def worker_replace_def worker_stop_def new_worker_def status_of_def)


text \<open>A worker that was told to stop and did not end in time counts as running: applying the configuration it was started with reports success although it is on its way out.
  The next application after its end starts it again.\<close>

lemma dying_worker_kept:
  assumes "wk_current w = Some n" "n < length (wk_jobs w)" "status_of w n = Running" "wk_fingerprint w = Some f"
  shows "worker_replace False g q w = (if g = f then (None, w) else (Some StopTimeout, set_status n Cancelled w)) \<and>
         worker_replace t f p (set_status n Cancelled w) = (None, set_status n Cancelled w) \<and>
         fst (worker_replace t f p (worker_ends n (set_status n Cancelled w))) = None \<and>
         status_of (snd (worker_replace t f p (worker_ends n (set_status n Cancelled w)))) (length (wk_jobs w)) = Running"
  using assms by (auto simp: worker_replace_def worker_stop_def worker_ends_def set_status_def status_of_def nth_append)

section \<open>A valid configuration starts\<close>

lemma validated_parts:
  "ValidateRuntimeConfig env cfg = None \<Longrightarrow>
   shim_key_ok (rc_WGShimPSK cfg) \<and> 0 \<le> rc_PaddingMin cfg \<and> rc_PaddingMin cfg \<le> rc_PaddingMax cfg \<and> rc_PaddingMax cfg \<le> 255 \<and> ValidatePaths env cfg = None"
  by (auto simp: ValidateRuntimeConfig_def split: sum.splits option.splits if_splits)

lemma valid_paths_distinct:
  "validate_paths_loop env wg seen ps = None \<Longrightarrow>
   distinct (map (\<lambda>p. te_ToLower env (tp_Endpoint p)) ps) \<and> set (map (\<lambda>p. te_ToLower env (tp_Endpoint p)) ps) \<inter> set seen = {} \<and>
   (\<forall>p\<in>set ps. valid_endpoint (tp_Endpoint p) \<and> (tp_PeerPublicKey p \<noteq> [] \<longrightarrow> (\<exists>w. wg = Some w \<and> tp_PeerPublicKey p = wp_PeerPublicKey w)))"
proof (induction ps arbitrary: seen)
  case (Cons p ps)
  let ?k = "te_ToLower env (tp_Endpoint p)"
  have "validate_paths_loop env wg (?k # seen) ps = None" "?k \<notin> set seen" "valid_endpoint (tp_Endpoint p)"
    "tp_PeerPublicKey p \<noteq> [] \<longrightarrow> (\<exists>w. wg = Some w \<and> tp_PeerPublicKey p = wp_PeerPublicKey w)"
    using Cons.prems by (auto simp: Let_def split: if_splits option.splits)
  with Cons.IH [of "?k # seen"] show ?case by auto
qed simp

lemma shim_codecs_ok:
  assumes "crypto_ok cr" "shim_key_ok (rc_WGShimPSK cfg)" "0 \<le> rc_PaddingMin cfg" "rc_PaddingMin cfg \<le> rc_PaddingMax cfg" "rc_PaddingMax cfg \<le> 255"
  shows "\<exists>tx rx. shim_codecs cr cfg = Some (tx, rx) \<and> codec_ok tx \<and> codec_ok rx"
proof -
  obtain psk where psk: "base64_decode (rc_WGShimPSK cfg) = Some psk" "length psk = 32" using assms(2) by (auto simp: shim_key_ok_def split: option.splits)
  have "length (hmac_sha256 cr k m) = 32" for k m using assms(1) by (simp add: crypto_ok_def)
  then show ?thesis using psk assms(3-5) by (auto simp: shim_codecs_def DeriveKey_def NewCodec_def codec_ok_def Let_def)
qed

end
