(* ===== verification/AgentTunnel.thy ===== *)
theory AgentTunnel
  imports AgentProps AgentRuntime WgUdp
begin

text \<open>The tunnel of the Device agent: \<^verbatim>\<open>cmd/bpc-agent/tunnel_windows.go\<close> as far as it computes, the choice of a peer in a tunnel that was there before
  (\<^verbatim>\<open>cmd/bpc-agent/main.go\<close>), and \<^verbatim>\<open>p2pRouteScript\<close> up to its text. The resolver of the system is an argument.\<close>

section \<open>Configuring the embedded WireGuard\<close>

definition newline :: char where "newline = CHR 0x0A"

definition embeddedUAPI :: "runtime_config \<Rightarrow> wireguard_profile \<Rightarrow> p2p_error + string" where
  "embeddedUAPI cfg p =
     (case WGKeyHex (wp_PrivateKey p) False of
        Inl e \<Rightarrow> Inl e
      | Inr privateHex \<Rightarrow>
          (case WGKeyHex (wp_PeerPublicKey p) False of
             Inl e \<Rightarrow> Inl e
           | Inr peerHex \<Rightarrow>
               (case (if trim_space (wp_PresharedKey p) \<noteq> []
                      then map_sum id (\<lambda>h. ''preshared_key='' @ h @ [newline]) (WGKeyHex (wp_PresharedKey p) True) else Inr []) of
                  Inl e \<Rightarrow> Inl e
                | Inr psk \<Rightarrow>
                    Inr (''private_key='' @ privateHex @ [newline] @ ''replace_peers=true'' @ [newline] @
                         ''public_key='' @ peerHex @ [newline] @ psk @
                         ''endpoint='' @ rc_WGShimListen cfg @ [newline] @
                         ''persistent_keepalive_interval='' @ Itoa (wp_PersistentKeepalive p) @ [newline] @
                         ''replace_allowed_ips=true'' @ [newline] @
                         concat (map (\<lambda>allowed. ''allowed_ip='' @ trim_space allowed @ [newline]) (wp_AllowedIPs p)) @ [newline]))))"

text \<open>Reading the counters of all peers; sums wrap at 64 bits.\<close>

record tunnel_telemetry =
  tt_UpdatedAt :: int
  tt_HandshakeAt :: int
  tt_RXBytes :: u64
  tt_TXBytes :: u64

definition ParseUint64 :: "string \<Rightarrow> u64 option" where
  "ParseUint64 s = (if s = [] then None else case parse_nat_acc 0 s of None \<Rightarrow> None | Some n \<Rightarrow> if n < 2 ^ 64 then Some (word_of_nat n) else None)"

definition telemetry_line :: "string \<Rightarrow> tunnel_telemetry \<Rightarrow> tunnel_telemetry" where
  "telemetry_line rawLine stats =
     (case cut_at CHR ''='' (trim_space rawLine) of
        None \<Rightarrow> stats
      | Some (key, value) \<Rightarrow>
          if key = ''last_handshake_time_sec'' then
            (case ParseInt value of Some n \<Rightarrow> if tt_HandshakeAt stats < n then stats\<lparr>tt_HandshakeAt := n\<rparr> else stats | None \<Rightarrow> stats)
          else if key = ''rx_bytes'' then
            (case ParseUint64 value of Some n \<Rightarrow> stats\<lparr>tt_RXBytes := tt_RXBytes stats + n\<rparr> | None \<Rightarrow> stats)
          else if key = ''tx_bytes'' then
            (case ParseUint64 value of Some n \<Rightarrow> stats\<lparr>tt_TXBytes := tt_TXBytes stats + n\<rparr> | None \<Rightarrow> stats)
          else stats)"

definition readEmbeddedTelemetry :: "gotime \<Rightarrow> string option \<Rightarrow> tunnel_telemetry" where
  "readEmbeddedTelemetry now ipc =
     (let stats = \<lparr>tt_UpdatedAt = unix_of now, tt_HandshakeAt = 0, tt_RXBytes = 0, tt_TXBytes = 0\<rparr>
      in case ipc of None \<Rightarrow> stats | Some raw \<Rightarrow> fold telemetry_line (split_on newline raw) stats)"

text \<open>What a path switch makes the device do: a handshake beside the running session, or a new configuration of its peers.\<close>

datatype switch_action = SendHandshake "byte list" | ResetPeers string | SwitchFails

definition on_path_switch :: "(byte list \<Rightarrow> bool) \<Rightarrow> wireguard_profile \<Rightarrow> string \<Rightarrow> path_switch \<Rightarrow> switch_action" where
  "on_path_switch has_peer p uapi event =
     (if ps_PreserveSession event then
        (case base64_decode (wp_PeerPublicKey p) of
           None \<Rightarrow> SwitchFails
         | Some raw \<Rightarrow> if length raw \<noteq> 32 then SwitchFails else if \<not> has_peer raw then SwitchFails else SendHandshake raw)
      else ResetPeers uapi)"

section \<open>Addresses of the relays\<close>

record resolver =
  rs_ParseIP :: "string \<Rightarrow> byte list option"
  rs_LookupIP :: "string \<Rightarrow> byte list list option"

definition trim_brackets :: "string \<Rightarrow> string" where
  "trim_brackets s = (let b = (\<lambda>c. c = CHR ''['' \<or> c = CHR '']'') in rev (dropWhile b (rev (dropWhile b s))))"

fun distinct_v4 :: "string list \<Rightarrow> byte list list \<Rightarrow> string list" where
  "distinct_v4 result [] = result"
| "distinct_v4 result (ip # ips) =
     (case To4 ip of
        None \<Rightarrow> distinct_v4 result ips
      | Some v4 \<Rightarrow> if ip_String v4 \<in> set result then distinct_v4 result ips else distinct_v4 (result @ [ip_String v4]) ips)"

definition resolveWGShimServerIPv4Candidates :: "resolver \<Rightarrow> string \<Rightarrow> string list option" where
  "resolveWGShimServerIPv4Candidates rs endpoint =
     (case SplitHostPort (trim_space endpoint) of
        None \<Rightarrow> None
      | Some (host, _) \<Rightarrow>
          let host = trim_brackets host
          in case rs_ParseIP rs host of
               Some ip \<Rightarrow> (case To4 ip of Some v4 \<Rightarrow> Some [ip_String v4] | None \<Rightarrow> None)
             | None \<Rightarrow>
                 (case rs_LookupIP rs host of
                    None \<Rightarrow> None
                  | Some addresses \<Rightarrow> let result = distinct_v4 [] addresses in if result = [] then None else Some result))"

fun resolve_paths :: "resolver \<Rightarrow> string list \<Rightarrow> transport_path list \<Rightarrow> string list" where
  "resolve_paths rs result [] = result"
| "resolve_paths rs result (path # paths) =
     (case resolveWGShimServerIPv4Candidates rs (tp_Endpoint path) of
        None \<Rightarrow> resolve_paths rs result paths
      | Some addresses \<Rightarrow> resolve_paths rs (fold (\<lambda>a r. if a \<in> set r then r else r @ [a]) addresses result) paths)"

definition resolveWGShimServerIPv4s :: "resolver \<Rightarrow> transport_path list \<Rightarrow> string list option" where
  "resolveWGShimServerIPv4s rs paths = (let result = resolve_paths rs [] paths in if result = [] then None else Some result)"

definition resolveWGShimServerIPv4 :: "resolver \<Rightarrow> string \<Rightarrow> string option" where
  "resolveWGShimServerIPv4 rs endpoint = map_option hd (resolveWGShimServerIPv4Candidates rs endpoint)"

text \<open>The plan of the interface: the relays that keep a physical route, the interface's own address, and the routes into the tunnel. The address is read as it is,
  without trimming it.\<close>

definition configure_plan :: "resolver \<Rightarrow> runtime_config \<Rightarrow> wireguard_profile \<Rightarrow> (string list \<times> any_prefix \<times> int \<times> prefix list) option" where
  "configure_plan rs cfg p =
     (case ParseAnyPrefix (wp_Address p) of
        None \<Rightarrow> None
      | Some address \<Rightarrow>
          (case resolveWGShimServerIPv4s rs (TransportPaths cfg) of
             None \<Rightarrow> None
           | Some serverIPs \<Rightarrow>
               if list_all (\<lambda>route. ParseAnyPrefix (trim_space route) \<noteq> None) (wp_AllowedIPs p)
               then Some (serverIPs, address, wp_MTU p,
                          concat (map (\<lambda>route. case ParseAnyPrefix (trim_space route) of Some (Prefix4 q) \<Rightarrow> [q] | _ \<Rightarrow> []) (wp_AllowedIPs p)))
               else None))"

section \<open>A tunnel that was there before\<close>

definition parseEndpoints :: "string \<Rightarrow> (string \<times> string) list" where
  "parseEndpoints output =
     concat (map (\<lambda>line. case Fields line of peer # endpoint # _ \<Rightarrow> [(peer, endpoint)] | _ \<Rightarrow> []) (split_on newline (trim_space output)))"

definition equalEndpoint :: "(string \<Rightarrow> string \<Rightarrow> bool) \<Rightarrow> string \<Rightarrow> string \<Rightarrow> bool" where
  "equalEndpoint fold_eq a b \<longleftrightarrow> fold_eq (trim_space a) (trim_space b)"

datatype tunnel_choice = NothingToDo | SetEndpoint string | TunnelMissing | EndpointsUnreadable | NoPeers | CannotChoose

definition choose_tunnel_peer :: "(string \<Rightarrow> string \<Rightarrow> bool) \<Rightarrow> runtime_config \<Rightarrow> (string \<times> string) list \<Rightarrow> tunnel_choice" where
  "choose_tunnel_peer fold_eq cfg entries =
     (if entries = [] then NoPeers
      else if \<exists>e\<in>set entries. equalEndpoint fold_eq (snd e) (rc_WGShimListen cfg) then NothingToDo
      else let peer = (case find (\<lambda>e. equalEndpoint fold_eq (snd e) (rc_WGShimTarget cfg)) entries of None \<Rightarrow> [] | Some e \<Rightarrow> fst e);
               peer = (if peer = [] \<and> length entries = 1 then fst (hd entries) else peer)
           in if peer = [] then CannotChoose else SetEndpoint peer)"

definition ensureTunnelEndpoint :: "(string \<Rightarrow> string \<Rightarrow> bool) \<Rightarrow> bool \<Rightarrow> string option \<Rightarrow> runtime_config \<Rightarrow> tunnel_choice" where
  "ensureTunnelEndpoint fold_eq installed endpoints cfg =
     (if rc_LegacyTunnel cfg = [] then NothingToDo
      else if \<not> installed then TunnelMissing
      else case endpoints of None \<Rightarrow> EndpointsUnreadable | Some out \<Rightarrow> choose_tunnel_peer fold_eq cfg (parseEndpoints out))"

definition psQuote :: "string \<Rightarrow> string" where
  "psQuote s = concat (map (\<lambda>c. if c = CHR 0x27 then [CHR 0x27, CHR 0x27] else [c]) s)"

definition samePath :: "(string \<Rightarrow> string) \<Rightarrow> (string \<Rightarrow> string \<Rightarrow> bool) \<Rightarrow> string \<Rightarrow> string \<Rightarrow> bool" where
  "samePath clean fold_eq a b \<longleftrightarrow> fold_eq (clean a) (clean b)"

text \<open>The GUID that goes into a script: 32 hexadecimal digits in five groups, nothing else.\<close>

definition guid_ok :: "string \<Rightarrow> bool" where
  "guid_ok guid \<longleftrightarrow>
     length guid = 36 \<and> (\<forall>i<36. if i \<in> {8, 13, 18, 23} then guid ! i = CHR ''-'' else hex_val (guid ! i) \<noteq> None)"

definition route_allowed :: "u32 \<Rightarrow> string \<Rightarrow> net_addr \<Rightarrow> bool" where
  "route_allowed index guid peer \<longleftrightarrow>
     index \<noteq> 0 \<and> Is4 peer \<and> private4 peer \<and>
     guid_ok (let b = (\<lambda>c. c = CHR ''{'' \<or> c = CHR ''}'') in rev (dropWhile b (rev (dropWhile b guid))))"

section \<open>No line ends in what is configured\<close>

lemma hex_encode_no_newline: "newline \<notin> set (hex_encode bs)"
proof
  assume "newline \<in> set (hex_encode bs)"
  then obtain n where "newline = hex_char n" by (auto simp: hex_encode_def)
  then have "hex_val newline = Some (n mod 16)" using hex_char_cases [of n] by simp
  then show False by (simp add: newline_def hex_val_def)
qed

lemma digit_not_newline: "is_digit c \<Longrightarrow> c \<noteq> newline"
  by (auto simp: is_digit_def newline_def less_eq_char_def)

lemma hex_not_newline: "is_hex c \<Longrightarrow> c \<noteq> newline"
  by (auto simp: hex_val_def newline_def)

lemma Itoa_no_newline: "newline \<notin> set (Itoa n)"
  using radix_digits digit_not_newline by (auto simp: Itoa_def newline_def)

lemma parse_nat_digits: "parse_nat_acc n s = Some m \<Longrightarrow> newline \<notin> set s"
  by (induction s arbitrary: n) (auto split: if_splits dest: digit_not_newline)

lemma ipv4_fields_chars: "parse_ipv4_fields prev v k parts s = Some fs \<Longrightarrow> newline \<notin> set s"
  by (induction prev v k parts s rule: parse_ipv4_fields.induct) (auto simp: newline_def split: if_splits dest: digit_not_newline)

lemma hex_run_no_newline: "newline \<in> set s \<Longrightarrow> newline \<in> set (dropWhile is_hex s)"
  using hex_not_newline by (metis Un_iff set_append set_takeWhileD takeWhile_dropWhile_id)

lemma ipv6_loop_chars: "ipv6_loop fuel i ell s \<Longrightarrow> newline \<notin> set s"
proof (induction fuel arbitrary: i ell s)
  case 0
  then show ?case by (simp add: ipv6_end_def)
next
  case (Suc fuel)
  let ?rest = "dropWhile is_hex s"
  have "newline \<notin> set ?rest"
  proof (cases ?rest)
    case Nil
    show ?thesis unfolding Nil by simp
  next
    case (Cons c cs)
    consider "newline \<notin> set s" | "c = CHR '':''" "cs = '':''" | "c = CHR '':''" "hd cs = CHR '':''" "newline \<notin> set (tl cs)" | "c = CHR '':''" "newline \<notin> set cs"
      using Suc.prems Cons by (auto simp: Let_def neq_Nil_conv dest!: Suc.IH dest: ipv4_fields_chars split: if_splits)
    then show ?thesis
    proof cases
      case 1
      then show ?thesis using set_dropWhileD by fast
    next
      case 2
      then show ?thesis unfolding Cons by (simp add: newline_def)
    next
      case 3
      then show ?thesis unfolding Cons by (cases cs) (auto simp: newline_def)
    next
      case 4
      then show ?thesis unfolding Cons by (simp add: newline_def)
    qed
  qed
  then show ?case using hex_run_no_newline by blast
qed

lemma cut_last_parts: "cut_last c s = Some (a, b) \<Longrightarrow> set s = insert c (set a \<union> set b)"
proof -
  assume "cut_last c s = Some (a, b)"
  then have c: "c \<in> set s" and ab: "a = rev (tl (dropWhile (\<lambda>x. x \<noteq> c) (rev s)))" "b = rev (takeWhile (\<lambda>x. x \<noteq> c) (rev s))"
    by (auto simp: cut_last_def cut_at_def split: if_splits)
  have ne: "dropWhile (\<lambda>x. x \<noteq> c) (rev s) \<noteq> []" using c by (simp add: dropWhile_eq_Nil_conv)
  have h: "hd (dropWhile (\<lambda>x. x \<noteq> c) (rev s)) = c" using hd_dropWhile [OF ne] by simp
  have "set s = set (takeWhile (\<lambda>x. x \<noteq> c) (rev s) @ dropWhile (\<lambda>x. x \<noteq> c) (rev s))" by simp
  also have "\<dots> = set b \<union> insert c (set a)" using ne h ab by (metis list.collapse list.simps(15) set_append set_rev)
  finally show ?thesis by auto
qed

lemma ParsePrefix_chars: "ParsePrefix s = Some p \<Longrightarrow> newline \<notin> set s"
proof -
  assume p: "ParsePrefix s = Some p"
  then have "CHR ''/'' \<in> set s" by (auto simp: ParsePrefix_def split: if_splits)
  then obtain a b where cut: "cut_last CHR ''/'' s = Some (a, b)" by (auto simp: cut_last_def cut_at_def)
  then have "newline \<notin> set a \<and> newline \<notin> set b"
    using p by (auto simp: cut_last_def cut_at_def ParsePrefix_def ParseAddr4_def Let_def split: if_splits option.splits dest: ipv4_fields_chars parse_nat_digits)
  then show ?thesis using cut_last_parts [OF cut] by (simp add: newline_def)
qed

lemma ParseAnyPrefix_chars: "ParseAnyPrefix s = Some q \<Longrightarrow> newline \<notin> set s"
proof -
  assume q: "ParseAnyPrefix s = Some q"
  then obtain a b where cut: "cut_last CHR ''/'' s = Some (a, b)" by (auto simp: ParseAnyPrefix_def split: option.splits)
  consider "\<exists>p. ParsePrefix s = Some p" | "valid_ipv6 a" "\<exists>n. parse_bits 128 b = Some n"
    using q by (auto simp: ParseAnyPrefix_def cut split: if_splits)
  then show ?thesis
  proof cases
    case 1
    then show ?thesis using ParsePrefix_chars by blast
  next
    case 2
    have "newline \<notin> set b" using 2(2) by (auto simp: parse_bits_def split: if_splits option.splits dest: parse_nat_digits)
    moreover have "newline \<notin> set a"
    proof (cases "has_prefix a ''::''")
      case True
      then obtain r where r: "a = ''::'' @ r" by (auto elim: has_prefixE)
      then have "r = [] \<or> ipv6_loop 8 0 True r" using 2(1) True by (auto simp: valid_ipv6_def split: if_splits)
      then show ?thesis using r ipv6_loop_chars by (auto simp: newline_def)
    next
      case False
      then show ?thesis using 2(1) ipv6_loop_chars by (auto simp: valid_ipv6_def)
    qed
    ultimately show ?thesis using cut_last_parts [OF cut] by (simp add: newline_def)
  qed
qed

section \<open>The claims\<close>

text \<open>The lines the device is given.\<close>

definition uapi_lines :: "runtime_config \<Rightarrow> wireguard_profile \<Rightarrow> byte list \<Rightarrow> byte list \<Rightarrow> byte list option \<Rightarrow> string list" where
  "uapi_lines cfg p private peer psk =
     [''private_key='' @ hex_encode private, ''replace_peers=true'', ''public_key='' @ hex_encode peer] @
     (case psk of None \<Rightarrow> [] | Some k \<Rightarrow> [''preshared_key='' @ hex_encode k]) @
     [''endpoint='' @ rc_WGShimListen cfg, ''persistent_keepalive_interval='' @ Itoa (wp_PersistentKeepalive p), ''replace_allowed_ips=true''] @
     map (\<lambda>allowed. ''allowed_ip='' @ trim_space allowed) (wp_AllowedIPs p)"

lemma split_lines: "\<forall>l\<in>set ls. newline \<notin> set l \<Longrightarrow> split_on newline (concat (map (\<lambda>l. l @ [newline]) ls) @ [newline]) = ls @ [[], []]"
  by (induction ls) (auto simp: split_on_append)

lemma complete_parts:
  assumes "Complete p"
  obtains priv peer where "ParseWGKey (wp_PrivateKey p) False = Inr priv" "ParseWGKey (wp_PeerPublicKey p) False = Inr peer"
    "trim_space (wp_PresharedKey p) \<noteq> [] \<longrightarrow> (\<exists>k. ParseWGKey (wp_PresharedKey p) True = Inr k)"
    "\<forall>a\<in>set (wp_AllowedIPs p). newline \<notin> set (trim_space a)"
proof -
  have net: "validate_network (wp_Address p) (wp_MTU p) (wp_AllowedIPs p) (wp_PersistentKeepalive p) = None"
    using assms by (auto simp: Complete_def ValidateWireGuardProfile_def validateWireGuardProfile_def split: sum.splits)
  have "\<forall>a\<in>set (wp_AllowedIPs p). ParseAnyPrefix (trim_space a) \<noteq> None"
    using net by (auto simp: validate_network_def split: option.splits any_prefix.splits if_splits)
  then have "\<forall>a\<in>set (wp_AllowedIPs p). newline \<notin> set (trim_space a)" using ParseAnyPrefix_chars by fast
  then show ?thesis
    using that assms by (auto simp: Complete_def ValidateWireGuardProfile_def validateWireGuardProfile_def split: sum.splits if_splits)
qed

text \<open>The embedded WireGuard gets exactly the profile. For a complete profile, and a local address without a line end, the text that configures the device consists, line by
  line, of the two keys, the preshared key if there is one, the local transport as the only endpoint, the keepalive and the allowed addresses of the
  profile, and of nothing else: whatever text a Controller put into these fields, a field cannot add a line of its own.\<close>
theorem uapi_exact:
  assumes "Complete p" "newline \<notin> set (rc_WGShimListen cfg)"
  shows "\<exists>text priv peer psk. embeddedUAPI cfg p = Inr text \<and> split_on newline text = uapi_lines cfg p priv peer psk @ [[], []] \<and>
           ParseWGKey (wp_PrivateKey p) False = Inr priv \<and> ParseWGKey (wp_PeerPublicKey p) False = Inr peer \<and>
           (case psk of None \<Rightarrow> trim_space (wp_PresharedKey p) = [] | Some k \<Rightarrow> ParseWGKey (wp_PresharedKey p) True = Inr k)"
proof -
  obtain priv peer where keys: "ParseWGKey (wp_PrivateKey p) False = Inr priv" "ParseWGKey (wp_PeerPublicKey p) False = Inr peer"
    and psk: "trim_space (wp_PresharedKey p) \<noteq> [] \<longrightarrow> (\<exists>k. ParseWGKey (wp_PresharedKey p) True = Inr k)"
    and ips: "\<forall>a\<in>set (wp_AllowedIPs p). newline \<notin> set (trim_space a)"
    using complete_parts [OF assms(1)] by metis
  define k where "k = (if trim_space (wp_PresharedKey p) = [] then None else Some (projr (ParseWGKey (wp_PresharedKey p) True)))"
  have k: "case k of None \<Rightarrow> trim_space (wp_PresharedKey p) = [] | Some k \<Rightarrow> ParseWGKey (wp_PresharedKey p) True = Inr k"
    using psk by (auto simp: k_def)
  let ?ls = "uapi_lines cfg p priv peer k"
  have "embeddedUAPI cfg p = Inr (concat (map (\<lambda>l. l @ [newline]) ?ls) @ [newline])"
    using psk WGKeyHex_encode [OF keys(1)] WGKeyHex_encode [OF keys(2)] WGKeyHex_encode [of "wp_PresharedKey p" True]
    by (auto simp: embeddedUAPI_def uapi_lines_def k_def comp_def)
  moreover have "\<forall>l\<in>set ?ls. newline \<notin> set l"
    using ips assms(2) hex_encode_no_newline Itoa_no_newline by (auto simp: uapi_lines_def newline_def split: option.splits)
  ultimately show ?thesis using split_lines [of ?ls] keys k by blast
qed

theorem uapi_exact_witness:
  "\<exists>text. embeddedUAPI demo_config (as_WireGuard demo_state) = Inr text \<and> last (split_on newline text) = []"
proof -
  have "Complete (as_WireGuard demo_state)" using demo_complete by (simp add: demo_state_def enrolled_state_def)
  moreover have "newline \<notin> set (rc_WGShimListen demo_config)" by (simp add: demo_config_def newline_def)
  ultimately show ?thesis using uapi_exact [of "as_WireGuard demo_state" demo_config] by fastforce
qed

text \<open>A configuration that passes the check of the agent can be run: its key gives both packet codecs, each with the padding range the codec needs; it has between one
  and sixteen transport paths whose endpoints are a host and a port in range and differ also when case is ignored; and a path that names the peer it ends at
  names the peer of the WireGuard profile, so that no path can lead the session to another one.\<close>
theorem validated_config_runs:
  assumes "ValidateRuntimeConfig env cfg = None" "crypto_ok cr"
  shows "(\<exists>tx rx. shim_codecs cr cfg = Some (tx, rx) \<and> codec_ok tx \<and> codec_ok rx) \<and>
         TransportPaths cfg \<noteq> [] \<and> length (TransportPaths cfg) \<le> 16 \<and>
         distinct (map (\<lambda>p. te_ToLower env (tp_Endpoint p)) (TransportPaths cfg)) \<and>
         (\<forall>p\<in>set (TransportPaths cfg). valid_endpoint (tp_Endpoint p) \<and>
            (tp_PeerPublicKey p \<noteq> [] \<longrightarrow> (\<exists>w. rc_WireGuard cfg = Some w \<and> tp_PeerPublicKey p = wp_PeerPublicKey w)))"
proof -
  note v = validated_parts [OF assms(1)]
  have "TransportPaths cfg \<noteq> [] \<and> length (TransportPaths cfg) \<le> 16 \<and> validate_paths_loop env (rc_WireGuard cfg) [] (TransportPaths cfg) = None"
    using v by (auto simp: ValidatePaths_def Let_def split: if_splits)
  then show ?thesis using shim_codecs_ok [OF assms(2)] v valid_paths_distinct [of env "rc_WireGuard cfg" "[]" "TransportPaths cfg"] by simp
qed


theorem validated_config_runs_witness:
  "\<exists>tx rx. shim_codecs ex_crypto demo_config = Some (tx, rx) \<and> codec_ok tx \<and> codec_ok rx"
  using validated_config_runs [OF demo_config_ok ex_crypto_ok] by blast

text \<open>The check of a profile trims the address, its use does not: a profile with a blank before its address is complete, but the interface cannot be configured with it.\<close>

lemma address_trimmed: "trim_space a = trim_space (wp_Address p) \<Longrightarrow> Complete p \<Longrightarrow> Complete (p\<lparr>wp_Address := a\<rparr>)"
proof -
  assume t: "trim_space a = trim_space (wp_Address p)"
  have "validate_network a m i k = validate_network (wp_Address p) m i k" for m i k by (simp add: validate_network_def t)
  then have "validateWireGuardProfile (p\<lparr>wp_Address := a\<rparr>) True = validateWireGuardProfile p True"
    by (simp add: validateWireGuardProfile_def split: sum.splits)
  then show "Complete p \<Longrightarrow> ?thesis" by (simp add: Complete_def ValidateWireGuardProfile_def)
qed

lemma untrimmed_address_fails:
  fixes rs cfg
  defines "p \<equiv> (as_WireGuard demo_state)\<lparr>wp_Address := '' 10.0.0.2/32''\<rparr>"
  shows "Complete p \<and> configure_plan rs cfg p = None"
proof -
  have t: "trim_space '' 10.0.0.2/32'' = ''10.0.0.2/32''" by (simp add: trim_space_def trim_front.simps space_seqs_def)
  have a: "wp_Address (as_WireGuard demo_state) = ''10.0.0.2/32''" by (simp add: demo_state_def enrolled_state_def demo_profile_def)
  have "Complete (as_WireGuard demo_state)" using demo_complete by (simp add: demo_state_def enrolled_state_def)
  then have "Complete p" unfolding p_def by (intro address_trimmed) (simp_all add: t a plain_trims)
  moreover have "ParseAnyPrefix '' 10.0.0.2/32'' = None"
    by (simp add: ParseAnyPrefix_def cut_last_def cut_at_def ParsePrefix_def ParseAddr4_def is_digit_def less_eq_char_def Let_def)
  ultimately show ?thesis by (simp add: configure_plan_def p_def)
qed

end
