(* ===== verification/RoutedKernel.thy ===== *)
theory RoutedKernel
  imports RoutedRouter NetUDP AgentText
begin

text \<open>The routed Node's daemon: \<^verbatim>\<open>cmd/bpc-routed-node/policy.go\<close> and \<^verbatim>\<open>cmd/bpc-routed-node/main.go\<close>. It changes the kernel's routes and
  filters by running commands; whether the command with a given number succeeds is an argument, and the commands with their outcomes are kept as a
  log. Go visits a map in no particular order: the order of each loop is an argument too.\<close>

section \<open>Data\<close>

definition meshRouteTable :: string where "meshRouteTable = ''12530''"
definition meshRouteMark :: string where "meshRouteMark = ''0x425043''"
definition meshRulePriority :: string where "meshRulePriority = ''120''"

record kernel =
  k_localNodeID :: string
  k_interfaceID :: string
  k_overlaySubnet :: string
  k_routes :: "(string \<times> string) list"
  k_policyDefault :: bool
  k_policyRule :: bool
  k_natNoSNAT :: "string list"
  k_siteNAT :: "string list"
  k_forward :: "string list"

type_synonym args = "string list"
type_synonym shell = "nat \<Rightarrow> args \<Rightarrow> bool"
type_synonym log = "(args \<times> bool) list"
type_synonym order = "nat \<Rightarrow> string list \<Rightarrow> string list"

datatype kernel_error = NotFresh | CommandFailed args

text \<open>The two maps of the code, the routes and the table of each, are one association list.\<close>

definition runCommand :: "shell \<Rightarrow> args \<Rightarrow> log \<Rightarrow> bool \<times> log" where
  "runCommand sh args lg = (let ok = sh (length lg) args in (ok, lg @ [(args, ok)]))"

section \<open>Policy routing\<close>

definition kernelRouteArgs :: "string \<Rightarrow> string \<Rightarrow> string \<Rightarrow> string \<Rightarrow> args" where
  "kernelRouteArgs action cidr device table =
     [''ip'', ''route'', action, cidr, ''dev'', device, ''proto'', ''99''] @ (if table \<noteq> [] then [''table'', table] else [])"

definition default_args :: "string \<Rightarrow> args" where
  "default_args action = [''ip'', ''route'', action, ''unreachable'', ''default'', ''table'', meshRouteTable, ''proto'', ''99'']"

definition rule_args :: "string \<Rightarrow> args" where
  "rule_args action = [''ip'', ''rule'', action, ''priority'', meshRulePriority, ''fwmark'', meshRouteMark, ''lookup'', meshRouteTable]"

text \<open>Running a command only while the flag is not what it shall be, and setting it when the command succeeded.\<close>

definition enablePublicPolicy :: "shell \<Rightarrow> kernel \<Rightarrow> log \<Rightarrow> kernel_error option \<times> kernel \<times> log" where
  "enablePublicPolicy sh k lg =
     (case (if k_policyDefault k then (True, lg) else runCommand sh (default_args ''add'') lg) of
        (False, lg) \<Rightarrow> (Some (CommandFailed (default_args ''add'')), k, lg)
      | (True, lg) \<Rightarrow>
          let k = k\<lparr>k_policyDefault := True\<rparr>
          in case (if k_policyRule k then (True, lg) else runCommand sh (rule_args ''add'') lg) of
               (False, lg) \<Rightarrow> (Some (CommandFailed (rule_args ''add'')), k, lg)
             | (True, lg) \<Rightarrow> (None, k\<lparr>k_policyRule := True\<rparr>, lg))"

definition disablePublicPolicy :: "shell \<Rightarrow> kernel \<Rightarrow> log \<Rightarrow> kernel_error option \<times> kernel \<times> log" where
  "disablePublicPolicy sh k lg =
     (case (if k_policyRule k then runCommand sh (rule_args ''del'') lg else (True, lg)) of
        (False, lg) \<Rightarrow> (Some (CommandFailed (rule_args ''del'')), k, lg)
      | (True, lg) \<Rightarrow>
          let k = k\<lparr>k_policyRule := False\<rparr>
          in case (if k_policyDefault k then runCommand sh (default_args ''del'') lg else (True, lg)) of
               (False, lg) \<Rightarrow> (Some (CommandFailed (default_args ''del'')), k, lg)
             | (True, lg) \<Rightarrow> (None, k\<lparr>k_policyDefault := False\<rparr>, lg))"

section \<open>Rules of others\<close>

text \<open>\<^verbatim>\<open>strconv.ParseUint\<close> with base 0 and 32 bits: the prefix gives the base, and underscores may stand between digits.\<close>

definition base_of :: "string \<Rightarrow> nat \<times> string" where
  "base_of s =
     (if s \<noteq> [] \<and> hd s = CHR ''0'' then
        (if 3 \<le> length s \<and> s ! 1 \<in> {CHR ''b'', CHR ''B''} then (2, drop 2 s)
         else if 3 \<le> length s \<and> s ! 1 \<in> {CHR ''o'', CHR ''O''} then (8, drop 2 s)
         else if 3 \<le> length s \<and> s ! 1 \<in> {CHR ''x'', CHR ''X''} then (16, drop 2 s)
         else (8, drop 1 s))
      else (10, s))"

definition alnum_val :: "char \<Rightarrow> nat option" where
  "alnum_val c =
     (if is_digit c then Some (digit_val c)
      else if CHR ''a'' \<le> c \<and> c \<le> CHR ''z'' then Some (of_char c - 87)
      else if CHR ''A'' \<le> c \<and> c \<le> CHR ''Z'' then Some (of_char c - 55) else None)"

fun parse_base :: "nat \<Rightarrow> nat \<Rightarrow> string \<Rightarrow> nat option" where
  "parse_base b n [] = Some n"
| "parse_base b n (c # cs) =
     (if c = CHR ''_'' then parse_base b n cs
      else case alnum_val c of
             None \<Rightarrow> None
           | Some d \<Rightarrow> if b \<le> d \<or> 2 ^ 32 \<le> n * b + d then None else parse_base b (n * b + d) cs)"

fun underscores_ok :: "bool \<Rightarrow> char \<Rightarrow> string \<Rightarrow> bool" where
  "underscores_ok hx prev [] = (prev \<noteq> CHR ''_'')"
| "underscores_ok hx prev (c # cs) =
     (if is_digit c \<or> (hx \<and> hex_val c \<noteq> None) then underscores_ok hx CHR ''0'' cs
      else if c = CHR ''_'' then (if prev \<noteq> CHR ''0'' then False else underscores_ok hx CHR ''_'' cs)
      else if prev = CHR ''_'' then False
      else underscores_ok hx CHR ''!'' cs)"

definition underscoreOK :: "string \<Rightarrow> bool" where
  "underscoreOK s0 =
     (let s = (if s0 \<noteq> [] \<and> hd s0 \<in> {CHR ''-'', CHR ''+''} then tl s0 else s0)
      in if 2 \<le> length s \<and> hd s = CHR ''0'' \<and> s ! 1 \<in> set ''bBoOxX''
         then underscores_ok (s ! 1 \<in> {CHR ''x'', CHR ''X''}) CHR ''0'' (drop 2 s)
         else underscores_ok False CHR ''^'' s)"

definition ParseUint32 :: "string \<Rightarrow> u32 option" where
  "ParseUint32 s =
     (if s = [] then None
      else case base_of s of
             (b, ds) \<Rightarrow>
               (case parse_base b 0 ds of
                  None \<Rightarrow> None
                | Some n \<Rightarrow> if CHR ''_'' \<in> set ds \<and> \<not> underscoreOK s then None else Some (word_of_nat n)))"

text \<open>A rule as \<^verbatim>\<open>ip -N -j rule show\<close> prints it: the fields as texts, the mark and the mask only when they are there.\<close>

record policy_rule =
  pr_priority :: string
  pr_table :: string
  pr_fwmark :: "string option"
  pr_fwmask :: "string option"

datatype policy_conflict = InspectRules | InspectTable | TableOccupied | RuleOccupied | MarkUnreadable | MaskUnreadable | MarkOverlaps

definition mesh_mark :: u32 where
  "mesh_mark = (case ParseUint32 meshRouteMark of Some m \<Rightarrow> m | None \<Rightarrow> 0)"

definition rule_conflict :: "policy_rule \<Rightarrow> policy_conflict option" where
  "rule_conflict r =
     (if pr_priority r = meshRulePriority \<or> pr_table r = meshRouteTable then Some RuleOccupied
      else case pr_fwmark r of
             None \<Rightarrow> None
           | Some value \<Rightarrow>
               let parts = split_on CHR ''/'' value
               in case ParseUint32 (hd parts) of
                    None \<Rightarrow> Some MarkUnreadable
                  | Some other \<Rightarrow>
                      (case (if length parts = 2 then ParseUint32 (parts ! 1)
                             else case pr_fwmask r of Some m \<Rightarrow> ParseUint32 m | None \<Rightarrow> Some 0xFFFFFFFF) of
                         None \<Rightarrow> Some MaskUnreadable
                       | Some msk \<Rightarrow> if mesh_mark AND msk = other AND msk then Some MarkOverlaps else None))"

text \<open>The two outputs, decoded: none when they are not JSON; of the routes only their number counts.\<close>

definition publicPolicyConflicts :: "policy_rule list option \<Rightarrow> nat option \<Rightarrow> policy_conflict option" where
  "publicPolicyConflicts rules routes =
     (case rules of
        None \<Rightarrow> Some InspectRules
      | Some rules \<Rightarrow>
          (case routes of
             None \<Rightarrow> Some InspectTable
           | Some n \<Rightarrow> if n \<noteq> 0 then Some TableOccupied else first_error rule_conflict rules))"

datatype 'a ip_output = IpOutput 'a | IpFailed "string option"

definition has_substring :: "string \<Rightarrow> string \<Rightarrow> bool" where
  "has_substring s p \<longleftrightarrow> p = [] \<or> find_first p s \<noteq> None"

definition requireFreshPublicPolicy :: "policy_rule list option ip_output \<Rightarrow> nat option ip_output \<Rightarrow> policy_conflict option" where
  "requireFreshPublicPolicy rules routes =
     (case rules of
        IpFailed _ \<Rightarrow> Some InspectRules
      | IpOutput rules \<Rightarrow>
          (case routes of
             IpOutput n \<Rightarrow> publicPolicyConflicts rules n
           | IpFailed None \<Rightarrow> Some InspectTable
           | IpFailed (Some stderr) \<Rightarrow>
               if \<not> has_substring stderr ''FIB table does not exist'' then Some InspectTable else publicPolicyConflicts rules (Some 0)))"

definition requireFreshInterface :: "string \<Rightarrow> string list \<Rightarrow> bool" where
  "requireFreshInterface name interfaces \<longleftrightarrow> name \<noteq> [] \<and> name \<notin> set interfaces"

section \<open>Reconciling the kernel\<close>

definition desired_routes :: "routing_config \<Rightarrow> (string \<times> string) list" where
  "desired_routes cfg =
     (let m = (if LocalPublic cfg then fold (\<lambda>r m. AList.update (route_CIDR r) meshRouteTable m) (Routes cfg) [] else [])
      in if LocalSiteRouter cfg \<and> OverlaySubnet cfg \<noteq> [] then AList.update (OverlaySubnet cfg) [] m else m)"

fun add_routes :: "shell \<Rightarrow> (string \<rightharpoonup> string) \<Rightarrow> string list \<Rightarrow> kernel \<Rightarrow> log \<Rightarrow> kernel_error option \<times> kernel \<times> log" where
  "add_routes sh desired [] k lg = (None, k, lg)"
| "add_routes sh desired (cidr # cidrs) k lg =
     (if cidr \<in> fst ` set (k_routes k) then add_routes sh desired cidrs k lg
      else let table = the (desired cidr); args = kernelRouteArgs ''add'' cidr (k_interfaceID k) table
           in case runCommand sh args lg of
                (False, lg) \<Rightarrow> (Some (CommandFailed args), k, lg)
              | (True, lg) \<Rightarrow> add_routes sh desired cidrs (k\<lparr>k_routes := AList.update cidr table (k_routes k)\<rparr>) lg)"

fun del_routes :: "shell \<Rightarrow> (string \<rightharpoonup> string) \<Rightarrow> string list \<Rightarrow> kernel \<Rightarrow> log \<Rightarrow> kernel_error option \<times> kernel \<times> log" where
  "del_routes sh desired [] k lg = (None, k, lg)"
| "del_routes sh desired (cidr # cidrs) k lg =
     (if desired cidr \<noteq> None then del_routes sh desired cidrs k lg
      else let args = kernelRouteArgs ''del'' cidr (k_interfaceID k) (case map_of (k_routes k) cidr of Some t \<Rightarrow> t | None \<Rightarrow> [])
           in case runCommand sh args lg of
                (False, lg) \<Rightarrow> (Some (CommandFailed args), k, lg)
              | (True, lg) \<Rightarrow> del_routes sh desired cidrs (k\<lparr>k_routes := AList.delete cidr (k_routes k)\<rparr>) lg)"

text \<open>The packet filter: rules are looked for, added when they are not there, and deleted without regard to the outcome.\<close>

definition nat_args :: "string list \<Rightarrow> string \<Rightarrow> string \<Rightarrow> string list \<Rightarrow> string \<Rightarrow> string \<Rightarrow> args" where
  "nat_args verb source cidr out comment target =
     [''iptables'', ''-t'', ''nat''] @ verb @ [''-s'', source, ''-d'', cidr] @ out @ [''-m'', ''comment'', ''--comment'', comment, ''-j'', target]"

definition nonat_args :: "string \<Rightarrow> string list \<Rightarrow> string \<Rightarrow> string \<Rightarrow> args" where
  "nonat_args dev verb overlay cidr =
     nat_args verb overlay cidr [''-o'', dev] (''bpc-routed-nonat:'' @ dev @ '':'' @ cidr) ''ACCEPT''"

definition sitenat_args :: "string \<Rightarrow> string list \<Rightarrow> string \<Rightarrow> string \<Rightarrow> args" where
  "sitenat_args dev verb overlay cidr =
     nat_args verb overlay cidr [] (''bpc-routed-site-nat:'' @ dev @ '':'' @ cidr) ''MASQUERADE''"

definition forward_in_args :: "string \<Rightarrow> string list \<Rightarrow> string \<Rightarrow> args" where
  "forward_in_args dev verb cidr =
     [''iptables''] @ verb @ [''-i'', dev, ''-d'', cidr, ''-m'', ''comment'', ''--comment'', ''bpc-routed-forward-in:'' @ dev @ '':'' @ cidr, ''-j'', ''ACCEPT'']"

definition forward_out_args :: "string \<Rightarrow> string list \<Rightarrow> string \<Rightarrow> string \<Rightarrow> args" where
  "forward_out_args dev verb overlay cidr =
     [''iptables''] @ verb @ [''-o'', dev, ''-s'', cidr, ''-d'', overlay, ''-m'', ''conntrack'', ''--ctstate'', ''ESTABLISHED,RELATED'',
       ''-m'', ''comment'', ''--comment'', ''bpc-routed-forward-out:'' @ dev @ '':'' @ cidr, ''-j'', ''ACCEPT'']"

definition ensure_rule :: "shell \<Rightarrow> args \<Rightarrow> args \<Rightarrow> log \<Rightarrow> kernel_error option \<times> log" where
  "ensure_rule sh check add lg =
     (case runCommand sh check lg of
        (True, lg) \<Rightarrow> (None, lg)
      | (False, lg) \<Rightarrow> (case runCommand sh add lg of (True, lg) \<Rightarrow> (None, lg) | (False, lg) \<Rightarrow> (Some (CommandFailed add), lg)))"

fun ensure_nonat :: "shell \<Rightarrow> string \<Rightarrow> string \<Rightarrow> string list \<Rightarrow> string list \<Rightarrow> log \<Rightarrow> kernel_error option \<times> log" where
  "ensure_nonat sh dev overlay have_rules [] lg = (None, lg)"
| "ensure_nonat sh dev overlay have_rules (cidr # cidrs) lg =
     (if cidr \<in> set have_rules then ensure_nonat sh dev overlay have_rules cidrs lg
      else case ensure_rule sh (nonat_args dev [''-C'', ''POSTROUTING''] overlay cidr) (nonat_args dev [''-I'', ''POSTROUTING'', ''1''] overlay cidr) lg of
             (Some e, lg) \<Rightarrow> (Some e, lg)
           | (None, lg) \<Rightarrow> ensure_nonat sh dev overlay have_rules cidrs lg)"

definition ensure_site_one :: "shell \<Rightarrow> kernel \<Rightarrow> string \<Rightarrow> string \<Rightarrow> log \<Rightarrow> kernel_error option \<times> log" where
  "ensure_site_one sh k overlay cidr lg =
     (let dev = k_interfaceID k
      in case (if cidr \<in> set (k_siteNAT k) then (None, lg)
               else ensure_rule sh (sitenat_args dev [''-C'', ''POSTROUTING''] overlay cidr) (sitenat_args dev [''-A'', ''POSTROUTING''] overlay cidr) lg) of
           (Some e, lg) \<Rightarrow> (Some e, lg)
         | (None, lg) \<Rightarrow>
             if cidr \<in> set (k_forward k) then (None, lg)
             else case ensure_rule sh (forward_in_args dev [''-C'', ''FORWARD''] cidr) (forward_in_args dev [''-I'', ''FORWARD'', ''1''] cidr) lg of
                    (Some e, lg) \<Rightarrow> (Some e, lg)
                  | (None, lg) \<Rightarrow>
                      ensure_rule sh (forward_out_args dev [''-C'', ''FORWARD''] overlay cidr) (forward_out_args dev [''-I'', ''FORWARD'', ''1''] overlay cidr) lg)"

fun ensure_site :: "shell \<Rightarrow> kernel \<Rightarrow> string \<Rightarrow> string list \<Rightarrow> log \<Rightarrow> kernel_error option \<times> log" where
  "ensure_site sh k overlay [] lg = (None, lg)"
| "ensure_site sh k overlay (cidr # cidrs) lg =
     (case ensure_site_one sh k overlay cidr lg of (Some e, lg) \<Rightarrow> (Some e, lg) | (None, lg) \<Rightarrow> ensure_site sh k overlay cidrs lg)"

definition delete_rules :: "shell \<Rightarrow> (string \<Rightarrow> args list) \<Rightarrow> string list \<Rightarrow> string list \<Rightarrow> log \<Rightarrow> log" where
  "delete_rules sh cmds desired cidrs lg =
     fold (\<lambda>args lg. snd (runCommand sh args lg)) (concat (map (\<lambda>cidr. if cidr \<in> set desired then [] else cmds cidr) cidrs)) lg"

definition reconcile_routes :: "shell \<Rightarrow> order \<Rightarrow> bool \<Rightarrow> routing_config \<Rightarrow> kernel \<Rightarrow> log \<Rightarrow> kernel_error option \<times> kernel \<times> log" where
  "reconcile_routes sh ord fresh cfg k lg =
     (let desired = map_of (desired_routes cfg)
      in if LocalPublic cfg \<and> \<not> k_policyDefault k \<and> \<not> fresh then (Some NotFresh, k, lg)
         else case (if LocalPublic cfg then enablePublicPolicy sh k lg else (None, k, lg)) of
                (Some e, k, lg) \<Rightarrow> (Some e, k, lg)
              | (None, k, lg) \<Rightarrow>
                  (case add_routes sh desired (ord 0 (map fst (desired_routes cfg))) k lg of
                     (Some e, k, lg) \<Rightarrow> (Some e, k, lg)
                   | (None, k, lg) \<Rightarrow>
                       (case del_routes sh desired (ord 1 (map fst (k_routes k))) k lg of
                          (Some e, k, lg) \<Rightarrow> (Some e, k, lg)
                        | (None, k, lg) \<Rightarrow> if LocalPublic cfg then (None, k, lg) else disablePublicPolicy sh k lg)))"

definition desired_nonat :: "routing_config \<Rightarrow> string list" where
  "desired_nonat cfg = (if LocalPublic cfg \<and> OverlaySubnet cfg \<noteq> [] then remdups (map route_CIDR (Routes cfg)) else [])"

definition desired_site :: "string \<Rightarrow> routing_config \<Rightarrow> string list" where
  "desired_site nodeID cfg =
     (if LocalSiteRouter cfg \<and> OverlaySubnet cfg \<noteq> []
      then remdups (map route_CIDR (filter (\<lambda>r. route_OwnerNodeID r = nodeID) (Routes cfg))) else [])"

definition reconcile_filters :: "shell \<Rightarrow> order \<Rightarrow> string \<Rightarrow> routing_config \<Rightarrow> kernel \<Rightarrow> log \<Rightarrow> kernel_error option \<times> kernel \<times> log" where
  "reconcile_filters sh ord previousOverlay cfg k lg =
     (let dev = k_interfaceID k; overlay = OverlaySubnet cfg; nonat = desired_nonat cfg; site = desired_site (k_localNodeID k) cfg
      in case ensure_nonat sh dev overlay (k_natNoSNAT k) (ord 2 nonat) lg of
           (Some e, lg) \<Rightarrow> (Some e, k, lg)
         | (None, lg) \<Rightarrow>
             let lg = delete_rules sh (\<lambda>cidr. [nonat_args dev [''-D'', ''POSTROUTING''] previousOverlay cidr]) nonat (ord 3 (k_natNoSNAT k)) lg;
                 k = k\<lparr>k_natNoSNAT := nonat\<rparr>
             in case ensure_site sh k overlay (ord 4 site) lg of
                  (Some e, lg) \<Rightarrow> (Some e, k, lg)
                | (None, lg) \<Rightarrow>
                    let lg = delete_rules sh (\<lambda>cidr. [sitenat_args dev [''-D'', ''POSTROUTING''] previousOverlay cidr]) site (ord 5 (k_siteNAT k)) lg;
                        lg = delete_rules sh (\<lambda>cidr. [forward_in_args dev [''-D'', ''FORWARD''] cidr, forward_out_args dev [''-D'', ''FORWARD''] previousOverlay cidr])
                               site (ord 6 (k_forward k)) lg
                    in (None, k\<lparr>k_siteNAT := site, k_forward := site, k_overlaySubnet := overlay\<rparr>, lg))"

definition kernel_reconcile :: "shell \<Rightarrow> order \<Rightarrow> bool \<Rightarrow> routing_config \<Rightarrow> kernel \<Rightarrow> log \<Rightarrow> kernel_error option \<times> kernel \<times> log" where
  "kernel_reconcile sh ord fresh cfg k lg =
     (let previousOverlay = (if k_overlaySubnet k = [] then OverlaySubnet cfg else k_overlaySubnet k)
      in case reconcile_routes sh ord fresh cfg k lg of
           (Some e, k, lg) \<Rightarrow> (Some e, k, lg)
         | (None, k, lg) \<Rightarrow> reconcile_filters sh ord previousOverlay cfg k lg)"

definition empty_config :: "string \<Rightarrow> routing_config" where
  "empty_config overlay = \<lparr>PolicyExpiresAt = 0, Version = 0, ListenPort = 0, OverlaySubnet = overlay, LocalPublic = False, LocalSiteRouter = False,
     NodeNames = [], Links = [], Paths = [], TransitPaths = [], Routes = []\<rparr>"

definition kernel_cleanup :: "shell \<Rightarrow> order \<Rightarrow> kernel \<Rightarrow> log \<Rightarrow> kernel \<times> log" where
  "kernel_cleanup sh ord k lg = snd (kernel_reconcile sh ord True (empty_config (k_overlaySubnet k)) k lg)"

definition new_kernel :: "string \<Rightarrow> string \<Rightarrow> kernel" where
  "new_kernel nodeID interface = \<lparr>k_localNodeID = nodeID, k_interfaceID = interface, k_overlaySubnet = [], k_routes = [], k_policyDefault = False,
     k_policyRule = False, k_natNoSNAT = [], k_siteNAT = [], k_forward = []\<rparr>"

section \<open>The daemon\<close>

text \<open>Packets from the interface: a size out of range is skipped. Packets to it have room before them for the driver's header.\<close>

definition tun_packets :: "(int \<times> byte list) list \<Rightarrow> byte list list" where
  "tun_packets batch = concat (map (\<lambda>(size', buf). if size' \<le> 0 \<or> int (length buf) < size' then [] else [take (nat size') buf]) batch)"

definition WritePacket :: "byte list \<Rightarrow> byte list \<times> nat" where
  "WritePacket packet = (replicate 16 0 @ packet, 16)"

end
