(* ===== verification/RoutedKernelProps.thy ===== *)
theory RoutedKernelProps
  imports RoutedKernel
begin

text \<open>What the routed Node's daemon owns of the kernel: the commands it ran, read back as the routes and rules they installed, are at all times
  exactly what its state records, no command takes or removes anything of somebody else's, and a successful run ends where the configuration says.\<close>

section \<open>The effect of the commands\<close>

definition ip_object :: "args \<Rightarrow> (string \<times> string \<times> args) option" where
  "ip_object args = (if 3 \<le> length args \<and> args ! 0 = ''ip'' then Some (args ! 2, args ! 1, drop 3 args) else None)"

definition cmd_effect :: "(string \<times> args) set \<Rightarrow> args \<times> bool \<Rightarrow> (string \<times> args) set" where
  "cmd_effect S e =
     (case ip_object (fst e) of
        None \<Rightarrow> S
      | Some (verb, kind, spec) \<Rightarrow>
          if \<not> snd e then S
          else if verb = ''add'' then insert (kind, spec) S
          else if verb = ''del'' then S - {(kind, spec)} else S)"

definition installed :: "log \<Rightarrow> (string \<times> args) set" where
  "installed lg = foldl cmd_effect {} lg"

definition route_object :: "string \<Rightarrow> string \<times> string \<Rightarrow> string \<times> args" where
  "route_object dev ct = (''route'', drop 3 (kernelRouteArgs ''add'' (fst ct) dev (snd ct)))"

definition default_object :: "string \<times> args" where
  "default_object = (''route'', drop 3 (default_args ''add''))"

definition rule_object :: "string \<times> args" where
  "rule_object = (''rule'', drop 3 (rule_args ''add''))"

definition owned :: "kernel \<Rightarrow> (string \<times> args) set" where
  "owned k = route_object (k_interfaceID k) ` set (k_routes k) \<union> (if k_policyDefault k then {default_object} else {})
     \<union> (if k_policyRule k then {rule_object} else {})"

definition exclusive_cmd :: "(string \<times> args) set \<Rightarrow> args \<Rightarrow> bool" where
  "exclusive_cmd S args \<longleftrightarrow>
     (case ip_object args of
        None \<Rightarrow> True
      | Some (verb, kind, spec) \<Rightarrow> (verb = ''add'' \<and> (kind, spec) \<notin> S) \<or> (verb = ''del'' \<and> (kind, spec) \<in> S))"

definition guarded :: "(string \<times> args) set \<Rightarrow> bool" where
  "guarded S \<longleftrightarrow> rule_object \<in> S \<longrightarrow> default_object \<in> S"

lemma installed_Nil [simp]: "installed [] = {}"
  by (simp add: installed_def)

lemma installed_snoc [simp]: "installed (lg @ [e]) = cmd_effect (installed lg) e"
  by (simp add: installed_def)

lemmas object_defs = route_object_def default_object_def rule_object_def kernelRouteArgs_def default_args_def rule_args_def

lemma route_object_inj [simp]: "route_object dev ct = route_object dev ct' \<longleftrightarrow> ct = ct'"
  by (cases ct; cases ct') (auto simp: object_defs split: if_splits)

lemma objects_distinct [simp]:
  "route_object dev ct \<noteq> default_object" "route_object dev ct \<noteq> rule_object" "default_object \<noteq> rule_object"
  "default_object \<noteq> route_object dev ct" "rule_object \<noteq> route_object dev ct" "rule_object \<noteq> default_object"
  by (auto simp: object_defs)

lemma ip_object_route [simp]: "ip_object (kernelRouteArgs verb c dev t) = Some (verb, route_object dev (c, t))"
  by (simp add: ip_object_def object_defs)

lemma ip_object_default [simp]: "ip_object (default_args verb) = Some (verb, default_object)"
  by (simp add: ip_object_def object_defs)

lemma ip_object_rule [simp]: "ip_object (rule_args verb) = Some (verb, rule_object)"
  by (simp add: ip_object_def object_defs)

lemma ip_object_iptables [simp]:
  "ip_object (nonat_args dev verb ov c) = None" "ip_object (sitenat_args dev verb ov c) = None"
  "ip_object (forward_in_args dev verb c) = None" "ip_object (forward_out_args dev verb ov c) = None"
  by (simp_all add: ip_object_def nonat_args_def sitenat_args_def nat_args_def forward_in_args_def forward_out_args_def)

section \<open>One command at a time\<close>

text \<open>The state with the commands run so far, and how one command may change both.\<close>

inductive kstep :: "kernel \<times> log \<Rightarrow> kernel \<times> log \<Rightarrow> bool" where
  add_default: "\<not> k_policyDefault k \<Longrightarrow>
    kstep (k, lg) (if ok then k\<lparr>k_policyDefault := True\<rparr> else k, lg @ [(default_args ''add'', ok)])"
| add_rule: "k_policyDefault k \<Longrightarrow> \<not> k_policyRule k \<Longrightarrow>
    kstep (k, lg) (if ok then k\<lparr>k_policyRule := True\<rparr> else k, lg @ [(rule_args ''add'', ok)])"
| del_rule: "k_policyRule k \<Longrightarrow>
    kstep (k, lg) (if ok then k\<lparr>k_policyRule := False\<rparr> else k, lg @ [(rule_args ''del'', ok)])"
| del_default: "k_policyDefault k \<Longrightarrow> \<not> k_policyRule k \<Longrightarrow>
    kstep (k, lg) (if ok then k\<lparr>k_policyDefault := False\<rparr> else k, lg @ [(default_args ''del'', ok)])"
| add_route: "c \<notin> fst ` set (k_routes k) \<Longrightarrow>
    kstep (k, lg) (if ok then k\<lparr>k_routes := AList.update c t (k_routes k)\<rparr> else k, lg @ [(kernelRouteArgs ''add'' c (k_interfaceID k) t, ok)])"
| del_route: "(c, t) \<in> set (k_routes k) \<Longrightarrow>
    kstep (k, lg) (if ok then k\<lparr>k_routes := AList.delete c (k_routes k)\<rparr> else k, lg @ [(kernelRouteArgs ''del'' c (k_interfaceID k) t, ok)])"
| filter_command: "ip_object args = None \<Longrightarrow> kstep (k, lg) (k, lg @ [(args, ok)])"
| note_filters: "kstep (k, lg) (k\<lparr>k_natNoSNAT := ns, k_siteNAT := ss, k_forward := fs, k_overlaySubnet := ov\<rparr>, lg)"

definition kernel_ok :: "kernel \<times> log \<Rightarrow> bool" where
  "kernel_ok s \<longleftrightarrow> (case s of (k, lg) \<Rightarrow>
     distinct (map fst (k_routes k)) \<and> (k_policyRule k \<longrightarrow> k_policyDefault k) \<and> installed lg = owned k
     \<and> (\<forall>i < length lg. exclusive_cmd (installed (take i lg)) (fst (lg ! i)) \<and> guarded (installed (take i lg))))"

lemma alist_update_fresh: "c \<notin> fst ` set m \<Longrightarrow> set (AList.update c t m) = insert (c, t) (set m)"
  by (induction m) auto

lemma alist_delete_set: "set (AList.delete c m) = {p \<in> set m. fst p \<noteq> c}"
  by (auto simp: AList.delete_eq)

lemma owned_default: "owned (k\<lparr>k_policyDefault := b\<rparr>) = (if b then insert default_object (owned k) else owned k - {default_object})"
  by (auto simp: owned_def)

lemma owned_rule: "owned (k\<lparr>k_policyRule := b\<rparr>) = (if b then insert rule_object (owned k) else owned k - {rule_object})"
  by (auto simp: owned_def)

lemma owned_add:
  "c \<notin> fst ` set (k_routes k) \<Longrightarrow> owned (k\<lparr>k_routes := AList.update c t (k_routes k)\<rparr>) = insert (route_object (k_interfaceID k) (c, t)) (owned k)"
  by (auto simp: owned_def alist_update_fresh)

lemma owned_del:
  assumes "distinct (map fst (k_routes k))" "(c, t) \<in> set (k_routes k)"
  shows "owned (k\<lparr>k_routes := AList.delete c (k_routes k)\<rparr>) = owned k - {route_object (k_interfaceID k) (c, t)}"
proof -
  have only: "p = (c, t) \<longleftrightarrow> fst p = c" if "p \<in> set (k_routes k)" for p
    using eq_key_imp_eq_value [OF assms(1), of c t "snd p"] assms(2) that by (cases p) auto
  have "set (AList.delete c (k_routes k)) = {p \<in> set (k_routes k). p \<noteq> (c, t)}"
    unfolding alist_delete_set by (rule Collect_cong) (use only in blast)
  then have "set (AList.delete c (k_routes k)) = set (k_routes k) - {(c, t)}" by (simp add: set_diff_eq)
  moreover have "inj (route_object (k_interfaceID k))" by (rule injI) simp
  ultimately show ?thesis by (simp add: owned_def image_set_diff Un_Diff)
qed

lemma owned_filters [simp]: "owned (k\<lparr>k_natNoSNAT := ns, k_siteNAT := ss, k_forward := fs, k_overlaySubnet := ov\<rparr>) = owned k"
  by (simp add: owned_def)

lemma owned_member [simp]:
  "default_object \<in> owned k \<longleftrightarrow> k_policyDefault k" "rule_object \<in> owned k \<longleftrightarrow> k_policyRule k"
  "route_object (k_interfaceID k) ct \<in> owned k \<longleftrightarrow> ct \<in> set (k_routes k)"
  by (auto simp: owned_def)

lemma kernel_ok_snoc:
  assumes "kernel_ok (k, lg)" "distinct (map fst (k_routes k'))" "k_policyRule k' \<longrightarrow> k_policyDefault k'"
    and "exclusive_cmd (owned k) args" "cmd_effect (owned k) (args, ok) = owned k'"
  shows "kernel_ok (k', lg @ [(args, ok)])"
proof -
  have "guarded (owned k)" using assms(1) by (auto simp: kernel_ok_def guarded_def)
  then show ?thesis using assms by (auto simp: kernel_ok_def nth_append less_Suc_eq)
qed

lemma kstep_ok: "kstep s s' \<Longrightarrow> kernel_ok s \<Longrightarrow> kernel_ok s'"
proof (induction rule: kstep.induct)
  case (note_filters k lg ns ss fs ov)
  then show ?case by (simp add: kernel_ok_def)
next
  case (filter_command args k lg ok)
  then show ?case by (intro kernel_ok_snoc) (auto simp: kernel_ok_def exclusive_cmd_def cmd_effect_def)
next
  case (add_route c k lg ok t)
  then have "(c, t) \<notin> set (k_routes k)" by force
  with add_route show ?case
    by (intro kernel_ok_snoc) (auto simp: kernel_ok_def exclusive_cmd_def cmd_effect_def owned_add distinct_update)
next
  case (del_route c t k lg ok)
  then show ?case
    by (intro kernel_ok_snoc) (auto simp: kernel_ok_def exclusive_cmd_def cmd_effect_def owned_del distinct_delete)
qed (intro kernel_ok_snoc; auto simp: kernel_ok_def exclusive_cmd_def cmd_effect_def owned_default owned_rule)+

abbreviation ksteps :: "kernel \<times> log \<Rightarrow> kernel \<times> log \<Rightarrow> bool" where
  "ksteps \<equiv> kstep\<^sup>*\<^sup>*"

lemma ksteps_ok: "ksteps s s' \<Longrightarrow> kernel_ok s \<Longrightarrow> kernel_ok s'"
  by (induction rule: rtranclp_induct) (auto intro: kstep_ok)

section \<open>Every operation is a sequence of such commands\<close>

lemma run_split: "runCommand sh args lg = (sh (length lg) args, lg @ [(args, sh (length lg) args)])"
  by (simp add: runCommand_def Let_def)

lemma step_then: "kstep s s1 \<Longrightarrow> ksteps s1 s2 \<Longrightarrow> ksteps s s2"
  by (rule converse_rtranclp_into_rtranclp)

lemma same_flag: "k_policyDefault k = b \<Longrightarrow> k\<lparr>k_policyDefault := b\<rparr> = k" "k_policyRule k = b \<Longrightarrow> k\<lparr>k_policyRule := b\<rparr> = k"
  by (cases k; simp)+

lemma ensure_default:
  assumes "(if k_policyDefault k then (True, lg) else runCommand sh (default_args ''add'') lg) = (ok, lg')"
  shows "ksteps (k, lg) (if ok then k\<lparr>k_policyDefault := True\<rparr> else k, lg')"
  using assms add_default [of k lg ok] by (auto simp: run_split same_flag split: if_splits)

lemma ensure_rule_flag:
  assumes "(if k_policyRule k then (True, lg) else runCommand sh (rule_args ''add'') lg) = (ok, lg')" "k_policyDefault k"
  shows "ksteps (k, lg) (if ok then k\<lparr>k_policyRule := True\<rparr> else k, lg')"
  using assms add_rule [of k lg ok] by (auto simp: run_split same_flag split: if_splits)

lemma withdraw_rule:
  assumes "(if k_policyRule k then runCommand sh (rule_args ''del'') lg else (True, lg)) = (ok, lg')"
  shows "ksteps (k, lg) (if ok then k\<lparr>k_policyRule := False\<rparr> else k, lg')"
  using assms del_rule [of k lg ok] by (auto simp: run_split same_flag split: if_splits)

lemma withdraw_default:
  assumes "(if k_policyDefault k then runCommand sh (default_args ''del'') lg else (True, lg)) = (ok, lg')" "\<not> k_policyRule k"
  shows "ksteps (k, lg) (if ok then k\<lparr>k_policyDefault := False\<rparr> else k, lg')"
  using assms del_default [of k lg ok] by (auto simp: run_split same_flag split: if_splits)

lemma enable_steps: "enablePublicPolicy sh k lg = (e, k', lg') \<Longrightarrow> ksteps (k, lg) (k', lg')"
proof -
  assume run: "enablePublicPolicy sh k lg = (e, k', lg')"
  obtain ok lg1 where a: "(if k_policyDefault k then (True, lg) else runCommand sh (default_args ''add'') lg) = (ok, lg1)" by (rule prod.exhaust)
  let ?k = "k\<lparr>k_policyDefault := True\<rparr>"
  obtain ok2 lg2 where b: "(if k_policyRule ?k then (True, lg1) else runCommand sh (rule_args ''add'') lg1) = (ok2, lg2)" by (rule prod.exhaust)
  have b': "ksteps (?k, lg1) (if ok2 then ?k\<lparr>k_policyRule := True\<rparr> else ?k, lg2)" by (rule ensure_rule_flag [OF b]) simp
  show ?thesis
    using run rtranclp_trans [OF ensure_default [OF a]] b' ensure_default [OF a]
    by (cases ok; cases ok2) (simp_all add: enablePublicPolicy_def a b [simplified] Let_def)
qed

lemma disable_steps: "disablePublicPolicy sh k lg = (e, k', lg') \<Longrightarrow> ksteps (k, lg) (k', lg')"
proof -
  assume run: "disablePublicPolicy sh k lg = (e, k', lg')"
  obtain ok lg1 where a: "(if k_policyRule k then runCommand sh (rule_args ''del'') lg else (True, lg)) = (ok, lg1)" by (rule prod.exhaust)
  let ?k = "k\<lparr>k_policyRule := False\<rparr>"
  obtain ok2 lg2 where b: "(if k_policyDefault ?k then runCommand sh (default_args ''del'') lg1 else (True, lg1)) = (ok2, lg2)" by (rule prod.exhaust)
  have b': "ksteps (?k, lg1) (if ok2 then ?k\<lparr>k_policyDefault := False\<rparr> else ?k, lg2)" by (rule withdraw_default [OF b]) simp
  show ?thesis
    using run rtranclp_trans [OF withdraw_rule [OF a]] b' withdraw_rule [OF a]
    by (cases ok; cases ok2) (simp_all add: disablePublicPolicy_def a b [simplified] Let_def)
qed

lemma add_routes_steps: "add_routes sh desired cs k lg = (e, k', lg') \<Longrightarrow> ksteps (k, lg) (k', lg')"
proof (induction sh desired cs k lg rule: add_routes.induct)
  case (2 sh desired c cs k lg)
  then show ?case
    using add_route [of c k lg True "the (desired c)"] add_route [of c k lg False "the (desired c)"]
    by (auto simp: run_split Let_def split: if_splits bool.splits intro: step_then)
qed simp

lemma del_routes_steps:
  "del_routes sh desired cs k lg = (e, k', lg') \<Longrightarrow> distinct cs \<Longrightarrow> set cs \<subseteq> fst ` set (k_routes k) \<Longrightarrow>
   ksteps (k, lg) (k', lg')"
proof (induction sh desired cs k lg rule: del_routes.induct)
  case (2 sh desired c cs k lg)
  obtain t where t: "map_of (k_routes k) c = Some t" using 2(5) by (cases "map_of (k_routes k) c") (auto simp: map_of_eq_None_iff)
  then have mem: "(c, t) \<in> set (k_routes k)" by (rule map_of_SomeD)
  have rest: "set cs \<subseteq> fst ` set (AList.delete c (k_routes k))" using 2(4,5) by (force simp: alist_delete_set)
  show ?case
    using 2 t rest del_route [OF mem, of lg True] del_route [OF mem, of lg False]
    by (auto simp: run_split Let_def split: if_splits bool.splits intro: step_then)
qed simp

lemma filter_steps: "ip_object args = None \<Longrightarrow> ksteps (k, lg) (k, lg @ [(args, ok)])"
  by (auto intro: filter_command)

lemma ensure_rule_steps:
  "ensure_rule sh check add lg = (e, lg') \<Longrightarrow> ip_object check = None \<Longrightarrow> ip_object add = None \<Longrightarrow> ksteps (k, lg) (k, lg')"
  using filter_steps [of check k lg True] filter_steps [of check k lg False] filter_steps [of add k "lg @ [(check, False)]"]
  by (auto simp: ensure_rule_def run_split split: bool.splits intro: rtranclp_trans)

lemma ensure_nonat_steps: "ensure_nonat sh dev ov have_rules cs lg = (e, lg') \<Longrightarrow> ksteps (k, lg) (k, lg')"
proof (induction sh dev ov have_rules cs lg rule: ensure_nonat.induct)
  case (2 sh dev ov have_rules c cs lg)
  then show ?case
    by (auto split: if_splits prod.splits option.splits intro: ensure_rule_steps rtranclp_trans [OF ensure_rule_steps])
qed simp

lemma ensure_site_one_steps: "ensure_site_one sh k0 ov c lg = (e, lg') \<Longrightarrow> ksteps (k, lg) (k, lg')"
  unfolding ensure_site_one_def Let_def
  by (auto split: if_splits prod.splits option.splits dest!: ensure_rule_steps [where k = k] intro: rtranclp_trans)

lemma ensure_site_steps: "ensure_site sh k0 ov cs lg = (e, lg') \<Longrightarrow> ksteps (k, lg) (k, lg')"
proof (induction sh k0 ov cs lg rule: ensure_site.induct)
  case (2 sh k0 ov c cs lg)
  then show ?case
    by (auto split: prod.splits option.splits intro: ensure_site_one_steps rtranclp_trans [OF ensure_site_one_steps])
qed simp

lemma run_all_steps:
  "\<forall>args \<in> set cmds. ip_object args = None \<Longrightarrow> ksteps (k, lg) (k, fold (\<lambda>args lg. snd (runCommand sh args lg)) cmds lg)"
  by (induction cmds arbitrary: lg) (auto simp: run_split intro: rtranclp_trans [OF filter_steps])

lemma delete_rules_steps:
  "(\<And>c args. args \<in> set (cmds c) \<Longrightarrow> ip_object args = None) \<Longrightarrow> ksteps (k, lg) (k, delete_rules sh cmds desired cs lg)"
  unfolding delete_rules_def by (rule run_all_steps) (auto split: if_splits)

definition permutes :: "order \<Rightarrow> bool" where
  "permutes ord \<longleftrightarrow> (\<forall>n xs. set (ord n xs) = set xs \<and> (distinct xs \<longrightarrow> distinct (ord n xs)))"

lemma reconcile_routes_steps:
  assumes run: "reconcile_routes sh ord fresh cfg k lg = (e, k', lg')" and ord: "permutes ord" and ok: "kernel_ok (k, lg)"
  shows "ksteps (k, lg) (k', lg')"
proof (cases "LocalPublic cfg \<and> \<not> k_policyDefault k \<and> \<not> fresh")
  case True
  with run show ?thesis by (auto simp: reconcile_routes_def Let_def)
next
  case False
  let ?D = "map_of (desired_routes cfg)"
  obtain e1 k1 lg1 where a: "(if LocalPublic cfg then enablePublicPolicy sh k lg else (None, k, lg)) = (e1, k1, lg1)" by (rule prod_cases3)
  obtain e2 k2 lg2 where b: "add_routes sh ?D (ord 0 (map fst (desired_routes cfg))) k1 lg1 = (e2, k2, lg2)" by (rule prod_cases3)
  obtain e3 k3 lg3 where c: "del_routes sh ?D (ord (Suc 0) (map fst (k_routes k2))) k2 lg2 = (e3, k3, lg3)" by (rule prod_cases3)
  have s1: "ksteps (k, lg) (k1, lg1)" using a by (auto split: if_splits intro: enable_steps)
  have s2: "ksteps (k, lg) (k2, lg2)" using s1 add_routes_steps [OF b] by (rule rtranclp_trans)
  have "distinct (map fst (k_routes k2))" using ksteps_ok [OF s2 ok] by (simp add: kernel_ok_def)
  then have "ksteps (k2, lg2) (k3, lg3)" using ord by (intro del_routes_steps [OF c]) (auto simp: permutes_def)
  with s2 have s3: "ksteps (k, lg) (k3, lg3)" by (rule rtranclp_trans)
  show ?thesis
    using run False s1 s2 s3
    by (auto simp: reconcile_routes_def Let_def a b c split: option.splits if_splits intro: rtranclp_trans [OF s3] disable_steps)
qed

lemma note_nonat: "ksteps (k, lg) (k\<lparr>k_natNoSNAT := ns\<rparr>, lg)"
  using note_filters [where k = k and lg = lg and ns = ns and ss = "k_siteNAT k" and fs = "k_forward k" and ov = "k_overlaySubnet k"] by auto

lemma note_site: "ksteps (k, lg) (k\<lparr>k_siteNAT := ss, k_forward := fs, k_overlaySubnet := ov\<rparr>, lg)"
  using note_filters [where k = k and lg = lg and ns = "k_natNoSNAT k" and ss = ss and fs = fs and ov = ov] by auto

lemma reconcile_filters_steps:
  assumes run: "reconcile_filters sh ord prev cfg k lg = (e, k', lg')"
  shows "ksteps (k, lg) (k', lg')"
proof -
  let ?dev = "k_interfaceID k" and ?ns = "desired_nonat cfg" and ?ss = "desired_site (k_localNodeID k) cfg"
  let ?k = "k\<lparr>k_natNoSNAT := ?ns\<rparr>"
  obtain e1 lg1 where a: "ensure_nonat sh ?dev (OverlaySubnet cfg) (k_natNoSNAT k) (ord 2 ?ns) lg = (e1, lg1)" by (rule prod.exhaust)
  define lg2 where "lg2 = delete_rules sh (\<lambda>c. [nonat_args ?dev [''-D'', ''POSTROUTING''] prev c]) ?ns (ord 3 (k_natNoSNAT k)) lg1"
  obtain e3 lg3 where b: "ensure_site sh ?k (OverlaySubnet cfg) (ord 4 ?ss) lg2 = (e3, lg3)" by (rule prod.exhaust)
  define lg4 where "lg4 = delete_rules sh (\<lambda>c. [sitenat_args ?dev [''-D'', ''POSTROUTING''] prev c]) ?ss (ord 5 (k_siteNAT k)) lg3"
  define lg5 where "lg5 = delete_rules sh (\<lambda>c. [forward_in_args ?dev [''-D'', ''FORWARD''] c, forward_out_args ?dev [''-D'', ''FORWARD''] prev c])
                               ?ss (ord 6 (k_forward k)) lg4"
  have s1: "ksteps (k, lg) (k, lg1)" by (rule ensure_nonat_steps [OF a])
  also have "ksteps (k, lg1) (k, lg2)" unfolding lg2_def by (rule delete_rules_steps) auto
  also have "ksteps (k, lg2) (?k, lg2)" by (rule note_nonat)
  also have "ksteps (?k, lg2) (?k, lg3)" by (rule ensure_site_steps [OF b])
  finally have s3: "ksteps (k, lg) (?k, lg3)" .
  also have "ksteps (?k, lg3) (?k, lg4)" unfolding lg4_def by (rule delete_rules_steps) auto
  also have "ksteps (?k, lg4) (?k, lg5)" unfolding lg5_def by (rule delete_rules_steps) auto
  also have "ksteps (?k, lg5) (?k\<lparr>k_siteNAT := ?ss, k_forward := ?ss, k_overlaySubnet := OverlaySubnet cfg\<rparr>, lg5)" by (rule note_site)
  finally show ?thesis
    using run s1 s3
    by (auto simp: reconcile_filters_def Let_def a b lg2_def [symmetric] lg4_def [symmetric] lg5_def [symmetric] split: option.splits)
qed

lemma kernel_reconcile_steps:
  assumes "kernel_reconcile sh ord fresh cfg k lg = (e, k', lg')" "permutes ord" "kernel_ok (k, lg)"
  shows "ksteps (k, lg) (k', lg')"
  using assms unfolding kernel_reconcile_def Let_def
  by (auto split: prod.splits option.splits intro: reconcile_routes_steps reconcile_filters_steps rtranclp_trans [OF reconcile_routes_steps])

section \<open>Ownership\<close>

fun kernel_runs :: "shell \<Rightarrow> (order \<times> bool \<times> routing_config) list \<Rightarrow> kernel \<Rightarrow> log \<Rightarrow> kernel \<times> log" where
  "kernel_runs sh [] k lg = (k, lg)"
| "kernel_runs sh ((ord, fresh, cfg) # runs) k lg =
     (case kernel_reconcile sh ord fresh cfg k lg of (_, k, lg) \<Rightarrow> kernel_runs sh runs k lg)"

lemma kernel_runs_ok:
  "\<forall>(ord, _) \<in> set runs. permutes ord \<Longrightarrow> kernel_ok (k, lg) \<Longrightarrow> kernel_ok (kernel_runs sh runs k lg)"
proof (induction sh runs k lg rule: kernel_runs.induct)
  case (2 sh ord fresh cfg runs k lg)
  obtain e k' lg' where r: "kernel_reconcile sh ord fresh cfg k lg = (e, k', lg')" by (rule prod_cases3)
  have "kernel_ok (k', lg')" using 2(2,3) by (intro ksteps_ok [OF kernel_reconcile_steps [OF r]]) auto
  then show ?case using 2 r by auto
qed simp


section \<open>Convergence\<close>

definition settled :: "routing_config \<Rightarrow> kernel \<Rightarrow> bool" where
  "settled cfg k \<longleftrightarrow>
     fst ` set (k_routes k) = fst ` set (desired_routes cfg) \<and> (k_policyDefault k \<longleftrightarrow> LocalPublic cfg) \<and> (k_policyRule k \<longleftrightarrow> LocalPublic cfg)
     \<and> k_natNoSNAT k = desired_nonat cfg \<and> k_siteNAT k = desired_site (k_localNodeID k) cfg \<and> k_forward k = desired_site (k_localNodeID k) cfg
     \<and> k_overlaySubnet k = OverlaySubnet cfg"

definition same_flags :: "kernel \<Rightarrow> kernel \<Rightarrow> bool" where
  "same_flags k k' \<longleftrightarrow> k_policyDefault k' = k_policyDefault k \<and> k_policyRule k' = k_policyRule k"

lemma add_routes_all:
  "add_routes sh desired cs k lg = (None, k', lg') \<Longrightarrow>
   fst ` set (k_routes k') = fst ` set (k_routes k) \<union> set cs \<and> same_flags k k'"
proof (induction sh desired cs k lg rule: add_routes.induct)
  case (2 sh desired c cs k lg)
  then show ?case by (auto simp: run_split Let_def same_flags_def update_keys split: if_splits bool.splits)
qed (simp add: same_flags_def)

lemma del_routes_all:
  "del_routes sh desired cs k lg = (None, k', lg') \<Longrightarrow>
   fst ` set (k_routes k') = fst ` set (k_routes k) - {c \<in> set cs. desired c = None} \<and> same_flags k k'"
proof (induction sh desired cs k lg rule: del_routes.induct)
  case (2 sh desired c cs k lg)
  have "fst ` set (AList.delete c (k_routes k)) = fst ` set (k_routes k) - {c}" by (force simp: alist_delete_set)
  with 2 show ?case by (auto simp: run_split Let_def same_flags_def split: if_splits bool.splits)
qed (simp add: same_flags_def)

lemma enable_flags: "enablePublicPolicy sh k lg = (None, k', lg') \<Longrightarrow> k' = k\<lparr>k_policyDefault := True, k_policyRule := True\<rparr>"
  by (auto simp: enablePublicPolicy_def run_split Let_def same_flag split: if_splits bool.splits)

lemma disable_flags: "disablePublicPolicy sh k lg = (None, k', lg') \<Longrightarrow> k' = k\<lparr>k_policyRule := False, k_policyDefault := False\<rparr>"
  by (auto simp: disablePublicPolicy_def run_split Let_def same_flag split: if_splits bool.splits)

lemma map_of_keys: "map_of xs c = None \<longleftrightarrow> c \<notin> fst ` set xs"
  by (simp add: map_of_eq_None_iff)

lemma reconcile_routes_settles:
  assumes run: "reconcile_routes sh ord fresh cfg k lg = (None, k', lg')" and ord: "permutes ord"
  shows "fst ` set (k_routes k') = fst ` set (desired_routes cfg) \<and> (k_policyDefault k' \<longleftrightarrow> LocalPublic cfg) \<and> (k_policyRule k' \<longleftrightarrow> LocalPublic cfg)"
proof -
  let ?D = "map_of (desired_routes cfg)"
  obtain k1 lg1 k2 lg2 k3 lg3 where
    a: "(if LocalPublic cfg then enablePublicPolicy sh k lg else (None, k, lg)) = (None, k1, lg1)" and
    b: "add_routes sh ?D (ord 0 (map fst (desired_routes cfg))) k1 lg1 = (None, k2, lg2)" and
    c: "del_routes sh ?D (ord 1 (map fst (k_routes k2))) k2 lg2 = (None, k3, lg3)" and
    d: "(if LocalPublic cfg then (None, k3, lg3) else disablePublicPolicy sh k3 lg3) = (None, k', lg')"
    using run unfolding reconcile_routes_def Let_def by (auto split: if_splits option.splits prod.splits)
  have keys: "set (ord n xs) = set xs" for n xs using ord by (simp add: permutes_def)
  have "fst ` set (k_routes k3) = fst ` set (desired_routes cfg)"
    using add_routes_all [OF b] del_routes_all [OF c] by (auto simp: keys map_of_keys)
  moreover have "same_flags k1 k3" using add_routes_all [OF b] del_routes_all [OF c] by (simp add: same_flags_def)
  moreover have "LocalPublic cfg \<Longrightarrow> k_policyDefault k1 \<and> k_policyRule k1 \<and> k' = k3" using a d by (auto dest: enable_flags)
  moreover have "\<not> LocalPublic cfg \<Longrightarrow> k' = k3\<lparr>k_policyRule := False, k_policyDefault := False\<rparr>" using d by (simp add: disable_flags)
  ultimately show ?thesis by (cases "LocalPublic cfg") (simp_all add: same_flags_def)
qed

lemma reconcile_filters_settles:
  "reconcile_filters sh ord prev cfg k lg = (None, k', lg') \<Longrightarrow>
   k' = k\<lparr>k_natNoSNAT := desired_nonat cfg, k_siteNAT := desired_site (k_localNodeID k) cfg, k_forward := desired_site (k_localNodeID k) cfg,
          k_overlaySubnet := OverlaySubnet cfg\<rparr>"
  by (auto simp: reconcile_filters_def Let_def split: prod.splits option.splits)

lemma kernel_reconcile_settles:
  assumes "kernel_reconcile sh ord fresh cfg k lg = (None, k', lg')" "permutes ord"
  shows "settled cfg k'"
proof -
  obtain k1 lg1 prev where r: "reconcile_routes sh ord fresh cfg k lg = (None, k1, lg1)"
    and f: "reconcile_filters sh ord prev cfg k1 lg1 = (None, k', lg')"
    using assms(1) unfolding kernel_reconcile_def Let_def by (auto split: prod.splits option.splits)
  show ?thesis
    using reconcile_routes_settles [OF r assms(2)] unfolding reconcile_filters_settles [OF f] by (simp add: settled_def)
qed

text \<open>In a settled state there is nothing to do.\<close>

lemma add_routes_none: "set cs \<subseteq> fst ` set (k_routes k) \<Longrightarrow> add_routes sh desired cs k lg = (None, k, lg)"
  by (induction cs) auto

lemma del_routes_none: "\<forall>c \<in> set cs. desired c \<noteq> None \<Longrightarrow> del_routes sh desired cs k lg = (None, k, lg)"
  by (induction cs) auto

lemma ensure_nonat_none: "set cs \<subseteq> set have_rules \<Longrightarrow> ensure_nonat sh dev ov have_rules cs lg = (None, lg)"
  by (induction cs) auto

lemma ensure_site_none: "set cs \<subseteq> set (k_siteNAT k) \<Longrightarrow> set cs \<subseteq> set (k_forward k) \<Longrightarrow> ensure_site sh k ov cs lg = (None, lg)"
  by (induction cs) (auto simp: ensure_site_one_def)

lemma delete_rules_none: "set cs \<subseteq> set desired \<Longrightarrow> delete_rules sh cmds desired cs lg = lg"
  by (induction cs) (auto simp: delete_rules_def)

lemma settled_routes_idle:
  assumes "settled cfg k" "permutes ord"
  shows "reconcile_routes sh ord fresh cfg k lg = (None, k, lg)"
proof -
  have keys: "set (ord n xs) = set xs" for n xs using assms(2) by (simp add: permutes_def)
  have idle: "enablePublicPolicy sh k lg = (None, k, lg)" if "LocalPublic cfg"
    using assms(1) that by (simp add: enablePublicPolicy_def settled_def same_flag)
  have idle': "disablePublicPolicy sh k lg = (None, k, lg)" if "\<not> LocalPublic cfg"
    using assms(1) that by (simp add: disablePublicPolicy_def settled_def same_flag)
  show ?thesis
    using assms(1) by (simp add: reconcile_routes_def Let_def idle idle' settled_def add_routes_none del_routes_none keys map_of_keys)
qed

text \<open>The filters are kept by CIDR only: they are settled for any configuration that wants the same CIDRs.\<close>

lemma settled_filters_idle:
  assumes "k_natNoSNAT k = desired_nonat cfg" "k_siteNAT k = desired_site (k_localNodeID k) cfg" "k_forward k = desired_site (k_localNodeID k) cfg"
    and "permutes ord"
  shows "reconcile_filters sh ord prev cfg k lg = (None, k\<lparr>k_overlaySubnet := OverlaySubnet cfg\<rparr>, lg)"
proof -
  have keys: "set (ord n xs) = set xs" for n xs using assms(4) by (simp add: permutes_def)
  have same: "k\<lparr>k_natNoSNAT := desired_nonat cfg\<rparr> = k" using assms(1) by (cases k) simp
  have same': "k\<lparr>k_siteNAT := desired_site (k_localNodeID k) cfg, k_forward := desired_site (k_localNodeID k) cfg, k_overlaySubnet := ov\<rparr>
      = k\<lparr>k_overlaySubnet := ov\<rparr>" for ov using assms(2,3) by (cases k) simp
  show ?thesis
    using assms(1-3) by (simp add: reconcile_filters_def Let_def same same' ensure_nonat_none ensure_site_none delete_rules_none keys)
qed

lemma settled_idle:
  assumes "settled cfg k" "permutes ord"
  shows "kernel_reconcile sh ord fresh cfg k lg = (None, k, lg)"
proof -
  have "k\<lparr>k_overlaySubnet := OverlaySubnet cfg\<rparr> = k" using assms(1) by (cases k) (simp add: settled_def)
  moreover have "reconcile_filters sh ord prev cfg k lg = (None, k\<lparr>k_overlaySubnet := OverlaySubnet cfg\<rparr>, lg)" for prev
    using assms by (intro settled_filters_idle) (simp_all add: settled_def)
  ultimately show ?thesis using assms by (simp add: kernel_reconcile_def settled_routes_idle)
qed


section \<open>Examples\<close>

definition any_order :: order where "any_order n xs = xs"

lemma any_order_permutes [simp]: "permutes any_order"
  by (simp add: permutes_def any_order_def)

definition site_route :: "string \<Rightarrow> route" where
  "site_route cidr = \<lparr>route_CIDR = cidr, route_OwnerNodeID = ''home''\<rparr>"

definition public_config :: "string list \<Rightarrow> routing_config" where
  "public_config cidrs = (empty_config ''10.77.0.0/24'')\<lparr>LocalPublic := True, Routes := map site_route cidrs\<rparr>"

definition all_succeed :: shell where "all_succeed n args = (args ! 3 \<noteq> ''-C'' \<and> args ! 1 \<noteq> ''-C'')"



text \<open>The filters are kept by CIDR alone: when the Controller changes the overlay subnet of a public Node, not one command is run, so that the
  \<^verbatim>\<open>nonat\<close> rules keep the old subnet and none is made for the new one, and the old subnet is forgotten.\<close>

lemma overlay_change_unnoticed:
  assumes k: "settled cfg k" and cfg: "LocalPublic cfg" "\<not> LocalSiteRouter cfg" "OverlaySubnet cfg \<noteq> []" and other: "other \<noteq> []" and ord: "permutes ord"
  shows "kernel_reconcile sh ord fresh (cfg\<lparr>OverlaySubnet := other\<rparr>) k lg = (None, k\<lparr>k_overlaySubnet := other\<rparr>, lg)"
proof -
  let ?cfg = "cfg\<lparr>OverlaySubnet := other\<rparr>"
  have "settled ?cfg (k\<lparr>k_overlaySubnet := other\<rparr>)" and f: "k_natNoSNAT k = desired_nonat ?cfg" "k_siteNAT k = desired_site (k_localNodeID k) ?cfg"
    "k_forward k = desired_site (k_localNodeID k) ?cfg"
    using k cfg other by (simp_all add: settled_def desired_routes_def desired_nonat_def desired_site_def)
  have keys: "set (ord n xs) = set xs" for n xs using ord by (simp add: permutes_def)
  have "reconcile_routes sh ord fresh ?cfg k lg = (None, k, lg)"
    using k cfg
    by (simp add: reconcile_routes_def Let_def settled_def enablePublicPolicy_def same_flag desired_routes_def add_routes_none del_routes_none keys
        map_of_keys)
  moreover have "reconcile_filters sh ord prev ?cfg k lg = (None, k\<lparr>k_overlaySubnet := other\<rparr>, lg)" for prev
    using settled_filters_idle [OF f ord] by simp
  ultimately show ?thesis by (simp add: kernel_reconcile_def)
qed

text \<open>The filters are recorded only when all of them are in place: when the second insertion fails at startup, the cleanup that follows runs no
  deletion, and the first rule stays in the kernel.\<close>

definition second_insert_fails :: shell where
  "second_insert_fails n args \<longleftrightarrow> all_succeed n args \<and> \<not> (''-I'' \<in> set args \<and> ''192.168.89.0/24'' \<in> set args)"

lemma failed_start_leaks_rule:
  "(case kernel_reconcile second_insert_fails any_order True (public_config [''192.168.88.0/24'', ''192.168.89.0/24'']) (new_kernel ''vps'' ''bpcrt0'') [] of
      (e, k, lg) \<Rightarrow> e \<noteq> None
        \<and> (nonat_args ''bpcrt0'' [''-I'', ''POSTROUTING'', ''1''] ''10.77.0.0/24'' ''192.168.88.0/24'', True) \<in> set lg
        \<and> k_routes (fst (kernel_cleanup second_insert_fails any_order k lg)) = []
        \<and> filter (\<lambda>(args, _). ''-D'' \<in> set args) (snd (kernel_cleanup second_insert_fails any_order k lg)) = [])"
  by code_simp

end
