(* ===== verification/RoutedNode.thy ===== *)
theory RoutedNode
  imports RoutedKernelProps RoutedRouterProps RoutedMeshProps
begin

text \<open>The routed Node's process: \<^verbatim>\<open>main\<close> of \<^verbatim>\<open>cmd/bpc-routed-node/main.go\<close> with the mesh, the router and the kernel state it
  puts together, its periodic reload of the enrollment, the loop over the tunnel interface and the mesh's data handler. What the operating system
  answers is an argument of each step; the goroutines are interleaved step by step.\<close>

section \<open>Start\<close>

record node_daemon =
  nd_nodeID :: string
  nd_mesh :: mesh
  nd_router :: router
  nd_kernel :: kernel
  nd_log :: log

datatype boot_error =
    StartEnrollment enrollment_error
  | StartPolicyExpired
  | StartPolicy policy_conflict
  | StartInterfaces
  | StartInterfaceTaken
  | StartTun
  | StartTunName
  | StartLink
  | StartMesh mesh_error
  | StartRouter router_error
  | StartKernel kernel_error log

text \<open>What the system answers at the start: the enrollment file, the clock, each inspection of the policy rules, the names of the interfaces, the
  creation of the tunnel and its actual name, the mesh's port, and the commands.\<close>

record boot_env =
  be_decode :: "string \<Rightarrow> enrollment option"
  be_file :: "string option"
  be_now :: gotime
  be_policy :: "nat \<Rightarrow> policy_rule list option ip_output \<times> nat option ip_output"
  be_interfaces :: "string list option"
  be_create :: "string \<Rightarrow> bool"
  be_name :: "string option"
  be_listen :: "int \<Rightarrow> bool"
  be_shell :: shell
  be_order :: order

definition fresh_policy :: "boot_env \<Rightarrow> nat \<Rightarrow> policy_conflict option" where
  "fresh_policy se i = (case be_policy se i of (rules, routes) \<Rightarrow> requireFreshPublicPolicy rules routes)"

definition start_kernel :: "boot_env \<Rightarrow> string \<Rightarrow> string \<Rightarrow> routing_config \<Rightarrow> (kernel_error \<times> log) + (kernel \<times> log)" where
  "start_kernel se nodeID actualName config =
     (case kernel_reconcile (be_shell se) (be_order se) (fresh_policy se 1 = None) config (new_kernel nodeID actualName) [] of
        (None, k, lg) \<Rightarrow> Inr (k, lg)
      | (Some e, k, lg) \<Rightarrow> Inl (e, snd (kernel_cleanup (be_shell se) (be_order se) k lg)))"

definition start_runtime :: "boot_env \<Rightarrow> mesh_env \<Rightarrow> random \<Rightarrow> string \<Rightarrow> enrollment \<Rightarrow> boot_error + random \<times> node_daemon" where
  "start_runtime se env rnd actualName enr =
     (let config = enr_Routing enr; nodeID = enr_NodeID enr
      in case NewMesh (be_listen se) nodeID (ListenPort config) of
           Inl e \<Rightarrow> Inl (StartMesh e)
         | Inr m \<Rightarrow>
             (case Reconcile env (Links config) (be_now se) rnd m of
                (Some e, rnd, m) \<Rightarrow> Inl (StartMesh e)
              | (None, rnd, m) \<Rightarrow>
                  (case NewRouter nodeID config True True of
                     Inl e \<Rightarrow> Inl (StartRouter e)
                   | Inr r \<Rightarrow>
                       (case start_kernel se nodeID actualName config of
                          Inl (e, lg) \<Rightarrow> Inl (StartKernel e lg)
                        | Inr (k, lg) \<Rightarrow>
                            Inr (rnd, \<lparr>nd_nodeID = nodeID, nd_mesh = m, nd_router = r, nd_kernel = k, nd_log = lg\<rparr>)))))"

definition node_start :: "boot_env \<Rightarrow> mesh_env \<Rightarrow> random \<Rightarrow> string \<Rightarrow> boot_error + random \<times> node_daemon" where
  "node_start se env rnd interfaceName =
     (case LoadEnrollment (be_decode se) (be_file se) of
        Inl e \<Rightarrow> Inl (StartEnrollment e)
      | Inr enr \<Rightarrow>
          let config = enr_Routing enr
          in if \<not> PolicyValid config (be_now se) then Inl StartPolicyExpired
             else case (if LocalPublic config then fresh_policy se 0 else None) of
                    Some e \<Rightarrow> Inl (StartPolicy e)
                  | None \<Rightarrow>
                      (case be_interfaces se of
                         None \<Rightarrow> Inl StartInterfaces
                       | Some interfaces \<Rightarrow>
                           if \<not> requireFreshInterface interfaceName interfaces then Inl StartInterfaceTaken
                           else if \<not> be_create se interfaceName then Inl StartTun
                           else case be_name se of
                                  None \<Rightarrow> Inl StartTunName
                                | Some actualName \<Rightarrow>
                                    if \<not> fst (runCommand (be_shell se) [''ip'', ''link'', ''set'', ''dev'', actualName, ''up''] [])
                                    then Inl StartLink else start_runtime se env rnd actualName enr))"

section \<open>Reloading\<close>

datatype reload_outcome =
    ReloadFailed enrollment_error | ReloadExpired | ReloadMesh mesh_error | ReloadRouter router_error | ReloadKernel kernel_error | Reloaded

definition node_reload ::
  "mesh_env \<Rightarrow> shell \<Rightarrow> order \<Rightarrow> bool \<Rightarrow> gotime \<Rightarrow> gotime \<Rightarrow> enrollment_error + enrollment \<Rightarrow> random \<Rightarrow> node_daemon \<Rightarrow>
   reload_outcome \<times> random \<times> node_daemon" where
  "node_reload env sh ord fresh now now2 loaded rnd nd =
     (case loaded of
        Inl e \<Rightarrow> (ReloadFailed e, rnd, nd)
      | Inr enr \<Rightarrow>
          let config = enr_Routing enr
          in if \<not> PolicyValid config now then (ReloadExpired, rnd, nd)
             else case Reconcile env (Links config) now2 rnd (nd_mesh nd) of
                    (Some e, rnd, m) \<Rightarrow> (ReloadMesh e, rnd, nd\<lparr>nd_mesh := m\<rparr>)
                  | (None, rnd, m) \<Rightarrow>
                      let nd = nd\<lparr>nd_mesh := m\<rparr>
                      in case UpdateConfig config (nd_router nd) of
                           (Some e, r) \<Rightarrow> (ReloadRouter e, rnd, nd\<lparr>nd_router := r\<rparr>)
                         | (None, r) \<Rightarrow>
                             let nd = nd\<lparr>nd_router := r\<rparr>
                             in case kernel_reconcile sh ord fresh config (nd_kernel nd) (nd_log nd) of
                                  (Some e, k, lg) \<Rightarrow> (ReloadKernel e, rnd, nd\<lparr>nd_kernel := k, nd_log := lg\<rparr>)
                                | (None, k, lg) \<Rightarrow> (Reloaded, rnd, nd\<lparr>nd_kernel := k, nd_log := lg\<rparr>))"

section \<open>Packets\<close>

text \<open>What the router wants done is done: frames go out through the mesh, packets to the interface. Both may fail, which is only logged. The router's
  state does not depend on whether they do, so its handlers are run with both succeeding.\<close>

fun perform :: "mesh_env \<Rightarrow> router_event list \<Rightarrow> random \<Rightarrow> mesh \<Rightarrow> random \<times> mesh \<times> mesh_event list \<times> (byte list \<times> nat) list" where
  "perform env [] rnd m = (rnd, m, [], [])"
| "perform env (SendTo k raw # evs) rnd m =
     (let (_, rnd, m, sent) = mesh_Send env k raw rnd m; (rnd, m, sent', written) = perform env evs rnd m
      in (rnd, m, sent @ sent', written))"
| "perform env (WriteTun packet # evs) rnd m =
     (let (rnd, m, sent, written) = perform env evs rnd m in (rnd, m, sent, WritePacket packet # written))"

definition attempt_view :: "mesh \<Rightarrow> gotime \<Rightarrow> transport" where
  "attempt_view m now = mesh_view m now (\<lambda>_ _. True) (\<lambda>_. True)"

definition handle_delivered ::
  "mesh_env \<Rightarrow> gotime \<Rightarrow> gotime \<Rightarrow> mesh_event \<Rightarrow> random \<Rightarrow> node_daemon \<Rightarrow> random \<times> node_daemon \<times> mesh_event list \<times> (byte list \<times> nat) list" where
  "handle_delivered env now now2 ev rnd nd =
     (case ev of
        Sent packet addr \<Rightarrow> (rnd, nd, [ev], [])
      | Delivered peerID payload \<Rightarrow>
          (case HandleMeshData (attempt_view (nd_mesh nd) now2) now now2 peerID payload (nd_router nd) of
             (_, r, evs) \<Rightarrow>
               (case perform env evs rnd (nd_mesh nd) of
                  (rnd, m, sent, written) \<Rightarrow> (rnd, nd\<lparr>nd_router := r, nd_mesh := m\<rparr>, sent, written))))"

fun handle_all ::
  "mesh_env \<Rightarrow> gotime \<Rightarrow> gotime \<Rightarrow> mesh_event list \<Rightarrow> random \<Rightarrow> node_daemon \<Rightarrow> random \<times> node_daemon \<times> mesh_event list \<times> (byte list \<times> nat) list" where
  "handle_all env now now2 [] rnd nd = (rnd, nd, [], [])"
| "handle_all env now now2 (ev # evs) rnd nd =
     (let (rnd, nd, sent, written) = handle_delivered env now now2 ev rnd nd;
          (rnd, nd, sent', written') = handle_all env now now2 evs rnd nd
      in (rnd, nd, sent @ sent', written @ written'))"

definition node_datagram ::
  "mesh_env \<Rightarrow> gotime \<Rightarrow> gotime \<Rightarrow> gotime \<Rightarrow> byte list \<Rightarrow> udp_addr \<Rightarrow> random \<Rightarrow> node_daemon \<Rightarrow>
   random \<times> node_daemon \<times> mesh_event list \<times> (byte list \<times> nat) list" where
  "node_datagram env now now2 now3 packet addr rnd nd =
     (case receive env packet addr now rnd (nd_mesh nd) of
        (rnd, m, evs) \<Rightarrow> handle_all env now2 now3 evs rnd (nd\<lparr>nd_mesh := m\<rparr>))"

text \<open>A batch of packets read from the interface.\<close>

fun tun_batch :: "mesh_env \<Rightarrow> gotime \<Rightarrow> byte list list \<Rightarrow> random \<Rightarrow> node_daemon \<Rightarrow> random \<times> node_daemon \<times> mesh_event list" where
  "tun_batch env now [] rnd nd = (rnd, nd, [])"
| "tun_batch env now (packet # packets) rnd nd =
     (case HandleTunPacket (attempt_view (nd_mesh nd) now) now packet (nd_router nd) of
        (_, r, evs) \<Rightarrow>
          (case perform env evs rnd (nd_mesh nd) of
             (rnd, m, sent, _) \<Rightarrow>
               let (rnd, nd, sent') = tun_batch env now packets rnd (nd\<lparr>nd_router := r, nd_mesh := m\<rparr>) in (rnd, nd, sent @ sent')))"

definition readTunLoop_once ::
  "mesh_env \<Rightarrow> gotime \<Rightarrow> (int \<times> byte list) list \<Rightarrow> random \<Rightarrow> node_daemon \<Rightarrow> random \<times> node_daemon \<times> mesh_event list" where
  "readTunLoop_once env now batch rnd nd = tun_batch env now (tun_packets batch) rnd nd"

definition node_tick :: "mesh_env \<Rightarrow> gotime \<Rightarrow> random \<Rightarrow> node_daemon \<Rightarrow> random \<times> node_daemon \<times> mesh_event list" where
  "node_tick env now rnd nd = (case probe_tick env now rnd (nd_mesh nd) of (rnd, m, sent) \<Rightarrow> (rnd, nd\<lparr>nd_mesh := m\<rparr>, sent))"

record runtime_status =
  rs_NodeID :: string
  rs_Interface :: string
  rs_UpdatedAt :: int
  rs_Links :: "link_status list"
  rs_SelectedPaths :: "selected_path list"

definition status_report :: "gotime \<Rightarrow> gotime \<Rightarrow> gotime \<Rightarrow> node_daemon \<Rightarrow> runtime_status \<times> node_daemon" where
  "status_report now now2 now3 nd =
     (case SelectedPaths (attempt_view (nd_mesh nd) now3) now2 now3 (nd_router nd) of
        (paths, r) \<Rightarrow>
          (\<lparr>rs_NodeID = nd_nodeID nd, rs_Interface = k_interfaceID (nd_kernel nd), rs_UpdatedAt = unix_of now,
            rs_Links = sort_slice (less_by ls_To) (mesh_Status (nd_mesh nd) now2), rs_SelectedPaths = paths\<rparr>,
           nd\<lparr>nd_router := r\<rparr>))"

section \<open>The process as a transition system\<close>

inductive node_step :: "mesh_env \<Rightarrow> node_daemon \<Rightarrow> node_daemon \<Rightarrow> bool" for env where
  reload: "permutes ord \<Longrightarrow> node_reload env sh ord fresh now now2 (LoadEnrollment decode raw) rnd nd = (out, rnd', nd') \<Longrightarrow> node_step env nd nd'"
| datagram: "node_datagram env now now2 now3 packet addr rnd nd = (rnd', nd', sent, written) \<Longrightarrow> node_step env nd nd'"
| tun: "readTunLoop_once env now batch rnd nd = (rnd', nd', sent) \<Longrightarrow> node_step env nd nd'"
| tick: "node_tick env now rnd nd = (rnd', nd', sent) \<Longrightarrow> node_step env nd nd'"
| status: "status_report now now2 now3 nd = (st, nd') \<Longrightarrow> node_step env nd nd'"

inductive node_reachable :: "mesh_env \<Rightarrow> node_daemon \<Rightarrow> bool" for env where
  started: "permutes (be_order se) \<Longrightarrow> node_start se env rnd name = Inr (rnd', nd) \<Longrightarrow> node_reachable env nd"
| stepped: "node_reachable env nd \<Longrightarrow> node_step env nd nd' \<Longrightarrow> node_reachable env nd'"

definition router_ok :: "string \<Rightarrow> router \<Rightarrow> bool" where
  "router_ok nodeID r \<longleftrightarrow> rt_localNodeID r = nodeID \<and> config_Validate (rt_config r) nodeID = None"

definition node_ok :: "node_daemon \<Rightarrow> bool" where
  "node_ok nd \<longleftrightarrow> mesh_ok (nd_mesh nd) \<and> router_ok (nd_nodeID nd) (nd_router nd) \<and> kernel_ok (nd_kernel nd, nd_log nd)"

definition same_policy :: "router \<Rightarrow> router \<Rightarrow> bool" where
  "same_policy r r' \<longleftrightarrow> rt_localNodeID r' = rt_localNodeID r \<and> rt_config r' = rt_config r"

lemma same_policy_ok: "same_policy r r' \<Longrightarrow> router_ok i r' \<longleftrightarrow> router_ok i r"
  by (simp add: same_policy_def router_ok_def)

lemma same_policy_choose: "choosePath tr route paths now r = (x, r') \<Longrightarrow> same_policy r r'"
  using choosePath_frame [of tr route paths now r] by (simp add: same_policy_def)

lemma same_policy_reverse: "reverseFor a now r = (x, r') \<Longrightarrow> same_policy r r'"
  using reverseFor_frame [of a now r] by (simp add: same_policy_def)

lemma same_policy_refl [simp]: "same_policy r r" "same_policy r (rememberReverse a p now r)"
  by (simp_all add: same_policy_def rememberReverse_def)

lemma same_policy_tun: "HandleTunPacket tr now packet r = (e, r', evs) \<Longrightarrow> same_policy r r'"
  by (auto simp: HandleTunPacket_def Let_def split: sum.splits if_splits option.splits prod.splits dest: same_policy_choose same_policy_reverse)

lemma same_policy_data: "HandleMeshData tr now now2 peer raw r = (e, r', evs) \<Longrightarrow> same_policy r r'"
  by (auto simp: HandleMeshData_def Let_def split: sum.splits if_splits prod.splits)

lemma same_policy_trans: "same_policy r r1 \<Longrightarrow> same_policy r1 r2 \<Longrightarrow> same_policy r r2"
  by (simp add: same_policy_def)

lemma same_policy_selected: "selected_routes tr now rs r = (x, r') \<Longrightarrow> same_policy r r'"
proof (induction tr now rs r arbitrary: x rule: selected_routes.induct)
  case (2 tr now route rs r)
  then show ?case
    by (auto simp: Let_def split: if_splits sum.splits prod.splits dest!: same_policy_choose intro: same_policy_trans)
qed simp

lemma perform_mesh_ok: "perform env evs rnd m = (rnd', m', sent, written) \<Longrightarrow> mesh_ok m \<Longrightarrow> mesh_ok m'"
proof (induction env evs rnd m arbitrary: sent written rule: perform.induct)
  case (2 env k raw evs rnd m)
  then show ?case by (auto simp: Let_def split: prod.splits dest: mesh_Send_ok)
qed (auto simp: Let_def split: prod.splits)

text \<open>What packets change of the process: the mesh, and of the router what it remembers.\<close>

definition traffic :: "node_daemon \<Rightarrow> node_daemon \<Rightarrow> bool" where
  "traffic nd nd' \<longleftrightarrow> nd_nodeID nd' = nd_nodeID nd \<and> nd_kernel nd' = nd_kernel nd \<and> nd_log nd' = nd_log nd
     \<and> same_policy (nd_router nd) (nd_router nd') \<and> (mesh_ok (nd_mesh nd) \<longrightarrow> mesh_ok (nd_mesh nd'))"

lemma traffic_ok: "traffic nd nd' \<Longrightarrow> node_ok nd \<Longrightarrow> node_ok nd'"
  by (auto simp: traffic_def node_ok_def same_policy_ok)

lemma traffic_refl [simp]: "traffic nd nd"
  by (simp add: traffic_def)

lemma traffic_trans: "traffic nd nd1 \<Longrightarrow> traffic nd1 nd2 \<Longrightarrow> traffic nd nd2"
  by (auto simp: traffic_def intro: same_policy_trans)

lemma handle_delivered_traffic: "handle_delivered env now now2 ev rnd nd = (rnd', nd', sent, written) \<Longrightarrow> traffic nd nd'"
  by (auto simp: handle_delivered_def traffic_def split: mesh_event.splits prod.splits dest: same_policy_data perform_mesh_ok)

lemma handle_all_traffic: "handle_all env now now2 evs rnd nd = (rnd', nd', sent, written) \<Longrightarrow> traffic nd nd'"
proof (induction env now now2 evs rnd nd arbitrary: sent written rule: handle_all.induct)
  case (2 env now now2 ev evs rnd nd)
  then show ?case by (auto simp: Let_def split: prod.splits dest!: handle_delivered_traffic intro: traffic_trans)
qed simp

lemma tun_batch_traffic: "tun_batch env now packets rnd nd = (rnd', nd', sent) \<Longrightarrow> traffic nd nd'"
proof (induction env now packets rnd nd arbitrary: sent rule: tun_batch.induct)
  case (2 env now packet packets rnd nd)
  obtain e r evs where h: "HandleTunPacket (attempt_view (nd_mesh nd) now) now packet (nd_router nd) = (e, r, evs)" by (rule prod_cases3)
  obtain rnd1 m s w where p: "perform env evs rnd (nd_mesh nd) = (rnd1, m, s, w)" by (rule prod_cases4)
  have "traffic nd (nd\<lparr>nd_router := r, nd_mesh := m\<rparr>)" using same_policy_tun [OF h] perform_mesh_ok [OF p] by (simp add: traffic_def)
  moreover obtain sent1 where "tun_batch env now packets rnd1 (nd\<lparr>nd_router := r, nd_mesh := m\<rparr>) = (rnd', nd', sent1)"
    using 2(2) by (auto simp: h p Let_def split: prod.splits)
  then have "traffic (nd\<lparr>nd_router := r, nd_mesh := m\<rparr>) nd'" by (rule 2(1) [OF h [symmetric] refl p [symmetric] refl refl])
  ultimately show ?case by (rule traffic_trans)
qed simp

lemma mesh_traffic: "mesh_ok (nd_mesh nd) \<longrightarrow> mesh_ok m \<Longrightarrow> traffic nd (nd\<lparr>nd_mesh := m\<rparr>)"
  by (simp add: traffic_def)

lemma node_datagram_traffic: "node_datagram env now now2 now3 packet addr rnd nd = (rnd', nd', sent, written) \<Longrightarrow> traffic nd nd'"
proof -
  assume run: "node_datagram env now now2 now3 packet addr rnd nd = (rnd', nd', sent, written)"
  obtain rnd1 m evs where r: "receive env packet addr now rnd (nd_mesh nd) = (rnd1, m, evs)" by (rule prod_cases3)
  have "traffic nd (nd\<lparr>nd_mesh := m\<rparr>)" using receive_ok [OF _ r] by (intro mesh_traffic) blast
  moreover have "traffic (nd\<lparr>nd_mesh := m\<rparr>) nd'" using run by (intro handle_all_traffic) (simp add: node_datagram_def r)
  ultimately show ?thesis by (rule traffic_trans)
qed

lemma node_tick_traffic: "node_tick env now rnd nd = (rnd', nd', sent) \<Longrightarrow> traffic nd nd'"
  unfolding node_tick_def by (auto split: prod.splits intro!: mesh_traffic dest: probe_tick_ok)

lemma status_report_traffic: "status_report now now2 now3 nd = (st, nd') \<Longrightarrow> traffic nd nd'"
  unfolding status_report_def SelectedPaths_def
  by (auto simp: traffic_def split: prod.splits if_splits dest: same_policy_selected)

lemma UpdateConfig_ok: "UpdateConfig cfg r = (e, r') \<Longrightarrow> router_ok i r \<Longrightarrow> router_ok i r'"
  by (auto simp: UpdateConfig_def router_ok_def Let_def split: option.splits)

lemma kernel_reconcile_ok:
  "kernel_reconcile sh ord fresh cfg k lg = (e, k', lg') \<Longrightarrow> permutes ord \<Longrightarrow> kernel_ok (k, lg) \<Longrightarrow> kernel_ok (k', lg')"
  using kernel_reconcile_steps ksteps_ok by blast

lemma node_reload_ok:
  assumes run: "node_reload env sh ord fresh now now2 loaded rnd nd = (out, rnd', nd')" and ord: "permutes ord" and ok: "node_ok nd"
  shows "node_ok nd'"
proof (cases loaded)
  case (Inl e)
  then show ?thesis using run ok by (simp add: node_reload_def)
next
  case (Inr enr)
  let ?c = "enr_Routing enr"
  obtain e1 rnd1 m where m: "Reconcile env (Links ?c) now2 rnd (nd_mesh nd) = (e1, rnd1, m)" by (rule prod_cases3)
  obtain e2 r where r: "UpdateConfig ?c (nd_router nd) = (e2, r)" by (rule prod.exhaust)
  obtain e3 k lg where k: "kernel_reconcile sh ord fresh ?c (nd_kernel nd) (nd_log nd) = (e3, k, lg)" by (rule prod_cases3)
  have "mesh_ok m" "router_ok (nd_nodeID nd) r" "kernel_ok (k, lg)"
    using ok Reconcile_ok [OF _ m] UpdateConfig_ok [OF r] kernel_reconcile_ok [OF k ord] by (auto simp: node_ok_def)
  then show ?thesis
    using run ok by (auto simp: node_reload_def Inr m r k Let_def node_ok_def split: if_splits option.splits)
qed

lemma node_step_ok: "node_step env nd nd' \<Longrightarrow> node_ok nd \<Longrightarrow> node_ok nd'"
  by (induction rule: node_step.induct)
    (auto simp: readTunLoop_once_def intro: node_reload_ok traffic_ok node_datagram_traffic tun_batch_traffic node_tick_traffic status_report_traffic)

lemma new_kernel_ok: "kernel_ok (new_kernel nodeID dev, [])"
  by (simp add: kernel_ok_def owned_def new_kernel_def)

lemma start_runtime_ok:
  assumes run: "start_runtime se env rnd name enr = Inr (rnd', nd)" and ord: "permutes (be_order se)"
  shows "node_ok nd"
proof -
  let ?c = "enr_Routing enr" and ?i = "enr_NodeID enr"
  obtain m0 rnd1 m r k lg where m0: "NewMesh (be_listen se) ?i (ListenPort ?c) = Inr m0"
    and m: "Reconcile env (Links ?c) (be_now se) rnd m0 = (None, rnd1, m)" and r: "NewRouter ?i ?c True True = Inr r"
    and k: "start_kernel se ?i name ?c = Inr (k, lg)"
    and nd: "nd = \<lparr>nd_nodeID = ?i, nd_mesh = m, nd_router = r, nd_kernel = k, nd_log = lg\<rparr>"
    using run by (auto simp: start_runtime_def Let_def split: sum.splits prod.splits option.splits)
  have "mesh_ok m0" using mesh_reachable.reach_new [OF m0, of env] by (rule mesh_reachable_ok)
  then have "mesh_ok m" using Reconcile_ok [OF _ m] by blast
  moreover have "router_ok ?i r" using r by (auto simp: NewRouter_def router_ok_def split: if_splits option.splits)
  moreover have "kernel_ok (k, lg)"
    using k ord by (auto simp: start_kernel_def split: prod.splits option.splits intro: kernel_reconcile_ok new_kernel_ok)
  ultimately show ?thesis by (simp add: node_ok_def nd)
qed

lemma node_start_ok: "node_start se env rnd name = Inr (rnd', nd) \<Longrightarrow> permutes (be_order se) \<Longrightarrow> node_ok nd"
  by (auto simp: node_start_def Let_def split: sum.splits option.splits if_splits intro: start_runtime_ok)

lemma node_reachable_ok: "node_reachable env nd \<Longrightarrow> node_ok nd"
  by (induction rule: node_reachable.induct) (auto intro: node_start_ok node_step_ok)

section \<open>What reaches the interface\<close>

lemma perform_written: "perform env evs rnd m = (rnd', m', sent, written) \<Longrightarrow> w \<in> set written \<Longrightarrow> \<exists>p. WriteTun p \<in> set evs \<and> w = WritePacket p"
proof (induction env evs rnd m arbitrary: sent written rule: perform.induct)
  case (2 env k raw evs rnd m)
  then show ?case by (auto simp: Let_def split: prod.splits)
next
  case (3 env packet evs rnd m)
  then show ?case by (fastforce simp: Let_def split: prod.splits)
qed simp

lemma handle_delivered_written:
  assumes run: "handle_delivered env now now2 ev rnd nd = (rnd', nd', sent, written)" and w: "w \<in> set written"
  obtains peer payload tr e r evs p where "ev = Delivered peer payload"
    "HandleMeshData tr now now2 peer payload (nd_router nd) = (e, r, evs)" "WriteTun p \<in> set evs" "w = WritePacket p"
proof (cases ev)
  case (Sent packet addr)
  then show ?thesis using run w by (simp add: handle_delivered_def)
next
  case (Delivered peer payload)
  obtain e r evs where h: "HandleMeshData (attempt_view (nd_mesh nd) now2) now now2 peer payload (nd_router nd) = (e, r, evs)" by (rule prod_cases3)
  obtain rnd1 m s v where q: "perform env evs rnd (nd_mesh nd) = (rnd1, m, s, v)" by (rule prod_cases4)
  have "w \<in> set v" using run w by (simp add: handle_delivered_def Delivered h q)
  from perform_written [OF q this] that [OF Delivered h] show ?thesis by blast
qed

lemma handle_all_written:
  "handle_all env now now2 evs rnd nd = (rnd', nd', sent, written) \<Longrightarrow> w \<in> set written \<Longrightarrow>
   \<exists>peer payload tr r0 e r acts p. Delivered peer payload \<in> set evs \<and> same_policy (nd_router nd) r0
     \<and> HandleMeshData tr now now2 peer payload r0 = (e, r, acts) \<and> WriteTun p \<in> set acts \<and> w = WritePacket p"
proof (induction env now now2 evs rnd nd arbitrary: sent written rule: handle_all.induct)
  case (2 env now now2 ev evs rnd nd)
  obtain rnd1 nd1 s1 w1 where a: "handle_delivered env now now2 ev rnd nd = (rnd1, nd1, s1, w1)" by (rule prod_cases4)
  obtain rnd2 nd2 s2 w2 where b: "handle_all env now now2 evs rnd1 nd1 = (rnd2, nd2, s2, w2)" by (rule prod_cases4)
  have same: "same_policy (nd_router nd) (nd_router nd1)" using handle_delivered_traffic [OF a] by (simp add: traffic_def)
  have "rnd2 = rnd'" "nd2 = nd'" "written = w1 @ w2" using 2(2) by (simp_all add: a b)
  then consider "w \<in> set w1" | "w \<in> set w2" using 2(3) by auto
  then show ?case
  proof cases
    case 1
    from handle_delivered_written [OF a this] show ?thesis by (metis list.set_intros(1) same_policy_refl(1))
  next
    case w2: 2
    from 2(1) [OF a [symmetric] refl refl refl b [unfolded \<open>rnd2 = rnd'\<close> \<open>nd2 = nd'\<close>] w2] same show ?thesis
      by (metis list.set_intros(2) same_policy_trans)
  qed
qed simp

text \<open>C5. From the start of the process on, through reloads of its configuration, datagrams, packets from the interface, probes and status reports in
  any order and whatever fails: the mesh is well formed, the router works with a configuration that is valid for this Node, and the kernel's routes
  and rules are exactly the recorded ones.\<close>

theorem node_invariant:
  assumes "node_reachable env nd"
  shows "node_ok nd"
  using assms by (rule node_reachable_ok)


section \<open>Examples\<close>

definition site_path :: path where
  "site_path = ex_path\<lparr>path_OwnerNodeID := ''a'', path_Hops := [''b'', ''a'']\<rparr>"

definition site_config :: routing_config where
  "site_config = ex_config\<lparr>LocalPublic := False, LocalSiteRouter := True, Paths := [], TransitPaths := [site_path],
     Routes := [ex_route\<lparr>route_OwnerNodeID := ''a''\<rparr>]\<rparr>"

definition site_router :: router where
  "site_router = \<lparr>rt_localNodeID = ''a'', rt_config = site_config, rt_selections = [], rt_reverse = []\<rparr>"

definition site_frame :: frame where
  "site_frame = forward_frame (ex_route\<lparr>route_OwnerNodeID := ''a''\<rparr>) site_path ex_packet"

definition site_node :: node_daemon where
  "site_node = \<lparr>nd_nodeID = ''a'', nd_mesh = toy_mesh, nd_router = site_router, nd_kernel = new_kernel ''a'' ''bpcrt0'', nd_log = []\<rparr>"

lemma site_words [simp]: "trim_space ''p1'' = ''p1''" "trim_space ''a'' = ''a''" "trim_space ''b'' = ''b''"
  by (rule trim_space_plain; simp add: space_bytes_def space_seqs_def)+

lemma site_valid: "config_Validate site_config ''a'' = None"
  by (simp add: config_Validate_def site_config_def ex_config_def Let_def DefaultMeshPort_def ex_prefixes validate_route_def route_Prefix_def
      ex_route_def site_path_def ex_path_def path_Validate_def MaxPathHops_def)

lemma site_node_ok: "node_ok site_node"
  using toy_mesh_ok new_kernel_ok site_valid by (simp add: node_ok_def site_node_def router_ok_def site_router_def)

lemma site_frame_ok: "frame_ok site_frame"
  by (simp add: frame_ok_def site_frame_def forward_frame_def site_path_def ex_path_def ex_route_def ex_packet_def MaxPathHops_def)

lemma site_fields: "Hops site_frame = [''b'', ''a'']" "HopIndex site_frame = 1" "Payload site_frame = ex_packet"
  by (simp_all add: site_frame_def forward_frame_def site_path_def)

lemma site_approves: "approves site_router ex_now ''a'' site_frame"
proof -
  have "TransitPath site_config ''p1'' = Some site_path"
    by (simp add: TransitPath_def site_config_def site_path_def ex_path_def)
  moreover have "frame_on_path site_frame site_path"
    by (simp add: frame_on_path_def site_frame_def forward_frame_def site_path_def ex_path_def ex_route_def)
  moreover have "RouteFor site_config 0x0A010005 = Some (ex_route\<lparr>route_OwnerNodeID := ''a''\<rparr>)"
    by (simp add: RouteFor_def site_config_def ex_route_def route_Prefix_def ex_prefixes Masked_def mask_addr_def Contains_def sort_slice_def)
  then have "frame_authorized site_config site_frame site_path"
    unfolding frame_authorized_def site_frame_def forward_frame_def
    by (simp add: owner_side_def overlay_side_def ex_endpoints)
      (simp add: site_config_def ex_config_def ex_prefixes ex_route_def site_path_def ex_path_def Contains_def)
  moreover have "PolicyValid site_config ex_now" using ex_policy by (simp add: PolicyValid_def site_config_def)
  ultimately show ?thesis
    by (simp add: approves_def site_router_def site_frame_def forward_frame_def site_path_def ex_path_def)
qed

text \<open>A datagram of peer \<open>b\<close> with the frame in it.\<close>

definition site_datagram :: "byte list" where
  "site_datagram = toy_sealed packetData (toy_header @ projr (MarshalFrame site_frame))"

lemma toy_time_ex: "toy_time = ex_now"
  by (simp add: toy_time_def ex_now_def)

lemma site_writes:
  "\<exists>rnd nd sent. node_datagram toy_env toy_time toy_time toy_time site_datagram toy_addr [] site_node = (rnd, nd, sent, [WritePacket ex_packet])"
proof -
  obtain raw where raw: "MarshalFrame site_frame = Inr raw" using MarshalFrame_ok [OF site_frame_ok] by blast
  have "raw \<noteq> []" "length raw \<le> 65000"
    using raw by (auto simp: MarshalFrame_def site_frame_def forward_frame_def site_path_def ex_path_def ex_route_def ex_packet_def
        frameMagic_def split: option.splits)
  then have rc: "receive toy_env site_datagram toy_addr toy_time [] toy_mesh =
     ([], toy_mesh\<lparr>mesh_peers := [(''b'', toy_peer\<lparr>recvHigh := 5, recvMask := 1, lastAuth := toy_time\<rparr>)]\<rparr>, [Delivered ''b'' raw])"
    using toy_receive_data [of raw "[]"] by (simp add: site_datagram_def raw)
  have h: "\<exists>r'. HandleMeshData (attempt_view m toy_time) toy_time toy_time ''b'' raw site_router = (None, r', [WriteTun ex_packet])" for m
    unfolding toy_time_ex site_fields(3) [symmetric]
    by (rule HandleMeshData_last [OF site_frame_ok raw]) (simp_all add: site_fields site_approves attempt_view_def mesh_view_def)
  define m where "m = toy_mesh\<lparr>mesh_peers := [(''b'', toy_peer\<lparr>recvHigh := 5, recvMask := 1, lastAuth := toy_time\<rparr>)]\<rparr>"
  obtain r' where "HandleMeshData (attempt_view m toy_time) toy_time toy_time ''b'' raw site_router = (None, r', [WriteTun ex_packet])"
    using h by blast
  then show ?thesis by (simp add: node_datagram_def site_node_def rc [folded m_def] handle_delivered_def)
qed


definition site_start :: boot_env where
  "site_start = \<lparr>be_decode = (\<lambda>_. Some \<lparr>enr_NodeID = ''a'', enr_Name = [], enr_Roles = [], enr_Routing = site_config\<rparr>), be_file = Some [],
     be_now = toy_time, be_policy = (\<lambda>_. (IpOutput (Some []), IpOutput (Some 0))), be_interfaces = Some [''eth0''], be_create = (\<lambda>_. True),
     be_name = Some ''bpcrt0'', be_listen = (\<lambda>_. True), be_shell = all_succeed, be_order = any_order\<rparr>"

lemma site_started: "\<exists>rnd nd. node_start site_start toy_env [] ''bpcrt0'' = Inr (rnd, nd)"
proof -
  have "fst (kernel_reconcile all_succeed any_order b site_config (new_kernel ''a'' ''bpcrt0'') []) = None" for b
    by (cases b; code_simp)
  then obtain k lg where k: "kernel_reconcile all_succeed any_order True site_config (new_kernel ''a'' ''bpcrt0'') [] = (None, k, lg)"
    by (metis prod.collapse)
  have c: "PolicyValid site_config toy_time" "\<not> LocalPublic site_config" "Links site_config = []" "ListenPort site_config = 0" "PolicyExpiresAt site_config > 0"
    by (simp_all add: site_config_def ex_config_def PolicyValid_def toy_time_def unix_of_def)
  have "fresh_policy site_start 1 = None"
    by (simp add: fresh_policy_def site_start_def requireFreshPublicPolicy_def publicPolicyConflicts_def)
  then have "start_kernel site_start ''a'' ''bpcrt0'' site_config = Inr (k, lg)" using k by (simp add: start_kernel_def) (simp add: site_start_def)
  moreover have "fst (runCommand all_succeed [''ip'', ''link'', ''set'', ''dev'', ''bpcrt0'', ''up''] [])" by code_simp
  ultimately show ?thesis
    using c site_valid
    by (simp add: node_start_def LoadEnrollment_def enrollment_Validate_def requireFreshInterface_def start_runtime_def NewMesh_def Reconcile_def
        NewRouter_def site_start_def Let_def)
qed

theorem node_invariant_witness: "\<exists>rnd nd. node_start site_start toy_env [] ''bpcrt0'' = Inr (rnd, nd) \<and> node_ok nd"
proof -
  obtain rnd nd where n: "node_start site_start toy_env [] ''bpcrt0'' = Inr (rnd, nd)" using site_started by blast
  have "node_reachable toy_env nd" by (rule node_reachable.started [OF _ n]) (simp add: site_start_def)
  then show ?thesis using n node_invariant by blast
qed

end
