(* ===== verification/CtlServer.thy ===== *)
theory CtlServer
  imports CtlCheckpoint AgentText
begin

text \<open>The Controller daemon's API: \<^verbatim>\<open>cmd/bpc-controld/main.go\<close> and \<^verbatim>\<open>reconcile.go\<close>, above the Node of \<^verbatim>\<open>CtlNode\<close>. A handler calls the
  Node several times; what Raft, the clock, the files and other Controllers answer at each call is an argument, numbered in the order of the calls. The effects
  on the cluster are kept as a list of events, with their outcomes.\<close>

section \<open>Data\<close>

record controller_record =
  cr_NodeID :: string
  cr_RaftAddress :: string
  cr_APIAddress :: string
  cr_PublicURL :: string
  cr_State :: string
  cr_SoftwareVersion :: string
  cr_ProtocolVersion :: int
  cr_StateSchema :: int
  cr_CertificateSHA256 :: string
  cr_UpdatedAt :: int

record add_member_request =
  am_NodeID :: string
  am_RaftAddress :: string
  am_APIAddress :: string
  am_PublicURL :: string
  am_Voter :: bool
  am_SoftwareVersion :: string
  am_ProtocolVersion :: int
  am_StateSchema :: int
  am_CertificateSHA256 :: string

record restore_request =
  rr_ClusterID :: string
  rr_Snapshot :: "byte list"
  rr_Force :: bool

record remove_member_request =
  rm_NodeID :: string
  rm_Force :: bool

record revision_receipt =
  rc_Signed :: "byte list"
  rc_Signature :: "byte list"

record receipt_snapshot =
  rsn_Version :: int
  rsn_Schema :: int
  rsn_Cluster :: string
  rsn_Revision :: u64
  rsn_Created :: int
  rsn_Expires :: int

definition maxRequestBody :: nat where "maxRequestBody = 16 * 1024 * 1024"
definition ProtocolVersion :: int where "ProtocolVersion = 1"

text \<open>A request as \<^verbatim>\<open>net/http\<close> presents it; the body is none when it cannot be read.\<close>

record http_request =
  hr_Method :: string
  hr_Path :: string
  hr_RemoteAddr :: string
  hr_TLS :: bool
  hr_Authorization :: string
  hr_Body :: "byte list option"

text \<open>The answer of another Controller: status, its certificates and its body; none when there was no answer.\<close>

record peer_answer =
  pa_Status :: int
  pa_Certificates :: "certificate list option"
  pa_Body :: "byte list option"

text \<open>What the health of a Controller says of the last applied entry, when it is a number that is not negative, and of the whole.\<close>

record peer_health =
  ph_last_applied :: "u64 option"
  ph_ok :: bool

record 'b server_env =
  q_node :: "'b ck_env"
  q_view :: "nat \<Rightarrow> raft_view"
  q_apply :: "nat \<Rightarrow> apply_future"
  q_done :: "nat \<Rightarrow> bool"
  q_polls :: "(gotime \<times> raft_view) list"
  q_deadline :: gotime
  q_probes :: "gotime list"
  q_now :: "nat \<Rightarrow> int"
  q_id :: "nat \<Rightarrow> string"
  q_file :: "string \<Rightarrow> byte list option"
  q_http :: "nat \<Rightarrow> string \<Rightarrow> string \<Rightarrow> string \<Rightarrow> byte list \<Rightarrow> peer_answer option"
  q_snapshots :: "(snapshot_meta \<times> byte list) option list option"
  q_root :: string
  q_tls :: tls_material
  q_ca :: "byte list option"
  q_ToLower :: "string \<Rightarrow> string"
  q_ParseIP :: "string \<Rightarrow> byte list option"
  q_verify :: "byte list \<Rightarrow> byte list \<Rightarrow> byte list \<Rightarrow> bool"
  q_record :: "byte list \<Rightarrow> controller_record option"
  q_record_onto :: "controller_record \<Rightarrow> byte list \<Rightarrow> controller_record"
  q_encode_record :: "controller_record \<Rightarrow> byte list"
  q_encode_revocation :: "string \<Rightarrow> int \<Rightarrow> byte list"
  q_add :: "byte list \<Rightarrow> add_member_request option"
  q_remove :: "byte list \<Rightarrow> remove_member_request option"
  q_restore :: "byte list \<Rightarrow> restore_request option"
  q_result :: "byte list \<Rightarrow> (u64 \<times> bool) option"
  q_barrier :: "byte list \<Rightarrow> (u64 \<times> u64) option"
  q_health :: "byte list \<Rightarrow> peer_health option"
  q_index :: "byte list \<Rightarrow> u64 option"
  q_encode_index :: "u64 \<Rightarrow> byte list"
  q_recovery :: "byte list \<Rightarrow> recovery_state option"
  q_receipts :: "byte list \<Rightarrow> (string \<times> revision_receipt) list option"
  q_snapshot_of :: "byte list \<Rightarrow> receipt_snapshot option"

abbreviation q_env :: "'b server_env \<Rightarrow> 'b node_env" where
  "q_env q \<equiv> ck_node (q_node q)"

datatype api_error =
    ApiNode node_error | ApiCheckpoint checkpoint_error | InvalidRequestBody | InvalidMutation | LocalReconciliationOnly | LocalAuthRequired
  | NoLeader | LeaderRecordUnavailable | LeaderRecordUnusable | ForwardFailed | InvalidLeaderResponse | LegacyUnconfirmed | InvalidLegacyBarrier | StillWaiting
  | MemberFieldsRequired | Incompatible | PublicURLNotHttps | FingerprintRequired | FingerprintInvalid
  | PrepareFailed | ActivationFailed | NotCaughtUp u64 u64 | PromotionFailed | NodeIDRequired | RemoveLeader | RevocationFailed
  | LeaderOnly | LocalOnly | SnapshotRequired | ClusterUnreadable | ClusterMissing | IdentityConflict | ForceRequired
  | RecoveryRecord | RecoveryMember | RecoveryUnreachable | RecoveryStatus int | RecoveryIdentity | RecoveryBody | RecoveryUnsupported
  | UntrustedReceipt | InvalidReceipt | StateDiffers | ReceiptCount | BadCA | ReceiptMissing string | ConfirmationFailed | ChangedMeanwhile
  | NotFound | MethodNotAllowed

datatype api_body =
    ErrorBody api_error
  | PendingError api_error u64
  | RawBody "byte list"
  | ResultBody u64 mutation_result
  | BarrierBody u64 u64
  | MemberBody u64 string
  | RevisionBody u64
  | OkBody
  | HealthBody bool node_status
  | StatusBody string node_status "(string \<times> bool) list"
  | CheckpointBody replay_checkpoint
  | RecoveryStateBody recovery_state

type_synonym reply = "int \<times> api_body"

datatype server_event =
    Submitted mutation "node_error + u64 \<times> mutation_result"
  | AddedToRaft raft_server
  | RemovedFromRaft string
  | CaughtUp string u64
  | RestoredSnapshot snapshot_meta "byte list"
  | Reconciled u64 "node_error + u64 \<times> mutation_result"

section \<open>Requests and files\<close>

definition readBody :: "http_request \<Rightarrow> byte list option" where
  "readBody r =
     (case hr_Body r of None \<Rightarrow> None | Some raw \<Rightarrow> if raw = [] \<or> maxRequestBody < length raw then None else Some raw)"

definition IsLoopback :: "byte list \<Rightarrow> bool" where
  "IsLoopback ip = (case To4 ip of Some v4 \<Rightarrow> hd v4 = 127 | None \<Rightarrow> ip = replicate 15 0 @ [1])"

definition isLoopbackRequest :: "'b server_env \<Rightarrow> http_request \<Rightarrow> bool" where
  "isLoopbackRequest q r =
     (case SplitHostPort (hr_RemoteAddr r) of
        None \<Rightarrow> False
      | Some (host, _) \<Rightarrow> (case q_ParseIP q host of None \<Rightarrow> False | Some ip \<Rightarrow> IsLoopback ip))"

definition readClusterID :: "'b server_env \<Rightarrow> api_error + string" where
  "readClusterID q =
     (case q_file q (path_Join (q_root q) ''cluster/cluster.json'') of
        None \<Rightarrow> Inl ClusterUnreadable
      | Some raw \<Rightarrow>
          (case ne_cluster_id (q_env q) raw of
             None \<Rightarrow> Inl ClusterUnreadable
           | Some cid \<Rightarrow> if trim_space cid = [] then Inl ClusterMissing else Inr (trim_space cid)))"

definition readLocalToken :: "string option \<Rightarrow> string option" where
  "readLocalToken file' =
     (case file' of
        None \<Rightarrow> None
      | Some raw \<Rightarrow> let token = trim_space raw in if length token \<noteq> 64 \<or> hex_decode token = None then None else Some token)"

definition localAuth :: "string \<Rightarrow> http_request \<Rightarrow> bool" where
  "localAuth token r \<longleftrightarrow> trim_space (trim_prefix (hr_Authorization r) ''Bearer '') = token"

definition record_of :: "'b server_env \<Rightarrow> string \<Rightarrow> controller_record option" where
  "record_of q nodeID = Option.bind (q_file q (path_Join (q_root q) (controller_path nodeID))) (q_record q)"

section \<open>Other Controllers\<close>

definition leaderAPI :: "'b server_env \<Rightarrow> api_error + string" where
  "leaderAPI q =
     (let leaderID = fst (Leader (q_view q 0))
      in if leaderID = [] then Inl NoLeader
         else case record_of q leaderID of
                None \<Rightarrow> Inl LeaderRecordUnavailable
              | Some r \<Rightarrow> if cr_State r = ''revoked'' \<or> cr_APIAddress r = [] then Inl LeaderRecordUnusable else Inr (cr_APIAddress r))"

definition forwardBytes :: "'b server_env \<Rightarrow> nat \<Rightarrow> string \<Rightarrow> string \<Rightarrow> byte list \<Rightarrow> api_error + byte list \<times> int" where
  "forwardBytes q i meth path body =
     (case leaderAPI q of
        Inl e \<Rightarrow> Inl e
      | Inr address \<Rightarrow>
          (case SplitHostPort address of
             None \<Rightarrow> Inl ForwardFailed
           | Some _ \<Rightarrow>
               (case q_http q i meth address path body of
                  None \<Rightarrow> Inl ForwardFailed
                | Some a \<Rightarrow>
                    (case pa_Body a of None \<Rightarrow> Inl ForwardFailed | Some raw \<Rightarrow> Inr (take maxRequestBody raw, pa_Status a)))))"

definition forward :: "'b server_env \<Rightarrow> string \<Rightarrow> string \<Rightarrow> byte list \<Rightarrow> reply" where
  "forward q meth path body =
     (case forwardBytes q 0 meth path body of Inl e \<Rightarrow> (503, ErrorBody e) | Inr (raw, status) \<Rightarrow> (status, RawBody raw))"

definition probeController :: "'b server_env \<Rightarrow> nat \<Rightarrow> controller_record \<Rightarrow> peer_health option" where
  "probeController q i r =
     (case SplitHostPort (cr_APIAddress r) of
        None \<Rightarrow> None
      | Some _ \<Rightarrow>
          (case q_http q i ''GET'' (cr_APIAddress r) ''/v1/health'' [] of
             None \<Rightarrow> None
           | Some a \<Rightarrow> if pa_Status a \<noteq> 200 then None else Option.bind (pa_Body a) (\<lambda>raw. q_health q (take (64 * 1024) raw))))"

definition member_health :: "'b server_env \<Rightarrow> node_status \<Rightarrow> nat \<Rightarrow> raft_server \<Rightarrow> bool" where
  "member_health q st i m =
     (if rs_ID m = ns_NodeID st then ns_RevisionFloor st \<le> ns_Revision st
      else case record_of q (rs_ID m) of
             None \<Rightarrow> False
           | Some r \<Rightarrow> if cr_State r = ''revoked'' then False else case probeController q i r of None \<Rightarrow> False | Some h \<Rightarrow> ph_ok h)"

definition controllerHealth :: "'b server_env \<Rightarrow> node_status \<Rightarrow> (string \<times> bool) list" where
  "controllerHealth q st =
     fold (\<lambda>(i, m) acc. AList.update (rs_ID m) (member_health q st i m) acc) (enumerate 0 (ns_Members st)) []"

text \<open>Waiting for another Controller: the clock at each turn; still waiting when the list is used up.\<close>

fun wait_controller :: "'b server_env \<Rightarrow> controller_record \<Rightarrow> u64 \<Rightarrow> u64 \<Rightarrow> nat \<Rightarrow> gotime list \<Rightarrow> api_error option" where
  "wait_controller q r target seen i [] = Some StillWaiting"
| "wait_controller q r target seen i (now # nows) =
     (if \<not> time_before now (q_deadline q) then Some (NotCaughtUp seen target)
      else case probeController q i r of
             None \<Rightarrow> wait_controller q r target seen (Suc i) nows
           | Some h \<Rightarrow>
               let seen = (case ph_last_applied h of Some v \<Rightarrow> v | None \<Rightarrow> seen)
               in if target \<le> seen then None else wait_controller q r target seen (Suc i) nows)"

definition waitControllerApplied :: "'b server_env \<Rightarrow> controller_record \<Rightarrow> u64 \<Rightarrow> api_error option" where
  "waitControllerApplied q r target = wait_controller q r target 0 0 (q_probes q)"

section \<open>Reading\<close>

definition serve_health :: "'b server_env \<Rightarrow> 'b node \<Rightarrow> reply" where
  "serve_health q n =
     (case node_Status (q_env q) (q_view q 0) n of
        (Some e, _) \<Rightarrow> (503, ErrorBody (ApiNode e))
      | (None, st) \<Rightarrow> (200, HealthBody (ns_RevisionFloor st \<le> ns_Revision st) st))"

definition serve_status :: "'b server_env \<Rightarrow> 'b node \<Rightarrow> reply" where
  "serve_status q n =
     (case node_Status (q_env q) (q_view q 0) n of
        (Some e, _) \<Rightarrow> (503, ErrorBody (ApiNode e))
      | (None, st) \<Rightarrow>
          let clusterID = (case Option.bind (q_file q (path_Join (q_root q) ''cluster/cluster.json'')) (ne_cluster_id (q_env q)) of Some c \<Rightarrow> c | None \<Rightarrow> [])
          in (200, StatusBody clusterID st (controllerHealth q st)))"

definition serve_checkpoint :: "'b server_env \<Rightarrow> 'b node \<Rightarrow> reply \<times> 'b node" where
  "serve_checkpoint q n =
     (if \<not> IsLeader (q_view q 0) then ((409, ErrorBody LeaderOnly), n)
      else case ExportReplayCheckpoint (q_node q) (q_view q 1) (q_view q 2) (q_done q 0) (q_snapshots q) (q_view q 3) n of
             (Inl e, n) \<Rightarrow> ((503, ErrorBody (ApiCheckpoint e)), n)
           | (Inr ck, n) \<Rightarrow> ((200, CheckpointBody ck), n))"

definition serve_export :: "'b server_env \<Rightarrow> http_request \<Rightarrow> 'b node \<Rightarrow> reply \<times> 'b node" where
  "serve_export q r n =
     (if \<not> IsLeader (q_view q 0) then (forward q (hr_Method r) (hr_Path r) [], n)
      else case StrongRead (q_env q) (q_view q 1) (q_view q 2) n of
             (Inl e, n) \<Rightarrow> ((503, ErrorBody (ApiNode e)), n)
           | (Inr _, n) \<Rightarrow>
               (case node_ExportSnapshot (q_env q) n of
                  Inl e \<Rightarrow> ((500, ErrorBody (ApiNode e)), n)
                | Inr raw \<Rightarrow> ((200, RawBody raw), n)))"

text \<open>Waiting until the entry is applied here.\<close>

definition wait_local :: "'b server_env \<Rightarrow> u64 \<Rightarrow> 'b node \<Rightarrow> api_error option \<times> 'b node" where
  "wait_local q index n =
     (case WaitApplied (q_env q) index (q_deadline q) (q_polls q) n of
        (None, n) \<Rightarrow> (Some StillWaiting, n)
      | (Some None, n) \<Rightarrow> (None, n)
      | (Some (Some e), n) \<Rightarrow> (Some (ApiNode e), n))"

definition serve_barrier :: "'b server_env \<Rightarrow> http_request \<Rightarrow> 'b node \<Rightarrow> reply \<times> 'b node" where
  "serve_barrier q r n =
     (if \<not> IsLeader (q_view q 0)
      then (case forwardBytes q 0 (hr_Method r) (hr_Path r) [] of
              Inl e \<Rightarrow> ((503, ErrorBody e), n)
            | Inr (raw, status) \<Rightarrow>
                if status \<noteq> 200 then ((status, RawBody raw), n)
                else case q_barrier q raw of
                       None \<Rightarrow> ((502, ErrorBody InvalidLeaderResponse), n)
                     | Some (index, revision) \<Rightarrow>
                         (case wait_local q index n of
                            (Some e, n) \<Rightarrow> ((503, ErrorBody e), n)
                          | (None, n) \<Rightarrow> ((200, BarrierBody index revision), n)))
      else case StrongRead (q_env q) (q_view q 1) (q_view q 2) n of
             (Inl e, n) \<Rightarrow> ((503, ErrorBody (ApiNode e)), n)
           | (Inr (index, revision), n) \<Rightarrow> ((200, BarrierBody index revision), n))"

section \<open>Mutations\<close>

text \<open>The index to wait for: the one of the answer or, when an older leader does not tell it, the one of a barrier after it.\<close>

definition confirm_index :: "'b server_env \<Rightarrow> byte list \<Rightarrow> (int \<times> api_error) + u64" where
  "confirm_index q raw =
     (case q_result q raw of
        None \<Rightarrow> Inl (502, InvalidLeaderResponse)
      | Some (index, ok) \<Rightarrow>
          if \<not> ok then Inl (502, InvalidLeaderResponse)
          else if index \<noteq> 0 then Inr index
          else case forwardBytes q 1 ''POST'' ''/v1/barrier'' [] of
                 Inl _ \<Rightarrow> Inl (503, LegacyUnconfirmed)
               | Inr (barrier, status) \<Rightarrow>
                   if status \<noteq> 200 then Inl (503, LegacyUnconfirmed)
                   else case q_barrier q barrier of
                          None \<Rightarrow> Inl (502, InvalidLegacyBarrier)
                        | Some (index, _) \<Rightarrow> if index = 0 then Inl (502, InvalidLegacyBarrier) else Inr index)"

definition follow_mutation :: "'b server_env \<Rightarrow> http_request \<Rightarrow> byte list \<Rightarrow> 'b node \<Rightarrow> reply \<times> 'b node" where
  "follow_mutation q r raw n =
     (case forwardBytes q 0 (hr_Method r) (hr_Path r) raw of
        Inl e \<Rightarrow> ((503, ErrorBody e), n)
      | Inr (response, status) \<Rightarrow>
          if status \<noteq> 200 then ((status, RawBody response), n)
          else case confirm_index q response of
                 Inl (code, e) \<Rightarrow> ((code, ErrorBody e), n)
               | Inr index \<Rightarrow>
                   (case wait_local q index n of
                      (Some e, n) \<Rightarrow> ((503, ErrorBody e), n)
                    | (None, n) \<Rightarrow> ((200, RawBody response), n)))"

definition serve_mutate :: "'b server_env \<Rightarrow> http_request \<Rightarrow> 'b node \<Rightarrow> reply \<times> 'b node \<times> server_event list" where
  "serve_mutate q r n =
     (case readBody r of
        None \<Rightarrow> ((400, ErrorBody InvalidRequestBody), n, [])
      | Some raw \<Rightarrow>
          (case ce_mutation (ne_ctl (q_env q)) raw of
             None \<Rightarrow> ((400, ErrorBody InvalidMutation), n, [])
           | Some command \<Rightarrow>
               if mut_Kind command = ''ReconcileRevision'' \<or> mut_RevisionMinimum command \<noteq> 0 then ((403, ErrorBody LocalReconciliationOnly), n, [])
               else if \<not> IsLeader (q_view q 0) then (case follow_mutation q r raw n of (rep, n) \<Rightarrow> (rep, n, []))
               else case Submit (q_env q) (q_view q 1) (q_apply q 0) command n of
                      (Inl e, n) \<Rightarrow> ((503, ErrorBody (ApiNode e)), n, [Submitted command (Inl e)])
                    | (Inr (index, res), n) \<Rightarrow>
                        ((if res_Conflict res then 409 else if \<not> res_OK res then 500 else 200, ResultBody index res), n,
                         [Submitted command (Inr (index, res))])))"

section \<open>Members\<close>

definition put_operation :: "string \<Rightarrow> byte list \<Rightarrow> operation" where
  "put_operation path data =
     \<lparr>op_Op = ''put'', op_Path = path, op_Data = data, op_IfAbsent = False, op_RequirePresent = False, op_ExpectedSHA256 = []\<rparr>"

definition member_mutation :: "'b server_env \<Rightarrow> nat \<Rightarrow> string \<Rightarrow> controller_record \<Rightarrow> mutation" where
  "member_mutation q i kind r =
     \<lparr>mut_Version = CommandVersion, mut_ID = q_id q i, mut_Kind = kind, mut_IssuedAt = cr_UpdatedAt r,
      mut_Operations = [put_operation (controller_path (cr_NodeID r)) (q_encode_record q r)], mut_RevisionMinimum = 0\<rparr>"

text \<open>Writing the record of a member: the revision when it was committed.\<close>

definition commit_record :: "'b server_env \<Rightarrow> nat \<Rightarrow> string \<Rightarrow> controller_record \<Rightarrow> 'b node \<Rightarrow> u64 option \<times> 'b node \<times> server_event list" where
  "commit_record q i kind r n =
     (let command = member_mutation q i kind r
      in case Submit (q_env q) (q_view q (10 + i)) (q_apply q i) command n of
           (Inl e, n) \<Rightarrow> (None, n, [Submitted command (Inl e)])
         | (Inr (index, res), n) \<Rightarrow> (if res_OK res then Some (res_Revision res) else None, n, [Submitted command (Inr (index, res))]))"

definition join_raft :: "'b server_env \<Rightarrow> nat \<Rightarrow> controller_record \<Rightarrow> bool \<Rightarrow> 'b node \<Rightarrow> node_error option \<times> 'b node \<times> server_event list" where
  "join_raft q i r voter n =
     (case AddMember (q_env q) (q_view q (20 + i)) (q_done q i) (cr_NodeID r) (cr_RaftAddress r) voter n of
        Inl e \<Rightarrow> (Some e, node_advance (q_env q) (q_view q (20 + i)) n, [])
      | Inr m \<Rightarrow> (None, node_advance (q_env q) (q_view q (20 + i)) n, [AddedToRaft m]))"

definition check_add_request :: "'b server_env \<Rightarrow> add_member_request \<Rightarrow> (int \<times> api_error) + controller_record" where
  "check_add_request q req =
     (if am_NodeID req = [] \<or> am_RaftAddress req = [] \<or> am_APIAddress req = [] then Inl (400, MemberFieldsRequired)
      else if am_ProtocolVersion req \<noteq> ProtocolVersion \<or> am_StateSchema req \<noteq> uint ControlSchemaVersion then Inl (409, Incompatible)
      else let url = trim_right_char CHR ''/'' (trim_space (am_PublicURL req)); fingerprint = q_ToLower q (trim_space (am_CertificateSHA256 req))
           in if \<not> has_prefix url ''https://'' then Inl (400, PublicURLNotHttps)
              else if length fingerprint \<noteq> 64 then Inl (400, FingerprintRequired)
              else if hex_decode fingerprint = None then Inl (400, FingerprintInvalid)
              else Inr \<lparr>cr_NodeID = am_NodeID req, cr_RaftAddress = am_RaftAddress req, cr_APIAddress = am_APIAddress req, cr_PublicURL = url,
                        cr_State = ''pending'', cr_SoftwareVersion = am_SoftwareVersion req, cr_ProtocolVersion = am_ProtocolVersion req,
                        cr_StateSchema = am_StateSchema req, cr_CertificateSHA256 = fingerprint, cr_UpdatedAt = q_now q 0\<rparr>)"

text \<open>From non-voter to voter: first the other Controller has to have applied what is committed here.\<close>

definition promote_member :: "'b server_env \<Rightarrow> controller_record \<Rightarrow> u64 \<Rightarrow> 'b node \<Rightarrow> reply \<times> 'b node \<times> server_event list" where
  "promote_member q r revision n =
     (case node_Status (q_env q) (q_view q 2) n of
        (Some e, _) \<Rightarrow> ((503, PendingError (ApiNode e) revision), n, [])
      | (None, st) \<Rightarrow>
          (case waitControllerApplied q r (ns_CommitIndex st) of
             Some e \<Rightarrow> ((503, PendingError e revision), n, [])
           | None \<Rightarrow>
               let caught = CaughtUp (cr_NodeID r) (ns_CommitIndex st)
               in case join_raft q 1 r True n of
                    (Some e, n, evs) \<Rightarrow> ((503, PendingError (ApiNode e) revision), n, caught # evs)
                  | (None, n, evs) \<Rightarrow>
                      (case commit_record q 2 ''PromoteControllerVoter'' (r\<lparr>cr_State := ''voter'', cr_UpdatedAt := q_now q 2\<rparr>) n of
                         (None, n, evs') \<Rightarrow> ((503, PendingError PromotionFailed revision), n, caught # evs @ evs')
                       | (Some revision', n, evs') \<Rightarrow> ((200, MemberBody revision' ''voter''), n, caught # evs @ evs'))))"

definition admit_member :: "'b server_env \<Rightarrow> bool \<Rightarrow> controller_record \<Rightarrow> 'b node \<Rightarrow> reply \<times> 'b node \<times> server_event list" where
  "admit_member q voter r n =
     (case commit_record q 0 ''PrepareController'' r n of
        (None, n, evs) \<Rightarrow> ((503, ErrorBody PrepareFailed), n, evs)
      | (Some pending, n, evs) \<Rightarrow>
          (case join_raft q 0 r False n of
             (Some e, n, evs1) \<Rightarrow> ((503, PendingError (ApiNode e) pending), n, evs @ evs1)
           | (None, n, evs1) \<Rightarrow>
               let r = r\<lparr>cr_State := ''nonvoter'', cr_UpdatedAt := q_now q 1\<rparr>
               in case commit_record q 1 ''ActivateControllerNonvoter'' r n of
                    (None, n, evs2) \<Rightarrow> ((503, PendingError ActivationFailed pending), n, evs @ evs1 @ evs2)
                  | (Some revision, n, evs2) \<Rightarrow>
                      if \<not> voter then ((200, MemberBody revision ''nonvoter''), n, evs @ evs1 @ evs2)
                      else case promote_member q r revision n of (rep, n, evs3) \<Rightarrow> (rep, n, evs @ evs1 @ evs2 @ evs3)))"

definition serve_addMember :: "'b server_env \<Rightarrow> http_request \<Rightarrow> 'b node \<Rightarrow> reply \<times> 'b node \<times> server_event list" where
  "serve_addMember q r n =
     (case readBody r of
        None \<Rightarrow> ((400, ErrorBody InvalidRequestBody), n, [])
      | Some raw \<Rightarrow>
          if \<not> IsLeader (q_view q 0) then (forward q (hr_Method r) (hr_Path r) raw, n, [])
          else case q_add q raw of
                 None \<Rightarrow> ((400, ErrorBody MemberFieldsRequired), n, [])
               | Some req \<Rightarrow>
                   (case check_add_request q req of
                      Inl (code, e) \<Rightarrow> ((code, ErrorBody e), n, [])
                    | Inr record' \<Rightarrow> admit_member q (am_Voter req) record' n))"

definition revoked_record :: "'b server_env \<Rightarrow> string \<Rightarrow> controller_record" where
  "revoked_record q nodeID =
     (let r = \<lparr>cr_NodeID = nodeID, cr_RaftAddress = [], cr_APIAddress = [], cr_PublicURL = [], cr_State = ''revoked'', cr_SoftwareVersion = [],
               cr_ProtocolVersion = ProtocolVersion, cr_StateSchema = uint ControlSchemaVersion, cr_CertificateSHA256 = [], cr_UpdatedAt = q_now q 0\<rparr>;
          r = (case q_file q (path_Join (q_root q) (controller_path nodeID)) of None \<Rightarrow> r | Some raw \<Rightarrow> q_record_onto q r raw)
      in r\<lparr>cr_State := ''revoked'', cr_UpdatedAt := q_now q 1\<rparr>)"

definition revocation_mutation :: "'b server_env \<Rightarrow> string \<Rightarrow> mutation" where
  "revocation_mutation q nodeID =
     \<lparr>mut_Version = CommandVersion, mut_ID = q_id q 0, mut_Kind = ''RevokeController'', mut_IssuedAt = q_now q 1,
      mut_Operations = [put_operation (controller_path nodeID) (q_encode_record q (revoked_record q nodeID)),
                        put_operation (''control/revocations/controller-'' @ nodeID @ ''.json'') (q_encode_revocation q nodeID (q_now q 1))],
      mut_RevisionMinimum = 0\<rparr>"

definition expel_member :: "'b server_env \<Rightarrow> remove_member_request \<Rightarrow> 'b node \<Rightarrow> reply \<times> 'b node \<times> server_event list" where
  "expel_member q req n =
     (case node_Status (q_env q) (q_view q 1) n of
        (Some e, _) \<Rightarrow> ((503, ErrorBody (ApiNode e)), n, [])
      | (None, st) \<Rightarrow>
          if rm_NodeID req = ns_NodeID st then ((409, ErrorBody RemoveLeader), n, [])
          else case RemoveMember (q_env q) (q_view q 2) (q_done q 0) (rm_NodeID req) (rm_Force req) n of
                 Inl e \<Rightarrow> ((409, ErrorBody (ApiNode e)), node_advance (q_env q) (q_view q 2) n, [])
               | Inr sid \<Rightarrow>
                   let command = revocation_mutation q (rm_NodeID req)
                   in case Submit (q_env q) (q_view q 3) (q_apply q 0) command (node_advance (q_env q) (q_view q 2) n) of
                        (Inl e, n) \<Rightarrow> ((503, ErrorBody RevocationFailed), n, [RemovedFromRaft sid, Submitted command (Inl e)])
                      | (Inr (index, res), n) \<Rightarrow>
                          (if res_OK res then (200, RevisionBody (res_Revision res)) else (503, ErrorBody RevocationFailed), n,
                           [RemovedFromRaft sid, Submitted command (Inr (index, res))]))"

definition serve_removeMember :: "'b server_env \<Rightarrow> http_request \<Rightarrow> 'b node \<Rightarrow> reply \<times> 'b node \<times> server_event list" where
  "serve_removeMember q r n =
     (case readBody r of
        None \<Rightarrow> ((400, ErrorBody InvalidRequestBody), n, [])
      | Some raw \<Rightarrow>
          if \<not> IsLeader (q_view q 0) then (forward q (hr_Method r) (hr_Path r) raw, n, [])
          else case q_remove q raw of
                 None \<Rightarrow> ((400, ErrorBody NodeIDRequired), n, [])
               | Some req \<Rightarrow> if rm_NodeID req = [] then ((400, ErrorBody NodeIDRequired), n, []) else expel_member q req n)"

section \<open>Snapshots\<close>

definition serve_snapshot :: "'b server_env \<Rightarrow> http_request \<Rightarrow> 'b node \<Rightarrow> reply" where
  "serve_snapshot q r n =
     (if \<not> IsLeader (q_view q 0) then forward q (hr_Method r) (hr_Path r) []
      else case node_Snapshot (q_env q) (q_done q 0) n of Some e \<Rightarrow> (503, ErrorBody (ApiNode e)) | None \<Rightarrow> (200, OkBody))"

text \<open>What is handed to Raft is an event; \<open>q_done\<close> says whether Raft took it, and \<open>restored\<close> is the Node afterwards.\<close>

definition restore_checked :: "'b server_env \<Rightarrow> 'b node \<Rightarrow> restore_request \<Rightarrow> 'b node \<Rightarrow> reply \<times> 'b node \<times> server_event list" where
  "restore_checked q restored req n =
     (case SnapshotClusterID (q_env q) (rr_Snapshot req) of
        Inl e \<Rightarrow> ((400, ErrorBody (ApiNode e)), n, [])
      | Inr snapshotCluster \<Rightarrow>
          (case readClusterID q of
             Inl e \<Rightarrow> ((500, ErrorBody e), n, [])
           | Inr currentCluster \<Rightarrow>
               if rr_ClusterID req \<noteq> currentCluster \<or> snapshotCluster \<noteq> currentCluster then ((409, ErrorBody IdentityConflict), n, [])
               else case node_Status (q_env q) (q_view q 1) n of
                      (Some e, _) \<Rightarrow> ((503, ErrorBody (ApiNode e)), n, [])
                    | (None, st) \<Rightarrow>
                        if 1 < ns_Voters st \<and> \<not> rr_Force req then ((409, ErrorBody ForceRequired), n, [])
                        else case RestoreSnapshot (q_env q) (q_view q 2) (rr_Snapshot req) of
                               Inl e \<Rightarrow> ((503, ErrorBody (ApiNode e)), n, [])
                             | Inr (meta, raw) \<Rightarrow>
                                 (if q_done q 0 then (200, RevisionBody (fsm_Revision (ne_ctl (q_env q)) (nd_fsm restored)))
                                  else (503, ErrorBody (ApiNode SnapshotFailed)), restored, [RestoredSnapshot meta raw])))"

definition serve_restore :: "'b server_env \<Rightarrow> 'b node \<Rightarrow> http_request \<Rightarrow> 'b node \<Rightarrow> reply \<times> 'b node \<times> server_event list" where
  "serve_restore q restored r n =
     (if \<not> isLoopbackRequest q r then ((403, ErrorBody LocalOnly), n, [])
      else if \<not> IsLeader (q_view q 0) then ((409, ErrorBody LeaderOnly), n, [])
      else case readBody r of
             None \<Rightarrow> ((400, ErrorBody InvalidRequestBody), n, [])
           | Some raw \<Rightarrow>
               (case q_restore q raw of
                  None \<Rightarrow> ((400, ErrorBody SnapshotRequired), n, [])
                | Some req \<Rightarrow> if rr_Snapshot req = [] then ((400, ErrorBody SnapshotRequired), n, []) else restore_checked q restored req n))"

section \<open>Reconciling revisions\<close>

definition serve_recovery :: "'b server_env \<Rightarrow> http_request \<Rightarrow> 'b node \<Rightarrow> reply \<times> 'b node" where
  "serve_recovery q r n =
     (case readBody r of
        None \<Rightarrow> ((400, ErrorBody InvalidRequestBody), n)
      | Some raw \<Rightarrow>
          (case q_index q raw of
             None \<Rightarrow> ((400, ErrorBody RecoveryBody), n)
           | Some index \<Rightarrow>
               (case (if index = 0 then map_prod Some (\<lambda>n. n) (leader_state (q_env q) (q_view q 0) (q_view q 1) n)
                      else member_state (q_env q) index (q_deadline q) (q_polls q) n) of
                  (None, n) \<Rightarrow> ((503, ErrorBody StillWaiting), n)
                | (Some (Inl e), n) \<Rightarrow> ((503, ErrorBody (ApiNode e)), n)
                | (Some (Inr view), n) \<Rightarrow> ((200, RecoveryStateBody view), n))))"

definition check_recovery :: "'b server_env \<Rightarrow> string \<Rightarrow> u64 \<Rightarrow> peer_answer \<Rightarrow> api_error + recovery_state" where
  "check_recovery q member index a =
     (if pa_Status a \<noteq> 200 then Inl (RecoveryStatus (pa_Status a))
      else case pa_Certificates a of
             Some (cert # _) \<Rightarrow>
               if ct_CommonName cert \<noteq> member then Inl RecoveryIdentity
               else (case Option.bind (pa_Body a) (\<lambda>raw. q_recovery q (take (64 * 1024) raw)) of
                       None \<Rightarrow> Inl RecoveryBody
                     | Some view \<Rightarrow>
                         if ry_Version view \<noteq> RevisionRecoveryVersion \<or> ry_NodeID view \<noteq> member \<or> ry_Index view \<noteq> index
                         then Inl RecoveryUnsupported else Inr view)
           | _ \<Rightarrow> Inl RecoveryIdentity)"

definition peerRecovery :: "'b server_env \<Rightarrow> nat \<Rightarrow> raft_server \<Rightarrow> u64 \<Rightarrow> api_error + recovery_state" where
  "peerRecovery q i m index =
     (case record_of q (rs_ID m) of
        None \<Rightarrow> Inl RecoveryRecord
      | Some r \<Rightarrow>
          if cr_NodeID r \<noteq> rs_ID m \<or> cr_RaftAddress r \<noteq> rs_Address m \<or> cr_State r = ''revoked'' then Inl RecoveryMember
          else case SplitHostPort (cr_APIAddress r) of
                 None \<Rightarrow> Inl RecoveryMember
               | Some _ \<Rightarrow>
                   (case q_http q i ''POST'' (cr_APIAddress r) ''/v1/recovery-state'' (q_encode_index q index) of
                      None \<Rightarrow> Inl RecoveryUnreachable
                    | Some a \<Rightarrow> check_recovery q (rs_ID m) index a))"

definition receipt_domain :: "byte list" where
  "receipt_domain = bytes_of (''bpc-gateway-security-snapshot-v1'' @ [CHR 0x0A])"

definition receiptRevision :: "'b server_env \<Rightarrow> byte list \<Rightarrow> int \<Rightarrow> revision_receipt \<Rightarrow> api_error + u64" where
  "receiptRevision q key now receipt =
     (if take (length receipt_domain) (rc_Signed receipt) \<noteq> receipt_domain \<or> \<not> q_verify q key (rc_Signed receipt) (rc_Signature receipt)
      then Inl UntrustedReceipt
      else case q_snapshot_of q (drop (length receipt_domain) (rc_Signed receipt)) of
             None \<Rightarrow> Inl InvalidReceipt
           | Some s \<Rightarrow>
               if rsn_Version s \<noteq> 1 \<or> rsn_Schema s \<noteq> 1 \<or> rsn_Cluster s \<noteq> tm_ClusterID (q_tls q) \<or> rsn_Created s \<le> 0 \<or> rsn_Expires s \<le> rsn_Created s
                  \<or> 3600 < rsn_Expires s - rsn_Created s \<or> now + 300 < rsn_Created s \<or> rsn_Revision s = - 1
               then Inl InvalidReceipt else Inr (rsn_Revision s))"

text \<open>The revisions of the other members before, which have to have the same state and configuration; \<open>i\<close> numbers the exchanges.\<close>

fun peers_minimum :: "'b server_env \<Rightarrow> recovery_state \<Rightarrow> string \<Rightarrow> nat \<Rightarrow> raft_server list \<Rightarrow> u64 \<Rightarrow> api_error + u64" where
  "peers_minimum q view me i [] minimum = Inr minimum"
| "peers_minimum q view me i (m # ms) minimum =
     (if rs_ID m = me then peers_minimum q view me (Suc i) ms minimum
      else case peerRecovery q i m (ry_Index view) of
             Inl e \<Rightarrow> Inl e
           | Inr peer \<Rightarrow>
               if ry_Digest peer \<noteq> ry_Digest view \<or> ry_ConfigurationIndex peer \<noteq> ry_ConfigurationIndex view then Inl StateDiffers
               else peers_minimum q view me (Suc i) ms (max minimum (max (ry_Revision peer) (ry_Floor peer))))"

fun receipts_minimum :: "'b server_env \<Rightarrow> nat \<Rightarrow> byte list \<Rightarrow> (string \<times> revision_receipt) list \<Rightarrow> string list \<Rightarrow> u64 \<Rightarrow> api_error + u64" where
  "receipts_minimum q i key receipts [] minimum = Inr minimum"
| "receipts_minimum q i key receipts (g # gs) minimum =
     (case map_of receipts g of
        None \<Rightarrow> Inl (ReceiptMissing g)
      | Some receipt \<Rightarrow>
          (case receiptRevision q key (q_now q i) receipt of
             Inl e \<Rightarrow> Inl e
           | Inr revision \<Rightarrow> receipts_minimum q (Suc i) key receipts gs (max minimum revision)))"

definition gateways_minimum :: "'b server_env \<Rightarrow> (string \<times> revision_receipt) list \<Rightarrow> u64 \<Rightarrow> 'b node \<Rightarrow> api_error + u64" where
  "gateways_minimum q receipts minimum n =
     (case RecoveryGateways (q_env q) n of
        Inl e \<Rightarrow> Inl (ApiNode e)
      | Inr gateways \<Rightarrow>
          if length receipts \<noteq> length gateways then Inl ReceiptCount
          else if gateways = [] then Inr minimum
          else case q_ca q of None \<Rightarrow> Inl BadCA | Some key \<Rightarrow> receipts_minimum q 0 key receipts gateways minimum)"

text \<open>And after: every other member has the revision and the same state.\<close>

fun peers_confirm :: "'b server_env \<Rightarrow> recovery_state \<Rightarrow> string \<Rightarrow> u64 \<Rightarrow> u64 \<Rightarrow> nat \<Rightarrow> raft_server list \<Rightarrow> api_error option" where
  "peers_confirm q view me minimum index i [] = None"
| "peers_confirm q view me minimum index i (m # ms) =
     (if rs_ID m = me then peers_confirm q view me minimum index (Suc i) ms
      else case peerRecovery q i m index of
             Inl e \<Rightarrow> Some e
           | Inr peer \<Rightarrow>
               if ry_Revision peer < minimum \<or> ry_Digest peer \<noteq> ry_Digest view then Some ConfirmationFailed
               else peers_confirm q view me minimum index (Suc i) ms)"

definition confirm_reconciled ::
  "'b server_env \<Rightarrow> recovery_state \<Rightarrow> node_status \<Rightarrow> u64 \<Rightarrow> u64 \<times> mutation_result \<Rightarrow> 'b node \<Rightarrow> (api_error + u64 \<times> mutation_result) \<times> 'b node" where
  "confirm_reconciled q view st minimum result n =
     (case peers_confirm q view (ns_NodeID st) minimum (fst result) (length (ns_Members st)) (ns_Members st) of
        Some e \<Rightarrow> (Inl e, n)
      | None \<Rightarrow>
          (case leader_state (q_env q) (q_view q 9) (q_view q 10) n of
             (Inl e, n) \<Rightarrow> (Inl (ApiNode e), n)
           | (Inr final, n) \<Rightarrow>
               if ry_ConfigurationIndex final \<noteq> ry_ConfigurationIndex view \<or> ry_Digest final \<noteq> ry_Digest view \<or> ry_Revision final < minimum
               then (Inl ChangedMeanwhile, n) else (Inr result, n)))"

definition server_reconcile ::
  "'b server_env \<Rightarrow> (string \<times> revision_receipt) list \<Rightarrow> 'b node \<Rightarrow> (api_error + u64 \<times> mutation_result) \<times> 'b node \<times> server_event list" where
  "server_reconcile q receipts n =
     (case leader_state (q_env q) (q_view q 1) (q_view q 2) n of
        (Inl e, n) \<Rightarrow> (Inl (ApiNode e), n, [])
      | (Inr view, n) \<Rightarrow>
      case node_Status (q_env q) (q_view q 3) n of
        (Some e, _) \<Rightarrow> (Inl (ApiNode e), n, [])
      | (None, st) \<Rightarrow>
      case peers_minimum q view (ns_NodeID st) 0 (ns_Members st) (max (max (ry_Revision view) (ry_Floor view)) 1) of
        Inl e \<Rightarrow> (Inl e, n, [])
      | Inr minimum \<Rightarrow>
      case gateways_minimum q receipts minimum n of
        Inl e \<Rightarrow> (Inl e, n, [])
      | Inr minimum \<Rightarrow>
      case ReconcileRevision (q_env q) (q_view q 4) (q_view q 5) (q_view q 6) (q_apply q 0) (q_view q 7) (q_view q 8) view minimum n of
        (Inl e, n) \<Rightarrow> (Inl (ApiNode e), n, [Reconciled minimum (Inl e)])
      | (Inr result, n) \<Rightarrow>
          (case confirm_reconciled q view st minimum result n of (res, n) \<Rightarrow> (res, n, [Reconciled minimum (Inr result)])))"

definition serve_reconcile :: "'b server_env \<Rightarrow> http_request \<Rightarrow> 'b node \<Rightarrow> reply \<times> 'b node \<times> server_event list" where
  "serve_reconcile q r n =
     (if hr_TLS r \<or> \<not> isLoopbackRequest q r then ((403, ErrorBody LocalOnly), n, [])
      else if \<not> IsLeader (q_view q 0) then ((409, ErrorBody LeaderOnly), n, [])
      else case readBody r of
             None \<Rightarrow> ((400, ErrorBody InvalidRequestBody), n, [])
           | Some raw \<Rightarrow>
               (case q_receipts q raw of
                  None \<Rightarrow> ((400, ErrorBody InvalidReceipt), n, [])
                | Some receipts \<Rightarrow>
                    (case server_reconcile q receipts n of
                       (Inl e, n, evs) \<Rightarrow> ((503, ErrorBody e), n, evs)
                     | (Inr (index, res), n, evs) \<Rightarrow> ((200, ResultBody index res), n, evs))))"

section \<open>The API\<close>

text \<open>The handlers by method and path; a pattern with GET answers HEAD as well.\<close>

datatype handler =
    Health | Status | Mutate | Barrier | MembersAdd | MembersRemove | TakeSnapshot | Export | ReplayCheckpoint | RecoveryStateOf | ReconcileRevisionOf | Restore

definition routes :: "(string \<times> string \<times> handler) list" where
  "routes =
     [(''GET'', ''/v1/health'', Health), (''GET'', ''/v1/status'', Status), (''POST'', ''/v1/mutate'', Mutate), (''POST'', ''/v1/barrier'', Barrier),
      (''POST'', ''/v1/members/add'', MembersAdd), (''POST'', ''/v1/members/remove'', MembersRemove), (''POST'', ''/v1/snapshot'', TakeSnapshot),
      (''GET'', ''/v1/export'', Export), (''POST'', ''/v1/replay-checkpoint'', ReplayCheckpoint), (''POST'', ''/v1/recovery-state'', RecoveryStateOf),
      (''POST'', ''/v1/reconcile-revision'', ReconcileRevisionOf), (''POST'', ''/v1/restore'', Restore)]"

definition find_handler :: "http_request \<Rightarrow> reply + handler" where
  "find_handler r =
     (case filter (\<lambda>(_, p, _). p = hr_Path r) routes of
        [] \<Rightarrow> Inl (404, ErrorBody NotFound)
      | hs \<Rightarrow> (case filter (\<lambda>(m, _, _). m = hr_Method r \<or> (m = ''GET'' \<and> hr_Method r = ''HEAD'')) hs of
                 (_, _, h) # _ \<Rightarrow> Inr h
               | [] \<Rightarrow> Inl (405, ErrorBody MethodNotAllowed)))"

definition run_handler :: "'b server_env \<Rightarrow> 'b node \<Rightarrow> http_request \<Rightarrow> handler \<Rightarrow> 'b node \<Rightarrow> reply \<times> 'b node \<times> server_event list" where
  "run_handler q restored r h n =
     (case h of
        Health \<Rightarrow> (serve_health q n, n, [])
      | Status \<Rightarrow> (serve_status q n, n, [])
      | Mutate \<Rightarrow> serve_mutate q r n
      | Barrier \<Rightarrow> (case serve_barrier q r n of (rep, n) \<Rightarrow> (rep, n, []))
      | MembersAdd \<Rightarrow> serve_addMember q r n
      | MembersRemove \<Rightarrow> serve_removeMember q r n
      | TakeSnapshot \<Rightarrow> (serve_snapshot q r n, n, [])
      | Export \<Rightarrow> (case serve_export q r n of (rep, n) \<Rightarrow> (rep, n, []))
      | ReplayCheckpoint \<Rightarrow> (case serve_checkpoint q n of (rep, n) \<Rightarrow> (rep, n, []))
      | RecoveryStateOf \<Rightarrow> (case serve_recovery q r n of (rep, n) \<Rightarrow> (rep, n, []))
      | ReconcileRevisionOf \<Rightarrow> serve_reconcile q r n
      | Restore \<Rightarrow> serve_restore q restored r n)"

text \<open>The local API asks for the token first; the cluster API relies on the certificates of TLS.\<close>

definition serve :: "'b server_env \<Rightarrow> string option \<Rightarrow> 'b node \<Rightarrow> http_request \<Rightarrow> 'b node \<Rightarrow> reply \<times> 'b node \<times> server_event list" where
  "serve q token restored r n =
     (if (case token of None \<Rightarrow> False | Some t \<Rightarrow> \<not> localAuth t r) then ((401, ErrorBody LocalAuthRequired), n, [])
      else case find_handler r of Inl rep \<Rightarrow> (rep, n, []) | Inr h \<Rightarrow> run_handler q restored r h n)"

end
