(* ===== verification/CtlServerProps.thy ===== *)
theory CtlServerProps
  imports CtlServer
begin

text \<open>The promises of the Controller's API: how a Controller joins, how revisions are reconciled, what is for the local administrator only, and what a
  follower has when it says that a mutation is done.\<close>

section \<open>Joining\<close>

text \<open>The life of a member as the cluster is to see it: its record is prepared before it joins, it votes only after it has the committed state, and
  each promotion is recorded.\<close>

datatype phase = Outside | Prepared | Joined | Active | Ready | Voting | Elector

definition committed :: "string \<Rightarrow> string \<Rightarrow> mutation \<Rightarrow> bool" where
  "committed nodeID kind command \<longleftrightarrow> mut_Kind command = kind \<and> map op_Path (mut_Operations command) = [controller_path nodeID]"

definition succeeded :: "'e + 'i \<times> mutation_result \<Rightarrow> bool" where
  "succeeded res = (case res of Inr (_, r) \<Rightarrow> res_OK r | Inl _ \<Rightarrow> False)"

definition record_step :: "string \<Rightarrow> phase \<Rightarrow> mutation \<Rightarrow> phase option" where
  "record_step nodeID p command =
     (if p = Outside \<and> committed nodeID ''PrepareController'' command then Some Prepared
      else if p = Joined \<and> committed nodeID ''ActivateControllerNonvoter'' command then Some Active
      else if p = Voting \<and> committed nodeID ''PromoteControllerVoter'' command then Some Elector else None)"

definition raft_step :: "string \<Rightarrow> phase \<Rightarrow> raft_server \<Rightarrow> phase option" where
  "raft_step nodeID p m =
     (if rs_ID m \<noteq> nodeID then None
      else if p = Prepared \<and> rs_Suffrage m = Nonvoter then Some Joined
      else if p = Ready \<and> rs_Suffrage m = Voter then Some Voting else None)"

fun phase_step :: "string \<Rightarrow> phase \<Rightarrow> server_event \<Rightarrow> phase option" where
  "phase_step nodeID p (Submitted command res) =
     (case record_step nodeID p command of None \<Rightarrow> None | Some p' \<Rightarrow> Some (if succeeded res then p' else p))"
| "phase_step nodeID p (AddedToRaft m) = raft_step nodeID p m"
| "phase_step nodeID p (CaughtUp i index) = (if i = nodeID \<and> p = Active then Some Ready else None)"
| "phase_step nodeID p e = None"

fun phases :: "string \<Rightarrow> phase \<Rightarrow> server_event list \<Rightarrow> phase option" where
  "phases nodeID p [] = Some p"
| "phases nodeID p (e # es) = (case phase_step nodeID p e of None \<Rightarrow> None | Some p' \<Rightarrow> phases nodeID p' es)"

lemma phases_append: "phases i p (xs @ ys) = Option.bind (phases i p xs) (\<lambda>p'. phases i p' ys)"
  by (induction xs arbitrary: p) (auto split: option.split)

lemma commit_record_phase:
  assumes "commit_record q j kind r n = (res, n', evs)" "record_step (cr_NodeID r) p (member_mutation q j kind r) = Some p'"
  shows "phases (cr_NodeID r) p evs = Some (if res = None then p else p')"
  using assms by (auto simp: commit_record_def Let_def succeeded_def split: prod.splits sum.splits if_splits)

lemma member_committed [simp]: "cr_NodeID r = i \<Longrightarrow> committed i kind (member_mutation q j kind' r) \<longleftrightarrow> kind' = kind"
  by (auto simp: committed_def member_mutation_def put_operation_def)

lemma join_raft_phase:
  assumes "join_raft q j r voter n = (res, n', evs)" "p = (if voter then Ready else Prepared)"
  shows "phases (cr_NodeID r) p evs = Some (if res = None then (if voter then Voting else Joined) else p)"
  using assms by (auto simp: join_raft_def AddMember_def Let_def raft_step_def split: sum.splits if_splits option.splits)

lemma promote_phase:
  assumes "promote_member q r revision n = (rep, n', evs)"
  shows "\<exists>p. phases (cr_NodeID r) Active evs = Some p \<and> (fst rep = 200 \<longleftrightarrow> p = Elector) \<and> (fst rep = 200 \<longrightarrow> (\<exists>v. snd rep = MemberBody v ''voter''))"
proof (cases "node_Status (q_env q) (q_view q 2) n")
  case (Pair e st)
  show ?thesis
  proof (cases "e = None \<and> waitControllerApplied q r (ns_CommitIndex st) = None")
    case False
    then show ?thesis using assms by (auto simp: promote_member_def Pair split: option.splits)
  next
    case True
    obtain e1 n1 evs1 where j: "join_raft q 1 r True n = (e1, n1, evs1)" by (rule prod_cases3)
    let ?r = "r\<lparr>cr_State := ''voter'', cr_UpdatedAt := q_now q 2\<rparr>"
    obtain e2 n2 evs2 where c: "commit_record q 2 ''PromoteControllerVoter'' ?r n1 = (e2, n2, evs2)" by (rule prod_cases3)
    note jp = join_raft_phase [OF j refl]
    have cp: "phases (cr_NodeID r) Voting evs2 = Some (if e2 = None then Voting else Elector)"
      using commit_record_phase [OF c, of Voting Elector] by (simp add: record_step_def)
    show ?thesis
      using assms True jp cp
      by (cases e1; cases e2) (auto simp: promote_member_def Pair j c Let_def phases_append simp del: One_nat_def)
  qed
qed

lemma admit_phase:
  assumes "admit_member q voter r n = (rep, n', evs)"
  shows "\<exists>p. phases (cr_NodeID r) Outside evs = Some p \<and> (fst rep = 200 \<longrightarrow> p = (if voter then Elector else Active))
    \<and> (fst rep = 200 \<longrightarrow> (\<exists>v. snd rep = MemberBody v (if voter then ''voter'' else ''nonvoter'')))"
proof -
  obtain e0 n0 evs0 where a: "commit_record q 0 ''PrepareController'' r n = (e0, n0, evs0)" by (rule prod_cases3)
  obtain e1 n1 evs1 where b: "join_raft q 0 r False n0 = (e1, n1, evs1)" by (rule prod_cases3)
  let ?r = "r\<lparr>cr_State := ''nonvoter'', cr_UpdatedAt := q_now q 1\<rparr>"
  obtain e2 n2 evs2 where c: "commit_record q 1 ''ActivateControllerNonvoter'' ?r n1 = (e2, n2, evs2)" by (rule prod_cases3)
  have ap: "phases (cr_NodeID r) Outside evs0 = Some (if e0 = None then Outside else Prepared)"
    using commit_record_phase [OF a, of Outside Prepared] by (simp add: record_step_def)
  have bp: "phases (cr_NodeID r) Prepared evs1 = Some (if e1 = None then Joined else Prepared)" using join_raft_phase [OF b refl] by simp
  have cp: "phases (cr_NodeID r) Joined evs2 = Some (if e2 = None then Joined else Active)"
    using commit_record_phase [OF c, of Joined Active] by (simp add: record_step_def)
  consider "e0 = None" | "e0 \<noteq> None" "e1 \<noteq> None" | "e0 \<noteq> None" "e1 = None" "e2 = None" | revision where "e0 \<noteq> None" "e1 = None" "e2 = Some revision"
    by fastforce
  then show ?thesis
  proof cases
    case 4
    obtain rep3 n3 evs3 where d: "promote_member q ?r revision n2 = (rep3, n3, evs3)" by (rule prod_cases3)
    obtain p where "phases (cr_NodeID r) Active evs3 = Some p" "fst rep3 = 200 \<longrightarrow> p = Elector" "fst rep3 = 200 \<longrightarrow> (\<exists>v. snd rep3 = MemberBody v ''voter'')"
      using promote_phase [OF d] by auto
    then show ?thesis
      using assms 4 ap bp cp d by (auto simp: admit_member_def a b c [simplified] Let_def phases_append split: if_splits)
  qed (use assms ap bp cp in \<open>auto simp: admit_member_def a b c [simplified] Let_def phases_append\<close>)
qed

text \<open>What it means that the other Controller has caught up.\<close>

lemma wait_controller_caught:
  "wait_controller q r target seen i nows = None \<Longrightarrow>
   target \<le> seen \<or> (\<exists>j h v. probeController q j r = Some h \<and> ph_last_applied h = Some v \<and> target \<le> v)"
proof (induction q r target seen i nows rule: wait_controller.induct)
  case (2 q r target seen i now nows)
  then show ?case by (fastforce simp: Let_def split: if_splits option.splits)
qed simp

definition caught_up :: "'b server_env \<Rightarrow> string \<Rightarrow> u64 \<Rightarrow> bool" where
  "caught_up q address target \<longleftrightarrow>
     target = 0 \<or> (\<exists>j r h v. cr_APIAddress r = address \<and> probeController q j r = Some h \<and> ph_last_applied h = Some v \<and> target \<le> v)"

lemma no_caught:
  "commit_record q j kind r n = (res, n', evs) \<Longrightarrow> CaughtUp i t \<in> set evs \<Longrightarrow> False"
  "join_raft q j r voter n = (x, n', evs) \<Longrightarrow> CaughtUp i t \<in> set evs \<Longrightarrow> False"
  by (auto simp: commit_record_def join_raft_def Let_def split: prod.splits sum.splits if_splits)

lemma promote_caught:
  assumes "promote_member q r revision n = (rep, n', evs)" "CaughtUp i t \<in> set evs"
  shows "caught_up q (cr_APIAddress r) t"
proof -
  have "waitControllerApplied q r t = None"
    using assms by (auto simp: promote_member_def Let_def split: prod.splits option.splits dest: no_caught)
  then show ?thesis using wait_controller_caught by (fastforce simp: waitControllerApplied_def caught_up_def)
qed

lemma admit_caught:
  assumes "admit_member q voter r n = (rep, n', evs)" "CaughtUp i t \<in> set evs"
  shows "caught_up q (cr_APIAddress r) t"
proof -
  obtain e0 n0 evs0 where a: "commit_record q 0 ''PrepareController'' r n = (e0, n0, evs0)" by (rule prod_cases3)
  obtain e1 n1 evs1 where b: "join_raft q 0 r False n0 = (e1, n1, evs1)" by (rule prod_cases3)
  let ?r = "r\<lparr>cr_State := ''nonvoter'', cr_UpdatedAt := q_now q 1\<rparr>"
  obtain e2 n2 evs2 where c: "commit_record q 1 ''ActivateControllerNonvoter'' ?r n1 = (e2, n2, evs2)" by (rule prod_cases3)
  have "CaughtUp i t \<notin> set evs0" "CaughtUp i t \<notin> set evs1" "CaughtUp i t \<notin> set evs2"
    using no_caught(1) [OF a] no_caught(2) [OF b] no_caught(1) [OF c] by blast+
  then have "CaughtUp i t \<in> set (snd (snd (promote_member q ?r (the e2) n2)))"
    using assms by (auto simp: admit_member_def a b c [simplified] Let_def split: option.splits if_splits prod.splits)
  moreover obtain x y z where p: "promote_member q ?r (the e2) n2 = (x, y, z)" by (rule prod_cases3)
  ultimately show ?thesis using promote_caught [OF p, of i t] by simp
qed

lemma check_add_request_ok:
  assumes "check_add_request q req = Inr r"
  shows "cr_NodeID r = am_NodeID req \<and> cr_APIAddress r = am_APIAddress req \<and> has_prefix (cr_PublicURL r) ''https://''
    \<and> length (cr_CertificateSHA256 r) = 64 \<and> hex_decode (cr_CertificateSHA256 r) \<noteq> None \<and> cr_StateSchema r = uint ControlSchemaVersion"
  using assms by (auto simp: check_add_request_def Let_def split: if_splits)


section \<open>Reconciling revisions\<close>

lemma peers_minimum_sound:
  "peers_minimum q view me i ms minimum = Inr minimum' \<Longrightarrow>
   minimum \<le> minimum' \<and> (\<forall>m \<in> set ms. rs_ID m \<noteq> me \<longrightarrow>
     (\<exists>j peer. peerRecovery q j m (ry_Index view) = Inr peer \<and> ry_Digest peer = ry_Digest view \<and> ry_ConfigurationIndex peer = ry_ConfigurationIndex view
        \<and> ry_Revision peer \<le> minimum' \<and> ry_Floor peer \<le> minimum'))"
proof (induction q view me i ms minimum rule: peers_minimum.induct)
  case (2 q view me i m ms minimum)
  show ?case
  proof (cases "rs_ID m = me")
    case True
    then show ?thesis using 2 by auto
  next
    case False
    then obtain peer where p: "peerRecovery q i m (ry_Index view) = Inr peer" "ry_Digest peer = ry_Digest view"
      "ry_ConfigurationIndex peer = ry_ConfigurationIndex view"
      and rest: "peers_minimum q view me (Suc i) ms (max minimum (max (ry_Revision peer) (ry_Floor peer))) = Inr minimum'"
      using 2(3) by (auto split: sum.splits if_splits)
    then have "max minimum (max (ry_Revision peer) (ry_Floor peer)) \<le> minimum'" using 2(2) [OF False p(1)] by auto
    then show ?thesis using 2(2) [OF False p(1)] p rest by auto
  qed
qed simp

lemma receipts_minimum_sound:
  "receipts_minimum q i key receipts gs minimum = Inr minimum' \<Longrightarrow>
   minimum \<le> minimum' \<and> (\<forall>g \<in> set gs. \<exists>receipt now v. map_of receipts g = Some receipt \<and> receiptRevision q key now receipt = Inr v \<and> v \<le> minimum')"
proof (induction q i key receipts gs minimum rule: receipts_minimum.induct)
  case (2 q i key receipts g gs minimum)
  then obtain receipt v where r: "map_of receipts g = Some receipt" "receiptRevision q key (q_now q i) receipt = Inr v"
    and rest: "receipts_minimum q (Suc i) key receipts gs (max minimum v) = Inr minimum'"
    by (auto split: option.splits sum.splits)
  then have "max minimum v \<le> minimum'" using 2(1) by auto
  then show ?case using 2(1) [OF r] r rest by auto
qed simp

lemma peers_confirm_sound:
  "peers_confirm q view me minimum index i ms = None \<Longrightarrow>
   \<forall>m \<in> set ms. rs_ID m \<noteq> me \<longrightarrow>
     (\<exists>j peer. peerRecovery q j m index = Inr peer \<and> minimum \<le> ry_Revision peer \<and> ry_Digest peer = ry_Digest view)"
proof (induction q view me minimum index i ms rule: peers_confirm.induct)
  case (2 q view me minimum index i m ms)
  then show ?case by (auto split: if_splits sum.splits simp: linorder_not_less)
qed simp

text \<open>What the leader knows of a member, before and after.\<close>

definition others :: "node_status \<Rightarrow> raft_server set" where
  "others st = {m \<in> set (ns_Members st). rs_ID m \<noteq> ns_NodeID st}"

definition agrees_before :: "'b server_env \<Rightarrow> recovery_state \<Rightarrow> u64 \<Rightarrow> raft_server \<Rightarrow> bool" where
  "agrees_before q view minimum m \<longleftrightarrow>
     (\<exists>j peer. peerRecovery q j m (ry_Index view) = Inr peer \<and> ry_Digest peer = ry_Digest view \<and> ry_ConfigurationIndex peer = ry_ConfigurationIndex view
        \<and> ry_Revision peer \<le> minimum \<and> ry_Floor peer \<le> minimum)"

definition confirms_after :: "'b server_env \<Rightarrow> recovery_state \<Rightarrow> u64 \<Rightarrow> u64 \<Rightarrow> raft_server \<Rightarrow> bool" where
  "confirms_after q view minimum index m \<longleftrightarrow>
     (\<exists>j peer. peerRecovery q j m index = Inr peer \<and> minimum \<le> ry_Revision peer \<and> ry_Digest peer = ry_Digest view)"

definition receipt_covered :: "'b server_env \<Rightarrow> (string \<times> revision_receipt) list \<Rightarrow> u64 \<Rightarrow> string \<Rightarrow> bool" where
  "receipt_covered q receipts minimum g \<longleftrightarrow>
     (\<exists>key receipt now v. q_ca q = Some key \<and> map_of receipts g = Some receipt \<and> receiptRevision q key now receipt = Inr v \<and> v \<le> minimum)"

lemma gateways_minimum_sound:
  assumes "gateways_minimum q receipts minimum n = Inr minimum'"
  shows "minimum \<le> minimum' \<and> (\<exists>gs. RecoveryGateways (q_env q) n = Inr gs \<and> (\<forall>g \<in> set gs. receipt_covered q receipts minimum' g))"
proof -
  obtain gs where gs: "RecoveryGateways (q_env q) n = Inr gs"
    using assms by (auto simp: gateways_minimum_def split: sum.splits)
  show ?thesis
  proof (cases "gs = []")
    case True
    then show ?thesis using assms gs by (auto simp: gateways_minimum_def split: if_splits)
  next
    case False
    then obtain key where key: "q_ca q = Some key" and r: "receipts_minimum q 0 key receipts gs minimum = Inr minimum'"
      using assms gs by (auto simp: gateways_minimum_def split: if_splits option.splits)
    show ?thesis using receipts_minimum_sound [OF r] gs key by (auto simp: receipt_covered_def)
  qed
qed

lemma confirm_reconciled_sound:
  assumes "confirm_reconciled q view st minimum result n = (Inr result', n')"
  shows "result' = result \<and> (\<forall>m \<in> others st. confirms_after q view minimum (fst result) m)
    \<and> (\<exists>final. ry_ConfigurationIndex final = ry_ConfigurationIndex view \<and> ry_Digest final = ry_Digest view \<and> minimum \<le> ry_Revision final
         \<and> leader_state (q_env q) (q_view q 9) (q_view q 10) n = (Inr final, n'))"
proof -
  have c: "peers_confirm q view (ns_NodeID st) minimum (fst result) (length (ns_Members st)) (ns_Members st) = None"
    using assms by (auto simp: confirm_reconciled_def split: option.splits)
  have "\<forall>m \<in> others st. confirms_after q view minimum (fst result) m"
    using peers_confirm_sound [OF c] by (auto simp: others_def confirms_after_def)
  then show ?thesis using assms c by (auto simp: confirm_reconciled_def linorder_not_less split: prod.splits sum.splits if_splits)
qed

text \<open>C10. A revision reconciliation that reports success has chosen its minimum not below the revision and the floor of the leader and of every other
  member, all of which had the same canonical state and configuration, nor below the revision in the signed receipt of every active Gateway; the
  reconciliation was committed with that minimum; after it every other member has confirmed a revision of at least the minimum with unchanged state, and
  the leader has confirmed the same of itself, with unchanged configuration, at the end.\<close>

theorem revision_reconciled:
  assumes "server_reconcile q receipts n = (Inr result, n', evs)"
  shows "\<exists>view st minimum n1 n2. leader_state (q_env q) (q_view q 1) (q_view q 2) n = (Inr view, n1)
    \<and> node_Status (q_env q) (q_view q 3) n1 = (None, st)
    \<and> ry_Revision view \<le> minimum \<and> ry_Floor view \<le> minimum \<and> 1 \<le> minimum \<and> (\<forall>m \<in> others st. agrees_before q view minimum m)
    \<and> (\<exists>gs. RecoveryGateways (q_env q) n1 = Inr gs \<and> (\<forall>g \<in> set gs. receipt_covered q receipts minimum g))
    \<and> evs = [Reconciled minimum (Inr result)]
    \<and> (\<forall>m \<in> others st. confirms_after q view minimum (fst result) m)
    \<and> (\<exists>final. ry_ConfigurationIndex final = ry_ConfigurationIndex view \<and> ry_Digest final = ry_Digest view \<and> minimum \<le> ry_Revision final
         \<and> leader_state (q_env q) (q_view q 9) (q_view q 10) n2 = (Inr final, n'))"
proof -
  obtain view n1 st minimum0 minimum n2 res where l: "leader_state (q_env q) (q_view q 1) (q_view q 2) n = (Inr view, n1)"
    and st: "node_Status (q_env q) (q_view q 3) n1 = (None, st)"
    and p: "peers_minimum q view (ns_NodeID st) 0 (ns_Members st) (max (max (ry_Revision view) (ry_Floor view)) 1) = Inr minimum0"
    and g: "gateways_minimum q receipts minimum0 n1 = Inr minimum"
    and e: "evs = [Reconciled minimum (Inr res)]"
    and c: "confirm_reconciled q view st minimum res n2 = (Inr result, n')"
    using assms by (auto simp: server_reconcile_def split: prod.splits sum.splits option.splits)
  note ps = peers_minimum_sound [OF p] and gs = gateways_minimum_sound [OF g] and cs = confirm_reconciled_sound [OF c]
  have "max (max (ry_Revision view) (ry_Floor view)) 1 \<le> minimum" using ps gs order_trans by blast
  then have "ry_Revision view \<le> minimum" "ry_Floor view \<le> minimum" "1 \<le> minimum" by simp_all
  moreover have "\<forall>m \<in> others st. agrees_before q view minimum m"
    using ps gs order_trans unfolding others_def agrees_before_def by blast
  ultimately show ?thesis using l st gs cs e by blast
qed

section \<open>For the local administrator only\<close>

fun ordinary :: "server_event \<Rightarrow> bool" where
  "ordinary (Submitted command res) \<longleftrightarrow> mut_Kind command \<noteq> ''ReconcileRevision'' \<and> mut_RevisionMinimum command = 0"
| "ordinary (RestoredSnapshot meta raw) \<longleftrightarrow> False"
| "ordinary (Reconciled minimum res) \<longleftrightarrow> False"
| "ordinary e \<longleftrightarrow> True"

lemma commit_record_ordinary:
  "commit_record q j kind r n = (res, n', evs) \<Longrightarrow> kind \<noteq> ''ReconcileRevision'' \<Longrightarrow> list_all ordinary evs"
  by (auto simp: commit_record_def member_mutation_def Let_def split: prod.splits sum.splits)

lemma join_raft_ordinary: "join_raft q j r voter n = (res, n', evs) \<Longrightarrow> list_all ordinary evs"
  by (auto simp: join_raft_def split: sum.splits)

lemma promote_ordinary: "promote_member q r revision n = (rep, n', evs) \<Longrightarrow> list_all ordinary evs"
  by (auto simp: promote_member_def Let_def split: prod.splits option.splits dest: commit_record_ordinary join_raft_ordinary)

lemma admit_ordinary: "admit_member q voter r n = (rep, n', evs) \<Longrightarrow> list_all ordinary evs"
  by (auto simp: admit_member_def Let_def split: prod.splits option.splits if_splits
      dest: commit_record_ordinary join_raft_ordinary promote_ordinary)

lemma add_ordinary: "serve_addMember q r n = (rep, n', evs) \<Longrightarrow> list_all ordinary evs"
  by (auto simp: serve_addMember_def split: option.splits if_splits sum.splits prod.splits dest: admit_ordinary)

lemma remove_ordinary: "serve_removeMember q r n = (rep, n', evs) \<Longrightarrow> list_all ordinary evs"
  by (auto simp: serve_removeMember_def expel_member_def revocation_mutation_def Let_def split: option.splits if_splits sum.splits prod.splits)

lemma mutate_ordinary: "serve_mutate q r n = (rep, n', evs) \<Longrightarrow> list_all ordinary evs"
  by (auto simp: serve_mutate_def split: option.splits if_splits sum.splits prod.splits)

lemma restore_events:
  assumes "serve_restore q restored r n = (rep, n', evs)" "e \<in> set evs"
  shows "isLoopbackRequest q r \<and> IsLeader (q_view q 0)
    \<and> (\<exists>meta raw c. e = RestoredSnapshot meta raw \<and> readClusterID q = Inr c \<and> SnapshotClusterID (q_env q) raw = Inr c)"
  using assms
  by (auto simp: serve_restore_def restore_checked_def RestoreSnapshot_def split: option.splits if_splits sum.splits prod.splits)

lemma reconcile_events:
  assumes "serve_reconcile q r n = (rep, n', evs)" "e \<in> set evs"
  shows "\<not> hr_TLS r \<and> isLoopbackRequest q r \<and> IsLeader (q_view q 0) \<and> (\<exists>minimum res. e = Reconciled minimum res)"
proof -
  have "\<exists>minimum res. e' = Reconciled minimum res" if "server_reconcile q receipts n = (x, m, es)" "e' \<in> set es" for receipts x m es e'
    using that by (auto simp: server_reconcile_def split: option.splits sum.splits prod.splits)
  then show ?thesis
    using assms by (auto simp: serve_reconcile_def split: option.splits if_splits sum.splits prod.splits)
qed

lemma run_handler_events:
  assumes "run_handler q restored r h n = (rep, n', evs)" "e \<in> set evs" "\<not> ordinary e"
  shows "h = Restore \<and> serve_restore q restored r n = (rep, n', evs) \<or> h = ReconcileRevisionOf \<and> serve_reconcile q r n = (rep, n', evs)"
  using assms
  by (cases h) (auto simp: run_handler_def list_all_iff split: prod.splits dest!: add_ordinary remove_ordinary mutate_ordinary)


section \<open>What a follower has seen\<close>

lemma WaitApplied_done:
  "WaitApplied env index deadline polls n = (Some None, n') \<Longrightarrow>
   \<exists>(now, v) \<in> set polls. time_before now deadline \<and> index \<le> rv_appliedIndex v"
proof (induction env index deadline polls n rule: WaitApplied.induct)
  case (2 env index deadline now v polls n0)
  then show ?case by (auto simp: Let_def split: if_splits option.splits prod.splits)
qed simp

lemma wait_local_done:
  assumes "wait_local q index n = (None, n')"
  shows "\<exists>(now, v) \<in> set (q_polls q). time_before now (q_deadline q) \<and> index \<le> rv_appliedIndex v"
  using assms by (intro WaitApplied_done [of "q_env q" _ _ _ n n']) (auto simp: wait_local_def split: prod.splits option.splits)

text \<open>C36. When a Controller that is not the leader reports a mutation as done, the leader has answered that it is, and this Controller has itself applied
  the log up to the entry of the mutation, or up to a barrier after it when the leader does not tell the entry, before the deadline: its files show the
  mutation to the caller that reads them next.\<close>

theorem read_your_writes:
  assumes "serve_mutate q r n = (rep, n', evs)" "\<not> IsLeader (q_view q 0)" "fst rep = 200"
  shows "\<exists>raw response index ok now v. readBody r = Some raw \<and> forwardBytes q 0 (hr_Method r) (hr_Path r) raw = Inr (response, 200)
    \<and> rep = (200, RawBody response) \<and> q_result q response = Some (index, ok) \<and> ok
    \<and> (now, v) \<in> set (q_polls q) \<and> time_before now (q_deadline q)
    \<and> (if index \<noteq> 0 then index \<le> rv_appliedIndex v
       else \<exists>barrier later revision. forwardBytes q 1 ''POST'' ''/v1/barrier'' [] = Inr (barrier, 200) \<and> q_barrier q barrier = Some (later, revision)
              \<and> later \<noteq> 0 \<and> later \<le> rv_appliedIndex v)"
proof -
  obtain raw where raw: "readBody r = Some raw" and f: "follow_mutation q r raw n = (rep, n')"
    using assms by (auto simp: serve_mutate_def split: option.splits if_splits prod.splits)
  obtain response i n1 where fw: "forwardBytes q 0 (hr_Method r) (hr_Path r) raw = Inr (response, 200)" and c: "confirm_index q response = Inr i"
    and w: "wait_local q i n = (None, n1)" and rep: "rep = (200, RawBody response)"
    using f assms(3) unfolding follow_mutation_def confirm_index_def by (auto split: sum.splits if_splits option.splits prod.splits)
  obtain index ok where res: "q_result q response = Some (index, ok)" "ok"
    using c by (auto simp: confirm_index_def split: option.splits if_splits)
  obtain now v where v: "(now, v) \<in> set (q_polls q)" "time_before now (q_deadline q)" "i \<le> rv_appliedIndex v"
    using wait_local_done [OF w] by blast
  show ?thesis
  proof (cases "index = 0")
    case True
    then obtain barrier revision where "forwardBytes q 1 ''POST'' ''/v1/barrier'' [] = Inr (barrier, 200)" "q_barrier q barrier = Some (i, revision)" "i \<noteq> 0"
      using c res by (auto simp: confirm_index_def split: sum.splits if_splits option.splits)
    then show ?thesis using raw fw rep res v True by auto
  next
    case False
    then have "i = index" using c res by (simp add: confirm_index_def)
    then show ?thesis using raw fw rep res v False by auto
  qed
qed

section \<open>Witnesses\<close>

text \<open>A Controller alone in its cluster, on the Node of \<^verbatim>\<open>CtlNode\<close>'s examples with a recorded schema.\<close>

definition ex_moment :: "int \<Rightarrow> gotime" where
  "ex_moment s = \<lparr>wall = s * second, mono = Some (s * second)\<rparr>"

definition ex_controller :: controller_record where
  "ex_controller = \<lparr>cr_NodeID = ''n2'', cr_RaftAddress = ''n2:1'', cr_APIAddress = ''n2:2'', cr_PublicURL = ''https://n2'', cr_State = ''voter'',
     cr_SoftwareVersion = [], cr_ProtocolVersion = 1, cr_StateSchema = 1, cr_CertificateSHA256 = [], cr_UpdatedAt = 0\<rparr>"

definition ex_add :: add_member_request where
  "ex_add = \<lparr>am_NodeID = ''n3'', am_RaftAddress = ''n3:1'', am_APIAddress = ''n3:2'', am_PublicURL = ''https://n3'', am_Voter = True,
     am_SoftwareVersion = [], am_ProtocolVersion = 1, am_StateSchema = 1, am_CertificateSHA256 = replicate 64 CHR ''a''\<rparr>"

definition ex_q :: "mutation \<Rightarrow> raft_view \<Rightarrow> (string \<times> byte list) list server_env" where
  "ex_q m v = \<lparr>q_node = ex_ck_env\<lparr>ck_node := ex_node_env m\<rparr>, q_view = (\<lambda>_. v), q_apply = (\<lambda>_. ex_future), q_done = (\<lambda>_. False),
     q_polls = [(ex_moment 1, ex_view)], q_deadline = ex_moment 10, q_probes = [], q_now = (\<lambda>_. 1), q_id = (\<lambda>_. ''m1''), q_file = (\<lambda>_. Some []),
     q_http = (\<lambda>_ _ _ _ _. Some \<lparr>pa_Status = 200, pa_Certificates = None, pa_Body = Some [1]\<rparr>), q_snapshots = None, q_root = ''/etc'',
     q_tls = \<lparr>tm_MembershipDir = [], tm_ClusterID = ''c1''\<rparr>, q_ca = None, q_ToLower = to_lower, q_ParseIP = (\<lambda>_. Some [127, 0, 0, 1]),
     q_verify = (\<lambda>_ _ _. False), q_record = (\<lambda>_. Some ex_controller), q_record_onto = (\<lambda>r _. r), q_encode_record = (\<lambda>_. []),
     q_encode_revocation = (\<lambda>_ _. []), q_add = (\<lambda>_. Some ex_add), q_remove = (\<lambda>_. None), q_restore = (\<lambda>_. None), q_result = (\<lambda>_. Some (1, True)),
     q_barrier = (\<lambda>_. None), q_health = (\<lambda>_. None), q_index = (\<lambda>_. None), q_encode_index = (\<lambda>_. []), q_recovery = (\<lambda>_. None),
     q_receipts = (\<lambda>_. Some []), q_snapshot_of = (\<lambda>_. None)\<rparr>"

definition ex_request :: "string \<Rightarrow> http_request" where
  "ex_request path = \<lparr>hr_Method = ''POST'', hr_Path = path, hr_RemoteAddr = ''127.0.0.1:5'', hr_TLS = False, hr_Authorization = ''Bearer t'', hr_Body = Some [1]\<rparr>"

definition ex_lone :: "(string \<times> byte list) list node" where
  "ex_lone = ex_node\<lparr>nd_fsm := (nd_fsm ex_node)\<lparr>fsm_store :=
     ex_old_store\<lparr>st_meta := [(keyRevision, u64key 7), (keyRevisionFloor, u64key 7), (keySchema, u64key 1)]\<rparr>\<rparr>\<rparr>"

lemma ex_lone_store:
  "store_revision alist_bolt (fsm_store (nd_fsm ex_lone)) = 7" "appliedIndex alist_bolt (fsm_store (nd_fsm ex_lone)) = 0"
  "revisionFloor alist_bolt (fsm_store (nd_fsm ex_lone)) = 7" "st_canonical (fsm_store (nd_fsm ex_lone)) = []" "fsm_files (nd_fsm ex_lone) = []"
  "nd_floor ex_lone = 7"
  by (simp_all add: ex_lone_def ex_node_def appliedIndex_def store_revision_def revisionFloor_def alist_bolt_def meta_keys ex_decode decodeU64_def [of None]
      ex_old_store_def)

lemma ex_lone_schema: "schemaVersion alist_bolt (fsm_store (nd_fsm ex_lone)) = 1"
proof -
  have "decodeU64 (Some (u64key 1)) = 1" by (simp add: decodeU64_def u64key_def be_decode_encode del: unat_1)
  then show ?thesis by (simp add: ex_lone_def ex_old_store_def schemaVersion_def alist_bolt_def meta_keys)
qed

lemma ex_view_fields: "rv_applied ex_view = []" "rv_leader ex_view" "rv_barrier ex_view" "rv_config ex_view = Some ([], 5)" "rv_commit ex_view = 1" "rv_appliedIndex ex_view = 1"
  by (simp_all add: ex_view_def)

lemma ex_future_ok: "\<not> ap_failed ex_future"
  by (simp add: ex_future_def)

lemma ex_view_advance [simp]: "node_advance env ex_view n = n"
  by (simp add: node_advance_def ex_view_fields)

lemma ex_projection:
  assumes "st_canonical (fsm_store f) = []" "fsm_files f = []"
  shows "\<exists>f'. ReconcileProjection (ne_ctl (ex_node_env m)) f = (None, f')"
proof -
  have "canonicalEntries alist_bolt (fsm_store f) = []" by (simp add: canonicalEntries_def assms alist_bolt_def)
  moreover have "ce_io_fail (ne_ctl (ex_node_env m)) op p = False" for op p by (simp add: ex_node_env_def ex_env_def)
  ultimately show ?thesis
    by (simp add: ReconcileProjection_def ex_node_bolt Let_def ScanReplicatedProjection_def assms map_filter_def)
qed

lemma ex_recovery_view:
  assumes "st_canonical (fsm_store (nd_fsm n)) = []" "schemaVersion alist_bolt (fsm_store (nd_fsm n)) = 1"
  shows "ry_Digest (recovery_view (ex_node_env m) i c n) = snapshotChecksum (ne_ctl (ex_node_env m)) 1 0 []"
    "ry_Revision (recovery_view (ex_node_env m) i c n) = store_revision alist_bolt (fsm_store (nd_fsm n))"
    "ry_Floor (recovery_view (ex_node_env m) i c n) = revisionFloor alist_bolt (fsm_store (nd_fsm n))"
    "ry_ConfigurationIndex (recovery_view (ex_node_env m) i c n) = c"
proof -
  have "canonicalEntries alist_bolt (fsm_store (nd_fsm n)) = []" by (simp add: canonicalEntries_def assms alist_bolt_def)
  then show "ry_Digest (recovery_view (ex_node_env m) i c n) = snapshotChecksum (ne_ctl (ex_node_env m)) 1 0 []"
    by (simp add: recovery_view_def Let_def ex_node_bolt assms)
qed (simp_all add: recovery_view_def Let_def ex_node_bolt)

lemma ex_leader_state: "leader_state env ex_view ex_view n = (Inr (recovery_view env 1 5 n), n)"
  by (simp add: leader_state_def Let_def ex_view_fields IsLeader_def)

lemma ex_lone_reconciled:
  defines "env \<equiv> ex_node_env (recovery_command 7)"
  shows "\<exists>r n'. ReconcileRevision env ex_view ex_view ex_view ex_future ex_view ex_view (recovery_view env 1 5 ex_lone) 7 ex_lone = (Inr (1, r), n')
    \<and> store_revision alist_bolt (fsm_store (nd_fsm n')) = 7 \<and> st_canonical (fsm_store (nd_fsm n')) = [] \<and> schemaVersion alist_bolt (fsm_store (nd_fsm n')) = 1"
proof -
  have m: "check_command (recovery_command 7) = None" "mut_Operations (recovery_command 7) = []"
    by (simp_all add: check_command_def recovery_command_def CommandVersion_def)
  obtain r f where ap: "fsm_Apply ((ne_ctl env)\<lparr>ce_commit_ok := True, ce_io_fail := (\<lambda>_ _. False)\<rparr>) 1 [] (nd_fsm ex_lone) = (r, f)" "res_OK r"
    and can: "st_canonical (fsm_store f) = []" "fsm_files f = []" "schemaVersion alist_bolt (fsm_store f) = 1"
    using ex_applied_at [OF m ex_lone_store(5,2,1,4)] unfolding env_def by blast
  have ra: "raft_apply env ex_future (ne_encode_mutation env (recovery_command 7)) ex_lone = (Some (1, r), ex_lone\<lparr>nd_fsm := f\<rparr>)"
    using ap(1) by (simp add: raft_apply_def ex_future_def env_def ex_node_env_def)
  have bo: "bolt_ok (ce_bolt (ne_ctl env))" using alist_bolt_ok by (simp add: env_def ex_node_bolt)
  have rev: "store_revision alist_bolt (fsm_store f) = 7"
    using fsm_Apply_OK(3) [OF _ ap(1) ap(2), of "recovery_command 7"] bo ex_lone_store
    by (simp add: env_def ex_node_bolt recovery_command_def)
  then have fl: "checkRevisionFloor env (ex_lone\<lparr>nd_fsm := f\<rparr>) = None"
    unfolding checkRevisionFloor_None by (simp add: env_def ex_node_bolt ex_lone_store)
  obtain f' where p: "ReconcileProjection (ne_ctl env) f = (None, f')" using ex_projection [OF can(1,2)] unfolding env_def by blast
  then have nr: "node_reconcile env (ex_lone\<lparr>nd_fsm := f\<rparr>) = (None, ex_lone\<lparr>nd_fsm := f'\<rparr>)" by (simp add: node_reconcile_def)
  have st: "fsm_store f' = fsm_store f" using node_reconcile_store [OF nr] by simp
  have sr: "\<exists>x. StrongRead env ex_view ex_view (ex_lone\<lparr>nd_fsm := f\<rparr>) = (Inr x, ex_lone\<lparr>nd_fsm := f'\<rparr>)"
    using fl nr by (simp add: StrongRead_def Let_def ex_view_fields IsLeader_def)
  have vs: "ry_Floor (recovery_view env 1 5 ex_lone) = 7" "ry_Revision (recovery_view env 1 5 ex_lone) = 7"
    unfolding env_def by (simp_all add: ex_recovery_view ex_lone_store ex_lone_schema)
  have "ReconcileRevision env ex_view ex_view ex_view ex_future ex_view ex_view (recovery_view env 1 5 ex_lone) 7 ex_lone = (Inr (1, r), ex_lone\<lparr>nd_fsm := f'\<rparr>)"
    using ap(2) sr ex_future_ok by (auto simp: ReconcileRevision_def Let_def ex_view_fields IsLeader_def ex_leader_state vs ra)
  then show ?thesis using rev can st by auto
qed

lemma ex_q_fields [simp]:
  "ck_node (q_node (ex_q m v)) = ex_node_env m" "q_view (ex_q m v) i = v" "q_apply (ex_q m v) i = ex_future" "q_receipts (ex_q m v) raw = Some []"
  "q_ParseIP (ex_q m v) h = Some [127, 0, 0, 1]" "q_polls (ex_q m v) = [(ex_moment 1, ex_view)]" "q_deadline (ex_q m v) = ex_moment 10"
  "q_result (ex_q m v) raw = Some (1, True)" "q_add (ex_q m v) raw = Some ex_add" "q_done (ex_q m v) i = False" "q_ToLower (ex_q m v) = to_lower"
  "q_file (ex_q m v) path = Some []" "q_record (ex_q m v) raw = Some ex_controller"
  "q_http (ex_q m v) i meth address path body = Some \<lparr>pa_Status = 200, pa_Certificates = None, pa_Body = Some [1]\<rparr>"
  by (simp_all add: ex_q_def ex_ck_env_def)

lemma ex_lone_status: "\<exists>st. node_Status env ex_view n = (None, st) \<and> ns_Members st = []"
  by (simp add: node_Status_def Let_def ex_view_fields)

lemma ex_lone_served:
  "\<exists>r n'. server_reconcile (ex_q (recovery_command 7) ex_view) [] ex_lone = (Inr (1, r), n', [Reconciled 7 (Inr (1, r))])"
proof -
  let ?env = "ex_node_env (recovery_command 7)" and ?q = "ex_q (recovery_command 7) ex_view"
  obtain st where st: "node_Status ?env ex_view ex_lone = (None, st)" "ns_Members st = []" using ex_lone_status by blast
  obtain r n' where rr: "ReconcileRevision ?env ex_view ex_view ex_view ex_future ex_view ex_view (recovery_view ?env 1 5 ex_lone) 7 ex_lone = (Inr (1, r), n')"
    and n': "store_revision alist_bolt (fsm_store (nd_fsm n')) = 7" "st_canonical (fsm_store (nd_fsm n')) = []" "schemaVersion alist_bolt (fsm_store (nd_fsm n')) = 1"
    using ex_lone_reconciled by blast
  have "RecoveryGateways ?env ex_lone = Inr []" by (simp add: RecoveryGateways_def ex_node_bolt ex_lone_store) (simp add: alist_bolt_def)
  then have g: "gateways_minimum ?q [] 7 ex_lone = Inr 7" by (simp add: gateways_minimum_def)
  have "confirm_reconciled ?q (recovery_view ?env 1 5 ex_lone) st 7 (1, r) n' = (Inr (1, r), n')"
    using n' by (simp add: confirm_reconciled_def st ex_leader_state ex_recovery_view ex_lone_store ex_lone_schema)
  then show ?thesis
    using rr g by (simp add: server_reconcile_def ex_leader_state st ex_recovery_view ex_lone_store ex_lone_schema)
qed

theorem revision_reconciled_witness:
  "\<exists>minimum result n'. server_reconcile (ex_q (recovery_command 7) ex_view) [] ex_lone = (Inr result, n', [Reconciled minimum (Inr result)])
     \<and> 1 \<le> minimum"
proof -
  obtain r n' where n: "server_reconcile (ex_q (recovery_command 7) ex_view) [] ex_lone = (Inr (1, r), n', [Reconciled 7 (Inr (1, r))])"
    using ex_lone_served by blast
  from revision_reconciled [OF n] n show ?thesis by blast
qed

lemma ex_loopback: "isLoopbackRequest (ex_q m v) (ex_request path)"
proof -
  have "SplitHostPort ''127.0.0.1:5'' = Some (''127.0.0.1'', ''5'')" by code_simp
  then show ?thesis by (simp add: isLoopbackRequest_def ex_request_def IsLoopback_def To4_def)
qed

lemma ex_body: "readBody (ex_request path) = Some [1]"
  by (simp add: readBody_def ex_request_def maxRequestBody_def)


definition ex_follower_view :: raft_view where
  "ex_follower_view = ex_view\<lparr>rv_leader := False, rv_leader_id := ''n2''\<rparr>"

lemma ex_before: "time_before (ex_moment 1) (ex_moment 10)"
  by (simp add: ex_moment_def time_before_def time_diff_def)

theorem read_your_writes_witness:
  "\<exists>n' v. serve_mutate (ex_q ex_touch ex_follower_view) (ex_request ''/v1/mutate'') ex_lone = ((200, RawBody [1]), n', [])
     \<and> (ex_moment 1, v) \<in> set (q_polls (ex_q ex_touch ex_follower_view)) \<and> 1 \<le> rv_appliedIndex v"
proof -
  let ?q = "ex_q ex_touch ex_follower_view" and ?r = "ex_request ''/v1/mutate''"
  have follower: "\<not> IsLeader (q_view ?q 0)" by (simp add: IsLeader_def ex_follower_view_def)
  have "SplitHostPort ''n2:2'' = Some (''n2'', ''2'')" by code_simp
  then have fw: "forwardBytes ?q 0 meth path body = Inr ([1], 200)" for meth path body
    by (simp add: forwardBytes_def leaderAPI_def Leader_def record_of_def ex_follower_view_def ex_controller_def maxRequestBody_def)
  obtain f' where p: "ReconcileProjection (ne_ctl (ex_node_env ex_touch)) (nd_fsm ex_lone) = (None, f')"
    using ex_projection [OF ex_lone_store(4,5)] by blast
  have "checkRevisionFloor (ex_node_env ex_touch) ex_lone = None" unfolding checkRevisionFloor_None by (simp add: ex_node_bolt ex_lone_store)
  then have w: "wait_local ?q 1 ex_lone = (None, ex_lone\<lparr>nd_fsm := f'\<rparr>)"
    using p by (simp add: wait_local_def ex_before ex_view_fields node_reconcile_def)
  have m: "mut_Kind ex_touch = ''Touch''" "mut_RevisionMinimum ex_touch = 0" by (simp_all add: ex_touch_def)
  have s: "serve_mutate ?q ?r ex_lone = ((200, RawBody [1]), ex_lone\<lparr>nd_fsm := f'\<rparr>, [])"
    using follower w ex_body [of "''/v1/mutate''"] by (simp add: serve_mutate_def ex_node_bolt m follow_mutation_def fw confirm_index_def)
  obtain v where "(ex_moment 1, v) \<in> set (q_polls ?q)" "1 \<le> rv_appliedIndex v"
    using read_your_writes [OF s follower] by (auto split: if_splits)
  then show ?thesis using s by blast
qed

lemma ex_add_checked: "\<exists>c. check_add_request (ex_q m v) ex_add = Inr c"
proof -
  have h: "hex_decode (replicate (2 * n) CHR ''a'') = Some (replicate n 0xAA)" for n
  proof (induction n)
    case (Suc n)
    have "hex_val CHR ''a'' = Some 10" by code_simp
    with Suc show ?case by simp
  qed simp
  have "trim_space (replicate 64 CHR ''a'') = replicate 64 CHR ''a''" "trim_space ''https://n3'' = ''https://n3''"
    by (rule trim_space_plain; simp add: space_bytes_def space_seqs_def)+
  moreover have "to_lower (replicate 64 CHR ''a'') = replicate 64 CHR ''a''" unfolding to_lower_def map_replicate by simp
  moreover have "trim_right_char CHR ''/'' ''https://n3'' = ''https://n3''" by code_simp
  ultimately show ?thesis
    using h [of 32] by (simp add: check_add_request_def ex_add_def ProtocolVersion_def ControlSchemaVersion_def has_prefix_def)
qed


text \<open>The identifier of a new Controller is not checked before it becomes part of a path, and paths are cleaned: a record can be written over one of another kind.\<close>

lemma member_record_escapes: "NormalizeReplicatedPath (controller_path ''../../control/devices/d1'') = Inr ''control/devices/d1.json''"
  by code_simp

end
