(* ===== verification/Spec2Isabelle.thy ===== *)
theory Spec2Isabelle
  imports RoutedMeshProps RoutedRouterProps CtlSnapshotProps CtlLogProps P2pProps P2pStoreProps P2pRelayProps WgTcp WgPath WgAdaptive WgMulti WgFlow CtlCheckpoint AgentTunnel RoutedNode CtlServerProps
begin

text \<open>
  \<^bold>\<open>A verification library for BPC\<close>, a private overlay network in Go. Nodes carry IPv4 packets over an
  authenticated UDP mesh along paths that a Controller has issued (\<^verbatim>\<open>internal/routed\<close>); the Controllers
  replicate the cluster's state with Raft (\<^verbatim>\<open>internal/controlplane\<close>); two Devices of one owner can get a
  short-lived session of their own, filtered to one service and relayed (\<^verbatim>\<open>internal/p2p\<close>); and WireGuard
  packets are carried inside sealed packets over UDP or TCP between Devices and relays
  (\<^verbatim>\<open>internal/wgshim\<close>). Daemons put these parts together: the routed Node (\<^verbatim>\<open>cmd/bpc-routed-node\<close>), the Controller
  (\<^verbatim>\<open>cmd/bpc-controld\<close>) and the agent on a Device (\<^verbatim>\<open>cmd/bpc-agent\<close> on \<^verbatim>\<open>internal/agentctl\<close>). The file and function names below are those under \<^verbatim>\<open>src/\<close>; a definition has the name of
  the function it translates, with a prefix such as \<open>mesh_\<close> or \<open>fsm_\<close> where that name is taken.

  \<^bold>\<open>Conventions.\<close> A Go struct is a record, a map an association list with distinct keys, a machine integer a
  word of its width, a string the list of its bytes as characters. An error is a value of a sum or option
  type, an index out of range an outcome of its own. Every reading of the clock is an argument: a time has
  a wall and a monotonic reading and is compared as \<^verbatim>\<open>time.Time\<close> does (\<open>GoTime\<close>). A method that runs under
  its lock is one step; concurrency is any order of steps (the \<open>inductive\<close> relations \<open>mesh_step\<close>,
  \<open>policy_trace\<close>, \<open>auth_step\<close>, \<open>mux_step\<close>, \<open>relay_trace\<close>, \<open>path_run\<close>, \<open>adaptive_run\<close>, \<open>multi_run\<close>, \<open>flow_run\<close>,
  \<open>server_run\<close>, \<open>node_run\<close>, \<open>kstep\<close>, \<open>node_step\<close>); a value that a goroutine has read before is an argument of the step that uses it. Code outside the repository is a parameter:
  cryptography, JSON codecs, bbolt, name resolution and the outcome of every socket, file and commit
  operation, with the documented laws a theorem needs as its hypotheses, and a concrete instance in its
  witness.

  \<^bold>\<open>Shared theories.\<close> \<open>Prelude\<close> (bytes, big-endian codecs, slices, \<^verbatim>\<open>strings.TrimSpace\<close>, \<^verbatim>\<open>sort.Slice\<close>, association
  lists), \<open>GoTime\<close>, \<open>Float64\<close> (rounding of every floating-point operation), \<open>NetIP\<close> and \<open>NetUDP\<close> (\<^verbatim>\<open>net/netip\<close>,
  \<^verbatim>\<open>net.UDPAddr\<close>), \<open>Encoding\<close> (hexadecimal and base64, with their round trips), \<open>GoPath\<close> (\<^verbatim>\<open>path.Clean\<close> and
  \<^verbatim>\<open>path.Join\<close>), \<open>Framing\<close> (length-prefixed frames on a stream: a locale \<open>framing\<close>, interpreted for the TCP
  transport).

  \<^bold>\<open>The mesh.\<close> \<open>RoutedConfig\<close> (\<^verbatim>\<open>config.go\<close>), \<open>RoutedFrame\<close> (\<^verbatim>\<open>frame.go\<close>: the frame codec and the receive check),
  \<open>WgCodec\<close> (\<^verbatim>\<open>wgshim/codec.go\<close>: sealed packets), \<open>RoutedSession\<close> (\<^verbatim>\<open>session.go\<close> and \<^verbatim>\<open>meshPeer\<close>: epochs,
  the 64-bit replay window), \<open>RoutedMesh\<close> (\<^verbatim>\<open>mesh.go\<close>: probes, challenges, data, reconciliation), \<open>RoutedRouter\<close>
  (\<^verbatim>\<open>router.go\<close>: path choice, forwarding, reverse paths). \<open>RoutedMeshProps\<close> shows the invariant of every
  reachable mesh, that a packet is delivered at most once in a session, that the replay window refines the
  set of numbers seen, that an epoch is learned only from the answer to an outstanding challenge, and the
  round trips of codec and session. \<open>RoutedRouterProps\<close> shows that nothing is forwarded or written that the
  policy does not authorize, that the receive check is exactly that authorization, that an approved frame
  reaches its last Node hop by hop, longest-prefix routing, and the hysteresis of the path choice.
  \<open>MeshScenario\<close> holds the concrete mesh of the witnesses.

  \<^bold>\<open>The routed Node's daemon.\<close> \<open>RoutedKernel\<close> (\<^verbatim>\<open>bpc-routed-node/policy.go\<close> and the kernel state of \<^verbatim>\<open>main.go\<close>: routes, policy rule and packet
  filter by commands, the commands with their outcomes kept as a log) and \<open>RoutedNode\<close> (\<^verbatim>\<open>main.go\<close>: start, reload, the packet loops and the status, with
  mesh, router and kernel state composed). \<open>RoutedKernelProps\<close> shows that what the commands installed is at all times what the state records,
  that nothing of others is replaced or removed, that the mesh rule never stands without its unreachable default, and that a successful
  reconciliation ends in the configured state and then is idle; \<open>RoutedNode\<close> the invariant of the whole process and that everything it writes to its
  interface came authenticated over an approved path.

  \<^bold>\<open>The control plane.\<close> \<open>CtlStore\<close> (\<^verbatim>\<open>store.go\<close>: the Raft log, stable and canonical state in bbolt) and \<open>CtlFSM\<close>
  (\<^verbatim>\<open>fsm.go\<close>: applying a mutation, route ownership, the projection to files, snapshots). \<open>CtlFSMLemmas\<close> and
  \<open>CtlFSMProps\<close> show that under any sequence of log entries and failures every route has one active, authorized
  owner and no address two, that the check is equivalent to that property, that replayed entries change
  nothing, and that replicated paths stay below the state directory. \<open>CtlSnapshotProps\<close> has snapshots
  (restoring is all or nothing and transfers the state) and the projection (it mirrors the state).
  \<open>CtlLogProps\<close> states the contract Raft expects of its log store as the locale \<open>raft_log_store\<close>, interpreted on the
  model's store as \<open>bolt_logs\<close>, and derives suffix replacement, compaction and the replay floor. \<open>CtlNode\<close> (\<^verbatim>\<open>node.go\<close>, \<^verbatim>\<open>reconcile.go\<close>:
  start, mutations, reads, membership, snapshots, revision reconciliation; Raft's answers are arguments) shows that no
  revision is used twice across restarts, that a Controller below its floor fails closed, and that reconciliation
  only raises the revision. \<open>CtlCheckpoint\<close> (\<^verbatim>\<open>checkpoint.go\<close> and the peer check of \<^verbatim>\<open>tls.go\<close>) shows that an accepted checkpoint can be
  restored and that installing one keeps the database and trusts only a recorded voter. \<open>CtlServer\<close> (\<^verbatim>\<open>bpc-controld/main.go\<close>, \<^verbatim>\<open>reconcile.go\<close>: the
  handlers of the API over such a Node, what the other Controllers answer being an argument) and \<open>CtlServerProps\<close> show that a Controller joins
  only through the staged protocol, that a reported revision reconciliation covers and was confirmed by all members and Gateways, that
  restoring and reconciling are for the local administrator, and that a follower reports a mutation only after it has applied it.

  \<^bold>\<open>Device sessions.\<close> \<open>P2pGrant\<close> (\<^verbatim>\<open>grant.go\<close>: signed grants and their validation), \<open>P2pPolicy\<close> (\<^verbatim>\<open>policy.go\<close>: the
  packet filter), \<open>P2pAuthority\<close> (\<^verbatim>\<open>authority.go\<close>: the Device's store of revisions and denials), \<open>P2pMux\<close>
  (\<^verbatim>\<open>mux.go\<close>: one adapter shared with the gateway), \<open>P2pRelay\<close> (\<^verbatim>\<open>relay.go\<close>: rooms and connections).
  \<open>P2pProps\<close>, \<open>P2pStoreProps\<close> (on \<open>P2pAuthorityLemmas\<close>) and \<open>P2pRelayProps\<close> show what a verified session stands for, that
  the Host can only answer in flows the Initiator opened, that an ended session stays ended across
  restarts, that checkpoints fail closed and only go forward, that reserved traffic never crosses the
  gateway's side, and that a relay forwards only between the two participants of one live session.
  \<open>P2pScenario\<close> holds the grant of the witnesses.

  \<^bold>\<open>The WireGuard shim.\<close> \<open>WgTcp\<close> (\<^verbatim>\<open>tcp.go\<close>: frames on a stream, the client's link, the server's connections),
  \<open>WgPath\<close> (\<^verbatim>\<open>path.go\<close>: the choice among relay endpoints), \<open>WgUdp\<close> (\<^verbatim>\<open>relay.go\<close>: the plain client and server), \<open>WgAdaptive\<close>
  (\<^verbatim>\<open>relay.go\<close>: the client with several servers), \<open>WgMulti\<close> (\<^verbatim>\<open>multi.go\<close>: one server for many clients) and \<open>WgFlow\<close> (\<^verbatim>\<open>flow.go\<close>,
  \<^verbatim>\<open>transport.go\<close>: several sockets to one relay), with their properties at the end of each theory:
  packet boundaries survive any split of the stream, a connection is bound to one authenticated peer, an
  endpoint is changed only for a stated reason and planned changes do not flap, the tunnel is transparent, clients
  of a shared server are isolated and leak no socket, the adaptive client never indexes out of range and talks to its servers
  only, a packet leaves on the first working flow, and a round selects the flow with the most and fastest answers.

  \<^bold>\<open>The agent on a Device.\<close> \<open>AgentText\<close> (number, host and address parsing of the standard library), \<open>AgentProfile\<close> (\<^verbatim>\<open>agentctl\<close>:
  profiles, paths, bootstrap, runtime configuration, update manifests and their validation), \<open>AgentClient\<close> (the client of the Controllers' API, with
  \<open>AgentClientProps\<close>: failover, requests only to the HTTPS pool, the order of versions, what a signature binds), \<open>AgentState\<close> (the state file,
  enrollment, synchronization, sign-in recovery), \<open>AgentUpdate\<close> (staging an update, payloads appended to the program), \<open>AgentProps\<close> (the enrolled
  identity survives; an update is vouched for), \<open>AgentRuntime\<close> (the supervisor of transport and overlay, with the locale \<open>single_job\<close>) and
  \<open>AgentTunnel\<close> (the device's configuration protocol, telemetry, name resolution, the older tunnel).

  \<^bold>\<open>Bounds.\<close> No loop runs on fuel but \<open>read_frames\<close>, the reader of a whole stream, which is given more steps than the
  stream has bytes; a frame has at least four, so the theorems about it reach the end of the stream. The
  loops of \<^verbatim>\<open>Read\<close> methods that wait for a device run over the list of what the device delivers.

  \<^bold>\<open>Not modelled.\<close> The Windows service, user interface and PowerShell scripts of the agent and its loop over Device sessions
  (\<^verbatim>\<open>cmd/bpc-agent\<close>), the commands that only parse flags and start a modelled part (\<^verbatim>\<open>cmd/bpc-wgshim\<close>, \<^verbatim>\<open>cmd/bpc-p2p-relay\<close>,
  \<^verbatim>\<open>cmd/bpc-agent-relay\<close>), flags, signals and listeners of the daemons, TLS setup (\<^verbatim>\<open>controlplane/tls.go\<close> but the check of a peer), the
  endpoint's own WireGuard device (\<^verbatim>\<open>p2p/managed_endpoint.go\<close>, the lifecycle of a third-party library's device), and of the modelled files the loops that only
  accept, dial or copy between sockets, the goroutines that close sockets on cancellation, and logging.
\<close>

end
